(* ===== verification/Prelude.thy ===== *)
theory Prelude
  imports Main "HOL-Library.Word" "HOL-Library.List_Lexorder" "HOL-Library.AList"
begin

text \<open>
  The prelude: what every component of the Kurobara core shares.
  \<^item> JavaScript strings as lists of UTF-16 code units, with \<open>trim\<close> and the
    code-point count of a \<open>for .. of\<close> loop;
  \<^item> \<open>DomainResult\<close> as a sum (\<open>Inl\<close> the failure, \<open>Inr\<close> the value);
  \<^item> the insertion-ordered \<open>Map\<close> and \<open>Set\<close> of the standard library as
    association lists and lists without repetition;
  \<^item> the collections that the component proofs extend.
\<close>

named_theorems guard_simps \<open>characterisations of the guards of the code\<close>
named_theorems field_frame \<open>fields that an operation leaves as they are\<close>


section \<open>Results\<close>

type_synonym ('v, 'e) domain_result = "'e + 'v"

abbreviation succeed :: "'v \<Rightarrow> ('v, 'e) domain_result" where
  "succeed v \<equiv> Inr v"

abbreviation fail :: "'e \<Rightarrow> ('v, 'e) domain_result" where
  "fail e \<equiv> Inl e"

abbreviation ok :: "('v, 'e) domain_result \<Rightarrow> bool" where
  "ok r \<equiv> \<not> isl r"

text \<open>The idiom \<open>if (!r.ok) return r;\<close> followed by the use of \<open>r.value\<close>.\<close>

definition and_then ::
  "('v, 'e) domain_result \<Rightarrow> ('v \<Rightarrow> ('w, 'e) domain_result) \<Rightarrow> ('w, 'e) domain_result" where
  "and_then r f = (case r of Inl e \<Rightarrow> Inl e | Inr v \<Rightarrow> f v)"

lemma and_then_simps [simp]:
  "and_then (Inl e) f = Inl e"
  "and_then (Inr v) f = f v"
  by (simp_all add: and_then_def)

lemma and_then_eq_Inr [simp]:
  "and_then r f = Inr w \<longleftrightarrow> (\<exists>v. r = Inr v \<and> f v = Inr w)"
  by (cases r) simp_all

lemma and_then_eq_Inl:
  "and_then r f = Inl e \<longleftrightarrow> r = Inl e \<or> (\<exists>v. r = Inr v \<and> f v = Inl e)"
  by (cases r) simp_all

lemma ok_iff: "ok r \<longleftrightarrow> (\<exists>v. r = Inr v)"
  by (cases r) simp_all

text \<open>A guard at the head of a function: it succeeds exactly when the guard does not fire.\<close>

lemma guard_eq_Inr [simp]:
  "(if b then Inl e else r) = Inr v \<longleftrightarrow> \<not> b \<and> r = Inr v"
  by simp


section \<open>JavaScript strings\<close>

type_synonym code_unit = "16 word"
type_synonym jstring = "code_unit list"

definition lit :: "string \<Rightarrow> jstring" where
  "lit s = map (\<lambda>c. word_of_nat (of_char c)) s"

text \<open>White space and line terminators, the characters that \<open>trim\<close> removes.\<close>

definition js_space :: "code_unit \<Rightarrow> bool" where
  "js_space u \<longleftrightarrow>
     (9 \<le> u \<and> u \<le> 13) \<or> u = 32 \<or> u = 0xA0 \<or> u = 0x1680 \<or>
     (0x2000 \<le> u \<and> u \<le> 0x200A) \<or> u = 0x2028 \<or> u = 0x2029 \<or> u = 0x202F \<or>
     u = 0x205F \<or> u = 0x3000 \<or> u = 0xFEFF"

definition trim :: "jstring \<Rightarrow> jstring" where
  "trim s = rev (dropWhile js_space (rev (dropWhile js_space s)))"

text \<open>\<open>value.trim().length === 0\<close>\<close>

definition blank :: "jstring \<Rightarrow> bool" where
  "blank s \<longleftrightarrow> length (trim s) = 0"

lemma dropWhile_all: "(\<forall>u\<in>set (dropWhile P s). P u) \<longleftrightarrow> (\<forall>u\<in>set s. P u)"
  by (induction s) auto

lemma blank_iff: "blank s \<longleftrightarrow> (\<forall>u\<in>set s. js_space u)"
  by (simp add: blank_def trim_def dropWhile_all)

lemma blank_Nil [simp]: "blank []"
  by (simp add: blank_iff)

lemma blank_Cons [simp]: "blank (u # s) \<longleftrightarrow> js_space u \<and> blank s"
  by (simp add: blank_iff)

text \<open>The number of code points that a \<open>for (const c of value)\<close> loop visits.\<close>

definition high_surrogate :: "code_unit \<Rightarrow> bool" where
  "high_surrogate u \<longleftrightarrow> 0xD800 \<le> u \<and> u \<le> 0xDBFF"

definition low_surrogate :: "code_unit \<Rightarrow> bool" where
  "low_surrogate u \<longleftrightarrow> 0xDC00 \<le> u \<and> u \<le> 0xDFFF"

fun code_points :: "jstring \<Rightarrow> nat" where
  "code_points [] = 0"
| "code_points [u] = 1"
| "code_points (u # v # s) =
     (if high_surrogate u \<and> low_surrogate v then Suc (code_points s)
      else Suc (code_points (v # s)))"

lemma code_points_le_length: "code_points s \<le> length s"
  by (induction s rule: code_points.induct) auto

lemma length_le_twice_code_points: "length s \<le> 2 * code_points s"
  by (induction s rule: code_points.induct) auto

lemma code_points_pos: "s \<noteq> [] \<Longrightarrow> 0 < code_points s"
  by (cases s rule: code_points.cases) auto


section \<open>Sets and maps of the standard library\<close>

text \<open>\<open>new Set(xs).size\<close>\<close>

definition set_size :: "'a list \<Rightarrow> nat" where
  "set_size xs = length (remdups xs)"

lemma set_size_distinct [simp]: "set_size xs = length xs \<longleftrightarrow> distinct xs"
  by (simp add: set_size_def)

text \<open>
  A \<open>Map\<close> keeps its keys in insertion order, and a second \<open>set\<close> of a key overwrites
  the value in place: exactly \<open>AList.update\<close>.
\<close>

type_synonym ('k, 'v) js_map = "('k \<times> 'v) list"

definition map_get :: "('k, 'v) js_map \<Rightarrow> 'k \<Rightarrow> 'v option" where
  "map_get m k = map_of m k"

definition map_set :: "'k \<Rightarrow> 'v \<Rightarrow> ('k, 'v) js_map \<Rightarrow> ('k, 'v) js_map" where
  "map_set k v m = AList.update k v m"

definition map_has :: "('k, 'v) js_map \<Rightarrow> 'k \<Rightarrow> bool" where
  "map_has m k \<longleftrightarrow> map_get m k \<noteq> None"

definition map_keys :: "('k, 'v) js_map \<Rightarrow> 'k list" where
  "map_keys m = map fst m"

text \<open>\<open>new Map(entries)\<close>\<close>

definition map_from :: "('k \<times> 'v) list \<Rightarrow> ('k, 'v) js_map" where
  "map_from kvs = fold (\<lambda>(k, v) m. map_set k v m) kvs []"

locale keyed_store =
  fixes get :: "'m \<Rightarrow> 'k \<Rightarrow> 'v option"
    and put :: "'k \<Rightarrow> 'v \<Rightarrow> 'm \<Rightarrow> 'm"
    and keys :: "'m \<Rightarrow> 'k list"
    and empty :: 'm
  assumes get_empty: "get empty k = None"
    and get_put: "get (put k v m) k' = (if k' = k then Some v else get m k')"
    and keys_empty: "keys empty = []"
    and keys_put: "keys (put k v m) = (if k \<in> set (keys m) then keys m else keys m @ [k])"
    and get_keys: "get m k = None \<longleftrightarrow> k \<notin> set (keys m)"
begin

lemma get_put_same [simp]: "get (put k v m) k = Some v"
  by (simp add: get_put)

lemma get_put_other [simp]: "k' \<noteq> k \<Longrightarrow> get (put k v m) k' = get m k'"
  by (simp add: get_put)

lemma distinct_keys_put: "distinct (keys m) \<Longrightarrow> distinct (keys (put k v m))"
  by (simp add: keys_put)

lemma set_keys_put: "set (keys (put k v m)) = insert k (set (keys m))"
  by (auto simp: keys_put)

lemma distinct_keys_fold:
  "distinct (keys m) \<Longrightarrow> distinct (keys (fold (\<lambda>(k, v). put k v) kvs m))"
  by (induction kvs arbitrary: m) (auto simp: distinct_keys_put)

lemma set_keys_fold:
  "set (keys (fold (\<lambda>(k, v). put k v) kvs m)) = fst ` set kvs \<union> set (keys m)"
  by (induction kvs arbitrary: m) (auto simp: set_keys_put)

lemma get_fold_notin:
  "k \<notin> fst ` set kvs \<Longrightarrow> get (fold (\<lambda>(k, v). put k v) kvs m) k = get m k"
  by (induction kvs arbitrary: m) auto

lemma keys_fold_fresh:
  "distinct (map fst kvs) \<Longrightarrow> set (map fst kvs) \<inter> set (keys m) = {} \<Longrightarrow>
   keys (fold (\<lambda>(k, v). put k v) kvs m) = keys m @ map fst kvs"
  by (induction kvs arbitrary: m) (auto simp: keys_put)

lemma get_fold_distinct:
  "distinct (map fst kvs) \<Longrightarrow> (k, v) \<in> set kvs \<Longrightarrow>
   get (fold (\<lambda>(k, v). put k v) kvs m) k = Some v"
proof (induction kvs arbitrary: m)
  case (Cons kv kvs)
  then show ?case
    by (cases kv) (force simp: get_fold_notin image_iff)
qed simp

end

interpretation js_map: keyed_store map_get map_set map_keys "[]"
  by unfold_locales
    (auto simp: map_get_def map_set_def map_keys_def AList.update_conv' AList.update_keys
      map_of_eq_None_iff)

lemmas js_map_simps = js_map.get_put js_map.set_keys_put js_map.get_empty js_map.keys_empty

lemma map_from_fold: "map_from kvs = fold (\<lambda>(k, v). map_set k v) kvs []"
  by (simp add: map_from_def case_prod_beta')

lemma set_map_keys_from [simp]: "set (map_keys (map_from kvs)) = fst ` set kvs"
  by (simp add: map_from_fold js_map.set_keys_fold js_map.keys_empty)

lemma distinct_map_keys_from [simp]: "distinct (map_keys (map_from kvs))"
  by (simp add: map_from_fold js_map.distinct_keys_fold js_map.keys_empty)

lemma length_map_keys [simp]: "length (map_keys m) = length m"
  by (simp add: map_keys_def)

text \<open>\<open>new Map(xs.map((x) => [key(x), x])).size !== xs.length\<close> detects a repeated key.\<close>

lemma length_map_from: "length (map_from kvs) = card (fst ` set kvs)"
  by (metis distinct_card distinct_map_keys_from length_map_keys set_map_keys_from)

lemma map_from_size [guard_simps]:
  "length (map_from kvs) = length kvs \<longleftrightarrow> distinct (map fst kvs)"
  by (metis card_distinct distinct_card image_set length_map length_map_from)

lemma map_get_from:
  "distinct (map fst kvs) \<Longrightarrow> map_get (map_from kvs) k = map_of kvs k"
proof (cases "map_of kvs k")
  case None
  then have "k \<notin> fst ` set kvs" by (simp add: map_of_eq_None_iff)
  then have "map_get (map_from kvs) k = map_get [] k"
    unfolding map_from_fold by (rule js_map.get_fold_notin)
  with None show ?thesis by (simp only: js_map.get_empty)
next
  case (Some v)
  assume "distinct (map fst kvs)"
  then have "map_get (map_from kvs) k = Some v"
    unfolding map_from_fold by (rule js_map.get_fold_distinct) (rule map_of_SomeD [OF Some])
  with Some show ?thesis by simp
qed

text \<open>A map of entries with distinct keys is their list.\<close>

lemma map_set_fresh: "k \<notin> set (map_keys m) \<Longrightarrow> map_set k v m = m @ [(k, v)]"
  by (induction m) (auto simp: map_set_def map_keys_def)

lemma fold_map_set_fresh:
  "distinct (map fst (m @ kvs)) \<Longrightarrow> fold (\<lambda>(k, v). map_set k v) kvs m = m @ kvs"
proof (induction kvs arbitrary: m)
  case (Cons kv kvs)
  then show ?case by (cases kv) (auto simp: map_set_fresh map_keys_def)
qed simp

lemma map_from_distinct: "distinct (map fst kvs) \<Longrightarrow> map_from kvs = kvs"
  using fold_map_set_fresh [of "[]" kvs] by (simp add: map_from_fold)

lemma map_has_from [simp]: "map_has (map_from kvs) k \<longleftrightarrow> k \<in> fst ` set kvs"
  by (simp add: map_has_def js_map.get_keys)


section \<open>Lists\<close>

text \<open>\<open>xs.at(-1)\<close>\<close>

definition last_opt :: "'a list \<Rightarrow> 'a option" where
  "last_opt xs = (if xs = [] then None else Some (last xs))"

lemma last_opt_simps [simp]:
  "last_opt [] = None" "last_opt (xs @ [x]) = Some x" "last_opt [x] = Some x"
  "last_opt (x # y # xs) = last_opt (y # xs)"
  by (simp_all add: last_opt_def)

lemma last_opt_Some_mem: "last_opt xs = Some x \<Longrightarrow> x \<in> set xs"
  by (auto simp: last_opt_def split: if_splits)

lemma last_opt_None [simp]: "last_opt xs = None \<longleftrightarrow> xs = []"
  by (simp add: last_opt_def)

lemma last_opt_map: "last_opt (map f xs) = map_option f (last_opt xs)"
  by (simp add: last_opt_def last_map)

text \<open>Replacing the entry that carries a given key, as the aggregates do with their parts.\<close>

definition replace_by :: "('a \<Rightarrow> 'k) \<Rightarrow> 'a \<Rightarrow> 'a list \<Rightarrow> 'a list" where
  "replace_by key y xs = map (\<lambda>x. if key x = key y then y else x) xs"

lemma map_key_replace_by [simp]: "map key (replace_by key y xs) = map key xs"
  by (simp add: replace_by_def)

lemma length_replace_by [simp]: "length (replace_by key y xs) = length xs"
  by (simp add: replace_by_def)

lemma replace_by_Nil [simp]: "replace_by key y xs = [] \<longleftrightarrow> xs = []"
  by (simp add: replace_by_def)

lemma set_replace_by_subset: "set (replace_by key y xs) \<subseteq> insert y (set xs)"
  by (auto simp: replace_by_def)

lemma nth_replace_by:
  "i < length xs \<Longrightarrow> replace_by key y xs ! i = (if key (xs ! i) = key y then y else xs ! i)"
  by (simp add: replace_by_def)

lemma find_Some_mem: "List.find P xs = Some x \<Longrightarrow> x \<in> set xs \<and> P x"
  by (auto simp: find_Some_iff)

lemma find_distinct_key:
  "distinct (map f xs) \<Longrightarrow> x \<in> set xs \<Longrightarrow> List.find (\<lambda>y. f y = f x) xs = Some x"
proof (induction xs)
  case (Cons a xs)
  then show ?case by (auto simp: image_iff)
qed simp

end
