(* ===== verification/Js_Number.thy ===== *)
theory Js_Number
  imports Prelude
begin

text \<open>
  The \<open>number\<close> type of the language: IEEE 754 doubles, exactly. Every finite double is
  an integer multiple of \<open>2 ^ -1074\<close>, so \<open>Fin k\<close> stands for \<open>k * 2 ^ -1074\<close>;
  sums and products are computed exactly on the integers and then rounded to 53
  significant bits, ties to even, with overflow to an infinity. Negative zero is a value
  of its own because \<open>Object.is\<close> tells it from zero. The lemmas give the rules by
  which integers below \<open>2 ^ 53\<close> compute without rounding.
\<close>

datatype js_number = NaN | PosInf | NegInf | NegZero | Fin int

section \<open>Rounding\<close>

fun bit_length :: "nat \<Rightarrow> nat" where
  "bit_length n = (if n = 0 then 0 else Suc (bit_length (n div 2)))"

declare bit_length.simps [simp del]

lemma less_two_power_bit_length: "n < 2 ^ bit_length n"
proof (induction n rule: bit_length.induct)
  case (1 n)
  then show ?case
    by (cases "n = 0") (auto simp: bit_length.simps [of n])
qed

lemma bit_length_le: "n < 2 ^ b \<Longrightarrow> bit_length n \<le> b"
proof (induction n arbitrary: b rule: bit_length.induct)
  case (1 n)
  show ?case
  proof (cases "n = 0")
    case True
    then show ?thesis by (simp add: bit_length.simps)
  next
    case False
    with "1.prems" obtain c where b: "b = Suc c"
      by (cases b) auto
    with "1.prems" have "n div 2 < 2 ^ c" by simp
    with False "1.IH" have "bit_length (n div 2) \<le> c" by blast
    with False b show ?thesis by (simp add: bit_length.simps [of n])
  qed
qed

text \<open>\<open>p / 2 ^ d\<close> rounded to the nearest integer, ties to even.\<close>

definition round_even :: "int \<Rightarrow> nat \<Rightarrow> int" where
  "round_even p d =
     (let q = p div 2 ^ d; r = p mod 2 ^ d
      in if 2 * r < 2 ^ d then q
         else if 2 * r > 2 ^ d then q + 1
         else if even q then q else q + 1)"

lemma round_even_exact: "2 ^ d dvd p \<Longrightarrow> round_even p d * 2 ^ d = p"
  by (auto simp: round_even_def Let_def dvd_eq_mod_eq_0)

lemma round_even_minus: "round_even (- p) d = - round_even p d"
proof (cases "(2::int) ^ d dvd p")
  case True
  then have "round_even (- p) d * 2 ^ d = - round_even p d * 2 ^ d"
    using round_even_exact [of d p] round_even_exact [of d "- p"] by simp
  then have "(round_even (- p) d + round_even p d) * 2 ^ d = 0" by (simp add: algebra_simps)
  then show ?thesis by simp
next
  case False
  let ?m = "(2::int) ^ d"
  have r: "p mod ?m \<noteq> 0" using False by (simp add: dvd_eq_mod_eq_0)
  have m: "(- p) mod ?m = ?m - p mod ?m"
    using r by (simp add: zmod_zminus1_eq_if)
  have q: "(- p) div ?m = - (p div ?m) - 1"
    using r by (simp add: zdiv_zminus1_eq_if)
  show ?thesis
    unfolding round_even_def Let_def m q by (auto simp: algebra_simps)
qed

lemma round_even_mono:
  assumes "p \<le> p'"
  shows "round_even p d \<le> round_even p' d"
proof -
  let ?m = "(2::int) ^ d"
  have m: "0 < ?m" by simp
  have le: "p div ?m \<le> p' div ?m" using assms by (simp add: zdiv_mono1)
  show ?thesis
  proof (cases "p div ?m = p' div ?m")
    case True
    moreover have "p mod ?m \<le> p' mod ?m"
      using assms True by (simp add: minus_mult_div_eq_mod [symmetric])
    ultimately show ?thesis by (auto simp: round_even_def Let_def)
  next
    case False
    with le have "p div ?m + 1 \<le> p' div ?m" by simp
    moreover have "round_even p d \<le> p div ?m + 1" "p' div ?m \<le> round_even p' d"
      by (simp_all add: round_even_def Let_def)
    ultimately show ?thesis by simp
  qed
qed

text \<open>
  \<open>round_scaled neg p s\<close> is the double nearest to \<open>p * 2 ^ -s\<close> units of \<open>2 ^ -1074\<close>;
  \<open>neg\<close> is the sign of a zero result.
\<close>

definition excess_bits :: "int \<Rightarrow> nat \<Rightarrow> nat" where
  "excess_bits p s = bit_length (nat \<bar>p\<bar>) - (53 + s)"

definition overflow_units :: int where
  "overflow_units = 2 ^ 2098"

lemma overflow_units_pos [simp]:
  "0 < overflow_units" "overflow_units \<noteq> 0" "\<not> overflow_units \<le> 0"
  by (simp_all add: overflow_units_def)

definition round_scaled :: "bool \<Rightarrow> int \<Rightarrow> nat \<Rightarrow> js_number" where
  "round_scaled neg p s =
     (let t = excess_bits p s; m = round_even p (s + t) * 2 ^ t
      in if overflow_units \<le> m then PosInf
         else if m \<le> - overflow_units then NegInf
         else if m = 0 then (if neg then NegZero else Fin 0)
         else Fin m)"

definition representable :: "js_number \<Rightarrow> bool" where
  "representable x = (case x of Fin k \<Rightarrow> round_scaled False k 0 = Fin k | _ \<Rightarrow> True)"


section \<open>Arithmetic and comparison\<close>

fun js_neg :: "js_number \<Rightarrow> js_number" where
  "js_neg NaN = NaN"
| "js_neg PosInf = NegInf"
| "js_neg NegInf = PosInf"
| "js_neg NegZero = Fin 0"
| "js_neg (Fin k) = (if k = 0 then NegZero else Fin (- k))"

fun js_add :: "js_number \<Rightarrow> js_number \<Rightarrow> js_number" where
  "js_add NaN _ = NaN"
| "js_add _ NaN = NaN"
| "js_add PosInf y = (if y = NegInf then NaN else PosInf)"
| "js_add NegInf y = (if y = PosInf then NaN else NegInf)"
| "js_add _ PosInf = PosInf"
| "js_add _ NegInf = NegInf"
| "js_add NegZero y = y"
| "js_add x NegZero = x"
| "js_add (Fin a) (Fin b) =
     (if a = 0 then Fin b else if b = 0 then Fin a else round_scaled False (a + b) 0)"

definition js_sub :: "js_number \<Rightarrow> js_number \<Rightarrow> js_number" where
  "js_sub x y = js_add x (js_neg y)"

fun js_units :: "js_number \<Rightarrow> int" where
  "js_units (Fin k) = k"
| "js_units _ = 0"

fun js_sign :: "js_number \<Rightarrow> bool" where
  "js_sign NegInf = True"
| "js_sign NegZero = True"
| "js_sign (Fin k) = (k < 0)"
| "js_sign _ = False"

fun js_infinite :: "js_number \<Rightarrow> bool" where
  "js_infinite PosInf = True"
| "js_infinite NegInf = True"
| "js_infinite _ = False"

definition js_mul :: "js_number \<Rightarrow> js_number \<Rightarrow> js_number" where
  "js_mul x y =
     (let neg = (js_sign x \<noteq> js_sign y)
      in if x = NaN \<or> y = NaN then NaN
         else if js_infinite x \<or> js_infinite y then
           (if js_infinite x \<and> \<not> js_infinite y \<and> js_units y = 0 \<or>
               js_infinite y \<and> \<not> js_infinite x \<and> js_units x = 0
            then NaN
            else if neg then NegInf else PosInf)
         else round_scaled neg (js_units x * js_units y) 1074)"

text \<open>The position of a number in the order of the extended line; \<open>NaN\<close> has none.\<close>

fun js_key :: "js_number \<Rightarrow> (int \<times> int) option" where
  "js_key NaN = None"
| "js_key NegInf = Some (- 1, 0)"
| "js_key PosInf = Some (1, 0)"
| "js_key NegZero = Some (0, 0)"
| "js_key (Fin k) = Some (0, k)"

definition js_lt :: "js_number \<Rightarrow> js_number \<Rightarrow> bool" where
  "js_lt x y = (case (js_key x, js_key y) of
     (Some (a, k), Some (b, l)) \<Rightarrow> a < b \<or> a = b \<and> k < l | _ \<Rightarrow> False)"

definition js_eq :: "js_number \<Rightarrow> js_number \<Rightarrow> bool" where
  "js_eq x y \<longleftrightarrow> js_key x \<noteq> None \<and> js_key x = js_key y"

definition js_le :: "js_number \<Rightarrow> js_number \<Rightarrow> bool" where
  "js_le x y \<longleftrightarrow> js_lt x y \<or> js_eq x y"

abbreviation js_gt :: "js_number \<Rightarrow> js_number \<Rightarrow> bool" where
  "js_gt x y \<equiv> js_lt y x"

abbreviation js_ge :: "js_number \<Rightarrow> js_number \<Rightarrow> bool" where
  "js_ge x y \<equiv> js_le y x"

fun js_abs :: "js_number \<Rightarrow> js_number" where
  "js_abs NaN = NaN"
| "js_abs NegZero = Fin 0"
| "js_abs NegInf = PosInf"
| "js_abs PosInf = PosInf"
| "js_abs (Fin k) = Fin \<bar>k\<bar>"

text \<open>\<open>Math.max\<close> and \<open>Math.min\<close> of two arguments.\<close>

definition js_max :: "js_number \<Rightarrow> js_number \<Rightarrow> js_number" where
  "js_max x y =
     (if x = NaN \<or> y = NaN then NaN
      else if js_lt x y then y else if js_lt y x then x
      else if x = NegZero then y else x)"

definition js_min :: "js_number \<Rightarrow> js_number \<Rightarrow> js_number" where
  "js_min x y =
     (if x = NaN \<or> y = NaN then NaN
      else if js_lt x y then x else if js_lt y x then y
      else if y = NegZero then y else x)"

section \<open>Integers\<close>

definition one_units :: int where
  "one_units = 2 ^ 1074"

lemma one_units_pos [simp]:
  "0 < one_units" "one_units \<noteq> 0" "\<bar>one_units\<bar> = one_units"
  "0 \<le> one_units" "\<not> one_units < 0" "\<not> one_units \<le> 0"
  by (simp_all add: one_units_def)

definition num :: "int \<Rightarrow> js_number" where
  "num n = Fin (n * one_units)"

fun is_finite :: "js_number \<Rightarrow> bool" where
  "is_finite NegZero = True"
| "is_finite (Fin _) = True"
| "is_finite _ = False"

fun is_integer :: "js_number \<Rightarrow> bool" where
  "is_integer NegZero = True"
| "is_integer (Fin k) = (one_units dvd k)"
| "is_integer _ = False"

definition max_safe :: int where
  "max_safe = 2 ^ 53 - 1"

fun is_safe_integer :: "js_number \<Rightarrow> bool" where
  "is_safe_integer NegZero = True"
| "is_safe_integer (Fin k) = (one_units dvd k \<and> \<bar>k\<bar> \<le> max_safe * one_units)"
| "is_safe_integer _ = False"

lemma num_inject [simp]: "num m = num n \<longleftrightarrow> m = n"
  by (simp add: num_def)

lemma num_neq [simp]:
  "num n \<noteq> NaN" "num n \<noteq> PosInf" "num n \<noteq> NegInf" "num n \<noteq> NegZero"
  "NaN \<noteq> num n" "PosInf \<noteq> num n" "NegInf \<noteq> num n" "NegZero \<noteq> num n"
  by (simp_all add: num_def)

lemma js_key_num [simp]: "js_key (num n) = Some (0, n * one_units)"
  by (simp add: num_def)

lemma js_lt_num [simp]: "js_lt (num m) (num n) \<longleftrightarrow> m < n"
  by (simp add: js_lt_def)

lemma js_eq_num [simp]: "js_eq (num m) (num n) \<longleftrightarrow> m = n"
  by (simp add: js_eq_def)

lemma js_le_num [simp]: "js_le (num m) (num n) \<longleftrightarrow> m \<le> n"
  by (auto simp: js_le_def)

lemma is_finite_num [simp]: "is_finite (num n)"
  by (simp add: num_def)

lemma is_integer_num [simp]: "is_integer (num n)"
  by (simp add: num_def)

lemma is_safe_integer_num [simp]: "is_safe_integer (num n) \<longleftrightarrow> \<bar>n\<bar> \<le> max_safe"
  by (simp add: num_def abs_mult)

lemma js_abs_num [simp]: "js_abs (num n) = num \<bar>n\<bar>"
  by (simp add: num_def abs_mult)

lemma js_neg_num: "n \<noteq> 0 \<Longrightarrow> js_neg (num n) = num (- n)"
  by (simp add: num_def)

lemma js_max_num [simp]: "js_max (num m) (num n) = num (max m n)"
  by (auto simp: js_max_def max_def)

lemma js_min_num [simp]: "js_min (num m) (num n) = num (min m n)"
  by (auto simp: js_min_def min_def)

text \<open>A safe integer is the double of an integer below \<open>2 ^ 53\<close> (or negative zero).\<close>

lemma is_safe_integerE:
  assumes "is_safe_integer x"
  obtains "x = NegZero" | n where "x = num n" "\<bar>n\<bar> \<le> max_safe"
proof (cases x)
  case (Fin k)
  with assms obtain n where k: "k = one_units * n" and "\<bar>k\<bar> \<le> max_safe * one_units"
    by auto
  then have "\<bar>n\<bar> * one_units \<le> max_safe * one_units" by (simp add: abs_mult mult.commute)
  then have "\<bar>n\<bar> \<le> max_safe" by simp
  with Fin k show ?thesis by (intro that(2) [of n]) (simp_all add: num_def mult.commute)
qed (use assms that in auto)

lemma is_safe_integer_finite: "is_safe_integer x \<Longrightarrow> is_finite x"
  by (cases x) auto

lemma is_finite_cases: "is_finite x \<longleftrightarrow> x = NegZero \<or> (\<exists>k. x = Fin k)"
  by (cases x) auto

text \<open>Integers with at most 53 bits are not rounded.\<close>

lemma excess_bits_zero: "\<bar>p\<bar> < 2 ^ (53 + s) \<Longrightarrow> excess_bits p s = 0"
proof -
  assume "\<bar>p\<bar> < 2 ^ (53 + s)"
  then have "nat \<bar>p\<bar> < 2 ^ (53 + s)" by (simp add: nat_less_iff)
  then show ?thesis by (simp add: excess_bits_def bit_length_le)
qed

lemma round_scaled_integer:
  assumes "\<bar>n\<bar> < 2 ^ 53" and "n \<noteq> 0"
  shows "round_scaled neg (n * one_units) 0 = num n"
proof -
  let ?p = "n * one_units" and ?t = "excess_bits (n * one_units) 0"
  have p: "\<bar>?p\<bar> < 2 ^ 1127"
  proof -
    have "\<bar>n\<bar> * one_units < 2 ^ 53 * one_units" using assms(1) by simp
    then show ?thesis by (simp add: abs_mult one_units_def)
  qed
  then have "nat \<bar>?p\<bar> < 2 ^ 1127" by (simp add: nat_less_iff)
  then have "?t \<le> 1074"
    using bit_length_le [of "nat \<bar>?p\<bar>" 1127] by (simp add: excess_bits_def)
  then have "2 ^ ?t dvd one_units" unfolding one_units_def by (rule le_imp_power_dvd)
  then have "2 ^ ?t dvd ?p" by simp
  then have m: "round_even ?p ?t * 2 ^ ?t = ?p" by (rule round_even_exact)
  have "(2::int) ^ 1127 \<le> overflow_units"
    unfolding overflow_units_def by (rule power_increasing) simp_all
  with p have "?p < overflow_units" "- overflow_units < ?p"
    by (auto simp only: abs_less_iff minus_less_iff intro: less_le_trans)
  with assms(2) show ?thesis
    unfolding round_scaled_def Let_def add_0 m by (simp add: num_def)
qed

lemma round_scaled_zero: "round_scaled neg 0 s = (if neg then NegZero else Fin 0)"
  by (simp add: round_scaled_def round_even_def Let_def)

lemma num_0: "num 0 = Fin 0"
  by (simp add: num_def)

lemma js_add_num [simp]: "\<bar>m + n\<bar> < 2 ^ 53 \<Longrightarrow> js_add (num m) (num n) = num (m + n)"
  using round_scaled_integer [of "m + n" False]
  by (cases "m + n = 0")
    (auto simp: num_def round_scaled_zero distrib_right [symmetric])

lemma js_sub_num [simp]: "\<bar>m - n\<bar> < 2 ^ 53 \<Longrightarrow> \<bar>m\<bar> < 2 ^ 53 \<Longrightarrow> js_sub (num m) (num n) = num (m - n)"
proof (cases "n = 0")
  case True
  then show ?thesis by (simp add: js_sub_def num_def)
next
  case False
  assume "\<bar>m - n\<bar> < 2 ^ 53"
  with False show ?thesis using js_add_num [of m "- n"] by (simp add: js_sub_def js_neg_num)
qed

end
