(* ===== verification/Amount.thy ===== *)
theory Amount
  imports Js_Number
begin

text \<open>
  \<open>kernel/src/amount.ts\<close>: what an amount is, and the tolerant equality by which
  reservations, settlements and budgets are compared.
\<close>

definition isAmount :: "js_number \<Rightarrow> bool" where
  "isAmount value \<longleftrightarrow> is_finite value \<and> js_ge value (num 0)"

definition AMOUNT_ULP_TOLERANCE :: js_number where
  "AMOUNT_ULP_TOLERANCE = num 4"

text \<open>\<open>Number.EPSILON\<close>, that is \<open>2 ^ -52\<close>.\<close>

definition epsilon :: js_number where
  "epsilon = Fin (2 ^ 1022)"

definition tolerance_units :: int where
  "tolerance_units = 2 ^ 1024"

definition amountsEqual :: "js_number \<Rightarrow> js_number \<Rightarrow> bool" where
  "amountsEqual left right \<longleftrightarrow>
     isAmount left \<and> isAmount right \<and>
     js_le (js_abs (js_sub left right))
       (js_mul (js_mul epsilon AMOUNT_ULP_TOLERANCE)
         (js_max (js_max (num 1) (js_abs left)) (js_abs right)))"

text \<open>The comparison of the routing, planning and generation guards.\<close>

definition amountExceeds :: "js_number \<Rightarrow> js_number \<Rightarrow> bool" where
  "amountExceeds value limit \<longleftrightarrow> js_gt value limit \<and> \<not> amountsEqual value limit"


section \<open>Amounts\<close>

lemma isAmount_iff: "isAmount x \<longleftrightarrow> x = NegZero \<or> (\<exists>k\<ge>0. x = Fin k)"
  by (cases x) (auto simp: isAmount_def js_le_def js_lt_def js_eq_def num_0)

lemma isAmount_num [simp]: "isAmount (num n) \<longleftrightarrow> 0 \<le> n"
  by (simp add: isAmount_def)

lemma isAmount_Fin [simp]: "isAmount (Fin k) \<longleftrightarrow> 0 \<le> k"
  by (simp add: isAmount_iff)

lemma isAmount_finite: "isAmount x \<Longrightarrow> is_finite x"
  by (simp add: isAmount_def)

lemma amountsEqual_amounts: "amountsEqual l r \<Longrightarrow> isAmount l \<and> isAmount r"
  by (simp add: amountsEqual_def)


section \<open>The tolerance\<close>

lemma round_scaled_exact:
  assumes "2 ^ (s + excess_bits p s) dvd p" and "p \<noteq> 0" and "\<bar>p\<bar> < 2 ^ (2098 + s)"
  shows "round_scaled neg p s = Fin (p div 2 ^ s)"
proof -
  let ?t = "excess_bits p s" and ?q = "p div 2 ^ s"
  have p: "p = ?q * 2 ^ s"
    using assms(1) by (metis dvd_div_mult_self dvd_mult_left power_add)
  have "round_even p (s + ?t) * 2 ^ (s + ?t) = p"
    by (rule round_even_exact) (rule assms(1))
  then have "round_even p (s + ?t) * 2 ^ ?t * 2 ^ s = ?q * 2 ^ s"
    using p by (simp add: power_add ac_simps)
  then have m: "round_even p (s + ?t) * 2 ^ ?t = ?q" by simp
  have "\<bar>?q\<bar> * 2 ^ s = \<bar>p\<bar>"
    using arg_cong [OF p, of abs] by (simp add: abs_mult)
  with assms(3) have "\<bar>?q\<bar> * 2 ^ s < overflow_units * 2 ^ s"
    by (simp only: power_add [symmetric] overflow_units_def)
  then have lim: "\<bar>?q\<bar> < overflow_units"
    by (rule mult_right_less_imp_less) simp
  have "?q \<noteq> 0" using p assms(2) by auto
  with lim show ?thesis
    unfolding round_scaled_def Let_def m by (auto simp: abs_less_iff)
qed

lemma excess_bits_le:
  "\<bar>p\<bar> < 2 ^ b \<Longrightarrow> excess_bits p s \<le> b - (53 + s)"
proof -
  assume "\<bar>p\<bar> < 2 ^ b"
  then have "nat \<bar>p\<bar> < 2 ^ b" by (simp add: nat_less_iff)
  then show ?thesis by (simp add: excess_bits_def bit_length_le diff_le_mono)
qed

text \<open>The product of a power of two and an integer below \<open>2 ^ 53\<close> is exact.\<close>

lemma js_mul_power_of_two:
  assumes "0 < n" and "n < 2 ^ 53" and "c \<le> 1074"
  shows "js_mul (Fin (2 ^ c)) (num n) = Fin (n * 2 ^ c)"
proof -
  let ?p = "2 ^ c * (n * one_units)"
  have p: "?p = n * 2 ^ (c + 1074)" by (simp add: one_units_def power_add)
  have "?p < 2 ^ 53 * 2 ^ (c + 1074)" unfolding p using assms(2) by simp
  also have "(2::int) ^ 53 * 2 ^ (c + 1074) = 2 ^ (1127 + c)"
    unfolding power_add [symmetric] by (simp add: add.commute)
  finally have lt: "\<bar>?p\<bar> < 2 ^ (1127 + c)"
    using assms(1) by (simp add: one_units_def)
  have dvd: "2 ^ (1074 + excess_bits ?p 1074) dvd ?p"
  proof -
    have "1074 + excess_bits ?p 1074 \<le> c + 1074"
      using excess_bits_le [OF lt, of 1074] by simp
    then have "(2::int) ^ (1074 + excess_bits ?p 1074) dvd 2 ^ (c + 1074)"
      by (rule le_imp_power_dvd)
    then show ?thesis unfolding p by (rule dvd_mult)
  qed
  have "(2::int) ^ (1127 + c) \<le> 2 ^ (2098 + 1074)"
    by (rule power_increasing) (use assms(3) in simp_all)
  with lt have lim: "\<bar>?p\<bar> < 2 ^ (2098 + 1074)" by (rule less_le_trans)
  have "round_scaled False ?p 1074 = Fin (?p div 2 ^ 1074)"
    using dvd lim by (intro round_scaled_exact) (use assms(1) in simp_all)
  also have "?p div 2 ^ 1074 = n * 2 ^ c" unfolding p by (simp add: power_add)
  finally show ?thesis
    using assms(1) by (simp add: js_mul_def num_def Let_def mult_less_0_iff)
qed

lemma tolerance_units_pos [simp]: "0 < tolerance_units" "\<not> tolerance_units < 0"
  by (simp_all add: tolerance_units_def)

lemma tolerance_unit: "js_mul epsilon AMOUNT_ULP_TOLERANCE = Fin tolerance_units"
  unfolding epsilon_def AMOUNT_ULP_TOLERANCE_def tolerance_units_def
  by (subst js_mul_power_of_two) simp_all

lemma round_scaled_nonneg:
  assumes "0 \<le> p"
  shows "js_ge (round_scaled False p s) (num 0)"
proof -
  have "round_even 0 d \<le> round_even p d" for d
    using assms by (rule round_even_mono)
  then have "0 \<le> round_even p d * 2 ^ t" for d t
    by (simp add: round_even_def)
  then obtain m where m: "m = round_even p (s + excess_bits p s) * 2 ^ excess_bits p s"
    and "0 \<le> m" by blast
  moreover have "\<not> m \<le> - overflow_units"
    using \<open>0 \<le> m\<close> overflow_units_pos(1) by linarith
  ultimately show ?thesis
    unfolding round_scaled_def Let_def m [symmetric]
    by (auto simp: js_le_def js_lt_def js_eq_def num_0)
qed

lemma js_sub_self: "is_finite x \<Longrightarrow> js_sub x x = Fin 0"
  by (cases x) (auto simp: js_sub_def round_scaled_zero)

lemma js_max_Fin: "js_max (Fin a) (Fin b) = Fin (max a b)"
  by (simp add: js_max_def js_lt_def max_def)

lemma js_mul_nonneg:
  "0 \<le> a \<Longrightarrow> 0 \<le> b \<Longrightarrow> js_ge (js_mul (Fin a) (Fin b)) (num 0)"
  by (simp add: js_mul_def Let_def round_scaled_nonneg)

text \<open>The scale of two amounts, \<open>Math.max(1, |left|, |right|)\<close>, as a number of units.\<close>

lemma amount_scale:
  assumes "isAmount l" and "isAmount r"
  shows "js_max (js_max (num 1) (js_abs l)) (js_abs r) =
    Fin (max one_units (max (js_units l) (js_units r)))"
  using assms by (auto simp: isAmount_iff num_def js_max_Fin max.assoc)

lemma amountsEqual_units:
  "amountsEqual l r \<longleftrightarrow> isAmount l \<and> isAmount r \<and>
     js_le (js_abs (js_sub l r))
       (js_mul (Fin tolerance_units) (Fin (max one_units (max (js_units l) (js_units r)))))"
  unfolding amountsEqual_def tolerance_unit using amount_scale by auto

lemma amountsEqual_refl: "isAmount x \<Longrightarrow> amountsEqual x x"
  unfolding amountsEqual_units
  by (simp add: js_sub_self isAmount_finite num_0 [symmetric])
    (rule js_mul_nonneg, simp_all add: le_max_iff_disj less_imp_le)

lemma round_scaled_minus:
  "js_abs (round_scaled neg (- p) s) = js_abs (round_scaled neg p s)"
proof -
  have e: "excess_bits (- p) s = excess_bits p s" by (simp add: excess_bits_def)
  let ?m = "round_even p (s + excess_bits p s) * 2 ^ excess_bits p s"
  have "js_abs (round_scaled neg q s) =
    (if overflow_units \<le> \<bar>m\<bar> then PosInf else Fin \<bar>m\<bar>)"
    if "m = round_even q (s + excess_bits q s) * 2 ^ excess_bits q s" for q m
    unfolding round_scaled_def Let_def that [symmetric]
    using overflow_units_pos(1) by (auto simp: abs_if)
  from this [of "- ?m" "- p"] this [of ?m p] show ?thesis
    by (simp add: e round_even_minus)
qed

lemma js_abs_sub_commute:
  assumes "isAmount l" and "isAmount r"
  shows "js_abs (js_sub l r) = js_abs (js_sub r l)"
proof -
  have "js_abs (round_scaled False (a - b) 0) = js_abs (round_scaled False (b - a) 0)" for a b
    using round_scaled_minus [of False "b - a" 0] by simp
  then show ?thesis
    using assms by (auto simp: isAmount_iff js_sub_def)
qed

lemma amountsEqual_sym: "amountsEqual l r \<Longrightarrow> amountsEqual r l"
  unfolding amountsEqual_units
  using js_abs_sub_commute by (auto simp: max.commute)

text \<open>On integers below \<open>2 ^ 50\<close> the tolerance separates any two of them.\<close>

lemma amountsEqual_num [simp]:
  assumes "\<bar>m\<bar> < 2 ^ 50" and "\<bar>n\<bar> < 2 ^ 50"
  shows "amountsEqual (num m) (num n) \<longleftrightarrow> 0 \<le> m \<and> m = n"
proof (cases "0 \<le> m \<and> 0 \<le> n")
  case False
  then show ?thesis by (auto simp: amountsEqual_def)
next
  case True
  let ?k = "max 1 (max m n)"
  have units: "js_units (num i) = i * one_units" for i by (simp add: num_def)
  have scale: "max one_units (max (m * one_units) (n * one_units)) = ?k * one_units"
    by (auto simp: max_def)
  have "js_mul (Fin (2 ^ 1024)) (num ?k) = Fin (?k * 2 ^ 1024)"
    by (rule js_mul_power_of_two) (use assms in auto)
  then have mul: "js_mul (Fin tolerance_units) (Fin (?k * one_units)) = Fin (?k * tolerance_units)"
    unfolding tolerance_units_def num_def .
  have sub: "js_abs (js_sub (num m) (num n)) = num \<bar>m - n\<bar>"
    using assms by (subst js_sub_num) auto
  have "amountsEqual (num m) (num n) \<longleftrightarrow> \<bar>m - n\<bar> * one_units \<le> ?k * tolerance_units"
    unfolding amountsEqual_units units scale mul sub using True
    by (auto simp: js_le_def js_lt_def js_eq_def le_less)
  also have "one_units = 2 ^ 50 * tolerance_units"
    by (simp add: one_units_def tolerance_units_def)
  also have "\<bar>m - n\<bar> * (2 ^ 50 * tolerance_units) \<le> ?k * tolerance_units \<longleftrightarrow> \<bar>m - n\<bar> * 2 ^ 50 \<le> ?k"
    unfolding mult.assoc [symmetric] mult_le_cancel_right by simp
  also have "\<dots> \<longleftrightarrow> m = n" using True assms by (auto simp: abs_if max_def)
  finally show ?thesis using True by auto
qed

lemma amountExceeds_num [simp]:
  "\<bar>m\<bar> < 2 ^ 50 \<Longrightarrow> \<bar>n\<bar> < 2 ^ 50 \<Longrightarrow> amountExceeds (num m) (num n) \<longleftrightarrow> n < m"
  by (auto simp: amountExceeds_def)

end
