(* ===== verification/Value_Objects.thy ===== *)
theory Value_Objects
  imports Amount
begin

text \<open>
  \<open>kernel/src/value-objects.ts\<close>, \<open>artifact.ts\<close> and \<open>workflow.ts\<close>: the
  branded identities and their checks, and the data that the aggregates share. A thrown
  \<open>InvalidValueObjectError\<close> is the left side of a result. Messages of errors are
  not modelled, their codes are.
\<close>

datatype value_object_error = InvalidValueObjectError string

definition nonEmpty :: "jstring \<Rightarrow> string \<Rightarrow> (jstring, value_object_error) domain_result" where
  "nonEmpty value name =
     (if blank value then fail (InvalidValueObjectError name) else succeed value)"

definition boundedProductIdentity ::
  "jstring \<Rightarrow> string \<Rightarrow> (jstring, value_object_error) domain_result" where
  "boundedProductIdentity value name =
     and_then (nonEmpty value name)
       (\<lambda>identity. if code_points value > 255 then fail (InvalidValueObjectError name)
                   else succeed identity)"

definition datasetMaterializationId :: "jstring \<Rightarrow> (jstring, value_object_error) domain_result" where
  "datasetMaterializationId value = boundedProductIdentity value ''DatasetMaterializationId''"

text \<open>\<open>/^sha256:[0-9a-f]{64}$/u\<close>\<close>

definition hex_digit :: "code_unit \<Rightarrow> bool" where
  "hex_digit u \<longleftrightarrow> (48 \<le> u \<and> u \<le> 57) \<or> (97 \<le> u \<and> u \<le> 102)"

definition sha256_prefix :: jstring where
  "sha256_prefix = [115, 104, 97, 50, 53, 54, 58]"

definition content_hash_pattern :: "jstring \<Rightarrow> bool" where
  "content_hash_pattern s \<longleftrightarrow>
     take 7 s = sha256_prefix \<and> length (drop 7 s) = 64 \<and> list_all hex_digit (drop 7 s)"

definition contentHash :: "jstring \<Rightarrow> (jstring, value_object_error) domain_result" where
  "contentHash value =
     (if \<not> content_hash_pattern value then fail (InvalidValueObjectError ''ContentHash'')
      else succeed value)"

definition instant :: "js_number \<Rightarrow> (js_number, value_object_error) domain_result" where
  "instant epochMilliseconds =
     (if \<not> is_safe_integer epochMilliseconds \<or> js_lt epochMilliseconds (num 0)
      then fail (InvalidValueObjectError ''Instant'')
      else succeed epochMilliseconds)"

lemma sha256_prefix_lit: "sha256_prefix = lit ''sha256:''"
  by (simp add: sha256_prefix_def lit_def)

lemma nonEmpty_eq_Inr [simp]: "nonEmpty v n = Inr w \<longleftrightarrow> \<not> blank v \<and> w = v"
  by (auto simp: nonEmpty_def)

lemma boundedProductIdentity_eq_Inr [simp]:
  "boundedProductIdentity v n = Inr w \<longleftrightarrow> \<not> blank v \<and> code_points v \<le> 255 \<and> w = v"
  by (auto simp: boundedProductIdentity_def)

lemma contentHash_eq_Inr [simp]: "contentHash v = Inr w \<longleftrightarrow> content_hash_pattern v \<and> w = v"
  by (auto simp: contentHash_def)

lemma content_hash_length: "content_hash_pattern s \<Longrightarrow> length s = 71"
  by (auto simp: content_hash_pattern_def)

text \<open>An instant is the double of a natural number below \<open>2 ^ 53\<close>, or negative zero.\<close>

lemma instant_num [simp]: "instant (num n) = Inr (num n) \<longleftrightarrow> 0 \<le> n \<and> n \<le> max_safe"
  by (auto simp: instant_def not_less)

lemma instant_InrD: "instant x = Inr y \<Longrightarrow> y = x \<and> is_safe_integer x \<and> js_ge x (num 0)"
  by (auto simp: instant_def js_le_def js_lt_def js_eq_def num_0
      split: if_splits option.splits elim!: is_safe_integerE)


section \<open>Contracts and artifacts\<close>

record contract_ref =
  catalogVersion :: jstring
  catalogFingerprint :: jstring
  schemaId :: jstring
  schemaVersion :: jstring
  schemaFingerprint :: jstring

record artifact_ref =
  ar_artifactId :: jstring
  ar_contentHash :: jstring

text \<open>
  The members of closed one-value unions (\<open>state: "finalized"\<close> and the like) carry no
  information and have no field here.
\<close>

record artifact =
  art_artifactId :: jstring
  art_attemptId :: jstring
  art_contentHash :: jstring
  art_contract :: contract_ref
  art_finalizedAt :: js_number
  art_operationKey :: jstring
  art_runId :: jstring
  art_sizeBytes :: js_number
  art_stepRunId :: jstring
  art_validatedAt :: js_number
  art_validatorVersion :: jstring
  art_workspaceId :: jstring

record validated_output =
  vo_artifact :: artifact_ref
  vo_contract :: contract_ref
  vo_validatedAt :: js_number
  vo_validatorVersion :: jstring

definition artifactRef :: "artifact \<Rightarrow> artifact_ref" where
  "artifactRef artifact =
     \<lparr>ar_artifactId = art_artifactId artifact, ar_contentHash = art_contentHash artifact\<rparr>"

definition sameContract :: "contract_ref \<Rightarrow> contract_ref \<Rightarrow> bool" where
  "sameContract left right \<longleftrightarrow>
     catalogVersion left = catalogVersion right \<and>
     catalogFingerprint left = catalogFingerprint right \<and>
     schemaId left = schemaId right \<and>
     schemaVersion left = schemaVersion right \<and>
     schemaFingerprint left = schemaFingerprint right"

lemma sameContract_iff [simp]: "sameContract l r \<longleftrightarrow> l = r"
  by (cases l; cases r) (auto simp: sameContract_def)


section \<open>Workflows\<close>

record capability_ref =
  capabilityId :: jstring
  capabilityVersion :: jstring

record workflow_node =
  wn_key :: jstring
  wn_capability :: capability_ref
  wn_dependsOn :: "jstring list"
  wn_humanGate :: "jstring option"

record workflow_spec =
  ws_workflowSpecId :: jstring
  ws_revision :: jstring
  ws_contentHash :: jstring
  ws_nodes :: "workflow_node list"

record compiled_node =
  cn_key :: jstring
  cn_capability :: capability_ref
  cn_dependsOn :: "jstring list"
  cn_depth :: nat
  cn_humanGate :: "jstring option"

record compiled_workflow =
  cw_workflowSpecId :: jstring
  cw_workflowRevision :: jstring
  cw_workflowContentHash :: jstring
  cw_compilerVersion :: jstring
  cw_fingerprint :: jstring
  cw_nodes :: "compiled_node list"

definition capabilityMatches :: "capability_ref \<Rightarrow> capability_ref \<Rightarrow> bool" where
  "capabilityMatches left right \<longleftrightarrow>
     capabilityId left = capabilityId right \<and>
     capabilityVersion left = capabilityVersion right"

lemma capabilityMatches_iff [simp]: "capabilityMatches l r \<longleftrightarrow> l = r"
  by (cases l; cases r) (auto simp: capabilityMatches_def)

end
