(* ===== verification/Run.thy ===== *)
theory Run
  imports Value_Objects
begin

text \<open>
  \<open>kernel/src/run.ts\<close>: plans, authority envelopes, runs, and the admission of a run
  from an immutable plan. An optional property is an \<open>option\<close>; the route snapshots of
  \<open>routing.ts\<close> are declared here because a plan carries them.
\<close>

record budget_limit =
  bl_unit :: jstring
  bl_limit :: js_number
  bl_spent :: js_number
  bl_reserved :: js_number

record authority_envelope =
  ae_authorityEnvelopeId :: jstring
  ae_version :: jstring
  ae_subjectActorId :: jstring
  ae_workspaceId :: jstring
  ae_permissions :: "jstring list"
  ae_capabilities :: "capability_ref list"
  ae_budgetLimit :: budget_limit
  ae_deadline :: js_number

definition AUTHORITY_ENVELOPE_VERSION_V1 :: jstring where
  "AUTHORITY_ENVELOPE_VERSION_V1 = [49, 46, 48, 46, 48]"

definition isSupportedAuthorityEnvelopeVersion :: "jstring \<Rightarrow> bool" where
  "isSupportedAuthorityEnvelopeVersion version \<longleftrightarrow> version = AUTHORITY_ENVELOPE_VERSION_V1"

datatype guarantee = Hard | Estimated | Unknown

record cost_quote =
  cq_quoteId :: jstring
  cq_guarantee :: guarantee
  cq_unit :: jstring
  cq_upperBound :: "js_number option"
  cq_pricingVersion :: jstring
  cq_expiresAt :: js_number

record retry_policy =
  maxAttemptsPerStep :: js_number

record run_plan_route_snapshot =
  rs_capability :: capability_ref
  rs_effectAdapterKey :: jstring
  rs_factsHash :: jstring
  rs_nodeKey :: jstring
  rs_pricingVersion :: jstring
  rs_reservableUpperBound :: js_number
  rs_reservationUnit :: jstring
  rs_routeKey :: jstring

record run_plan =
  pl_runPlanId :: jstring
  pl_workspaceId :: jstring
  pl_planHash :: jstring
  pl_normalizedInputHash :: jstring
  pl_catalogVersion :: jstring
  pl_catalogFingerprint :: jstring
  pl_compiledWorkflow :: compiled_workflow
  pl_inputContract :: contract_ref
  pl_outputContract :: contract_ref
  pl_policyVersion :: jstring
  pl_policyFactsHash :: jstring
  pl_retryPolicy :: retry_policy
  pl_routeSnapshots :: "run_plan_route_snapshot list option"
  pl_quote :: cost_quote
  pl_budget :: budget_limit
  pl_deadline :: js_number
  pl_authority :: authority_envelope

datatype run_state =
    R_queued | R_running | R_waiting | R_cancelling | R_ambiguous
  | R_completed | R_failed | R_cancelled

datatype result_completeness = RC_none | RC_partial | RC_complete

record result_manifest_ref =
  rmr_manifestHash :: jstring
  rmr_resultManifestId :: jstring

datatype stop_reason =
  Stop_requested | Stop_deadline | Stop_budget | Stop_authority_revoked | Stop_ancestor_stopped

record run =
  run_runId :: jstring
  run_runPlanId :: jstring
  run_workspaceId :: jstring
  run_state :: run_state
  run_aggregateVersion :: js_number
  run_eventSequence :: js_number
  run_resultCompleteness :: result_completeness
  run_createdAt :: js_number
  run_idempotencyKey :: jstring
  run_intentionHash :: jstring
  run_pendingStopReason :: "stop_reason option"
  run_resultManifest :: "result_manifest_ref option"

record run_queued =
  rq_eventId :: jstring
  rq_runId :: jstring
  rq_runPlanId :: jstring
  rq_workspaceId :: jstring
  rq_sequence :: js_number
  rq_occurredAt :: js_number
  rq_actorId :: jstring
  rq_correlationId :: jstring

datatype create_run_failure =
    Workspace_mismatch | Authority_subject_mismatch | Authority_version_unsupported
  | Quote_expired | Deadline_elapsed | Invalid_budget | Quote_unit_mismatch
  | Authority_capability_missing | Authority_permission_missing

record create_run_decision =
  cd_run :: run
  cd_event :: run_queued

record create_run_input =
  ci_plan :: run_plan
  ci_runId :: jstring
  ci_eventId :: jstring
  ci_now :: js_number
  ci_actorId :: jstring
  ci_correlationId :: jstring
  ci_idempotencyKey :: jstring
  ci_intentionHash :: jstring
  ci_requiredPermission :: jstring

definition isPositiveFinite :: "js_number \<Rightarrow> bool" where
  "isPositiveFinite value \<longleftrightarrow> is_finite value \<and> js_ge value (num 0)"

definition createRunFromPlan ::
  "create_run_input \<Rightarrow> (create_run_decision, create_run_failure) domain_result" where
  "createRunFromPlan input =
     (let plan = ci_plan input; authority = pl_authority plan;
          budget = pl_budget plan; authorityBudget = ae_budgetLimit authority
      in if pl_workspaceId plan \<noteq> ae_workspaceId authority then fail Workspace_mismatch
      else if ci_actorId input \<noteq> ae_subjectActorId authority then fail Authority_subject_mismatch
      else if \<not> isSupportedAuthorityEnvelopeVersion (ae_version authority)
      then fail Authority_version_unsupported
      else if js_ge (ci_now input) (cq_expiresAt (pl_quote plan)) then fail Quote_expired
      else if js_ge (ci_now input) (pl_deadline plan) \<or> js_ge (ci_now input) (ae_deadline authority)
      then fail Deadline_elapsed
      else if \<not> (isPositiveFinite (bl_limit budget) \<and> isPositiveFinite (bl_spent budget) \<and>
                  isPositiveFinite (bl_reserved budget)) \<or>
              js_gt (js_add (bl_spent budget) (bl_reserved budget)) (bl_limit budget) \<or>
              bl_unit budget \<noteq> bl_unit authorityBudget \<or>
              js_gt (bl_limit budget) (bl_limit authorityBudget)
      then fail Invalid_budget
      else if cq_unit (pl_quote plan) \<noteq> bl_unit budget then fail Quote_unit_mismatch
      else if list_ex (\<lambda>node. list_all (\<lambda>authorized. \<not> capabilityMatches (cn_capability node) authorized)
                 (ae_capabilities authority)) (cw_nodes (pl_compiledWorkflow plan))
      then fail Authority_capability_missing
      else if ci_requiredPermission input \<notin> set (ae_permissions authority)
      then fail Authority_permission_missing
      else succeed \<lparr>
        cd_run = \<lparr>run_runId = ci_runId input, run_runPlanId = pl_runPlanId plan,
          run_workspaceId = pl_workspaceId plan, run_state = R_queued,
          run_aggregateVersion = num 1, run_eventSequence = num 1,
          run_resultCompleteness = RC_none, run_createdAt = ci_now input,
          run_idempotencyKey = ci_idempotencyKey input,
          run_intentionHash = ci_intentionHash input,
          run_pendingStopReason = None, run_resultManifest = None\<rparr>,
        cd_event = \<lparr>rq_eventId = ci_eventId input, rq_runId = ci_runId input,
          rq_runPlanId = pl_runPlanId plan, rq_workspaceId = pl_workspaceId plan,
          rq_sequence = num 1, rq_occurredAt = ci_now input, rq_actorId = ci_actorId input,
          rq_correlationId = ci_correlationId input\<rparr>\<rparr>)"


section \<open>What the admission guards mean\<close>

lemma missing_capability_iff [guard_simps]:
  "list_ex (\<lambda>node. list_all (\<lambda>a. \<not> capabilityMatches (cn_capability node) a) caps) nodes \<longleftrightarrow>
   \<not> cn_capability ` set nodes \<subseteq> set caps"
  by (auto simp: list_ex_iff list_all_iff)

text \<open>
  The contract of admission: one workspace and actor, a current envelope, an unexpired
  quote and deadline, a budget inside the authority budget, and every capability of the
  workflow inside the envelope.
\<close>

definition run_admissible :: "create_run_input \<Rightarrow> bool" where
  "run_admissible input \<longleftrightarrow>
     (let plan = ci_plan input; authority = pl_authority plan; budget = pl_budget plan
      in pl_workspaceId plan = ae_workspaceId authority \<and>
         ci_actorId input = ae_subjectActorId authority \<and>
         ae_version authority = AUTHORITY_ENVELOPE_VERSION_V1 \<and>
         \<not> js_ge (ci_now input) (cq_expiresAt (pl_quote plan)) \<and>
         \<not> js_ge (ci_now input) (pl_deadline plan) \<and>
         \<not> js_ge (ci_now input) (ae_deadline authority) \<and>
         isAmount (bl_limit budget) \<and> isAmount (bl_spent budget) \<and> isAmount (bl_reserved budget) \<and>
         \<not> js_gt (js_add (bl_spent budget) (bl_reserved budget)) (bl_limit budget) \<and>
         bl_unit budget = bl_unit (ae_budgetLimit authority) \<and>
         \<not> js_gt (bl_limit budget) (bl_limit (ae_budgetLimit authority)) \<and>
         cq_unit (pl_quote plan) = bl_unit budget \<and>
         cn_capability ` set (cw_nodes (pl_compiledWorkflow plan)) \<subseteq> set (ae_capabilities authority) \<and>
         ci_requiredPermission input \<in> set (ae_permissions authority))"

lemma isPositiveFinite_isAmount [simp]: "isPositiveFinite x \<longleftrightarrow> isAmount x"
  by (simp add: isPositiveFinite_def isAmount_def)

lemma createRunFromPlan_ok: "ok (createRunFromPlan input) \<longleftrightarrow> run_admissible input"
  unfolding createRunFromPlan_def run_admissible_def Let_def missing_capability_iff
    isSupportedAuthorityEnvelopeVersion_def isPositiveFinite_isAmount
  by (simp only: if_distrib [of isl] sum.disc if_bool_eq_conj) argo

lemma createRunFromPlan_run:
  assumes "createRunFromPlan input = Inr d"
  shows "run_state (cd_run d) = R_queued" "run_aggregateVersion (cd_run d) = num 1"
    "run_eventSequence (cd_run d) = num 1" "run_resultCompleteness (cd_run d) = RC_none"
    "run_pendingStopReason (cd_run d) = None" "run_resultManifest (cd_run d) = None"
    "run_runId (cd_run d) = ci_runId input"
    "run_workspaceId (cd_run d) = pl_workspaceId (ci_plan input)"
    "run_runPlanId (cd_run d) = pl_runPlanId (ci_plan input)"
  using assms by (auto simp: createRunFromPlan_def Let_def split: if_splits)

end
