(* ===== verification/Journal.thy ===== *)
theory Journal
  imports Js_Number
begin

text \<open>
  The contract that the two event-sourced aggregates share. \<open>applyRunCommand\<close> and
  \<open>applyStepCommand\<close> both answer an accepted replay proof with the unchanged aggregate,
  check the expected version, bump it by one and number the new events after the last
  one. The locale states that contract once; histories of commands are studied in it.
\<close>

record ('agg, 'ev) transition =
  tr_aggregate :: 'agg
  tr_events :: "'ev list"
  tr_replayed :: bool

text \<open>A sequence of commands, each with its context, stopping at the first failure.\<close>

fun run_history ::
  "('agg \<Rightarrow> 'cmd \<Rightarrow> 'ctx \<Rightarrow> 'err + ('agg, 'ev) transition) \<Rightarrow>
   'agg \<Rightarrow> ('cmd \<times> 'ctx) list \<Rightarrow> 'err + ('agg \<times> 'ev list)" where
  "run_history step a [] = Inr (a, [])"
| "run_history step a ((c, x) # cs) =
     (case step a c x of
        Inl e \<Rightarrow> Inl e
      | Inr t \<Rightarrow>
          (case run_history step (tr_aggregate t) cs of
             Inl e \<Rightarrow> Inl e
           | Inr (b, evs) \<Rightarrow> Inr (b, tr_events t @ evs)))"

text \<open>The numbers \<open>n + 1, \<dots>, n + k\<close> as doubles.\<close>

definition numbers_after :: "int \<Rightarrow> nat \<Rightarrow> js_number list" where
  "numbers_after n k = map (\<lambda>i. num (n + int i + 1)) [0..<k]"

lemma numbers_after_0 [simp]: "numbers_after n 0 = []"
  by (simp add: numbers_after_def)

lemma length_numbers_after [simp]: "length (numbers_after n k) = k"
  by (simp add: numbers_after_def)

lemma numbers_after_append:
  "numbers_after n k @ numbers_after (n + int k) m = numbers_after n (k + m)"
  by (rule nth_equalityI) (auto simp: numbers_after_def nth_append ac_simps)

lemma numbers_after_nth [simp]: "i < k \<Longrightarrow> numbers_after n k ! i = num (n + int i + 1)"
  by (simp add: numbers_after_def)

locale journaled_aggregate =
  fixes step :: "'agg \<Rightarrow> 'cmd \<Rightarrow> 'ctx \<Rightarrow> 'err + ('agg, 'ev) transition"
    and version :: "'agg \<Rightarrow> js_number"
    and sequence :: "'agg \<Rightarrow> js_number"
    and expected :: "'ctx \<Rightarrow> js_number"
    and replays :: "'ctx \<Rightarrow> bool"
    and event_number :: "'ev \<Rightarrow> js_number"
  assumes replayed_iff: "step a c x = Inr t \<Longrightarrow> tr_replayed t \<longleftrightarrow> replays x"
    and replay_unchanged:
      "step a c x = Inr t \<Longrightarrow> replays x \<Longrightarrow> tr_aggregate t = a \<and> tr_events t = []"
    and fresh_version_checked:
      "step a c x = Inr t \<Longrightarrow> \<not> replays x \<Longrightarrow> js_eq (expected x) (version a)"
    and fresh_version:
      "step a c x = Inr t \<Longrightarrow> \<not> replays x \<Longrightarrow>
       version (tr_aggregate t) = js_add (version a) (num 1)"
    and fresh_sequence:
      "step a c x = Inr t \<Longrightarrow> \<not> replays x \<Longrightarrow>
       sequence (tr_aggregate t) = js_add (sequence a) (num (int (length (tr_events t))))"
    and fresh_numbers:
      "step a c x = Inr t \<Longrightarrow> \<not> replays x \<Longrightarrow> i < length (tr_events t) \<Longrightarrow>
       event_number (tr_events t ! i) = js_add (js_add (sequence a) (num (int i))) (num 1)"
begin

lemma step_numbers:
  assumes "step a c x = Inr t" and "sequence a = num n" and "0 \<le> n"
    and "n + int (length (tr_events t)) < 2 ^ 53"
  shows "map event_number (tr_events t) = numbers_after n (length (tr_events t))"
    and "sequence (tr_aggregate t) = num (n + int (length (tr_events t)))"
proof -
  have "map event_number (tr_events t) = numbers_after n (length (tr_events t)) \<and>
    sequence (tr_aggregate t) = num (n + int (length (tr_events t)))"
  proof (cases "replays x")
    case True
    then show ?thesis using replay_unchanged [OF assms(1)] assms(2) by simp
  next
    case False
    have "event_number (tr_events t ! i) = num (n + int i + 1)" if "i < length (tr_events t)" for i
      using fresh_numbers [OF assms(1) False that] that assms(2-4) by simp
    then have "map event_number (tr_events t) = numbers_after n (length (tr_events t))"
      by (intro nth_equalityI) simp_all
    moreover have "sequence (tr_aggregate t) = num (n + int (length (tr_events t)))"
      using fresh_sequence [OF assms(1) False] assms(2-4) by simp
    ultimately show ?thesis by simp
  qed
  then show "map event_number (tr_events t) = numbers_after n (length (tr_events t))"
    and "sequence (tr_aggregate t) = num (n + int (length (tr_events t)))" by simp_all
qed

text \<open>The log of a history numbers its events consecutively, without gap or repetition.\<close>

lemma history_numbers:
  "run_history step a cs = Inr (b, evs) \<Longrightarrow> sequence a = num n \<Longrightarrow> 0 \<le> n \<Longrightarrow>
   n + int (length evs) < 2 ^ 53 \<Longrightarrow>
   map event_number evs = numbers_after n (length evs) \<and> sequence b = num (n + int (length evs))"
proof (induction cs arbitrary: a n evs)
  case Nil
  then show ?case by auto
next
  case (Cons cx cs)
  obtain c x where cx: "cx = (c, x)" by (cases cx)
  from Cons.prems(1) cx obtain t evs' where t: "step a c x = Inr t"
    and rest: "run_history step (tr_aggregate t) cs = Inr (b, evs')"
    and evs: "evs = tr_events t @ evs'"
    by (auto split: sum.splits)
  have bound: "n + int (length (tr_events t)) < 2 ^ 53" using Cons.prems(4) evs by simp
  note st = step_numbers [OF t Cons.prems(2,3) bound]
  have "map event_number evs' = numbers_after (n + int (length (tr_events t))) (length evs') \<and>
      sequence b = num (n + int (length (tr_events t)) + int (length evs'))"
    using Cons.prems(3,4) evs by (intro Cons.IH [OF rest st(2)]) auto
  then show ?case using st(1) evs by (simp add: numbers_after_append)
qed

text \<open>The version of an aggregate counts the commands that were not replays.\<close>

lemma history_version:
  "run_history step a cs = Inr (b, evs) \<Longrightarrow> version a = num n \<Longrightarrow> 0 \<le> n \<Longrightarrow>
   n + int (length cs) < 2 ^ 53 \<Longrightarrow>
   version b = num (n + int (length (filter (\<lambda>(c, x). \<not> replays x) cs)))"
proof (induction cs arbitrary: a n evs)
  case Nil
  then show ?case by auto
next
  case (Cons cx cs)
  obtain c x where cx: "cx = (c, x)" by (cases cx)
  from Cons.prems(1) cx obtain t evs' where t: "step a c x = Inr t"
    and rest: "run_history step (tr_aggregate t) cs = Inr (b, evs')"
    by (auto split: sum.splits)
  show ?case
  proof (cases "replays x")
    case True
    then have "tr_aggregate t = a" using replay_unchanged [OF t] by simp
    then show ?thesis
      using Cons.IH [OF rest _ Cons.prems(3)] Cons.prems(2,4) True cx by auto
  next
    case False
    then have "version (tr_aggregate t) = num (n + 1)"
      using fresh_version [OF t] Cons.prems(2-4) by simp
    then show ?thesis
      using Cons.IH [OF rest, of "n + 1"] Cons.prems(3,4) False cx by auto
  qed
qed

text \<open>
  Optimistic concurrency: once a command has been accepted at a version, a second
  command prepared against the same version is refused, whatever it is.
\<close>

lemma stale_command_refused:
  assumes "step a c x = Inr t" and "\<not> replays x" and "version a = num n"
    and "0 \<le> n" and "n + 1 < 2 ^ 53" and "\<not> replays y" and "expected y = expected x"
  shows "\<exists>e. step (tr_aggregate t) d y = Inl e"
proof (cases "step (tr_aggregate t) d y")
  case (Inr u)
  have "js_eq (expected x) (num n)"
    using fresh_version_checked [OF assms(1,2)] assms(3) by simp
  moreover have "version (tr_aggregate t) = num (n + 1)"
    using fresh_version [OF assms(1,2)] assms(3-5) by simp
  then have "js_eq (expected x) (num (n + 1))"
    using fresh_version_checked [OF Inr assms(6)] assms(7) by simp
  ultimately show ?thesis by (auto simp: js_eq_def)
qed simp

end

end
