(* ===== verification/Step_Data.thy ===== *)
theory Step_Data
  imports Run Journal
begin

text \<open>
  The data of \<open>kernel/src/step-run.ts\<close>: a step of a run and its attempts, the commands
  that move them, the receipts that settle them and the events that record the moves.
\<close>

datatype step_run_state =
    S_pending | S_ready | S_active | S_waiting | S_retryable | S_ambiguous | S_cancelling
  | S_succeeded | S_failed | S_cancelled | S_skipped

datatype attempt_state =
    A_prepared | A_claimed | A_in_flight | A_succeeded | A_failed_retryable
  | A_failed_terminal | A_ambiguous | A_cancelled_before_effect

datatype attempt_reason = Initial | Retry | Fallback

record attempt =
  at_attemptId :: jstring
  at_attemptNumber :: nat
  at_authorityEnvelopeId :: jstring
  at_claimedAt :: js_number
  at_costReservationId :: jstring
  at_effectAdapterKey :: jstring
  at_operationKey :: jstring
  at_preparedAt :: js_number
  at_reason :: attempt_reason
  at_reservedAmount :: js_number
  at_reservationUnit :: jstring
  at_routeKey :: jstring
  at_routeSnapshotHash :: jstring
  at_routingDecisionId :: jstring
  at_state :: attempt_state
  at_stepRunId :: jstring
  at_effectStartedAt :: "js_number option"
  at_ambiguityObservedAt :: "js_number option"
  at_finishedAt :: "js_number option"
  at_output :: "validated_output option"

record step_run =
  sr_activeAttemptId :: "jstring option"
  sr_aggregateVersion :: js_number
  sr_attempts :: "attempt list"
  sr_createdAt :: js_number
  sr_dependsOn :: "jstring list"
  sr_eventSequence :: js_number
  sr_nodeKey :: jstring
  sr_runId :: jstring
  sr_state :: step_run_state
  sr_stepRunId :: jstring
  sr_workspaceId :: jstring

datatype ambiguity_outcome = AO_succeeded | AO_failed_retryable | AO_failed_terminal

datatype step_event_detail =
    StepReady jstring
  | StepSkipped "jstring list"
  | RoutingDecisionRecorded jstring jstring jstring jstring
  | StepRoutingRejected
  | AttemptCreated jstring nat jstring attempt_reason
  | AttemptClaimed jstring nat
  | AttemptEffectStarted jstring
  | AttemptSucceeded jstring "validated_output option"
  | AttemptFailed jstring bool
  | AttemptBecameAmbiguous jstring jstring
  | AttemptAmbiguityResolved jstring ambiguity_outcome jstring "validated_output option"
  | AttemptCancelledBeforeEffect jstring
  | StepRetryAuthorized
  | StepRetryExhausted

record step_event =
  se_actorId :: jstring
  se_correlationId :: jstring
  se_eventId :: jstring
  se_occurredAt :: js_number
  se_runId :: jstring
  se_sequence :: js_number
  se_stepRunId :: jstring
  se_workspaceId :: jstring
  se_detail :: step_event_detail

record schedule_step_input =
  ss_actorId :: jstring
  ss_correlationId :: jstring
  ss_createdAt :: js_number
  ss_dependsOn :: "jstring list"
  ss_eventId :: jstring
  ss_nodeKey :: jstring
  ss_runId :: jstring
  ss_runState :: run_state
  ss_satisfiedDependencies :: "jstring list"
  ss_stepRunId :: jstring
  ss_workspaceId :: jstring

datatype schedule_step_failure =
  Sched_run_not_running | Sched_node_key_required | Dependencies_unsatisfied "jstring list"

record skip_step_input =
  sk_actorId :: jstring
  sk_blockedByNodeKeys :: "jstring list"
  sk_correlationId :: jstring
  sk_createdAt :: js_number
  sk_dependsOn :: "jstring list"
  sk_eventId :: jstring
  sk_nodeKey :: jstring
  sk_runId :: jstring
  sk_runState :: run_state
  sk_stepRunId :: jstring
  sk_workspaceId :: jstring

datatype skip_step_failure =
    Skip_run_not_running | Skip_node_key_required | Blocked_dependency_required
  | Blocked_dependency_invalid | Blocked_dependency_unknown

record attempt_preparation =
  ap_attemptId :: jstring
  ap_authorityEnvelopeId :: jstring
  ap_costReservationId :: jstring
  ap_effectAdapterKey :: jstring
  ap_operationKey :: jstring
  ap_reason :: attempt_reason
  ap_reservedAmount :: js_number
  ap_reservationUnit :: jstring
  ap_routeKey :: jstring
  ap_routeSnapshotHash :: jstring
  ap_routingDecisionId :: jstring

record cost_reservation_base =
  cr_amount :: js_number
  cr_attemptId :: jstring
  cr_createdAt :: js_number
  cr_operationKey :: jstring
  cr_reservationId :: jstring
  cr_runId :: jstring
  cr_stepRunId :: jstring
  cr_unit :: jstring
  cr_workspaceId :: jstring

text \<open>
  A reservation is open, settled (settled and released amounts, instant and usage entry),
  or released.
\<close>

datatype cost_reservation =
    CR_reserved cost_reservation_base
  | CR_settled cost_reservation_base js_number js_number js_number jstring
  | CR_released cost_reservation_base js_number

record settlement_identity =
  si_attemptId :: jstring
  si_operationKey :: jstring
  si_reservationId :: jstring
  si_unit :: jstring

text \<open>
  A settled proof carries the released and the settled amount and the usage entry; a
  released proof its identity and amount. The commands that only take a release receipt
  carry \<open>released_proof\<close>.
\<close>

record released_proof =
  rl_identity :: settlement_identity
  rl_releasedAmount :: js_number

datatype settlement_proof =
    Settled settlement_identity js_number js_number jstring
  | Released released_proof

datatype step_command =
    ClaimStepAttempt attempt_preparation
  | RejectStepRouting
  | RecordAttemptSucceeded jstring "validated_output option" settlement_proof
  | RecordAttemptFailure jstring bool bool settlement_proof
  | RecordAttemptNotStarted jstring bool bool released_proof
  | AuthorizeRetry jstring bool
  | MarkAttemptAmbiguous jstring
  | ResolveAttemptAmbiguity jstring ambiguity_outcome jstring bool settlement_proof
      "validated_output option"
  | CancelAttemptBeforeEffect jstring released_proof
  | StartAttemptEffect jstring

datatype step_command_kind =
    T_ClaimStepAttempt | T_RejectStepRouting | T_RecordAttemptSucceeded
  | T_RecordAttemptFailure | T_RecordAttemptNotStarted | T_AuthorizeRetry
  | T_MarkAttemptAmbiguous | T_ResolveAttemptAmbiguity | T_CancelAttemptBeforeEffect
  | T_StartAttemptEffect

fun step_command_type :: "step_command \<Rightarrow> step_command_kind" where
  "step_command_type (ClaimStepAttempt _) = T_ClaimStepAttempt"
| "step_command_type RejectStepRouting = T_RejectStepRouting"
| "step_command_type (RecordAttemptSucceeded _ _ _) = T_RecordAttemptSucceeded"
| "step_command_type (RecordAttemptFailure _ _ _ _) = T_RecordAttemptFailure"
| "step_command_type (RecordAttemptNotStarted _ _ _ _) = T_RecordAttemptNotStarted"
| "step_command_type (AuthorizeRetry _ _) = T_AuthorizeRetry"
| "step_command_type (MarkAttemptAmbiguous _) = T_MarkAttemptAmbiguous"
| "step_command_type (ResolveAttemptAmbiguity _ _ _ _ _ _) = T_ResolveAttemptAmbiguity"
| "step_command_type (CancelAttemptBeforeEffect _ _) = T_CancelAttemptBeforeEffect"
| "step_command_type (StartAttemptEffect _) = T_StartAttemptEffect"

record step_command_identity =
  sci_commandHash :: jstring
  sci_idempotencyKey :: jstring

record step_replay_proof =
  srp_actorId :: jstring
  srp_commandType :: step_command_kind
  srp_identity :: step_command_identity
  srp_stepRunId :: jstring
  srp_workspaceId :: jstring

record step_command_context =
  scx_actorId :: jstring
  scx_commandIdentity :: step_command_identity
  scx_correlationId :: jstring
  scx_eventIds :: "jstring list"
  scx_expectedAggregateVersion :: js_number
  scx_occurredAt :: js_number
  scx_replayProof :: "step_replay_proof option"

datatype step_failure_code =
    SF_aggregate_version_conflict | SF_attempt_id_reused | SF_event_id_count_mismatch
  | SF_idempotency_key_reused | SF_invalid_attempt_preparation | SF_invalid_attempt_reason
  | SF_invalid_transition | SF_operation_key_mismatch | SF_reconciliation_proof_required
  | SF_replay_proof_mismatch | SF_settlement_precondition_failed

record step_failure =
  sf_code :: step_failure_code
  sf_command :: step_command_kind
  sf_state :: step_run_state

record step_plan =
  sp_activeAttemptId :: "jstring option"
  sp_attempts :: "attempt list"
  sp_eventDetails :: "step_event_detail list"
  sp_state :: step_run_state

type_synonym step_transition = "(step_run, step_event) transition"

end
