(* ===== verification/Result_Manifest.thy ===== *)
theory Result_Manifest
  imports Step_Data
begin

text \<open>
  \<open>kernel/src/result-manifest.ts\<close>: whether a run has converged, and the manifest that proves
  it. \<open>evaluateRunConvergence\<close> checks the steps, the settlements and the output in turn;
  each phase fails, decides that the run is not ready, or hands its proof to the next.
\<close>

section \<open>Manifests\<close>

record result_manifest_cost =
  mc_reserved :: js_number
  mc_spent :: js_number
  mc_unit :: jstring

datatype 'reason manifest_result = Accepted validated_output | Missing 'reason

datatype entry_reason =
  Blocked_by_dependency | Result_reference_not_persisted | Step_failed

datatype output_reason = Output_proof_missing | Run_failed

datatype entry_state = E_failed | E_skipped | E_succeeded

record result_manifest_entry =
  me_nodeKey :: jstring
  me_result :: "entry_reason manifest_result"
  me_state :: entry_state
  me_stepAggregateVersion :: js_number
  me_stepEventSequence :: js_number
  me_stepRunId :: jstring
  me_blockedByNodeKeys :: "jstring list option"
  me_terminalAttemptId :: "jstring option"

datatype disposition = D_released | D_settled

record attempt_settlement =
  ms_attemptId :: jstring
  ms_disposition :: disposition
  ms_operationKey :: jstring
  ms_releasedAmount :: js_number
  ms_reservationId :: jstring
  ms_unit :: jstring
  ms_settledAmount :: "js_number option"
  ms_usageEntryId :: "jstring option"

datatype conclusion = C_completed | C_failed

record result_manifest_body =
  mb_attemptSettlements :: "attempt_settlement list"
  mb_compiledWorkflowFingerprint :: jstring
  mb_conclusion :: conclusion
  mb_cost :: result_manifest_cost
  mb_createdAt :: js_number
  mb_entries :: "result_manifest_entry list"
  mb_output :: "output_reason manifest_result"
  mb_outputContract :: contract_ref
  mb_planHash :: jstring
  mb_resultCompleteness :: result_completeness
  mb_runId :: jstring
  mb_runPlanId :: jstring
  mb_sourceRunAggregateVersion :: js_number
  mb_workspaceId :: jstring

text \<open>A manifest is its body with the hash of the body and an id, both made by the caller.\<close>

record result_manifest =
  mf_body :: result_manifest_body
  mf_manifestHash :: jstring
  mf_resultManifestId :: jstring

definition resultManifestRef :: "result_manifest \<Rightarrow> result_manifest_ref" where
  "resultManifestRef manifest =
     \<lparr>rmr_manifestHash = mf_manifestHash manifest,
      rmr_resultManifestId = mf_resultManifestId manifest\<rparr>"

datatype convergence_blocker =
    Active_attempt_present | Result_proof_missing | Output_binding_ambiguous
  | Step_coverage_incomplete | Step_not_terminal | Unsettled_cost_present
  | Unsupported_terminal_mix

datatype convergence_failure =
  Cost_proof_invalid | Identity_mismatch | Reservation_proof_invalid | Step_proof_invalid

datatype convergence_decision =
    Not_ready convergence_blocker
  | Completed_with result_manifest_body
  | Failed_with result_manifest_body

record convergence_input =
  ec_artifacts :: "artifact list"
  ec_cost :: result_manifest_cost
  ec_createdAt :: js_number
  ec_plan :: run_plan
  ec_reservations :: "cost_reservation list"
  ec_run :: run
  ec_stepRuns :: "step_run list"


section \<open>Steps\<close>

definition nonTerminalAttemptStates :: "attempt_state list" where
  "nonTerminalAttemptStates = [A_prepared, A_claimed, A_in_flight, A_ambiguous]"

definition terminalStepStates :: "step_run_state list" where
  "terminalStepStates = [S_succeeded, S_failed, S_skipped]"

definition sameTextArray :: "jstring list \<Rightarrow> jstring list \<Rightarrow> bool" where
  "sameTextArray left right \<longleftrightarrow>
     length left = length right \<and> list_all (\<lambda>i. left ! i = right ! i) [0..<length left]"

abbreviation plan_nodes :: "convergence_input \<Rightarrow> compiled_node list" where
  "plan_nodes input \<equiv> cw_nodes (pl_compiledWorkflow (ec_plan input))"

definition stepIdentityIsValid :: "convergence_input \<Rightarrow> step_run \<Rightarrow> bool" where
  "stepIdentityIsValid input stepRun \<longleftrightarrow>
     (case List.find (\<lambda>candidate. cn_key candidate = sr_nodeKey stepRun) (plan_nodes input) of
        None \<Rightarrow> False
      | Some node \<Rightarrow>
          sr_workspaceId stepRun = run_workspaceId (ec_run input) \<and>
          sr_runId stepRun = run_runId (ec_run input) \<and>
          sameTextArray (sr_dependsOn stepRun) (cn_dependsOn node))"

definition has_open_attempt :: "step_run \<Rightarrow> bool" where
  "has_open_attempt stepRun \<longleftrightarrow>
     sr_activeAttemptId stepRun \<noteq> None \<or>
     list_ex (\<lambda>attempt. at_state attempt \<in> set nonTerminalAttemptStates) (sr_attempts stepRun)"

definition attemptsAreCoherent :: "step_run \<Rightarrow> bool" where
  "attemptsAreCoherent stepRun \<longleftrightarrow>
     (if has_open_attempt stepRun then False
      else if sr_state stepRun = S_skipped then length (sr_attempts stepRun) = 0
      else if sr_state stepRun = S_succeeded
      then map_option at_state (last_opt (sr_attempts stepRun)) = Some A_succeeded
      else if sr_state stepRun = S_failed
      then (let lastState = map_option at_state (last_opt (sr_attempts stepRun))
            in length (sr_attempts stepRun) = 0 \<or> lastState = Some A_failed_retryable \<or>
               lastState = Some A_failed_terminal)
      else False)"

definition blockedBy :: "step_run \<Rightarrow> (jstring, step_run) js_map \<Rightarrow> jstring list" where
  "blockedBy stepRun stepsByNodeKey =
     filter (\<lambda>dependency. map_option sr_state (map_get stepsByNodeKey dependency)
                \<in> {Some S_failed, Some S_skipped})
       (sr_dependsOn stepRun)"

text \<open>
  The \<open>state as ResultManifestEntry["state"]\<close> cast: entries are made of terminal steps.
  On any other state the cast keeps the state as it is, which no entry can express; the
  steps that reach it are checked against \<open>terminalStepStates\<close> first.
\<close>

fun entry_state_of :: "step_run_state \<Rightarrow> entry_state" where
  "entry_state_of S_failed = E_failed"
| "entry_state_of S_skipped = E_skipped"
| "entry_state_of _ = E_succeeded"

definition toManifestEntry ::
  "step_run \<Rightarrow> (jstring, step_run) js_map \<Rightarrow> result_manifest_entry" where
  "toManifestEntry stepRun stepsByNodeKey =
     (let state = entry_state_of (sr_state stepRun);
          blockedByNodeKeys =
            (if state = E_skipped then blockedBy stepRun stepsByNodeKey else []);
          reason = (if state = E_failed then Step_failed
                    else if state = E_skipped then Blocked_by_dependency
                    else Result_reference_not_persisted);
          output = Option.bind (last_opt (sr_attempts stepRun)) at_output
      in \<lparr>me_nodeKey = sr_nodeKey stepRun,
          me_result = (case output of
              Some out \<Rightarrow> if state = E_succeeded then Accepted out else Missing reason
            | None \<Rightarrow> Missing reason),
          me_state = state,
          me_stepAggregateVersion = sr_aggregateVersion stepRun,
          me_stepEventSequence = sr_eventSequence stepRun,
          me_stepRunId = sr_stepRunId stepRun,
          me_blockedByNodeKeys =
            (if length blockedByNodeKeys = 0 then None else Some blockedByNodeKeys),
          me_terminalAttemptId = map_option at_attemptId (last_opt (sr_attempts stepRun))\<rparr>)"


section \<open>Settlements and outputs\<close>

fun reservation_base :: "cost_reservation \<Rightarrow> cost_reservation_base" where
  "reservation_base (CR_reserved b) = b"
| "reservation_base (CR_settled b _ _ _ _) = b"
| "reservation_base (CR_released b _) = b"

fun is_reserved :: "cost_reservation \<Rightarrow> bool" where
  "is_reserved (CR_reserved _) = True"
| "is_reserved _ = False"

definition reservationMatchesAttempt ::
  "convergence_input \<Rightarrow> step_run \<Rightarrow> cost_reservation \<Rightarrow> bool" where
  "reservationMatchesAttempt input stepRun reservation \<longleftrightarrow>
     (let r = reservation_base reservation
      in case List.find (\<lambda>candidate. at_attemptId candidate = cr_attemptId r)
                (sr_attempts stepRun) of
           None \<Rightarrow> False
         | Some attempt \<Rightarrow>
             cr_workspaceId r = run_workspaceId (ec_run input) \<and>
             cr_runId r = run_runId (ec_run input) \<and>
             cr_stepRunId r = sr_stepRunId stepRun \<and>
             cr_reservationId r = at_costReservationId attempt \<and>
             cr_operationKey r = at_operationKey attempt \<and>
             cr_unit r = at_reservationUnit attempt \<and>
             amountsEqual (cr_amount r) (at_reservedAmount attempt))"

text \<open>\<open>toSettlement\<close> takes a reservation that is no longer open; an open one has none.\<close>

fun toSettlement :: "cost_reservation \<Rightarrow> attempt_settlement option" where
  "toSettlement (CR_reserved _) = None"
| "toSettlement (CR_released b _) =
     Some \<lparr>ms_attemptId = cr_attemptId b, ms_disposition = D_released,
       ms_operationKey = cr_operationKey b, ms_releasedAmount = cr_amount b,
       ms_reservationId = cr_reservationId b, ms_unit = cr_unit b,
       ms_settledAmount = None, ms_usageEntryId = None\<rparr>"
| "toSettlement (CR_settled b settledAmount releasedAmount _ usageEntryId) =
     Some \<lparr>ms_attemptId = cr_attemptId b, ms_disposition = D_settled,
       ms_operationKey = cr_operationKey b, ms_releasedAmount = releasedAmount,
       ms_reservationId = cr_reservationId b, ms_unit = cr_unit b,
       ms_settledAmount = Some settledAmount, ms_usageEntryId = Some usageEntryId\<rparr>"

definition artifactMatchesOutput ::
  "artifact \<Rightarrow> validated_output \<Rightarrow> step_run \<Rightarrow> attempt \<Rightarrow> bool" where
  "artifactMatchesOutput artifact output stepRun attempt \<longleftrightarrow>
     art_artifactId artifact = ar_artifactId (vo_artifact output) \<and>
     art_contentHash artifact = ar_contentHash (vo_artifact output) \<and>
     sameContract (art_contract artifact) (vo_contract output) \<and>
     art_workspaceId artifact = sr_workspaceId stepRun \<and>
     art_runId artifact = sr_runId stepRun \<and>
     art_stepRunId artifact = sr_stepRunId stepRun \<and>
     art_attemptId artifact = at_attemptId attempt \<and>
     art_operationKey artifact = at_operationKey attempt \<and>
     is_safe_integer (art_sizeBytes artifact) \<and>
     js_ge (art_sizeBytes artifact) (num 0) \<and>
     js_eq (art_validatedAt artifact) (vo_validatedAt output) \<and>
     art_validatorVersion artifact = vo_validatorVersion output \<and>
     \<not> blank (vo_validatorVersion output) \<and>
     js_le (vo_validatedAt output) (art_finalizedAt artifact)"


section \<open>The phases\<close>

text \<open>A phase decides, or hands its proof on; \<open>isConvergenceDecision\<close> tells which.\<close>

datatype 'v phase = Decision convergence_decision | Proof 'v

type_synonym 'v phase_result = "('v phase, convergence_failure) domain_result"

text \<open>\<open>if (!r.ok) return fail(..); if (isConvergenceDecision(r.value)) return succeed(r.value);\<close>\<close>

fun after_phase ::
  "'v phase_result \<Rightarrow> ('v \<Rightarrow> (convergence_decision, convergence_failure) domain_result) \<Rightarrow>
   (convergence_decision, convergence_failure) domain_result" where
  "after_phase (Inl e) k = fail e"
| "after_phase (Inr (Decision d)) k = succeed d"
| "after_phase (Inr (Proof v)) k = k v"

record step_proof =
  st_orderedSteps :: "step_run list"
  st_stepsByNodeKey :: "(jstring, step_run) js_map"

fun order_steps ::
  "(jstring, step_run) js_map \<Rightarrow> compiled_node list \<Rightarrow> step_run list option" where
  "order_steps steps [] = Some []"
| "order_steps steps (node # nodes) =
     (case map_get steps (cn_key node) of
        None \<Rightarrow> None
      | Some stepRun \<Rightarrow> map_option ((#) stepRun) (order_steps steps nodes))"

definition evaluateStepConvergenceProof :: "convergence_input \<Rightarrow> step_proof phase_result" where
  "evaluateStepConvergenceProof input =
     (let nodeKeys = map cn_key (plan_nodes input);
          stepsByNodeKey = map_from (map (\<lambda>stepRun. (sr_nodeKey stepRun, stepRun)) (ec_stepRuns input))
      in if length stepsByNodeKey \<noteq> length (ec_stepRuns input) \<or>
            list_ex (\<lambda>stepRun. \<not> (sr_nodeKey stepRun \<in> set nodeKeys \<and> stepIdentityIsValid input stepRun))
              (ec_stepRuns input)
         then fail Step_proof_invalid
         else if length stepsByNodeKey \<noteq> set_size nodeKeys
         then succeed (Decision (Not_ready Step_coverage_incomplete))
         else if list_ex (\<lambda>stepRun. sr_state stepRun \<notin> set terminalStepStates) (ec_stepRuns input)
         then succeed (Decision (Not_ready Step_not_terminal))
         else if list_ex has_open_attempt (ec_stepRuns input)
         then succeed (Decision (Not_ready Active_attempt_present))
         else if list_ex (\<lambda>stepRun. \<not> attemptsAreCoherent stepRun) (ec_stepRuns input)
         then fail Step_proof_invalid
         else if list_ex (\<lambda>stepRun. sr_state stepRun = S_skipped \<and>
                  length (blockedBy stepRun stepsByNodeKey) = 0) (ec_stepRuns input)
         then fail Step_proof_invalid
         else case order_steps stepsByNodeKey (plan_nodes input) of
             None \<Rightarrow> succeed (Decision (Not_ready Step_coverage_incomplete))
           | Some orderedSteps \<Rightarrow>
               succeed (Proof \<lparr>st_orderedSteps = orderedSteps, st_stepsByNodeKey = stepsByNodeKey\<rparr>))"

fun order_settlements ::
  "(jstring, cost_reservation) js_map \<Rightarrow> attempt list \<Rightarrow> attempt_settlement list option" where
  "order_settlements reservations [] = Some []"
| "order_settlements reservations (stepAttempt # attempts) =
     (case Option.bind (map_get reservations (at_attemptId stepAttempt)) toSettlement of
        None \<Rightarrow> None
      | Some settlement \<Rightarrow> map_option ((#) settlement) (order_settlements reservations attempts))"

definition settled_total :: "attempt_settlement list \<Rightarrow> js_number" where
  "settled_total settlements =
     foldl (\<lambda>total settlement. js_add total (case ms_settledAmount settlement of
         Some amount \<Rightarrow> amount | None \<Rightarrow> num 0)) (num 0) settlements"

definition evaluateSettlementConvergenceProof ::
  "convergence_input \<Rightarrow> step_run list \<Rightarrow> attempt_settlement list phase_result" where
  "evaluateSettlementConvergenceProof input orderedSteps =
     (let attempts = concat (map sr_attempts orderedSteps);
          reservationsByAttempt = map_from (map (\<lambda>reservation.
            (cr_attemptId (reservation_base reservation), reservation)) (ec_reservations input))
      in if length reservationsByAttempt \<noteq> length (ec_reservations input) \<or>
            length reservationsByAttempt \<noteq> length attempts \<or>
            list_ex (\<lambda>reservation.
              case List.find (\<lambda>candidate. sr_stepRunId candidate =
                     cr_stepRunId (reservation_base reservation)) orderedSteps of
                None \<Rightarrow> True
              | Some stepRun \<Rightarrow> \<not> reservationMatchesAttempt input stepRun reservation)
              (ec_reservations input)
         then fail Reservation_proof_invalid
         else if \<not> amountsEqual (mc_reserved (ec_cost input)) (num 0) \<or>
                 list_ex is_reserved (ec_reservations input)
         then succeed (Decision (Not_ready Unsettled_cost_present))
         else case order_settlements reservationsByAttempt attempts of
             None \<Rightarrow> fail Reservation_proof_invalid
           | Some orderedSettlements \<Rightarrow>
               if \<not> amountsEqual (mc_spent (ec_cost input))
                     (js_add (bl_spent (pl_budget (ec_plan input))) (settled_total orderedSettlements))
               then fail Cost_proof_invalid
               else succeed (Proof orderedSettlements))"

text \<open>The body that both conclusions share.\<close>

definition manifest_body ::
  "convergence_input \<Rightarrow> step_proof \<Rightarrow> attempt_settlement list \<Rightarrow> conclusion \<Rightarrow>
   output_reason manifest_result \<Rightarrow> result_completeness \<Rightarrow> result_manifest_body" where
  "manifest_body input proof settlements conclusion output completeness =
     \<lparr>mb_attemptSettlements = settlements,
      mb_compiledWorkflowFingerprint = cw_fingerprint (pl_compiledWorkflow (ec_plan input)),
      mb_conclusion = conclusion,
      mb_cost = \<lparr>mc_reserved = num 0, mc_spent = mc_spent (ec_cost input),
        mc_unit = mc_unit (ec_cost input)\<rparr>,
      mb_createdAt = ec_createdAt input,
      mb_entries = map (\<lambda>stepRun. toManifestEntry stepRun (st_stepsByNodeKey proof))
        (st_orderedSteps proof),
      mb_output = output, mb_outputContract = pl_outputContract (ec_plan input),
      mb_planHash = pl_planHash (ec_plan input), mb_resultCompleteness = completeness,
      mb_runId = run_runId (ec_run input), mb_runPlanId = run_runPlanId (ec_run input),
      mb_sourceRunAggregateVersion = run_aggregateVersion (ec_run input),
      mb_workspaceId = run_workspaceId (ec_run input)\<rparr>"

definition sink_nodes :: "compiled_node list \<Rightarrow> compiled_node list" where
  "sink_nodes nodes =
     filter (\<lambda>node. cn_key node \<notin> set (concat (map cn_dependsOn nodes))) nodes"

definition evaluate_output ::
  "convergence_input \<Rightarrow> step_proof \<Rightarrow> attempt_settlement list \<Rightarrow>
   (convergence_decision, convergence_failure) domain_result" where
  "evaluate_output input proof settlements =
     (let sinkNodes = sink_nodes (plan_nodes input)
      in if length sinkNodes \<noteq> 1 then succeed (Not_ready Output_binding_ambiguous)
      else
        let sinkStep = map_get (st_stepsByNodeKey proof)
              (case sinkNodes of [] \<Rightarrow> [] | node # _ \<Rightarrow> cn_key node);
            terminalAttempt = Option.bind sinkStep (\<lambda>s. last_opt (sr_attempts s));
            output = Option.bind terminalAttempt at_output
        in case (sinkStep, terminalAttempt, output) of
             (Some sinkStep, Some terminalAttempt, Some output) \<Rightarrow>
               (let artifactsById = map_from
                      (map (\<lambda>artifact. (art_artifactId artifact, artifact)) (ec_artifacts input))
                in if length artifactsById \<noteq> length (ec_artifacts input)
                then fail Step_proof_invalid
                else case map_get artifactsById (ar_artifactId (vo_artifact output)) of
                    None \<Rightarrow> succeed (Not_ready Result_proof_missing)
                  | Some artifact \<Rightarrow>
                      if \<not> (artifactMatchesOutput artifact output sinkStep terminalAttempt \<and>
                             sameContract (vo_contract output) (pl_outputContract (ec_plan input))) \<or>
                         js_gt (art_finalizedAt artifact) (ec_createdAt input)
                      then fail Step_proof_invalid
                      else succeed (Completed_with
                        (manifest_body input proof settlements C_completed (Accepted output) RC_complete)))
           | _ \<Rightarrow> succeed (Not_ready Result_proof_missing))"

definition evaluateRunConvergence ::
  "convergence_input \<Rightarrow> (convergence_decision, convergence_failure) domain_result" where
  "evaluateRunConvergence input =
     (if pl_workspaceId (ec_plan input) \<noteq> run_workspaceId (ec_run input) \<or>
         pl_runPlanId (ec_plan input) \<noteq> run_runPlanId (ec_run input)
      then fail Identity_mismatch
      else if mc_unit (ec_cost input) \<noteq> bl_unit (pl_budget (ec_plan input)) \<or>
         \<not> isAmount (mc_spent (ec_cost input)) \<or> \<not> isAmount (mc_reserved (ec_cost input))
      then fail Cost_proof_invalid
      else after_phase (evaluateStepConvergenceProof input)
        (\<lambda>proof. after_phase (evaluateSettlementConvergenceProof input (st_orderedSteps proof))
          (\<lambda>settlements.
            if list_ex (\<lambda>stepRun. sr_state stepRun = S_failed) (st_orderedSteps proof)
            then succeed (Failed_with
              (manifest_body input proof settlements C_failed (Missing Run_failed) RC_none))
            else evaluate_output input proof settlements)))"

end
