(* ===== verification/Run_Lifecycle.thy ===== *)
theory Run_Lifecycle
  imports Result_Manifest
begin

text \<open>
  \<open>kernel/src/run-lifecycle.ts\<close>: the commands on a run. A command is planned from the
  state of the run; an accepted plan becomes the next run and its events.
\<close>

section \<open>Commands, contexts and events\<close>

datatype run_outcome = O_completed | O_failed | O_cancelled

datatype run_command =
    ClaimRun
  | OpenInputRequest bool
  | ConsumeSignal bool
  | RequestStop stop_reason
  | SettleCancellation
  | CompleteRun result_manifest
  | FailRun result_manifest
  | MarkEffectAmbiguous jstring
  | ResolveAmbiguity run_outcome jstring result_completeness "result_manifest option"

datatype run_command_kind =
    T_ClaimRun | T_OpenInputRequest | T_ConsumeSignal | T_RequestStop | T_SettleCancellation
  | T_CompleteRun | T_FailRun | T_MarkEffectAmbiguous | T_ResolveAmbiguity

fun run_command_type :: "run_command \<Rightarrow> run_command_kind" where
  "run_command_type ClaimRun = T_ClaimRun"
| "run_command_type (OpenInputRequest _) = T_OpenInputRequest"
| "run_command_type (ConsumeSignal _) = T_ConsumeSignal"
| "run_command_type (RequestStop _) = T_RequestStop"
| "run_command_type SettleCancellation = T_SettleCancellation"
| "run_command_type (CompleteRun _) = T_CompleteRun"
| "run_command_type (FailRun _) = T_FailRun"
| "run_command_type (MarkEffectAmbiguous _) = T_MarkEffectAmbiguous"
| "run_command_type (ResolveAmbiguity _ _ _ _) = T_ResolveAmbiguity"

record run_command_identity =
  rci_idempotencyKey :: jstring
  rci_commandHash :: jstring

record run_replay_proof =
  rrp_runId :: jstring
  rrp_workspaceId :: jstring
  rrp_identity :: run_command_identity
  rrp_commandType :: run_command_kind

record run_command_context =
  rcx_commandIdentity :: run_command_identity
  rcx_expectedAggregateVersion :: js_number
  rcx_eventIds :: "jstring list"
  rcx_occurredAt :: js_number
  rcx_actorId :: jstring
  rcx_correlationId :: jstring
  rcx_replayProof :: "run_replay_proof option"

datatype run_event_detail =
    RunStarted
  | InputRequested
  | RunWaiting
  | InputRequestConsumed
  | RunResumed
  | RunStopRequested stop_reason
  | RunCancelling stop_reason
  | RunCancelled stop_reason
  | RunResultManifestRecorded conclusion jstring result_completeness jstring
  | RunCompleted result_completeness
  | RunFailed result_completeness
  | ExternalEffectBecameAmbiguous jstring
  | RunAmbiguous jstring
  | AmbiguityResolved run_outcome jstring

record run_event =
  re_eventId :: jstring
  re_runId :: jstring
  re_workspaceId :: jstring
  re_sequence :: js_number
  re_occurredAt :: js_number
  re_actorId :: jstring
  re_correlationId :: jstring
  re_detail :: run_event_detail

type_synonym run_transition = "(run, run_event) transition"

datatype run_failure_code =
    RF_aggregate_version_conflict | RF_invalid_transition | RF_event_id_count_mismatch
  | RF_completion_precondition_failed | RF_invalid_result_completeness
  | RF_reconciliation_proof_required | RF_operation_key_required | RF_replay_proof_mismatch
  | RF_idempotency_key_reused

record run_failure =
  rf_code :: run_failure_code
  rf_state :: run_state
  rf_command :: run_command_kind

record run_transition_plan =
  tp_state :: run_state
  tp_resultCompleteness :: result_completeness
  tp_pendingStopReason :: "stop_reason option"
  tp_resultManifest :: "result_manifest_ref option"
  tp_eventDetails :: "run_event_detail list"

type_synonym run_plan_result = "(run_transition_plan, run_failure) domain_result"


section \<open>Planning a transition\<close>

definition run_fail :: "run_failure_code \<Rightarrow> run \<Rightarrow> run_command_kind \<Rightarrow> run_failure" where
  "run_fail code run kind = \<lparr>rf_code = code, rf_state = run_state run, rf_command = kind\<rparr>"

definition run_invalidTransition :: "run \<Rightarrow> run_command \<Rightarrow> ('a, run_failure) domain_result" where
  "run_invalidTransition run command =
     fail (run_fail RF_invalid_transition run (run_command_type command))"

definition manifest_identifies :: "result_manifest_body \<Rightarrow> run \<Rightarrow> conclusion \<Rightarrow> bool" where
  "manifest_identifies manifest run conclusion \<longleftrightarrow>
     mb_workspaceId manifest = run_workspaceId run \<and>
     mb_runId manifest = run_runId run \<and>
     mb_runPlanId manifest = run_runPlanId run \<and>
     js_eq (mb_sourceRunAggregateVersion manifest) (run_aggregateVersion run) \<and>
     mb_conclusion manifest = conclusion"

definition concluded_plan ::
  "conclusion \<Rightarrow> result_manifest \<Rightarrow> run_state \<Rightarrow> (result_completeness \<Rightarrow> run_event_detail) \<Rightarrow> run_transition_plan" where
  "concluded_plan conclusion manifest state event =
     (let completeness = mb_resultCompleteness (mf_body manifest)
      in \<lparr>tp_state = state, tp_resultCompleteness = completeness, tp_pendingStopReason = None,
          tp_resultManifest = Some (resultManifestRef manifest),
          tp_eventDetails =
            [RunResultManifestRecorded conclusion
               (mf_manifestHash manifest) completeness (mf_resultManifestId manifest),
             event completeness]\<rparr>)"

definition validateCompletion :: "run \<Rightarrow> result_manifest \<Rightarrow> run_plan_result" where
  "validateCompletion run manifest =
     (let body = mf_body manifest
      in if \<not> manifest_identifies body run C_completed
      then fail (run_fail RF_completion_precondition_failed run T_CompleteRun)
      else case mb_output body of
          Missing _ \<Rightarrow> fail (run_fail RF_invalid_result_completeness run T_CompleteRun)
        | Accepted acceptedOutput \<Rightarrow>
            if mb_resultCompleteness body \<noteq> RC_complete \<or>
               blank (vo_validatorVersion acceptedOutput) \<or>
               \<not> sameContract (vo_contract acceptedOutput) (mb_outputContract body) \<or>
               list_ex (\<lambda>entry. me_state entry \<noteq> E_succeeded) (mb_entries body) \<or>
               \<not> list_ex (\<lambda>entry. case me_result entry of
                      Missing _ \<Rightarrow> False
                    | Accepted result \<Rightarrow>
                        ar_artifactId (vo_artifact result) = ar_artifactId (vo_artifact acceptedOutput) \<and>
                        ar_contentHash (vo_artifact result) = ar_contentHash (vo_artifact acceptedOutput))
                    (mb_entries body)
            then fail (run_fail RF_invalid_result_completeness run T_CompleteRun)
            else succeed (concluded_plan C_completed manifest R_completed RunCompleted))"

definition validateFailure :: "run \<Rightarrow> result_manifest \<Rightarrow> run_plan_result" where
  "validateFailure run manifest =
     (let body = mf_body manifest
      in if \<not> manifest_identifies body run C_failed \<or>
            list_all (\<lambda>entry. me_state entry \<noteq> E_failed) (mb_entries body)
      then fail (run_fail RF_completion_precondition_failed run T_FailRun)
      else succeed (concluded_plan C_failed manifest R_failed RunFailed))"

text \<open>
  The validation of a reconciled conclusion: the failure keeps its code and names the
  reconciliation command, and the stated completeness must be the manifest's.
\<close>

definition reconciled ::
  "run \<Rightarrow> result_completeness \<Rightarrow> result_manifest option \<Rightarrow>
   (run \<Rightarrow> result_manifest \<Rightarrow> run_plan_result) \<Rightarrow> run_plan_result" where
  "reconciled run completeness manifest validate =
     (case manifest of
        None \<Rightarrow> fail (run_fail RF_completion_precondition_failed run T_ResolveAmbiguity)
      | Some m \<Rightarrow>
          (case validate run m of
             Inl e \<Rightarrow> fail (e\<lparr>rf_command := T_ResolveAmbiguity\<rparr>)
           | Inr validated \<Rightarrow>
               if completeness \<noteq> mb_resultCompleteness (mf_body m)
               then fail (run_fail RF_invalid_result_completeness run T_ResolveAmbiguity)
               else succeed validated))"

text \<open>The events \<open>[manifestEvent, AmbiguityResolved, terminalEvent]\<close> around the validated pair.\<close>

definition resolved_plan ::
  "run_outcome \<Rightarrow> jstring \<Rightarrow> result_completeness \<Rightarrow> run_state \<Rightarrow> run_transition_plan \<Rightarrow>
   run_transition_plan" where
  "resolved_plan outcome proofId completeness state validated =
     \<lparr>tp_state = state, tp_resultCompleteness = completeness, tp_pendingStopReason = None,
      tp_resultManifest = tp_resultManifest validated,
      tp_eventDetails =
        [tp_eventDetails validated ! 0, AmbiguityResolved outcome proofId,
         tp_eventDetails validated ! 1]\<rparr>"

definition pending_reason :: "run \<Rightarrow> stop_reason" where
  "pending_reason run = (case run_pendingStopReason run of Some r \<Rightarrow> r | None \<Rightarrow> Stop_requested)"

definition resolveAmbiguity ::
  "run \<Rightarrow> run_outcome \<Rightarrow> jstring \<Rightarrow> result_completeness \<Rightarrow> result_manifest option \<Rightarrow>
   run_plan_result" where
  "resolveAmbiguity run outcome proofId completeness manifest =
     (if blank proofId then fail (run_fail RF_reconciliation_proof_required run T_ResolveAmbiguity)
      else case outcome of
        O_completed \<Rightarrow>
          and_then (reconciled run completeness manifest validateCompletion)
            (\<lambda>v. succeed (resolved_plan outcome proofId completeness R_completed v))
      | O_failed \<Rightarrow>
          and_then (reconciled run completeness manifest validateFailure)
            (\<lambda>v. succeed (resolved_plan outcome proofId completeness R_failed v))
      | O_cancelled \<Rightarrow>
          succeed \<lparr>tp_state = R_cancelled, tp_resultCompleteness = completeness,
            tp_pendingStopReason = None, tp_resultManifest = None,
            tp_eventDetails =
              [AmbiguityResolved outcome proofId, RunCancelled (pending_reason run)]\<rparr>)"

text \<open>A plan that keeps the completeness of the run and records no manifest.\<close>

definition keep_result ::
  "run \<Rightarrow> run_state \<Rightarrow> stop_reason option \<Rightarrow> run_event_detail list \<Rightarrow> run_transition_plan" where
  "keep_result run state reason details =
     \<lparr>tp_state = state, tp_resultCompleteness = run_resultCompleteness run,
      tp_pendingStopReason = reason, tp_resultManifest = None, tp_eventDetails = details\<rparr>"

definition requestStop :: "run \<Rightarrow> stop_reason \<Rightarrow> run_plan_result" where
  "requestStop run reason =
     (if run_state run = R_queued
      then succeed (keep_result run R_cancelled None [RunStopRequested reason, RunCancelled reason])
      else if run_state run = R_running \<or> run_state run = R_waiting
      then succeed (keep_result run R_cancelling (Some reason)
        [RunStopRequested reason, RunCancelling reason])
      else if run_state run = R_ambiguous
      then succeed (keep_result run R_ambiguous (Some reason) [RunStopRequested reason])
      else run_invalidTransition run (RequestStop reason))"

definition markEffectAmbiguous :: "run \<Rightarrow> jstring \<Rightarrow> run_plan_result" where
  "markEffectAmbiguous run operationKey =
     (if run_state run \<noteq> R_running \<and> run_state run \<noteq> R_cancelling
      then run_invalidTransition run (MarkEffectAmbiguous operationKey)
      else if blank operationKey
      then fail (run_fail RF_operation_key_required run T_MarkEffectAmbiguous)
      else succeed (keep_result run R_ambiguous (run_pendingStopReason run)
        [ExternalEffectBecameAmbiguous operationKey, RunAmbiguous operationKey]))"

definition claimRun :: "run \<Rightarrow> run_plan_result" where
  "claimRun run =
     (if run_state run = R_queued then succeed (keep_result run R_running None [RunStarted])
      else run_invalidTransition run ClaimRun)"

definition openInputRequest :: "run \<Rightarrow> bool \<Rightarrow> run_plan_result" where
  "openInputRequest run hasIndependentProgress =
     (if run_state run = R_running
      then succeed (keep_result run (if hasIndependentProgress then R_running else R_waiting) None
        (if hasIndependentProgress then [InputRequested] else [InputRequested, RunWaiting]))
      else run_invalidTransition run (OpenInputRequest hasIndependentProgress))"

definition consumeSignal :: "run \<Rightarrow> bool \<Rightarrow> run_plan_result" where
  "consumeSignal run reopensGlobalProgress =
     (if run_state run = R_waiting
      then succeed (keep_result run (if reopensGlobalProgress then R_running else R_waiting) None
        (if reopensGlobalProgress then [InputRequestConsumed, RunResumed] else [InputRequestConsumed]))
      else run_invalidTransition run (ConsumeSignal reopensGlobalProgress))"

definition settleCancellation :: "run \<Rightarrow> run_plan_result" where
  "settleCancellation run =
     (if run_state run = R_cancelling
      then succeed (keep_result run R_cancelled None [RunCancelled (pending_reason run)])
      else run_invalidTransition run SettleCancellation)"

definition completeRun :: "run \<Rightarrow> result_manifest \<Rightarrow> run_plan_result" where
  "completeRun run manifest =
     (if run_state run = R_running then validateCompletion run manifest
      else run_invalidTransition run (CompleteRun manifest))"

definition failRun :: "run \<Rightarrow> result_manifest \<Rightarrow> run_plan_result" where
  "failRun run manifest =
     (if run_state run = R_running then validateFailure run manifest
      else run_invalidTransition run (FailRun manifest))"

definition reconcileRun ::
  "run \<Rightarrow> run_outcome \<Rightarrow> jstring \<Rightarrow> result_completeness \<Rightarrow> result_manifest option \<Rightarrow>
   run_plan_result" where
  "reconcileRun run outcome proofId completeness manifest =
     (if run_state run = R_ambiguous then resolveAmbiguity run outcome proofId completeness manifest
      else run_invalidTransition run (ResolveAmbiguity outcome proofId completeness manifest))"

fun run_planTransition :: "run \<Rightarrow> run_command \<Rightarrow> run_plan_result" where
  "run_planTransition run ClaimRun = claimRun run"
| "run_planTransition run (OpenInputRequest independent) = openInputRequest run independent"
| "run_planTransition run (ConsumeSignal reopens) = consumeSignal run reopens"
| "run_planTransition run (RequestStop reason) = requestStop run reason"
| "run_planTransition run SettleCancellation = settleCancellation run"
| "run_planTransition run (CompleteRun manifest) = completeRun run manifest"
| "run_planTransition run (FailRun manifest) = failRun run manifest"
| "run_planTransition run (MarkEffectAmbiguous operationKey) = markEffectAmbiguous run operationKey"
| "run_planTransition run (ResolveAmbiguity outcome proofId completeness manifest) =
     reconcileRun run outcome proofId completeness manifest"

definition run_toEvent ::
  "run \<Rightarrow> run_event_detail \<Rightarrow> run_command_context \<Rightarrow> nat \<Rightarrow> run_event" where
  "run_toEvent run detail context index =
     \<lparr>re_eventId = rcx_eventIds context ! index, re_runId = run_runId run,
      re_workspaceId = run_workspaceId run,
      re_sequence = js_add (js_add (run_eventSequence run) (num (int index))) (num 1),
      re_occurredAt = rcx_occurredAt context, re_actorId = rcx_actorId context,
      re_correlationId = rcx_correlationId context, re_detail = detail\<rparr>"

definition applyRunCommand ::
  "run \<Rightarrow> run_command \<Rightarrow> run_command_context \<Rightarrow> (run_transition, run_failure) domain_result" where
  "applyRunCommand run command context =
     (let kind = run_command_type command
      in case rcx_replayProof context of
        Some proof \<Rightarrow>
          if rrp_runId proof \<noteq> run_runId run \<or>
             rrp_workspaceId proof \<noteq> run_workspaceId run \<or>
             rci_idempotencyKey (rrp_identity proof) \<noteq> rci_idempotencyKey (rcx_commandIdentity context)
          then fail (run_fail RF_replay_proof_mismatch run kind)
          else if rrp_commandType proof \<noteq> kind \<or>
             rci_commandHash (rrp_identity proof) \<noteq> rci_commandHash (rcx_commandIdentity context)
          then fail (run_fail RF_idempotency_key_reused run kind)
          else succeed \<lparr>tr_aggregate = run, tr_events = [], tr_replayed = True\<rparr>
      | None \<Rightarrow>
          if \<not> js_eq (rcx_expectedAggregateVersion context) (run_aggregateVersion run)
          then fail (run_fail RF_aggregate_version_conflict run kind)
          else and_then (run_planTransition run command)
            (\<lambda>planned.
              if length (rcx_eventIds context) \<noteq> length (tp_eventDetails planned)
              then fail (run_fail RF_event_id_count_mismatch run kind)
              else
                let events = map (\<lambda>index. run_toEvent run (tp_eventDetails planned ! index) context index)
                      [0..<length (tp_eventDetails planned)]
                in succeed \<lparr>tr_aggregate = run\<lparr>
                       run_aggregateVersion := js_add (run_aggregateVersion run) (num 1),
                       run_eventSequence :=
                         js_add (run_eventSequence run) (num (int (length events))),
                       run_pendingStopReason := tp_pendingStopReason planned,
                       run_resultManifest := tp_resultManifest planned,
                       run_resultCompleteness := tp_resultCompleteness planned,
                       run_state := tp_state planned\<rparr>,
                     tr_events = events, tr_replayed = False\<rparr>))"


section \<open>The run as a journaled aggregate\<close>

definition is_run_replay :: "run_command_context \<Rightarrow> bool" where
  "is_run_replay context \<longleftrightarrow> rcx_replayProof context \<noteq> None"

lemma applyRunCommand_replay:
  "rcx_replayProof x = Some proof \<Longrightarrow> applyRunCommand r c x = Inr t \<Longrightarrow>
   t = \<lparr>tr_aggregate = r, tr_events = [], tr_replayed = True\<rparr>"
  by (simp add: applyRunCommand_def Let_def split: if_splits)

lemma applyRunCommand_fresh:
  assumes "applyRunCommand r c x = Inr t" and "rcx_replayProof x = None"
  obtains p where "run_planTransition r c = Inr p"
    "js_eq (rcx_expectedAggregateVersion x) (run_aggregateVersion r)"
    "length (rcx_eventIds x) = length (tp_eventDetails p)"
    "t = \<lparr>tr_aggregate = r\<lparr>
         run_aggregateVersion := js_add (run_aggregateVersion r) (num 1),
         run_eventSequence := js_add (run_eventSequence r) (num (int (length (tp_eventDetails p)))),
         run_pendingStopReason := tp_pendingStopReason p,
         run_resultManifest := tp_resultManifest p,
         run_resultCompleteness := tp_resultCompleteness p,
         run_state := tp_state p\<rparr>,
       tr_events = map (\<lambda>i. run_toEvent r (tp_eventDetails p ! i) x i) [0..<length (tp_eventDetails p)],
       tr_replayed = False\<rparr>"
  using assms by (auto simp: applyRunCommand_def Let_def)

interpretation run_journal:
  journaled_aggregate applyRunCommand run_aggregateVersion run_eventSequence
    rcx_expectedAggregateVersion is_run_replay re_sequence
proof (unfold_locales, goal_cases)
  case (1 a c x t)
  then show ?case
    by (cases "rcx_replayProof x")
      (auto simp: is_run_replay_def dest: applyRunCommand_replay elim: applyRunCommand_fresh)
next
  case (2 a c x t)
  then show ?case by (auto simp: is_run_replay_def dest: applyRunCommand_replay)
qed (auto simp: is_run_replay_def run_toEvent_def elim!: applyRunCommand_fresh)

text \<open>An accepted command that is not a replay takes over the fields of its plan.\<close>

lemma applyRunCommand_plan:
  assumes "applyRunCommand r c x = Inr t" and "rcx_replayProof x = None"
  obtains p where "run_planTransition r c = Inr p"
    "run_state (tr_aggregate t) = tp_state p"
    "run_resultCompleteness (tr_aggregate t) = tp_resultCompleteness p"
    "run_resultManifest (tr_aggregate t) = tp_resultManifest p"
    "run_pendingStopReason (tr_aggregate t) = tp_pendingStopReason p"
    "run_runId (tr_aggregate t) = run_runId r"
    "run_workspaceId (tr_aggregate t) = run_workspaceId r"
    "run_runPlanId (tr_aggregate t) = run_runPlanId r"
    "map re_detail (tr_events t) = tp_eventDetails p"
  by (rule applyRunCommand_fresh [OF assms]) (simp add: run_toEvent_def comp_def map_nth)

end
