(* ===== verification/Projection.thy ===== *)
theory Projection
  imports Journal
begin

text \<open>
  Event sourcing: a journaled aggregate whose visible state can be rebuilt from its events
  alone. The contract extends the one of \<open>Journal\<close> with an invariant of the aggregate, a
  view of it and the effect of one event on the view.
\<close>

locale projected_aggregate =
  journaled_aggregate step version sequence expected replays event_number
  for step :: "'agg \<Rightarrow> 'cmd \<Rightarrow> 'ctx \<Rightarrow> 'err + ('agg, 'ev) transition"
    and version :: "'agg \<Rightarrow> js_number"
    and sequence :: "'agg \<Rightarrow> js_number"
    and expected :: "'ctx \<Rightarrow> js_number"
    and replays :: "'ctx \<Rightarrow> bool"
    and event_number :: "'ev \<Rightarrow> js_number" +
  fixes inv :: "'agg \<Rightarrow> bool"
    and view :: "'agg \<Rightarrow> 'view"
    and project :: "'ev \<Rightarrow> 'view \<Rightarrow> 'view"
  assumes inv_step: "inv a \<Longrightarrow> step a c x = Inr t \<Longrightarrow> inv (tr_aggregate t)"
    and view_step: "inv a \<Longrightarrow> step a c x = Inr t \<Longrightarrow> \<not> replays x \<Longrightarrow>
      view (tr_aggregate t) = fold project (tr_events t) (view a)"
begin

lemma view_any_step:
  "inv a \<Longrightarrow> step a c x = Inr t \<Longrightarrow> view (tr_aggregate t) = fold project (tr_events t) (view a)"
  using replay_unchanged view_step by (cases "replays x") auto

text \<open>The first command of an accepted history, and the history of the others.\<close>

lemma history_ConsE:
  assumes "run_history step a ((c, x) # cs) = Inr (b, evs)"
  obtains t evs' where "step a c x = Inr t" "run_history step (tr_aggregate t) cs = Inr (b, evs')"
    "evs = tr_events t @ evs'"
  using assms by (auto split: sum.splits)

lemma history_inv: "inv a \<Longrightarrow> run_history step a cs = Inr (b, evs) \<Longrightarrow> inv b"
proof (induction cs arbitrary: a evs)
  case (Cons cx cs)
  obtain c x where "cx = (c, x)" by (cases cx)
  with Cons show ?case by (metis history_ConsE inv_step)
qed simp

lemma history_view:
  "inv a \<Longrightarrow> run_history step a cs = Inr (b, evs) \<Longrightarrow> view b = fold project evs (view a)"
proof (induction cs arbitrary: a evs)
  case (Cons cx cs)
  obtain c x where cx: "cx = (c, x)" by (cases cx)
  obtain t evs' where t: "step a c x = Inr t" "run_history step (tr_aggregate t) cs = Inr (b, evs')"
    "evs = tr_events t @ evs'"
    using Cons.prems(2) unfolding cx by (rule history_ConsE)
  then show ?case
    using Cons.IH [OF inv_step [OF Cons.prems(1) t(1)] t(2)] view_any_step [OF Cons.prems(1) t(1)]
    by simp
qed simp

end

end
