(* ===== verification/Run_Invariant.thy ===== *)
theory Run_Invariant
  imports Run_Lifecycle Projection
begin

text \<open>
  The invariant of a run, kept by every command of \<open>kernel/src/run-lifecycle.ts\<close>, and the
  view of a run that its events determine.
\<close>

section \<open>The invariant\<close>

text \<open>Runs that have not ended.\<close>

definition live_states :: "run_state set" where
  "live_states = {R_queued, R_running, R_waiting, R_cancelling, R_ambiguous}"

text \<open>
  A manifest is recorded exactly when the run has completed or failed; a live run has no
  result; and a stop is pending in a cancelling run, possibly in an ambiguous one, and in
  no other.
\<close>

definition outcome_inv ::
  "run_state \<Rightarrow> result_completeness \<Rightarrow> stop_reason option \<Rightarrow> result_manifest_ref option \<Rightarrow> bool" where
  "outcome_inv state completeness pending manifest \<longleftrightarrow>
     (manifest \<noteq> None \<longleftrightarrow> state = R_completed \<or> state = R_failed) \<and>
     (state \<in> live_states \<longrightarrow> completeness = RC_none) \<and>
     (state = R_completed \<longrightarrow> completeness = RC_complete) \<and>
     (pending \<noteq> None \<longrightarrow> state = R_cancelling \<or> state = R_ambiguous) \<and>
     (state = R_cancelling \<longrightarrow> pending \<noteq> None)"

definition run_inv :: "run \<Rightarrow> bool" where
  "run_inv r \<longleftrightarrow>
     outcome_inv (run_state r) (run_resultCompleteness r) (run_pendingStopReason r)
       (run_resultManifest r)"

lemmas run_plan_defs = claimRun_def openInputRequest_def consumeSignal_def requestStop_def
  settleCancellation_def completeRun_def failRun_def markEffectAmbiguous_def reconcileRun_def
  run_invalidTransition_def

lemma artifact_ref_eq [simp]:
  "ar_artifactId a = ar_artifactId b \<and> ar_contentHash a = ar_contentHash b \<longleftrightarrow> (a :: artifact_ref) = b"
  by (cases a; cases b) auto

lemma accepted_result_iff:
  "(case me_result entry of
      Missing _ \<Rightarrow> False
    | Accepted result \<Rightarrow>
        ar_artifactId (vo_artifact result) = ar_artifactId (vo_artifact out) \<and>
        ar_contentHash (vo_artifact result) = ar_contentHash (vo_artifact out)) \<longleftrightarrow>
   (\<exists>result. me_result entry = Accepted result \<and> vo_artifact result = vo_artifact out)"
  by (cases "me_result entry") simp_all

lemma validateCompletion_InrE:
  assumes "validateCompletion r m = Inr p"
  obtains out where "p = concluded_plan C_completed m R_completed RunCompleted"
    "manifest_identifies (mf_body m) r C_completed" "mb_output (mf_body m) = Accepted out"
    "mb_resultCompleteness (mf_body m) = RC_complete" "\<not> blank (vo_validatorVersion out)"
    "vo_contract out = mb_outputContract (mf_body m)"
    "\<forall>entry\<in>set (mb_entries (mf_body m)). me_state entry = E_succeeded"
    "\<exists>entry\<in>set (mb_entries (mf_body m)). \<exists>result. me_result entry = Accepted result \<and>
       vo_artifact result = vo_artifact out"
proof (cases "mb_output (mf_body m)")
  case (Accepted out)
  show ?thesis
    using assms Accepted that [of out]
    unfolding validateCompletion_def Let_def accepted_result_iff list_ex_iff
    by (simp split: if_splits)
qed (use assms in \<open>simp add: validateCompletion_def Let_def split: if_splits\<close>)

lemma validateFailure_InrD:
  assumes "validateFailure r m = Inr p"
  shows "p = concluded_plan C_failed m R_failed RunFailed \<and>
    manifest_identifies (mf_body m) r C_failed \<and>
    (\<exists>entry\<in>set (mb_entries (mf_body m)). me_state entry = E_failed)"
  using assms by (auto simp: validateFailure_def Let_def list_all_iff split: if_splits)

lemma reconciled_InrE:
  assumes "reconciled r k m validate = Inr v"
  obtains m' where "m = Some m'" "validate r m' = Inr v" "k = mb_resultCompleteness (mf_body m')"
  using assms by (auto simp: reconciled_def split: option.splits sum.splits if_splits)

lemma concluded_plan_sel [simp]:
  "tp_state (concluded_plan c m st ev) = st"
  "tp_resultCompleteness (concluded_plan c m st ev) = mb_resultCompleteness (mf_body m)"
  "tp_pendingStopReason (concluded_plan c m st ev) = None"
  "tp_resultManifest (concluded_plan c m st ev) = Some (resultManifestRef m)"
  "tp_eventDetails (concluded_plan c m st ev) =
     [RunResultManifestRecorded c (mf_manifestHash m) (mb_resultCompleteness (mf_body m))
        (mf_resultManifestId m), ev (mb_resultCompleteness (mf_body m))]"
  by (simp_all add: concluded_plan_def Let_def)

text \<open>The ways in which a resolution of an ambiguous run is planned.\<close>

lemma resolveAmbiguity_cases:
  assumes "resolveAmbiguity r oc pid k m = Inr p"
  obtains
    (completed) m' where "oc = O_completed" "m = Some m'" "k = mb_resultCompleteness (mf_body m')"
      "validateCompletion r m' = Inr (concluded_plan C_completed m' R_completed RunCompleted)"
      "p = resolved_plan oc pid k R_completed (concluded_plan C_completed m' R_completed RunCompleted)"
      "\<not> blank pid"
  | (failed) m' where "oc = O_failed" "m = Some m'" "k = mb_resultCompleteness (mf_body m')"
      "validateFailure r m' = Inr (concluded_plan C_failed m' R_failed RunFailed)"
      "p = resolved_plan oc pid k R_failed (concluded_plan C_failed m' R_failed RunFailed)"
      "\<not> blank pid"
  | (cancelled) "oc = O_cancelled" "\<not> blank pid"
      "p = \<lparr>tp_state = R_cancelled, tp_resultCompleteness = k, tp_pendingStopReason = None,
        tp_resultManifest = None,
        tp_eventDetails = [AmbiguityResolved oc pid, RunCancelled (pending_reason r)]\<rparr>"
proof (cases oc)
  case O_completed
  then obtain v where v: "reconciled r k m validateCompletion = Inr v"
    "p = resolved_plan oc pid k R_completed v" "\<not> blank pid"
    using assms by (auto simp: resolveAmbiguity_def)
  from v(1) obtain m' where m: "m = Some m'" "validateCompletion r m' = Inr v"
    "k = mb_resultCompleteness (mf_body m')" by (rule reconciled_InrE)
  then have "v = concluded_plan C_completed m' R_completed RunCompleted"
    by (auto elim: validateCompletion_InrE)
  with O_completed v m show ?thesis by (intro completed) simp_all
next
  case O_failed
  then obtain v where v: "reconciled r k m validateFailure = Inr v"
    "p = resolved_plan oc pid k R_failed v" "\<not> blank pid"
    using assms by (auto simp: resolveAmbiguity_def)
  from v(1) obtain m' where m: "m = Some m'" "validateFailure r m' = Inr v"
    "k = mb_resultCompleteness (mf_body m')" by (rule reconciled_InrE)
  then have "v = concluded_plan C_failed m' R_failed RunFailed"
    by (auto dest: validateFailure_InrD)
  with O_failed v m show ?thesis by (intro failed) simp_all
next
  case O_cancelled
  then show ?thesis using assms by (intro cancelled) (auto simp: resolveAmbiguity_def)
qed

lemma resolved_plan_sel [simp]:
  "tp_state (resolved_plan oc pid k st v) = st"
  "tp_resultCompleteness (resolved_plan oc pid k st v) = k"
  "tp_pendingStopReason (resolved_plan oc pid k st v) = None"
  "tp_resultManifest (resolved_plan oc pid k st v) = tp_resultManifest v"
  "tp_eventDetails (resolved_plan oc pid k st v) =
     [tp_eventDetails v ! 0, AmbiguityResolved oc pid, tp_eventDetails v ! 1]"
  by (simp_all add: resolved_plan_def)

lemma resolveAmbiguity_inv:
  assumes "resolveAmbiguity r oc pid k m = Inr p"
  shows "outcome_inv (tp_state p) (tp_resultCompleteness p) (tp_pendingStopReason p)
    (tp_resultManifest p)"
  using assms
proof (cases rule: resolveAmbiguity_cases)
  case (completed m')
  then have "k = RC_complete" by (metis validateCompletion_InrE)
  with completed show ?thesis by (simp add: outcome_inv_def live_states_def)
qed (simp_all add: outcome_inv_def live_states_def)

lemma keep_result_sel [simp]:
  "tp_state (keep_result r st reason ds) = st"
  "tp_resultCompleteness (keep_result r st reason ds) = run_resultCompleteness r"
  "tp_pendingStopReason (keep_result r st reason ds) = reason"
  "tp_resultManifest (keep_result r st reason ds) = None"
  "tp_eventDetails (keep_result r st reason ds) = ds"
  by (simp_all add: keep_result_def)

lemma live_states_simps [simp]:
  "R_queued \<in> live_states" "R_running \<in> live_states" "R_waiting \<in> live_states"
  "R_cancelling \<in> live_states" "R_ambiguous \<in> live_states"
  by (simp_all add: live_states_def)

lemma keep_result_inv:
  assumes "run_inv r" and "run_state r \<in> live_states"
    and "st \<in> live_states \<or> st = R_cancelled"
    and "reason \<noteq> None \<Longrightarrow> st = R_cancelling \<or> st = R_ambiguous"
    and "st = R_cancelling \<Longrightarrow> reason \<noteq> None"
  shows "outcome_inv st (run_resultCompleteness r) reason None"
  using assms by (auto simp: run_inv_def outcome_inv_def live_states_def)

lemma run_inv_pending:
  "run_inv r \<Longrightarrow> run_state r \<noteq> R_cancelling \<Longrightarrow> run_state r \<noteq> R_ambiguous \<Longrightarrow>
   run_pendingStopReason r = None"
  by (auto simp: run_inv_def outcome_inv_def)

lemma run_planTransition_inv:
  assumes "run_inv r" and "run_planTransition r c = Inr p"
  shows "outcome_inv (tp_state p) (tp_resultCompleteness p) (tp_pendingStopReason p)
    (tp_resultManifest p)"
proof (cases c)
  case (CompleteRun m)
  then have "validateCompletion r m = Inr p"
    using assms(2) by (simp add: run_plan_defs split: if_splits)
  then show ?thesis
    by (rule validateCompletion_InrE) (simp add: outcome_inv_def live_states_def)
next
  case (FailRun m)
  then have "validateFailure r m = Inr p"
    using assms(2) by (simp add: run_plan_defs split: if_splits)
  then show ?thesis
    using validateFailure_InrD [of r m p] by (simp add: outcome_inv_def live_states_def)
next
  case (ResolveAmbiguity oc pid k m)
  then have "resolveAmbiguity r oc pid k m = Inr p"
    using assms(2) by (simp add: run_plan_defs split: if_splits)
  then show ?thesis by (rule resolveAmbiguity_inv)
qed (use assms in \<open>auto simp: run_plan_defs intro!: keep_result_inv split: if_splits\<close>)

lemma applyRunCommand_inv:
  assumes "run_inv r" and "applyRunCommand r c x = Inr t"
  shows "run_inv (tr_aggregate t)"
proof (cases "rcx_replayProof x")
  case None
  show ?thesis
    by (rule applyRunCommand_plan [OF assms(2) None])
      (use run_planTransition_inv [OF assms(1)] in \<open>simp add: run_inv_def\<close>)
next
  case (Some r')
  then show ?thesis using applyRunCommand_replay [OF Some assms(2)] assms(1) by simp
qed

inductive run_reachable :: "run \<Rightarrow> bool" where
  created: "createRunFromPlan input = Inr d \<Longrightarrow> run_reachable (cd_run d)"
| commanded: "run_reachable r \<Longrightarrow> applyRunCommand r c x = Inr t \<Longrightarrow> run_reachable (tr_aggregate t)"

lemma createRunFromPlan_inv: "createRunFromPlan input = Inr d \<Longrightarrow> run_inv (cd_run d)"
  by (simp add: run_inv_def outcome_inv_def createRunFromPlan_run)

lemma run_reachable_inv: "run_reachable r \<Longrightarrow> run_inv r"
  by (induction rule: run_reachable.induct) (blast intro: createRunFromPlan_inv applyRunCommand_inv)+


section \<open>The view that the events determine\<close>

record run_view =
  rv_state :: run_state
  rv_pendingStopReason :: "stop_reason option"
  rv_resultManifest :: "result_manifest_ref option"

definition run_view_of :: "run \<Rightarrow> run_view" where
  "run_view_of r = \<lparr>rv_state = run_state r, rv_pendingStopReason = run_pendingStopReason r,
     rv_resultManifest = run_resultManifest r\<rparr>"

fun project_run_detail :: "run_event_detail \<Rightarrow> run_view \<Rightarrow> run_view" where
  "project_run_detail RunStarted v = v\<lparr>rv_state := R_running\<rparr>"
| "project_run_detail InputRequested v = v"
| "project_run_detail RunWaiting v = v\<lparr>rv_state := R_waiting\<rparr>"
| "project_run_detail InputRequestConsumed v = v"
| "project_run_detail RunResumed v = v\<lparr>rv_state := R_running\<rparr>"
| "project_run_detail (RunStopRequested reason) v = v\<lparr>rv_pendingStopReason := Some reason\<rparr>"
| "project_run_detail (RunCancelling _) v = v\<lparr>rv_state := R_cancelling\<rparr>"
| "project_run_detail (RunCancelled _) v =
     v\<lparr>rv_state := R_cancelled, rv_pendingStopReason := None\<rparr>"
| "project_run_detail (RunResultManifestRecorded _ hash _ manifestId) v =
     v\<lparr>rv_resultManifest :=
         Some \<lparr>rmr_manifestHash = hash, rmr_resultManifestId = manifestId\<rparr>\<rparr>"
| "project_run_detail (RunCompleted _) v =
     v\<lparr>rv_state := R_completed, rv_pendingStopReason := None\<rparr>"
| "project_run_detail (RunFailed _) v =
     v\<lparr>rv_state := R_failed, rv_pendingStopReason := None\<rparr>"
| "project_run_detail (ExternalEffectBecameAmbiguous _) v = v"
| "project_run_detail (RunAmbiguous _) v = v\<lparr>rv_state := R_ambiguous\<rparr>"
| "project_run_detail (AmbiguityResolved _ _) v = v"

lemma run_planTransition_view:
  assumes "run_inv r" and "run_planTransition r c = Inr p"
  shows "fold project_run_detail (tp_eventDetails p) (run_view_of r) =
    \<lparr>rv_state = tp_state p, rv_pendingStopReason = tp_pendingStopReason p,
     rv_resultManifest = tp_resultManifest p\<rparr>"
proof (cases c)
  case (CompleteRun m)
  then have "validateCompletion r m = Inr p"
    using assms(2) by (simp add: run_plan_defs split: if_splits)
  then show ?thesis
    by (rule validateCompletion_InrE) (simp add: run_view_of_def resultManifestRef_def)
next
  case (FailRun m)
  then have "validateFailure r m = Inr p"
    using assms(2) by (simp add: run_plan_defs split: if_splits)
  then show ?thesis
    using validateFailure_InrD [of r m p] by (simp add: run_view_of_def resultManifestRef_def)
next
  case (ResolveAmbiguity oc pid k m)
  then have st: "run_state r = R_ambiguous" and "resolveAmbiguity r oc pid k m = Inr p"
    using assms(2) by (simp_all add: run_plan_defs split: if_splits)
  from this(2) show ?thesis
    using st assms(1) by (cases rule: resolveAmbiguity_cases)
      (auto simp: run_view_of_def resultManifestRef_def resolved_plan_def run_inv_def outcome_inv_def)
qed (use assms in \<open>auto simp: run_plan_defs run_inv_def outcome_inv_def run_view_of_def
      split: if_splits\<close>)

definition project_run_event :: "run_event \<Rightarrow> run_view \<Rightarrow> run_view" where
  "project_run_event event = project_run_detail (re_detail event)"

lemma fold_project_run_event:
  "fold project_run_event evs v = fold project_run_detail (map re_detail evs) v"
  by (induction evs arbitrary: v) (simp_all add: project_run_event_def)

interpretation run_projection:
  projected_aggregate applyRunCommand run_aggregateVersion run_eventSequence
    rcx_expectedAggregateVersion is_run_replay re_sequence run_inv run_view_of project_run_event
proof (unfold_locales, goal_cases)
  case (1 a c x t)
  then show ?case by (rule applyRunCommand_inv)
next
  case (2 a c x t)
  then have "rcx_replayProof x = None" by (simp add: is_run_replay_def)
  then show ?case
    by (rule applyRunCommand_plan [OF 2(2)])
      (use run_planTransition_view [OF 2(1)] in
        \<open>simp add: fold_project_run_event run_view_of_def\<close>)
qed

end
