(* ===== verification/Step_Run.thy ===== *)
theory Step_Run
  imports Step_Data
begin

text \<open>
  The operations of \<open>kernel/src/step-run.ts\<close>: scheduling and skipping a step, and the
  commands on its attempts, with the invariant that every step keeps.
\<close>

section \<open>Scheduling and skipping a step\<close>

definition scheduleStep ::
  "schedule_step_input \<Rightarrow> (step_event \<times> step_run, schedule_step_failure) domain_result" where
  "scheduleStep input =
     (if ss_runState input \<noteq> R_running then fail Sched_run_not_running
      else if blank (ss_nodeKey input) then fail Sched_node_key_required
      else
        let missing = filter (\<lambda>dependency. dependency \<notin> set (ss_satisfiedDependencies input))
                        (ss_dependsOn input)
        in if missing \<noteq> [] then fail (Dependencies_unsatisfied missing)
           else succeed
             (\<lparr>se_actorId = ss_actorId input, se_correlationId = ss_correlationId input,
               se_eventId = ss_eventId input, se_occurredAt = ss_createdAt input,
               se_runId = ss_runId input, se_sequence = num 1,
               se_stepRunId = ss_stepRunId input, se_workspaceId = ss_workspaceId input,
               se_detail = StepReady (ss_nodeKey input)\<rparr>,
              \<lparr>sr_activeAttemptId = None, sr_aggregateVersion = num 1, sr_attempts = [],
               sr_createdAt = ss_createdAt input, sr_dependsOn = ss_dependsOn input,
               sr_eventSequence = num 1, sr_nodeKey = ss_nodeKey input,
               sr_runId = ss_runId input, sr_state = S_ready,
               sr_stepRunId = ss_stepRunId input, sr_workspaceId = ss_workspaceId input\<rparr>))"

definition skipStep ::
  "skip_step_input \<Rightarrow> (step_event \<times> step_run, skip_step_failure) domain_result" where
  "skipStep input =
     (if sk_runState input \<noteq> R_running then fail Skip_run_not_running
      else if blank (sk_nodeKey input) then fail Skip_node_key_required
      else if length (sk_blockedByNodeKeys input) = 0 then fail Blocked_dependency_required
      else
        let blockedByNodeKeys = sort (remdups (sk_blockedByNodeKeys input))
        in if length blockedByNodeKeys \<noteq> length (sk_blockedByNodeKeys input) \<or>
              list_ex blank blockedByNodeKeys
           then fail Blocked_dependency_invalid
           else if list_ex (\<lambda>nodeKey. nodeKey \<notin> set (sk_dependsOn input)) blockedByNodeKeys
           then fail Blocked_dependency_unknown
           else succeed
             (\<lparr>se_actorId = sk_actorId input, se_correlationId = sk_correlationId input,
               se_eventId = sk_eventId input, se_occurredAt = sk_createdAt input,
               se_runId = sk_runId input, se_sequence = num 1,
               se_stepRunId = sk_stepRunId input, se_workspaceId = sk_workspaceId input,
               se_detail = StepSkipped blockedByNodeKeys\<rparr>,
              \<lparr>sr_activeAttemptId = None, sr_aggregateVersion = num 1, sr_attempts = [],
               sr_createdAt = sk_createdAt input, sr_dependsOn = sk_dependsOn input,
               sr_eventSequence = num 1, sr_nodeKey = sk_nodeKey input,
               sr_runId = sk_runId input, sr_state = S_skipped,
               sr_stepRunId = sk_stepRunId input, sr_workspaceId = sk_workspaceId input\<rparr>))"


section \<open>Transitions\<close>

definition step_fail :: "step_failure_code \<Rightarrow> step_run \<Rightarrow> step_command \<Rightarrow> step_failure" where
  "step_fail code stepRun command =
     \<lparr>sf_code = code, sf_command = step_command_type command, sf_state = sr_state stepRun\<rparr>"

definition step_invalidTransition ::
  "step_run \<Rightarrow> step_command \<Rightarrow> ('a, step_failure) domain_result" where
  "step_invalidTransition stepRun command = fail (step_fail SF_invalid_transition stepRun command)"

definition activeAttempt :: "step_run \<Rightarrow> attempt option" where
  "activeAttempt stepRun =
     List.find (\<lambda>attempt. Some (at_attemptId attempt) = sr_activeAttemptId stepRun)
       (sr_attempts stepRun)"

definition matchingActiveAttempt :: "step_run \<Rightarrow> jstring \<Rightarrow> attempt option" where
  "matchingActiveAttempt stepRun attemptId =
     (case activeAttempt stepRun of
        Some attempt \<Rightarrow> if at_attemptId attempt = attemptId then Some attempt else None
      | None \<Rightarrow> None)"

fun settlement_identity_of :: "settlement_proof \<Rightarrow> settlement_identity" where
  "settlement_identity_of (Settled i _ _ _) = i"
| "settlement_identity_of (Released r) = rl_identity r"

fun releasedAmount :: "settlement_proof \<Rightarrow> js_number" where
  "releasedAmount (Settled _ released _ _) = released"
| "releasedAmount (Released r) = rl_releasedAmount r"

definition settlementMatches :: "attempt \<Rightarrow> settlement_proof \<Rightarrow> bool" where
  "settlementMatches attempt settlement =
     (let identity = settlement_identity_of settlement;
          identityMatches =
            si_attemptId identity = at_attemptId attempt \<and>
            si_operationKey identity = at_operationKey attempt \<and>
            si_reservationId identity = at_costReservationId attempt \<and>
            si_unit identity = at_reservationUnit attempt
      in if \<not> (identityMatches \<and> isAmount (releasedAmount settlement)) then False
         else case settlement of
             Released r \<Rightarrow> amountsEqual (rl_releasedAmount r) (at_reservedAmount attempt)
           | Settled _ released settled _ \<Rightarrow>
               isAmount settled \<and>
               amountsEqual (js_add settled released) (at_reservedAmount attempt))"

definition replaceAttempt :: "step_run \<Rightarrow> attempt \<Rightarrow> attempt list" where
  "replaceAttempt stepRun replacement = replace_by at_attemptId replacement (sr_attempts stepRun)"

definition validatedOutputIsWellFormed :: "validated_output \<Rightarrow> js_number \<Rightarrow> bool" where
  "validatedOutputIsWellFormed output occurredAt \<longleftrightarrow>
     \<not> blank (vo_validatorVersion output) \<and> js_le (vo_validatedAt output) occurredAt"

definition retryDecisionDetail :: "bool \<Rightarrow> step_event_detail" where
  "retryDecisionDetail retryAuthorized =
     (if retryAuthorized then StepRetryAuthorized else StepRetryExhausted)"

text \<open>\<open>"retryAuthorized" in command && command.retryAuthorized\<close>\<close>

fun claims_retry :: "step_command \<Rightarrow> bool" where
  "claims_retry (RecordAttemptFailure _ retryAuthorized _ _) = retryAuthorized"
| "claims_retry (RecordAttemptNotStarted _ retryAuthorized _ _) = retryAuthorized"
| "claims_retry (AuthorizeRetry _ retryAuthorized) = retryAuthorized"
| "claims_retry (ResolveAttemptAmbiguity _ _ _ retryAuthorized _ _) = retryAuthorized"
| "claims_retry _ = False"

definition invalidRetryAuthorization ::
  "step_run \<Rightarrow> step_command \<Rightarrow> bool \<Rightarrow> step_failure option" where
  "invalidRetryAuthorization stepRun command retryRequested =
     (if step_command_type command \<noteq> T_AuthorizeRetry \<and> claims_retry command \<and> \<not> retryRequested
      then Some (step_fail SF_invalid_transition stepRun command) else None)"

text \<open>\<open>if (retryFailure !== undefined) return retryFailure;\<close>\<close>

definition unless_failure ::
  "'e option \<Rightarrow> ('v, 'e) domain_result \<Rightarrow> ('v, 'e) domain_result" where
  "unless_failure f r = (case f of Some e \<Rightarrow> fail e | None \<Rightarrow> r)"

definition claimAttempt ::
  "step_run \<Rightarrow> attempt_preparation \<Rightarrow> js_number \<Rightarrow> (step_plan, step_failure) domain_result" where
  "claimAttempt stepRun preparation occurredAt =
     (let command = ClaimStepAttempt preparation; attempts = sr_attempts stepRun;
          isInitial = (length attempts = 0)
      in if sr_state stepRun \<noteq> S_ready \<or> sr_activeAttemptId stepRun \<noteq> None
      then step_invalidTransition stepRun command
      else if blank (ap_authorityEnvelopeId preparation) \<or> blank (ap_effectAdapterKey preparation) \<or>
              blank (ap_routeKey preparation) \<or> blank (ap_reservationUnit preparation) \<or>
              \<not> isAmount (ap_reservedAmount preparation)
      then fail (step_fail SF_invalid_attempt_preparation stepRun command)
      else if isInitial \<and> ap_reason preparation \<noteq> Initial \<or>
              \<not> isInitial \<and> ap_reason preparation = Initial
      then fail (step_fail SF_invalid_attempt_reason stepRun command)
      else if list_ex (\<lambda>attempt. at_attemptId attempt = ap_attemptId preparation) attempts
      then fail (step_fail SF_attempt_id_reused stepRun command)
      else if (case attempts of [] \<Rightarrow> False
               | first # _ \<Rightarrow> at_operationKey first \<noteq> ap_operationKey preparation)
      then fail (step_fail SF_operation_key_mismatch stepRun command)
      else
        let attempt =
          \<lparr>at_attemptId = ap_attemptId preparation, at_attemptNumber = length attempts + 1,
           at_authorityEnvelopeId = ap_authorityEnvelopeId preparation,
           at_claimedAt = occurredAt, at_costReservationId = ap_costReservationId preparation,
           at_effectAdapterKey = ap_effectAdapterKey preparation,
           at_operationKey = ap_operationKey preparation, at_preparedAt = occurredAt,
           at_reason = ap_reason preparation, at_reservedAmount = ap_reservedAmount preparation,
           at_reservationUnit = ap_reservationUnit preparation,
           at_routeKey = ap_routeKey preparation,
           at_routeSnapshotHash = ap_routeSnapshotHash preparation,
           at_routingDecisionId = ap_routingDecisionId preparation,
           at_state = A_claimed, at_stepRunId = sr_stepRunId stepRun,
           at_effectStartedAt = None, at_ambiguityObservedAt = None, at_finishedAt = None,
           at_output = None\<rparr>
        in succeed
          \<lparr>sp_activeAttemptId = Some (at_attemptId attempt), sp_attempts = attempts @ [attempt],
           sp_eventDetails =
             [RoutingDecisionRecorded (at_effectAdapterKey attempt) (at_routeKey attempt)
                (at_routeSnapshotHash attempt) (at_routingDecisionId attempt),
              AttemptCreated (at_attemptId attempt) (at_attemptNumber attempt)
                (at_operationKey attempt) (at_reason attempt),
              AttemptClaimed (at_attemptId attempt) (at_attemptNumber attempt)],
           sp_state = S_active\<rparr>)"

definition rejectStepRouting :: "step_run \<Rightarrow> (step_plan, step_failure) domain_result" where
  "rejectStepRouting stepRun =
     (if sr_state stepRun \<noteq> S_ready \<or> sr_activeAttemptId stepRun \<noteq> None
      then step_invalidTransition stepRun RejectStepRouting
      else succeed \<lparr>sp_activeAttemptId = None, sp_attempts = sr_attempts stepRun,
        sp_eventDetails = [StepRoutingRejected], sp_state = S_failed\<rparr>)"

text \<open>
  The guard \<open>stepRun.state !== s || attempt?.state !== a\<close> that opens every command on the
  active attempt: it yields the attempt, or the invalid transition.
\<close>

definition require_attempt ::
  "step_run \<Rightarrow> step_command \<Rightarrow> jstring \<Rightarrow> step_run_state \<Rightarrow> attempt_state \<Rightarrow>
   (attempt \<Rightarrow> (step_plan, step_failure) domain_result) \<Rightarrow>
   (step_plan, step_failure) domain_result" where
  "require_attempt stepRun command attemptId s a f =
     (case matchingActiveAttempt stepRun attemptId of
        None \<Rightarrow> step_invalidTransition stepRun command
      | Some attempt \<Rightarrow>
          if sr_state stepRun \<noteq> s \<or> at_state attempt \<noteq> a
          then step_invalidTransition stepRun command else f attempt)"

definition startAttemptEffect ::
  "step_run \<Rightarrow> jstring \<Rightarrow> js_number \<Rightarrow> (step_plan, step_failure) domain_result" where
  "startAttemptEffect stepRun attemptId occurredAt =
     require_attempt stepRun (StartAttemptEffect attemptId) attemptId S_active A_claimed
       (\<lambda>attempt.
         let started = attempt\<lparr>at_effectStartedAt := Some occurredAt, at_state := A_in_flight\<rparr>
         in succeed \<lparr>sp_activeAttemptId = Some (at_attemptId attempt),
              sp_attempts = replaceAttempt stepRun started,
              sp_eventDetails = [AttemptEffectStarted (at_attemptId attempt)],
              sp_state = S_active\<rparr>)"

definition attemptSettlementEventDetails ::
  "step_command \<Rightarrow> attempt \<Rightarrow> bool \<Rightarrow> bool \<Rightarrow> step_event_detail list" where
  "attemptSettlementEventDetails command attempt retryRequested retryable =
     (case command of
        RecordAttemptSucceeded _ output _ \<Rightarrow> [AttemptSucceeded (at_attemptId attempt) output]
      | _ \<Rightarrow> AttemptFailed (at_attemptId attempt) retryable #
             (if retryRequested then [retryDecisionDetail (claims_retry command)] else []))"

text \<open>
  \<open>settleAttempt\<close> serves two commands: \<open>output\<close> is that of a success,
  \<open>retryRequested\<close> the \<open>retryable\<close> flag of a failure.
\<close>

definition settle_with ::
  "step_run \<Rightarrow> step_command \<Rightarrow> js_number \<Rightarrow> jstring \<Rightarrow> settlement_proof \<Rightarrow> bool \<Rightarrow>
   validated_output option \<Rightarrow> bool \<Rightarrow> (step_plan, step_failure) domain_result" where
  "settle_with stepRun command occurredAt attemptId settlement succeeded output retryRequested =
     require_attempt stepRun command attemptId S_active A_in_flight
       (\<lambda>attempt.
         if \<not> settlementMatches attempt settlement \<or>
            succeeded \<and>
              ((case settlement of Settled _ _ _ _ \<Rightarrow> False | Released _ \<Rightarrow> True) \<or>
               (case output of None \<Rightarrow> False
                | Some out \<Rightarrow> \<not> validatedOutputIsWellFormed out occurredAt))
         then fail (step_fail SF_settlement_precondition_failed stepRun command)
         else unless_failure (invalidRetryAuthorization stepRun command retryRequested)
           (let retryable = retryRequested \<and> claims_retry command;
                attemptState = (if succeeded then A_succeeded
                  else if retryable then A_failed_retryable else A_failed_terminal);
                stepState = (if succeeded then S_succeeded
                  else if retryable then S_ready else S_failed);
                settled = (case output of
                    None \<Rightarrow> attempt\<lparr>at_finishedAt := Some occurredAt, at_state := attemptState\<rparr>
                  | Some out \<Rightarrow> attempt\<lparr>at_finishedAt := Some occurredAt,
                      at_output := Some out, at_state := attemptState\<rparr>)
            in succeed \<lparr>sp_activeAttemptId = None, sp_attempts = replaceAttempt stepRun settled,
                 sp_eventDetails =
                   attemptSettlementEventDetails command attempt retryRequested retryable,
                 sp_state = stepState\<rparr>))"

definition settleAttempt ::
  "step_run \<Rightarrow> step_command \<Rightarrow> js_number \<Rightarrow> (step_plan, step_failure) domain_result" where
  "settleAttempt stepRun command occurredAt =
     (case command of
        RecordAttemptSucceeded attemptId output settlement \<Rightarrow>
          settle_with stepRun command occurredAt attemptId settlement True output False
      | RecordAttemptFailure attemptId _ retryable settlement \<Rightarrow>
          settle_with stepRun command occurredAt attemptId settlement False None retryable
      | _ \<Rightarrow> step_invalidTransition stepRun command)"

definition recordAttemptNotStarted ::
  "step_run \<Rightarrow> jstring \<Rightarrow> bool \<Rightarrow> bool \<Rightarrow> released_proof \<Rightarrow> js_number \<Rightarrow>
   (step_plan, step_failure) domain_result" where
  "recordAttemptNotStarted stepRun attemptId retryAuthorized retryRequested settlement occurredAt =
     (let command = RecordAttemptNotStarted attemptId retryAuthorized retryRequested settlement
      in require_attempt stepRun command attemptId S_active A_claimed
       (\<lambda>attempt.
         if \<not> settlementMatches attempt (Released settlement)
         then fail (step_fail SF_settlement_precondition_failed stepRun command)
         else unless_failure (invalidRetryAuthorization stepRun command retryRequested)
           (let retryable = retryRequested \<and> retryAuthorized;
                failed = attempt\<lparr>at_finishedAt := Some occurredAt,
                  at_state := (if retryable then A_failed_retryable else A_failed_terminal)\<rparr>
            in succeed \<lparr>sp_activeAttemptId = None, sp_attempts = replaceAttempt stepRun failed,
                 sp_eventDetails = AttemptFailed (at_attemptId attempt) retryable #
                   (if retryRequested then [retryDecisionDetail retryAuthorized] else []),
                 sp_state = (if retryable then S_ready else S_failed)\<rparr>)))"

definition authorizeRetry ::
  "step_run \<Rightarrow> jstring \<Rightarrow> bool \<Rightarrow> (step_plan, step_failure) domain_result" where
  "authorizeRetry stepRun attemptId retryAuthorized =
     (if sr_state stepRun \<noteq> S_retryable \<or> sr_activeAttemptId stepRun \<noteq> None \<or>
         map_option at_attemptId (last_opt (sr_attempts stepRun)) \<noteq> Some attemptId \<or>
         map_option at_state (last_opt (sr_attempts stepRun)) \<noteq> Some A_failed_retryable
      then step_invalidTransition stepRun (AuthorizeRetry attemptId retryAuthorized)
      else if retryAuthorized
      then succeed \<lparr>sp_activeAttemptId = None, sp_attempts = sr_attempts stepRun,
        sp_eventDetails = [StepRetryAuthorized], sp_state = S_ready\<rparr>
      else succeed \<lparr>sp_activeAttemptId = None, sp_attempts = sr_attempts stepRun,
        sp_eventDetails = [StepRetryExhausted], sp_state = S_failed\<rparr>)"

definition markAttemptAmbiguous ::
  "step_run \<Rightarrow> jstring \<Rightarrow> js_number \<Rightarrow> (step_plan, step_failure) domain_result" where
  "markAttemptAmbiguous stepRun attemptId occurredAt =
     require_attempt stepRun (MarkAttemptAmbiguous attemptId) attemptId S_active A_in_flight
       (\<lambda>attempt.
         let ambiguous = attempt\<lparr>at_ambiguityObservedAt := Some occurredAt, at_state := A_ambiguous\<rparr>
         in succeed \<lparr>sp_activeAttemptId = Some (at_attemptId attempt),
              sp_attempts = replaceAttempt stepRun ambiguous,
              sp_eventDetails =
                [AttemptBecameAmbiguous (at_attemptId attempt) (at_operationKey attempt)],
              sp_state = S_ambiguous\<rparr>)"

definition resolveAttemptAmbiguity ::
  "step_run \<Rightarrow> jstring \<Rightarrow> ambiguity_outcome \<Rightarrow> jstring \<Rightarrow> bool \<Rightarrow> settlement_proof \<Rightarrow>
   validated_output option \<Rightarrow> js_number \<Rightarrow> (step_plan, step_failure) domain_result" where
  "resolveAttemptAmbiguity stepRun attemptId outcome proofId retryAuthorized settlement output
     occurredAt =
     (let command = ResolveAttemptAmbiguity attemptId outcome proofId retryAuthorized settlement output
      in require_attempt stepRun command attemptId S_ambiguous A_ambiguous
       (\<lambda>attempt.
         if blank proofId then fail (step_fail SF_reconciliation_proof_required stepRun command)
         else if \<not> settlementMatches attempt settlement \<or>
            outcome = AO_succeeded \<and>
              ((case settlement of Settled _ _ _ _ \<Rightarrow> False | Released _ \<Rightarrow> True) \<or>
               (case output of None \<Rightarrow> False
                | Some out \<Rightarrow> \<not> validatedOutputIsWellFormed out occurredAt)) \<or>
            outcome \<noteq> AO_succeeded \<and> output \<noteq> None
         then fail (step_fail SF_settlement_precondition_failed stepRun command)
         else
           let succeeded = (outcome = AO_succeeded);
               retryRequested = (outcome = AO_failed_retryable)
           in unless_failure (invalidRetryAuthorization stepRun command retryRequested)
           (let retryable = retryRequested \<and> retryAuthorized;
                outcome' = (if retryRequested \<and> \<not> retryable then AO_failed_terminal else outcome);
                attemptState = (if succeeded then A_succeeded
                  else if retryable then A_failed_retryable else A_failed_terminal);
                stepState = (if succeeded then S_succeeded
                  else if retryable then S_retryable else S_failed);
                resolved = (if succeeded \<and> output \<noteq> None
                  then attempt\<lparr>at_finishedAt := Some occurredAt, at_output := output,
                         at_state := attemptState\<rparr>
                  else attempt\<lparr>at_finishedAt := Some occurredAt, at_state := attemptState\<rparr>)
            in succeed \<lparr>sp_activeAttemptId = None, sp_attempts = replaceAttempt stepRun resolved,
                 sp_eventDetails =
                   AttemptAmbiguityResolved (at_attemptId attempt) outcome' proofId output #
                   (if retryRequested then [retryDecisionDetail retryAuthorized] else []),
                 sp_state = (if retryable then S_ready else stepState)\<rparr>)))"

definition cancelAttemptBeforeEffect ::
  "step_run \<Rightarrow> jstring \<Rightarrow> released_proof \<Rightarrow> js_number \<Rightarrow> (step_plan, step_failure) domain_result" where
  "cancelAttemptBeforeEffect stepRun attemptId settlement occurredAt =
     (let command = CancelAttemptBeforeEffect attemptId settlement
      in require_attempt stepRun command attemptId S_active A_claimed
       (\<lambda>attempt.
         if \<not> settlementMatches attempt (Released settlement)
         then fail (step_fail SF_settlement_precondition_failed stepRun command)
         else
           let cancelled = attempt\<lparr>at_finishedAt := Some occurredAt,
                 at_state := A_cancelled_before_effect\<rparr>
           in succeed \<lparr>sp_activeAttemptId = None, sp_attempts = replaceAttempt stepRun cancelled,
                sp_eventDetails = [AttemptCancelledBeforeEffect (at_attemptId attempt)],
                sp_state = S_cancelled\<rparr>))"

fun step_planTransition ::
  "step_run \<Rightarrow> step_command \<Rightarrow> js_number \<Rightarrow> (step_plan, step_failure) domain_result" where
  "step_planTransition stepRun (ClaimStepAttempt preparation) occurredAt =
     claimAttempt stepRun preparation occurredAt"
| "step_planTransition stepRun RejectStepRouting occurredAt = rejectStepRouting stepRun"
| "step_planTransition stepRun (StartAttemptEffect attemptId) occurredAt =
     startAttemptEffect stepRun attemptId occurredAt"
| "step_planTransition stepRun (RecordAttemptSucceeded attemptId output settlement) occurredAt =
     settleAttempt stepRun (RecordAttemptSucceeded attemptId output settlement) occurredAt"
| "step_planTransition stepRun (RecordAttemptFailure attemptId authorized retryable settlement) occurredAt =
     settleAttempt stepRun (RecordAttemptFailure attemptId authorized retryable settlement) occurredAt"
| "step_planTransition stepRun (RecordAttemptNotStarted attemptId authorized retryable settlement) occurredAt =
     recordAttemptNotStarted stepRun attemptId authorized retryable settlement occurredAt"
| "step_planTransition stepRun (AuthorizeRetry attemptId authorized) occurredAt =
     authorizeRetry stepRun attemptId authorized"
| "step_planTransition stepRun (MarkAttemptAmbiguous attemptId) occurredAt =
     markAttemptAmbiguous stepRun attemptId occurredAt"
| "step_planTransition stepRun
     (ResolveAttemptAmbiguity attemptId outcome proofId authorized settlement output) occurredAt =
     resolveAttemptAmbiguity stepRun attemptId outcome proofId authorized settlement output occurredAt"
| "step_planTransition stepRun (CancelAttemptBeforeEffect attemptId settlement) occurredAt =
     cancelAttemptBeforeEffect stepRun attemptId settlement occurredAt"

definition step_toEvent ::
  "step_run \<Rightarrow> step_event_detail \<Rightarrow> step_command_context \<Rightarrow> nat \<Rightarrow> step_event" where
  "step_toEvent stepRun detail context index =
     \<lparr>se_actorId = scx_actorId context, se_correlationId = scx_correlationId context,
      se_eventId = scx_eventIds context ! index, se_occurredAt = scx_occurredAt context,
      se_runId = sr_runId stepRun,
      se_sequence = js_add (js_add (sr_eventSequence stepRun) (num (int index))) (num 1),
      se_stepRunId = sr_stepRunId stepRun, se_workspaceId = sr_workspaceId stepRun,
      se_detail = detail\<rparr>"

definition applyStepCommand ::
  "step_run \<Rightarrow> step_command \<Rightarrow> step_command_context \<Rightarrow> (step_transition, step_failure) domain_result" where
  "applyStepCommand stepRun command context =
     (case scx_replayProof context of
        Some proof \<Rightarrow>
          if srp_stepRunId proof \<noteq> sr_stepRunId stepRun \<or>
             srp_workspaceId proof \<noteq> sr_workspaceId stepRun \<or>
             srp_actorId proof \<noteq> scx_actorId context \<or>
             sci_idempotencyKey (srp_identity proof) \<noteq> sci_idempotencyKey (scx_commandIdentity context)
          then fail (step_fail SF_replay_proof_mismatch stepRun command)
          else if srp_commandType proof \<noteq> step_command_type command \<or>
             sci_commandHash (srp_identity proof) \<noteq> sci_commandHash (scx_commandIdentity context)
          then fail (step_fail SF_idempotency_key_reused stepRun command)
          else succeed \<lparr>tr_aggregate = stepRun, tr_events = [], tr_replayed = True\<rparr>
      | None \<Rightarrow>
          if \<not> js_eq (scx_expectedAggregateVersion context) (sr_aggregateVersion stepRun)
          then fail (step_fail SF_aggregate_version_conflict stepRun command)
          else and_then (step_planTransition stepRun command (scx_occurredAt context))
            (\<lambda>planned.
              if length (scx_eventIds context) \<noteq> length (sp_eventDetails planned)
              then fail (step_fail SF_event_id_count_mismatch stepRun command)
              else
                let events = map (\<lambda>index. step_toEvent stepRun (sp_eventDetails planned ! index) context index)
                      [0..<length (sp_eventDetails planned)]
                in succeed \<lparr>tr_aggregate = stepRun\<lparr>
                       sr_aggregateVersion := js_add (sr_aggregateVersion stepRun) (num 1),
                       sr_attempts := sp_attempts planned,
                       sr_eventSequence :=
                         js_add (sr_eventSequence stepRun) (num (int (length events))),
                       sr_state := sp_state planned,
                       sr_activeAttemptId := sp_activeAttemptId planned\<rparr>,
                     tr_events = events, tr_replayed = False\<rparr>))"


section \<open>The step run as a journaled aggregate\<close>

definition is_step_replay :: "step_command_context \<Rightarrow> bool" where
  "is_step_replay context \<longleftrightarrow> scx_replayProof context \<noteq> None"

lemma applyStepCommand_replay:
  "scx_replayProof x = Some proof \<Longrightarrow> applyStepCommand s c x = Inr t \<Longrightarrow>
   t = \<lparr>tr_aggregate = s, tr_events = [], tr_replayed = True\<rparr>"
  by (simp add: applyStepCommand_def split: if_splits)

lemma applyStepCommand_fresh:
  assumes "applyStepCommand s c x = Inr t" and "scx_replayProof x = None"
  obtains p where "step_planTransition s c (scx_occurredAt x) = Inr p"
    "js_eq (scx_expectedAggregateVersion x) (sr_aggregateVersion s)"
    "length (scx_eventIds x) = length (sp_eventDetails p)"
    "t = \<lparr>tr_aggregate = s\<lparr>
         sr_aggregateVersion := js_add (sr_aggregateVersion s) (num 1),
         sr_attempts := sp_attempts p,
         sr_eventSequence := js_add (sr_eventSequence s) (num (int (length (sp_eventDetails p)))),
         sr_state := sp_state p, sr_activeAttemptId := sp_activeAttemptId p\<rparr>,
       tr_events = map (\<lambda>i. step_toEvent s (sp_eventDetails p ! i) x i) [0..<length (sp_eventDetails p)],
       tr_replayed = False\<rparr>"
  using assms by (auto simp: applyStepCommand_def Let_def)

interpretation step_journal:
  journaled_aggregate applyStepCommand sr_aggregateVersion sr_eventSequence
    scx_expectedAggregateVersion is_step_replay se_sequence
proof (unfold_locales, goal_cases)
  case (1 a c x t)
  then show ?case
    by (cases "scx_replayProof x")
      (auto simp: is_step_replay_def dest: applyStepCommand_replay elim: applyStepCommand_fresh)
next
  case (2 a c x t)
  then show ?case by (auto simp: is_step_replay_def dest: applyStepCommand_replay)
qed (auto simp: is_step_replay_def step_toEvent_def elim!: applyStepCommand_fresh)

end
