(* ===== verification/Step_Invariant.thy ===== *)
theory Step_Invariant
  imports Step_Run
begin

text \<open>
  The invariant of a step and its attempts, kept by every operation of
  \<open>kernel/src/step-run.ts\<close>, and the steps that are reachable from scheduling or skipping.
\<close>

section \<open>Histories of attempts\<close>

text \<open>
  What the fields of one attempt say about its state: the effect threshold, the end, and
  the output.
\<close>

definition attempt_timeline :: "attempt \<Rightarrow> bool" where
  "attempt_timeline a \<longleftrightarrow> isAmount (at_reservedAmount a) \<and>
     (case at_state a of
        A_prepared \<Rightarrow> False
      | A_claimed \<Rightarrow> at_effectStartedAt a = None \<and> at_finishedAt a = None \<and> at_output a = None
      | A_in_flight \<Rightarrow> at_effectStartedAt a \<noteq> None \<and> at_finishedAt a = None \<and> at_output a = None
      | A_ambiguous \<Rightarrow> at_effectStartedAt a \<noteq> None \<and> at_ambiguityObservedAt a \<noteq> None \<and>
          at_finishedAt a = None \<and> at_output a = None
      | A_succeeded \<Rightarrow> at_effectStartedAt a \<noteq> None \<and> at_finishedAt a \<noteq> None
      | A_failed_retryable \<Rightarrow> at_finishedAt a \<noteq> None \<and> at_output a = None
      | A_failed_terminal \<Rightarrow> at_finishedAt a \<noteq> None \<and> at_output a = None
      | A_cancelled_before_effect \<Rightarrow>
          at_effectStartedAt a = None \<and> at_finishedAt a \<noteq> None \<and> at_output a = None)"

text \<open>The attempts of a step, newest first: every older attempt has failed retryably.\<close>

fun wf_history :: "jstring \<Rightarrow> attempt list \<Rightarrow> bool" where
  "wf_history stepRunId [] = True"
| "wf_history stepRunId (a # older) =
     (wf_history stepRunId older \<and>
      list_all (\<lambda>b. at_state b = A_failed_retryable \<and> at_attemptId b \<noteq> at_attemptId a \<and>
        at_operationKey b = at_operationKey a) older \<and>
      at_attemptNumber a = Suc (length older) \<and>
      (at_reason a = Initial \<longleftrightarrow> older = []) \<and>
      at_stepRunId a = stepRunId \<and> attempt_timeline a)"

text \<open>The newest attempt that each step state allows.\<close>

fun step_state_ok :: "step_run_state \<Rightarrow> jstring option \<Rightarrow> attempt list \<Rightarrow> bool" where
  "step_state_ok S_ready active [] = (active = None)"
| "step_state_ok S_failed active [] = (active = None)"
| "step_state_ok S_skipped active [] = (active = None)"
| "step_state_ok _ active [] = False"
| "step_state_ok S_ready active (a # _) = (active = None \<and> at_state a = A_failed_retryable)"
| "step_state_ok S_active active (a # _) =
     (active = Some (at_attemptId a) \<and> (at_state a = A_claimed \<or> at_state a = A_in_flight))"
| "step_state_ok S_ambiguous active (a # _) =
     (active = Some (at_attemptId a) \<and> at_state a = A_ambiguous)"
| "step_state_ok S_succeeded active (a # _) = (active = None \<and> at_state a = A_succeeded)"
| "step_state_ok S_failed active (a # _) =
     (active = None \<and> (at_state a = A_failed_terminal \<or> at_state a = A_failed_retryable))"
| "step_state_ok S_cancelled active (a # _) =
     (active = None \<and> at_state a = A_cancelled_before_effect)"
| "step_state_ok _ active (a # _) = False"

definition attempts_inv :: "jstring \<Rightarrow> step_run_state \<Rightarrow> jstring option \<Rightarrow> attempt list \<Rightarrow> bool" where
  "attempts_inv stepRunId state active attempts \<longleftrightarrow>
     wf_history stepRunId (rev attempts) \<and> step_state_ok state active (rev attempts)"

definition step_inv :: "step_run \<Rightarrow> bool" where
  "step_inv s \<longleftrightarrow>
     attempts_inv (sr_stepRunId s) (sr_state s) (sr_activeAttemptId s) (sr_attempts s)"

definition plan_inv :: "step_run \<Rightarrow> step_plan \<Rightarrow> bool" where
  "plan_inv s p \<longleftrightarrow>
     attempts_inv (sr_stepRunId s) (sp_state p) (sp_activeAttemptId p) (sp_attempts p)"

lemma wf_history_distinct: "wf_history sid as \<Longrightarrow> distinct (map at_attemptId as)"
  by (induction as) (auto simp: list_all_iff)

lemma replace_by_snoc:
  assumes "distinct (map key (xs @ [x]))" and "key y = key x"
  shows "replace_by key y (xs @ [x]) = xs @ [y]"
proof -
  have "key z \<noteq> key y" if "z \<in> set xs" for z
    using that assms by (auto simp: image_iff)
  then show ?thesis using assms(2) by (auto simp: replace_by_def intro: map_idI)
qed

text \<open>Under the invariant the active attempt is the newest one.\<close>

lemma matchingActiveAttempt_newest:
  assumes "step_inv s" and "matchingActiveAttempt s attemptId = Some a"
  obtains older where "sr_attempts s = older @ [a]" "at_attemptId a = attemptId"
    "sr_activeAttemptId s = Some attemptId"
proof -
  from assms(2) have find: "activeAttempt s = Some a" and id: "at_attemptId a = attemptId"
    by (auto simp: matchingActiveAttempt_def split: option.splits if_splits)
  then have mem: "a \<in> set (sr_attempts s)" and active: "sr_activeAttemptId s = Some attemptId"
    using find_Some_mem unfolding activeAttempt_def by force+
  from mem obtain newest older where rev: "rev (sr_attempts s) = newest # older"
    by (cases "rev (sr_attempts s)") auto
  then have atts: "sr_attempts s = rev older @ [newest]" by (metis rev.simps(2) rev_rev_ident)
  have "at_attemptId newest = attemptId"
    using assms(1) active rev by (cases "sr_state s") (auto simp: step_inv_def attempts_inv_def)
  moreover have "distinct (map at_attemptId (sr_attempts s))"
    using assms(1) wf_history_distinct [of "sr_stepRunId s" "rev (sr_attempts s)"]
    by (simp add: step_inv_def attempts_inv_def rev_map [symmetric])
  ultimately have "a = newest" using mem id atts by (auto simp: image_iff)
  then show ?thesis using that atts id active by blast
qed

lemma require_attempt_InrE:
  assumes "step_inv s" and "require_attempt s c attemptId st ast f = Inr p"
  obtains a older where "sr_attempts s = older @ [a]" "at_attemptId a = attemptId"
    "sr_state s = st" "at_state a = ast" "f a = Inr p"
    "wf_history (sr_stepRunId s) (a # rev older)"
proof -
  from assms(2) obtain a where m: "matchingActiveAttempt s attemptId = Some a"
    and st: "sr_state s = st" "at_state a = ast" "f a = Inr p"
    by (auto simp: require_attempt_def step_invalidTransition_def split: option.splits if_splits)
  obtain older where o: "sr_attempts s = older @ [a]" "at_attemptId a = attemptId"
    by (rule matchingActiveAttempt_newest [OF assms(1) m])
  then have "wf_history (sr_stepRunId s) (a # rev older)"
    using assms(1) by (simp add: step_inv_def attempts_inv_def)
  then show ?thesis using that o st by blast
qed

lemma replaceAttempt_newest:
  assumes "sr_attempts s = older @ [a]" and "wf_history (sr_stepRunId s) (a # rev older)"
    and "at_attemptId b = at_attemptId a"
  shows "replaceAttempt s b = older @ [b]"
proof -
  have "distinct (map at_attemptId (older @ [a]))"
    using assms(2) wf_history_distinct [of "sr_stepRunId s" "rev (older @ [a])"]
    by (simp add: rev_map [symmetric] list_all_iff)
  then show ?thesis unfolding replaceAttempt_def assms(1) by (rule replace_by_snoc) (rule assms(3))
qed

text \<open>The newest attempt may change its state and its times, not its identity.\<close>

lemma newest_update:
  assumes "sr_attempts s = older @ [a]" and "wf_history (sr_stepRunId s) (a # rev older)"
    and "at_attemptId b = at_attemptId a" "at_operationKey b = at_operationKey a"
    "at_attemptNumber b = at_attemptNumber a" "at_reason b = at_reason a"
    "at_stepRunId b = at_stepRunId a" "attempt_timeline b"
    and "step_state_ok st active (b # rev older)"
  shows "attempts_inv (sr_stepRunId s) st active (replaceAttempt s b)"
  using assms replaceAttempt_newest [OF assms(1-3)] by (simp add: attempts_inv_def)

lemma unless_failure_eq_Inr [simp]: "unless_failure f r = Inr v \<longleftrightarrow> f = None \<and> r = Inr v"
  by (cases f) (simp_all add: unless_failure_def)

lemma claimAttempt_inv:
  assumes "step_inv s" and "claimAttempt s prep at = Inr p"
  shows "plan_inv s p"
proof -
  from assms(2) have ready: "sr_state s = S_ready" "sr_activeAttemptId s = None"
    and reason: "ap_reason prep = Initial \<longleftrightarrow> sr_attempts s = []"
    and fresh: "\<forall>a\<in>set (sr_attempts s). at_attemptId a \<noteq> ap_attemptId prep"
    and amount: "isAmount (ap_reservedAmount prep)"
    by (auto simp: claimAttempt_def Let_def step_invalidTransition_def list_ex_iff split: if_splits)
  from assms(2) have key: "sr_attempts s \<noteq> [] \<Longrightarrow>
      at_operationKey (hd (sr_attempts s)) = ap_operationKey prep"
    by (cases "sr_attempts s")
      (auto simp: claimAttempt_def Let_def step_invalidTransition_def split: if_splits)
  have wf: "wf_history (sr_stepRunId s) (rev (sr_attempts s))"
    and ok: "step_state_ok S_ready None (rev (sr_attempts s))"
    using assms(1) ready by (simp_all add: step_inv_def attempts_inv_def)
  have old: "\<forall>b\<in>set (sr_attempts s). at_state b = A_failed_retryable \<and>
      at_operationKey b = ap_operationKey prep"
  proof (cases "rev (sr_attempts s)")
    case (Cons a older)
    then have atts: "sr_attempts s = rev older @ [a]" by (metis rev.simps(2) rev_rev_ident)
    have same: "\<forall>b\<in>set (sr_attempts s). at_operationKey b = at_operationKey a"
      using wf Cons atts by (auto simp: list_all_iff)
    then have "at_operationKey a = ap_operationKey prep"
      using key atts by (metis Nil_is_append_conv hd_in_set not_Cons_self2)
    with same show ?thesis using wf ok Cons atts by (auto simp: list_all_iff)
  qed simp
  from assms(2) ready show ?thesis
    unfolding claimAttempt_def Let_def
    using wf old fresh reason amount
    by (auto simp: plan_inv_def attempts_inv_def step_invalidTransition_def list_all_iff
        attempt_timeline_def split: if_splits)
qed

lemma rejectStepRouting_inv:
  assumes "step_inv s" and "rejectStepRouting s = Inr p"
  shows "plan_inv s p"
  using assms by (cases "rev (sr_attempts s)")
    (auto simp: rejectStepRouting_def step_invalidTransition_def plan_inv_def step_inv_def
      attempts_inv_def split: if_splits)


lemma startAttemptEffect_inv:
  assumes inv: "step_inv s" and "startAttemptEffect s i at = Inr p"
  shows "plan_inv s p"
  using assms(2) unfolding startAttemptEffect_def Let_def
  by (elim require_attempt_InrE [OF inv])
    (auto simp: plan_inv_def attempt_timeline_def intro!: newest_update)

lemma recordAttemptNotStarted_inv:
  assumes inv: "step_inv s" and "recordAttemptNotStarted s i ra rr pf at = Inr p"
  shows "plan_inv s p"
  using assms(2) unfolding recordAttemptNotStarted_def Let_def
  by (elim require_attempt_InrE [OF inv])
    (auto simp: plan_inv_def attempt_timeline_def intro!: newest_update)

lemma markAttemptAmbiguous_inv:
  assumes inv: "step_inv s" and "markAttemptAmbiguous s i at = Inr p"
  shows "plan_inv s p"
  using assms(2) unfolding markAttemptAmbiguous_def Let_def
  by (elim require_attempt_InrE [OF inv])
    (auto simp: plan_inv_def attempt_timeline_def intro!: newest_update)

lemma cancelAttemptBeforeEffect_inv:
  assumes inv: "step_inv s" and "cancelAttemptBeforeEffect s i pf at = Inr p"
  shows "plan_inv s p"
  using assms(2) unfolding cancelAttemptBeforeEffect_def Let_def
  by (elim require_attempt_InrE [OF inv])
    (auto simp: plan_inv_def attempt_timeline_def intro!: newest_update)

lemma settle_with_inv:
  assumes inv: "step_inv s" and "settle_with s c at i pf succeeded out rr = Inr p"
    and "out \<noteq> None \<Longrightarrow> succeeded"
  shows "plan_inv s p"
  using assms(2) unfolding settle_with_def Let_def
  by (elim require_attempt_InrE [OF inv])
    (auto simp: plan_inv_def attempt_timeline_def assms(3) split: option.splits
      intro!: newest_update)

lemma settleAttempt_inv:
  assumes "step_inv s" and "settleAttempt s c at = Inr p"
  shows "plan_inv s p"
  using assms by (cases c)
    (auto simp: settleAttempt_def step_invalidTransition_def intro: settle_with_inv)

lemma resolveAttemptAmbiguity_inv:
  assumes inv: "step_inv s" and "resolveAttemptAmbiguity s i oc pid ra pf out at = Inr p"
  shows "plan_inv s p"
  using assms(2) unfolding resolveAttemptAmbiguity_def Let_def
  by (elim require_attempt_InrE [OF inv])
    (auto simp: plan_inv_def attempt_timeline_def split: option.splits
      intro!: newest_update)

text \<open>The retry decision is taken when the attempt fails: no step is ever left \<open>retryable\<close>.\<close>

lemma step_inv_states:
  "step_inv s \<Longrightarrow> sr_state s \<notin> {S_pending, S_waiting, S_retryable, S_cancelling}"
  by (cases "rev (sr_attempts s)"; cases "sr_state s";
      auto simp: step_inv_def attempts_inv_def)

lemma authorizeRetry_refused:
  "step_inv s \<Longrightarrow> authorizeRetry s i ra = step_invalidTransition s (AuthorizeRetry i ra)"
  using step_inv_states [of s] by (auto simp: authorizeRetry_def)

lemmas plan_invs = claimAttempt_inv rejectStepRouting_inv startAttemptEffect_inv
  recordAttemptNotStarted_inv markAttemptAmbiguous_inv cancelAttemptBeforeEffect_inv
  settleAttempt_inv resolveAttemptAmbiguity_inv

lemma step_planTransition_inv:
  "step_inv s \<Longrightarrow> step_planTransition s c at = Inr p \<Longrightarrow> plan_inv s p"
  by (cases c) (auto dest: plan_invs simp: authorizeRetry_refused step_invalidTransition_def)

lemma applyStepCommand_inv:
  assumes "step_inv s" and "applyStepCommand s c x = Inr t"
  shows "step_inv (tr_aggregate t)"
proof (cases "scx_replayProof x")
  case None
  show ?thesis
  proof (rule applyStepCommand_fresh [OF assms(2) None])
    fix p
    assume "step_planTransition s c (scx_occurredAt x) = Inr p"
    then have "plan_inv s p" by (rule step_planTransition_inv [OF assms(1)])
    moreover assume "t = \<lparr>tr_aggregate = s\<lparr>
         sr_aggregateVersion := js_add (sr_aggregateVersion s) (num 1),
         sr_attempts := sp_attempts p,
         sr_eventSequence := js_add (sr_eventSequence s) (num (int (length (sp_eventDetails p)))),
         sr_state := sp_state p, sr_activeAttemptId := sp_activeAttemptId p\<rparr>,
       tr_events = map (\<lambda>i. step_toEvent s (sp_eventDetails p ! i) x i) [0..<length (sp_eventDetails p)],
       tr_replayed = False\<rparr>"
    ultimately show ?thesis by (simp add: step_inv_def plan_inv_def)
  qed
next
  case (Some r)
  then show ?thesis using assms applyStepCommand_replay [OF Some assms(2)] by simp
qed


section \<open>Reachable steps\<close>

inductive step_reachable :: "step_run \<Rightarrow> bool" where
  scheduled: "scheduleStep input = Inr (event, s) \<Longrightarrow> step_reachable s"
| skipped: "skipStep input = Inr (event, s) \<Longrightarrow> step_reachable s"
| commanded: "step_reachable s \<Longrightarrow> applyStepCommand s c x = Inr t \<Longrightarrow>
    step_reachable (tr_aggregate t)"

lemma scheduleStep_inv: "scheduleStep input = Inr (event, s) \<Longrightarrow> step_inv s"
  by (auto simp: scheduleStep_def Let_def step_inv_def attempts_inv_def split: if_splits)

lemma skipStep_inv: "skipStep input = Inr (event, s) \<Longrightarrow> step_inv s"
  by (auto simp: skipStep_def Let_def step_inv_def attempts_inv_def split: if_splits)

lemma step_reachable_inv: "step_reachable s \<Longrightarrow> step_inv s"
  by (induction rule: step_reachable.induct)
    (blast intro: scheduleStep_inv skipStep_inv applyStepCommand_inv)+

end
