(* ===== verification/Step_Properties.thy ===== *)
theory Step_Properties
  imports Step_Invariant
begin

text \<open>
  What \<open>kernel/src/step-run.ts\<close> promises of a step: the shape of every reachable step, the
  conditions under which work is claimed, settled and recovered, and the event log. The
  examples at the beginning are the inputs of the witnesses.
\<close>

section \<open>Examples\<close>

definition ex_schedule :: schedule_step_input where
  "ex_schedule =
     \<lparr>ss_actorId = lit ''actor'', ss_correlationId = lit ''corr'', ss_createdAt = num 10,
      ss_dependsOn = [lit ''a''], ss_eventId = lit ''e1'', ss_nodeKey = lit ''b'',
      ss_runId = lit ''run'', ss_runState = R_running, ss_satisfiedDependencies = [lit ''a''],
      ss_stepRunId = lit ''step'', ss_workspaceId = lit ''ws''\<rparr>"

definition ex_step :: step_run where
  "ex_step =
     \<lparr>sr_activeAttemptId = None, sr_aggregateVersion = num 1, sr_attempts = [],
      sr_createdAt = num 10, sr_dependsOn = [lit ''a''], sr_eventSequence = num 1,
      sr_nodeKey = lit ''b'', sr_runId = lit ''run'', sr_state = S_ready,
      sr_stepRunId = lit ''step'', sr_workspaceId = lit ''ws''\<rparr>"

definition ex_preparation :: attempt_preparation where
  "ex_preparation =
     \<lparr>ap_attemptId = lit ''att'', ap_authorityEnvelopeId = lit ''env'',
      ap_costReservationId = lit ''res'', ap_effectAdapterKey = lit ''adapter'',
      ap_operationKey = lit ''op'', ap_reason = Initial, ap_reservedAmount = num 8,
      ap_reservationUnit = lit ''credit'', ap_routeKey = lit ''route'',
      ap_routeSnapshotHash = lit ''hash'', ap_routingDecisionId = lit ''dec''\<rparr>"

definition ex_context :: "int \<Rightarrow> jstring list \<Rightarrow> step_command_context" where
  "ex_context version eventIds =
     \<lparr>scx_actorId = lit ''actor'',
      scx_commandIdentity = \<lparr>sci_commandHash = lit ''h'', sci_idempotencyKey = lit ''k''\<rparr>,
      scx_correlationId = lit ''corr'', scx_eventIds = eventIds,
      scx_expectedAggregateVersion = num version, scx_occurredAt = num 20,
      scx_replayProof = None\<rparr>"

definition ex_attempt :: "attempt_state \<Rightarrow> attempt" where
  "ex_attempt st =
     \<lparr>at_attemptId = lit ''att'', at_attemptNumber = 1, at_authorityEnvelopeId = lit ''env'',
      at_claimedAt = num 20, at_costReservationId = lit ''res'',
      at_effectAdapterKey = lit ''adapter'', at_operationKey = lit ''op'',
      at_preparedAt = num 20, at_reason = Initial, at_reservedAmount = num 8,
      at_reservationUnit = lit ''credit'', at_routeKey = lit ''route'',
      at_routeSnapshotHash = lit ''hash'', at_routingDecisionId = lit ''dec'',
      at_state = st, at_stepRunId = lit ''step'',
      at_effectStartedAt = (if st = A_claimed then None else Some (num 20)),
      at_ambiguityObservedAt = (if st = A_ambiguous then Some (num 20) else None),
      at_finishedAt = None, at_output = None\<rparr>"

definition ex_step_at :: "int \<Rightarrow> int \<Rightarrow> step_run_state \<Rightarrow> attempt_state \<Rightarrow> step_run" where
  "ex_step_at version sequence st ast =
     ex_step\<lparr>sr_activeAttemptId := Some (lit ''att''), sr_aggregateVersion := num version,
       sr_attempts := [ex_attempt ast], sr_eventSequence := num sequence, sr_state := st\<rparr>"

lemmas ex_step_defs = ex_schedule_def ex_step_def ex_preparation_def ex_context_def
  ex_attempt_def ex_step_at_def

lemmas step_op_defs = applyStepCommand_def claimAttempt_def startAttemptEffect_def
  markAttemptAmbiguous_def require_attempt_def matchingActiveAttempt_def activeAttempt_def
  replaceAttempt_def replace_by_def step_toEvent_def

lemmas step_plan_defs = settleAttempt_def settle_with_def recordAttemptNotStarted_def
  rejectStepRouting_def startAttemptEffect_def authorizeRetry_def markAttemptAmbiguous_def
  cancelAttemptBeforeEffect_def require_attempt_def step_invalidTransition_def Let_def

lemma ex_scheduled: "\<exists>event. scheduleStep ex_schedule = Inr (event, ex_step)"
  by (simp add: scheduleStep_def ex_step_defs lit_def blank_iff js_space_def)

lemma ex_step_reachable: "step_reachable ex_step"
  using ex_scheduled step_reachable.scheduled by blast

lemma ex_claimed:
  "\<exists>evs. applyStepCommand ex_step (ClaimStepAttempt ex_preparation)
     (ex_context 1 [lit ''e2'', lit ''e3'', lit ''e4'']) =
   Inr \<lparr>tr_aggregate = ex_step_at 2 4 S_active A_claimed, tr_events = evs, tr_replayed = False\<rparr>"
  by (simp add: step_op_defs ex_step_defs lit_def blank_iff js_space_def)






section \<open>The attempts of a reachable step\<close>

text \<open>An accepted command that is not a replay takes over the fields of its plan.\<close>

lemma applyStepCommand_plan:
  assumes "applyStepCommand s c x = Inr t" and "scx_replayProof x = None"
  obtains p where "step_planTransition s c (scx_occurredAt x) = Inr p"
    "sr_attempts (tr_aggregate t) = sp_attempts p" "sr_state (tr_aggregate t) = sp_state p"
    "sr_activeAttemptId (tr_aggregate t) = sp_activeAttemptId p"
  by (rule applyStepCommand_fresh [OF assms]) simp








section \<open>Claiming\<close>

text \<open>
  C3. Work is claimed only when no earlier attempt can still have an effect: when a command
  of a reachable step leads from no active attempt to one, the command claims an attempt
  with a fresh id, every earlier attempt has failed retryably, and the new attempt repeats
  their operation key, so the provider can recognise the repetition.
\<close>

theorem claim_is_certain_retry:
  assumes "step_reachable s" and "applyStepCommand s c x = Inr t"
    and "sr_activeAttemptId s = None"
    and "sr_activeAttemptId (tr_aggregate t) \<noteq> None"
  shows "\<exists>prep a. c = ClaimStepAttempt prep \<and>
    sr_attempts (tr_aggregate t) = sr_attempts s @ [a] \<and>
    at_state a = A_claimed \<and> at_operationKey a = ap_operationKey prep \<and>
    (\<forall>b\<in>set (sr_attempts s). at_state b = A_failed_retryable \<and>
       at_operationKey b = at_operationKey a \<and> at_attemptId b \<noteq> at_attemptId a)"
proof -
  have inv: "step_inv s" using assms(1) by (rule step_reachable_inv)
  have fresh: "scx_replayProof x = None"
    using assms(2-4) applyStepCommand_replay by (cases "scx_replayProof x") fastforce+
  obtain p where p: "step_planTransition s c (scx_occurredAt x) = Inr p"
    and t: "sr_attempts (tr_aggregate t) = sp_attempts p" "sp_activeAttemptId p \<noteq> None"
    using assms(4) by (metis applyStepCommand_plan [OF assms(2) fresh])
  obtain prep where c: "c = ClaimStepAttempt prep"
    using p t(2) assms(3) by (cases c)
      (auto simp: step_plan_defs resolveAttemptAmbiguity_def matchingActiveAttempt_def
        activeAttempt_def split: option.splits if_splits dest: find_Some_mem)
  have pinv: "plan_inv s p" by (rule step_planTransition_inv [OF inv p])
  obtain a where a: "sp_attempts p = sr_attempts s @ [a]" "at_state a = A_claimed"
    "at_operationKey a = ap_operationKey prep"
    using p unfolding c
    by (auto simp: claimAttempt_def Let_def step_invalidTransition_def split: if_splits)
  then show ?thesis
    using pinv c t(1) by (auto simp: plan_inv_def attempts_inv_def list_all_iff)
qed

theorem claim_is_certain_retry_witness:
  "\<exists>prep a. ClaimStepAttempt ex_preparation = ClaimStepAttempt prep \<and>
    sr_attempts (ex_step_at 2 4 S_active A_claimed) = sr_attempts ex_step @ [a] \<and>
    at_operationKey a = ap_operationKey prep"
proof -
  obtain evs where t: "applyStepCommand ex_step (ClaimStepAttempt ex_preparation)
     (ex_context 1 [lit ''e2'', lit ''e3'', lit ''e4'']) =
   Inr \<lparr>tr_aggregate = ex_step_at 2 4 S_active A_claimed, tr_events = evs, tr_replayed = False\<rparr>"
    using ex_claimed by blast
  show ?thesis
    using claim_is_certain_retry [OF ex_step_reachable t] by (auto simp: ex_step_defs)
qed


section \<open>Ends and ambiguity\<close>

lemma finished_step_plan:
  assumes "sr_state s \<in> {S_succeeded, S_failed, S_cancelled, S_skipped}"
    and "step_planTransition s c at = Inr p"
  shows False
  using assms by (cases c)
    (auto simp: step_plan_defs claimAttempt_def resolveAttemptAmbiguity_def
      split: option.splits if_splits)

text \<open>
  A step that has succeeded, failed, been cancelled or been skipped never changes again:
  a command on it is either refused or answered as a replay with the step as it is.
\<close>

lemma finished_step_is_final:
  assumes "sr_state s \<in> {S_succeeded, S_failed, S_cancelled, S_skipped}"
  shows "run_history applyStepCommand s cs = Inr (s', evs) \<Longrightarrow> s' = s \<and> evs = []"
proof (induction cs arbitrary: evs)
  case (Cons cx cs)
  obtain c x where cx: "cx = (c, x)" by (cases cx)
  from Cons.prems cx obtain t evs' where t: "applyStepCommand s c x = Inr t"
    and rest: "run_history applyStepCommand (tr_aggregate t) cs = Inr (s', evs')"
    and evs: "evs = tr_events t @ evs'"
    by (auto split: sum.splits)
  have "tr_aggregate t = s \<and> tr_events t = []"
  proof (cases "scx_replayProof x")
    case None
    then show ?thesis using finished_step_plan [OF assms] applyStepCommand_plan [OF t] by metis
  next
    case (Some r)
    then show ?thesis using applyStepCommand_replay [OF Some t] by simp
  qed
  then show ?case using Cons.IH rest evs by simp
qed simp

text \<open>
  C24. An ambiguous step is left in one way only: by a resolution that carries a
  reconciliation proof that is not blank and a settlement of the active attempt; a success
  needs a settled proof, and the step ends or becomes ready again with the outcome.
\<close>

theorem ambiguity_needs_proof:
  assumes "sr_state s = S_ambiguous" and "applyStepCommand s c x = Inr t"
    and "tr_aggregate t \<noteq> s"
  shows "\<exists>attemptId outcome proofId authorized settlement output a.
    c = ResolveAttemptAmbiguity attemptId outcome proofId authorized settlement output \<and>
    \<not> blank proofId \<and> activeAttempt s = Some a \<and> at_attemptId a = attemptId \<and>
    settlementMatches a settlement \<and>
    (outcome = AO_succeeded \<longrightarrow> (\<exists>i r k u. settlement = Settled i r k u)) \<and>
    sr_state (tr_aggregate t) =
      (if outcome = AO_succeeded then S_succeeded
       else if outcome = AO_failed_retryable \<and> authorized then S_ready else S_failed)"
proof -
  have fresh: "scx_replayProof x = None"
    using assms(2,3) applyStepCommand_replay by (cases "scx_replayProof x") fastforce+
  obtain p where p: "step_planTransition s c (scx_occurredAt x) = Inr p"
    and st: "sr_state (tr_aggregate t) = sp_state p"
    by (metis applyStepCommand_plan [OF assms(2) fresh])
  obtain i oc pid ra pf out where c: "c = ResolveAttemptAmbiguity i oc pid ra pf out"
    using p assms(1) by (cases c)
      (auto simp: step_plan_defs claimAttempt_def split: option.splits if_splits)
  show ?thesis
    using p st unfolding c
    by (cases pf)
      (auto simp: resolveAttemptAmbiguity_def require_attempt_def step_invalidTransition_def
        matchingActiveAttempt_def Let_def split: option.splits if_splits)
qed


definition ex_resolution :: step_command where
  "ex_resolution = ResolveAttemptAmbiguity (lit ''att'') AO_succeeded (lit ''proof'') False
     (Settled \<lparr>si_attemptId = lit ''att'', si_operationKey = lit ''op'',
        si_reservationId = lit ''res'', si_unit = lit ''credit''\<rparr> (num 3) (num 5) (lit ''use''))
     None"

lemma ex_settlement_matches:
  "settlementMatches (ex_attempt st)
     (Settled \<lparr>si_attemptId = lit ''att'', si_operationKey = lit ''op'',
        si_reservationId = lit ''res'', si_unit = lit ''credit''\<rparr> (num 3) (num 5) (lit ''use''))"
  by (simp add: settlementMatches_def ex_attempt_def)

lemma ex_resolved:
  "\<exists>t. applyStepCommand (ex_step_at 4 6 S_ambiguous A_ambiguous) ex_resolution
     (ex_context 4 [lit ''e7'']) = Inr t \<and> sr_state (tr_aggregate t) = S_succeeded"
  using ex_settlement_matches [of A_ambiguous]
  by (simp add: ex_resolution_def step_op_defs resolveAttemptAmbiguity_def
      invalidRetryAuthorization_def unless_failure_def ex_step_at_def ex_step_def ex_context_def
      ex_attempt_def Let_def) (simp add: lit_def blank_iff js_space_def)

theorem ambiguity_needs_proof_witness:
  "\<exists>t. applyStepCommand (ex_step_at 4 6 S_ambiguous A_ambiguous) ex_resolution
     (ex_context 4 [lit ''e7'']) = Inr t \<and> \<not> blank (lit ''proof'')"
proof -
  obtain t where t: "applyStepCommand (ex_step_at 4 6 S_ambiguous A_ambiguous) ex_resolution
     (ex_context 4 [lit ''e7'']) = Inr t" and st: "sr_state (tr_aggregate t) = S_succeeded"
    using ex_resolved by blast
  have amb: "sr_state (ex_step_at 4 6 S_ambiguous A_ambiguous) = S_ambiguous"
    by (simp add: ex_step_at_def)
  have changed: "tr_aggregate t \<noteq> ex_step_at 4 6 S_ambiguous A_ambiguous"
    using st amb by force
  show ?thesis
    using ambiguity_needs_proof [OF amb t changed] t by (simp add: ex_resolution_def)
qed


section \<open>Settlements\<close>







section \<open>The retry decision\<close>

text \<open>
  The step states \<open>pending\<close>, \<open>waiting\<close>, \<open>retryable\<close> and \<open>cancelling\<close> are never reached:
  a retry is decided by the command that records the failure, so \<open>AuthorizeRetry\<close>, which
  serves stored steps of an older version, is refused as an invalid transition on every
  step that scheduling and commands produce.
\<close>

lemma retry_decided_on_failure:
  assumes "step_reachable s"
  shows "sr_state s \<notin> {S_pending, S_waiting, S_retryable, S_cancelling} \<and>
    step_planTransition s (AuthorizeRetry i authorized) occurredAt =
      fail \<lparr>sf_code = SF_invalid_transition, sf_command = T_AuthorizeRetry, sf_state = sr_state s\<rparr>"
  using step_inv_states [OF step_reachable_inv [OF assms]]
    authorizeRetry_refused [OF step_reachable_inv [OF assms]]
  by (simp add: step_invalidTransition_def step_fail_def)

section \<open>The event log and the version\<close>

text \<open>
  The log of a step has no gap and no repetition: the event of \<open>scheduleStep\<close> is number
  1, and the events of any accepted sequence of commands carry 2, 3, ... in order, so that
  the sequence number of the step is the length of its log.
\<close>

lemma step_log_contiguous:
  assumes "scheduleStep input = Inr (event, s)"
    and "run_history applyStepCommand s cs = Inr (s', evs)"
    and "int (length evs) < 2 ^ 53 - 1"
  shows "map se_sequence (event # evs) = numbers_after 0 (Suc (length evs)) \<and>
    sr_eventSequence s' = num (int (length (event # evs)))"
proof -
  have s: "sr_eventSequence s = num 1" "se_sequence event = num 1"
    using assms(1) by (auto simp: scheduleStep_def Let_def split: if_splits)
  have "map se_sequence evs = numbers_after 1 (length evs) \<and>
      sr_eventSequence s' = num (1 + int (length evs))"
    using assms(3) by (intro step_journal.history_numbers [OF assms(2) s(1)]) auto
  then show ?thesis
    using s(2) numbers_after_append [of 0 1 "length evs"]
    by (simp add: numbers_after_def ac_simps)
qed

text \<open>
  Optimistic concurrency of steps: once a command prepared at some version has been
  accepted, every other command prepared at that version is refused with
  \<open>aggregate-version-conflict\<close>, whatever it asks for.
\<close>

lemma stale_step_command_refused:
  assumes "applyStepCommand s c x = Inr t" and "scx_replayProof x = None"
    and "sr_aggregateVersion s = num n" and "0 \<le> n" and "n + 1 < 2 ^ 53"
    and "scx_replayProof y = None"
    and "scx_expectedAggregateVersion y = scx_expectedAggregateVersion x"
  shows "applyStepCommand (tr_aggregate t) d y =
    fail (step_fail SF_aggregate_version_conflict (tr_aggregate t) d)"
proof -
  have "\<exists>e. applyStepCommand (tr_aggregate t) d' y = Inl e" for d'
    using step_journal.stale_command_refused [OF assms(1) _ assms(3-5) _ assms(7)] assms(2,6)
    by (simp add: is_step_replay_def)
  have "js_eq (scx_expectedAggregateVersion x) (num n)"
    using step_journal.fresh_version_checked [OF assms(1)] assms(2,3)
    by (simp add: is_step_replay_def)
  moreover have "sr_aggregateVersion (tr_aggregate t) = num (n + 1)"
    using step_journal.fresh_version [OF assms(1)] assms(2-5) by (simp add: is_step_replay_def)
  ultimately have "\<not> js_eq (scx_expectedAggregateVersion y) (sr_aggregateVersion (tr_aggregate t))"
    using assms(7) by (auto simp: js_eq_def)
  then show ?thesis using assms(6) by (simp add: applyStepCommand_def)
qed


section \<open>Scheduling and skipping\<close>

text \<open>
  \<open>scheduleStep\<close> creates a step, ready and without attempts, exactly when the run is
  running, the node key is not blank and every dependency is satisfied; otherwise it fails.
\<close>

lemma scheduleStep_spec:
  "case scheduleStep input of
     Inr (event, s) \<Rightarrow>
       ss_runState input = R_running \<and> \<not> blank (ss_nodeKey input) \<and>
       set (ss_dependsOn input) \<subseteq> set (ss_satisfiedDependencies input) \<and>
       sr_state s = S_ready \<and> sr_attempts s = [] \<and>
       se_detail event = StepReady (sr_nodeKey s) \<and> sr_nodeKey s = ss_nodeKey input
   | Inl _ \<Rightarrow>
       \<not> (ss_runState input = R_running \<and> \<not> blank (ss_nodeKey input) \<and>
         set (ss_dependsOn input) \<subseteq> set (ss_satisfiedDependencies input))"
  by (auto simp: scheduleStep_def Let_def filter_empty_conv subset_iff)

definition skip_requested :: "skip_step_input \<Rightarrow> bool" where
  "skip_requested input \<longleftrightarrow>
     sk_runState input = R_running \<and> \<not> blank (sk_nodeKey input) \<and>
     sk_blockedByNodeKeys input \<noteq> [] \<and> distinct (sk_blockedByNodeKeys input) \<and>
     (\<forall>nodeKey\<in>set (sk_blockedByNodeKeys input).
        \<not> blank nodeKey \<and> nodeKey \<in> set (sk_dependsOn input))"

lemma sort_remdups_invalid:
  "length (sort (remdups xs)) \<noteq> length xs \<or> list_ex P (sort (remdups xs)) \<longleftrightarrow>
   \<not> (distinct xs \<and> (\<forall>x\<in>set xs. \<not> P x))"
  by (auto simp: list_ex_iff)

lemma sort_remdups_ex: "list_ex P (sort (remdups xs)) \<longleftrightarrow> (\<exists>x\<in>set xs. P x)"
  by (simp add: list_ex_iff)

text \<open>
  \<open>skipStep\<close> creates a step, skipped and without attempts, exactly when the run is
  running, the node key is not blank and the blocking nodes are a non-empty set, without
  repetition or blank key, of the node's dependencies; the event lists them sorted.
\<close>

lemma skipStep_spec:
  "case skipStep input of
     Inr (event, s) \<Rightarrow>
       skip_requested input \<and> sr_state s = S_skipped \<and> sr_attempts s = [] \<and>
       se_detail event = StepSkipped (sort (sk_blockedByNodeKeys input))
   | Inl _ \<Rightarrow> \<not> skip_requested input"
  unfolding skipStep_def Let_def sort_remdups_invalid sort_remdups_ex skip_requested_def
  by (simp add: distinct_remdups_id) blast

end
