(* ===== verification/Run_Properties.thy ===== *)
theory Run_Properties
  imports Run_Invariant Step_Properties
begin

text \<open>
  What \<open>kernel/src/run.ts\<close> and \<open>kernel/src/run-lifecycle.ts\<close> promise of a run: its
  admission, the shape of every reachable run, how it ends, and its event log.
\<close>

section \<open>Examples\<close>

definition ex_contract :: contract_ref where
  "ex_contract =
     \<lparr>catalogVersion = lit ''1'', catalogFingerprint = lit ''f'', schemaId = lit ''s'',
      schemaVersion = lit ''1'', schemaFingerprint = lit ''g''\<rparr>"

definition ex_capability :: capability_ref where
  "ex_capability = \<lparr>capabilityId = lit ''cap'', capabilityVersion = lit ''1''\<rparr>"

definition ex_workflow :: compiled_workflow where
  "ex_workflow =
     \<lparr>cw_workflowSpecId = lit ''w'', cw_workflowRevision = lit ''1'',
      cw_workflowContentHash = lit ''h'', cw_compilerVersion = lit ''1'',
      cw_fingerprint = lit ''fp'',
      cw_nodes = [\<lparr>cn_key = lit ''b'', cn_capability = ex_capability, cn_dependsOn = [],
        cn_depth = 0, cn_humanGate = None\<rparr>]\<rparr>"

definition ex_budget :: budget_limit where
  "ex_budget = \<lparr>bl_unit = lit ''credit'', bl_limit = num 100, bl_spent = num 0, bl_reserved = num 0\<rparr>"

definition ex_authority :: authority_envelope where
  "ex_authority =
     \<lparr>ae_authorityEnvelopeId = lit ''env'', ae_version = AUTHORITY_ENVELOPE_VERSION_V1,
      ae_subjectActorId = lit ''actor'', ae_workspaceId = lit ''ws'',
      ae_permissions = [lit ''run''], ae_capabilities = [ex_capability],
      ae_budgetLimit = ex_budget, ae_deadline = num 1000\<rparr>"

definition ex_plan :: run_plan where
  "ex_plan =
     \<lparr>pl_runPlanId = lit ''plan'', pl_workspaceId = lit ''ws'', pl_planHash = lit ''ph'',
      pl_normalizedInputHash = lit ''ih'', pl_catalogVersion = lit ''1'',
      pl_catalogFingerprint = lit ''f'', pl_compiledWorkflow = ex_workflow,
      pl_inputContract = ex_contract, pl_outputContract = ex_contract,
      pl_policyVersion = lit ''1'', pl_policyFactsHash = lit ''pf'',
      pl_retryPolicy = \<lparr>maxAttemptsPerStep = num 3\<rparr>, pl_routeSnapshots = None,
      pl_quote = \<lparr>cq_quoteId = lit ''q'', cq_guarantee = Hard, cq_unit = lit ''credit'',
        cq_upperBound = None, cq_pricingVersion = lit ''1'', cq_expiresAt = num 1000\<rparr>,
      pl_budget = ex_budget, pl_deadline = num 1000, pl_authority = ex_authority\<rparr>"

definition ex_create :: create_run_input where
  "ex_create =
     \<lparr>ci_plan = ex_plan, ci_runId = lit ''run'', ci_eventId = lit ''e1'', ci_now = num 10,
      ci_actorId = lit ''actor'', ci_correlationId = lit ''corr'',
      ci_idempotencyKey = lit ''k'', ci_intentionHash = lit ''ih'',
      ci_requiredPermission = lit ''run''\<rparr>"

definition ex_run :: "run_state \<Rightarrow> int \<Rightarrow> int \<Rightarrow> run" where
  "ex_run st version sequence =
     \<lparr>run_runId = lit ''run'', run_runPlanId = lit ''plan'', run_workspaceId = lit ''ws'',
      run_state = st, run_aggregateVersion = num version, run_eventSequence = num sequence,
      run_resultCompleteness = RC_none, run_createdAt = num 10, run_idempotencyKey = lit ''k'',
      run_intentionHash = lit ''ih'', run_pendingStopReason = None, run_resultManifest = None\<rparr>"

definition ex_run_context :: "int \<Rightarrow> jstring list \<Rightarrow> run_command_context" where
  "ex_run_context version eventIds =
     \<lparr>rcx_commandIdentity = \<lparr>rci_idempotencyKey = lit ''k'', rci_commandHash = lit ''h''\<rparr>,
      rcx_expectedAggregateVersion = num version, rcx_eventIds = eventIds,
      rcx_occurredAt = num 20, rcx_actorId = lit ''actor'', rcx_correlationId = lit ''corr'',
      rcx_replayProof = None\<rparr>"

lemma ex_created:
  "\<exists>event. createRunFromPlan ex_create = Inr \<lparr>cd_run = ex_run R_queued 1 1, cd_event = event\<rparr>"
  by (simp add: createRunFromPlan_def ex_create_def ex_plan_def ex_authority_def ex_budget_def
      ex_workflow_def ex_run_def isSupportedAuthorityEnvelopeVersion_def Let_def)

lemma ex_run_claimed:
  "\<exists>evs. applyRunCommand (ex_run R_queued 1 1) ClaimRun (ex_run_context 1 [lit ''e2'']) =
     Inr \<lparr>tr_aggregate = ex_run R_running 2 2, tr_events = evs, tr_replayed = False\<rparr>"
  by (simp add: applyRunCommand_def claimRun_def keep_result_def ex_run_def ex_run_context_def)

lemma ex_run_ambiguous:
  "\<exists>evs. applyRunCommand (ex_run R_running 2 2) (MarkEffectAmbiguous (lit ''op''))
     (ex_run_context 2 [lit ''e3'', lit ''e4'']) =
     Inr \<lparr>tr_aggregate = ex_run R_ambiguous 3 4, tr_events = evs, tr_replayed = False\<rparr>"
  by (simp add: applyRunCommand_def markEffectAmbiguous_def keep_result_def ex_run_def
      ex_run_context_def) (simp add: lit_def js_space_def)

lemma ex_run_reachable:
  "run_reachable (ex_run R_queued 1 1)"
  "run_reachable (ex_run R_running 2 2)"
  "run_reachable (ex_run R_ambiguous 3 4)"
proof -
  show a: "run_reachable (ex_run R_queued 1 1)"
    using ex_created run_reachable.created by fastforce
  show b: "run_reachable (ex_run R_running 2 2)"
    using run_reachable.commanded [OF a] ex_run_claimed by fastforce
  show "run_reachable (ex_run R_ambiguous 3 4)"
    using run_reachable.commanded [OF b] ex_run_ambiguous by fastforce
qed


section \<open>Admission and outcome\<close>

text \<open>
  A run is admitted exactly when plan, authority and actor agree: one workspace, the
  envelope's subject and current version, an unexpired quote and unelapsed deadlines, a
  well-formed budget within the authority budget, the capabilities of every node of the
  workflow and the required permission. The admitted run is queued, at version 1, with no result.
\<close>

lemma run_admission:
  "case createRunFromPlan input of
     Inr d \<Rightarrow> run_admissible input \<and> run_state (cd_run d) = R_queued \<and>
       run_aggregateVersion (cd_run d) = num 1 \<and> run_eventSequence (cd_run d) = num 1 \<and>
       run_resultManifest (cd_run d) = None
   | Inl _ \<Rightarrow> \<not> run_admissible input"
  using createRunFromPlan_ok [of input]
  by (cases "createRunFromPlan input") (simp_all add: createRunFromPlan_run)

text \<open>
  C12. In every run that admission and commands can produce, a result manifest is recorded
  exactly when the run has completed or failed; a completed run is complete and a live one
  has no result; and a stop reason is pending in every cancelling run, possibly in an
  ambiguous one, and in no other.
\<close>

theorem reachable_run_outcome:
  assumes "run_reachable r"
  shows "(run_resultManifest r \<noteq> None \<longleftrightarrow> run_state r \<in> {R_completed, R_failed}) \<and>
    (run_state r = R_completed \<longrightarrow> run_resultCompleteness r = RC_complete) \<and>
    (run_state r \<in> {R_queued, R_running, R_waiting, R_cancelling, R_ambiguous} \<longrightarrow>
       run_resultCompleteness r = RC_none) \<and>
    (run_state r = R_cancelling \<longrightarrow> run_pendingStopReason r \<noteq> None) \<and>
    (run_pendingStopReason r \<noteq> None \<longrightarrow> run_state r \<in> {R_cancelling, R_ambiguous})"
  using run_reachable_inv [OF assms] unfolding run_inv_def outcome_inv_def live_states_def by blast

theorem reachable_run_outcome_witness:
  "run_resultManifest (ex_run R_ambiguous 3 4) = None"
  using reachable_run_outcome [OF ex_run_reachable(3)] by (simp add: ex_run_def)


section \<open>The end of a run\<close>

definition ended_states :: "run_state set" where
  "ended_states = {R_completed, R_failed, R_cancelled}"

lemma ended_run_plan: "run_state r \<in> ended_states \<Longrightarrow> run_planTransition r c \<noteq> Inr p"
  by (cases c) (auto simp: run_plan_defs ended_states_def)

lemma ended_run_step:
  assumes "run_state r \<in> ended_states" and "applyRunCommand r c x = Inr t"
  shows "tr_aggregate t = r \<and> tr_events t = []"
proof (cases "rcx_replayProof x")
  case None
  then show ?thesis using ended_run_plan [OF assms(1)] applyRunCommand_plan [OF assms(2)] by metis
next
  case (Some r')
  then show ?thesis using applyRunCommand_replay [OF Some assms(2)] by simp
qed

text \<open>
  Completed, failed and cancelled runs are final: no accepted history of commands
  changes such a run or adds an event to it.
\<close>

lemma ended_run_is_final:
  assumes "run_state r \<in> {R_completed, R_failed, R_cancelled}"
    and "run_history applyRunCommand r cs = Inr (r', evs)"
  shows "r' = r \<and> evs = []"
  using assms(2)
proof (induction cs arbitrary: evs)
  case (Cons cx cs)
  obtain c x where cx: "cx = (c, x)" by (cases cx)
  obtain t evs' where t: "applyRunCommand r c x = Inr t"
    "run_history applyRunCommand (tr_aggregate t) cs = Inr (r', evs')" "evs = tr_events t @ evs'"
    using Cons.prems unfolding cx by (rule run_projection.history_ConsE)
  then show ?case using Cons.IH ended_run_step [OF _ t(1)] assms(1) by (simp add: ended_states_def)
qed simp

text \<open>The manifest that a command presents as the proof of completion.\<close>

fun completion_manifest :: "run_command \<Rightarrow> result_manifest option" where
  "completion_manifest (CompleteRun m) = Some m"
| "completion_manifest (ResolveAmbiguity O_completed proofId completeness manifest) = manifest"
| "completion_manifest _ = None"

lemma completing_plan:
  assumes "run_planTransition r c = Inr p" and "tp_state p = R_completed"
  obtains m where "completion_manifest c = Some m"
    "validateCompletion r m = Inr (concluded_plan C_completed m R_completed RunCompleted)"
    "tp_resultManifest p = Some (resultManifestRef m)"
    "RunResultManifestRecorded C_completed (mf_manifestHash m) RC_complete
       (mf_resultManifestId m) \<in> set (tp_eventDetails p)"
proof (cases c)
  case (CompleteRun m)
  then have v: "validateCompletion r m = Inr p"
    using assms(1) by (simp add: run_plan_defs split: if_splits)
  then have "p = concluded_plan C_completed m R_completed RunCompleted"
    "mb_resultCompleteness (mf_body m) = RC_complete"
    by (metis validateCompletion_InrE)+
  with v CompleteRun show ?thesis by (intro that [of m]) simp_all
next
  case (ResolveAmbiguity oc pid k m)
  then have "resolveAmbiguity r oc pid k m = Inr p"
    using assms(1) by (simp add: run_plan_defs split: if_splits)
  then show ?thesis
  proof (cases rule: resolveAmbiguity_cases)
    case (completed m')
    then have "mb_resultCompleteness (mf_body m') = RC_complete" by (metis validateCompletion_InrE)
    with completed ResolveAmbiguity show ?thesis by (intro that [of m']) simp_all
  qed (use assms(2) in simp_all)
next
  case (FailRun m)
  then show ?thesis using assms validateFailure_InrD [of r m p] by (simp add: run_plan_defs split: if_splits)
qed (use assms in \<open>auto simp: run_plan_defs split: if_splits\<close>)

text \<open>
  C2. A run completes only with a proof: the command presents a manifest of exactly this
  run, plan and version, concluding completion, in which every step succeeded and whose
  accepted output has the contract that the manifest itself states as its output contract and
  is the accepted result of one of the steps; the run then refers to that manifest and the log
  records it. (The command does not see the plan: that the stated contract is the one of the
  plan is established where the manifest is made.)
\<close>

theorem completion_needs_manifest:
  assumes "applyRunCommand r c x = Inr t" and "run_state r \<noteq> R_completed"
    and "run_state (tr_aggregate t) = R_completed"
  shows "\<exists>m out. completion_manifest c = Some m \<and>
    mb_runId (mf_body m) = run_runId r \<and> mb_workspaceId (mf_body m) = run_workspaceId r \<and>
    mb_runPlanId (mf_body m) = run_runPlanId r \<and>
    js_eq (mb_sourceRunAggregateVersion (mf_body m)) (run_aggregateVersion r) \<and>
    mb_conclusion (mf_body m) = C_completed \<and> mb_output (mf_body m) = Accepted out \<and>
    vo_contract out = mb_outputContract (mf_body m) \<and>
    (\<forall>entry\<in>set (mb_entries (mf_body m)). me_state entry = E_succeeded) \<and>
    (\<exists>entry\<in>set (mb_entries (mf_body m)). \<exists>result.
       me_result entry = Accepted result \<and> vo_artifact result = vo_artifact out) \<and>
    run_resultManifest (tr_aggregate t) = Some (resultManifestRef m) \<and>
    RunResultManifestRecorded C_completed (mf_manifestHash m) RC_complete
      (mf_resultManifestId m) \<in> set (map re_detail (tr_events t))"
proof -
  have fresh: "rcx_replayProof x = None"
    using assms applyRunCommand_replay by (cases "rcx_replayProof x") fastforce+
  obtain p where p: "run_planTransition r c = Inr p" "run_state (tr_aggregate t) = tp_state p"
    "run_resultManifest (tr_aggregate t) = tp_resultManifest p"
    "map re_detail (tr_events t) = tp_eventDetails p"
    by (metis applyRunCommand_plan [OF assms(1) fresh])
  have "tp_state p = R_completed" using p(2) assms(3) by simp
  then obtain m where m: "completion_manifest c = Some m"
    "validateCompletion r m = Inr (concluded_plan C_completed m R_completed RunCompleted)"
    "tp_resultManifest p = Some (resultManifestRef m)"
    "RunResultManifestRecorded C_completed (mf_manifestHash m) RC_complete
       (mf_resultManifestId m) \<in> set (tp_eventDetails p)"
    by (rule completing_plan [OF p(1)])
  from m(2) obtain out where "manifest_identifies (mf_body m) r C_completed"
    "mb_output (mf_body m) = Accepted out" "vo_contract out = mb_outputContract (mf_body m)"
    "\<forall>entry\<in>set (mb_entries (mf_body m)). me_state entry = E_succeeded"
    "\<exists>entry\<in>set (mb_entries (mf_body m)). \<exists>result. me_result entry = Accepted result \<and>
       vo_artifact result = vo_artifact out"
    by (rule validateCompletion_InrE)
  then show ?thesis using m p(3,4) unfolding manifest_identifies_def by (metis (no_types, lifting))
qed


definition ex_output :: validated_output where
  "ex_output =
     \<lparr>vo_artifact = \<lparr>ar_artifactId = lit ''art'', ar_contentHash = lit ''ch''\<rparr>,
      vo_contract = ex_contract, vo_validatedAt = num 20, vo_validatorVersion = lit ''1''\<rparr>"

definition ex_entry :: result_manifest_entry where
  "ex_entry =
     \<lparr>me_nodeKey = lit ''b'', me_result = Accepted ex_output, me_state = E_succeeded,
      me_stepAggregateVersion = num 4, me_stepEventSequence = num 6, me_stepRunId = lit ''step'',
      me_blockedByNodeKeys = None, me_terminalAttemptId = Some (lit ''att'')\<rparr>"

definition ex_manifest :: "int \<Rightarrow> result_manifest" where
  "ex_manifest version =
     \<lparr>mf_body = \<lparr>mb_attemptSettlements = [], mb_compiledWorkflowFingerprint = lit ''fp'',
        mb_conclusion = C_completed,
        mb_cost = \<lparr>mc_reserved = num 0, mc_spent = num 0, mc_unit = lit ''credit''\<rparr>,
        mb_createdAt = num 30, mb_entries = [ex_entry], mb_output = Accepted ex_output,
        mb_outputContract = ex_contract, mb_planHash = lit ''ph'',
        mb_resultCompleteness = RC_complete, mb_runId = lit ''run'', mb_runPlanId = lit ''plan'',
        mb_sourceRunAggregateVersion = num version, mb_workspaceId = lit ''ws''\<rparr>,
      mf_manifestHash = lit ''mh'', mf_resultManifestId = lit ''mid''\<rparr>"

definition ex_completed_run :: "int \<Rightarrow> int \<Rightarrow> run" where
  "ex_completed_run version sequence =
     (ex_run R_completed version sequence)\<lparr>run_resultCompleteness := RC_complete,
       run_resultManifest :=
         Some \<lparr>rmr_manifestHash = lit ''mh'', rmr_resultManifestId = lit ''mid''\<rparr>\<rparr>"

lemma ex_run_completed:
  "\<exists>evs. applyRunCommand (ex_run R_running 2 2) (CompleteRun (ex_manifest 2))
     (ex_run_context 2 [lit ''e3'', lit ''e4'']) =
     Inr \<lparr>tr_aggregate = ex_completed_run 3 4, tr_events = evs, tr_replayed = False\<rparr>"
  by (simp add: applyRunCommand_def completeRun_def validateCompletion_def manifest_identifies_def
      concluded_plan_def resultManifestRef_def ex_run_def ex_run_context_def ex_manifest_def
      ex_entry_def ex_output_def ex_completed_run_def Let_def) (simp add: lit_def js_space_def)

theorem completion_needs_manifest_witness:
  "\<exists>evs. applyRunCommand (ex_run R_running 2 2) (CompleteRun (ex_manifest 2))
       (ex_run_context 2 [lit ''e3'', lit ''e4'']) =
       Inr \<lparr>tr_aggregate = ex_completed_run 3 4, tr_events = evs, tr_replayed = False\<rparr> \<and>
     RunResultManifestRecorded C_completed (lit ''mh'') RC_complete (lit ''mid'')
       \<in> set (map re_detail evs)"
proof -
  obtain evs where t: "applyRunCommand (ex_run R_running 2 2) (CompleteRun (ex_manifest 2))
       (ex_run_context 2 [lit ''e3'', lit ''e4'']) =
       Inr \<lparr>tr_aggregate = ex_completed_run 3 4, tr_events = evs, tr_replayed = False\<rparr>"
    using ex_run_completed by blast
  show ?thesis
    using completion_needs_manifest [OF t] t
    by (auto simp: ex_run_def ex_completed_run_def ex_manifest_def)
qed

text \<open>
  An ambiguous run is left in one way only: by a resolution with a reconciliation proof
  that is not blank, which ends the run with the outcome it states.
\<close>

lemma run_ambiguity_needs_proof:
  assumes "run_state r = R_ambiguous" and "applyRunCommand r c x = Inr t"
    and "run_state (tr_aggregate t) \<noteq> R_ambiguous"
  shows "\<exists>outcome proofId completeness manifest.
    c = ResolveAmbiguity outcome proofId completeness manifest \<and> \<not> blank proofId \<and>
    run_state (tr_aggregate t) =
      (case outcome of O_completed \<Rightarrow> R_completed | O_failed \<Rightarrow> R_failed
       | O_cancelled \<Rightarrow> R_cancelled) \<and>
    AmbiguityResolved outcome proofId \<in> set (map re_detail (tr_events t)) \<and>
    (outcome \<noteq> O_cancelled \<longrightarrow> manifest \<noteq> None)"
proof -
  have fresh: "rcx_replayProof x = None"
    using assms applyRunCommand_replay by (cases "rcx_replayProof x") fastforce+
  obtain p where p: "run_planTransition r c = Inr p" "run_state (tr_aggregate t) = tp_state p"
    "map re_detail (tr_events t) = tp_eventDetails p"
    by (metis applyRunCommand_plan [OF assms(2) fresh])
  obtain oc pid k m where c: "c = ResolveAmbiguity oc pid k m"
    using p(1,2) assms(1,3) by (cases c) (auto simp: run_plan_defs split: if_splits)
  then have "resolveAmbiguity r oc pid k m = Inr p"
    using p(1) by (simp add: run_plan_defs split: if_splits)
  then show ?thesis
    using c p(2,3) by (cases rule: resolveAmbiguity_cases) simp_all
qed

lemma ex_run_resolved:
  "\<exists>t. applyRunCommand (ex_run R_ambiguous 3 4)
     (ResolveAmbiguity O_cancelled (lit ''proof'') RC_none None)
     (ex_run_context 3 [lit ''e5'', lit ''e6'']) = Inr t \<and>
     run_state (tr_aggregate t) = R_cancelled"
  by (simp add: applyRunCommand_def reconcileRun_def resolveAmbiguity_def ex_run_def
      ex_run_context_def Let_def) (simp add: lit_def js_space_def)

text \<open>
  A reconciled cancellation takes its completeness from the command, with no manifest to
  check it against: a cancelled run without a result can be marked complete.
\<close>

lemma cancelled_run_marked_complete:
  "\<exists>t. applyRunCommand (ex_run R_ambiguous 3 4)
     (ResolveAmbiguity O_cancelled (lit ''proof'') RC_complete None)
     (ex_run_context 3 [lit ''e5'', lit ''e6'']) = Inr t \<and>
     run_state (tr_aggregate t) = R_cancelled \<and>
     run_resultCompleteness (tr_aggregate t) = RC_complete \<and>
     run_resultManifest (tr_aggregate t) = None"
  by (simp add: applyRunCommand_def reconcileRun_def resolveAmbiguity_def ex_run_def
      ex_run_context_def Let_def) (simp add: lit_def js_space_def)


section \<open>Stopping\<close>

text \<open>A run in which a stop is under way, or that has ended without a result.\<close>

definition stopping :: "run \<Rightarrow> bool" where
  "stopping r \<longleftrightarrow> run_state r = R_cancelled \<or>
     (run_state r = R_cancelling \<or> run_state r = R_ambiguous) \<and> run_pendingStopReason r \<noteq> None"

fun resolves_ambiguity :: "run_command \<Rightarrow> bool" where
  "resolves_ambiguity (ResolveAmbiguity _ _ _ _) = True"
| "resolves_ambiguity _ = False"

lemma requested_stop_stops:
  assumes "run_reachable r" and "applyRunCommand r (RequestStop reason) x = Inr t"
    and "rcx_replayProof x = None"
  shows "stopping (tr_aggregate t)"
proof -
  obtain p where "run_planTransition r (RequestStop reason) = Inr p"
    "run_state (tr_aggregate t) = tp_state p"
    "run_pendingStopReason (tr_aggregate t) = tp_pendingStopReason p"
    by (metis applyRunCommand_plan [OF assms(2,3)])
  then show ?thesis by (auto simp: stopping_def run_plan_defs split: if_splits)
qed

lemma stopping_step:
  assumes "stopping r" and "applyRunCommand r c x = Inr t" and "\<not> resolves_ambiguity c"
  shows "stopping (tr_aggregate t)"
proof (cases "rcx_replayProof x")
  case None
  obtain p where "run_planTransition r c = Inr p"
    "run_state (tr_aggregate t) = tp_state p"
    "run_pendingStopReason (tr_aggregate t) = tp_pendingStopReason p"
    by (metis applyRunCommand_plan [OF assms(2) None])
  then show ?thesis
    using assms(1,3) by (cases c) (auto simp: stopping_def run_plan_defs split: if_splits)
next
  case (Some r')
  then show ?thesis using applyRunCommand_replay [OF Some assms(2)] assms(1) by simp
qed

text \<open>
  C25. A stop that was accepted is never lost: whatever commands follow, the run does not
  return to work and does not complete or fail; it stays cancelling, or ambiguous with the
  stop pending, or is cancelled, until an ambiguity is resolved with a proof.
\<close>

theorem accepted_stop_is_effective:
  assumes "run_reachable r" and "applyRunCommand r (RequestStop reason) x = Inr t"
    and "rcx_replayProof x = None"
    and "\<forall>(c, y)\<in>set cs. \<not> resolves_ambiguity c"
    and "run_history applyRunCommand (tr_aggregate t) cs = Inr (r', evs)"
  shows "run_state r' = R_cancelled \<or>
    run_state r' \<in> {R_cancelling, R_ambiguous} \<and> run_pendingStopReason r' \<noteq> None"
proof -
  have "stopping r'" if "stopping q" "\<forall>(c, y)\<in>set cs. \<not> resolves_ambiguity c"
    "run_history applyRunCommand q cs = Inr (r', evs)" for q
    using that
  proof (induction cs arbitrary: q evs)
    case (Cons cx cs)
    obtain c x where cx: "cx = (c, x)" by (cases cx)
    obtain u evs' where u: "applyRunCommand q c x = Inr u"
      "run_history applyRunCommand (tr_aggregate u) cs = Inr (r', evs')"
      using Cons.prems(3) unfolding cx by (rule run_projection.history_ConsE)
    have "stopping (tr_aggregate u)"
      using stopping_step [OF Cons.prems(1) u(1)] Cons.prems(2) cx by simp
    then show ?case using Cons.IH [OF _ _ u(2)] Cons.prems(2) by simp
  qed simp
  from this [OF requested_stop_stops [OF assms(1-3)] assms(4,5)] show ?thesis
    by (auto simp: stopping_def)
qed

lemma ex_run_stopped:
  "\<exists>t. applyRunCommand (ex_run R_running 2 2) (RequestStop Stop_budget)
     (ex_run_context 2 [lit ''e3'', lit ''e4'']) = Inr t \<and> run_state (tr_aggregate t) = R_cancelling"
  by (simp add: applyRunCommand_def requestStop_def keep_result_def ex_run_def ex_run_context_def)

theorem accepted_stop_is_effective_witness:
  "\<exists>t. applyRunCommand (ex_run R_running 2 2) (RequestStop Stop_budget)
     (ex_run_context 2 [lit ''e3'', lit ''e4'']) = Inr t \<and>
     run_pendingStopReason (tr_aggregate t) \<noteq> None"
proof -
  obtain t where t: "applyRunCommand (ex_run R_running 2 2) (RequestStop Stop_budget)
     (ex_run_context 2 [lit ''e3'', lit ''e4'']) = Inr t"
    "run_state (tr_aggregate t) = R_cancelling"
    using ex_run_stopped by blast
  have h: "run_history applyRunCommand (tr_aggregate t) [] = Inr (tr_aggregate t, [])" by simp
  have n: "rcx_replayProof (ex_run_context 2 [lit ''e3'', lit ''e4'']) = None"
    by (simp add: ex_run_context_def)
  show ?thesis
    using accepted_stop_is_effective [OF ex_run_reachable(2) t(1) n _ h] t by auto
qed


section \<open>The event log\<close>

text \<open>
  The log of a run has no gap and no repetition: admission is event 1, and the events of
  any accepted sequence of commands carry 2, 3, ... in order.
\<close>

lemma run_log_contiguous:
  assumes "createRunFromPlan input = Inr d"
    and "run_history applyRunCommand (cd_run d) cs = Inr (r, evs)"
    and "int (length evs) < 2 ^ 53 - 1"
  shows "rq_sequence (cd_event d) # map re_sequence evs = numbers_after 0 (Suc (length evs)) \<and>
    run_eventSequence r = num (1 + int (length evs))"
proof -
  have q: "rq_sequence (cd_event d) = num 1"
    using assms(1) by (auto simp: createRunFromPlan_def Let_def split: if_splits)
  have "map re_sequence evs = numbers_after 1 (length evs) \<and>
      run_eventSequence r = num (1 + int (length evs))"
    using assms(3) createRunFromPlan_run(3) [OF assms(1)]
    by (intro run_journal.history_numbers [OF assms(2)]) auto
  then show ?thesis
    using q numbers_after_append [of 0 1 "length evs"] by (simp add: numbers_after_def ac_simps)
qed

text \<open>
  C15. The log determines the run: folding the events of any accepted history over the view
  of a reachable run gives the state, the pending stop and the manifest of the final run.
\<close>

theorem run_rebuilt_from_events:
  assumes "run_reachable r" and "run_history applyRunCommand r cs = Inr (r', evs)"
  shows "fold project_run_event evs
      \<lparr>rv_state = run_state r, rv_pendingStopReason = run_pendingStopReason r,
       rv_resultManifest = run_resultManifest r\<rparr> =
    \<lparr>rv_state = run_state r', rv_pendingStopReason = run_pendingStopReason r',
     rv_resultManifest = run_resultManifest r'\<rparr>"
  using run_projection.history_view [OF run_reachable_inv [OF assms(1)] assms(2)]
  by (simp add: run_view_of_def)

theorem run_rebuilt_from_events_witness:
  "\<exists>evs. fold project_run_event evs
      \<lparr>rv_state = R_running, rv_pendingStopReason = None, rv_resultManifest = None\<rparr> =
    \<lparr>rv_state = R_completed, rv_pendingStopReason = None,
     rv_resultManifest = Some \<lparr>rmr_manifestHash = lit ''mh'', rmr_resultManifestId = lit ''mid''\<rparr>\<rparr>"
proof -
  obtain evs where t: "applyRunCommand (ex_run R_running 2 2) (CompleteRun (ex_manifest 2))
       (ex_run_context 2 [lit ''e3'', lit ''e4'']) =
       Inr \<lparr>tr_aggregate = ex_completed_run 3 4, tr_events = evs, tr_replayed = False\<rparr>"
    using ex_run_completed by blast
  have h: "run_history applyRunCommand (ex_run R_running 2 2)
      [(CompleteRun (ex_manifest 2), ex_run_context 2 [lit ''e3'', lit ''e4''])] =
      Inr (ex_completed_run 3 4, evs)"
    using t by simp
  show ?thesis
    using run_rebuilt_from_events [OF ex_run_reachable(2) h]
    by (auto simp: ex_run_def ex_completed_run_def)
qed

end
