(* ===== verification/Workflow_Compiler.thy ===== *)
theory Workflow_Compiler
  imports Amount Value_Objects
begin

text \<open>
  \<open>workflow-engine/src/compile-workflow.ts\<close>: a workflow specification is validated, ordered
  so that every node follows its dependencies, and given its depths. Both invariant
  violations that the code throws on are values of the error type.
\<close>

section \<open>Failures and limits\<close>

record compilation_limits =
  maxNodes :: js_number
  maxDepth :: js_number
  maxFanOut :: js_number

datatype compilation_failure_code =
    Compiler_version_unsupported | Duplicate_node | Node_limit_exceeded
  | Unresolved_dependency | Capability_not_allowed | Fan_out_limit_exceeded
  | Cycle_detected | Depth_limit_exceeded

datatype compilation_error =
    Compilation_failure compilation_failure_code "jstring option"
  | Compiler_invariant_violated

record compile_input =
  wi_spec :: workflow_spec
  wi_allowedCapabilities :: "jstring list"
  wi_limits :: compilation_limits
  wi_compilerVersion :: jstring

definition WORKFLOW_COMPILER_VERSION :: jstring where
  "WORKFLOW_COMPILER_VERSION = [49, 46, 48, 46, 48]"

type_synonym nodes_by_key = "(jstring, workflow_node) js_map"


section \<open>Validation\<close>

text \<open>The first node that the loop over \<open>spec.nodes\<close> rejects, with the reason.\<close>

fun invalid_node ::
  "jstring list \<Rightarrow> nodes_by_key \<Rightarrow> workflow_node list \<Rightarrow> compilation_error option" where
  "invalid_node allowlist nodesByKey [] = None"
| "invalid_node allowlist nodesByKey (node # nodes) =
     (if capabilityId (wn_capability node) \<notin> set allowlist
      then Some (Compilation_failure Capability_not_allowed (Some (wn_key node)))
      else if List.find (\<lambda>dependency. \<not> map_has nodesByKey dependency) (wn_dependsOn node) \<noteq> None
      then Some (Compilation_failure Unresolved_dependency (Some (wn_key node)))
      else invalid_node allowlist nodesByKey nodes)"

definition validateNodes ::
  "workflow_spec \<Rightarrow> jstring list \<Rightarrow> js_number \<Rightarrow> (nodes_by_key, compilation_error) domain_result" where
  "validateNodes spec allowedCapabilities limit =
     (if js_gt (num (int (length (ws_nodes spec)))) limit
      then fail (Compilation_failure Node_limit_exceeded None)
      else
        let nodesByKey = map_from (map (\<lambda>node. (wn_key node, node)) (ws_nodes spec))
        in if length nodesByKey \<noteq> length (ws_nodes spec)
           then fail (Compilation_failure Duplicate_node None)
           else case invalid_node allowedCapabilities nodesByKey (ws_nodes spec) of
               Some e \<Rightarrow> fail e
             | None \<Rightarrow> succeed nodesByKey)"


section \<open>The graph\<close>

definition get_or :: "'v \<Rightarrow> ('k, 'v) js_map \<Rightarrow> 'k \<Rightarrow> 'v" where
  "get_or d m k = (case map_get m k of Some v \<Rightarrow> v | None \<Rightarrow> d)"

definition add_dependant ::
  "jstring \<Rightarrow> jstring \<Rightarrow> (jstring, jstring list) js_map \<Rightarrow> (jstring, jstring list) js_map" where
  "add_dependant key dependency dependants =
     map_set dependency (get_or [] dependants dependency @ [key]) dependants"

definition graph_dependants :: "workflow_node list \<Rightarrow> (jstring, jstring list) js_map" where
  "graph_dependants nodes =
     fold (\<lambda>node. fold (add_dependant (wn_key node)) (wn_dependsOn node)) nodes []"

record workflow_graph =
  wg_dependants :: "(jstring, jstring list) js_map"
  wg_remainingDependencies :: "(jstring, int) js_map"

definition buildGraph :: "workflow_spec \<Rightarrow> workflow_graph" where
  "buildGraph spec =
     \<lparr>wg_dependants = map (\<lambda>(key, entries). (key, sort entries)) (graph_dependants (ws_nodes spec)),
      wg_remainingDependencies =
        map_from (map (\<lambda>node. (wn_key node, int (length (wn_dependsOn node)))) (ws_nodes spec))\<rparr>"

definition validateFanOut ::
  "(jstring, jstring list) js_map \<Rightarrow> js_number \<Rightarrow> (unit, compilation_error) domain_result" where
  "validateFanOut dependants limit =
     (case List.find (\<lambda>(nodeKey, entries). js_gt (num (int (length entries))) limit) dependants of
        Some (nodeKey, _) \<Rightarrow> fail (Compilation_failure Fan_out_limit_exceeded (Some nodeKey))
      | None \<Rightarrow> succeed ())"


section \<open>The order\<close>

text \<open>A dependency without a depth counts as \<open>-1\<close>.\<close>

definition calculateDepth :: "workflow_node \<Rightarrow> (jstring, nat) js_map \<Rightarrow> nat" where
  "calculateDepth node depths =
     foldl (\<lambda>maximum dependency. max maximum
         (case map_get depths dependency of Some d \<Rightarrow> d + 1 | None \<Rightarrow> 0))
       0 (wn_dependsOn node)"

text \<open>The body of the loop over the dependants of an ordered node.\<close>

definition release ::
  "jstring \<Rightarrow> (jstring, int) js_map \<times> jstring list \<Rightarrow> (jstring, int) js_map \<times> jstring list" where
  "release dependant = (\<lambda>(remaining, ready).
     let nextRemaining = get_or 0 remaining dependant - 1;
         remaining' = map_set dependant nextRemaining remaining
     in if nextRemaining = 0 then (remaining', sort (ready @ [dependant])) else (remaining', ready))"

text \<open>
  Every iteration takes a key from \<open>ready\<close>, and a key enters \<open>ready\<close> only when its count of
  remaining dependencies falls from one to zero.
\<close>

definition positives :: "('k, int) js_map \<Rightarrow> nat" where
  "positives m = length (filter (\<lambda>(k, n). 0 < n) m)"

lemma positives_map_set:
  "positives (map_set k v m) + (if 0 < get_or 0 m k then 1 else 0) =
   positives m + (if 0 < v then 1 else 0)"
  by (induction m) (auto simp: positives_def map_set_def get_or_def map_get_def)

lemma fold_release_measure:
  "length (snd (fold release ks s)) + positives (fst (fold release ks s)) \<le>
   length (snd s) + positives (fst s)"
proof (induction ks arbitrary: s)
  case (Cons k ks)
  have "length (snd (release k s)) + positives (fst (release k s)) \<le> length (snd s) + positives (fst s)"
    using positives_map_set [of k "get_or 0 (fst s) k - 1" "fst s"]
    by (auto simp: release_def Let_def split: prod.splits if_splits)
  then show ?case using Cons.IH [of "release k s"] by simp
qed simp

function order_loop ::
  "nodes_by_key \<Rightarrow> (jstring, jstring list) js_map \<Rightarrow> js_number \<Rightarrow> jstring list \<Rightarrow>
   (jstring, int) js_map \<Rightarrow> jstring list \<Rightarrow> (jstring, nat) js_map \<Rightarrow>
   (jstring list \<times> (jstring, nat) js_map, compilation_error) domain_result" where
  "order_loop nodesByKey deps limit [] remaining orderedKeys depths = succeed (orderedKeys, depths)"
| "order_loop nodesByKey deps limit (nodeKey # ready) remaining orderedKeys depths =
     (case map_get nodesByKey nodeKey of
        None \<Rightarrow> fail Compiler_invariant_violated
      | Some node \<Rightarrow>
          let depth = calculateDepth node depths
          in if js_gt (num (int depth)) limit
             then fail (Compilation_failure Depth_limit_exceeded (Some nodeKey))
             else
               let released = fold release (get_or [] deps nodeKey) (remaining, ready)
               in order_loop nodesByKey deps limit (snd released) (fst released)
                    (orderedKeys @ [nodeKey]) (map_set nodeKey depth depths))"
  by pat_completeness auto

termination
proof (relation "measure (\<lambda>(_, _, _, ready, remaining, _). length ready + positives remaining)",
    goal_cases)
  case (2 nodesByKey deps limit nodeKey ready remaining orderedKeys depths node depth released)
  then show ?case
    using fold_release_measure [of "get_or [] deps nodeKey" "(remaining, ready)"] by simp
qed simp

definition orderGraph ::
  "workflow_spec \<Rightarrow> nodes_by_key \<Rightarrow> workflow_graph \<Rightarrow> js_number \<Rightarrow>
   (jstring list \<times> (jstring, nat) js_map, compilation_error) domain_result" where
  "orderGraph spec nodesByKey graph limit =
     (let ready = sort (map wn_key (filter (\<lambda>node. length (wn_dependsOn node) = 0) (ws_nodes spec)))
      in and_then
           (order_loop nodesByKey (wg_dependants graph) limit ready (wg_remainingDependencies graph) [] [])
           (\<lambda>(orderedKeys, depths).
             if length orderedKeys \<noteq> length (ws_nodes spec)
             then fail (Compilation_failure Cycle_detected None)
             else succeed (orderedKeys, depths)))"


section \<open>The compiled workflow\<close>

fun toCompiledNodes ::
  "jstring list \<Rightarrow> (jstring, nat) js_map \<Rightarrow> nodes_by_key \<Rightarrow>
   (compiled_node list, compilation_error) domain_result" where
  "toCompiledNodes [] depths nodesByKey = succeed []"
| "toCompiledNodes (key # keys) depths nodesByKey =
     (case map_get nodesByKey key of
        None \<Rightarrow> fail Compiler_invariant_violated
      | Some node \<Rightarrow>
          and_then (toCompiledNodes keys depths nodesByKey)
            (\<lambda>nodes. succeed
              (\<lparr>cn_key = wn_key node, cn_capability = wn_capability node,
                cn_dependsOn = sort (wn_dependsOn node), cn_depth = get_or 0 depths key,
                cn_humanGate = wn_humanGate node\<rparr> # nodes)))"

text \<open>\<open>xs.join(separator)\<close>\<close>

fun join :: "jstring \<Rightarrow> jstring list \<Rightarrow> jstring" where
  "join separator [] = []"
| "join separator [x] = x"
| "join separator (x # xs) = x @ separator @ join separator xs"

definition node_text :: "compiled_node \<Rightarrow> jstring" where
  "node_text node =
     cn_key node @ lit '':'' @ capabilityId (cn_capability node) @ lit ''@'' @
     capabilityVersion (cn_capability node) @ lit '':'' @ join (lit '','') (cn_dependsOn node) @
     lit '':'' @ (case cn_humanGate node of Some gate \<Rightarrow> gate | None \<Rightarrow> [])"

definition workflow_fingerprint :: "compiled_node list \<Rightarrow> jstring" where
  "workflow_fingerprint nodes = join (lit ''|'') (map node_text nodes)"

definition compileWorkflow ::
  "compile_input \<Rightarrow> (compiled_workflow, compilation_error) domain_result" where
  "compileWorkflow input =
     (let spec = wi_spec input; limits = wi_limits input
      in if wi_compilerVersion input \<noteq> WORKFLOW_COMPILER_VERSION
      then fail (Compilation_failure Compiler_version_unsupported None)
      else and_then (validateNodes spec (wi_allowedCapabilities input) (maxNodes limits))
        (\<lambda>nodesByKey.
          let graph = buildGraph spec
          in and_then (validateFanOut (wg_dependants graph) (maxFanOut limits))
            (\<lambda>_. and_then (orderGraph spec nodesByKey graph (maxDepth limits))
              (\<lambda>(orderedKeys, depths).
                and_then (toCompiledNodes orderedKeys depths nodesByKey)
                  (\<lambda>nodes. succeed
                    \<lparr>cw_workflowSpecId = ws_workflowSpecId spec,
                     cw_workflowRevision = ws_revision spec,
                     cw_workflowContentHash = ws_contentHash spec,
                     cw_compilerVersion = wi_compilerVersion input,
                     cw_fingerprint = workflow_fingerprint nodes,
                     cw_nodes = nodes\<rparr>)))))"

end
