(* ===== verification/Workflow_Order.thy ===== *)
theory Workflow_Order
  imports Workflow_Compiler
begin

text \<open>
  The order that the workflow compiler produces, described without its loop: at every
  position stands the least key whose dependencies have all been placed. The theory shows
  that the loop computes this order and gets stuck only when there is none.
\<close>

section \<open>The graph of a specification\<close>

abbreviation node_keys :: "workflow_node list \<Rightarrow> jstring set" where
  "node_keys nodes \<equiv> wn_key ` set nodes"

definition node_deps :: "workflow_node list \<Rightarrow> jstring \<Rightarrow> jstring list" where
  "node_deps nodes key =
     (case map_of (map (\<lambda>node. (wn_key node, node)) nodes) key of
        Some node \<Rightarrow> wn_dependsOn node | None \<Rightarrow> [])"

text \<open>Specifications that validation accepts: distinct keys, and no dependency outside.\<close>

definition closed_nodes :: "workflow_node list \<Rightarrow> bool" where
  "closed_nodes nodes \<longleftrightarrow>
     distinct (map wn_key nodes) \<and> (\<forall>node\<in>set nodes. set (wn_dependsOn node) \<subseteq> node_keys nodes)"

text \<open>The keys that can be placed after the given ones.\<close>

definition available :: "workflow_node list \<Rightarrow> jstring list \<Rightarrow> jstring set" where
  "available nodes placed =
     {key \<in> node_keys nodes. key \<notin> set placed \<and> set (node_deps nodes key) \<subseteq> set placed}"

definition canonical :: "workflow_node list \<Rightarrow> jstring list \<Rightarrow> bool" where
  "canonical nodes order \<longleftrightarrow>
     (\<forall>i<length order. order ! i \<in> available nodes (take i order) \<and>
        (\<forall>key\<in>available nodes (take i order). order ! i \<le> key))"

lemma node_deps_mem:
  "distinct (map wn_key nodes) \<Longrightarrow> node \<in> set nodes \<Longrightarrow> node_deps nodes (wn_key node) = wn_dependsOn node"
  by (simp add: node_deps_def map_of_eq_Some_iff comp_def image_iff)

lemma canonical_Nil [simp]: "canonical nodes []"
  by (simp add: canonical_def)

lemma canonical_snoc:
  "canonical nodes (xs @ [x]) \<longleftrightarrow>
     canonical nodes xs \<and> x \<in> available nodes xs \<and> (\<forall>key\<in>available nodes xs. x \<le> key)"
  by (auto simp: canonical_def nth_append less_Suc_eq_le le_less)

lemma canonical_available: "canonical nodes order \<Longrightarrow> key \<in> set order \<Longrightarrow>
    key \<in> node_keys nodes \<and> set (node_deps nodes key) \<subseteq> set order"
proof (induction order rule: rev_induct)
  case (snoc x xs)
  then show ?case by (auto simp: canonical_snoc available_def)
qed simp

lemma canonical_distinct: "canonical nodes order \<Longrightarrow> distinct order"
  by (induction order rule: rev_induct) (auto simp: canonical_snoc available_def)

text \<open>There is at most one canonical order of a given length.\<close>

lemma canonical_unique:
  "canonical nodes xs \<Longrightarrow> canonical nodes ys \<Longrightarrow> length xs = length ys \<Longrightarrow> xs = ys"
proof (induction xs arbitrary: ys rule: rev_induct)
  case (snoc x xs)
  then obtain y zs where ys: "ys = zs @ [y]" by (cases ys rule: rev_cases) auto
  with snoc have "xs = zs" by (simp add: canonical_snoc)
  with snoc.prems ys show ?case by (auto simp: canonical_snoc intro: antisym)
qed simp


section \<open>Counting dependencies\<close>

lemma get_or_map_set [simp]:
  "get_or d (map_set k v m) k' = (if k' = k then v else get_or d m k')"
  by (simp add: get_or_def js_map.get_put)

lemma get_or_Nil [simp]: "get_or d [] k = d"
  by (simp add: get_or_def js_map.get_empty)

lemma fold_add_dependant:
  "get_or [] (fold (add_dependant key) ds m) d = get_or [] m d @ replicate (count_list ds d) key"
  by (induction ds arbitrary: m) (auto simp: add_dependant_def replicate_app_Cons_same)

lemma fold_dependants:
  "get_or [] (fold (\<lambda>node. fold (add_dependant (wn_key node)) (wn_dependsOn node)) nodes m) d =
   get_or [] m d @
     concat (map (\<lambda>node. replicate (count_list (wn_dependsOn node) d) (wn_key node)) nodes)"
  by (induction nodes arbitrary: m) (simp_all add: fold_add_dependant)

lemma count_list_replicate [simp]: "count_list (replicate n x) y = (if x = y then n else 0)"
  by (induction n) auto

lemma count_list_sort [simp]: "count_list (sort xs) y = count_list xs y"
  by (simp add: count_list_eq_length_filter filter_sort)

lemma get_or_map_sort: "get_or [] (map (\<lambda>(key, entries). (key, sort entries)) m) d = sort (get_or [] m d)"
  by (induction m) (auto simp: get_or_def map_get_def)

lemma count_dependants:
  assumes "distinct (map wn_key nodes)"
  shows "count_list (concat (map (\<lambda>node. replicate (count_list (wn_dependsOn node) d) (wn_key node)) nodes)) key
    = count_list (node_deps nodes key) d"
  using assms
proof (induction nodes)
  case (Cons node nodes)
  have "wn_key node \<notin> node_keys nodes" using Cons.prems by auto
  then have "count_list (concat (map (\<lambda>node. replicate (count_list (wn_dependsOn node) d) (wn_key node)) nodes))
      (wn_key node) = 0"
    by (auto simp: count_list_0_iff)
  then show ?case using Cons by (auto simp: node_deps_def)
qed (simp add: node_deps_def)

text \<open>The dependants of a key, as often as the key is a dependency of them.\<close>

lemma count_graph_dependants:
  assumes "distinct (map wn_key (ws_nodes spec))"
  shows "count_list (get_or [] (wg_dependants (buildGraph spec)) d) key =
    count_list (node_deps (ws_nodes spec) key) d"
  by (simp add: buildGraph_def get_or_map_sort graph_dependants_def fold_dependants
      count_dependants [OF assms])

definition unplaced :: "workflow_node list \<Rightarrow> jstring list \<Rightarrow> jstring \<Rightarrow> nat" where
  "unplaced nodes placed key = length (filter (\<lambda>d. d \<notin> set placed) (node_deps nodes key))"

lemma unplaced_0: "unplaced nodes placed key = 0 \<longleftrightarrow> set (node_deps nodes key) \<subseteq> set placed"
  by (auto simp: unplaced_def filter_empty_conv)

lemma length_filter_insert:
  "x \<notin> A \<Longrightarrow> length (filter (\<lambda>d. d \<notin> A) ds) =
     length (filter (\<lambda>d. d \<noteq> x \<and> d \<notin> A) ds) + count_list ds x"
  by (induction ds) auto

lemma unplaced_snoc:
  "x \<notin> set placed \<Longrightarrow>
   unplaced nodes placed key = unplaced nodes (placed @ [x]) key + count_list (node_deps nodes key) x"
  by (simp add: unplaced_def length_filter_insert conj_commute)


section \<open>Releasing the dependants of a node\<close>

lemma fold_release_count:
  "get_or 0 (fst (fold release ks s)) k = get_or 0 (fst s) k - int (count_list ks k)"
proof (induction ks arbitrary: s)
  case (Cons x ks)
  have "get_or 0 (fst (release x s)) k = get_or 0 (fst s) k - (if k = x then 1 else 0)"
    by (simp add: release_def Let_def split: prod.splits)
  then show ?case using Cons.IH [of "release x s"] by simp
qed simp

lemma fold_release_ready:
  "\<forall>k\<in>set ks. int (count_list ks k) \<le> get_or 0 (fst s) k \<Longrightarrow>
   set (snd (fold release ks s)) =
     set (snd s) \<union> {k \<in> set ks. get_or 0 (fst s) k = int (count_list ks k)}"
proof (induction ks arbitrary: s)
  case (Cons x ks)
  obtain remaining ready where s: "s = (remaining, ready)" by (cases s)
  have count: "get_or 0 (fst (release x s)) k = get_or 0 (fst s) k - (if k = x then 1 else 0)" for k
    by (simp add: release_def Let_def split: prod.splits)
  have ready: "set (snd (release x s)) = set (snd s) \<union> (if get_or 0 (fst s) x = 1 then {x} else {})"
    by (auto simp: release_def s Let_def)
  have "\<forall>k\<in>set ks. int (count_list ks k) \<le> get_or 0 (fst (release x s)) k"
    using Cons.prems by (auto simp: count)
  from Cons.IH [OF this] have "set (snd (fold release (x # ks) s)) =
      set (snd s) \<union> (if get_or 0 (fst s) x = 1 then {x} else {}) \<union>
      {k \<in> set ks. get_or 0 (fst s) k - (if k = x then 1 else 0) = int (count_list ks k)}"
    by (simp add: ready count)
  also have "\<dots> = set (snd s) \<union>
      {k \<in> set (x # ks). get_or 0 (fst s) k = int (count_list (x # ks) k)}"
  proof -
    have "x \<notin> set ks \<longleftrightarrow> count_list ks x = 0" by (simp add: count_list_0_iff)
    then show ?thesis using Cons.prems by (cases "x \<in> set ks") (auto split: if_splits)
  qed
  finally show ?case .
qed simp

lemma fold_release_sorted: "sorted (snd s) \<Longrightarrow> sorted (snd (fold release ks s))"
proof (induction ks arbitrary: s)
  case (Cons x ks)
  have "sorted (snd (release x s))"
    using Cons.prems by (auto simp: release_def Let_def split: prod.splits)
  then show ?case using Cons.IH by simp
qed simp

lemma fold_release_distinct:
  "\<forall>k\<in>set ks. int (count_list ks k) \<le> get_or 0 (fst s) k \<Longrightarrow>
   \<forall>k\<in>set ks. k \<notin> set (snd s) \<Longrightarrow> distinct (snd s) \<Longrightarrow> distinct (snd (fold release ks s))"
proof (induction ks arbitrary: s)
  case (Cons x ks)
  have count: "get_or 0 (fst (release x s)) k = get_or 0 (fst s) k - (if k = x then 1 else 0)" for k
    by (simp add: release_def Let_def split: prod.splits)
  have ready: "set (snd (release x s)) = set (snd s) \<union> (if get_or 0 (fst s) x = 1 then {x} else {})"
    by (auto simp: release_def Let_def split: prod.splits)
  have "x \<in> set ks \<Longrightarrow> get_or 0 (fst s) x \<noteq> 1"
    using Cons.prems(1) count_list_0_iff [of ks x] by auto
  then have "\<forall>k\<in>set ks. k \<notin> set (snd (release x s))"
    using Cons.prems(2) by (auto simp: ready)
  moreover have "distinct (snd (release x s))"
    using Cons.prems(2,3) by (auto simp: release_def Let_def split: prod.splits)
  moreover have "\<forall>k\<in>set ks. int (count_list ks k) \<le> get_or 0 (fst (release x s)) k"
    using Cons.prems(1) by (auto simp: count)
  ultimately show ?case using Cons.IH by simp
qed simp


section \<open>The loop invariant\<close>

text \<open>The depth of a key over the depths of its dependencies.\<close>

definition depth_over :: "(jstring \<Rightarrow> nat) \<Rightarrow> jstring list \<Rightarrow> nat" where
  "depth_over depth ds = foldl (\<lambda>maximum d. max maximum (depth d + 1)) 0 ds"

lemma depth_over_cong: "(\<And>d. d \<in> set ds \<Longrightarrow> f d = g d) \<Longrightarrow> depth_over f ds = depth_over g ds"
  unfolding depth_over_def by (rule foldl_cong) auto

definition depths_ok ::
  "workflow_node list \<Rightarrow> js_number \<Rightarrow> jstring list \<Rightarrow> (jstring, nat) js_map \<Rightarrow> bool" where
  "depths_ok nodes limit order depths \<longleftrightarrow>
     (\<forall>key. map_get depths key \<noteq> None \<longleftrightarrow> key \<in> set order) \<and>
     (\<forall>key\<in>set order.
        get_or 0 depths key = depth_over (get_or 0 depths) (node_deps nodes key) \<and>
        \<not> js_gt (num (int (get_or 0 depths key))) limit)"

definition loop_inv ::
  "workflow_node list \<Rightarrow> js_number \<Rightarrow> jstring list \<Rightarrow> (jstring, int) js_map \<Rightarrow> jstring list \<Rightarrow>
   (jstring, nat) js_map \<Rightarrow> bool" where
  "loop_inv nodes limit ready remaining order depths \<longleftrightarrow>
     canonical nodes order \<and> sorted ready \<and> distinct ready \<and>
     set ready = available nodes order \<and>
     (\<forall>key\<in>node_keys nodes. get_or 0 remaining key = int (unplaced nodes order key)) \<and>
     depths_ok nodes limit order depths"

text \<open>What the loop reads of the compiled maps.\<close>

definition graph_ok ::
  "workflow_node list \<Rightarrow> nodes_by_key \<Rightarrow> (jstring, jstring list) js_map \<Rightarrow> bool" where
  "graph_ok nodes nodesByKey deps \<longleftrightarrow>
     (\<forall>key\<in>node_keys nodes. \<exists>node. map_get nodesByKey key = Some node \<and>
        wn_dependsOn node = node_deps nodes key) \<and>
     (\<forall>d\<in>node_keys nodes. \<forall>key.
        count_list (get_or [] deps d) key = count_list (node_deps nodes key) d)"

lemma node_deps_outside: "key \<notin> node_keys nodes \<Longrightarrow> node_deps nodes key = []"
  by (auto simp: node_deps_def image_iff split: option.splits dest!: map_of_SomeD)

lemma calculateDepth_over:
  assumes "\<forall>d\<in>set (wn_dependsOn node). map_get depths d \<noteq> None"
  shows "calculateDepth node depths = depth_over (get_or 0 depths) (wn_dependsOn node)"
  unfolding calculateDepth_def depth_over_def
  by (rule foldl_cong) (use assms in \<open>auto simp: get_or_def\<close>)

lemma depths_ok_snoc:
  assumes "depths_ok nodes limit order depths" and "canonical nodes order" and "key \<notin> set order"
    and "set (node_deps nodes key) \<subseteq> set order"
    and "depth = depth_over (get_or 0 depths) (node_deps nodes key)"
    and "\<not> js_gt (num (int depth)) limit"
  shows "depths_ok nodes limit (order @ [key]) (map_set key depth depths)"
proof -
  have same: "depth_over (get_or 0 (map_set key depth depths)) (node_deps nodes k) =
      depth_over (get_or 0 depths) (node_deps nodes k)" if "k \<in> set (order @ [key])" for k
  proof (rule depth_over_cong)
    fix d assume "d \<in> set (node_deps nodes k)"
    then have "d \<in> set order" using that assms(4) canonical_available [OF assms(2)] by auto
    then show "get_or 0 (map_set key depth depths) d = get_or 0 depths d" using assms(3) by auto
  qed
  show ?thesis
    using assms(1,3,5,6) same unfolding depths_ok_def by (auto simp: js_map.get_put)
qed

lemma loop_inv_step:
  assumes inv: "loop_inv nodes limit (key # ready) remaining order depths"
    and graph: "graph_ok nodes nodesByKey deps"
    and depth: "depth = depth_over (get_or 0 depths) (node_deps nodes key)"
      "\<not> js_gt (num (int depth)) limit"
    and released: "released = fold release (get_or [] deps key) (remaining, ready)"
  shows "loop_inv nodes limit (snd released) (fst released) (order @ [key]) (map_set key depth depths)"
proof -
  let ?ks = "get_or [] deps key"
  have canon: "canonical nodes order" and ready: "insert key (set ready) = available nodes order"
    and fresh: "key \<notin> set ready" "distinct ready" and srt: "sorted (key # ready)"
    and rem: "\<And>k. k \<in> node_keys nodes \<Longrightarrow> get_or 0 remaining k = int (unplaced nodes order k)"
    and dok: "depths_ok nodes limit order depths"
    using inv by (auto simp: loop_inv_def)
  have avail: "key \<in> available nodes order" using ready by blast
  then have key: "key \<in> node_keys nodes" "key \<notin> set order" "set (node_deps nodes key) \<subseteq> set order"
    by (auto simp: available_def)
  have least: "\<forall>k\<in>available nodes order. key \<le> k" using ready srt by (simp add: ready [symmetric])
  have count: "count_list ?ks k = count_list (node_deps nodes k) key" for k
    using graph key(1) unfolding graph_ok_def by blast
  have mem: "k \<in> set ?ks \<longleftrightarrow> key \<in> set (node_deps nodes k)" for k
    using count [of k] by (metis count_list_0_iff)
  have in_keys: "k \<in> node_keys nodes" if "k \<in> set ?ks" for k
    using that mem node_deps_outside [of k nodes] by force
  have un: "unplaced nodes order k = unplaced nodes (order @ [key]) k + count_list ?ks k" for k
    using unplaced_snoc [OF key(2)] by (simp add: count)
  have le: "\<forall>k\<in>set ?ks. int (count_list ?ks k) \<le> get_or 0 (fst (remaining, ready)) k"
    using in_keys rem un by simp
  have new: "set (snd released) = available nodes (order @ [key])"
  proof -
    have eq: "get_or 0 remaining k = int (count_list ?ks k) \<longleftrightarrow>
        set (node_deps nodes k) \<subseteq> insert key (set order)" if "k \<in> set ?ks" for k
      using rem [OF in_keys [OF that]] un [of k] unplaced_0 [of nodes "order @ [key]" k] by auto
    have out: "k \<notin> set order \<and> k \<noteq> key" if "k \<in> set ?ks" for k
      using that mem [of k] canonical_available [OF canon, of k] key(2,3) by auto
    have "set (snd released) = set ready \<union>
        {k \<in> set ?ks. get_or 0 remaining k = int (count_list ?ks k)}"
      using fold_release_ready [OF le] by (simp add: released)
    also have "\<dots> = available nodes (order @ [key])"
    proof (rule set_eqI)
      fix k
      have r: "k \<in> set ready \<longleftrightarrow> k \<in> available nodes order \<and> k \<noteq> key" using ready fresh(1) by auto
      show "k \<in> set ready \<union> {k \<in> set ?ks. get_or 0 remaining k = int (count_list ?ks k)} \<longleftrightarrow>
          k \<in> available nodes (order @ [key])"
        using r eq [of k] out [of k] in_keys [of k] mem [of k] by (auto simp: available_def)
    qed
    finally show ?thesis .
  qed
  have "k \<notin> set ready" if "k \<in> set ?ks" for k
    using that mem [of k] ready key(2) by (auto simp: available_def)
  then have dist: "distinct (snd released)"
    using fold_release_distinct [OF le] fresh by (simp add: released)
  have sorted: "sorted (snd released)"
    using fold_release_sorted [of "(remaining, ready)"] srt by (simp add: released)
  have rem': "get_or 0 (fst released) k = int (unplaced nodes (order @ [key]) k)"
    if "k \<in> node_keys nodes" for k
    using fold_release_count [of ?ks "(remaining, ready)" k] rem [OF that] un [of k]
    by (simp add: released)
  show ?thesis
    using new dist sorted rem' canon avail least depths_ok_snoc [OF dok canon key(2,3) depth]
    by (simp add: loop_inv_def canonical_snoc)
qed

text \<open>The evidence of a depth over the limit: the canonical order up to the key.\<close>

definition too_deep :: "workflow_node list \<Rightarrow> js_number \<Rightarrow> jstring \<Rightarrow> bool" where
  "too_deep nodes limit key \<longleftrightarrow>
     (\<exists>order depths. canonical nodes (order @ [key]) \<and> depths_ok nodes limit order depths \<and>
        js_gt (num (int (depth_over (get_or 0 depths) (node_deps nodes key)))) limit)"

text \<open>
  From the invariant the loop never meets an unknown key; it returns a canonical order that
  nothing can extend, with its depths, or stops at a depth over the limit.
\<close>

lemma order_loop_spec:
  "loop_inv nodes limit ready remaining order depths \<Longrightarrow> graph_ok nodes nodesByKey deps \<Longrightarrow>
   (case order_loop nodesByKey deps limit ready remaining order depths of
      Inr (order', depths') \<Rightarrow>
        canonical nodes order' \<and> available nodes order' = {} \<and> depths_ok nodes limit order' depths'
    | Inl e \<Rightarrow> \<exists>key. e = Compilation_failure Depth_limit_exceeded (Some key) \<and>
        too_deep nodes limit key)"
proof (induction nodesByKey deps limit ready remaining order depths rule: order_loop.induct)
  case (1 nodesByKey deps limit remaining orderedKeys depths)
  then show ?case by (simp add: loop_inv_def)
next
  case (2 nodesByKey deps limit key ready remaining order depths)
  let ?released = "fold release (get_or [] deps key) (remaining, ready)"
  have avail: "key \<in> available nodes order" using 2(2) by (auto simp: loop_inv_def)
  then have mem: "key \<in> node_keys nodes" "set (node_deps nodes key) \<subseteq> set order"
    by (auto simp: available_def)
  obtain node where node: "map_get nodesByKey key = Some node" "wn_dependsOn node = node_deps nodes key"
    using 2(3) mem(1) by (auto simp: graph_ok_def)
  have depth: "calculateDepth node depths = depth_over (get_or 0 depths) (node_deps nodes key)"
    using calculateDepth_over [of node depths] 2(2) mem(2) node(2)
    by (auto simp: loop_inv_def depths_ok_def)
  show ?case
  proof (cases "js_gt (num (int (calculateDepth node depths))) limit")
    case True
    have "canonical nodes (order @ [key])" "depths_ok nodes limit order depths"
      using 2(2) avail by (auto simp: loop_inv_def canonical_snoc)
    then have "too_deep nodes limit key" using True depth by (auto simp: too_deep_def)
    with True show ?thesis by (simp add: node Let_def)
  next
    case False
    have "loop_inv nodes limit (snd ?released) (fst ?released) (order @ [key])
        (map_set key (calculateDepth node depths) depths)"
      using loop_inv_step [OF 2(2,3) depth _ refl] False by simp
    then show ?thesis using 2(1) [OF node(1) refl False refl _ 2(3)] False
      by (simp add: node Let_def)
  qed
qed

end
