(* ===== verification/Workflow_Properties.thy ===== *)
theory Workflow_Properties
  imports Workflow_Order
begin

text \<open>
  What \<open>workflow-engine/src/compile-workflow.ts\<close> promises: a compiled workflow lists the
  nodes in the canonical dependency order with their depths, compilation fails as cyclic
  only when there is no order at all, and the order of the specification does not matter.
\<close>

section \<open>Dependency orders\<close>

text \<open>Any order of the keys in which every key follows its dependencies.\<close>

definition dependency_order :: "workflow_node list \<Rightarrow> jstring list \<Rightarrow> bool" where
  "dependency_order nodes order \<longleftrightarrow>
     distinct order \<and> set order = node_keys nodes \<and>
     (\<forall>i<length order. set (node_deps nodes (order ! i)) \<subseteq> set (take i order))"

lemma canonical_order:
  assumes "canonical nodes order" and "set order = node_keys nodes"
  shows "dependency_order nodes order"
  using assms canonical_distinct [OF assms(1)]
  by (auto simp: dependency_order_def canonical_def available_def)

text \<open>A canonical order that cannot be extended is complete, if any order exists.\<close>

lemma stuck_complete:
  assumes "dependency_order nodes ks" and "canonical nodes order" and "available nodes order = {}"
  shows "set order = node_keys nodes"
proof -
  have "ks ! i \<in> set order" if "i < length ks" for i
    using that
  proof (induction i rule: less_induct)
    case (less i)
    have "set (take i ks) \<subseteq> set order"
      using less by (auto simp: in_set_conv_nth)
    then have "set (node_deps nodes (ks ! i)) \<subseteq> set order"
      using assms(1) less.prems unfolding dependency_order_def by blast
    moreover have "ks ! i \<in> node_keys nodes"
      using assms(1) less.prems nth_mem [of i ks] by (simp add: dependency_order_def)
    ultimately show ?case using assms(3) by (auto simp: available_def)
  qed
  then have "set ks \<subseteq> set order" by (auto simp: in_set_conv_nth)
  then show ?thesis
    using assms(1) canonical_available [OF assms(2)] unfolding dependency_order_def by blast
qed


section \<open>Validation and the graph\<close>

lemma invalid_node_None:
  "invalid_node allowed m nodes = None \<longleftrightarrow>
   (\<forall>node\<in>set nodes. capabilityId (wn_capability node) \<in> set allowed \<and>
      (\<forall>d\<in>set (wn_dependsOn node). map_has m d))"
  by (induction nodes) (auto simp: find_None_iff)

lemma invalid_node_failure:
  "invalid_node allowed m nodes = Some e \<Longrightarrow>
   e \<noteq> Compiler_invariant_violated \<and> e \<noteq> Compilation_failure Cycle_detected None"
  by (induction nodes) (auto split: if_splits)

lemma validateNodes_Inr:
  "validateNodes spec allowed limit = Inr m \<longleftrightarrow>
   \<not> js_gt (num (int (length (ws_nodes spec)))) limit \<and> closed_nodes (ws_nodes spec) \<and>
   (\<forall>node\<in>set (ws_nodes spec). capabilityId (wn_capability node) \<in> set allowed) \<and>
   m = map_from (map (\<lambda>node. (wn_key node, node)) (ws_nodes spec))"
proof -
  let ?kvs = "map (\<lambda>node. (wn_key node, node)) (ws_nodes spec)"
  have size: "length (map_from ?kvs) = length (ws_nodes spec) \<longleftrightarrow> distinct (map wn_key (ws_nodes spec))"
    using map_from_size [of ?kvs] by (simp add: comp_def)
  have has: "map_has (map_from ?kvs) d \<longleftrightarrow> d \<in> node_keys (ws_nodes spec)" for d
    by (simp add: image_image)
  show ?thesis
    unfolding validateNodes_def Let_def size
    by (cases "invalid_node allowed (map_from ?kvs) (ws_nodes spec)")
      (use invalid_node_None [of allowed "map_from ?kvs" "ws_nodes spec"] in
        \<open>auto simp: image_image closed_nodes_def\<close>)
qed

lemma node_lookup:
  assumes "distinct (map wn_key nodes)" and "node \<in> set nodes"
  shows "map_get (map_from (map (\<lambda>node. (wn_key node, node)) nodes)) (wn_key node) = Some node"
  using assms by (simp add: map_get_from comp_def map_of_eq_Some_iff image_iff)

lemma graph_ok_build:
  assumes "closed_nodes (ws_nodes spec)"
  shows "graph_ok (ws_nodes spec) (map_from (map (\<lambda>node. (wn_key node, node)) (ws_nodes spec)))
    (wg_dependants (buildGraph spec))"
  using assms count_graph_dependants [of spec] node_lookup [of "ws_nodes spec"]
    node_deps_mem [of "ws_nodes spec"]
  by (auto simp: graph_ok_def closed_nodes_def)

lemma loop_inv_start:
  assumes "closed_nodes (ws_nodes spec)"
  shows "loop_inv (ws_nodes spec) limit
    (sort (map wn_key (filter (\<lambda>node. length (wn_dependsOn node) = 0) (ws_nodes spec))))
    (wg_remainingDependencies (buildGraph spec)) [] []"
proof -
  let ?nodes = "ws_nodes spec"
  have dist: "distinct (map wn_key ?nodes)" using assms by (simp add: closed_nodes_def)
  have deps: "node_deps ?nodes (wn_key n) = wn_dependsOn n" if "n \<in> set ?nodes" for n
    using node_deps_mem [OF dist that] .
  have rem: "get_or 0 (wg_remainingDependencies (buildGraph spec)) (wn_key n) =
      int (unplaced ?nodes [] (wn_key n))" if "n \<in> set ?nodes" for n
  proof -
    have "map_get (map_from (map (\<lambda>n. (wn_key n, int (length (wn_dependsOn n)))) ?nodes)) (wn_key n) =
        Some (int (length (wn_dependsOn n)))"
      using dist that by (subst map_get_from) (auto simp: comp_def map_of_eq_Some_iff image_iff)
    then show ?thesis by (simp add: buildGraph_def get_or_def unplaced_def deps that)
  qed
  have "distinct (map wn_key (filter (\<lambda>node. length (wn_dependsOn node) = 0) ?nodes))"
    using dist by (rule distinct_map_filter)
  moreover have "wn_key ` {n \<in> set ?nodes. wn_dependsOn n = []} = available ?nodes []"
    by (auto simp: available_def deps)
  ultimately show ?thesis
    using rem by (auto simp: loop_inv_def depths_ok_def js_map.get_empty)
qed


section \<open>The compiled nodes\<close>

definition compiled_from :: "workflow_node \<Rightarrow> nat \<Rightarrow> compiled_node" where
  "compiled_from node depth =
     \<lparr>cn_key = wn_key node, cn_capability = wn_capability node,
      cn_dependsOn = sort (wn_dependsOn node), cn_depth = depth, cn_humanGate = wn_humanGate node\<rparr>"

lemma toCompiledNodes_total:
  assumes "\<forall>key\<in>set keys. \<exists>node. map_get m key = Some node"
  shows "toCompiledNodes keys depths m =
    Inr (map (\<lambda>key. compiled_from (the (map_get m key)) (get_or 0 depths key)) keys)"
  using assms by (induction keys) (auto simp: compiled_from_def)

text \<open>The longest chain of dependencies below a key of an order.\<close>

definition orderGraph_result ::
  "workflow_node list \<Rightarrow> js_number \<Rightarrow> jstring list \<Rightarrow> (jstring, nat) js_map \<Rightarrow> bool" where
  "orderGraph_result nodes limit order depths \<longleftrightarrow>
     canonical nodes order \<and> set order = node_keys nodes \<and> depths_ok nodes limit order depths"

lemma canonical_length:
  assumes "canonical nodes order" and "distinct (map wn_key nodes)"
  shows "length order = length nodes \<longleftrightarrow> set order = node_keys nodes"
proof -
  have sub: "set order \<subseteq> node_keys nodes" using canonical_available [OF assms(1)] by blast
  have "length order = card (set order)" using canonical_distinct [OF assms(1)] by (simp add: distinct_card)
  moreover have "length nodes = card (node_keys nodes)"
    using assms(2) distinct_card by fastforce
  ultimately show ?thesis using card_subset_eq [OF _ sub] by auto
qed

lemma orderGraph_spec:
  assumes "closed_nodes (ws_nodes spec)"
    and "m = map_from (map (\<lambda>node. (wn_key node, node)) (ws_nodes spec))"
  shows "case orderGraph spec m (buildGraph spec) limit of
      Inr (order, depths) \<Rightarrow> orderGraph_result (ws_nodes spec) limit order depths
    | Inl e \<Rightarrow> (\<exists>key. e = Compilation_failure Depth_limit_exceeded (Some key) \<and>
          too_deep (ws_nodes spec) limit key) \<or>
        e = Compilation_failure Cycle_detected None \<and> \<not> (\<exists>ks. dependency_order (ws_nodes spec) ks)"
proof -
  have dist: "distinct (map wn_key (ws_nodes spec))" using assms(1) by (simp add: closed_nodes_def)
  note loop = order_loop_spec [OF loop_inv_start [OF assms(1)] graph_ok_build [OF assms(1)], of limit]
  show ?thesis
    using loop canonical_length [OF _ dist] stuck_complete
    unfolding orderGraph_def Let_def assms(2) orderGraph_result_def
    by (auto split: sum.splits prod.splits)
qed


section \<open>Compilation\<close>

lemma compileWorkflow_InrE:
  assumes "compileWorkflow input = Inr w"
  obtains order depths where "closed_nodes (ws_nodes (wi_spec input))"
    "orderGraph_result (ws_nodes (wi_spec input)) (maxDepth (wi_limits input)) order depths"
    "cw_nodes w = map (\<lambda>key. compiled_from
       (the (map_of (map (\<lambda>node. (wn_key node, node)) (ws_nodes (wi_spec input))) key))
       (get_or 0 depths key)) order"
proof -
  let ?nodes = "ws_nodes (wi_spec input)"
  let ?m = "map_from (map (\<lambda>node. (wn_key node, node)) ?nodes)"
  from assms obtain order depths compiled where
    valid: "validateNodes (wi_spec input) (wi_allowedCapabilities input) (maxNodes (wi_limits input)) = Inr ?m"
    and order: "orderGraph (wi_spec input) ?m (buildGraph (wi_spec input)) (maxDepth (wi_limits input)) =
      Inr (order, depths)"
    and compiled: "toCompiledNodes order depths ?m = Inr compiled" "cw_nodes w = compiled"
    by (auto simp: compileWorkflow_def Let_def validateNodes_Inr split: prod.splits)
  have closed: "closed_nodes ?nodes" using valid by (simp add: validateNodes_Inr)
  then have dist: "distinct (map wn_key ?nodes)" by (simp add: closed_nodes_def)
  have res: "orderGraph_result ?nodes (maxDepth (wi_limits input)) order depths"
    using orderGraph_spec [OF closed refl, of "maxDepth (wi_limits input)"] order by simp
  have get: "map_get ?m key = map_of (map (\<lambda>node. (wn_key node, node)) ?nodes) key" for key
    using dist by (simp add: map_get_from comp_def)
  have "\<forall>key\<in>set order. \<exists>node. map_get ?m key = Some node"
    using res node_lookup [OF dist] by (auto simp: orderGraph_result_def)
  from toCompiledNodes_total [OF this, of depths] compiled
  have "cw_nodes w = map (\<lambda>key. compiled_from (the (map_get ?m key)) (get_or 0 depths key)) order"
    by simp
  then show ?thesis using closed res by (intro that) (simp_all add: get)
qed

lemma map_of_node:
  "distinct (map wn_key nodes) \<Longrightarrow> node \<in> set nodes \<Longrightarrow>
   map_of (map (\<lambda>node. (wn_key node, node)) nodes) (wn_key node) = Some node"
  by (simp add: map_of_eq_Some_iff comp_def image_iff)

lemma compiled_keys:
  assumes "closed_nodes nodes" and "set order = node_keys nodes"
  shows "map cn_key (map (\<lambda>key. compiled_from
     (the (map_of (map (\<lambda>node. (wn_key node, node)) nodes) key)) (get_or 0 depths key)) order) = order"
proof -
  have dist: "distinct (map wn_key nodes)" using assms(1) by (simp add: closed_nodes_def)
  have "cn_key (compiled_from (the (map_of (map (\<lambda>node. (wn_key node, node)) nodes) key))
      (get_or 0 depths key)) = key" if "key \<in> set order" for key
    using that assms(2) by (auto simp: compiled_from_def map_of_node [OF dist])
  then show ?thesis by (simp add: comp_def map_idI)
qed

text \<open>Every compiled node comes after the nodes that it depends on.\<close>

lemma compiled_nodes_ordered:
  assumes "compileWorkflow input = Inr w"
  shows "distinct (map cn_key (cw_nodes w))"
    and "i < length (cw_nodes w) \<Longrightarrow>
      set (cn_dependsOn (cw_nodes w ! i)) \<subseteq> set (take i (map cn_key (cw_nodes w)))"
proof -
  let ?nodes = "ws_nodes (wi_spec input)"
  let ?node = "\<lambda>key. the (map_of (map (\<lambda>node. (wn_key node, node)) ?nodes) key)"
  obtain ks depths where closed: "closed_nodes ?nodes"
    and res: "orderGraph_result ?nodes (maxDepth (wi_limits input)) ks depths"
    and w: "cw_nodes w = map (\<lambda>key. compiled_from (?node key) (get_or 0 depths key)) ks"
    by (rule compileWorkflow_InrE [OF assms])
  have dist: "distinct (map wn_key ?nodes)" using closed by (simp add: closed_nodes_def)
  have canon: "canonical ?nodes ks" "set ks = node_keys ?nodes"
    using res by (simp_all add: orderGraph_result_def)
  have keys: "map cn_key (cw_nodes w) = ks" unfolding w by (rule compiled_keys [OF closed canon(2)])
  show "distinct (map cn_key (cw_nodes w))" using canonical_distinct [OF canon(1)] keys by simp
  assume "i < length (cw_nodes w)"
  then have i: "i < length ks" by (simp add: w)
  then have "ks ! i \<in> node_keys ?nodes" using canon(2) nth_mem [OF i] by simp
  then have "wn_dependsOn (?node (ks ! i)) = node_deps ?nodes (ks ! i)"
    by (auto simp: map_of_node [OF dist] node_deps_mem [OF dist])
  then show "set (cn_dependsOn (cw_nodes w ! i)) \<subseteq> set (take i (map cn_key (cw_nodes w)))"
    unfolding keys using i canon(1) by (simp add: w compiled_from_def canonical_def available_def)
qed

text \<open>
  C14. A compiled workflow contains every node of the specification once, with its
  capability, human gate and sorted dependencies; every node comes after all of its
  dependencies, and at each position stands the least key (by code units) that could.
\<close>

theorem compiled_order:
  assumes "compileWorkflow input = Inr w"
  defines "nodes \<equiv> ws_nodes (wi_spec input)" and "order \<equiv> map cn_key (cw_nodes w)"
  shows "dependency_order nodes order \<and>
    (\<forall>i<length order. \<forall>key\<in>available nodes (take i order). order ! i \<le> key) \<and>
    length (cw_nodes w) = length nodes \<and>
    (\<forall>node\<in>set nodes. \<exists>depth. compiled_from node depth \<in> set (cw_nodes w))"
proof (rule compileWorkflow_InrE [OF assms(1)])
  fix ks depths
  assume closed: "closed_nodes (ws_nodes (wi_spec input))"
    and res: "orderGraph_result (ws_nodes (wi_spec input)) (maxDepth (wi_limits input)) ks depths"
    and w: "cw_nodes w = map (\<lambda>key. compiled_from
       (the (map_of (map (\<lambda>node. (wn_key node, node)) (ws_nodes (wi_spec input))) key))
       (get_or 0 depths key)) ks"
  note closed = closed [folded nodes_def] and res = res [folded nodes_def] and w = w [folded nodes_def]
  have dist: "distinct (map wn_key nodes)" using closed by (simp add: closed_nodes_def)
  have canon: "canonical nodes ks" "set ks = node_keys nodes"
    using res by (simp_all add: orderGraph_result_def)
  have order: "order = ks" unfolding order_def w by (rule compiled_keys [OF closed canon(2)])
  have "compiled_from node (get_or 0 depths (wn_key node)) \<in> set (cw_nodes w)"
    if "node \<in> set nodes" for node
    unfolding w using that canon(2) map_of_node [OF dist that] by (auto simp: image_iff intro!: bexI)
  moreover have "length (cw_nodes w) = length nodes"
    using canonical_length [OF canon(1) dist] canon(2) by (simp add: w)
  ultimately show ?thesis
    using canonical_order [OF canon] canon(1) order by (auto simp: canonical_def)
qed


definition ex_node :: "string \<Rightarrow> string list \<Rightarrow> workflow_node" where
  "ex_node key deps =
     \<lparr>wn_key = lit key, wn_capability = \<lparr>capabilityId = lit ''cap'', capabilityVersion = lit ''1''\<rparr>,
      wn_dependsOn = map lit deps, wn_humanGate = None\<rparr>"

definition ex_compile :: "workflow_node list \<Rightarrow> compile_input" where
  "ex_compile nodes =
     \<lparr>wi_spec = \<lparr>ws_workflowSpecId = lit ''w'', ws_revision = lit ''1'', ws_contentHash = lit ''h'',
        ws_nodes = nodes\<rparr>,
      wi_allowedCapabilities = [lit ''cap''],
      wi_limits = \<lparr>maxNodes = num 10, maxDepth = num 5, maxFanOut = num 5\<rparr>,
      wi_compilerVersion = WORKFLOW_COMPILER_VERSION\<rparr>"

lemmas ex_compile_defs = ex_compile_def ex_node_def compileWorkflow_def validateNodes_def
  buildGraph_def graph_dependants_def add_dependant_def validateFanOut_def orderGraph_def
  release_def calculateDepth_def get_or_def map_get_def map_set_def map_has_def map_from_def Let_def
  lit_def

lemma ex_compiled:
  "\<exists>w. compileWorkflow (ex_compile [ex_node ''b'' [''a''], ex_node ''a'' []]) = Inr w \<and>
     map cn_key (cw_nodes w) = [lit ''a'', lit ''b''] \<and> map cn_depth (cw_nodes w) = [0, 1]"
  by (simp add: ex_compile_defs)


theorem compiled_order_witness:
  "\<exists>w. compileWorkflow (ex_compile [ex_node ''b'' [''a''], ex_node ''a'' []]) = Inr w \<and>
     dependency_order [ex_node ''b'' [''a''], ex_node ''a'' []] (map cn_key (cw_nodes w))"
proof -
  obtain w where w: "compileWorkflow (ex_compile [ex_node ''b'' [''a''], ex_node ''a'' []]) = Inr w"
    using ex_compiled by blast
  show ?thesis using compiled_order [OF w] w by (simp add: ex_compile_def)
qed


section \<open>Depths\<close>

lemma depth_over_snoc [simp]:
  "depth_over f (ds @ [d]) = max (depth_over f ds) (Suc (f d))" "depth_over f [] = 0"
  by (simp_all add: depth_over_def)

lemma depth_over_bound: "d \<in> set ds \<Longrightarrow> f d < depth_over f ds"
  by (induction ds rule: rev_induct) auto

lemma depth_over_attained: "depth_over f ds \<noteq> 0 \<Longrightarrow> \<exists>d\<in>set ds. depth_over f ds = Suc (f d)"
  by (induction ds rule: rev_induct) (auto simp: max_def split: if_splits)

text \<open>
  The depth of a compiled node is the length of its longest chain of dependencies: it
  exceeds the depth of each dependency, is one more than the depth of some dependency unless
  it is 0, and stays within the limit.
\<close>

lemma compiled_depths:
  assumes "compileWorkflow input = Inr w" and "c \<in> set (cw_nodes w)"
  shows "(\<forall>d\<in>set (cn_dependsOn c). \<exists>c'\<in>set (cw_nodes w). cn_key c' = d \<and> cn_depth c' < cn_depth c) \<and>
    (cn_depth c = 0 \<or>
       (\<exists>c'\<in>set (cw_nodes w). cn_key c' \<in> set (cn_dependsOn c) \<and> cn_depth c = Suc (cn_depth c'))) \<and>
    \<not> js_gt (num (int (cn_depth c))) (maxDepth (wi_limits input))"
proof (rule compileWorkflow_InrE [OF assms(1)])
  fix ks depths
  let ?nodes = "ws_nodes (wi_spec input)"
  let ?node = "\<lambda>key. the (map_of (map (\<lambda>node. (wn_key node, node)) ?nodes) key)"
  assume closed: "closed_nodes ?nodes"
    and res: "orderGraph_result ?nodes (maxDepth (wi_limits input)) ks depths"
    and w: "cw_nodes w = map (\<lambda>key. compiled_from (?node key) (get_or 0 depths key)) ks"
  have dist: "distinct (map wn_key ?nodes)" using closed by (simp add: closed_nodes_def)
  have ks: "set ks = node_keys ?nodes" and dok: "depths_ok ?nodes (maxDepth (wi_limits input)) ks depths"
    using res by (simp_all add: orderGraph_result_def)
  have node: "wn_key (?node k) = k \<and> wn_dependsOn (?node k) = node_deps ?nodes k" if "k \<in> set ks" for k
    using that ks by (auto simp: map_of_node [OF dist] node_deps_mem [OF dist])
  obtain k where k: "k \<in> set ks" "c = compiled_from (?node k) (get_or 0 depths k)"
    using assms(2) w by auto
  have c: "set (cn_dependsOn c) = set (node_deps ?nodes k)" "cn_depth c = get_or 0 depths k"
    using k node by (simp_all add: compiled_from_def)
  have eq: "get_or 0 depths k = depth_over (get_or 0 depths) (node_deps ?nodes k)"
    and limit: "\<not> js_gt (num (int (get_or 0 depths k))) (maxDepth (wi_limits input))"
    using dok k(1) unfolding depths_ok_def by blast+
  have deps: "set (node_deps ?nodes k) \<subseteq> set ks"
    using res canonical_available [of ?nodes ks k] k(1) by (simp add: orderGraph_result_def)
  have dep: "\<exists>c'\<in>set (cw_nodes w). cn_key c' = d \<and> cn_depth c' = get_or 0 depths d"
    if "d \<in> set (node_deps ?nodes k)" for d
    using that deps node [of d] unfolding w
    by (intro bexI [of _ "compiled_from (?node d) (get_or 0 depths d)"])
      (auto simp: compiled_from_def)
  have below: "get_or 0 depths d < get_or 0 depths k" if "d \<in> set (node_deps ?nodes k)" for d
    using depth_over_bound [OF that, of "get_or 0 depths"] eq by simp
  have "\<exists>d\<in>set (node_deps ?nodes k). get_or 0 depths k = Suc (get_or 0 depths d)"
    if "get_or 0 depths k \<noteq> 0"
    using that depth_over_attained [of "get_or 0 depths" "node_deps ?nodes k"] eq by simp
  then show ?thesis using c limit dep below by (metis)
qed

section \<open>Failures\<close>

text \<open>
  C20. The compiler always answers, never with its internal invariant violated: it succeeds
  only if a dependency order exists, and reports a cycle only if none does.
\<close>

theorem cycle_detection:
  "case compileWorkflow input of
     Inr w \<Rightarrow> \<exists>order. dependency_order (ws_nodes (wi_spec input)) order
   | Inl e \<Rightarrow> e \<noteq> Compiler_invariant_violated \<and>
       (e = Compilation_failure Cycle_detected None \<longrightarrow>
         \<not> (\<exists>order. dependency_order (ws_nodes (wi_spec input)) order))"
proof (cases "compileWorkflow input")
  case (Inr w)
  obtain ks depths where "orderGraph_result (ws_nodes (wi_spec input)) (maxDepth (wi_limits input)) ks depths"
    by (rule compileWorkflow_InrE [OF Inr])
  then have "dependency_order (ws_nodes (wi_spec input)) ks"
    by (simp add: orderGraph_result_def canonical_order)
  with Inr show ?thesis by auto
next
  case (Inl e)
  let ?nodes = "ws_nodes (wi_spec input)"
  let ?m = "map_from (map (\<lambda>node. (wn_key node, node)) ?nodes)"
  show ?thesis
  proof (cases "validateNodes (wi_spec input) (wi_allowedCapabilities input) (maxNodes (wi_limits input))")
    case v: (Inl e')
    then have "e' \<noteq> Compiler_invariant_violated \<and> e' \<noteq> Compilation_failure Cycle_detected None"
      using invalid_node_failure by (auto simp: validateNodes_def Let_def split: if_splits option.splits)
    with Inl v show ?thesis by (auto simp: compileWorkflow_def Let_def split: if_splits)
  next
    case v: (Inr m)
    then have closed: "closed_nodes ?nodes" and m: "m = ?m" by (simp_all add: validateNodes_Inr)
    have dist: "distinct (map wn_key ?nodes)" using closed by (simp add: closed_nodes_def)
    have no_throw: "toCompiledNodes ks depths ?m \<noteq> Inl x" if "set ks = node_keys ?nodes" for ks depths x
      using toCompiledNodes_total [of ks ?m depths] that node_lookup [OF dist] by force
    show ?thesis
      using orderGraph_spec [OF closed refl, of "maxDepth (wi_limits input)"] Inl v no_throw
      unfolding m compileWorkflow_def Let_def
      by (auto simp: validateFanOut_def and_then_eq_Inl orderGraph_result_def
          split: if_splits sum.splits option.splits)
  qed
qed


theorem cycle_detection_witness:
  "compileWorkflow (ex_compile [ex_node ''b'' [''a''], ex_node ''a'' [''b'']]) =
     Inl (Compilation_failure Cycle_detected None) \<and>
   \<not> (\<exists>order. dependency_order [ex_node ''b'' [''a''], ex_node ''a'' [''b'']] order)"
proof -
  have c: "compileWorkflow (ex_compile [ex_node ''b'' [''a''], ex_node ''a'' [''b'']]) =
      Inl (Compilation_failure Cycle_detected None)"
    by (simp add: ex_compile_defs)
  show ?thesis
    using cycle_detection [of "ex_compile [ex_node ''b'' [''a''], ex_node ''a'' [''b'']]"] c
    by (simp add: ex_compile_def)
qed


section \<open>The order of the specification\<close>

lemma node_deps_cong:
  assumes "distinct (map wn_key nodes)" and "distinct (map wn_key nodes')" and "set nodes = set nodes'"
  shows "node_deps nodes = node_deps nodes'"
proof
  fix key
  show "node_deps nodes key = node_deps nodes' key"
  proof (cases "key \<in> node_keys nodes")
    case True
    then show ?thesis using node_deps_mem [OF assms(1)] node_deps_mem [OF assms(2)] assms(3) by auto
  next
    case False
    then show ?thesis using assms(3) by (simp add: node_deps_outside)
  qed
qed

lemma canonical_cong:
  assumes "node_deps nodes = node_deps nodes'" and "set nodes = set nodes'"
  shows "canonical nodes = canonical nodes'"
  using assms by (auto simp: canonical_def available_def fun_eq_iff)

text \<open>The depths along a canonical order are determined.\<close>

lemma depths_unique:
  assumes "canonical nodes order"
    and "\<forall>key\<in>set order. f key = depth_over f (node_deps nodes key)"
    and "\<forall>key\<in>set order. g key = depth_over g (node_deps nodes key)"
  shows "\<forall>key\<in>set order. f key = g key"
  using assms
proof (induction order rule: rev_induct)
  case (snoc x xs)
  then have xs: "\<forall>key\<in>set xs. f key = g key" by (simp add: canonical_snoc)
  have "set (node_deps nodes x) \<subseteq> set xs" using snoc.prems(1) by (simp add: canonical_snoc available_def)
  then have "depth_over f (node_deps nodes x) = depth_over g (node_deps nodes x)"
    using xs by (intro depth_over_cong) auto
  then show ?case using xs snoc.prems(2,3) by simp
qed simp

lemma canonical_take: "canonical nodes order \<Longrightarrow> canonical nodes (take n order)"
  by (auto simp: canonical_def min_def)

lemma depths_okD:
  assumes "depths_ok nodes limit order depths" and "key \<in> set order"
  shows "get_or 0 depths key = depth_over (get_or 0 depths) (node_deps nodes key)"
    and "\<not> js_gt (num (int (get_or 0 depths key))) limit"
  using assms unfolding depths_ok_def by blast+

lemma results_depths:
  assumes "orderGraph_result nodes limit order depths" and "orderGraph_result nodes limit order depths'"
  shows "\<forall>key\<in>set order. get_or 0 depths key = get_or 0 depths' key"
proof -
  have "depths_ok nodes limit order depths" "depths_ok nodes limit order depths'" "canonical nodes order"
    using assms unfolding orderGraph_result_def by blast+
  note ok = this
  show ?thesis
  proof (rule depths_unique [OF ok(3)])
    show "\<forall>key\<in>set order. get_or 0 depths key = depth_over (get_or 0 depths) (node_deps nodes key)"
      by (intro ballI depths_okD(1) [OF ok(1)])
    show "\<forall>key\<in>set order. get_or 0 depths' key = depth_over (get_or 0 depths') (node_deps nodes key)"
      by (intro ballI depths_okD(1) [OF ok(2)])
  qed
qed

text \<open>No canonical order runs into a depth over the limit beside one that is complete.\<close>

lemma result_not_too_deep:
  assumes "orderGraph_result nodes limit order depths"
  shows "\<not> too_deep nodes limit key"
proof
  assume "too_deep nodes limit key"
  then obtain ks ds where ks: "canonical nodes (ks @ [key])" "depths_ok nodes limit ks ds"
    "js_gt (num (int (depth_over (get_or 0 ds) (node_deps nodes key)))) limit"
    by (auto simp: too_deep_def)
  have canon: "canonical nodes order" and complete: "set order = node_keys nodes"
    and dok: "depths_ok nodes limit order depths"
    using assms by (simp_all add: orderGraph_result_def)
  have "set (ks @ [key]) \<subseteq> set order" using canonical_available [OF ks(1)] complete by blast
  then have "card (set (ks @ [key])) \<le> card (set order)" by (intro card_mono) simp_all
  then have len: "length (ks @ [key]) \<le> length order"
    using canonical_distinct [OF ks(1)] canonical_distinct [OF canon]
    by (simp only: distinct_card)
  have prefix: "take (length (ks @ [key])) order = ks @ [key]"
    using canonical_unique [OF canonical_take [OF canon] ks(1)] len by simp
  have mem: "key \<in> set order" "set ks \<subseteq> set order"
    using \<open>set (ks @ [key]) \<subseteq> set order\<close> by auto
  have canon_ks: "canonical nodes ks" and deps: "set (node_deps nodes key) \<subseteq> set ks"
    using ks(1) by (auto simp: canonical_snoc available_def)
  have "\<forall>k\<in>set ks. get_or 0 ds k = get_or 0 depths k"
  proof (rule depths_unique [OF canon_ks])
    show "\<forall>k\<in>set ks. get_or 0 ds k = depth_over (get_or 0 ds) (node_deps nodes k)"
      by (intro ballI depths_okD(1) [OF ks(2)])
    show "\<forall>k\<in>set ks. get_or 0 depths k = depth_over (get_or 0 depths) (node_deps nodes k)"
      by (intro ballI depths_okD(1) [OF dok]) (use mem(2) in blast)
  qed
  then have "depth_over (get_or 0 ds) (node_deps nodes key) = depth_over (get_or 0 depths) (node_deps nodes key)"
    using deps by (intro depth_over_cong) auto
  also have "\<dots> = get_or 0 depths key" by (rule depths_okD(1) [OF dok mem(1), symmetric])
  finally show False using ks(3) depths_okD(2) [OF dok mem(1)] by argo
qed


lemma fold_add_dependant_keys:
  "set (map_keys (fold (add_dependant key) ds m)) = set ds \<union> set (map_keys m)"
  "distinct (map_keys m) \<Longrightarrow> distinct (map_keys (fold (add_dependant key) ds m))"
  by (induction ds arbitrary: m)
    (auto simp: add_dependant_def js_map.set_keys_put js_map.distinct_keys_put)

lemma graph_dependants_keys:
  "set (map_keys (graph_dependants nodes)) = (\<Union>node\<in>set nodes. set (wn_dependsOn node)) \<and>
   distinct (map_keys (graph_dependants nodes))"
proof -
  have "set (map_keys (fold (\<lambda>node. fold (add_dependant (wn_key node)) (wn_dependsOn node)) nodes m)) =
      (\<Union>node\<in>set nodes. set (wn_dependsOn node)) \<union> set (map_keys m) \<and>
    (distinct (map_keys m) \<longrightarrow>
      distinct (map_keys (fold (\<lambda>node. fold (add_dependant (wn_key node)) (wn_dependsOn node)) nodes m)))"
    for m
    by (induction nodes arbitrary: m) (auto simp: fold_add_dependant_keys)
  from this [of "[]"] show ?thesis by (simp add: graph_dependants_def js_map.keys_empty)
qed

text \<open>How many dependants a key has.\<close>

definition fan_out :: "workflow_node list \<Rightarrow> jstring \<Rightarrow> nat" where
  "fan_out nodes d = (\<Sum>node\<leftarrow>nodes. count_list (wn_dependsOn node) d)"

lemma graph_dependants_length: "length (get_or [] (graph_dependants nodes) d) = fan_out nodes d"
  by (simp add: graph_dependants_def fold_dependants length_concat comp_def fan_out_def)

lemma entry_get_or:
  "distinct (map_keys m) \<Longrightarrow> (k, e) \<in> set m \<Longrightarrow> get_or d m k = e"
  by (simp add: get_or_def map_get_def map_keys_def map_of_eq_Some_iff [THEN iffD2])

lemma validateFanOut_entries:
  "validateFanOut m limit = Inr u \<longleftrightarrow> (\<forall>entry\<in>set m. \<not> js_gt (num (int (length (snd entry)))) limit)"
  by (induction m) (auto simp: validateFanOut_def)

lemma validateFanOut_iff:
  "validateFanOut (wg_dependants (buildGraph spec)) limit = Inr u \<longleftrightarrow>
   (\<forall>node\<in>set (ws_nodes spec). \<forall>d\<in>set (wn_dependsOn node).
      \<not> js_gt (num (int (fan_out (ws_nodes spec) d))) limit)"
proof -
  let ?m = "graph_dependants (ws_nodes spec)"
  have dist: "distinct (map_keys ?m)" using graph_dependants_keys by blast
  have "validateFanOut (wg_dependants (buildGraph spec)) limit = Inr u \<longleftrightarrow>
      (\<forall>(k, e)\<in>set ?m. \<not> js_gt (num (int (length e))) limit)"
    by (simp add: validateFanOut_entries buildGraph_def case_prod_beta)
  also have "\<dots> \<longleftrightarrow> (\<forall>k\<in>set (map_keys ?m). \<not> js_gt (num (int (length (get_or [] ?m k)))) limit)"
    using entry_get_or [OF dist] by (force simp: map_keys_def)
  finally show ?thesis using graph_dependants_keys [of "ws_nodes spec"]
    by (simp add: graph_dependants_length)
qed

lemma fan_out_cong:
  "distinct nodes \<Longrightarrow> distinct nodes' \<Longrightarrow> set nodes = set nodes' \<Longrightarrow> fan_out nodes = fan_out nodes'"
  by (simp add: fan_out_def fun_eq_iff sum_list_distinct_conv_sum_set)

lemma map_of_nodes_cong:
  assumes "distinct (map wn_key nodes)" and "distinct (map wn_key nodes')" and "set nodes = set nodes'"
  shows "map_of (map (\<lambda>node. (wn_key node, node)) nodes) = map_of (map (\<lambda>node. (wn_key node, node)) nodes')"
  using assms by (intro map_of_eqI) (auto simp: comp_def map_of_node image_image)

text \<open>
  C21. The result does not depend on the order in which the nodes are written: if a
  specification compiles, every rearrangement of its nodes compiles to the same workflow.
\<close>

theorem compilation_ignores_node_order:
  assumes "compileWorkflow input = Inr w"
    and "set nodes' = set (ws_nodes (wi_spec input))" and "length nodes' = length (ws_nodes (wi_spec input))"
  shows "compileWorkflow (input\<lparr>wi_spec := (wi_spec input)\<lparr>ws_nodes := nodes'\<rparr>\<rparr>) = Inr w"
proof -
  let ?nodes = "ws_nodes (wi_spec input)"
  let ?spec' = "(wi_spec input)\<lparr>ws_nodes := nodes'\<rparr>"
  let ?m = "\<lambda>nodes. map_from (map (\<lambda>node. (wn_key node, node)) nodes)"
  let ?limit = "maxDepth (wi_limits input)"
  from assms(1) obtain order depths where
    version: "wi_compilerVersion input = WORKFLOW_COMPILER_VERSION" and
    valid: "validateNodes (wi_spec input) (wi_allowedCapabilities input) (maxNodes (wi_limits input)) = Inr (?m ?nodes)"
    and fan: "validateFanOut (wg_dependants (buildGraph (wi_spec input))) (maxFanOut (wi_limits input)) = Inr ()"
    and order: "orderGraph (wi_spec input) (?m ?nodes) (buildGraph (wi_spec input)) ?limit = Inr (order, depths)"
    by (auto simp: compileWorkflow_def Let_def validateNodes_Inr split: prod.splits)
  have closed: "closed_nodes ?nodes" using valid by (simp add: validateNodes_Inr)
  then have dist: "distinct (map wn_key ?nodes)" by (simp add: closed_nodes_def)
  then have dn: "distinct ?nodes" by (simp add: distinct_map)
  have "card (set nodes') = length nodes'" using assms(2,3) dn by (simp add: distinct_card)
  then have dn': "distinct nodes'" by (rule card_distinct)
  then have dist': "distinct (map wn_key nodes')" using dist assms(2) by (simp add: distinct_map)
  then have closed': "closed_nodes nodes'" using closed assms(2) by (simp add: closed_nodes_def)
  have res: "orderGraph_result ?nodes ?limit order depths"
    using orderGraph_spec [OF closed refl, of ?limit] order by simp
  have deps: "node_deps nodes' = node_deps ?nodes" by (rule node_deps_cong [OF dist' dist assms(2)])
  have canon: "canonical nodes' = canonical ?nodes" by (rule canonical_cong [OF deps assms(2)])
  have same: "orderGraph_result nodes' = orderGraph_result ?nodes" "too_deep nodes' = too_deep ?nodes"
    "dependency_order nodes' = dependency_order ?nodes"
    by (simp_all add: fun_eq_iff orderGraph_result_def too_deep_def depths_ok_def dependency_order_def
        canon deps assms(2))
  have valid': "validateNodes ?spec' (wi_allowedCapabilities input) (maxNodes (wi_limits input)) = Inr (?m nodes')"
    using valid closed' assms(2,3) by (simp add: validateNodes_Inr)
  have fan': "validateFanOut (wg_dependants (buildGraph ?spec')) (maxFanOut (wi_limits input)) = Inr ()"
    using fan assms(2) fan_out_cong [OF dn' dn assms(2)] by (simp add: validateFanOut_iff)
  have "dependency_order ?nodes order"
    using res canonical_order by (simp add: orderGraph_result_def)
  then obtain order' depths' where order':
    "orderGraph ?spec' (?m nodes') (buildGraph ?spec') ?limit = Inr (order', depths')"
    and res': "orderGraph_result ?nodes ?limit order' depths'"
    using orderGraph_spec [of ?spec' "?m nodes'" ?limit] closed' same result_not_too_deep [OF res]
    by (auto split: sum.splits)
  have len: "length ks = length ?nodes" if "orderGraph_result ?nodes ?limit ks ds" for ks ds
    using that canonical_length [of ?nodes ks, OF _ dist] by (simp add: orderGraph_result_def)
  have eq: "order' = order"
    using res res' len [OF res] len [OF res']
    by (intro canonical_unique [of ?nodes]) (simp_all add: orderGraph_result_def)
  have "\<forall>key\<in>set order. get_or 0 depths' key = get_or 0 depths key"
    by (rule results_depths [OF res' [unfolded eq] res])
  moreover have get: "map_get (?m nodes') key = map_get (?m ?nodes) key" for key
    using map_of_nodes_cong [OF dist' dist assms(2)] dist dist' by (simp add: map_get_from comp_def)
  moreover have "\<forall>key\<in>set order. \<exists>node. map_get (?m ?nodes) key = Some node"
    using res node_lookup [OF dist] by (auto simp: orderGraph_result_def)
  ultimately have "toCompiledNodes order depths' (?m nodes') = toCompiledNodes order depths (?m ?nodes)"
    by (simp add: toCompiledNodes_total)
  then show ?thesis
    using assms(1) version valid valid' fan fan' order order' eq
    by (simp add: compileWorkflow_def Let_def)
qed

theorem compilation_ignores_node_order_witness:
  "\<exists>w. compileWorkflow (ex_compile [ex_node ''b'' [''a''], ex_node ''a'' []]) = Inr w \<and>
     compileWorkflow (ex_compile [ex_node ''a'' [], ex_node ''b'' [''a'']]) = Inr w"
proof -
  obtain w where w: "compileWorkflow (ex_compile [ex_node ''b'' [''a''], ex_node ''a'' []]) = Inr w"
    using ex_compiled by blast
  have "compileWorkflow ((ex_compile [ex_node ''b'' [''a''], ex_node ''a'' []])
      \<lparr>wi_spec := (wi_spec (ex_compile [ex_node ''b'' [''a''], ex_node ''a'' []]))
        \<lparr>ws_nodes := [ex_node ''a'' [], ex_node ''b'' [''a'']]\<rparr>\<rparr>) = Inr w"
    by (rule compilation_ignores_node_order [OF w]) (auto simp: ex_compile_def)
  then show ?thesis using w by (auto simp: ex_compile_def)
qed

end
