(* ===== verification/Convergence.thy ===== *)
theory Convergence
  imports Run_Properties Workflow_Properties
begin

text \<open>
  How \<open>kernel/src/result-manifest.ts\<close> fits its neighbours: what a converged run proves about
  its steps and attempts, and that the run accepts the manifest of its own convergence, for
  workflows that the compiler made.
\<close>

section \<open>The step phase\<close>

lemma sameTextArray_iff [simp]: "sameTextArray xs ys \<longleftrightarrow> xs = ys"
  by (auto simp: sameTextArray_def list_all_iff intro: nth_equalityI)

lemma order_steps_Some:
  "order_steps m nodes = Some steps \<Longrightarrow>
   length steps = length nodes \<and> (\<forall>i<length nodes. map_get m (cn_key (nodes ! i)) = Some (steps ! i))"
proof (induction nodes arbitrary: steps)
  case (Cons node nodes)
  then show ?case by (auto split: option.splits simp: nth_Cons split: nat.splits)
qed simp

text \<open>What the step phase proves when it does not decide.\<close>

definition steps_of :: "convergence_input \<Rightarrow> (jstring, step_run) js_map" where
  "steps_of input = map_from (map (\<lambda>s. (sr_nodeKey s, s)) (ec_stepRuns input))"

lemma evaluateStep_ProofE:
  assumes "evaluateStepConvergenceProof input = Inr (Proof p)"
  obtains "st_stepsByNodeKey p = steps_of input"
    "length (st_orderedSteps p) = length (plan_nodes input)"
    "\<And>i. i < length (plan_nodes input) \<Longrightarrow>
       map_get (steps_of input) (cn_key (plan_nodes input ! i)) = Some (st_orderedSteps p ! i)"
    "distinct (map sr_nodeKey (ec_stepRuns input))"
    "\<And>s. s \<in> set (ec_stepRuns input) \<Longrightarrow> stepIdentityIsValid input s \<and>
       sr_state s \<in> {S_succeeded, S_failed, S_skipped} \<and> attemptsAreCoherent s \<and>
       (sr_state s = S_skipped \<longrightarrow> blockedBy s (steps_of input) \<noteq> [])"
proof -
  let ?m = "map_from (map (\<lambda>s. (sr_nodeKey s, s)) (ec_stepRuns input))"
  have size: "length ?m = length (ec_stepRuns input) \<longleftrightarrow> distinct (map sr_nodeKey (ec_stepRuns input))"
    using map_from_size [of "map (\<lambda>s. (sr_nodeKey s, s)) (ec_stepRuns input)"] by (simp add: comp_def)
  obtain steps where steps: "order_steps ?m (plan_nodes input) = Some steps"
    "p = \<lparr>st_orderedSteps = steps, st_stepsByNodeKey = ?m\<rparr>"
    using assms unfolding evaluateStepConvergenceProof_def Let_def
    by (auto split: if_splits option.splits)
  show ?thesis
    using assms steps order_steps_Some [OF steps(1)] that
    unfolding evaluateStepConvergenceProof_def Let_def size steps_of_def
    by (auto split: if_splits simp: list_ex_iff terminalStepStates_def)
qed

lemma ordered_step_mem:
  assumes "evaluateStepConvergenceProof input = Inr (Proof p)" and "i < length (plan_nodes input)"
  shows "st_orderedSteps p ! i \<in> set (ec_stepRuns input)"
    and "sr_nodeKey (st_orderedSteps p ! i) = cn_key (plan_nodes input ! i)"
proof -
  have "map_get (steps_of input) (cn_key (plan_nodes input ! i)) = Some (st_orderedSteps p ! i)"
    and dist: "distinct (map sr_nodeKey (ec_stepRuns input))"
    using evaluateStep_ProofE [OF assms(1)] assms(2) by metis+
  then have "map_of (map (\<lambda>s. (sr_nodeKey s, s)) (ec_stepRuns input)) (cn_key (plan_nodes input ! i)) =
      Some (st_orderedSteps p ! i)"
    by (simp add: steps_of_def map_get_from comp_def)
  from map_of_SomeD [OF this] show "st_orderedSteps p ! i \<in> set (ec_stepRuns input)"
    and "sr_nodeKey (st_orderedSteps p ! i) = cn_key (plan_nodes input ! i)" by auto
qed

text \<open>
  In an ordered workflow without a failed step nothing can be skipped: a skipped step is
  blocked by an earlier one.
\<close>

lemma unfailed_steps_succeed:
  assumes pf: "evaluateStepConvergenceProof input = Inr (Proof p)"
    and dist: "distinct (map cn_key (plan_nodes input))"
    and order: "\<And>i. i < length (plan_nodes input) \<Longrightarrow>
      set (cn_dependsOn (plan_nodes input ! i)) \<subseteq> set (take i (map cn_key (plan_nodes input)))"
    and unfailed: "\<forall>s\<in>set (st_orderedSteps p). sr_state s \<noteq> S_failed"
    and "i < length (plan_nodes input)"
  shows "sr_state (st_orderedSteps p ! i) = S_succeeded"
  using assms(5)
proof (induction i rule: less_induct)
  case (less i)
  let ?s = "st_orderedSteps p ! i" and ?node = "plan_nodes input ! i"
  have len: "length (st_orderedSteps p) = length (plan_nodes input)"
    and get: "\<And>j. j < length (plan_nodes input) \<Longrightarrow>
       map_get (steps_of input) (cn_key (plan_nodes input ! j)) = Some (st_orderedSteps p ! j)"
    using evaluateStep_ProofE [OF pf] by metis+
  have s: "?s \<in> set (ec_stepRuns input)" "sr_nodeKey ?s = cn_key ?node"
    using ordered_step_mem [OF pf less.prems] by simp_all
  have valid: "stepIdentityIsValid input ?s" "sr_state ?s \<in> {S_succeeded, S_failed, S_skipped}"
    "sr_state ?s = S_skipped \<Longrightarrow> blockedBy ?s (steps_of input) \<noteq> []"
    using evaluateStep_ProofE [OF pf] s(1) by metis+
  have "List.find (\<lambda>c. cn_key c = cn_key ?node) (plan_nodes input) = Some ?node"
    using less.prems by (intro find_distinct_key [OF dist]) simp
  then have deps: "sr_dependsOn ?s = cn_dependsOn ?node"
    using valid(1) s(2) by (simp add: stepIdentityIsValid_def)
  have "sr_state ?s \<noteq> S_skipped"
  proof
    assume "sr_state ?s = S_skipped"
    then obtain d where d: "d \<in> set (cn_dependsOn ?node)"
      "map_option sr_state (map_get (steps_of input) d) \<in> {Some S_failed, Some S_skipped}"
      using valid(3) deps by (auto simp: blockedBy_def filter_empty_conv)
    then have "d \<in> set (take i (map cn_key (plan_nodes input)))" using order [OF less.prems] by blast
    then obtain j where j: "j < i" "d = cn_key (plan_nodes input ! j)"
      using less.prems by (auto simp: in_set_conv_nth)
    then have "sr_state (st_orderedSteps p ! j) = S_succeeded" using less by simp
    then show False using d(2) get [of j] j less.prems by simp
  qed
  moreover have "sr_state ?s \<noteq> S_failed" using unfailed len less.prems by simp
  ultimately show ?case using valid(2) by simp
qed


section \<open>The settlement phase\<close>

lemma order_settlements_ids:
  assumes "\<And>k r. map_get m k = Some r \<Longrightarrow> cr_attemptId (reservation_base r) = k"
  shows "order_settlements m attempts = Some settlements \<Longrightarrow>
    map ms_attemptId settlements = map at_attemptId attempts"
proof (induction attempts arbitrary: settlements)
  case (Cons a attempts)
  then obtain r s rest where r: "map_get m (at_attemptId a) = Some r" "toSettlement r = Some s"
    "settlements = s # rest" "order_settlements m attempts = Some rest"
    by (auto split: option.splits bind_splits)
  moreover have "ms_attemptId s = cr_attemptId (reservation_base r)" using r(2) by (cases r) auto
  ultimately show ?case using Cons.IH assms by auto
qed simp

lemma evaluateSettlement_ProofD:
  assumes "evaluateSettlementConvergenceProof input steps = Inr (Proof settlements)"
  shows "map ms_attemptId settlements = map at_attemptId (concat (map sr_attempts steps)) \<and>
    amountsEqual (mc_spent (ec_cost input))
      (js_add (bl_spent (pl_budget (ec_plan input))) (settled_total settlements)) \<and>
    (\<forall>r\<in>set (ec_reservations input). \<not> is_reserved r)"
proof -
  let ?kvs = "map (\<lambda>r. (cr_attemptId (reservation_base r), r)) (ec_reservations input)"
  from assms have dist: "length (map_from ?kvs) = length (ec_reservations input)"
    and s: "order_settlements (map_from ?kvs) (concat (map sr_attempts steps)) = Some settlements"
    and rest: "amountsEqual (mc_spent (ec_cost input))
        (js_add (bl_spent (pl_budget (ec_plan input))) (settled_total settlements))"
      "\<not> list_ex is_reserved (ec_reservations input)"
    unfolding evaluateSettlementConvergenceProof_def Let_def
    by (auto split: if_splits option.splits)
  have "distinct (map fst ?kvs)" using dist map_from_size [of ?kvs] by simp
  then have "cr_attemptId (reservation_base r) = k" if "map_get (map_from ?kvs) k = Some r" for k r
    using that by (auto simp: map_get_from dest!: map_of_SomeD)
  from order_settlements_ids [OF this s] rest show ?thesis by (auto simp: list_ex_iff)
qed


section \<open>The decision\<close>

lemma after_phase_Inr:
  "after_phase r k = Inr d \<longleftrightarrow> r = Inr (Decision d) \<or> (\<exists>v. r = Inr (Proof v) \<and> k v = Inr d)"
  by (cases "(r, k)" rule: after_phase.cases) auto

text \<open>The phases decide only that a run is not ready.\<close>

lemma step_phase_Decision:
  "evaluateStepConvergenceProof input = Inr (Decision d) \<Longrightarrow> \<exists>reason. d = Not_ready reason"
  by (auto simp: evaluateStepConvergenceProof_def Let_def split: if_splits option.splits)

lemma settlement_phase_Decision:
  "evaluateSettlementConvergenceProof input steps = Inr (Decision d) \<Longrightarrow> \<exists>reason. d = Not_ready reason"
  by (auto simp: evaluateSettlementConvergenceProof_def Let_def split: if_splits option.splits)

text \<open>The manifest that a decision carries.\<close>

fun decided_body :: "convergence_decision \<Rightarrow> result_manifest_body option" where
  "decided_body (Not_ready _) = None"
| "decided_body (Completed_with body) = Some body"
| "decided_body (Failed_with body) = Some body"

lemma evaluate_output_CompletedE:
  assumes "evaluate_output input p settlements = Inr (Completed_with body)"
  obtains node s out where "node \<in> set (plan_nodes input)"
    "map_get (st_stepsByNodeKey p) (cn_key node) = Some s"
    "Option.bind (last_opt (sr_attempts s)) at_output = Some out"
    "vo_contract out = pl_outputContract (ec_plan input)" "\<not> blank (vo_validatorVersion out)"
    "body = manifest_body input p settlements C_completed (Accepted out) RC_complete"
proof -
  obtain node where sink: "sink_nodes (plan_nodes input) = [node]"
    using assms by (auto simp: evaluate_output_def Let_def length_Suc_conv split: if_splits)
  then have "node \<in> set (sink_nodes (plan_nodes input))" by simp
  then have "node \<in> set (plan_nodes input)" by (simp add: sink_nodes_def)
  with assms sink that show ?thesis
    by (auto simp: evaluate_output_def Let_def artifactMatchesOutput_def
        split: option.splits if_splits)
qed

lemma evaluate_output_not_failed: "evaluate_output input p settlements \<noteq> Inr (Failed_with body)"
  by (auto simp: evaluate_output_def Let_def split: option.splits if_splits)

lemma decided_phases:
  assumes "evaluateRunConvergence input = Inr d" and "decided_body d = Some body"
  obtains p settlements where "evaluateStepConvergenceProof input = Inr (Proof p)"
    "evaluateSettlementConvergenceProof input (st_orderedSteps p) = Inr (Proof settlements)"
    "if \<exists>s\<in>set (st_orderedSteps p). sr_state s = S_failed
     then d = Failed_with (manifest_body input p settlements C_failed (Missing Run_failed) RC_none)
     else evaluate_output input p settlements = Inr d"
    "\<exists>c out k. body = manifest_body input p settlements c out k"
proof -
  obtain p settlements where ps: "evaluateStepConvergenceProof input = Inr (Proof p)"
    "evaluateSettlementConvergenceProof input (st_orderedSteps p) = Inr (Proof settlements)"
    "if \<exists>s\<in>set (st_orderedSteps p). sr_state s = S_failed
     then d = Failed_with (manifest_body input p settlements C_failed (Missing Run_failed) RC_none)
     else evaluate_output input p settlements = Inr d"
    using assms step_phase_Decision settlement_phase_Decision unfolding evaluateRunConvergence_def
    by (force simp: after_phase_Inr list_ex_iff split: if_splits)
  then have "\<exists>c out k. body = manifest_body input p settlements c out k"
    using assms(2) by (cases d)
      (auto split: if_splits elim!: evaluate_output_CompletedE simp: evaluate_output_not_failed)
  with ps that show ?thesis by blast
qed

lemma failed_phases:
  assumes "evaluateRunConvergence input = Inr (Failed_with body)"
  obtains p settlements where
    "body = manifest_body input p settlements C_failed (Missing Run_failed) RC_none"
    "\<exists>s\<in>set (st_orderedSteps p). sr_state s = S_failed"
proof (rule decided_phases [OF assms, of body])
  fix p settlements
  assume "if \<exists>s\<in>set (st_orderedSteps p). sr_state s = S_failed
    then Failed_with body =
      Failed_with (manifest_body input p settlements C_failed (Missing Run_failed) RC_none)
    else evaluate_output input p settlements = Inr (Failed_with body)"
  then have "\<exists>s\<in>set (st_orderedSteps p). sr_state s = S_failed"
    "body = manifest_body input p settlements C_failed (Missing Run_failed) RC_none"
    by (simp_all add: evaluate_output_not_failed split: if_splits)
  then show thesis by (intro that)
qed simp

lemma matched_attempt:
  "reservationMatchesAttempt input s r \<Longrightarrow> cr_attemptId (reservation_base r) \<in> at_attemptId ` set (sr_attempts s)"
  by (auto simp: reservationMatchesAttempt_def Let_def image_iff split: option.splits dest!: find_Some_mem)
    metis

text \<open>Every reservation is of one attempt, and every attempt has one.\<close>

lemma evaluateSettlement_attempts:
  assumes "evaluateSettlementConvergenceProof input steps = Inr (Proof settlements)"
  shows "distinct (map at_attemptId (concat (map sr_attempts steps)))"
    "set (map (\<lambda>r. cr_attemptId (reservation_base r)) (ec_reservations input)) =
      set (map at_attemptId (concat (map sr_attempts steps)))"
proof -
  let ?keys = "map (\<lambda>r. cr_attemptId (reservation_base r)) (ec_reservations input)"
  let ?ids = "map at_attemptId (concat (map sr_attempts steps))"
  let ?m = "map_from (map (\<lambda>r. (cr_attemptId (reservation_base r), r)) (ec_reservations input))"
  have size: "length ?m = length (ec_reservations input)" "length ?m = length (concat (map sr_attempts steps))"
    and matched: "\<And>r. r \<in> set (ec_reservations input) \<Longrightarrow>
      \<exists>s. List.find (\<lambda>candidate. sr_stepRunId candidate = cr_stepRunId (reservation_base r)) steps = Some s \<and>
        reservationMatchesAttempt input s r"
    using assms unfolding evaluateSettlementConvergenceProof_def Let_def
    by (auto simp: list_ex_iff split: if_splits option.splits)
  have "distinct ?keys"
    using size(1) map_from_size [of "map (\<lambda>r. (cr_attemptId (reservation_base r), r)) (ec_reservations input)"]
    by (simp add: comp_def)
  then have card: "card (set ?keys) = length ?ids"
    using size distinct_card [of ?keys] by simp
  have sub: "set ?keys \<subseteq> set ?ids"
    using matched matched_attempt by (fastforce dest: find_Some_mem)
  have le: "card (set ?keys) \<le> card (set ?ids)" by (intro card_mono sub) simp
  then show "distinct ?ids" using card card_length [of ?ids] by (intro card_distinct) simp
  show "set ?keys = set ?ids"
    using card card_length [of ?ids] le by (intro card_subset_eq sub) simp_all
qed

lemma ordered_step_set:
  assumes "evaluateStepConvergenceProof input = Inr (Proof p)"
  shows "set (st_orderedSteps p) = set (ec_stepRuns input)"
proof -
  have len: "length (st_orderedSteps p) = length (plan_nodes input)"
    and get: "\<And>i. i < length (plan_nodes input) \<Longrightarrow>
      map_get (steps_of input) (cn_key (plan_nodes input ! i)) = Some (st_orderedSteps p ! i)"
    and dist: "distinct (map sr_nodeKey (ec_stepRuns input))"
    using evaluateStep_ProofE [OF assms] by metis+
  have "s \<in> set (st_orderedSteps p)" if s: "s \<in> set (ec_stepRuns input)" for s
  proof -
    have "sr_nodeKey s \<in> set (map cn_key (plan_nodes input))"
      using assms s unfolding evaluateStepConvergenceProof_def Let_def
      by (auto simp: list_ex_iff split: if_splits)
    then obtain i where i: "i < length (plan_nodes input)" "sr_nodeKey s = cn_key (plan_nodes input ! i)"
      by (auto simp: in_set_conv_nth)
    have "map_of (map (\<lambda>s. (sr_nodeKey s, s)) (ec_stepRuns input)) (sr_nodeKey s) = Some s"
      using dist s by (intro map_of_is_SomeI) (auto simp: comp_def)
    then have "s = st_orderedSteps p ! i"
      using get [OF i(1)] i(2) dist by (simp add: steps_of_def map_get_from comp_def)
    then show ?thesis using i(1) len by simp
  qed
  then show ?thesis
    using ordered_step_mem(1) [OF assms] len by (auto simp: in_set_conv_nth)
qed

text \<open>
  C6. A manifest accounts for the whole run: its entries are all steps of the run, one for every
  node of the plan in plan order; its settlements are those of all attempts of all steps in
  order, each attempt exactly once, which are also all reservations of the run, none of them
  still open; and its cost is the initial spend plus the settled amounts, within the tolerance
  of amounts.
\<close>

theorem manifest_accounts_for_run:
  assumes "evaluateRunConvergence input = Inr d" and "decided_body d = Some body"
  shows "\<exists>steps. map sr_nodeKey steps = map cn_key (cw_nodes (pl_compiledWorkflow (ec_plan input))) \<and>
    set steps = set (ec_stepRuns input) \<and> distinct (map sr_nodeKey (ec_stepRuns input)) \<and>
    map me_stepRunId (mb_entries body) = map sr_stepRunId steps \<and>
    map ms_attemptId (mb_attemptSettlements body) = map at_attemptId (concat (map sr_attempts steps)) \<and>
    distinct (map ms_attemptId (mb_attemptSettlements body)) \<and>
    set (map (\<lambda>r. cr_attemptId (reservation_base r)) (ec_reservations input)) =
      set (map ms_attemptId (mb_attemptSettlements body)) \<and>
    (\<forall>r\<in>set (ec_reservations input). \<not> is_reserved r) \<and>
    amountsEqual (mc_spent (mb_cost body))
      (js_add (bl_spent (pl_budget (ec_plan input))) (settled_total (mb_attemptSettlements body)))"
proof (rule decided_phases [OF assms])
  fix p settlements
  assume step: "evaluateStepConvergenceProof input = Inr (Proof p)"
    and settlement: "evaluateSettlementConvergenceProof input (st_orderedSteps p) = Inr (Proof settlements)"
    and "\<exists>c out k. body = manifest_body input p settlements c out k"
  then obtain c out k where body: "body = manifest_body input p settlements c out k" by blast
  have "length (st_orderedSteps p) = length (plan_nodes input)"
    using evaluateStep_ProofE [OF step] by metis
  then have keys: "map sr_nodeKey (st_orderedSteps p) = map cn_key (plan_nodes input)"
    using ordered_step_mem(2) [OF step] by (intro nth_equalityI) simp_all
  have dist: "distinct (map sr_nodeKey (ec_stepRuns input))"
    using evaluateStep_ProofE [OF step] by metis
  have parts: "mb_attemptSettlements body = settlements" "mc_spent (mb_cost body) = mc_spent (ec_cost input)"
    "map me_stepRunId (mb_entries body) = map sr_stepRunId (st_orderedSteps p)"
    by (simp_all add: body manifest_body_def toManifestEntry_def Let_def)
  note settled = evaluateSettlement_ProofD [OF settlement]
  note attempts = evaluateSettlement_attempts [OF settlement]
  show ?thesis
    unfolding parts settled [THEN conjunct1] attempts(2)
    using keys ordered_step_set [OF step] dist attempts(1) settled [THEN conjunct2] by blast
qed

lemma completed_entries:
  assumes step: "evaluateStepConvergenceProof input = Inr (Proof p)"
    and "compileWorkflow wi = Inr (pl_compiledWorkflow (ec_plan input))"
    and "\<forall>s\<in>set (st_orderedSteps p). sr_state s \<noteq> S_failed"
  shows "\<forall>s\<in>set (st_orderedSteps p). sr_state s = S_succeeded"
proof -
  have len: "length (st_orderedSteps p) = length (plan_nodes input)"
    using evaluateStep_ProofE [OF step] by metis
  show ?thesis
    using unfailed_steps_succeed [OF step compiled_nodes_ordered(1) [OF assms(2)]
        compiled_nodes_ordered(2) [OF assms(2)] assms(3)] len
    by (auto simp: in_set_conv_nth)
qed

lemma validateCompletion_accepts:
  assumes "manifest_identifies (mf_body m) r C_completed" "mb_output (mf_body m) = Accepted out"
    "mb_resultCompleteness (mf_body m) = RC_complete" "\<not> blank (vo_validatorVersion out)"
    "vo_contract out = mb_outputContract (mf_body m)"
    "\<forall>entry\<in>set (mb_entries (mf_body m)). me_state entry = E_succeeded"
    "\<exists>entry\<in>set (mb_entries (mf_body m)). \<exists>result. me_result entry = Accepted result \<and>
       vo_artifact result = vo_artifact out"
  shows "validateCompletion r m = Inr (concluded_plan C_completed m R_completed RunCompleted)"
  using assms unfolding validateCompletion_def Let_def accepted_result_iff list_ex_iff by simp

lemma manifest_body_sel [simp]:
  "mb_output (manifest_body input p settlements c out k) = out"
  "mb_resultCompleteness (manifest_body input p settlements c out k) = k"
  "mb_outputContract (manifest_body input p settlements c out k) = pl_outputContract (ec_plan input)"
  "mb_entries (manifest_body input p settlements c out k) =
     map (\<lambda>s. toManifestEntry s (st_stepsByNodeKey p)) (st_orderedSteps p)"
  by (simp_all add: manifest_body_def)

lemma manifest_body_identifies:
  "js_eq v (run_aggregateVersion (ec_run input)) \<Longrightarrow>
   manifest_identifies (manifest_body input p settlements c out k) (ec_run input) c"
  by (cases "js_key (run_aggregateVersion (ec_run input))")
    (auto simp: manifest_identifies_def manifest_body_def js_eq_def)

lemma entry_state [simp]: "me_state (toManifestEntry s m) = entry_state_of (sr_state s)"
  by (simp add: toManifestEntry_def Let_def)

lemma applyRunCommand_accepts:
  assumes "run_planTransition r c = Inr p" and "rcx_replayProof x = None"
    and "js_eq (rcx_expectedAggregateVersion x) (run_aggregateVersion r)"
    and "length (rcx_eventIds x) = length (tp_eventDetails p)"
  shows "\<exists>t. applyRunCommand r c x = Inr t \<and> run_state (tr_aggregate t) = tp_state p"
  using assms by (simp add: applyRunCommand_def Let_def)

text \<open>The body of a completed run: its output is the one of an entry, and every step succeeded.\<close>

lemma completed_body:
  assumes compiled: "compileWorkflow wi = Inr (pl_compiledWorkflow (ec_plan input))"
    and decision: "evaluateRunConvergence input = Inr (Completed_with body)"
  obtains p settlements out where
    "body = manifest_body input p settlements C_completed (Accepted out) RC_complete"
    "vo_contract out = pl_outputContract (ec_plan input)" "\<not> blank (vo_validatorVersion out)"
    "\<forall>entry\<in>set (mb_entries body). me_state entry = E_succeeded"
    "\<exists>entry\<in>set (mb_entries body). me_result entry = Accepted out"
proof (rule decided_phases [OF decision, of body])
  fix p settlements
  assume step: "evaluateStepConvergenceProof input = Inr (Proof p)"
    and out: "if \<exists>s\<in>set (st_orderedSteps p). sr_state s = S_failed
      then Completed_with body =
        Failed_with (manifest_body input p settlements C_failed (Missing Run_failed) RC_none)
      else evaluate_output input p settlements = Inr (Completed_with body)"
  have unfailed: "\<forall>s\<in>set (st_orderedSteps p). sr_state s \<noteq> S_failed"
    and eval: "evaluate_output input p settlements = Inr (Completed_with body)"
    using out by (auto split: if_splits)
  obtain node s o' where node: "node \<in> set (plan_nodes input)"
    and s: "map_get (st_stepsByNodeKey p) (cn_key node) = Some s"
    and o': "Option.bind (last_opt (sr_attempts s)) at_output = Some o'"
      "vo_contract o' = pl_outputContract (ec_plan input)" "\<not> blank (vo_validatorVersion o')"
    and body: "body = manifest_body input p settlements C_completed (Accepted o') RC_complete"
    by (rule evaluate_output_CompletedE [OF eval])
  have succeeded: "\<forall>s\<in>set (st_orderedSteps p). sr_state s = S_succeeded"
    by (rule completed_entries [OF step compiled unfailed])
  have mem: "s \<in> set (st_orderedSteps p)"
    using evaluateStep_ProofE [OF step] node s by (metis in_set_conv_nth option.sel)
  have "me_result (toManifestEntry s (st_stepsByNodeKey p)) = Accepted o'"
    using succeeded mem o'(1) by (simp add: toManifestEntry_def Let_def)
  then show thesis
    using succeeded mem by (intro that [OF body o'(2,3)]) (auto simp: body)
qed simp

lemma completed_body_accepted:
  assumes "compileWorkflow wi = Inr (pl_compiledWorkflow (ec_plan input))"
    and "evaluateRunConvergence input = Inr (Completed_with body)"
    and version: "js_eq v (run_aggregateVersion (ec_run input))"
  shows "validateCompletion (ec_run input) (\<lparr>mf_body = body, mf_manifestHash = h, mf_resultManifestId = i\<rparr>) =
    Inr (concluded_plan C_completed \<lparr>mf_body = body, mf_manifestHash = h, mf_resultManifestId = i\<rparr>
      R_completed RunCompleted)"
proof (rule completed_body [OF assms(1,2)], goal_cases)
  case (1 p settlements out)
  then show ?case
    using manifest_body_identifies [OF version]
    by (intro validateCompletion_accepts [of _ _ out]) auto
qed

text \<open>
  A run accepts the manifest of its own convergence: for a plan whose workflow the
  compiler made, the command that completes (or fails) the running run with the body that
  \<open>evaluateRunConvergence\<close> decided is accepted, whatever hash and id the manifest is given.
\<close>

lemma converged_run_concludes:
  assumes "compileWorkflow wi = Inr (pl_compiledWorkflow (ec_plan input))"
    and "evaluateRunConvergence input = Inr d" and "run_state (ec_run input) = R_running"
    and "rcx_replayProof x = None"
    and "js_eq (rcx_expectedAggregateVersion x) (run_aggregateVersion (ec_run input))"
    and "length (rcx_eventIds x) = 2"
  shows "case d of
      Not_ready reason \<Rightarrow> True
    | Completed_with body \<Rightarrow> \<exists>t. applyRunCommand (ec_run input)
        (CompleteRun \<lparr>mf_body = body, mf_manifestHash = h, mf_resultManifestId = i\<rparr>) x = Inr t \<and>
        run_state (tr_aggregate t) = R_completed
    | Failed_with body \<Rightarrow> \<exists>t. applyRunCommand (ec_run input)
        (FailRun \<lparr>mf_body = body, mf_manifestHash = h, mf_resultManifestId = i\<rparr>) x = Inr t \<and>
        run_state (tr_aggregate t) = R_failed"
proof (cases d)
  case (Completed_with body)
  have "run_planTransition (ec_run input)
      (CompleteRun \<lparr>mf_body = body, mf_manifestHash = h, mf_resultManifestId = i\<rparr>) =
    Inr (concluded_plan C_completed \<lparr>mf_body = body, mf_manifestHash = h, mf_resultManifestId = i\<rparr>
      R_completed RunCompleted)"
    using completed_body_accepted [OF assms(1) _ assms(5)] assms(2,3) Completed_with
    by (simp add: completeRun_def)
  from applyRunCommand_accepts [OF this assms(4,5)] assms(6) Completed_with show ?thesis by simp
next
  case (Failed_with body)
  obtain p settlements where body:
    "body = manifest_body input p settlements C_failed (Missing Run_failed) RC_none"
    and failed: "\<exists>s\<in>set (st_orderedSteps p). sr_state s = S_failed"
    by (rule failed_phases [OF assms(2) [unfolded Failed_with]])
  have "run_planTransition (ec_run input)
      (FailRun \<lparr>mf_body = body, mf_manifestHash = h, mf_resultManifestId = i\<rparr>) =
    Inr (concluded_plan C_failed \<lparr>mf_body = body, mf_manifestHash = h, mf_resultManifestId = i\<rparr>
      R_failed RunFailed)"
    using failed assms(3) manifest_body_identifies [OF assms(5)]
    by (force simp: failRun_def validateFailure_def Let_def list_all_iff body)
  from applyRunCommand_accepts [OF this assms(4,5)] assms(6) Failed_with show ?thesis by simp
qed simp


definition ex_built_workflow :: compiled_workflow where
  "ex_built_workflow =
     \<lparr>cw_workflowSpecId = lit ''w'', cw_workflowRevision = lit ''1'',
      cw_workflowContentHash = lit ''h'', cw_compilerVersion = WORKFLOW_COMPILER_VERSION,
      cw_fingerprint = lit ''b:cap@1::'',
      cw_nodes = [\<lparr>cn_key = lit ''b'', cn_capability = ex_capability, cn_dependsOn = [],
        cn_depth = 0, cn_humanGate = None\<rparr>]\<rparr>"

lemma ex_built: "compileWorkflow (ex_compile [ex_node ''b'' []]) = Inr ex_built_workflow"
  by (simp add: ex_compile_defs ex_built_workflow_def ex_capability_def workflow_fingerprint_def
      node_text_def)

definition ex_done_step :: step_run where
  "ex_done_step =
     (ex_step_at 4 6 S_succeeded A_succeeded)\<lparr>sr_activeAttemptId := None, sr_dependsOn := [],
       sr_attempts := [(ex_attempt A_succeeded)\<lparr>at_finishedAt := Some (num 25),
         at_output := Some ex_output\<rparr>]\<rparr>"

definition ex_convergence :: convergence_input where
  "ex_convergence =
     \<lparr>ec_artifacts = [\<lparr>art_artifactId = lit ''art'', art_attemptId = lit ''att'',
        art_contentHash = lit ''ch'', art_contract = ex_contract, art_finalizedAt = num 26,
        art_operationKey = lit ''op'', art_runId = lit ''run'', art_sizeBytes = num 100,
        art_stepRunId = lit ''step'', art_validatedAt = num 20, art_validatorVersion = lit ''1'',
        art_workspaceId = lit ''ws''\<rparr>],
      ec_cost = \<lparr>mc_reserved = num 0, mc_spent = num 5, mc_unit = lit ''credit''\<rparr>,
      ec_createdAt = num 30, ec_plan = ex_plan\<lparr>pl_compiledWorkflow := ex_built_workflow\<rparr>,
      ec_reservations = [CR_settled \<lparr>cr_amount = num 8, cr_attemptId = lit ''att'',
        cr_createdAt = num 20, cr_operationKey = lit ''op'', cr_reservationId = lit ''res'',
        cr_runId = lit ''run'', cr_stepRunId = lit ''step'', cr_unit = lit ''credit'',
        cr_workspaceId = lit ''ws''\<rparr> (num 5) (num 3) (num 25) (lit ''use'')],
      ec_run = ex_run R_running 2 2, ec_stepRuns = [ex_done_step]\<rparr>"

lemmas ex_convergence_defs = ex_convergence_def ex_done_step_def ex_step_at_def ex_step_def
  ex_attempt_def ex_built_workflow_def ex_plan_def ex_budget_def ex_run_def

lemma ex_step_phase:
  "evaluateStepConvergenceProof ex_convergence = Inr (Proof
     \<lparr>st_orderedSteps = [ex_done_step], st_stepsByNodeKey = [(lit ''b'', ex_done_step)]\<rparr>)"
  by (simp add: evaluateStepConvergenceProof_def ex_convergence_defs map_from_def map_set_def
      map_get_def stepIdentityIsValid_def has_open_attempt_def attemptsAreCoherent_def
      terminalStepStates_def nonTerminalAttemptStates_def set_size_def Let_def)

lemma ex_settlement_phase:
  "\<exists>settlements. evaluateSettlementConvergenceProof ex_convergence [ex_done_step] =
     Inr (Proof settlements)"
  by (simp add: evaluateSettlementConvergenceProof_def ex_convergence_defs map_from_def map_set_def
      map_get_def reservationMatchesAttempt_def settled_total_def Let_def)

lemma ex_nodes_length: "length (cw_nodes (pl_compiledWorkflow (ec_plan ex_convergence))) = 1"
  by (simp add: ex_convergence_def ex_built_workflow_def)

lemma ex_output_phase:
  "\<exists>body. evaluate_output ex_convergence
     \<lparr>st_orderedSteps = [ex_done_step], st_stepsByNodeKey = [(lit ''b'', ex_done_step)]\<rparr>
     settlements = Inr (Completed_with body)"
  by (simp add: ex_convergence_defs evaluate_output_def sink_nodes_def map_from_def map_set_def
      map_get_def artifactMatchesOutput_def ex_output_def ex_contract_def max_safe_def Let_def)
    (simp add: lit_def js_space_def)

lemma ex_converged: "\<exists>body. evaluateRunConvergence ex_convergence = Inr (Completed_with body)"
proof -
  obtain settlements where phase: "evaluateSettlementConvergenceProof ex_convergence [ex_done_step] =
      Inr (Proof settlements)"
    using ex_settlement_phase by blast
  have inputs: "pl_workspaceId (ec_plan ex_convergence) = run_workspaceId (ec_run ex_convergence)"
    "pl_runPlanId (ec_plan ex_convergence) = run_runPlanId (ec_run ex_convergence)"
    "mc_unit (ec_cost ex_convergence) = bl_unit (pl_budget (ec_plan ex_convergence))"
    "isAmount (mc_spent (ec_cost ex_convergence))" "isAmount (mc_reserved (ec_cost ex_convergence))"
    "sr_state ex_done_step = S_succeeded"
    by (simp_all add: ex_convergence_defs)
  show ?thesis
    using ex_output_phase [of settlements]
    by (simp add: evaluateRunConvergence_def ex_step_phase phase inputs)
qed

theorem manifest_accounts_for_run_witness:
  "\<exists>body. evaluateRunConvergence ex_convergence = Inr (Completed_with body) \<and>
     map ms_attemptId (mb_attemptSettlements body) = [lit ''att'']"
proof -
  obtain body where body: "evaluateRunConvergence ex_convergence = Inr (Completed_with body)"
    using ex_converged by blast
  obtain steps where s:
    "map sr_nodeKey steps = map cn_key (cw_nodes (pl_compiledWorkflow (ec_plan ex_convergence)))"
    "set steps = set (ec_stepRuns ex_convergence)"
    "map ms_attemptId (mb_attemptSettlements body) = map at_attemptId (concat (map sr_attempts steps))"
    using manifest_accounts_for_run [OF body decided_body.simps(2)] by blast
  have "length steps = 1"
    using s(1) by (metis (no_types, lifting) ex_nodes_length length_map)
  then obtain s1 where "steps = [s1]" by (auto simp: length_Suc_conv)
  moreover have "set (ec_stepRuns ex_convergence) = {ex_done_step}" by (simp add: ex_convergence_def)
  ultimately have "steps = [ex_done_step]" using s(2) by simp
  then show ?thesis using body s(3) by (simp add: ex_done_step_def ex_attempt_def)
qed

end
