(* ===== verification/Routing.thy ===== *)
theory Routing
  imports Run
begin

text \<open>
  \<open>kernel/src/routing.ts\<close>: the routes that a plan may use for its nodes, the check that all
  of them fit the plan's budget and hard quote, and the decision for one route.
\<close>

section \<open>Decisions\<close>

record routing_decision =
  rd_capability :: capability_ref
  rd_decidedAt :: js_number
  rd_effectAdapterKey :: jstring
  rd_policyFactsHash :: jstring
  rd_policyVersion :: jstring
  rd_pricingVersion :: jstring
  rd_reservedAmount :: js_number
  rd_reservationUnit :: jstring
  rd_routeKey :: jstring
  rd_routeSnapshotHash :: jstring
  rd_routingDecisionId :: jstring
  rd_runId :: jstring
  rd_stepRunId :: jstring
  rd_workspaceId :: jstring

record routing_decision_input =
  ri_candidate :: run_plan_route_snapshot
  ri_decidedAt :: js_number
  ri_expectedCapability :: capability_ref
  ri_expectedNodeKey :: jstring
  ri_expectedPricingVersion :: jstring
  ri_policyFactsHash :: jstring
  ri_policyVersion :: jstring
  ri_routeSnapshotHash :: jstring
  ri_routingDecisionId :: jstring
  ri_runId :: jstring
  ri_stepRunId :: jstring
  ri_workspaceId :: jstring

datatype routing_failure = Capability_mismatch | Invalid_route_snapshot | Node_mismatch

definition snapshotIsStructurallyValid :: "run_plan_route_snapshot \<Rightarrow> bool" where
  "snapshotIsStructurallyValid snapshot \<longleftrightarrow>
     \<not> blank (rs_routeKey snapshot) \<and> \<not> blank (rs_effectAdapterKey snapshot) \<and>
     \<not> blank (rs_nodeKey snapshot) \<and> \<not> blank (rs_pricingVersion snapshot) \<and>
     \<not> blank (rs_reservationUnit snapshot) \<and> isAmount (rs_reservableUpperBound snapshot)"

definition createRoutingDecision ::
  "routing_decision_input \<Rightarrow> (routing_decision, routing_failure) domain_result" where
  "createRoutingDecision input =
     (let candidate = ri_candidate input
      in if \<not> snapshotIsStructurallyValid candidate then fail Invalid_route_snapshot
      else if rs_nodeKey candidate \<noteq> ri_expectedNodeKey input then fail Node_mismatch
      else if \<not> capabilityMatches (rs_capability candidate) (ri_expectedCapability input)
      then fail Capability_mismatch
      else if rs_factsHash candidate \<noteq> ri_policyFactsHash input \<or>
              rs_pricingVersion candidate \<noteq> ri_expectedPricingVersion input
      then fail Invalid_route_snapshot
      else succeed
        \<lparr>rd_capability = rs_capability candidate, rd_decidedAt = ri_decidedAt input,
         rd_effectAdapterKey = rs_effectAdapterKey candidate,
         rd_policyFactsHash = ri_policyFactsHash input,
         rd_policyVersion = ri_policyVersion input,
         rd_pricingVersion = rs_pricingVersion candidate,
         rd_reservedAmount = rs_reservableUpperBound candidate,
         rd_reservationUnit = rs_reservationUnit candidate,
         rd_routeKey = rs_routeKey candidate, rd_routeSnapshotHash = ri_routeSnapshotHash input,
         rd_routingDecisionId = ri_routingDecisionId input, rd_runId = ri_runId input,
         rd_stepRunId = ri_stepRunId input, rd_workspaceId = ri_workspaceId input\<rparr>)"


section \<open>The worst case of a plan\<close>

definition retryPolicyIsValid :: "retry_policy \<Rightarrow> bool" where
  "retryPolicyIsValid policy \<longleftrightarrow>
     is_integer (maxAttemptsPerStep policy) \<and> js_ge (maxAttemptsPerStep policy) (num 1) \<and>
     js_le (maxAttemptsPerStep policy) (num 100)"

text \<open>The loop of the compensated sum, over the sum and the correction so far.\<close>

fun compensated_loop :: "js_number list \<Rightarrow> js_number \<Rightarrow> js_number \<Rightarrow> js_number option" where
  "compensated_loop [] correction acc =
     (let corrected = js_add acc correction in if isAmount corrected then Some corrected else None)"
| "compensated_loop (amount # amounts) correction acc =
     (if \<not> isAmount amount then None
      else
        let next = js_add acc amount;
            correction' = js_add correction
              (if js_ge (js_abs acc) (js_abs amount)
               then js_add (js_sub acc next) amount
               else js_add (js_sub amount next) acc)
        in if \<not> (is_finite next \<and> is_finite correction') then None
           else compensated_loop amounts correction' next)"

definition compensatedAmountSum :: "js_number list \<Rightarrow> js_number option" where
  "compensatedAmountSum amounts = compensated_loop amounts (num 0) (num 0)"

definition raise_bound ::
  "run_plan_route_snapshot \<Rightarrow> (jstring, js_number) js_map \<Rightarrow> (jstring, js_number) js_map" where
  "raise_bound snapshot bounds =
     (let current = (case map_get bounds (rs_nodeKey snapshot) of Some b \<Rightarrow> b | None \<Rightarrow> num 0)
      in map_set (rs_nodeKey snapshot) (js_max current (rs_reservableUpperBound snapshot)) bounds)"

definition maximumBoundByNode :: "run_plan_route_snapshot list \<Rightarrow> (jstring, js_number) js_map" where
  "maximumBoundByNode snapshots = fold raise_bound snapshots []"

definition hardQuoteFitsPlan ::
  "run_plan_route_snapshot list \<Rightarrow> budget_limit \<Rightarrow> cost_quote \<Rightarrow> retry_policy \<Rightarrow> bool" where
  "hardQuoteFitsPlan snapshots budget quote retryPolicy \<longleftrightarrow>
     (if cq_guarantee quote \<noteq> Hard then True
      else case cq_upperBound quote of
          None \<Rightarrow> False
        | Some quoteUpperBound \<Rightarrow>
            if \<not> isAmount quoteUpperBound \<or> amountExceeds quoteUpperBound (bl_limit budget)
            then False
            else
              case compensatedAmountSum
                  (map (\<lambda>(_, upperBound). js_mul upperBound (maxAttemptsPerStep retryPolicy))
                    (maximumBoundByNode snapshots)) of
                None \<Rightarrow> False
              | Some worstCasePlanCost \<Rightarrow>
                  \<not> (amountExceeds worstCasePlanCost quoteUpperBound \<or>
                     amountExceeds worstCasePlanCost (bl_limit budget)))"

text \<open>\<open>`${snapshot.nodeKey}\u0000${snapshot.routeKey}`\<close>\<close>

definition route_identity :: "run_plan_route_snapshot \<Rightarrow> jstring" where
  "route_identity snapshot = rs_nodeKey snapshot @ [0] @ rs_routeKey snapshot"

fun invalid_snapshot ::
  "compiled_workflow \<Rightarrow> budget_limit \<Rightarrow> cost_quote \<Rightarrow> jstring \<Rightarrow> jstring list \<Rightarrow>
   run_plan_route_snapshot list \<Rightarrow> routing_failure option" where
  "invalid_snapshot workflow budget quote policyFactsHash identities [] = None"
| "invalid_snapshot workflow budget quote policyFactsHash identities (snapshot # snapshots) =
     (if \<not> snapshotIsStructurallyValid snapshot then Some Invalid_route_snapshot
      else case List.find (\<lambda>entry. cn_key entry = rs_nodeKey snapshot) (cw_nodes workflow) of
          None \<Rightarrow> Some Node_mismatch
        | Some node \<Rightarrow>
            if \<not> capabilityMatches (cn_capability node) (rs_capability snapshot)
            then Some Capability_mismatch
            else if rs_reservationUnit snapshot \<noteq> bl_unit budget \<or>
                    rs_reservationUnit snapshot \<noteq> cq_unit quote \<or>
                    rs_pricingVersion snapshot \<noteq> cq_pricingVersion quote \<or>
                    rs_factsHash snapshot \<noteq> policyFactsHash \<or>
                    amountExceeds (rs_reservableUpperBound snapshot) (bl_limit budget)
            then Some Invalid_route_snapshot
            else if route_identity snapshot \<in> set identities then Some Invalid_route_snapshot
            else invalid_snapshot workflow budget quote policyFactsHash
              (route_identity snapshot # identities) snapshots)"

definition validateRunPlanRouteSnapshots ::
  "run_plan_route_snapshot list \<Rightarrow> compiled_workflow \<Rightarrow> budget_limit \<Rightarrow> cost_quote \<Rightarrow>
   retry_policy \<Rightarrow> jstring \<Rightarrow> (run_plan_route_snapshot list, routing_failure) domain_result" where
  "validateRunPlanRouteSnapshots snapshots workflow budget quote retryPolicy policyFactsHash =
     (if \<not> (isAmount (bl_limit budget) \<and> retryPolicyIsValid retryPolicy)
      then fail Invalid_route_snapshot
      else case invalid_snapshot workflow budget quote policyFactsHash [] snapshots of
          Some e \<Rightarrow> fail e
        | None \<Rightarrow>
            if \<not> hardQuoteFitsPlan snapshots budget quote retryPolicy
            then fail Invalid_route_snapshot
            else succeed snapshots)"


section \<open>Sums of whole amounts are exact\<close>

lemma js_mul_num:
  assumes "0 \<le> m" "0 \<le> n" "m * n < 2 ^ 53"
  shows "js_mul (num m) (num n) = num (m * n)"
proof (cases "m * n = 0")
  case True
  then show ?thesis using assms
    by (auto simp: js_mul_def num_def Let_def round_scaled_zero mult_less_0_iff)
next
  case False
  then have pos: "0 < m" "0 < n" using assms by auto
  let ?p = "(m * one_units) * (n * one_units)"
  have two: "(2::int) ^ 1074 * 2 ^ 1074 = 2 ^ 2148" unfolding power_add [symmetric] by simp
  have "?p = (m * n) * (one_units * one_units)" by (simp only: ac_simps)
  then have p: "?p = (m * n) * 2 ^ 2148" unfolding one_units_def two .
  have "?p < 2 ^ 53 * 2 ^ 2148" unfolding p using assms(3) by simp
  also have "(2::int) ^ 53 * 2 ^ 2148 = 2 ^ 2201" unfolding power_add [symmetric] by simp
  finally have lt: "\<bar>?p\<bar> < 2 ^ 2201" using pos by (simp add: abs_mult)
  have "1074 + excess_bits ?p 1074 \<le> 2148" using excess_bits_le [OF lt, of 1074] by simp
  then have "(2::int) ^ (1074 + excess_bits ?p 1074) dvd 2 ^ 2148" by (rule le_imp_power_dvd)
  then have dvd: "2 ^ (1074 + excess_bits ?p 1074) dvd ?p" unfolding p by (rule dvd_mult)
  have "(2::int) ^ 2201 \<le> 2 ^ (2098 + 1074)" by (rule power_increasing) simp_all
  with lt have lim: "\<bar>?p\<bar> < 2 ^ (2098 + 1074)" by (rule less_le_trans)
  have "round_scaled False ?p 1074 = Fin (?p div 2 ^ 1074)"
    using dvd lim pos by (intro round_scaled_exact) simp_all
  also have "?p div 2 ^ 1074 = m * n * one_units"
    unfolding p one_units_def two [symmetric] by simp
  finally show ?thesis using pos by (simp add: js_mul_def num_def Let_def mult_less_0_iff)
qed

lemma compensated_loop_num:
  assumes "\<forall>n\<in>set ns. 0 \<le> n" and "0 \<le> s" and "s + sum_list ns < 2 ^ 52"
  shows "compensated_loop (map num ns) (num 0) (num s) = Some (num (s + sum_list ns))"
  using assms
proof (induction ns arbitrary: s)
  case (Cons n ns)
  have n: "0 \<le> n" "0 \<le> sum_list ns" using Cons.prems(1) by (auto intro: sum_list_nonneg)
  with Cons show ?case by (simp add: Let_def add.assoc)
qed simp


section \<open>Grouping by node\<close>

definition node_bound ::
  "(run_plan_route_snapshot \<Rightarrow> int) \<Rightarrow> run_plan_route_snapshot list \<Rightarrow> jstring \<Rightarrow> int" where
  "node_bound units ss key = fold max (map units (filter (\<lambda>s. rs_nodeKey s = key) ss)) 0"

lemma fold_max_bound:
  "\<forall>n\<in>set ns. n \<le> fold max ns (m::int)" "m \<le> fold max ns m"
  by (induction ns arbitrary: m) (simp, simp, (metis fold_Cons insert_iff list.set(2) max.bounded_iff o_apply order_refl order_trans)+)

lemma fold_max_sum: "\<forall>n\<in>set ns. 0 \<le> n \<Longrightarrow> 0 \<le> m \<Longrightarrow> fold max ns (m::int) \<le> m + sum_list ns"
proof (induction ns arbitrary: m)
  case (Cons n ns)
  have "fold max ns (max n m) \<le> max n m + sum_list ns" using Cons by (intro Cons.IH) auto
  moreover have "max n m \<le> m + n" using Cons.prems by (auto simp: max_def)
  ultimately have "fold max ns (max n m) \<le> m + n + sum_list ns" by linarith
  then show ?case by (simp add: add.assoc)
qed simp

lemma node_bound_snoc:
  "node_bound units (ss @ [s]) key =
     (if rs_nodeKey s = key then max (units s) (node_bound units ss key) else node_bound units ss key)"
  by (simp add: node_bound_def max.commute)

lemma maximumBoundByNode_get:
  assumes "\<forall>s\<in>set ss. rs_reservableUpperBound s = num (units s)"
  shows "map_get (maximumBoundByNode ss) key =
    (if key \<in> rs_nodeKey ` set ss then Some (num (node_bound units ss key)) else None)"
  using assms
proof (induction ss rule: rev_induct)
  case Nil
  then show ?case by (simp add: maximumBoundByNode_def js_map.get_empty)
next
  case (snoc s ss)
  have fresh: "node_bound units ss key = 0" if "key \<notin> rs_nodeKey ` set ss" for key
  proof -
    have "filter (\<lambda>s. rs_nodeKey s = key) ss = []" using that by (auto simp: filter_empty_conv)
    then show ?thesis by (simp add: node_bound_def)
  qed
  have "maximumBoundByNode (ss @ [s]) = raise_bound s (maximumBoundByNode ss)"
    by (simp add: maximumBoundByNode_def)
  then show ?case
    using snoc by (auto simp: raise_bound_def Let_def js_map.get_put node_bound_snoc max.commute fresh)
qed

lemma sum_list_group:
  fixes f :: "'a \<Rightarrow> int"
  assumes "finite K" and "g ` set xs \<subseteq> K"
  shows "sum_list (map f xs) = (\<Sum>k\<in>K. sum_list (map f (filter (\<lambda>x. g x = k) xs)))"
  using assms(2)
proof (induction xs)
  case (Cons x xs)
  have "(\<Sum>k\<in>K. sum_list (map f (filter (\<lambda>x. g x = k) (x # xs)))) =
      (\<Sum>k\<in>K. (if k = g x then f x else 0) + sum_list (map f (filter (\<lambda>x. g x = k) xs)))"
    by (rule sum.cong) auto
  then show ?case using Cons assms(1) by (simp add: sum.distrib sum.delta)
qed simp

lemma sum_list_le_length:
  "\<forall>x\<in>set xs. f x \<le> (b::int) \<Longrightarrow> sum_list (map f xs) \<le> int (length xs) * b"
  by (induction xs) (auto simp: algebra_simps)

lemma compensatedAmountSum_bounds:
  assumes units: "\<forall>s\<in>set ss. rs_reservableUpperBound s = num (units s) \<and> 0 \<le> units s"
    and a: "0 \<le> a" and small: "a * sum_list (map units ss) < 2 ^ 50"
  shows "compensatedAmountSum (map (\<lambda>(_, b). js_mul b (num a)) (maximumBoundByNode ss)) =
      Some (num (\<Sum>key\<in>rs_nodeKey ` set ss. a * node_bound units ss key))"
    and "(\<Sum>key\<in>rs_nodeKey ` set ss. a * node_bound units ss key) < 2 ^ 50"
proof -
  let ?m = "maximumBoundByNode ss" and ?K = "rs_nodeKey ` set ss"
  have keys: "set (map_keys ?m) = ?K" and dist: "distinct (map_keys ?m)"
  proof -
    have "set (map_keys (fold raise_bound ss m)) = ?K \<union> set (map_keys m) \<and>
        (distinct (map_keys m) \<longrightarrow> distinct (map_keys (fold raise_bound ss m)))" for m
      by (induction ss arbitrary: m)
        (auto simp: raise_bound_def Let_def js_map.set_keys_put js_map.distinct_keys_put)
    from this [of "[]"] show "set (map_keys ?m) = ?K" "distinct (map_keys ?m)"
      by (simp_all add: maximumBoundByNode_def js_map.keys_empty)
  qed
  have nn: "0 \<le> node_bound units ss key" for key
    unfolding node_bound_def by (rule fold_max_bound(2))
  have le: "node_bound units ss key \<le> sum_list (map units (filter (\<lambda>s. rs_nodeKey s = key) ss))" for key
    using units fold_max_sum [of "map units (filter (\<lambda>s. rs_nodeKey s = key) ss)" 0]
    by (auto simp: node_bound_def)
  have "(\<Sum>key\<in>?K. node_bound units ss key) \<le> sum_list (map units ss)"
    using sum_list_group [of ?K rs_nodeKey ss units] by (simp add: sum_mono le)
  then have W: "(\<Sum>key\<in>?K. a * node_bound units ss key) < 2 ^ 50"
    using small mult_left_mono [OF _ a] by (fastforce simp: sum_distrib_left [symmetric])
  then show "(\<Sum>key\<in>?K. a * node_bound units ss key) < 2 ^ 50" .
  have one: "a * node_bound units ss key < 2 ^ 53" if "key \<in> ?K" for key
    using member_le_sum [of key ?K "\<lambda>key. a * node_bound units ss key"] that nn a W by auto
  have m: "?m = map (\<lambda>key. (key, num (node_bound units ss key))) (map_keys ?m)"
  proof -
    have "snd e = num (node_bound units ss (fst e))" if "e \<in> set ?m" for e
    proof -
      have "map_get ?m (fst e) = Some (snd e)"
        using dist that by (simp add: map_get_def map_keys_def)
      then show ?thesis
        using maximumBoundByNode_get [of ss units "fst e"] units by (simp split: if_splits)
    qed
    then show ?thesis by (auto simp: map_keys_def comp_def intro!: map_idI [symmetric])
  qed
  have "map (\<lambda>(_, b). js_mul b (num a)) ?m = map num (map (\<lambda>key. a * node_bound units ss key) (map_keys ?m))"
    using one keys nn a by (subst m) (auto simp: js_mul_num mult.commute)
  moreover have "sum_list (map (\<lambda>key. a * node_bound units ss key) (map_keys ?m)) =
      (\<Sum>key\<in>?K. a * node_bound units ss key)"
    using dist keys by (simp add: sum_list_distinct_conv_sum_set)
  ultimately show "compensatedAmountSum (map (\<lambda>(_, b). js_mul b (num a)) ?m) =
      Some (num (\<Sum>key\<in>?K. a * node_bound units ss key))"
    using compensated_loop_num [of "map (\<lambda>key. a * node_bound units ss key) (map_keys ?m)" 0] nn a W
    by (auto simp: compensatedAmountSum_def)
qed

text \<open>
  C18. A hard quote is a real bound: once the routes of a plan are validated against a hard
  quote, any sequence of attempts on these routes, with at most the allowed number of
  attempts per node, reserves in total at most the quote's upper bound and at most the
  budget limit (for whole amounts whose worst case stays below 2 ^ 50).
\<close>

theorem hard_quote_bounds_attempts:
  assumes "validateRunPlanRouteSnapshots snapshots workflow budget quote policy facts = Inr accepted"
    and "cq_guarantee quote = Hard" and "cq_upperBound quote = Some (num q)" "\<bar>q\<bar> < 2 ^ 50"
    and "bl_limit budget = num b" "\<bar>b\<bar> < 2 ^ 50" and "maxAttemptsPerStep policy = num a"
    and "\<forall>s\<in>set snapshots. rs_reservableUpperBound s = num (units s) \<and> 0 \<le> units s"
    and "a * sum_list (map units snapshots) < 2 ^ 50"
    and "set attempts \<subseteq> set snapshots"
    and "\<forall>key. int (length (filter (\<lambda>s. rs_nodeKey s = key) attempts)) \<le> a"
  shows "sum_list (map units attempts) \<le> q \<and> sum_list (map units attempts) \<le> b"
proof -
  let ?K = "rs_nodeKey ` set snapshots"
  let ?W = "\<Sum>key\<in>?K. a * node_bound units snapshots key"
  have "1 \<le> a" and fits: "hardQuoteFitsPlan snapshots budget quote policy"
    using assms(1,7)
    by (auto simp: validateRunPlanRouteSnapshots_def retryPolicyIsValid_def
        split: if_splits option.splits)
  then have a: "0 \<le> a" by simp
  note comp = compensatedAmountSum_bounds [OF assms(8) a assms(9)]
  have nn: "0 \<le> node_bound units snapshots key" for key
    unfolding node_bound_def by (rule fold_max_bound(2))
  have W: "\<bar>?W\<bar> < 2 ^ 50" using comp(2) nn a by (simp add: sum_nonneg)
  have "?W \<le> q" "?W \<le> b"
    using fits assms(2-7) comp(1) W by (auto simp: hardQuoteFitsPlan_def split: if_splits)
  moreover have "sum_list (map units attempts) \<le> ?W"
  proof -
    have "sum_list (map units (filter (\<lambda>s. rs_nodeKey s = key) attempts)) \<le> a * node_bound units snapshots key"
      for key
    proof -
      have "units s \<le> node_bound units snapshots key"
        if "s \<in> set (filter (\<lambda>s. rs_nodeKey s = key) attempts)" for s
        using that assms(10) fold_max_bound(1) [of "map units (filter (\<lambda>s. rs_nodeKey s = key) snapshots)" 0]
        by (auto simp: node_bound_def)
      then have "sum_list (map units (filter (\<lambda>s. rs_nodeKey s = key) attempts)) \<le>
          int (length (filter (\<lambda>s. rs_nodeKey s = key) attempts)) * node_bound units snapshots key"
        by (intro sum_list_le_length) blast
      also have "\<dots> \<le> a * node_bound units snapshots key"
        using assms(11) nn by (intro mult_right_mono) auto
      finally show ?thesis .
    qed
    then have "(\<Sum>key\<in>?K. sum_list (map units (filter (\<lambda>s. rs_nodeKey s = key) attempts))) \<le> ?W"
      by (intro sum_mono)
    moreover have "rs_nodeKey ` set attempts \<subseteq> ?K" using assms(10) by auto
    ultimately show ?thesis using sum_list_group [of ?K rs_nodeKey attempts units] by simp
  qed
  ultimately show ?thesis by linarith
qed


definition ex_route :: "int \<Rightarrow> string \<Rightarrow> run_plan_route_snapshot" where
  "ex_route bound key =
     \<lparr>rs_capability = \<lparr>capabilityId = lit ''cap'', capabilityVersion = lit ''1''\<rparr>,
      rs_effectAdapterKey = lit ''adapter'', rs_factsHash = lit ''facts'', rs_nodeKey = lit ''n'',
      rs_pricingVersion = lit ''1'', rs_reservableUpperBound = num bound,
      rs_reservationUnit = lit ''credit'', rs_routeKey = lit key\<rparr>"

definition ex_route_workflow :: compiled_workflow where
  "ex_route_workflow =
     \<lparr>cw_workflowSpecId = lit ''w'', cw_workflowRevision = lit ''1'',
      cw_workflowContentHash = lit ''h'', cw_compilerVersion = lit ''1'', cw_fingerprint = lit ''fp'',
      cw_nodes = [\<lparr>cn_key = lit ''n'',
        cn_capability = \<lparr>capabilityId = lit ''cap'', capabilityVersion = lit ''1''\<rparr>,
        cn_dependsOn = [], cn_depth = 0, cn_humanGate = None\<rparr>]\<rparr>"

definition ex_route_quote :: cost_quote where
  "ex_route_quote =
     \<lparr>cq_quoteId = lit ''q'', cq_guarantee = Hard, cq_unit = lit ''credit'',
      cq_upperBound = Some (num 12), cq_pricingVersion = lit ''1'', cq_expiresAt = num 1000\<rparr>"

definition ex_route_budget :: budget_limit where
  "ex_route_budget =
     \<lparr>bl_unit = lit ''credit'', bl_limit = num 20, bl_spent = num 0, bl_reserved = num 0\<rparr>"

lemma ex_routes_valid:
  "validateRunPlanRouteSnapshots [ex_route 3 ''a'', ex_route 4 ''b''] ex_route_workflow
     ex_route_budget ex_route_quote \<lparr>maxAttemptsPerStep = num 3\<rparr> (lit ''facts'') =
   Inr [ex_route 3 ''a'', ex_route 4 ''b'']"
  by (simp add: validateRunPlanRouteSnapshots_def ex_route_def ex_route_workflow_def
      ex_route_budget_def ex_route_quote_def retryPolicyIsValid_def snapshotIsStructurallyValid_def
      route_identity_def hardQuoteFitsPlan_def maximumBoundByNode_def raise_bound_def
      js_map.get_put js_map.get_empty compensatedAmountSum_def Let_def)
    (simp add: map_set_def js_mul_num lit_def js_space_def)

theorem hard_quote_bounds_attempts_witness:
  "sum_list (map (\<lambda>s. if rs_routeKey s = lit ''a'' then 3 else 4)
     [ex_route 4 ''b'', ex_route 3 ''a'', ex_route 4 ''b'']) \<le> (12::int)"
proof -
  have "sum_list (map (\<lambda>s. if rs_routeKey s = lit ''a'' then 3 else 4)
      [ex_route 4 ''b'', ex_route 3 ''a'', ex_route 4 ''b'']) \<le> (12::int) \<and>
    sum_list (map (\<lambda>s. if rs_routeKey s = lit ''a'' then 3 else 4)
      [ex_route 4 ''b'', ex_route 3 ''a'', ex_route 4 ''b'']) \<le> (20::int)"
    by (rule hard_quote_bounds_attempts [OF ex_routes_valid, where a = 3])
      (auto simp: ex_route_quote_def ex_route_budget_def ex_route_def lit_def)
  then show ?thesis by simp
qed

end
