(* ===== verification/Policy.thy ===== *)
theory Policy
  imports Run
begin

text \<open>
  The policy engine: \<open>evaluate-policy.ts\<close>, the check of a capability against an authority,
  and \<open>evaluate-contact-privacy.ts\<close>, the check of a contact data request against a privacy
  policy. Data classes and restrictions are strings, since the code tests for unknown ones;
  the constructor \<open>instant\<close> may throw, so the privacy decision is a result.
\<close>

section \<open>Capability policy\<close>

record policy_snapshot =
  ps_version :: jstring
  ps_factsHash :: jstring
  ps_requiredPermission :: jstring

record policy_facts =
  pf_workspaceId :: jstring
  pf_capability :: capability_ref
  pf_actorPermissions :: "jstring list"
  pf_authority :: authority_envelope
  pf_now :: js_number

datatype policy_reason =
    Policy_workspace_mismatch | Permission_missing | Capability_outside_authority
  | Authority_deadline_elapsed | Policy_allowed

record policy_decision =
  pd_allowed :: bool
  pd_policyVersion :: jstring
  pd_factsHash :: jstring
  pd_reasonCodes :: "policy_reason list"

definition evaluatePolicy :: "policy_snapshot \<Rightarrow> policy_facts \<Rightarrow> policy_decision" where
  "evaluatePolicy policy facts =
     (let authority = pf_authority facts;
          deniedReasons =
            (if pf_workspaceId facts \<noteq> ae_workspaceId authority
             then [Policy_workspace_mismatch] else []) @
            (if \<not> (ps_requiredPermission policy \<in> set (pf_actorPermissions facts) \<and>
                   ps_requiredPermission policy \<in> set (ae_permissions authority))
             then [Permission_missing] else []) @
            (if list_all (\<lambda>authorized. \<not> capabilityMatches (pf_capability facts) authorized)
                 (ae_capabilities authority)
             then [Capability_outside_authority] else []) @
            (if js_ge (pf_now facts) (ae_deadline authority)
             then [Authority_deadline_elapsed] else [])
      in \<lparr>pd_allowed = (length deniedReasons = 0), pd_policyVersion = ps_version policy,
          pd_factsHash = ps_factsHash policy,
          pd_reasonCodes = (if length deniedReasons = 0 then [Policy_allowed] else deniedReasons)\<rparr>)"


section \<open>Contact privacy\<close>

definition CONTACT_DATA_CLASSES :: "jstring list" where
  "CONTACT_DATA_CLASSES =
     [lit ''contact-identity'', lit ''employment'', lit ''professional-social-profile'',
      lit ''professional-email'', lit ''personal-email'', lit ''phone'']"

definition CONTACT_PRIVACY_RESTRICTIONS :: "jstring list" where
  "CONTACT_PRIVACY_RESTRICTIONS =
     [lit ''provider-opt-out'', lit ''provider-deletion'', lit ''provider-claimed-email'',
      lit ''operator-subject-request'', lit ''privacy-tombstone'', lit ''territory-restriction'']"

definition EXPLICIT_OPT_IN_CLASSES :: "jstring list" where
  "EXPLICIT_OPT_IN_CLASSES = [lit ''personal-email'', lit ''phone'']"

datatype contact_data_action = Discover | Enrich | Export

record contact_data_rule =
  cr_allowedActions :: "contact_data_action list"
  cr_maxRetentionMilliseconds :: js_number

record contact_privacy_policy =
  cpp_version :: jstring
  cpp_purposeRefs :: "jstring list"
  cpp_territories :: "jstring list"
  cpp_expiresAt :: js_number
  cpp_rules :: "(jstring, contact_data_rule) js_map"

record requested_contact_data =
  rq_dataClass :: jstring
  rq_observedAt :: "js_number option"

record contact_privacy_facts =
  cf_action :: contact_data_action
  cf_purposeRef :: "jstring option"
  cf_territory :: "jstring option"
  cf_requestedData :: "requested_contact_data list"
  cf_explicitlyEnabledDataClasses :: "jstring list"
  cf_activeRestrictions :: "jstring list"
  cf_now :: js_number

datatype privacy_reason =
    Restriction_active jstring
  | Policy_expired | Purpose_unresolved | Purpose_denied | Territory_unresolved | Territory_denied
  | Data_class_missing | Data_class_unknown | Data_class_duplicate | Data_class_disabled
  | Restriction_unknown | Explicit_opt_in_required | Action_denied | Retention_limit_invalid
  | Observation_time_missing | Observation_time_invalid | Ttl_expired | Privacy_allowed

record retention_limit =
  lim_dataClass :: jstring
  lim_maxRetentionMilliseconds :: js_number
  lim_expiresAt :: js_number

record privacy_decision =
  prd_allowed :: bool
  prd_policyVersion :: jstring
  prd_reasonCodes :: "privacy_reason list"
  prd_deniedDataClasses :: "jstring list"
  prd_retentionLimits :: "retention_limit list"
  prd_stopExternalEffects :: bool
  prd_stopFallback :: bool

definition pushUnique :: "'a list \<Rightarrow> 'a \<Rightarrow> 'a list" where
  "pushUnique values value = (if value \<in> set values then values else values @ [value])"

definition isResolved :: "jstring option \<Rightarrow> bool" where
  "isResolved value \<longleftrightarrow> (case value of None \<Rightarrow> False | Some v \<Rightarrow> \<not> blank v)"

definition requestedDataInCanonicalOrder ::
  "requested_contact_data list \<Rightarrow> requested_contact_data list" where
  "requestedDataInCanonicalOrder requests =
     concat (map (\<lambda>dataClass.
       case List.find (\<lambda>candidate. rq_dataClass candidate = dataClass) requests of
         Some request \<Rightarrow> [request] | None \<Rightarrow> []) CONTACT_DATA_CLASSES)"

definition effectiveExpiry ::
  "js_number \<Rightarrow> js_number \<Rightarrow> js_number \<Rightarrow> (js_number option, value_object_error) domain_result" where
  "effectiveExpiry observedAt maxRetentionMilliseconds policyExpiresAt =
     (let retainedUntil = js_add observedAt maxRetentionMilliseconds
      in if \<not> is_safe_integer retainedUntil then succeed None
         else and_then (instant (js_min retainedUntil policyExpiresAt)) (\<lambda>i. succeed (Some i)))"

record mutable_decision =
  md_deniedDataClasses :: "jstring list"
  md_reasonCodes :: "privacy_reason list"
  md_retentionLimits :: "retention_limit list"

definition denyDataClass :: "jstring \<Rightarrow> privacy_reason \<Rightarrow> mutable_decision \<Rightarrow> mutable_decision" where
  "denyDataClass dataClass reasonCode decision =
     decision\<lparr>md_reasonCodes := pushUnique (md_reasonCodes decision) reasonCode,
       md_deniedDataClasses := List.insert dataClass (md_deniedDataClasses decision)\<rparr>"

definition push_limit :: "retention_limit \<Rightarrow> mutable_decision \<Rightarrow> mutable_decision" where
  "push_limit limit decision =
     decision\<lparr>md_retentionLimits := md_retentionLimits decision @ [limit]\<rparr>"

text \<open>The part of \<open>evaluateRequestedData\<close> after the retention limit has been found valid.\<close>

definition evaluate_retention ::
  "contact_privacy_policy \<Rightarrow> contact_privacy_facts \<Rightarrow> requested_contact_data \<Rightarrow>
   contact_data_rule \<Rightarrow> mutable_decision \<Rightarrow> (mutable_decision, value_object_error) domain_result" where
  "evaluate_retention policy facts request rule decision =
     (let dataClass = rq_dataClass request; maxRetention = cr_maxRetentionMilliseconds rule
      in case rq_observedAt request of
          None \<Rightarrow>
            succeed (if cf_action facts = Export
              then denyDataClass dataClass Observation_time_missing decision
              else push_limit \<lparr>lim_dataClass = dataClass,
                lim_maxRetentionMilliseconds = maxRetention,
                lim_expiresAt = cpp_expiresAt policy\<rparr> decision)
        | Some observedAt \<Rightarrow>
            if js_gt observedAt (cf_now facts)
            then succeed (denyDataClass dataClass Observation_time_invalid decision)
            else and_then (effectiveExpiry observedAt maxRetention (cpp_expiresAt policy))
              (\<lambda>expiry. case expiry of
                  None \<Rightarrow> succeed (denyDataClass dataClass Retention_limit_invalid decision)
                | Some expiresAt \<Rightarrow>
                    let decision' = push_limit \<lparr>lim_dataClass = dataClass,
                      lim_maxRetentionMilliseconds = maxRetention,
                      lim_expiresAt = expiresAt\<rparr> decision
                    in succeed (if js_ge (cf_now facts) expiresAt
                      then denyDataClass dataClass Ttl_expired decision' else decision')))"

definition evaluateRequestedData ::
  "contact_privacy_policy \<Rightarrow> contact_privacy_facts \<Rightarrow> requested_contact_data \<Rightarrow>
   mutable_decision \<Rightarrow> (mutable_decision, value_object_error) domain_result" where
  "evaluateRequestedData policy facts request decision =
     (let dataClass = rq_dataClass request
      in case map_get (cpp_rules policy) dataClass of
          None \<Rightarrow> succeed (denyDataClass dataClass Data_class_disabled decision)
        | Some rule \<Rightarrow>
            let d1 = (if dataClass \<in> set EXPLICIT_OPT_IN_CLASSES \<and>
                        dataClass \<notin> set (cf_explicitlyEnabledDataClasses facts)
                      then denyDataClass dataClass Explicit_opt_in_required decision else decision);
                d2 = (if cf_action facts \<notin> set (cr_allowedActions rule)
                      then denyDataClass dataClass Action_denied d1 else d1)
            in if \<not> is_safe_integer (cr_maxRetentionMilliseconds rule) \<or>
                  js_le (cr_maxRetentionMilliseconds rule) (num 0)
               then succeed (denyDataClass dataClass Retention_limit_invalid d2)
               else evaluate_retention policy facts request rule d2)"

fun evaluate_all ::
  "contact_privacy_policy \<Rightarrow> contact_privacy_facts \<Rightarrow> requested_contact_data list \<Rightarrow>
   mutable_decision \<Rightarrow> (mutable_decision, value_object_error) domain_result" where
  "evaluate_all policy facts [] decision = succeed decision"
| "evaluate_all policy facts (request # requests) decision =
     and_then (evaluateRequestedData policy facts request decision)
       (evaluate_all policy facts requests)"

text \<open>The reason codes that are pushed before any data class is evaluated.\<close>

definition global_reasons ::
  "contact_privacy_policy \<Rightarrow> contact_privacy_facts \<Rightarrow> privacy_reason list" where
  "global_reasons policy facts =
     (if list_ex (\<lambda>r. r \<notin> set CONTACT_PRIVACY_RESTRICTIONS) (cf_activeRestrictions facts)
      then [Restriction_unknown] else []) @
     map Restriction_active
       (filter (\<lambda>r. r \<in> set (cf_activeRestrictions facts)) CONTACT_PRIVACY_RESTRICTIONS) @
     (if js_ge (cf_now facts) (cpp_expiresAt policy) then [Policy_expired] else []) @
     (if \<not> isResolved (cf_purposeRef facts) then [Purpose_unresolved]
      else if the (cf_purposeRef facts) \<notin> set (cpp_purposeRefs policy) then [Purpose_denied] else []) @
     (if \<not> isResolved (cf_territory facts) then [Territory_unresolved]
      else if the (cf_territory facts) \<notin> set (cpp_territories policy) then [Territory_denied] else []) @
     (if list_ex (\<lambda>request. rq_dataClass request \<notin> set CONTACT_DATA_CLASSES) (cf_requestedData facts)
      then [Data_class_unknown] else []) @
     (if set_size (map rq_dataClass (cf_requestedData facts)) \<noteq> length (cf_requestedData facts)
      then [Data_class_duplicate] else []) @
     (if length (requestedDataInCanonicalOrder (cf_requestedData facts)) = 0
      then [Data_class_missing] else [])"

definition evaluateContactPrivacy ::
  "contact_privacy_policy \<Rightarrow> contact_privacy_facts \<Rightarrow>
   (privacy_decision, value_object_error) domain_result" where
  "evaluateContactPrivacy policy facts =
     (let requestedData = requestedDataInCanonicalOrder (cf_requestedData facts);
          reasons = global_reasons policy facts;
          start = \<lparr>md_deniedDataClasses =
              (if length reasons > 0 then map rq_dataClass requestedData else []),
            md_reasonCodes = reasons, md_retentionLimits = []\<rparr>
      in and_then (evaluate_all policy facts requestedData start)
        (\<lambda>decision.
          let allowed = (length (md_reasonCodes decision) = 0)
          in succeed \<lparr>prd_allowed = allowed, prd_policyVersion = cpp_version policy,
            prd_reasonCodes = (if allowed then [Privacy_allowed] else md_reasonCodes decision),
            prd_deniedDataClasses =
              filter (\<lambda>c. c \<in> set (md_deniedDataClasses decision)) CONTACT_DATA_CLASSES,
            prd_retentionLimits = md_retentionLimits decision,
            prd_stopExternalEffects = \<not> allowed, prd_stopFallback = \<not> allowed\<rparr>))"


section \<open>What the decisions mean\<close>

text \<open>
  A policy decision allows an action exactly when the workspace is the authority's, the
  actor and the authority both hold the required permission, the capability is one of the
  authority's and its deadline has not elapsed; otherwise it names a reason.
\<close>

lemma policy_allows_iff:
  "pd_allowed (evaluatePolicy policy facts) =
     (pf_workspaceId facts = ae_workspaceId (pf_authority facts) \<and>
      ps_requiredPermission policy \<in> set (pf_actorPermissions facts) \<and>
      ps_requiredPermission policy \<in> set (ae_permissions (pf_authority facts)) \<and>
      pf_capability facts \<in> set (ae_capabilities (pf_authority facts)) \<and>
      \<not> js_ge (pf_now facts) (ae_deadline (pf_authority facts))) \<and>
   (Policy_allowed \<in> set (pd_reasonCodes (evaluatePolicy policy facts))) =
      pd_allowed (evaluatePolicy policy facts) \<and>
   pd_reasonCodes (evaluatePolicy policy facts) \<noteq> []"
  by (auto simp: evaluatePolicy_def Let_def list_all_iff)

lemma isResolved_iff: "isResolved v \<longleftrightarrow> (\<exists>x. v = Some x \<and> \<not> blank x)"
  by (cases v) (simp_all add: isResolved_def)

lemma distinct_data_classes: "distinct CONTACT_DATA_CLASSES"
  by (simp add: CONTACT_DATA_CLASSES_def lit_def)

lemma canonical_order_mem:
  "r \<in> set (requestedDataInCanonicalOrder requests) \<longleftrightarrow>
     (\<exists>c\<in>set CONTACT_DATA_CLASSES. List.find (\<lambda>x. rq_dataClass x = c) requests = Some r)"
proof -
  have "set (case x of Some r \<Rightarrow> [r] | None \<Rightarrow> []) = set_option x"
    for x :: "requested_contact_data option"
    by (cases x) auto
  then show ?thesis by (simp add: requestedDataInCanonicalOrder_def)
qed

lemma canonical_order_subset:
  "r \<in> set (requestedDataInCanonicalOrder requests) \<Longrightarrow> r \<in> set requests"
  by (auto simp: canonical_order_mem dest: find_Some_mem)

lemma canonical_order_set:
  assumes "distinct (map rq_dataClass requests)"
    and "\<forall>r\<in>set requests. rq_dataClass r \<in> set CONTACT_DATA_CLASSES"
  shows "set (requestedDataInCanonicalOrder requests) = set requests"
proof -
  have "r \<in> set (requestedDataInCanonicalOrder requests)" if "r \<in> set requests" for r
    unfolding canonical_order_mem using assms that find_distinct_key [OF assms(1) that] by blast
  then show ?thesis using canonical_order_subset by blast
qed

text \<open>What one requested class needs.\<close>

definition request_permitted ::
  "contact_privacy_policy \<Rightarrow> contact_privacy_facts \<Rightarrow> requested_contact_data \<Rightarrow> bool" where
  "request_permitted policy facts request \<longleftrightarrow>
     (\<exists>rule. map_get (cpp_rules policy) (rq_dataClass request) = Some rule \<and>
        (rq_dataClass request \<in> set EXPLICIT_OPT_IN_CLASSES \<longrightarrow>
           rq_dataClass request \<in> set (cf_explicitlyEnabledDataClasses facts)) \<and>
        cf_action facts \<in> set (cr_allowedActions rule) \<and>
        is_safe_integer (cr_maxRetentionMilliseconds rule) \<and>
        \<not> js_le (cr_maxRetentionMilliseconds rule) (num 0) \<and>
        (case rq_observedAt request of
           None \<Rightarrow> cf_action facts \<noteq> Export
         | Some observedAt \<Rightarrow>
             \<not> js_gt observedAt (cf_now facts) \<and>
             is_safe_integer (js_add observedAt (cr_maxRetentionMilliseconds rule)) \<and>
             \<not> js_ge (cf_now facts)
               (js_min (js_add observedAt (cr_maxRetentionMilliseconds rule)) (cpp_expiresAt policy))))"

text \<open>What the request as a whole needs.\<close>

definition privacy_permits :: "contact_privacy_policy \<Rightarrow> contact_privacy_facts \<Rightarrow> bool" where
  "privacy_permits policy facts \<longleftrightarrow>
     cf_activeRestrictions facts = [] \<and>
     \<not> js_ge (cf_now facts) (cpp_expiresAt policy) \<and>
     (\<exists>p. cf_purposeRef facts = Some p \<and> \<not> blank p \<and> p \<in> set (cpp_purposeRefs policy)) \<and>
     (\<exists>t. cf_territory facts = Some t \<and> \<not> blank t \<and> t \<in> set (cpp_territories policy)) \<and>
     cf_requestedData facts \<noteq> [] \<and> distinct (map rq_dataClass (cf_requestedData facts)) \<and>
     (\<forall>request\<in>set (cf_requestedData facts).
        rq_dataClass request \<in> set CONTACT_DATA_CLASSES \<and> request_permitted policy facts request)"

lemma denyDataClass_reasons [simp]: "md_reasonCodes (denyDataClass c r d) \<noteq> []"
  by (auto simp: denyDataClass_def pushUnique_def)

lemma push_limit_reasons [simp]: "md_reasonCodes (push_limit l d) = md_reasonCodes d"
  by (simp add: push_limit_def)

lemma instant_Inr_same: "instant x = Inr y \<Longrightarrow> y = x"
  using instant_InrD by blast

lemma effectiveExpiry_InrD:
  "effectiveExpiry observedAt retention expires = Inr e \<Longrightarrow>
   e = (if is_safe_integer (js_add observedAt retention)
        then Some (js_min (js_add observedAt retention) expires) else None)"
  by (auto simp: effectiveExpiry_def Let_def dest: instant_Inr_same split: if_splits)

lemma evaluate_retention_reasons:
  assumes "evaluate_retention policy facts request rule d = Inr d'"
  shows "md_reasonCodes d' = [] \<longleftrightarrow> md_reasonCodes d = [] \<and>
    (case rq_observedAt request of
       None \<Rightarrow> cf_action facts \<noteq> Export
     | Some observedAt \<Rightarrow>
         \<not> js_gt observedAt (cf_now facts) \<and>
         is_safe_integer (js_add observedAt (cr_maxRetentionMilliseconds rule)) \<and>
         \<not> js_ge (cf_now facts)
           (js_min (js_add observedAt (cr_maxRetentionMilliseconds rule)) (cpp_expiresAt policy)))"
proof (cases "rq_observedAt request")
  case None
  then show ?thesis using assms by (auto simp: evaluate_retention_def Let_def split: if_splits)
next
  case (Some observedAt)
  show ?thesis
  proof (cases "js_gt observedAt (cf_now facts)")
    case True
    then show ?thesis using assms Some by (auto simp: evaluate_retention_def Let_def)
  next
    case False
    let ?u = "js_add observedAt (cr_maxRetentionMilliseconds rule)"
    obtain e where e: "effectiveExpiry observedAt (cr_maxRetentionMilliseconds rule) (cpp_expiresAt policy) =
        Inr e"
      using assms Some False by (auto simp: evaluate_retention_def Let_def)
    from effectiveExpiry_InrD [OF e] show ?thesis
      using assms Some False e
      by (cases "is_safe_integer ?u"; cases "js_ge (cf_now facts) (js_min ?u (cpp_expiresAt policy))")
        (auto simp: evaluate_retention_def Let_def)
  qed
qed

lemma evaluateRequestedData_reasons:
  assumes "evaluateRequestedData policy facts request d = Inr d'"
  shows "md_reasonCodes d' = [] \<longleftrightarrow> md_reasonCodes d = [] \<and> request_permitted policy facts request"
proof (cases "map_get (cpp_rules policy) (rq_dataClass request)")
  case None
  then show ?thesis using assms by (auto simp: evaluateRequestedData_def request_permitted_def)
next
  case (Some rule)
  then show ?thesis
    using assms unfolding evaluateRequestedData_def request_permitted_def Let_def
    by (auto split: if_splits dest!: evaluate_retention_reasons)
qed

lemma evaluate_all_reasons:
  "evaluate_all policy facts requests d = Inr d' \<Longrightarrow>
   md_reasonCodes d' = [] \<longleftrightarrow>
     md_reasonCodes d = [] \<and> (\<forall>request\<in>set requests. request_permitted policy facts request)"
proof (induction requests arbitrary: d)
  case (Cons request requests)
  then obtain v where "evaluateRequestedData policy facts request d = Inr v"
    "evaluate_all policy facts requests v = Inr d'" by auto
  then show ?case using Cons.IH evaluateRequestedData_reasons by fastforce
qed simp

lemma global_reasons_Nil:
  "global_reasons policy facts = [] \<longleftrightarrow>
     cf_activeRestrictions facts = [] \<and>
     \<not> js_ge (cf_now facts) (cpp_expiresAt policy) \<and>
     (\<exists>p. cf_purposeRef facts = Some p \<and> \<not> blank p \<and> p \<in> set (cpp_purposeRefs policy)) \<and>
     (\<exists>t. cf_territory facts = Some t \<and> \<not> blank t \<and> t \<in> set (cpp_territories policy)) \<and>
     (\<forall>request\<in>set (cf_requestedData facts). rq_dataClass request \<in> set CONTACT_DATA_CLASSES) \<and>
     distinct (map rq_dataClass (cf_requestedData facts)) \<and>
     requestedDataInCanonicalOrder (cf_requestedData facts) \<noteq> []"
proof -
  have restrictions: "\<not> list_ex (\<lambda>r. r \<notin> set CONTACT_PRIVACY_RESTRICTIONS) rs \<and>
      filter (\<lambda>r. r \<in> set rs) CONTACT_PRIVACY_RESTRICTIONS = [] \<longleftrightarrow> rs = []" for rs
    by (cases rs) (auto simp: list_ex_iff filter_empty_conv)
  have size: "set_size (map rq_dataClass rs) = length rs \<longleftrightarrow> distinct (map rq_dataClass rs)" for rs
    using set_size_distinct [of "map rq_dataClass rs"] by simp
  show ?thesis
    using restrictions [of "cf_activeRestrictions facts"]
    unfolding global_reasons_def size
    by (auto simp: isResolved_iff list_ex_iff split: if_splits)
qed

text \<open>
  C19. The contact privacy decision fails closed: whenever it is made, it allows a request exactly
  when there is no active restriction at all, known or unknown, the policy has not expired,
  purpose and territory are resolved and listed, and the request names at least one data class,
  all of them known and distinct, each with a rule that permits the action and has a retention
  that is a positive safe integer, and with an explicit opt-in for personal emails and phones. An
  observation that is stated must not lie in the future, and its end of retention must be a safe
  integer that is not yet reached; an export needs an observation for every class, and every other
  action may do without. A request that is not allowed stops both the external effects and the
  fallback, and an allowed one stops neither.
\<close>

theorem contact_privacy_fails_closed:
  assumes "evaluateContactPrivacy policy facts = Inr d"
  shows "prd_allowed d = privacy_permits policy facts \<and>
    prd_stopExternalEffects d = (\<not> prd_allowed d) \<and> prd_stopFallback d = (\<not> prd_allowed d)"
proof -
  let ?requests = "requestedDataInCanonicalOrder (cf_requestedData facts)"
  obtain start end' where start: "md_reasonCodes start = global_reasons policy facts"
    and run: "evaluate_all policy facts ?requests start = Inr end'"
    and d: "prd_allowed d = (md_reasonCodes end' = [])"
      "prd_stopExternalEffects d = (\<not> prd_allowed d)" "prd_stopFallback d = (\<not> prd_allowed d)"
  proof -
    let ?start = "\<lparr>md_deniedDataClasses =
        (if length (global_reasons policy facts) > 0 then map rq_dataClass ?requests else []),
      md_reasonCodes = global_reasons policy facts, md_retentionLimits = []\<rparr>"
    obtain e where "evaluate_all policy facts ?requests ?start = Inr e"
      "prd_allowed d = (md_reasonCodes e = [])" "prd_stopExternalEffects d = (\<not> prd_allowed d)"
      "prd_stopFallback d = (\<not> prd_allowed d)"
      using assms unfolding evaluateContactPrivacy_def Let_def by auto
    then show thesis by (intro that [of ?start e]) simp_all
  qed
  have "prd_allowed d \<longleftrightarrow>
      global_reasons policy facts = [] \<and> (\<forall>request\<in>set ?requests. request_permitted policy facts request)"
    using evaluate_all_reasons [OF run] start d(1) by simp
  also have "\<dots> \<longleftrightarrow> privacy_permits policy facts"
    using canonical_order_set [of "cf_requestedData facts"]
    unfolding global_reasons_Nil privacy_permits_def by fastforce
  finally show ?thesis using d by simp
qed


definition ex_privacy_policy :: contact_privacy_policy where
  "ex_privacy_policy =
     \<lparr>cpp_version = lit ''1'', cpp_purposeRefs = [lit ''sales''], cpp_territories = [lit ''EU''],
      cpp_expiresAt = num 1000,
      cpp_rules = [(lit ''phone'', \<lparr>cr_allowedActions = [Enrich],
        cr_maxRetentionMilliseconds = num 500\<rparr>)]\<rparr>"

definition ex_privacy_facts :: "jstring list \<Rightarrow> contact_privacy_facts" where
  "ex_privacy_facts optedIn =
     \<lparr>cf_action = Enrich, cf_purposeRef = Some (lit ''sales''), cf_territory = Some (lit ''EU''),
      cf_requestedData = [\<lparr>rq_dataClass = lit ''phone'', rq_observedAt = Some (num 100)\<rparr>],
      cf_explicitlyEnabledDataClasses = optedIn, cf_activeRestrictions = [], cf_now = num 200\<rparr>"

lemmas ex_privacy_defs = ex_privacy_policy_def ex_privacy_facts_def CONTACT_DATA_CLASSES_def
  EXPLICIT_OPT_IN_CLASSES_def CONTACT_PRIVACY_RESTRICTIONS_def

lemma ex_privacy:
  "\<exists>d. evaluateContactPrivacy ex_privacy_policy (ex_privacy_facts []) = Inr d"
  by (simp add: evaluateContactPrivacy_def ex_privacy_defs requestedDataInCanonicalOrder_def
      evaluateRequestedData_def evaluate_retention_def effectiveExpiry_def global_reasons_def
      isResolved_def map_get_def instant_def set_size_def max_safe_def lit_def Let_def)

theorem contact_privacy_fails_closed_witness:
  "\<exists>d. evaluateContactPrivacy ex_privacy_policy (ex_privacy_facts []) = Inr d \<and> \<not> prd_allowed d"
proof -
  obtain d where d: "evaluateContactPrivacy ex_privacy_policy (ex_privacy_facts []) = Inr d"
    using ex_privacy by blast
  have "\<not> privacy_permits ex_privacy_policy (ex_privacy_facts [])"
    by (simp add: privacy_permits_def request_permitted_def ex_privacy_defs map_get_def)
  then show ?thesis using contact_privacy_fails_closed [OF d] d by blast
qed

lemma js_order_NegZero [simp]:
  "js_lt NegZero (num n) \<longleftrightarrow> 0 < n" "js_lt (num n) NegZero \<longleftrightarrow> n < 0"
  "js_eq NegZero (num n) \<longleftrightarrow> n = 0" "js_eq (num n) NegZero \<longleftrightarrow> n = 0"
  by (auto simp: js_lt_def js_eq_def num_def zero_less_mult_iff mult_less_0_iff)

text \<open>Instants: zero of either sign, or a positive safe integer.\<close>

definition is_instant :: "js_number \<Rightarrow> bool" where
  "is_instant x \<longleftrightarrow> instant x = Inr x"

lemma is_instant_iff: "is_instant x \<longleftrightarrow> x = NegZero \<or> (\<exists>n. x = num n \<and> 0 \<le> n \<and> n \<le> max_safe)"
proof
  assume "is_instant x"
  then have "is_safe_integer x" "\<not> js_lt x (num 0)"
    by (auto simp: is_instant_def instant_def split: if_splits)
  then show "x = NegZero \<or> (\<exists>n. x = num n \<and> 0 \<le> n \<and> n \<le> max_safe)"
    by (auto elim!: is_safe_integerE)
next
  assume "x = NegZero \<or> (\<exists>n. x = num n \<and> 0 \<le> n \<and> n \<le> max_safe)"
  then show "is_instant x"
    by (auto simp: is_instant_def instant_def)
qed

lemma is_instant_min:
  assumes "is_instant x" and "is_instant y"
  shows "is_instant (js_min x y) \<and> js_le (js_min x y) y"
  using assms by (auto simp: is_instant_iff js_min_def js_le_def js_lt_def js_eq_def num_def)

lemma is_instant_add:
  assumes "is_instant x" and "is_safe_integer m" and "\<not> js_le m (num 0)"
    and "is_safe_integer (js_add x m)"
  shows "is_instant (js_add x m)"
proof -
  obtain k where m: "m = num k" "0 < k"
    using assms(2,3) by (auto elim!: is_safe_integerE simp: js_le_def)
  have "js_ge (js_add x m) (num 0)"
  proof (cases "x = NegZero \<or> x = num 0")
    case True
    then show ?thesis using m by (auto simp: num_def js_le_def js_lt_def js_eq_def)
  next
    case False
    then obtain n where n: "x = num n" "0 < n" using assms(1) by (force simp: is_instant_iff)
    then have "js_add x m = round_scaled False (n * one_units + k * one_units) 0"
      using m by (simp add: num_def)
    then show ?thesis using n m round_scaled_nonneg [of "n * one_units + k * one_units" 0] by simp
  qed
  then have "isAmount (js_add x m)"
    using assms(4) by (simp add: isAmount_def is_safe_integer_finite)
  then show ?thesis using assms(4) by (auto elim!: is_safe_integerE simp: is_instant_iff)
qed


lemma effectiveExpiry_total:
  assumes "is_instant observedAt" and "is_instant expires"
    and "is_safe_integer retention" and "\<not> js_le retention (num 0)"
  shows "\<exists>e. effectiveExpiry observedAt retention expires = Inr e \<and>
    (\<forall>i. e = Some i \<longrightarrow> js_le i expires)"
proof (cases "is_safe_integer (js_add observedAt retention)")
  case True
  then show ?thesis
    using is_instant_min [OF is_instant_add [OF assms(1,3,4) True] assms(2)]
    by (simp add: effectiveExpiry_def Let_def is_instant_def)
qed (simp add: effectiveExpiry_def)

definition limits_within :: "js_number \<Rightarrow> mutable_decision \<Rightarrow> bool" where
  "limits_within expires d \<longleftrightarrow> (\<forall>l\<in>set (md_retentionLimits d). js_le (lim_expiresAt l) expires)"

lemma limits_within_simps [simp]:
  "limits_within expires (denyDataClass c r d) = limits_within expires d"
  "limits_within expires (push_limit l d) \<longleftrightarrow>
     limits_within expires d \<and> js_le (lim_expiresAt l) expires"
  by (auto simp: limits_within_def denyDataClass_def push_limit_def)

lemma is_instant_refl: "is_instant x \<Longrightarrow> js_le x x"
  by (auto simp: is_instant_iff js_le_def js_eq_def)

lemma evaluateRequestedData_total:
  assumes "is_instant (cpp_expiresAt policy)"
    and "case rq_observedAt request of None \<Rightarrow> True | Some t \<Rightarrow> is_instant t"
    and "limits_within (cpp_expiresAt policy) d"
  shows "\<exists>d'. evaluateRequestedData policy facts request d = Inr d' \<and>
    limits_within (cpp_expiresAt policy) d'"
proof (cases "map_get (cpp_rules policy) (rq_dataClass request)")
  case None
  then show ?thesis using assms(3) by (simp add: evaluateRequestedData_def Let_def)
next
  case (Some rule)
  have retention: "\<exists>d'. evaluate_retention policy facts request rule d2 = Inr d' \<and>
      limits_within (cpp_expiresAt policy) d'"
    if "limits_within (cpp_expiresAt policy) d2" "is_safe_integer (cr_maxRetentionMilliseconds rule)"
      "\<not> js_le (cr_maxRetentionMilliseconds rule) (num 0)" for d2
  proof (cases "rq_observedAt request")
    case None
    then show ?thesis using that is_instant_refl [OF assms(1)]
      by (simp add: evaluate_retention_def Let_def)
  next
    case (Some t)
    note d2 = that
    from Some obtain e where "effectiveExpiry t (cr_maxRetentionMilliseconds rule) (cpp_expiresAt policy) = Inr e"
      "\<forall>i. e = Some i \<longrightarrow> js_le i (cpp_expiresAt policy)"
      using effectiveExpiry_total [OF _ assms(1) d2(2,3)] assms(2) by auto
    then show ?thesis using Some d2(1) by (cases e) (simp_all add: evaluate_retention_def Let_def)
  qed
  show ?thesis
    using Some assms(3) retention by (simp add: evaluateRequestedData_def Let_def)
qed

lemma evaluate_all_total:
  assumes "is_instant (cpp_expiresAt policy)"
  shows "\<forall>request\<in>set requests. case rq_observedAt request of None \<Rightarrow> True | Some t \<Rightarrow> is_instant t \<Longrightarrow>
    limits_within (cpp_expiresAt policy) d \<Longrightarrow>
    \<exists>d'. evaluate_all policy facts requests d = Inr d' \<and> limits_within (cpp_expiresAt policy) d'"
proof (induction requests arbitrary: d)
  case (Cons request requests)
  then obtain v where "evaluateRequestedData policy facts request d = Inr v"
    "limits_within (cpp_expiresAt policy) v"
    using evaluateRequestedData_total [OF assms, of request d facts] by auto
  then show ?case using Cons by simp
qed simp

text \<open>
  C27. On valid instants the privacy decision is always made (the \<open>instant\<close> constructor
  never throws), and no retention limit that it grants outlives the policy.
\<close>

theorem contact_privacy_decides:
  assumes "is_instant (cpp_expiresAt policy)"
    and "\<forall>request\<in>set (cf_requestedData facts).
      case rq_observedAt request of None \<Rightarrow> True | Some t \<Rightarrow> is_instant t"
  shows "\<exists>d. evaluateContactPrivacy policy facts = Inr d \<and>
    (\<forall>l\<in>set (prd_retentionLimits d). js_le (lim_expiresAt l) (cpp_expiresAt policy))"
proof -
  let ?requests = "requestedDataInCanonicalOrder (cf_requestedData facts)"
  let ?start = "\<lparr>md_deniedDataClasses =
      (if length (global_reasons policy facts) > 0 then map rq_dataClass ?requests else []),
    md_reasonCodes = global_reasons policy facts, md_retentionLimits = []\<rparr>"
  have "\<forall>request\<in>set ?requests. case rq_observedAt request of None \<Rightarrow> True | Some t \<Rightarrow> is_instant t"
    using assms(2) canonical_order_subset by blast
  then obtain e where "evaluate_all policy facts ?requests ?start = Inr e"
    "limits_within (cpp_expiresAt policy) e"
    using evaluate_all_total [OF assms(1), of ?requests ?start facts] by (auto simp: limits_within_def)
  then show ?thesis
    by (simp add: evaluateContactPrivacy_def Let_def limits_within_def)
qed

theorem contact_privacy_decides_witness:
  "\<exists>d. evaluateContactPrivacy ex_privacy_policy (ex_privacy_facts []) = Inr d \<and>
     (\<forall>l\<in>set (prd_retentionLimits d). js_le (lim_expiresAt l) (num 1000))"
  using contact_privacy_decides [of ex_privacy_policy "ex_privacy_facts []"]
  by (simp add: ex_privacy_policy_def ex_privacy_facts_def is_instant_def instant_def max_safe_def)

end
