(* ===== verification/Product.thy ===== *)
theory Product
  imports Amount Value_Objects
begin

text \<open>
  \<open>kernel/src/product.ts\<close> and \<open>kernel/src/cell-result-lifecycle.ts\<close>: datasets with their
  fields and records, enrichment recipes, and the results of cells. Values respect the
  declared types, so the checks for values outside a closed union have no counterpart; an
  optional property of a cell result may be absent or present but undefined, because the
  code tells the two apart with \<open>Object.hasOwn\<close>.
\<close>

section \<open>Types\<close>

definition MAX_NAME_LENGTH :: nat where "MAX_NAME_LENGTH = 255"
definition MAX_DATASET_FIELDS :: nat where "MAX_DATASET_FIELDS = 256"
definition MAX_FIELD_KEY_LENGTH :: nat where "MAX_FIELD_KEY_LENGTH = 128"
definition MAX_SCALAR_STRING_LENGTH :: nat where "MAX_SCALAR_STRING_LENGTH = 16384"
definition MAX_SCALAR_NUMBER :: int where "MAX_SCALAR_NUMBER = 1000000000000000"
definition MAX_RECORD_VALUES :: nat where "MAX_RECORD_VALUES = 256"
definition MAX_RECIPE_INPUTS :: nat where "MAX_RECIPE_INPUTS = 64"
definition MAX_PROVENANCE_REFERENCES :: nat where "MAX_PROVENANCE_REFERENCES = 32"
definition MAX_PROVENANCE_REFERENCE_LENGTH :: nat where "MAX_PROVENANCE_REFERENCE_LENGTH = 2048"
definition MAX_REASON_CODE_LENGTH :: nat where "MAX_REASON_CODE_LENGTH = 128"
definition MAX_REASON_MESSAGE_LENGTH :: nat where "MAX_REASON_MESSAGE_LENGTH = 1024"
definition MAX_COST_UNIT_LENGTH :: nat where "MAX_COST_UNIT_LENGTH = 64"

datatype scalar_value = VBool bool | VNull | VNumber js_number | VString jstring

datatype field_value_type = T_boolean | T_number | T_string

record dataset =
  ds_datasetId :: jstring
  ds_name :: jstring
  ds_workspaceId :: jstring

record field =
  fd_datasetId :: jstring
  fd_fieldId :: jstring
  fd_key :: jstring
  fd_label :: jstring
  fd_valueType :: field_value_type
  fd_workspaceId :: jstring

record record_value =
  rv_fieldId :: jstring
  rv_value :: scalar_value

record data_record =
  rec_datasetId :: jstring
  rec_recordId :: jstring
  rec_values :: "record_value list"
  rec_workspaceId :: jstring

record enrichment_recipe =
  er_datasetId :: jstring
  er_enrichmentRecipeId :: jstring
  er_inputFieldIds :: "jstring list"
  er_name :: jstring
  er_recipeRevision :: jstring
  er_targetFieldId :: jstring
  er_workflowContentHash :: jstring
  er_workflowRevision :: jstring
  er_workflowSpecId :: jstring
  er_workspaceId :: jstring

datatype cell_status = CS_pending | CS_running | CS_succeeded | CS_failed | CS_skipped

record cell_freshness =
  fr_observedAt :: js_number
  fr_expiresAt :: "js_number option"

datatype cost_basis = Basis_estimated | Basis_exact

record cell_cost =
  cc_amount :: js_number
  cc_basis :: cost_basis
  cc_unit :: jstring

record cell_reason =
  cre_code :: jstring
  cre_message :: jstring
  cre_retryable :: bool

text \<open>A property that is absent, present with the value \<open>undefined\<close>, or present.\<close>

datatype 'a own = Absent | Undefined | Present 'a

fun has_own :: "'a own \<Rightarrow> bool" where
  "has_own Absent = False"
| "has_own _ = True"

fun read_own :: "'a own \<Rightarrow> 'a option" where
  "read_own (Present v) = Some v"
| "read_own _ = None"

record cell_result =
  ce_cellResultId :: jstring
  ce_datasetId :: jstring
  ce_enrichmentRecipeId :: jstring
  ce_fieldId :: jstring
  ce_recipeRevision :: jstring
  ce_recordId :: jstring
  ce_runId :: jstring
  ce_status :: cell_status
  ce_workspaceId :: jstring
  ce_confidence :: "js_number own"
  ce_cost :: "cell_cost own"
  ce_freshness :: "cell_freshness own"
  ce_provenance :: "jstring list own"
  ce_reason :: "cell_reason own"
  ce_value :: "scalar_value own"

datatype product_failure =
    Cell_result_confidence_invalid | Cell_result_cost_invalid | Cell_result_freshness_invalid
  | Cell_result_provenance_invalid | Cell_result_reason_invalid
  | Cell_result_recipe_revision_mismatch | Cell_result_scope_mismatch
  | Cell_result_status_invalid | Cell_result_target_mismatch | Cell_result_value_invalid
  | Dataset_name_invalid | Field_collection_invalid | Field_key_invalid | Field_label_invalid
  | Field_scope_mismatch | Product_identity_invalid
  | Record_scope_mismatch | Record_too_large | Record_value_duplicate
  | Record_value_field_unknown | Record_value_invalid | Record_value_type_mismatch
  | Recipe_input_duplicate | Recipe_input_required | Recipe_input_target_conflict
  | Recipe_input_unknown | Recipe_name_invalid | Recipe_revision_invalid
  | Recipe_scope_mismatch | Recipe_target_unknown | Recipe_workflow_hash_invalid
  | Recipe_workflow_revision_invalid


section \<open>Texts and scalars\<close>

definition lower :: "code_unit \<Rightarrow> bool" where "lower u \<longleftrightarrow> 97 \<le> u \<and> u \<le> 122"
definition digit :: "code_unit \<Rightarrow> bool" where "digit u \<longleftrightarrow> 48 \<le> u \<and> u \<le> 57"

text \<open>\<open>/^[a-z][a-z0-9_]*$/u\<close>\<close>

definition FIELD_KEY_PATTERN :: "jstring \<Rightarrow> bool" where
  "FIELD_KEY_PATTERN s \<longleftrightarrow>
     (case s of [] \<Rightarrow> False
      | u # t \<Rightarrow> lower u \<and> list_all (\<lambda>c. lower c \<or> digit c \<or> c = 95) t)"

text \<open>\<open>/^[a-z][a-z0-9._-]*$/u\<close>\<close>

definition COST_UNIT_PATTERN :: "jstring \<Rightarrow> bool" where
  "COST_UNIT_PATTERN s \<longleftrightarrow>
     (case s of [] \<Rightarrow> False
      | u # t \<Rightarrow> lower u \<and> list_all (\<lambda>c. lower c \<or> digit c \<or> c = 46 \<or> c = 95 \<or> c = 45) t)"

text \<open>\<open>/^[a-z][a-z0-9]*(?:-[a-z0-9]+)*$/u\<close>: after a letter, a hyphen must be followed by more.\<close>

fun hyphenated :: "jstring \<Rightarrow> bool" where
  "hyphenated [] = True"
| "hyphenated (u # s) =
     (if lower u \<or> digit u then hyphenated s
      else u = 45 \<and> (case s of [] \<Rightarrow> False | v # _ \<Rightarrow> lower v \<or> digit v) \<and> hyphenated s)"

definition REDACTED_REASON_CODE_PATTERN :: "jstring \<Rightarrow> bool" where
  "REDACTED_REASON_CODE_PATTERN s \<longleftrightarrow>
     (case s of [] \<Rightarrow> False | u # t \<Rightarrow> lower u \<and> hyphenated t)"

definition isBoundedText :: "jstring \<Rightarrow> nat \<Rightarrow> bool" where
  "isBoundedText value limit \<longleftrightarrow> length (trim value) > 0 \<and> code_points value \<le> limit"

definition isBoundedIdentity :: "jstring \<Rightarrow> bool" where
  "isBoundedIdentity value \<longleftrightarrow> isBoundedText value MAX_NAME_LENGTH"

fun isBoundedScalar :: "scalar_value \<Rightarrow> bool" where
  "isBoundedScalar VNull = True"
| "isBoundedScalar (VBool _) = True"
| "isBoundedScalar (VString s) = (code_points s \<le> MAX_SCALAR_STRING_LENGTH)"
| "isBoundedScalar (VNumber x) =
     (is_finite x \<and> js_ge x (num (- MAX_SCALAR_NUMBER)) \<and> js_le x (num MAX_SCALAR_NUMBER))"

text \<open>\<open>undefined\<close> is of no scalar type.\<close>

fun isBoundedValue :: "scalar_value option \<Rightarrow> bool" where
  "isBoundedValue None = False"
| "isBoundedValue (Some v) = isBoundedScalar v"

fun valueMatchesField :: "scalar_value \<Rightarrow> field \<Rightarrow> bool" where
  "valueMatchesField VNull field = True"
| "valueMatchesField (VBool _) field = (fd_valueType field = T_boolean)"
| "valueMatchesField (VNumber _) field = (fd_valueType field = T_number)"
| "valueMatchesField (VString _) field = (fd_valueType field = T_string)"


section \<open>Datasets and fields\<close>

definition hasDatasetScope :: "dataset \<Rightarrow> jstring \<Rightarrow> jstring \<Rightarrow> bool" where
  "hasDatasetScope dataset datasetId workspaceId \<longleftrightarrow>
     datasetId = ds_datasetId dataset \<and> workspaceId = ds_workspaceId dataset"

definition validateField :: "dataset \<Rightarrow> field \<Rightarrow> (unit, product_failure) domain_result" where
  "validateField dataset field =
     (if \<not> isBoundedIdentity (fd_fieldId field) then fail Product_identity_invalid
      else if \<not> hasDatasetScope dataset (fd_datasetId field) (fd_workspaceId field)
      then fail Field_scope_mismatch
      else if length (fd_key field) > MAX_FIELD_KEY_LENGTH \<or> \<not> FIELD_KEY_PATTERN (fd_key field)
      then fail Field_key_invalid
      else if \<not> isBoundedText (fd_label field) MAX_NAME_LENGTH then fail Field_label_invalid
      else succeed ())"

fun index_loop ::
  "dataset \<Rightarrow> field list \<Rightarrow> (jstring, field) js_map \<Rightarrow> jstring list \<Rightarrow>
   ((jstring, field) js_map, product_failure) domain_result" where
  "index_loop dataset [] fieldsById fieldKeys = succeed fieldsById"
| "index_loop dataset (field # fds) fieldsById fieldKeys =
     and_then (validateField dataset field)
       (\<lambda>_. if map_has fieldsById (fd_fieldId field) \<or> fd_key field \<in> set fieldKeys
         then fail Field_collection_invalid
         else index_loop dataset fds (map_set (fd_fieldId field) field fieldsById)
           (fd_key field # fieldKeys))"

definition indexFields ::
  "dataset \<Rightarrow> field list \<Rightarrow> ((jstring, field) js_map, product_failure) domain_result" where
  "indexFields dataset fds =
     (if length fds > MAX_DATASET_FIELDS then fail Field_collection_invalid
      else index_loop dataset fds [] [])"

definition createDataset :: "dataset \<Rightarrow> (dataset, product_failure) domain_result" where
  "createDataset input =
     (if \<not> (isBoundedIdentity (ds_datasetId input) \<and> isBoundedIdentity (ds_workspaceId input))
      then fail Product_identity_invalid
      else if \<not> isBoundedText (ds_name input) MAX_NAME_LENGTH then fail Dataset_name_invalid
      else succeed input)"

definition createField :: "dataset \<Rightarrow> field \<Rightarrow> (field, product_failure) domain_result" where
  "createField dataset input = and_then (validateField dataset input) (\<lambda>_. succeed input)"

definition validateDatasetFields ::
  "dataset \<Rightarrow> field list \<Rightarrow> (field list, product_failure) domain_result" where
  "validateDatasetFields dataset fds =
     and_then (indexFields dataset fds) (\<lambda>_. succeed fds)"


section \<open>Records and recipes\<close>

fun record_values_loop ::
  "(jstring, field) js_map \<Rightarrow> jstring list \<Rightarrow> record_value list \<Rightarrow> product_failure option" where
  "record_values_loop indexed seen [] = None"
| "record_values_loop indexed seen (entry # entries) =
     (if rv_fieldId entry \<in> set seen then Some Record_value_duplicate
      else case map_get indexed (rv_fieldId entry) of
          None \<Rightarrow> Some Record_value_field_unknown
        | Some field \<Rightarrow>
            if \<not> isBoundedScalar (rv_value entry) then Some Record_value_invalid
            else if \<not> valueMatchesField (rv_value entry) field then Some Record_value_type_mismatch
            else record_values_loop indexed (rv_fieldId entry # seen) entries)"

definition createRecord ::
  "dataset \<Rightarrow> field list \<Rightarrow> data_record \<Rightarrow> (data_record, product_failure) domain_result" where
  "createRecord dataset fds input =
     (if \<not> isBoundedIdentity (rec_recordId input) then fail Product_identity_invalid
      else if \<not> hasDatasetScope dataset (rec_datasetId input) (rec_workspaceId input)
      then fail Record_scope_mismatch
      else if length (rec_values input) > MAX_RECORD_VALUES then fail Record_too_large
      else and_then (indexFields dataset fds)
        (\<lambda>indexed. case record_values_loop indexed [] (rec_values input) of
            Some e \<Rightarrow> fail e
          | None \<Rightarrow> succeed input))"

definition createEnrichmentRecipe ::
  "dataset \<Rightarrow> field list \<Rightarrow> enrichment_recipe \<Rightarrow> (enrichment_recipe, product_failure) domain_result" where
  "createEnrichmentRecipe dataset fds input =
     (if \<not> (isBoundedIdentity (er_enrichmentRecipeId input) \<and> isBoundedIdentity (er_workflowSpecId input))
      then fail Product_identity_invalid
      else if \<not> hasDatasetScope dataset (er_datasetId input) (er_workspaceId input)
      then fail Recipe_scope_mismatch
      else if \<not> isBoundedText (er_name input) MAX_NAME_LENGTH then fail Recipe_name_invalid
      else if \<not> isBoundedText (er_recipeRevision input) MAX_NAME_LENGTH then fail Recipe_revision_invalid
      else if \<not> content_hash_pattern (er_workflowContentHash input)
      then fail Recipe_workflow_hash_invalid
      else if \<not> isBoundedText (er_workflowRevision input) MAX_NAME_LENGTH
      then fail Recipe_workflow_revision_invalid
      else if length (er_inputFieldIds input) = 0 \<or> length (er_inputFieldIds input) > MAX_RECIPE_INPUTS
      then fail Recipe_input_required
      else and_then (indexFields dataset fds)
        (\<lambda>indexed.
          if \<not> map_has indexed (er_targetFieldId input) then fail Recipe_target_unknown
          else if set_size (er_inputFieldIds input) \<noteq> length (er_inputFieldIds input)
          then fail Recipe_input_duplicate
          else if er_targetFieldId input \<in> set (er_inputFieldIds input)
          then fail Recipe_input_target_conflict
          else if list_ex (\<lambda>fieldId. \<not> map_has indexed fieldId) (er_inputFieldIds input)
          then fail Recipe_input_unknown
          else succeed input))"


section \<open>Cell results\<close>

definition validateProvenance :: "jstring list option \<Rightarrow> (unit, product_failure) domain_result" where
  "validateProvenance provenance =
     (case provenance of
        None \<Rightarrow> succeed ()
      | Some references \<Rightarrow>
          if length references = 0 \<or> length references > MAX_PROVENANCE_REFERENCES \<or>
             set_size references \<noteq> length references \<or>
             list_ex (\<lambda>reference. \<not> isBoundedText reference MAX_PROVENANCE_REFERENCE_LENGTH)
               references
          then fail Cell_result_provenance_invalid
          else succeed ())"

definition validateFreshness :: "cell_freshness option \<Rightarrow> (unit, product_failure) domain_result" where
  "validateFreshness freshness =
     (case freshness of
        None \<Rightarrow> succeed ()
      | Some f \<Rightarrow>
          if \<not> is_safe_integer (fr_observedAt f) \<or> js_lt (fr_observedAt f) (num 0) \<or>
             (case fr_expiresAt f of
                None \<Rightarrow> False
              | Some e \<Rightarrow> \<not> is_safe_integer e \<or> js_lt e (fr_observedAt f))
          then fail Cell_result_freshness_invalid
          else succeed ())"

definition validateConfidence :: "js_number option \<Rightarrow> (unit, product_failure) domain_result" where
  "validateConfidence confidence =
     (case confidence of
        None \<Rightarrow> succeed ()
      | Some c \<Rightarrow>
          if is_finite c \<and> js_ge c (num 0) \<and> js_le c (num 1) then succeed ()
          else fail Cell_result_confidence_invalid)"

definition validateCost :: "cell_cost option \<Rightarrow> (unit, product_failure) domain_result" where
  "validateCost cost =
     (case cost of
        None \<Rightarrow> succeed ()
      | Some c \<Rightarrow>
          if length (cc_unit c) > MAX_COST_UNIT_LENGTH \<or> \<not> COST_UNIT_PATTERN (cc_unit c) \<or>
             \<not> is_finite (cc_amount c) \<or> js_lt (cc_amount c) (num 0) \<or>
             js_gt (cc_amount c) (num MAX_SCALAR_NUMBER)
          then fail Cell_result_cost_invalid
          else succeed ())"

definition validateCellStatus ::
  "cell_result \<Rightarrow> field \<Rightarrow> (unit, product_failure) domain_result" where
  "validateCellStatus input target =
     (let hasValue = has_own (ce_value input);
          claimsReason = has_own (ce_reason input);
          hasReason = (read_own (ce_reason input) \<noteq> None)
      in if ce_status input = CS_succeeded \<and>
            (\<not> (hasValue \<and> isBoundedValue (read_own (ce_value input))) \<or> claimsReason)
         then fail Cell_result_status_invalid
         else if (ce_status input = CS_failed \<or> ce_status input = CS_skipped) \<and>
            (\<not> hasReason \<or> hasValue)
         then fail Cell_result_status_invalid
         else if (ce_status input = CS_pending \<or> ce_status input = CS_running) \<and>
            (hasValue \<or> claimsReason)
         then fail Cell_result_status_invalid
         else if (case read_own (ce_value input) of
              None \<Rightarrow> False
            | Some v \<Rightarrow> isBoundedScalar v \<and> \<not> valueMatchesField v target)
         then fail Cell_result_value_invalid
         else if (case read_own (ce_reason input) of
              None \<Rightarrow> False
            | Some r \<Rightarrow>
                length (cre_code r) > MAX_REASON_CODE_LENGTH \<or>
                \<not> REDACTED_REASON_CODE_PATTERN (cre_code r) \<or>
                \<not> isBoundedText (cre_message r) MAX_REASON_MESSAGE_LENGTH)
         then fail Cell_result_reason_invalid
         else succeed ())"

definition createCellResult ::
  "dataset \<Rightarrow> field list \<Rightarrow> data_record \<Rightarrow> enrichment_recipe \<Rightarrow> cell_result \<Rightarrow>
   (cell_result, product_failure) domain_result" where
  "createCellResult dataset fds rcd recipe input =
     (if \<not> (isBoundedIdentity (ce_cellResultId input) \<and> isBoundedIdentity (ce_runId input))
      then fail Product_identity_invalid
      else if \<not> (hasDatasetScope dataset (ce_datasetId input) (ce_workspaceId input) \<and>
                 hasDatasetScope dataset (rec_datasetId rcd) (rec_workspaceId rcd) \<and>
                 hasDatasetScope dataset (er_datasetId recipe) (er_workspaceId recipe)) \<or>
              ce_recordId input \<noteq> rec_recordId rcd \<or>
              ce_enrichmentRecipeId input \<noteq> er_enrichmentRecipeId recipe
      then fail Cell_result_scope_mismatch
      else if ce_recipeRevision input \<noteq> er_recipeRevision recipe
      then fail Cell_result_recipe_revision_mismatch
      else and_then (indexFields dataset fds)
        (\<lambda>indexed. case map_get indexed (ce_fieldId input) of
            None \<Rightarrow> fail Cell_result_target_mismatch
          | Some target \<Rightarrow>
              if ce_fieldId input \<noteq> er_targetFieldId recipe
              then fail Cell_result_target_mismatch
              else and_then (validateCellStatus input target)
                (\<lambda>_. and_then (validateProvenance (read_own (ce_provenance input)))
                (\<lambda>_. and_then (validateFreshness (read_own (ce_freshness input)))
                (\<lambda>_. and_then (validateConfidence (read_own (ce_confidence input)))
                (\<lambda>_. and_then (validateCost (read_own (ce_cost input)))
                (\<lambda>_. succeed input)))))))"

end
