(* ===== verification/Cell_Result.thy ===== *)
theory Cell_Result
  imports Product
begin

text \<open>
  \<open>kernel/src/cell-result-lifecycle.ts\<close>: how the result of a cell moves from pending to a
  terminal status, replays included. A failure carries its code and the two statuses.
\<close>

datatype cell_transition_code =
    Cell_result_identity_mismatch | Cell_result_terminal_immutable
  | Cell_result_transition_invalid

record cell_transition_failure =
  ctf_code :: cell_transition_code
  ctf_currentStatus :: cell_status
  ctf_requestedStatus :: cell_status

record cell_transition =
  ct_cellResult :: cell_result
  ct_replayed :: bool

definition cell_terminalStatuses :: "cell_status list" where
  "cell_terminalStatuses = [CS_failed, CS_skipped, CS_succeeded]"

text \<open>\<open>Object.is\<close> on numbers and scalars is equality of the modelled values.\<close>

definition sameOptionalScalar :: "cell_result \<Rightarrow> cell_result \<Rightarrow> bool" where
  "sameOptionalScalar left right \<longleftrightarrow>
     has_own (ce_value left) = has_own (ce_value right) \<and>
     read_own (ce_value left) = read_own (ce_value right)"

definition sameOptionalNumber :: "cell_result \<Rightarrow> cell_result \<Rightarrow> bool" where
  "sameOptionalNumber left right \<longleftrightarrow>
     has_own (ce_confidence left) = has_own (ce_confidence right) \<and>
     read_own (ce_confidence left) = read_own (ce_confidence right)"

text \<open>The comparison of two optional objects: both undefined, or both present and alike.\<close>

fun same_read :: "('a \<Rightarrow> 'a \<Rightarrow> bool) \<Rightarrow> 'a option \<Rightarrow> 'a option \<Rightarrow> bool" where
  "same_read eq (Some l) (Some r) = eq l r"
| "same_read eq None None = True"
| "same_read eq _ _ = False"

definition sameReason :: "cell_result \<Rightarrow> cell_result \<Rightarrow> bool" where
  "sameReason left right \<longleftrightarrow>
     has_own (ce_reason left) = has_own (ce_reason right) \<and>
     same_read
       (\<lambda>l r. cre_code l = cre_code r \<and> cre_message l = cre_message r \<and>
         cre_retryable l = cre_retryable r)
       (read_own (ce_reason left)) (read_own (ce_reason right))"

definition sameCost :: "cell_result \<Rightarrow> cell_result \<Rightarrow> bool" where
  "sameCost left right \<longleftrightarrow>
     has_own (ce_cost left) = has_own (ce_cost right) \<and>
     same_read
       (\<lambda>l r. cc_amount l = cc_amount r \<and> cc_basis l = cc_basis r \<and> cc_unit l = cc_unit r)
       (read_own (ce_cost left)) (read_own (ce_cost right))"

definition sameFreshness :: "cell_result \<Rightarrow> cell_result \<Rightarrow> bool" where
  "sameFreshness left right \<longleftrightarrow>
     has_own (ce_freshness left) = has_own (ce_freshness right) \<and>
     same_read
       (\<lambda>l r. js_eq (fr_observedAt l) (fr_observedAt r) \<and>
         same_read js_eq (fr_expiresAt l) (fr_expiresAt r))
       (read_own (ce_freshness left)) (read_own (ce_freshness right))"

definition sameProvenance :: "cell_result \<Rightarrow> cell_result \<Rightarrow> bool" where
  "sameProvenance left right \<longleftrightarrow>
     has_own (ce_provenance left) = has_own (ce_provenance right) \<and>
     same_read
       (\<lambda>l r. length l = length r \<and> list_all (\<lambda>(a, b). a = b) (zip l r))
       (read_own (ce_provenance left)) (read_own (ce_provenance right))"

definition hasSameIdentity :: "cell_result \<Rightarrow> cell_result \<Rightarrow> bool" where
  "hasSameIdentity left right \<longleftrightarrow>
     ce_cellResultId left = ce_cellResultId right \<and>
     ce_datasetId left = ce_datasetId right \<and>
     ce_enrichmentRecipeId left = ce_enrichmentRecipeId right \<and>
     ce_fieldId left = ce_fieldId right \<and>
     ce_recipeRevision left = ce_recipeRevision right \<and>
     ce_recordId left = ce_recordId right \<and>
     ce_runId left = ce_runId right \<and>
     ce_workspaceId left = ce_workspaceId right"

definition isExactReplay :: "cell_result \<Rightarrow> cell_result \<Rightarrow> bool" where
  "isExactReplay left right \<longleftrightarrow>
     hasSameIdentity left right \<and>
     ce_status left = ce_status right \<and>
     sameOptionalNumber left right \<and>
     sameCost left right \<and>
     sameFreshness left right \<and>
     sameProvenance left right \<and>
     sameReason left right \<and>
     sameOptionalScalar left right"

text \<open>\<open>cloneCellResult\<close>: a copy at fresh addresses, the same value.\<close>

definition cloneCellResult :: "cell_result \<Rightarrow> cell_result" where
  "cloneCellResult input = input"

definition transitionIsAllowed :: "cell_status \<Rightarrow> cell_status \<Rightarrow> bool" where
  "transitionIsAllowed current requested \<longleftrightarrow>
     (current = CS_pending \<and>
        (requested = CS_running \<or> requested \<in> set cell_terminalStatuses)) \<or>
     (current = CS_running \<and> requested \<in> set cell_terminalStatuses)"

definition transitionCellResult ::
  "cell_result \<Rightarrow> cell_result \<Rightarrow> (cell_transition, cell_transition_failure) domain_result" where
  "transitionCellResult current requested =
     (let refuse = (\<lambda>code. fail \<lparr>ctf_code = code, ctf_currentStatus = ce_status current,
            ctf_requestedStatus = ce_status requested\<rparr>)
      in if \<not> hasSameIdentity current requested then refuse Cell_result_identity_mismatch
         else if isExactReplay current requested
         then succeed \<lparr>ct_cellResult = cloneCellResult current, ct_replayed = True\<rparr>
         else if ce_status current \<in> set cell_terminalStatuses
         then refuse Cell_result_terminal_immutable
         else if \<not> transitionIsAllowed (ce_status current) (ce_status requested)
         then refuse Cell_result_transition_invalid
         else succeed \<lparr>ct_cellResult = cloneCellResult requested, ct_replayed = False\<rparr>)"

end
