(* ===== verification/Product_Properties.thy ===== *)
theory Product_Properties
  imports Cell_Result
begin

text \<open>
  The checks of \<open>product.ts\<close> against a declarative schema of a dataset, and the life of a
  cell result under \<open>transitionCellResult\<close>.
\<close>

section \<open>Schemas\<close>

text \<open>A field that belongs to the dataset and whose identity, key and label are well formed.\<close>

definition field_ok :: "dataset \<Rightarrow> field \<Rightarrow> bool" where
  "field_ok dataset f \<longleftrightarrow>
     isBoundedIdentity (fd_fieldId f) \<and>
     fd_datasetId f = ds_datasetId dataset \<and> fd_workspaceId f = ds_workspaceId dataset \<and>
     length (fd_key f) \<le> MAX_FIELD_KEY_LENGTH \<and> FIELD_KEY_PATTERN (fd_key f) \<and>
     isBoundedText (fd_label f) MAX_NAME_LENGTH"

definition schema_ok :: "dataset \<Rightarrow> field list \<Rightarrow> bool" where
  "schema_ok dataset fds \<longleftrightarrow>
     length fds \<le> MAX_DATASET_FIELDS \<and> (\<forall>f\<in>set fds. field_ok dataset f) \<and>
     distinct (map fd_fieldId fds) \<and> distinct (map fd_key fds)"

definition keyed_fields :: "field list \<Rightarrow> (jstring \<times> field) list" where
  "keyed_fields fds = map (\<lambda>f. (fd_fieldId f, f)) fds"

lemma validateField_iff [simp]: "validateField dataset f = Inr u \<longleftrightarrow> field_ok dataset f"
  by (auto simp: validateField_def field_ok_def hasDatasetScope_def)

lemma index_loop_iff:
  "index_loop dataset fds m ks = Inr m' \<longleftrightarrow>
     (\<forall>f\<in>set fds. field_ok dataset f) \<and>
     distinct (map fd_fieldId fds) \<and> set (map fd_fieldId fds) \<inter> set (map_keys m) = {} \<and>
     distinct (map fd_key fds) \<and> set (map fd_key fds) \<inter> set ks = {} \<and>
     m' = fold (\<lambda>(k, v). map_set k v) (keyed_fields fds) m"
proof (induction fds arbitrary: m ks)
  case Nil
  then show ?case by (auto simp: keyed_fields_def)
next
  case (Cons f fds)
  show ?case
    by (auto simp: Cons.IH keyed_fields_def js_map.set_keys_put map_has_def js_map.get_keys)
qed

lemma indexFields_iff [simp]:
  "indexFields dataset fds = Inr m \<longleftrightarrow> schema_ok dataset fds \<and> m = map_from (keyed_fields fds)"
  by (auto simp: indexFields_def index_loop_iff schema_ok_def map_from_fold js_map.keys_empty)

lemma map_fst_keyed_fields [simp]: "map fst (keyed_fields fds) = map fd_fieldId fds"
  by (simp add: keyed_fields_def)

lemma set_keyed_fields [simp]: "fst ` set (keyed_fields fds) = fd_fieldId ` set fds"
  by (force simp: keyed_fields_def)

lemma get_keyed_fields:
  assumes "distinct (map fd_fieldId fds)"
  shows "map_get (map_from (keyed_fields fds)) k = Some f \<longleftrightarrow> f \<in> set fds \<and> fd_fieldId f = k"
proof -
  have "map_get (map_from (keyed_fields fds)) k = map_of (keyed_fields fds) k"
    using assms by (simp add: map_get_from)
  also have "\<dots> = Some f \<longleftrightarrow> (k, f) \<in> set (keyed_fields fds)"
    using assms by (simp add: map_of_eq_Some_iff)
  also have "\<dots> \<longleftrightarrow> f \<in> set fds \<and> fd_fieldId f = k"
    by (auto simp: keyed_fields_def)
  finally show ?thesis .
qed


section \<open>Records\<close>

text \<open>The value is bounded and of the type of some field of the schema.\<close>

definition value_fits :: "field list \<Rightarrow> record_value \<Rightarrow> bool" where
  "value_fits fds entry \<longleftrightarrow> isBoundedScalar (rv_value entry) \<and>
     (\<exists>f\<in>set fds. fd_fieldId f = rv_fieldId entry \<and> valueMatchesField (rv_value entry) f)"

lemma record_values_loop_iff:
  assumes "distinct (map fd_fieldId fds)"
  shows "record_values_loop (map_from (keyed_fields fds)) seen entries = None \<longleftrightarrow>
     distinct (map rv_fieldId entries) \<and> set (map rv_fieldId entries) \<inter> set seen = {} \<and>
     (\<forall>e\<in>set entries. value_fits fds e)"
proof (induction entries arbitrary: seen)
  case (Cons e entries)
  have unique: "f = g" if "f \<in> set fds" "g \<in> set fds" "fd_fieldId f = fd_fieldId g" for f g
    using assms that by (metis distinct_map inj_on_def)
  show ?case
  proof (cases "map_get (map_from (keyed_fields fds)) (rv_fieldId e)")
    case None
    then have "\<not> value_fits fds e"
      using get_keyed_fields [OF assms, of "rv_fieldId e"] by (auto simp: value_fits_def)
    with None show ?thesis by simp
  next
    case (Some f)
    then have f: "f \<in> set fds" "fd_fieldId f = rv_fieldId e"
      using get_keyed_fields [OF assms] by auto
    then have "value_fits fds e \<longleftrightarrow> isBoundedScalar (rv_value e) \<and> valueMatchesField (rv_value e) f"
      by (auto simp: value_fits_def dest: unique)
    with Some show ?thesis by (auto simp: Cons.IH)
  qed
qed simp

text \<open>
  A record is accepted exactly when it conforms to the schema of its dataset: the
  schema is well formed, the record has an identity, lies in the scope of the dataset,
  has at most 256 values with no field twice, and each value is a bounded scalar of the
  type of its field (null fits every field). The accepted record is the input.
\<close>

lemma record_conforms:
  "createRecord dataset fds input = Inr r \<longleftrightarrow>
     r = input \<and> schema_ok dataset fds \<and> isBoundedIdentity (rec_recordId input) \<and>
     rec_datasetId input = ds_datasetId dataset \<and>
     rec_workspaceId input = ds_workspaceId dataset \<and>
     length (rec_values input) \<le> MAX_RECORD_VALUES \<and>
     distinct (map rv_fieldId (rec_values input)) \<and>
     list_all (value_fits fds) (rec_values input)"
proof -
  have "schema_ok dataset fds \<Longrightarrow>
    (record_values_loop (map_from (keyed_fields fds)) [] (rec_values input) = None \<longleftrightarrow>
     distinct (map rv_fieldId (rec_values input)) \<and>
     list_all (value_fits fds) (rec_values input))"
    using record_values_loop_iff [of fds "[]" "rec_values input"]
    by (simp add: schema_ok_def list_all_iff)
  then show ?thesis
    by (auto simp: createRecord_def hasDatasetScope_def split: option.splits)
qed


section \<open>Recipes\<close>

text \<open>
  An enrichment recipe is accepted exactly when its identities, name, revisions and
  workflow hash are well formed, it lies in the scope of a dataset with a well-formed
  schema, and it reads between 1 and 64 different fields of the schema other than the
  field of the schema it writes.
\<close>

lemma recipe_accepted_iff:
  "createEnrichmentRecipe dataset fds input = Inr r \<longleftrightarrow>
     r = input \<and> schema_ok dataset fds \<and>
     isBoundedIdentity (er_enrichmentRecipeId input) \<and>
     isBoundedIdentity (er_workflowSpecId input) \<and>
     er_datasetId input = ds_datasetId dataset \<and>
     er_workspaceId input = ds_workspaceId dataset \<and>
     isBoundedText (er_name input) MAX_NAME_LENGTH \<and>
     isBoundedText (er_recipeRevision input) MAX_NAME_LENGTH \<and>
     content_hash_pattern (er_workflowContentHash input) \<and>
     isBoundedText (er_workflowRevision input) MAX_NAME_LENGTH \<and>
     er_inputFieldIds input \<noteq> [] \<and>
     length (er_inputFieldIds input) \<le> MAX_RECIPE_INPUTS \<and>
     distinct (er_inputFieldIds input) \<and>
     insert (er_targetFieldId input) (set (er_inputFieldIds input)) \<subseteq> fd_fieldId ` set fds \<and>
     er_targetFieldId input \<notin> set (er_inputFieldIds input)"
  by (auto simp: createEnrichmentRecipe_def hasDatasetScope_def list_ex_iff)


section \<open>Cell results\<close>

definition cell_reason_ok :: "cell_reason \<Rightarrow> bool" where
  "cell_reason_ok r \<longleftrightarrow>
     length (cre_code r) \<le> MAX_REASON_CODE_LENGTH \<and> REDACTED_REASON_CODE_PATTERN (cre_code r) \<and>
     isBoundedText (cre_message r) MAX_REASON_MESSAGE_LENGTH"

text \<open>What each status may claim about the cell.\<close>

fun cell_shape :: "cell_status \<Rightarrow> field \<Rightarrow> scalar_value own \<Rightarrow> cell_reason own \<Rightarrow> bool" where
  "cell_shape CS_succeeded target (Present v) Absent =
     (isBoundedScalar v \<and> valueMatchesField v target)"
| "cell_shape CS_failed target Absent (Present r) = cell_reason_ok r"
| "cell_shape CS_skipped target Absent (Present r) = cell_reason_ok r"
| "cell_shape CS_pending target Absent Absent = True"
| "cell_shape CS_running target Absent Absent = True"
| "cell_shape _ _ _ _ = False"

definition freshness_ok :: "cell_freshness \<Rightarrow> bool" where
  "freshness_ok f \<longleftrightarrow>
     is_safe_integer (fr_observedAt f) \<and> js_ge (fr_observedAt f) (num 0) \<and>
     (case fr_expiresAt f of None \<Rightarrow> True
      | Some e \<Rightarrow> is_safe_integer e \<and> js_le (fr_observedAt f) e)"

definition cost_ok :: "cell_cost \<Rightarrow> bool" where
  "cost_ok c \<longleftrightarrow>
     length (cc_unit c) \<le> MAX_COST_UNIT_LENGTH \<and> COST_UNIT_PATTERN (cc_unit c) \<and>
     isAmount (cc_amount c) \<and> js_le (cc_amount c) (num MAX_SCALAR_NUMBER)"

definition provenance_ok :: "jstring list \<Rightarrow> bool" where
  "provenance_ok references \<longleftrightarrow>
     references \<noteq> [] \<and> length references \<le> MAX_PROVENANCE_REFERENCES \<and> distinct references \<and>
     (\<forall>reference\<in>set references. isBoundedText reference MAX_PROVENANCE_REFERENCE_LENGTH)"

definition evidence_ok :: "cell_result \<Rightarrow> bool" where
  "evidence_ok c \<longleftrightarrow>
     pred_option provenance_ok (read_own (ce_provenance c)) \<and>
     pred_option freshness_ok (read_own (ce_freshness c)) \<and>
     pred_option (\<lambda>x. is_finite x \<and> js_ge x (num 0) \<and> js_le x (num 1)) (read_own (ce_confidence c)) \<and>
     pred_option cost_ok (read_own (ce_cost c))"

lemma validateCellStatus_iff [simp]:
  "validateCellStatus c target = Inr u \<longleftrightarrow>
     cell_shape (ce_status c) target (ce_value c) (ce_reason c)"
  by (cases "ce_status c"; cases "ce_value c"; cases "ce_reason c")
    (auto simp: validateCellStatus_def cell_reason_ok_def)

lemma validateProvenance_iff [simp]:
  "validateProvenance p = Inr u \<longleftrightarrow> pred_option provenance_ok p"
  by (cases p) (auto simp: validateProvenance_def provenance_ok_def list_ex_iff)

lemma js_lt_finite: "is_finite x \<Longrightarrow> is_finite y \<Longrightarrow> js_lt x y \<longleftrightarrow> \<not> js_le y x"
  by (cases x; cases y) (auto simp: js_le_def js_lt_def js_eq_def)

lemma js_eq_refl [simp]: "js_eq x x \<longleftrightarrow> x \<noteq> NaN"
  by (cases x) (simp_all add: js_eq_def)

lemma validateFreshness_iff [simp]:
  "validateFreshness f = Inr u \<longleftrightarrow> pred_option freshness_ok f"
proof (cases f)
  case (Some a)
  have "is_safe_integer x \<Longrightarrow> is_safe_integer y \<Longrightarrow> js_lt x y \<longleftrightarrow> \<not> js_le y x" for x y
    by (simp add: js_lt_finite is_safe_integer_finite)
  moreover have "is_safe_integer (num 0)" by (simp add: max_safe_def)
  ultimately show ?thesis
    using Some by (cases "fr_expiresAt a") (auto simp: validateFreshness_def freshness_ok_def)
qed (simp add: validateFreshness_def)

lemma validateConfidence_iff [simp]:
  "validateConfidence c = Inr u \<longleftrightarrow>
     pred_option (\<lambda>x. is_finite x \<and> js_ge x (num 0) \<and> js_le x (num 1)) c"
  by (cases c) (auto simp: validateConfidence_def)

lemma validateCost_iff [simp]: "validateCost c = Inr u \<longleftrightarrow> pred_option cost_ok c"
  by (cases c) (auto simp: validateCost_def cost_ok_def isAmount_def js_lt_finite)

text \<open>
  A cell result is accepted exactly when it belongs to the given record, recipe and
  revision in the scope of one dataset with a well-formed schema, targets the field the
  recipe writes, claims exactly what its status allows (a succeeded cell one bounded value
  of the type of its field and no reason, a failed or skipped cell a well-formed reason
  and no value, a pending or running cell neither), and carries well-formed evidence:
  provenance, freshness, confidence and cost.
\<close>

lemma cell_result_accepted_iff:
  "createCellResult dataset fds rcd recipe input = Inr c \<longleftrightarrow>
     c = input \<and> schema_ok dataset fds \<and>
     isBoundedIdentity (ce_cellResultId input) \<and> isBoundedIdentity (ce_runId input) \<and>
     ce_datasetId input = ds_datasetId dataset \<and> ce_workspaceId input = ds_workspaceId dataset \<and>
     rec_datasetId rcd = ds_datasetId dataset \<and> rec_workspaceId rcd = ds_workspaceId dataset \<and>
     er_datasetId recipe = ds_datasetId dataset \<and>
     er_workspaceId recipe = ds_workspaceId dataset \<and>
     ce_recordId input = rec_recordId rcd \<and>
     ce_enrichmentRecipeId input = er_enrichmentRecipeId recipe \<and>
     ce_recipeRevision input = er_recipeRevision recipe \<and>
     ce_fieldId input = er_targetFieldId recipe \<and>
     list_ex (\<lambda>target. fd_fieldId target = ce_fieldId input \<and>
       cell_shape (ce_status input) target (ce_value input) (ce_reason input)) fds \<and>
     evidence_ok input"
proof (cases "schema_ok dataset fds")
  case True
  then have ids: "distinct (map fd_fieldId fds)" by (simp add: schema_ok_def)
  have unique: "f = g" if "f \<in> set fds" "g \<in> set fds" "fd_fieldId f = fd_fieldId g" for f g
    using ids that by (metis distinct_map inj_on_def)
  note get = get_keyed_fields [OF ids, of "ce_fieldId input"]
  show ?thesis
  proof (cases "map_get (map_from (keyed_fields fds)) (ce_fieldId input)")
    case None
    with get have "\<forall>f\<in>set fds. fd_fieldId f \<noteq> ce_fieldId input" by auto
    with None True show ?thesis
      by (auto simp: createCellResult_def list_ex_iff)
  next
    case (Some target)
    with get have t: "target \<in> set fds" "fd_fieldId target = ce_fieldId input" by auto
    have "list_ex (\<lambda>target. fd_fieldId target = ce_fieldId input \<and>
       cell_shape (ce_status input) target (ce_value input) (ce_reason input)) fds \<longleftrightarrow>
       cell_shape (ce_status input) target (ce_value input) (ce_reason input)"
      using t by (auto simp: list_ex_iff dest: unique)
    with Some True show ?thesis
      by (auto simp: createCellResult_def hasDatasetScope_def evidence_ok_def)
  qed
qed (auto simp: createCellResult_def)


section \<open>The life of a cell\<close>

text \<open>The results a cell holds while requests arrive; a refused one changes nothing.\<close>

primrec cell_history :: "cell_result \<Rightarrow> cell_result list \<Rightarrow> cell_result list" where
  "cell_history c [] = [c]"
| "cell_history c (r # rs) =
     (case transitionCellResult c r of
        Inl _ \<Rightarrow> cell_history c rs
      | Inr t \<Rightarrow> if ct_replayed t then cell_history (ct_cellResult t) rs
                else c # cell_history (ct_cellResult t) rs)"

lemma transitionCellResult_Inr:
  "transitionCellResult c r = Inr t \<longleftrightarrow>
     hasSameIdentity c r \<and>
     (if isExactReplay c r then t = \<lparr>ct_cellResult = c, ct_replayed = True\<rparr>
      else transitionIsAllowed (ce_status c) (ce_status r) \<and>
        t = \<lparr>ct_cellResult = r, ct_replayed = False\<rparr>)"
  by (auto simp: transitionCellResult_def Let_def cloneCellResult_def transitionIsAllowed_def
      cell_terminalStatuses_def)

lemma transitionIsAllowed_trans:
  "transitionIsAllowed a b \<Longrightarrow> transitionIsAllowed b c \<Longrightarrow> transitionIsAllowed a c"
  by (auto simp: transitionIsAllowed_def cell_terminalStatuses_def)

lemma hasSameIdentity_refl [simp]: "hasSameIdentity c c"
  by (simp add: hasSameIdentity_def)

lemma hasSameIdentity_trans: "hasSameIdentity a b \<Longrightarrow> hasSameIdentity b c \<Longrightarrow> hasSameIdentity a c"
  by (simp add: hasSameIdentity_def)

abbreviation cell_before :: "cell_result \<Rightarrow> cell_result \<Rightarrow> bool" where
  "cell_before a b \<equiv>
     hasSameIdentity a b \<and> transitionIsAllowed (ce_status a) (ce_status b)"

lemma cell_history_step:
  "cell_history c (r # rs) =
     (if cell_before c r \<and> \<not> isExactReplay c r then c # cell_history r rs
      else cell_history c rs)"
proof (cases "transitionCellResult c r")
  case (Inl e)
  then have "transitionCellResult c r \<noteq> Inr \<lparr>ct_cellResult = r, ct_replayed = False\<rparr>" by simp
  then have "\<not> (cell_before c r \<and> \<not> isExactReplay c r)"
    by (cases "isExactReplay c r") (simp_all add: transitionCellResult_Inr)
  with Inl show ?thesis by auto
next
  case (Inr t)
  then have "hasSameIdentity c r \<and>
      (if isExactReplay c r then t = \<lparr>ct_cellResult = c, ct_replayed = True\<rparr>
       else transitionIsAllowed (ce_status c) (ce_status r) \<and>
         t = \<lparr>ct_cellResult = r, ct_replayed = False\<rparr>)"
    by (rule iffD1 [OF transitionCellResult_Inr])
  with Inr show ?thesis by (cases "isExactReplay c r") simp_all
qed

declare cell_history.simps(2) [simp del]

lemma cell_history_hd: "\<exists>tl. cell_history c rs = c # tl"
  by (induction rs arbitrary: c) (simp_all add: cell_history_step)

lemma cell_before_trans: "cell_before a b \<Longrightarrow> cell_before b c \<Longrightarrow> cell_before a c"
  using hasSameIdentity_trans [of a b c] transitionIsAllowed_trans [of "ce_status a" "ce_status b" "ce_status c"]
  by simp

lemma cell_history_sorted: "sorted_wrt cell_before (cell_history c rs)"
proof (induction rs arbitrary: c)
  case (Cons r rs)
  show ?case
  proof (cases "cell_before c r \<and> \<not> isExactReplay c r")
    case True
    obtain tl where tl: "cell_history r rs = r # tl" using cell_history_hd [of r rs] by blast
    with Cons.IH [of r] have "\<forall>b\<in>set tl. cell_before r b" by simp
    then have "\<forall>b\<in>set tl. cell_before c b"
      using True cell_before_trans [of c r] by blast
    with True Cons.IH [of r] tl show ?thesis by (simp add: cell_history_step)
  next
    case False
    with Cons.IH [of c] show ?thesis by (simp only: cell_history_step if_False)
  qed
qed simp

lemma allowed_chain_length:
  assumes "sorted_wrt transitionIsAllowed ss" shows "length ss \<le> 3"
proof (rule ccontr)
  assume "\<not> length ss \<le> 3"
  then have "Suc (Suc (Suc (Suc 0))) \<le> length ss" by simp
  then obtain a b c d rest where "ss = a # b # c # d # rest" by (auto simp: Suc_le_length_iff)
  with assms show False
    by (auto simp: transitionIsAllowed_def cell_terminalStatuses_def)
qed

text \<open>
  C26. However many requests arrive, a cell passes through at most three results, pending,
  running and a terminal one, each reached from all the earlier ones by an allowed
  transition and all with the identity of the first.
\<close>

theorem cell_history_bounded:
  "length (cell_history c rs) \<le> 3 \<and> sorted_wrt cell_before (cell_history c rs) \<and>
   hd (cell_history c rs) = c"
proof -
  have "sorted_wrt transitionIsAllowed (map ce_status (cell_history c rs))"
    unfolding sorted_wrt_map by (rule sorted_wrt_mono_rel [OF _ cell_history_sorted]) simp
  then have "length (cell_history c rs) \<le> 3"
    using allowed_chain_length by fastforce
  moreover obtain tl where "cell_history c rs = c # tl" using cell_history_hd [of c rs] by blast
  ultimately show ?thesis using cell_history_sorted [of c rs] by simp
qed


text \<open>The result a cell holds after the requests.\<close>

definition cell_after :: "cell_result \<Rightarrow> cell_result list \<Rightarrow> cell_result" where
  "cell_after c rs = last (cell_history c rs)"

lemma cell_history_append:
  "cell_history c (rs @ rs') = butlast (cell_history c rs) @ cell_history (cell_after c rs) rs'"
proof (induction rs arbitrary: c)
  case (Cons r rs)
  obtain tl where "cell_history r rs = r # tl" using cell_history_hd [of r rs] by blast
  with Cons.IH show ?case by (simp add: cell_history_step cell_after_def)
qed (simp add: cell_after_def)

lemma terminal_history:
  "ce_status c \<in> set cell_terminalStatuses \<Longrightarrow> cell_history c rs = [c]"
  by (induction rs) (auto simp: cell_history_step transitionIsAllowed_def cell_terminalStatuses_def)

text \<open>A dataset with one field, a record, a recipe and results of a cell.\<close>

definition ex_dataset :: dataset where
  "ex_dataset = \<lparr>ds_datasetId = lit ''ds'', ds_name = lit ''n'', ds_workspaceId = lit ''ws''\<rparr>"

definition ex_field :: field where
  "ex_field = \<lparr>fd_datasetId = lit ''ds'', fd_fieldId = lit ''f'', fd_key = lit ''f'',
     fd_label = lit ''F'', fd_valueType = T_number, fd_workspaceId = lit ''ws''\<rparr>"

definition ex_record :: data_record where
  "ex_record = \<lparr>rec_datasetId = lit ''ds'', rec_recordId = lit ''r'', rec_values = [],
     rec_workspaceId = lit ''ws''\<rparr>"

definition ex_recipe :: enrichment_recipe where
  "ex_recipe = \<lparr>er_datasetId = lit ''ds'', er_enrichmentRecipeId = lit ''e'',
     er_inputFieldIds = [lit ''g''], er_name = lit ''n'', er_recipeRevision = lit ''1'',
     er_targetFieldId = lit ''f'', er_workflowContentHash = [], er_workflowRevision = lit ''1'',
     er_workflowSpecId = lit ''w'', er_workspaceId = lit ''ws''\<rparr>"

definition ex_cell :: "cell_status \<Rightarrow> scalar_value own \<Rightarrow> cell_result" where
  "ex_cell status v = \<lparr>ce_cellResultId = lit ''c'', ce_datasetId = lit ''ds'',
     ce_enrichmentRecipeId = lit ''e'', ce_fieldId = lit ''f'', ce_recipeRevision = lit ''1'',
     ce_recordId = lit ''r'', ce_runId = lit ''run'', ce_status = status,
     ce_workspaceId = lit ''ws'', ce_confidence = Absent, ce_cost = Absent,
     ce_freshness = Present \<lparr>fr_observedAt = num 5, fr_expiresAt = None\<rparr>,
     ce_provenance = Absent, ce_reason = Absent, ce_value = v\<rparr>"

text \<open>
  Once a cell is succeeded, failed or skipped, no sequence of requests changes it: its
  value, reason and evidence stay what they were when it ended.
\<close>

lemma terminal_cell_is_final:
  assumes "ce_status (cell_after c rs) \<in> {CS_succeeded, CS_failed, CS_skipped}"
  shows "cell_after c (rs @ rs') = cell_after c rs"
proof -
  have "cell_history (cell_after c rs) rs' = [cell_after c rs]"
    using assms by (intro terminal_history) (auto simp: cell_terminalStatuses_def)
  then show ?thesis
    by (subst cell_after_def) (simp add: cell_history_append)
qed

text \<open>
  A cell result the checks of the product accept is always an exact replay of itself:
  sending it again succeeds, is reported as a replay and changes nothing, whatever its
  status. The instants of its freshness are comparable because they are safe integers.
\<close>

lemma accepted_result_replays:
  assumes "createCellResult dataset fds rcd recipe input = Inr c"
  shows "transitionCellResult c c = Inr \<lparr>ct_cellResult = c, ct_replayed = True\<rparr>"
proof -
  from assms have "pred_option freshness_ok (read_own (ce_freshness c))"
    by (auto simp: createCellResult_def split: if_splits option.splits)
  then have "sameFreshness c c"
    by (cases "read_own (ce_freshness c)"; cases "fr_expiresAt (the (read_own (ce_freshness c)))")
      (auto simp: sameFreshness_def freshness_ok_def)
  moreover have "list_all (\<lambda>(a, b). a = b) (zip l l)" for l :: "jstring list"
    by (auto simp: list_all_iff set_zip)
  ultimately have "isExactReplay c c"
    by (cases "read_own (ce_reason c)"; cases "read_own (ce_cost c)";
        cases "read_own (ce_provenance c)")
      (simp_all add: isExactReplay_def sameOptionalNumber_def sameOptionalScalar_def
        sameReason_def sameCost_def sameProvenance_def)
  then show ?thesis by (simp add: transitionCellResult_Inr)
qed


end
