(* ===== verification/Decimal.thy ===== *)
theory Decimal
  imports Prelude
begin

text \<open>Whole numbers in decimal, as \<open>String(n)\<close> writes them, and reading their digits back.\<close>

definition decimal_digit :: "code_unit \<Rightarrow> bool" where
  "decimal_digit u \<longleftrightarrow> 48 \<le> u \<and> u \<le> 57"

definition digit_text :: "nat \<Rightarrow> code_unit" where
  "digit_text d = 48 + of_nat d"

fun nat_text :: "nat \<Rightarrow> jstring" where
  "nat_text n =
     (if n < 10 then [digit_text n] else nat_text (n div 10) @ [digit_text (n mod 10)])"

declare nat_text.simps [simp del]

definition digit_value :: "code_unit \<Rightarrow> nat" where
  "digit_value u = unat u - 48"

definition digits_value :: "jstring \<Rightarrow> nat" where
  "digits_value s = foldl (\<lambda>n u. 10 * n + digit_value u) 0 s"

lemma unat_digit_text: "d < 10 \<Longrightarrow> unat (digit_text d) = 48 + d"
  by (simp add: digit_text_def unat_word_ariths unat_of_nat)

lemma digit_value_text [simp]: "d < 10 \<Longrightarrow> digit_value (digit_text d) = d"
  by (simp add: digit_value_def unat_digit_text)

lemma decimal_digit_text [simp]: "d < 10 \<Longrightarrow> decimal_digit (digit_text d)"
  by (simp add: decimal_digit_def word_le_nat_alt unat_digit_text)

lemma digits_value_snoc [simp]: "digits_value (s @ [u]) = 10 * digits_value s + digit_value u"
  by (simp add: digits_value_def)

lemma digits_value_Nil [simp]: "digits_value [] = 0"
  by (simp add: digits_value_def)

lemma digits_value_single [simp]: "digits_value [u] = digit_value u"
  by (simp add: digits_value_def)

lemma digits_value_append:
  "digits_value (s @ t) = digits_value s * 10 ^ length t + digits_value t"
  by (induction t rule: rev_induct) (simp_all flip: append_assoc add: algebra_simps)

lemma digits_value_nat_text [simp]: "digits_value (nat_text n) = n"
proof (induction n rule: nat_text.induct)
  case (1 n)
  then show ?case by (subst nat_text.simps) auto
qed

lemma nat_text_digits: "\<forall>u\<in>set (nat_text n). decimal_digit u"
proof (induction n rule: nat_text.induct)
  case (1 n)
  then show ?case by (subst nat_text.simps) auto
qed

lemma nat_text_nonempty [simp]: "nat_text n \<noteq> []"
  by (subst nat_text.simps) simp

lemma nat_text_hd: "decimal_digit (hd (nat_text n))"
  using nat_text_digits hd_in_set [OF nat_text_nonempty] by blast

lemma nat_text_inj [simp]: "nat_text m = nat_text n \<longleftrightarrow> m = n"
  by (metis digits_value_nat_text)

text \<open>A number is delimited by anything that is not a digit.\<close>

definition ends_number :: "jstring \<Rightarrow> bool" where
  "ends_number t \<longleftrightarrow> (case t of [] \<Rightarrow> True | u # _ \<Rightarrow> \<not> decimal_digit u)"

lemma takeWhile_nat_text:
  "ends_number t \<Longrightarrow> takeWhile decimal_digit (nat_text n @ t) = nat_text n"
  "ends_number t \<Longrightarrow> dropWhile decimal_digit (nat_text n @ t) = t"
  using nat_text_digits [of n] by (cases t; simp add: ends_number_def)+

lemma nat_text_prefix:
  assumes "ends_number x" "ends_number y"
  shows "nat_text m @ x = nat_text n @ y \<longleftrightarrow> m = n \<and> x = y"
proof
  assume eq: "nat_text m @ x = nat_text n @ y"
  from arg_cong [OF eq, of "takeWhile decimal_digit"] arg_cong [OF eq, of "dropWhile decimal_digit"]
  show "m = n \<and> x = y" by (simp add: takeWhile_nat_text assms)
qed simp

end
