(* ===== verification/Json.thy ===== *)
theory Json
  imports Decimal Workflow_Compiler
begin

text \<open>
  \<open>JSON.stringify\<close> on the values that the program gives it: strings, whole numbers, arrays
  and objects with fixed keys. A string is quoted as ECMAScript prescribes, with lone
  surrogates escaped; reading it back gives the string and the rest of the text, so that the
  texts of different values never agree.
\<close>

section \<open>Strings\<close>

definition hex_unit :: "code_unit \<Rightarrow> code_unit" where
  "hex_unit d = (if d < 10 then 48 + d else 87 + d)"

text \<open>\<open>\u\<close> and four lower-case hexadecimal digits.\<close>

definition unicode_escape :: "code_unit \<Rightarrow> jstring" where
  "unicode_escape u =
     [92, 117, hex_unit (u div 4096), hex_unit (u div 256 mod 16), hex_unit (u div 16 mod 16),
      hex_unit (u mod 16)]"

definition quote_unit :: "code_unit \<Rightarrow> jstring" where
  "quote_unit u =
     (if u = 8 then [92, 98] else if u = 9 then [92, 116] else if u = 10 then [92, 110]
      else if u = 12 then [92, 102] else if u = 13 then [92, 114] else if u = 34 then [92, 34]
      else if u = 92 then [92, 92] else if u < 32 then unicode_escape u else [u])"

fun quote_units :: "jstring \<Rightarrow> jstring" where
  "quote_units [] = []"
| "quote_units [u] =
     (if high_surrogate u \<or> low_surrogate u then unicode_escape u else quote_unit u)"
| "quote_units (u # v # s) =
     (if high_surrogate u \<and> low_surrogate v then u # v # quote_units s
      else (if high_surrogate u \<or> low_surrogate u then unicode_escape u else quote_unit u) @
        quote_units (v # s))"

definition json_string :: "jstring \<Rightarrow> jstring" where
  "json_string s = [34] @ quote_units s @ [34]"


section \<open>Reading strings back\<close>

definition unhex :: "code_unit \<Rightarrow> code_unit" where
  "unhex c = (if c < 58 then c - 48 else c - 87)"

text \<open>The inverse on texts that the quoting writes; the closing quote ends the string.\<close>

fun read_units :: "jstring \<Rightarrow> jstring \<times> jstring" where
  "read_units [] = ([], [])"
| "read_units (c # t) =
     (if c = 34 then ([], t)
      else if c \<noteq> 92 then apfst (Cons c) (read_units t)
      else case t of
          [] \<Rightarrow> ([], [])
        | e # t' \<Rightarrow>
            if e = 117 then
              (case t' of
                a # b # c # d # t'' \<Rightarrow>
                  apfst (Cons (unhex a * 4096 + unhex b * 256 + unhex c * 16 + unhex d))
                    (read_units t'')
              | _ \<Rightarrow> ([], []))
            else
              apfst (Cons (if e = 98 then 8 else if e = 116 then 9 else if e = 110 then 10
                  else if e = 102 then 12 else if e = 114 then 13 else e))
                (read_units t'))"


lemma div_16: "u div 16 div 16 = u div (256 :: 16 word)" "u div 256 div 16 = u div (4096 :: 16 word)"
  by (simp_all add: word_unat_eq_iff unat_div flip: div_mult2_eq)

lemma escape_value:
  "(u div 4096) * 4096 + (u div 256 mod 16) * 256 + (u div 16 mod 16) * 16 + u mod 16 = (u :: 16 word)"
proof -
  have s: "u = u div 16 * 16 + u mod 16" by (rule div_mult_mod_eq [symmetric])
  have t: "u div 16 = u div 256 * 16 + u div 16 mod 16"
    using div_mult_mod_eq [of "u div 16" 16] by (simp add: div_16)
  have w: "u div 256 = u div 4096 * 16 + u div 256 mod 16"
    using div_mult_mod_eq [of "u div 256" 16] by (simp add: div_16)
  have "u = ((u div 4096 * 16 + u div 256 mod 16) * 16 + u div 16 mod 16) * 16 + u mod 16"
    by (subst w [symmetric], subst t [symmetric], rule s)
  also have "\<dots> = u div 4096 * 4096 + u div 256 mod 16 * 256 + u div 16 mod 16 * 16 + u mod 16"
    by (simp add: algebra_simps)
  finally show ?thesis by (rule sym)
qed

lemma digits_lt [simp]: "u div 4096 < (16 :: 16 word)" "v mod 16 < (16::16 word)"
proof -
  have "unat u < 65536" using unsigned_less [of u] by simp
  then have "unat u div 4096 < 16" by (simp add: less_mult_imp_div_less)
  then show "u div 4096 < (16 :: 16 word)" by (simp add: word_less_nat_alt unat_div)
  show "v mod 16 < (16::16 word)" by (simp add: word_less_nat_alt unat_mod)
qed

lemma unhex_hex [simp]: "d < 16 \<Longrightarrow> unhex (hex_unit d) = d"
  by (auto simp: unhex_def hex_unit_def word_less_nat_alt unat_word_ariths word_unat_eq_iff)

lemma hex_not_quote: "d < 16 \<Longrightarrow> hex_unit d \<noteq> 34"
  by (auto simp: hex_unit_def word_less_nat_alt unat_word_ariths word_unat_eq_iff)

lemma read_escape: "read_units (unicode_escape u @ t) = apfst (Cons u) (read_units t)"
  by (simp add: unicode_escape_def escape_value)

lemma read_quote_unit: "read_units (quote_unit u @ t) = apfst (Cons u) (read_units t)"
  by (auto simp: quote_unit_def read_escape)

lemma surrogate_plain: "high_surrogate u \<or> low_surrogate u \<Longrightarrow> u \<noteq> 34 \<and> u \<noteq> 92"
  by (auto simp: high_surrogate_def low_surrogate_def)

lemma read_quote_units: "read_units (quote_units s @ 34 # t) = (s, t)"
proof (induction s rule: quote_units.induct)
  case (2 u)
  then show ?case by (simp add: read_escape read_quote_unit)
next
  case (3 u v s)
  then show ?case
    using surrogate_plain [of u] surrogate_plain [of v]
    by (auto simp: read_escape read_quote_unit)
qed simp

lemma json_string_prefix:
  "json_string s @ x = json_string t @ y \<longleftrightarrow> s = t \<and> x = y"
proof
  assume "json_string s @ x = json_string t @ y"
  then have "read_units (quote_units s @ 34 # x) = read_units (quote_units t @ 34 # y)"
    by (simp add: json_string_def)
  then show "s = t \<and> x = y" by (simp add: read_quote_units)
qed simp

text \<open>Reading a quoted string back gives the string and what follows it.\<close>

definition read_string :: "jstring \<Rightarrow> jstring \<times> jstring" where
  "read_string text = read_units (tl text)"

lemma read_json_string: "read_string (json_string s @ t) = (s, t)"
  by (simp add: read_string_def json_string_def read_quote_units)


section \<open>Values\<close>

datatype json =
    JString jstring
  | JNatural nat
  | JArray "json list"
  | JObject "(jstring \<times> json) list"

fun stringify :: "json \<Rightarrow> jstring" where
  "stringify (JString s) = json_string s"
| "stringify (JNatural n) = nat_text n"
| "stringify (JArray xs) = [91] @ join [44] (map stringify xs) @ [93]"
| "stringify (JObject kvs) =
     [123] @ join [44] (map (\<lambda>(k, v). json_string k @ [58] @ stringify v) kvs) @ [125]"

text \<open>What can follow a value inside a text: the end, a comma or a closing bracket.\<close>

definition json_ends :: "jstring \<Rightarrow> bool" where
  "json_ends t \<longleftrightarrow> (case t of [] \<Rightarrow> True | u # _ \<Rightarrow> u = 44 \<or> u = 93 \<or> u = 125)"

text \<open>A printer whose texts can be told apart together with what follows them.\<close>

definition separates :: "('a \<Rightarrow> jstring) \<Rightarrow> 'a \<Rightarrow> bool" where
  "separates print a \<longleftrightarrow>
     (\<forall>b x y. json_ends x \<longrightarrow> json_ends y \<longrightarrow> print a @ x = print b @ y \<longrightarrow> a = b \<and> x = y)"

lemma separatesD:
  "separates print a \<Longrightarrow> print a @ x = print b @ y \<Longrightarrow> json_ends x \<Longrightarrow> json_ends y \<Longrightarrow>
   a = b \<and> x = y"
  by (simp add: separates_def)

lemma join_Cons2: "join s (x # xs) = x @ (case xs of [] \<Rightarrow> [] | _ \<Rightarrow> s @ join s xs)"
  by (cases xs) simp_all

lemma separates_join:
  assumes "\<forall>a\<in>set as. separates print a"
    and "\<forall>a. print a \<noteq> [] \<and> hd (print a) \<noteq> close" and "close = 93 \<or> close = 125"
    and "join [44] (map print as) @ close # x = join [44] (map print bs) @ close # y"
  shows "as = bs \<and> x = y"
  using assms(1,4)
proof (induction as arbitrary: bs)
  case Nil
  have "close # t \<noteq> print a @ u" for a t u using assms(2) by (metis hd_append2 list.sel(1))
  with Nil show ?case by (cases bs) (auto simp: join_Cons2)
next
  case (Cons a as)
  show ?case
  proof (cases bs)
    case Nil
    have "print a \<noteq> close # t" for a t using assms(2) by (metis list.sel(1))
    then show ?thesis using Cons.prems(2) assms(2)
      by (auto simp: Nil join_Cons2 append_eq_Cons_conv)
  next
    case (Cons b bs')
    let ?rest = "\<lambda>as x. case map print as of [] \<Rightarrow> close # x
      | _ \<Rightarrow> 44 # join [44] (map print as) @ close # x"
    have eq: "print a @ ?rest as x = print b @ ?rest bs' y"
      using Cons.prems(2) unfolding Cons by (cases as; cases bs') simp_all
    have ends: "json_ends (?rest zs z)" for zs z
      using assms(3) by (cases zs) (auto simp: json_ends_def)
    have sep: "separates print a" using Cons.prems(1) by simp
    from separatesD [OF sep eq ends ends] have "a = b" and rest: "?rest as x = ?rest bs' y"
      by auto
    have "as = bs' \<and> x = y"
    proof (cases as)
      case Nil
      with rest assms(3) show ?thesis by (cases bs') auto
    next
      case (Cons c cs)
      with rest assms(3) obtain d ds where "bs' = d # ds" by (cases bs') auto
      then have "join [44] (map print as) @ close # x = join [44] (map print bs') @ close # y"
        using rest Cons by simp
      then show ?thesis using Cons.IH Cons.prems(1) by simp
    qed
    with \<open>a = b\<close> show ?thesis by (simp add: Cons)
  qed
qed

lemma nat_text_hd_bracket: "hd (nat_text n) \<noteq> 93" "hd (nat_text n) \<noteq> 125"
    "hd (nat_text n) \<noteq> 34" "hd (nat_text n) \<noteq> 91" "hd (nat_text n) \<noteq> 123"
  using nat_text_hd [of n] by (auto simp: decimal_digit_def)

lemma stringify_hd: "stringify v \<noteq> []" "hd (stringify v) \<noteq> 93" "hd (stringify v) \<noteq> 125"
  by (cases v; simp add: json_string_def nat_text_hd_bracket)+

text \<open>The first unit of a text tells the kind of the value.\<close>

definition json_kind :: "json \<Rightarrow> nat" where
  "json_kind v = (case v of JString _ \<Rightarrow> 0 | JNatural _ \<Rightarrow> 1 | JArray _ \<Rightarrow> 2 | JObject _ \<Rightarrow> 3)"

definition unit_kind :: "code_unit \<Rightarrow> nat" where
  "unit_kind u = (if u = 34 then 0 else if u = 91 then 2 else if u = 123 then 3 else 1)"

lemma stringify_kind: "unit_kind (hd (stringify v @ x)) = json_kind v"
  by (cases v) (simp_all add: json_kind_def unit_kind_def json_string_def nat_text_hd_bracket)

lemma same_kind: "stringify v @ x = stringify w @ y \<Longrightarrow> json_kind v = json_kind w"
  by (metis stringify_kind)

lemma json_ends_number: "json_ends x \<Longrightarrow> ends_number x"
  by (auto simp: json_ends_def ends_number_def decimal_digit_def split: list.splits)

lemma stringify_separates: "separates stringify v"
proof (induction v)
  case (JString s)
  have "JString s = w \<and> x = y" if eq: "stringify (JString s) @ x = stringify w @ y" for w x y
    using eq same_kind [OF eq] by (cases w) (auto simp: json_kind_def json_string_prefix)
  then show ?case by (simp add: separates_def)
next
  case (JNatural n)
  have "JNatural n = w \<and> x = y"
    if eq: "stringify (JNatural n) @ x = stringify w @ y" and "json_ends x" "json_ends y" for w x y
    using eq same_kind [OF eq] nat_text_prefix [OF json_ends_number json_ends_number] that(2,3)
    by (cases w) (auto simp: json_kind_def)
  then show ?case by (simp add: separates_def)
next
  case (JArray vs)
  have "JArray vs = w \<and> x = y" if eq: "stringify (JArray vs) @ x = stringify w @ y" for w x y
  proof -
    obtain ws where w: "w = JArray ws" using same_kind [OF eq] by (cases w) (auto simp: json_kind_def)
    have "join [44] (map stringify vs) @ 93 # x = join [44] (map stringify ws) @ 93 # y"
      using eq by (simp add: w)
    from separates_join [OF _ _ _ this] JArray.IH show ?thesis by (auto simp: w stringify_hd)
  qed
  then show ?case by (simp add: separates_def)
next
  case (JObject kvs)
  let ?print = "\<lambda>(k, v). json_string k @ [58] @ stringify v"
  have "JObject kvs = w \<and> x = y" if eq: "stringify (JObject kvs) @ x = stringify w @ y" for w x y
  proof -
    obtain ws where w: "w = JObject ws" using same_kind [OF eq] by (cases w) (auto simp: json_kind_def)
    have "join [44] (map ?print kvs) @ 125 # x = join [44] (map ?print ws) @ 125 # y"
      using eq by (simp add: w)
    moreover have "separates ?print kv" if "kv \<in> set kvs" for kv
    proof -
      have "separates stringify (snd kv)" using JObject.IH that by (cases kv) auto
      then show ?thesis
        by (cases kv) (auto simp: separates_def json_string_prefix)
    qed
    moreover have "\<forall>kv. ?print kv \<noteq> [] \<and> hd (?print kv) \<noteq> 125"
      by (auto simp: json_string_def)
    ultimately show ?thesis using separates_join [of kvs ?print 125 x ws y] by (simp add: w)
  qed
  then show ?case by (simp add: separates_def)
qed

lemma stringify_inject: "stringify v = stringify w \<longleftrightarrow> v = w"
  using separatesD [OF stringify_separates, of v "[]" w "[]"] by (auto simp: json_ends_def)

end
