(* ===== verification/Recipe_Graph.thy ===== *)
theory Recipe_Graph
  imports Json Workflow_Order Product
begin

text \<open>
  \<open>workflow-engine/src/compile-recipe-field-graph.ts\<close>: the recipes of a dataset, each
  producing one field from others, are ordered so that every field is produced before it is
  read. The dependencies of a recipe are those of its inputs that another recipe produces.
\<close>

section \<open>Inputs and results\<close>

definition RECIPE_FIELD_GRAPH_COMPILER_VERSION :: jstring where
  "RECIPE_FIELD_GRAPH_COMPILER_VERSION = lit ''1.0.0''"

record recipe_limits =
  rl_maxDepth :: js_number
  rl_maxFanOut :: js_number
  rl_maxNodes :: js_number

record compiled_recipe_node =
  crn_dependsOn :: "jstring list"
  crn_depth :: nat
  crn_recipe :: enrichment_recipe
  crn_targetFieldId :: jstring

record compiled_recipe_graph =
  crg_compilerVersion :: jstring
  crg_datasetId :: jstring
  crg_fingerprint :: jstring
  crg_nodes :: "compiled_recipe_node list"
  crg_sourceFieldIds :: "jstring list"
  crg_workspaceId :: jstring

datatype recipe_graph_code =
    RG_cycle_detected | RG_depth_limit_exceeded | RG_duplicate_input_field
  | RG_duplicate_recipe_identity | RG_duplicate_target_field | RG_fan_out_limit_exceeded
  | RG_field_collection_invalid | RG_invalid_limits | RG_node_limit_exceeded
  | RG_recipe_scope_mismatch | RG_self_dependency | RG_unknown_input_field
  | RG_unknown_target_field

text \<open>A failure, with the recipe and the field it is about; the thrown invariant error.\<close>

datatype recipe_graph_error =
    Recipe_graph_failure recipe_graph_code "jstring option" "jstring option"
  | Recipe_graph_invariant_violated

record recipe_graph_input =
  rgi_dataset :: dataset
  rgi_fields :: "field list"
  rgi_limits :: recipe_limits
  rgi_recipes :: "enrichment_recipe list"

record recipe_draft =
  rdr_dependsOn :: "jstring list"
  rdr_recipe :: enrichment_recipe

definition rg_reject :: "recipe_graph_code \<Rightarrow> recipe_graph_error" where
  "rg_reject code = Recipe_graph_failure code None None"

definition limitsAreValid :: "recipe_limits \<Rightarrow> bool" where
  "limitsAreValid limits \<longleftrightarrow>
     is_safe_integer (rl_maxNodes limits) \<and> js_gt (rl_maxNodes limits) (num 0) \<and>
     is_safe_integer (rl_maxDepth limits) \<and> js_ge (rl_maxDepth limits) (num 0) \<and>
     is_safe_integer (rl_maxFanOut limits) \<and> js_ge (rl_maxFanOut limits) (num 0)"


section \<open>Validation\<close>

text \<open>The loop over the recipes, with the identities and the producers seen so far.\<close>

fun validate_recipes ::
  "dataset \<Rightarrow> (jstring, field) js_map \<Rightarrow> jstring list \<Rightarrow> (jstring, enrichment_recipe) js_map \<Rightarrow>
   enrichment_recipe list \<Rightarrow> ((jstring, enrichment_recipe) js_map, recipe_graph_error) domain_result"
where
  "validate_recipes dataset fieldsById recipeIds recipesByTarget [] = succeed recipesByTarget"
| "validate_recipes dataset fieldsById recipeIds recipesByTarget (recipe # recipes) =
     (let refuse = (\<lambda>code. fail (Recipe_graph_failure code
            (Some (er_enrichmentRecipeId recipe)) (Some (er_targetFieldId recipe))));
          inputs = er_inputFieldIds recipe
      in if er_workspaceId recipe \<noteq> ds_workspaceId dataset \<or>
            er_datasetId recipe \<noteq> ds_datasetId dataset
         then refuse RG_recipe_scope_mismatch
         else if er_enrichmentRecipeId recipe \<in> set recipeIds
         then refuse RG_duplicate_recipe_identity
         else if map_has recipesByTarget (er_targetFieldId recipe)
         then refuse RG_duplicate_target_field
         else if \<not> map_has fieldsById (er_targetFieldId recipe)
         then refuse RG_unknown_target_field
         else if set_size inputs \<noteq> length inputs
         then refuse RG_duplicate_input_field
         else if er_targetFieldId recipe \<in> set inputs
         then refuse RG_self_dependency
         else if list_ex (\<lambda>fieldId. \<not> map_has fieldsById fieldId) inputs
         then refuse RG_unknown_input_field
         else validate_recipes dataset fieldsById (er_enrichmentRecipeId recipe # recipeIds)
           (map_set (er_targetFieldId recipe) recipe recipesByTarget) recipes)"

definition validateRecipes ::
  "recipe_graph_input \<Rightarrow> (jstring, field) js_map \<Rightarrow>
   ((jstring, enrichment_recipe) js_map, recipe_graph_error) domain_result" where
  "validateRecipes input fieldsById =
     (if js_gt (num (int (length (rgi_recipes input)))) (rl_maxNodes (rgi_limits input))
      then fail (rg_reject RG_node_limit_exceeded)
      else validate_recipes (rgi_dataset input) fieldsById [] [] (rgi_recipes input))"


section \<open>The graph\<close>

definition draftNodes ::
  "(jstring, enrichment_recipe) js_map \<Rightarrow> (jstring, recipe_draft) js_map" where
  "draftNodes recipesByTarget =
     map_from (map (\<lambda>(targetFieldId, recipe). (targetFieldId,
         \<lparr>rdr_dependsOn =
            sort (filter (\<lambda>fieldId. map_has recipesByTarget fieldId) (er_inputFieldIds recipe)),
          rdr_recipe = recipe\<rparr>))
       recipesByTarget)"

record recipe_graph =
  rg_dependants :: "(jstring, jstring list) js_map"
  rg_remainingDependencies :: "(jstring, int) js_map"

text \<open>One entry of the dependants of a field; the same step as in the workflow compiler.\<close>

definition recipe_dependants ::
  "(jstring, recipe_draft) js_map \<Rightarrow> (jstring, jstring list) js_map" where
  "recipe_dependants nodes =
     fold (\<lambda>(targetFieldId, node).
         fold (add_dependant targetFieldId) (er_inputFieldIds (rdr_recipe node))) nodes []"

definition buildRecipeGraph :: "(jstring, recipe_draft) js_map \<Rightarrow> recipe_graph" where
  "buildRecipeGraph nodes =
     \<lparr>rg_dependants = map (\<lambda>(fieldId, entries). (fieldId, sort entries)) (recipe_dependants nodes),
      rg_remainingDependencies =
        map_from (map (\<lambda>(targetFieldId, node). (targetFieldId, int (length (rdr_dependsOn node))))
          nodes)\<rparr>"

definition validateRecipeFanOut ::
  "recipe_graph \<Rightarrow> js_number \<Rightarrow> (unit, recipe_graph_error) domain_result" where
  "validateRecipeFanOut graph limit =
     (case List.find (\<lambda>(fieldId, dependants). js_gt (num (int (length dependants))) limit)
         (rg_dependants graph) of
        Some (fieldId, _) \<Rightarrow> fail (Recipe_graph_failure RG_fan_out_limit_exceeded None (Some fieldId))
      | None \<Rightarrow> succeed ())"


section \<open>The order\<close>

definition recipe_depth :: "jstring list \<Rightarrow> (jstring, nat) js_map \<Rightarrow> nat" where
  "recipe_depth dependsOn depths =
     foldl (\<lambda>maximum dependency. max maximum
         (case map_get depths dependency of Some d \<Rightarrow> d + 1 | None \<Rightarrow> 0))
       0 dependsOn"

text \<open>
  The loop ends for the same reason as the one of the workflow compiler, whose \<open>release\<close> is
  the body of the inner loop here as well.
\<close>

function order_recipes ::
  "(jstring, recipe_draft) js_map \<Rightarrow> (jstring, jstring list) js_map \<Rightarrow> js_number \<Rightarrow>
   jstring list \<Rightarrow> (jstring, int) js_map \<Rightarrow> (jstring, nat) js_map \<Rightarrow>
   compiled_recipe_node list \<Rightarrow> (compiled_recipe_node list, recipe_graph_error) domain_result"
where
  "order_recipes nodes deps limit [] remaining depths ordered = succeed ordered"
| "order_recipes nodes deps limit (targetFieldId # ready) remaining depths ordered =
     (case map_get nodes targetFieldId of
        None \<Rightarrow> fail Recipe_graph_invariant_violated
      | Some node \<Rightarrow>
          let depth = recipe_depth (rdr_dependsOn node) depths
          in if js_gt (num (int depth)) limit
             then fail (Recipe_graph_failure RG_depth_limit_exceeded
               (Some (er_enrichmentRecipeId (rdr_recipe node))) (Some targetFieldId))
             else
               let released = fold release (get_or [] deps targetFieldId) (remaining, ready)
               in order_recipes nodes deps limit (snd released) (fst released)
                    (map_set targetFieldId depth depths)
                    (ordered @ [\<lparr>crn_dependsOn = rdr_dependsOn node, crn_depth = depth,
                       crn_recipe = rdr_recipe node, crn_targetFieldId = targetFieldId\<rparr>]))"
  by pat_completeness auto

termination
proof (relation "measure (\<lambda>(_, _, _, ready, remaining, _). length ready + positives remaining)",
    goal_cases)
  case (2 nodes deps limit targetFieldId ready remaining depths ordered node depth released)
  then show ?case
    using fold_release_measure [of "get_or [] deps targetFieldId" "(remaining, ready)"] by simp
qed simp

definition orderNodes ::
  "(jstring, recipe_draft) js_map \<Rightarrow> recipe_graph \<Rightarrow> js_number \<Rightarrow>
   (compiled_recipe_node list, recipe_graph_error) domain_result" where
  "orderNodes nodes graph limit =
     (let ready = sort (map fst (filter (\<lambda>entry. length (rdr_dependsOn (snd entry)) = 0) nodes))
      in and_then
           (order_recipes nodes (rg_dependants graph) limit ready (rg_remainingDependencies graph) [] [])
           (\<lambda>ordered.
             if length ordered \<noteq> length nodes then fail (rg_reject RG_cycle_detected)
             else succeed ordered))"

text \<open>\<open>[...new Set(xs)].sort(compareText)\<close>: a set in sorted order has no order of its own.\<close>

definition sourceFields ::
  "compiled_recipe_node list \<Rightarrow> (jstring, enrichment_recipe) js_map \<Rightarrow> jstring list" where
  "sourceFields nodes recipesByTarget =
     sort (remdups (concat (map (\<lambda>node.
       filter (\<lambda>fieldId. \<not> map_has recipesByTarget fieldId) (er_inputFieldIds (crn_recipe node)))
       nodes)))"


section \<open>Compilation\<close>

definition json_strings :: "jstring list \<Rightarrow> json" where
  "json_strings ss = JArray (map JString ss)"

definition recipe_node_json :: "compiled_recipe_node \<Rightarrow> json" where
  "recipe_node_json node =
     (let recipe = crn_recipe node
      in JObject
        [(lit ''dependsOn'', json_strings (crn_dependsOn node)),
         (lit ''depth'', JNatural (crn_depth node)),
         (lit ''inputFieldIds'', json_strings (er_inputFieldIds recipe)),
         (lit ''recipeId'', JString (er_enrichmentRecipeId recipe)),
         (lit ''recipeRevision'', JString (er_recipeRevision recipe)),
         (lit ''targetFieldId'', JString (crn_targetFieldId node)),
         (lit ''workflowContentHash'', JString (er_workflowContentHash recipe)),
         (lit ''workflowRevision'', JString (er_workflowRevision recipe)),
         (lit ''workflowSpecId'', JString (er_workflowSpecId recipe))])"

definition fingerprintFor ::
  "dataset \<Rightarrow> compiled_recipe_node list \<Rightarrow> jstring list \<Rightarrow> jstring" where
  "fingerprintFor dataset nodes sourceFieldIds =
     stringify (JObject
       [(lit ''compilerVersion'', JString RECIPE_FIELD_GRAPH_COMPILER_VERSION),
        (lit ''datasetId'', JString (ds_datasetId dataset)),
        (lit ''nodes'', JArray (map recipe_node_json nodes)),
        (lit ''sourceFieldIds'', json_strings sourceFieldIds),
        (lit ''workspaceId'', JString (ds_workspaceId dataset))])"

definition compileRecipeFieldGraph ::
  "recipe_graph_input \<Rightarrow> (compiled_recipe_graph, recipe_graph_error) domain_result" where
  "compileRecipeFieldGraph input =
     (let dataset = rgi_dataset input; limits = rgi_limits input
      in if \<not> limitsAreValid limits then fail (rg_reject RG_invalid_limits)
      else if list_ex (\<lambda>field. fd_workspaceId field \<noteq> ds_workspaceId dataset \<or>
                  fd_datasetId field \<noteq> ds_datasetId dataset) (rgi_fields input) \<or>
              \<not> ok (validateDatasetFields dataset (rgi_fields input))
      then fail (rg_reject RG_field_collection_invalid)
      else and_then (validateRecipes input
          (map_from (map (\<lambda>field. (fd_fieldId field, field)) (rgi_fields input))))
        (\<lambda>recipes.
          let nodes = draftNodes recipes; graph = buildRecipeGraph nodes
          in and_then (validateRecipeFanOut graph (rl_maxFanOut limits))
            (\<lambda>_. and_then (orderNodes nodes graph (rl_maxDepth limits))
              (\<lambda>ordered.
                let sourceFieldIds = sourceFields ordered recipes
                in succeed
                  \<lparr>crg_compilerVersion = RECIPE_FIELD_GRAPH_COMPILER_VERSION,
                   crg_datasetId = ds_datasetId dataset,
                   crg_fingerprint = fingerprintFor dataset ordered sourceFieldIds,
                   crg_nodes = ordered, crg_sourceFieldIds = sourceFieldIds,
                   crg_workspaceId = ds_workspaceId dataset\<rparr>))))"

end
