(* ===== verification/Recipe_Graph_Properties.thy ===== *)
theory Recipe_Graph_Properties
  imports Recipe_Graph Workflow_Properties Product_Properties
begin

text \<open>
  What \<open>compile-recipe-field-graph.ts\<close> promises: the recipes in an order in which every input
  is at hand, exactly the cyclic graphs refused, and a fingerprint that identifies the graph.
\<close>

section \<open>Maps with fresh keys\<close>

lemma map_has_list: "map_has m k \<longleftrightarrow> k \<in> fst ` set m"
  by (simp add: map_has_def js_map.get_keys) (simp add: map_keys_def)


section \<open>Validated recipes\<close>

abbreviation targets :: "enrichment_recipe list \<Rightarrow> jstring list" where
  "targets recipes \<equiv> map er_targetFieldId recipes"

definition by_target :: "enrichment_recipe list \<Rightarrow> (jstring, enrichment_recipe) js_map" where
  "by_target recipes = map (\<lambda>recipe. (er_targetFieldId recipe, recipe)) recipes"

definition recipe_ok :: "dataset \<Rightarrow> (jstring, field) js_map \<Rightarrow> enrichment_recipe \<Rightarrow> bool" where
  "recipe_ok dataset fieldsById recipe \<longleftrightarrow>
     er_workspaceId recipe = ds_workspaceId dataset \<and> er_datasetId recipe = ds_datasetId dataset \<and>
     map_has fieldsById (er_targetFieldId recipe) \<and> distinct (er_inputFieldIds recipe) \<and>
     er_targetFieldId recipe \<notin> set (er_inputFieldIds recipe) \<and>
     (\<forall>fieldId\<in>set (er_inputFieldIds recipe). map_has fieldsById fieldId)"

lemma validate_recipes_Inr:
  "validate_recipes dataset fieldsById seen (by_target done) recipes = Inr m \<longleftrightarrow>
     (\<forall>recipe\<in>set recipes. recipe_ok dataset fieldsById recipe) \<and>
     distinct (map er_enrichmentRecipeId recipes) \<and>
     set (map er_enrichmentRecipeId recipes) \<inter> set seen = {} \<and>
     distinct (targets recipes) \<and> set (targets recipes) \<inter> set (targets done) = {} \<and>
     m = by_target (done @ recipes)"
proof (induction recipes arbitrary: "done" seen)
  case Nil
  then show ?case by auto
next
  case (Cons recipe recipes)
  have has: "map_has (by_target done) t \<longleftrightarrow> t \<in> set (targets done)" for t
    by (force simp: map_has_list by_target_def)
  have set: "map_set (er_targetFieldId recipe) recipe (by_target done) = by_target (done @ [recipe])"
    if "er_targetFieldId recipe \<notin> set (targets done)"
    using that by (subst map_set_fresh) (force simp: map_keys_def by_target_def)+
  show ?case
  proof (cases "er_targetFieldId recipe \<in> set (targets done)")
    case True
    then show ?thesis by (auto simp: has Let_def)
  next
    case False
    then show ?thesis using Cons.IH [of _ "done @ [recipe]"]
      by (auto simp: has Let_def set recipe_ok_def list_ex_iff)
  qed
qed

lemma by_target_Nil [simp]: "by_target [] = []"
  by (simp add: by_target_def)


section \<open>The graph as a graph of nodes\<close>

definition produced_inputs :: "enrichment_recipe list \<Rightarrow> enrichment_recipe \<Rightarrow> jstring list" where
  "produced_inputs recipes recipe =
     sort (filter (\<lambda>i. i \<in> set (targets recipes)) (er_inputFieldIds recipe))"

definition draft_of :: "enrichment_recipe list \<Rightarrow> enrichment_recipe \<Rightarrow> recipe_draft" where
  "draft_of recipes recipe =
     \<lparr>rdr_dependsOn = produced_inputs recipes recipe, rdr_recipe = recipe\<rparr>"

lemma draftNodes_by_target:
  assumes "distinct (targets recipes)"
  shows "draftNodes (by_target recipes) =
    map (\<lambda>recipe. (er_targetFieldId recipe, draft_of recipes recipe)) recipes"
proof -
  have "map_has (by_target recipes) t \<longleftrightarrow> t \<in> set (targets recipes)" for t
    by (force simp: map_has_list by_target_def)
  then have "map (\<lambda>(t, recipe). (t, \<lparr>rdr_dependsOn =
        sort (filter (\<lambda>i. map_has (by_target recipes) i) (er_inputFieldIds recipe)),
        rdr_recipe = recipe\<rparr>)) (by_target recipes) =
      map (\<lambda>recipe. (er_targetFieldId recipe, draft_of recipes recipe)) recipes"
    by (simp add: by_target_def draft_of_def produced_inputs_def)
  then show ?thesis
    using assms unfolding draftNodes_def by (simp add: map_from_distinct comp_def)
qed

text \<open>Recipes as nodes of a workflow, with the given dependencies.\<close>

definition as_node :: "(enrichment_recipe \<Rightarrow> jstring list) \<Rightarrow> enrichment_recipe \<Rightarrow> workflow_node" where
  "as_node deps recipe =
     \<lparr>wn_key = er_targetFieldId recipe,
      wn_capability = \<lparr>capabilityId = [], capabilityVersion = []\<rparr>,
      wn_dependsOn = deps recipe, wn_humanGate = None\<rparr>"

abbreviation recipe_nodes :: "enrichment_recipe list \<Rightarrow> workflow_node list" where
  "recipe_nodes recipes \<equiv> map (as_node (produced_inputs recipes)) recipes"

lemma as_node_simps [simp]:
  "wn_key (as_node deps recipe) = er_targetFieldId recipe"
  "wn_dependsOn (as_node deps recipe) = deps recipe"
  by (simp_all add: as_node_def)

lemma keys_as_node [simp]: "map wn_key (map (as_node deps) recipes) = targets recipes"
  by simp

lemma closed_recipe_nodes:
  "distinct (targets recipes) \<Longrightarrow> closed_nodes (recipe_nodes recipes)"
  by (auto simp: closed_nodes_def comp_def produced_inputs_def image_image)

lemma deps_as_node:
  assumes "distinct (targets recipes)" and "recipe \<in> set recipes"
  shows "node_deps (map (as_node deps) recipes) (er_targetFieldId recipe) = deps recipe"
  using node_deps_mem [of "map (as_node deps) recipes" "as_node deps recipe"] assms
  by (simp add: comp_def)

definition recipe_drafts_graph :: "enrichment_recipe list \<Rightarrow> recipe_graph" where
  "recipe_drafts_graph recipes = buildRecipeGraph
     (map (\<lambda>recipe. (er_targetFieldId recipe, draft_of recipes recipe)) recipes)"

lemma recipe_dependants_nodes:
  "recipe_dependants (map (\<lambda>recipe. (er_targetFieldId recipe, draft_of recipes' recipe)) recipes) =
   graph_dependants (map (as_node er_inputFieldIds) recipes)"
  unfolding recipe_dependants_def graph_dependants_def fold_map
  by (rule fold_cong) (simp_all add: draft_of_def)

lemma recipe_dependants_count:
  assumes "distinct (targets recipes)" and "d \<in> set (targets recipes)"
  shows "count_list (get_or [] (rg_dependants (recipe_drafts_graph recipes)) d) key =
    count_list (node_deps (recipe_nodes recipes) key) d"
proof -
  let ?full = "map (as_node er_inputFieldIds) recipes"
  have "count_list (get_or [] (rg_dependants (recipe_drafts_graph recipes)) d) key =
      count_list (node_deps ?full key) d"
    using assms(1) count_dependants [of ?full d key]
    by (simp add: recipe_drafts_graph_def buildRecipeGraph_def get_or_map_sort
        recipe_dependants_nodes graph_dependants_def fold_dependants comp_def)
  also have "\<dots> = count_list (node_deps (recipe_nodes recipes) key) d"
  proof (cases "key \<in> set (targets recipes)")
    case True
    then obtain recipe where recipe: "recipe \<in> set recipes" "key = er_targetFieldId recipe" by auto
    have "count_list (filter (\<lambda>i. i \<in> set (targets recipes)) is) d = count_list is d" for "is"
      using assms(2) by (induction "is") auto
    then show ?thesis
      using deps_as_node [OF assms(1) recipe(1), of er_inputFieldIds]
        deps_as_node [OF assms(1) recipe(1), of "produced_inputs recipes"]
      by (simp add: recipe(2) produced_inputs_def)
  next
    case False
    then show ?thesis by (simp add: node_deps_outside image_image)
  qed
  finally show ?thesis .
qed


section \<open>The ordering loop\<close>

definition drafts :: "enrichment_recipe list \<Rightarrow> (jstring, recipe_draft) js_map" where
  "drafts recipes = map (\<lambda>recipe. (er_targetFieldId recipe, draft_of recipes recipe)) recipes"

text \<open>An ordered node is made of its recipe and its depth.\<close>

definition made_from ::
  "enrichment_recipe list \<Rightarrow> (jstring, nat) js_map \<Rightarrow> compiled_recipe_node \<Rightarrow> bool" where
  "made_from recipes depths node \<longleftrightarrow>
     crn_recipe node \<in> set recipes \<and> crn_targetFieldId node = er_targetFieldId (crn_recipe node) \<and>
     crn_dependsOn node = produced_inputs recipes (crn_recipe node) \<and>
     crn_depth node = get_or 0 depths (crn_targetFieldId node)"

lemma get_draft:
  assumes "distinct (targets recipes)" and "recipe \<in> set recipes"
  shows "map_get (drafts recipes) (er_targetFieldId recipe) = Some (draft_of recipes recipe)"
  using assms by (simp add: drafts_def map_get_def map_of_eq_Some_iff comp_def image_iff) blast

lemma recipe_depth_over:
  assumes "\<forall>d\<in>set ds. map_get depths d \<noteq> None"
  shows "recipe_depth ds depths = depth_over (get_or 0 depths) ds"
  unfolding recipe_depth_def depth_over_def
  by (rule foldl_cong) (use assms in \<open>auto simp: get_or_def\<close>)

lemma order_recipes_spec:
  assumes "distinct (targets recipes)"
  shows "loop_inv (recipe_nodes recipes) limit ready remaining (map crn_targetFieldId ordered) depths \<Longrightarrow>
    list_all (made_from recipes depths) ordered \<Longrightarrow>
    (case order_recipes (drafts recipes) (rg_dependants (recipe_drafts_graph recipes)) limit ready
        remaining depths ordered of
       Inr ordered' \<Rightarrow> canonical (recipe_nodes recipes) (map crn_targetFieldId ordered') \<and>
         available (recipe_nodes recipes) (map crn_targetFieldId ordered') = {} \<and>
         (\<exists>depths'. depths_ok (recipe_nodes recipes) limit (map crn_targetFieldId ordered') depths' \<and>
            list_all (made_from recipes depths') ordered')
     | Inl e \<Rightarrow> \<exists>i t. e = Recipe_graph_failure RG_depth_limit_exceeded i t)"
proof (induction "length ready + positives remaining" arbitrary: ready remaining depths ordered
    rule: less_induct)
  case less
  let ?W = "recipe_nodes recipes" and ?deps = "rg_dependants (recipe_drafts_graph recipes)"
  let ?order = "map crn_targetFieldId ordered"
  show ?case
  proof (cases ready)
    case Nil
    then show ?thesis using less.prems by (auto simp: loop_inv_def)
  next
    case (Cons key ready')
    have avail: "key \<in> available ?W ?order" using less.prems(1) by (auto simp: loop_inv_def Cons)
    then obtain recipe where recipe: "recipe \<in> set recipes" "key = er_targetFieldId recipe"
      and fresh: "key \<notin> set ?order"
      by (auto simp: available_def)
    have deps: "node_deps ?W key = produced_inputs recipes recipe"
      using deps_as_node [OF assms recipe(1)] by (simp add: recipe(2))
    note get = get_draft [OF assms recipe(1), folded recipe(2)]
    let ?depth = "recipe_depth (produced_inputs recipes recipe) depths"
    have depth: "?depth = depth_over (get_or 0 depths) (node_deps ?W key)"
      using less.prems(1) avail
      by (subst recipe_depth_over) (auto simp: loop_inv_def depths_ok_def available_def deps)
    show ?thesis
    proof (cases "js_gt (num (int ?depth)) limit")
      case True
      then show ?thesis by (simp add: Cons get Let_def draft_of_def)
    next
      case False
      let ?released = "fold release (get_or [] ?deps key) (remaining, ready')"
      let ?node = "\<lparr>crn_dependsOn = produced_inputs recipes recipe, crn_depth = ?depth,
        crn_recipe = recipe, crn_targetFieldId = key\<rparr>"
      have graph: "graph_ok ?W (map_from (map (\<lambda>node. (wn_key node, node)) ?W)) ?deps"
        using graph_ok_build [of "\<lparr>ws_workflowSpecId = [], ws_revision = [], ws_contentHash = [],
            ws_nodes = ?W\<rparr>"] closed_recipe_nodes [OF assms] recipe_dependants_count [OF assms]
        by (simp add: graph_ok_def image_image)
      have "loop_inv ?W limit (snd ?released) (fst ?released) (map crn_targetFieldId (ordered @ [?node]))
          (map_set key ?depth depths)"
        using loop_inv_step [OF less.prems(1) [unfolded Cons] graph depth False refl] by simp
      moreover have "list_all (made_from recipes (map_set key ?depth depths)) (ordered @ [?node])"
        using less.prems(2) fresh recipe by (auto simp: list_all_iff made_from_def image_iff)
      moreover have "length (snd ?released) + positives (fst ?released) <
          length ready + positives remaining"
        using fold_release_measure [of "get_or [] ?deps key" "(remaining, ready')"] by (simp add: Cons)
      ultimately show ?thesis using less.hyps [of "snd ?released" "fst ?released"] False
        by (simp add: Cons get Let_def draft_of_def)
    qed
  qed
qed


definition spec_of :: "workflow_node list \<Rightarrow> workflow_spec" where
  "spec_of nodes = \<lparr>ws_workflowSpecId = [], ws_revision = [], ws_contentHash = [], ws_nodes = nodes\<rparr>"

lemma loop_inv_recipes:
  assumes "distinct (targets recipes)"
  shows "loop_inv (recipe_nodes recipes) limit
    (sort (map fst (filter (\<lambda>entry. length (rdr_dependsOn (snd entry)) = 0) (drafts recipes))))
    (rg_remainingDependencies (recipe_drafts_graph recipes)) [] []"
proof -
  have "map wn_key (filter (\<lambda>node. length (wn_dependsOn node) = 0) (recipe_nodes recipes)) =
      map fst (filter (\<lambda>entry. length (rdr_dependsOn (snd entry)) = 0) (drafts recipes))"
    by (simp add: drafts_def filter_map comp_def draft_of_def)
  moreover have "wg_remainingDependencies (buildGraph (spec_of (recipe_nodes recipes))) =
      rg_remainingDependencies (recipe_drafts_graph recipes)"
    by (simp add: buildGraph_def spec_of_def recipe_drafts_graph_def buildRecipeGraph_def comp_def
        draft_of_def)
  ultimately show ?thesis
    using loop_inv_start [of "spec_of (recipe_nodes recipes)" limit] closed_recipe_nodes [OF assms]
    by (simp add: spec_of_def)
qed

text \<open>
  Ordering returns the recipes in canonical order, stops at a depth over the limit, or
  reports a cycle when there is no order at all.
\<close>

definition ordered_recipes ::
  "enrichment_recipe list \<Rightarrow> js_number \<Rightarrow> compiled_recipe_node list \<Rightarrow> bool" where
  "ordered_recipes recipes limit ordered \<longleftrightarrow>
     (\<exists>depths. orderGraph_result (recipe_nodes recipes) limit (map crn_targetFieldId ordered) depths \<and>
        list_all (made_from recipes depths) ordered)"

lemma orderNodes_spec:
  assumes "distinct (targets recipes)"
  shows "case orderNodes (drafts recipes) (recipe_drafts_graph recipes) limit of
      Inr ordered \<Rightarrow> ordered_recipes recipes limit ordered
    | Inl e \<Rightarrow> (\<exists>i t. e = Recipe_graph_failure RG_depth_limit_exceeded i t) \<or>
        e = rg_reject RG_cycle_detected \<and> \<not> (\<exists>ks. dependency_order (recipe_nodes recipes) ks)"
proof -
  let ?run = "order_recipes (drafts recipes) (rg_dependants (recipe_drafts_graph recipes)) limit
    (sort (map fst (filter (\<lambda>entry. length (rdr_dependsOn (snd entry)) = 0) (drafts recipes))))
    (rg_remainingDependencies (recipe_drafts_graph recipes)) [] []"
  note spec = order_recipes_spec [OF assms, of limit _ _ "[]", simplified, OF loop_inv_recipes [OF assms, of limit]]
  have dist: "distinct (map wn_key (recipe_nodes recipes))" using assms by (simp add: comp_def)
  show ?thesis
  proof (cases ?run)
    case (Inl e)
    with spec show ?thesis by (auto simp: orderNodes_def)
  next
    case (Inr ordered)
    with spec have canon: "canonical (recipe_nodes recipes) (map crn_targetFieldId ordered)"
      and stuck: "available (recipe_nodes recipes) (map crn_targetFieldId ordered) = {}"
      and made: "\<exists>depths. depths_ok (recipe_nodes recipes) limit (map crn_targetFieldId ordered) depths \<and>
          list_all (made_from recipes depths) ordered"
      by simp_all
    have len: "length ordered = length (drafts recipes) \<longleftrightarrow>
        set (map crn_targetFieldId ordered) = node_keys (recipe_nodes recipes)"
      using canonical_length [OF canon dist] by (simp add: drafts_def)
    show ?thesis
    proof (cases "length ordered = length (drafts recipes)")
      case True
      with made canon len have "ordered_recipes recipes limit ordered"
        unfolding ordered_recipes_def orderGraph_result_def by blast
      with Inr True show ?thesis by (simp add: orderNodes_def)
    next
      case False
      then have "\<not> (\<exists>ks. dependency_order (recipe_nodes recipes) ks)"
        using len stuck_complete [OF _ canon stuck] by blast
      with Inr False show ?thesis by (simp add: orderNodes_def)
    qed
  qed
qed


section \<open>Compilation\<close>

lemma compileRecipeFieldGraph_InrE:
  assumes "compileRecipeFieldGraph input = Inr g"
  obtains "distinct (targets (rgi_recipes input))"
    and "\<forall>recipe\<in>set (rgi_recipes input). recipe_ok (rgi_dataset input)
      (map_from (map (\<lambda>field. (fd_fieldId field, field)) (rgi_fields input))) recipe"
    and "ordered_recipes (rgi_recipes input) (rl_maxDepth (rgi_limits input)) (crg_nodes g)"
    and "crg_sourceFieldIds g = sourceFields (crg_nodes g) (by_target (rgi_recipes input))"
    and "crg_fingerprint g = fingerprintFor (rgi_dataset input) (crg_nodes g) (crg_sourceFieldIds g)"
proof -
  let ?recipes = "rgi_recipes input" and ?limits = "rgi_limits input"
  let ?fields = "map_from (map (\<lambda>field. (fd_fieldId field, field)) (rgi_fields input))"
  from assms obtain m where m: "validate_recipes (rgi_dataset input) ?fields [] (by_target []) ?recipes = Inr m"
    and order: "orderNodes (draftNodes m) (buildRecipeGraph (draftNodes m)) (rl_maxDepth ?limits) =
      Inr (crg_nodes g)"
    and g: "crg_sourceFieldIds g = sourceFields (crg_nodes g) m"
      "crg_fingerprint g = fingerprintFor (rgi_dataset input) (crg_nodes g) (crg_sourceFieldIds g)"
    by (auto simp: compileRecipeFieldGraph_def validateRecipes_def Let_def)
  from m have dist: "distinct (targets ?recipes)" and m': "m = by_target ?recipes"
    and ok: "\<forall>recipe\<in>set ?recipes. recipe_ok (rgi_dataset input) ?fields recipe"
    unfolding validate_recipes_Inr by simp_all
  have "draftNodes m = drafts ?recipes"
    using draftNodes_by_target [OF dist] by (simp add: m' drafts_def)
  then have "orderNodes (drafts ?recipes) (recipe_drafts_graph ?recipes) (rl_maxDepth ?limits) =
      Inr (crg_nodes g)"
    using order by (simp add: recipe_drafts_graph_def drafts_def)
  then have "ordered_recipes ?recipes (rl_maxDepth ?limits) (crg_nodes g)"
    using orderNodes_spec [OF dist, of "rl_maxDepth ?limits"] by simp
  then show thesis using that dist ok g m' by simp
qed


lemma set_produced_inputs:
  "set (produced_inputs recipes recipe) = set (er_inputFieldIds recipe) \<inter> set (targets recipes)"
  by (auto simp: produced_inputs_def)

lemma set_sourceFields:
  "set (sourceFields nodes (by_target recipes)) =
     (\<Union>node\<in>set nodes. set (er_inputFieldIds (crn_recipe node))) - set (targets recipes)"
  by (auto simp: sourceFields_def map_has_list by_target_def image_iff)

lemma ordered_recipes_facts:
  assumes "distinct (targets recipes)" and "ordered_recipes recipes limit nodes"
  shows "distinct (map crn_recipe nodes)" "set (map crn_recipe nodes) = set recipes"
    "map crn_targetFieldId nodes = targets (map crn_recipe nodes)"
    "i < length nodes \<Longrightarrow> set (er_inputFieldIds (crn_recipe (nodes ! i))) \<inter> set (targets recipes)
       \<subseteq> set (targets (map crn_recipe (take i nodes)))"
    "i < length nodes \<Longrightarrow> j < length nodes \<Longrightarrow>
       crn_targetFieldId (nodes ! j) \<in> set (crn_dependsOn (nodes ! i)) \<Longrightarrow>
       crn_depth (nodes ! j) < crn_depth (nodes ! i)"
proof -
  let ?W = "recipe_nodes recipes" and ?order = "map crn_targetFieldId nodes"
  obtain depths where canon: "canonical ?W ?order" and full: "set ?order = node_keys ?W"
    and depths: "depths_ok ?W limit ?order depths" and made: "list_all (made_from recipes depths) nodes"
    using assms(2) by (auto simp: ordered_recipes_def orderGraph_result_def)
  have m: "made_from recipes depths n" if "n \<in> set nodes" for n
    using made that by (simp add: list_all_iff)
  show targets: "?order = targets (map crn_recipe nodes)"
    using m by (simp add: made_from_def)
  have dist: "distinct (targets (map crn_recipe nodes))"
    using canonical_distinct [OF canon] targets by metis
  then show "distinct (map crn_recipe nodes)" by (simp only: distinct_map [of er_targetFieldId])
  show "set (map crn_recipe nodes) = set recipes"
  proof
    show "set (map crn_recipe nodes) \<subseteq> set recipes" using m by (auto simp: made_from_def)
    have "recipe \<in> set (map crn_recipe nodes)" if recipe: "recipe \<in> set recipes" for recipe
    proof -
      have "er_targetFieldId recipe \<in> set (targets (map crn_recipe nodes))"
        using full recipe targets by (simp add: image_image)
      then obtain r where r: "r \<in> set (map crn_recipe nodes)"
        "er_targetFieldId r = er_targetFieldId recipe"
        unfolding set_map [of er_targetFieldId] by (metis imageE)
      then have "r \<in> set recipes" using m by (auto simp: made_from_def)
      with r recipe assms(1) show ?thesis by (metis distinct_map inj_onD)
    qed
    then show "set recipes \<subseteq> set (map crn_recipe nodes)" by blast
  qed
  have deps: "node_deps ?W (?order ! i) = crn_dependsOn (nodes ! i)"
    "crn_dependsOn (nodes ! i) = produced_inputs recipes (crn_recipe (nodes ! i))"
    if "i < length nodes" for i
    using m [OF nth_mem [OF that]] deps_as_node [OF assms(1)] that by (simp_all add: made_from_def)
  show "set (er_inputFieldIds (crn_recipe (nodes ! i))) \<inter> set (targets recipes)
      \<subseteq> set (targets (map crn_recipe (take i nodes)))" if i: "i < length nodes"
  proof -
    have "set (node_deps ?W (?order ! i)) \<subseteq> set (take i ?order)"
      using canon i unfolding canonical_def available_def by simp
    moreover have "take i ?order = targets (map crn_recipe (take i nodes))"
      by (simp only: targets) (simp add: take_map)
    ultimately show ?thesis using deps [OF i] by (simp add: set_produced_inputs)
  qed
  show "crn_depth (nodes ! j) < crn_depth (nodes ! i)"
    if i: "i < length nodes" and j: "j < length nodes"
      and d: "crn_targetFieldId (nodes ! j) \<in> set (crn_dependsOn (nodes ! i))"
  proof -
    have "get_or 0 depths (crn_targetFieldId (nodes ! i)) =
        depth_over (get_or 0 depths) (crn_dependsOn (nodes ! i))"
      using depths deps(1) [OF i] nth_mem [OF i] i by (auto simp: depths_ok_def)
    then show ?thesis
      using depth_over_bound [OF d, of "get_or 0 depths"] m [OF nth_mem [OF i]] m [OF nth_mem [OF j]]
      by (simp add: made_from_def)
  qed
qed

text \<open>
  C38. A compiled recipe graph can be executed in its order: it contains every recipe once,
  every input of a recipe is a source field or produced by an earlier recipe, the source
  fields are exactly the inputs that no recipe produces, in order and without repetition,
  and the depth of a recipe exceeds the depths of the recipes it depends on.
\<close>

theorem recipe_graph_executable:
  assumes "compileRecipeFieldGraph input = Inr g"
  defines "nodes \<equiv> crg_nodes g" and "recipes \<equiv> rgi_recipes input"
  shows "distinct (map crn_recipe nodes) \<and> set (map crn_recipe nodes) = set recipes \<and>
    (\<forall>i<length nodes. set (er_inputFieldIds (crn_recipe (nodes ! i))) \<subseteq>
       set (crg_sourceFieldIds g) \<union> set (targets (map crn_recipe (take i nodes)))) \<and>
    set (crg_sourceFieldIds g) =
      (\<Union>recipe\<in>set recipes. set (er_inputFieldIds recipe)) - set (targets recipes) \<and>
    sorted (crg_sourceFieldIds g) \<and> distinct (crg_sourceFieldIds g) \<and>
    (\<forall>i<length nodes. \<forall>j<length nodes.
       crn_targetFieldId (nodes ! j) \<in> set (crn_dependsOn (nodes ! i)) \<longrightarrow>
       crn_depth (nodes ! j) < crn_depth (nodes ! i))"
proof (rule compileRecipeFieldGraph_InrE [OF assms(1)], fold nodes_def recipes_def)
  assume dist: "distinct (targets recipes)"
    and ordered: "ordered_recipes recipes (rl_maxDepth (rgi_limits input)) nodes"
    and source: "crg_sourceFieldIds g = sourceFields nodes (by_target recipes)"
  note facts = ordered_recipes_facts [OF dist ordered]
  have "(\<Union>node\<in>set nodes. set (er_inputFieldIds (crn_recipe node))) =
      (\<Union>recipe\<in>set recipes. set (er_inputFieldIds recipe))"
    unfolding facts(2) [symmetric] by simp
  then have set: "set (crg_sourceFieldIds g) =
      (\<Union>recipe\<in>set recipes. set (er_inputFieldIds recipe)) - set (targets recipes)"
    by (simp add: source set_sourceFields)
  have "sorted (crg_sourceFieldIds g) \<and> distinct (crg_sourceFieldIds g)"
    by (simp add: source sourceFields_def)
  moreover have "set (er_inputFieldIds (crn_recipe (nodes ! i))) \<subseteq>
      set (crg_sourceFieldIds g) \<union> set (targets (map crn_recipe (take i nodes)))"
    if i: "i < length nodes" for i
  proof -
    have "crn_recipe (nodes ! i) \<in> set recipes" using facts(2) nth_mem [OF i] by auto
    then show ?thesis using facts(4) [OF i] set by blast
  qed
  ultimately show ?thesis using facts(1,2,5) set by blast
qed


text \<open>Two recipes, the second of which produces an input of the first.\<close>

definition ex_recipe_for :: "string \<Rightarrow> string list \<Rightarrow> enrichment_recipe" where
  "ex_recipe_for t inputs =
     ex_recipe\<lparr>er_enrichmentRecipeId := lit t, er_targetFieldId := lit t,
       er_inputFieldIds := map lit inputs\<rparr>"

definition ex_graph_input :: "enrichment_recipe list \<Rightarrow> recipe_graph_input" where
  "ex_graph_input recipes =
     \<lparr>rgi_dataset = ex_dataset,
      rgi_fields = map (\<lambda>k. ex_field\<lparr>fd_fieldId := lit k, fd_key := lit k\<rparr>) [''a'', ''b'', ''c''],
      rgi_limits = \<lparr>rl_maxDepth = num 5, rl_maxFanOut = num 5, rl_maxNodes = num 5\<rparr>,
      rgi_recipes = recipes\<rparr>"

lemmas ex_graph_defs = ex_graph_input_def ex_recipe_for_def ex_recipe_def ex_dataset_def
  ex_field_def lit_def

lemma ex_graph_fields: "validateDatasetFields (rgi_dataset (ex_graph_input rs))
    (rgi_fields (ex_graph_input rs)) = Inr (rgi_fields (ex_graph_input rs))"
  by (simp add: validateDatasetFields_def schema_ok_def field_ok_def ex_graph_defs
      isBoundedIdentity_def isBoundedText_def trim_def js_space_def MAX_NAME_LENGTH_def
      MAX_DATASET_FIELDS_def MAX_FIELD_KEY_LENGTH_def FIELD_KEY_PATTERN_def lower_def)

definition ex_graph :: recipe_graph_input where
  "ex_graph = ex_graph_input [ex_recipe_for ''c'' [''b'', ''a''], ex_recipe_for ''b'' [''a'']]"

lemmas compile_graph_defs = limitsAreValid_def max_safe_def validateRecipes_def map_from_def
  map_set_def map_has_def map_get_def draftNodes_def buildRecipeGraph_def recipe_dependants_def
  add_dependant_def get_or_def validateRecipeFanOut_def orderNodes_def recipe_depth_def
  release_def sourceFields_def Let_def

lemma ex_graph_compiled:
  "\<exists>g. compileRecipeFieldGraph ex_graph = Inr g \<and>
     map crn_targetFieldId (crg_nodes g) = [lit ''b'', lit ''c'']"
  unfolding compileRecipeFieldGraph_def Let_def ex_graph_def ex_graph_fields
  by (simp add: ex_graph_defs compile_graph_defs)

theorem recipe_graph_executable_witness:
  "\<exists>g. compileRecipeFieldGraph ex_graph = Inr g \<and>
     length (crg_nodes g) = 2 \<and> set (crg_sourceFieldIds g) = {lit ''a''}"
proof -
  obtain g where g: "compileRecipeFieldGraph ex_graph = Inr g"
    "map crn_targetFieldId (crg_nodes g) = [lit ''b'', lit ''c'']"
    using ex_graph_compiled by (elim exE conjE)
  have "length (map crn_targetFieldId (crg_nodes g)) = 2" unfolding g(2) by simp
  then have len: "length (crg_nodes g) = 2" by simp
  have "set (crg_sourceFieldIds g) =
      (\<Union>recipe\<in>set (rgi_recipes ex_graph). set (er_inputFieldIds recipe)) -
      set (targets (rgi_recipes ex_graph))"
    using recipe_graph_executable [OF g(1)] by (elim conjE)
  also have "\<dots> = {lit ''a''}"
    by (auto simp: ex_graph_def ex_graph_defs)
  finally show ?thesis using g(1) len by (intro exI conjI)
qed

lemma not_a_cycle:
  "validateRecipes input fieldsById \<noteq> Inl (rg_reject RG_cycle_detected)"
  "validateRecipeFanOut graph limit \<noteq> Inl (rg_reject RG_cycle_detected)"
proof -
  have "validate_recipes dataset fieldsById seen done recipes \<noteq> Inl (rg_reject RG_cycle_detected)"
    for dataset seen "done" recipes
    by (induction recipes arbitrary: seen "done") (simp_all add: Let_def rg_reject_def)
  then show "validateRecipes input fieldsById \<noteq> Inl (rg_reject RG_cycle_detected)"
    by (simp add: validateRecipes_def) (simp add: rg_reject_def)
  show "validateRecipeFanOut graph limit \<noteq> Inl (rg_reject RG_cycle_detected)"
    by (simp add: validateRecipeFanOut_def rg_reject_def split: option.split)
qed

lemma compile_cycleE:
  assumes "compileRecipeFieldGraph input = Inl (rg_reject RG_cycle_detected)"
  obtains m where "validateRecipes input
      (map_from (map (\<lambda>field. (fd_fieldId field, field)) (rgi_fields input))) = Inr m"
    "orderNodes (draftNodes m) (buildRecipeGraph (draftNodes m)) (rl_maxDepth (rgi_limits input)) =
      Inl (rg_reject RG_cycle_detected)"
proof -
  have "rg_reject RG_invalid_limits \<noteq> rg_reject RG_cycle_detected"
    "rg_reject RG_field_collection_invalid \<noteq> rg_reject RG_cycle_detected"
    by (simp_all add: rg_reject_def)
  with assms obtain m where "validateRecipes input
      (map_from (map (\<lambda>field. (fd_fieldId field, field)) (rgi_fields input))) = Inr m"
    "orderNodes (draftNodes m) (buildRecipeGraph (draftNodes m)) (rl_maxDepth (rgi_limits input)) =
      Inl (rg_reject RG_cycle_detected)"
    unfolding compileRecipeFieldGraph_def Let_def
    by (simp only: simp_thms sum.simps split: if_splits) (auto simp: and_then_eq_Inl not_a_cycle)
  then show thesis by (rule that)
qed

text \<open>
  The compiler reports a cycle only when there is one: then no sequence of the recipes'
  targets puts the producer of every produced input before the recipe that reads it.
\<close>

lemma recipe_cycle_refused:
  assumes "compileRecipeFieldGraph input = Inl (rg_reject RG_cycle_detected)"
  defines "recipes \<equiv> rgi_recipes input"
  shows "\<not> (\<exists>order. distinct order \<and> set order = set (targets recipes) \<and>
    (\<forall>recipe\<in>set recipes. \<forall>i<length order. order ! i = er_targetFieldId recipe \<longrightarrow>
       set (er_inputFieldIds recipe) \<inter> set (targets recipes) \<subseteq> set (take i order)))"
proof
  let ?fields = "map_from (map (\<lambda>field. (fd_fieldId field, field)) (rgi_fields input))"
  let ?limit = "rl_maxDepth (rgi_limits input)"
  assume "\<exists>order. distinct order \<and> set order = set (targets recipes) \<and>
    (\<forall>recipe\<in>set recipes. \<forall>i<length order. order ! i = er_targetFieldId recipe \<longrightarrow>
       set (er_inputFieldIds recipe) \<inter> set (targets recipes) \<subseteq> set (take i order))"
  then obtain order where order: "distinct order" "set order = set (targets recipes)"
    "\<And>recipe i. recipe \<in> set recipes \<Longrightarrow> i < length order \<Longrightarrow> order ! i = er_targetFieldId recipe \<Longrightarrow>
       set (er_inputFieldIds recipe) \<inter> set (targets recipes) \<subseteq> set (take i order)"
    by blast
  obtain m where valid: "validateRecipes input ?fields = Inr m"
    and cycle: "orderNodes (draftNodes m) (buildRecipeGraph (draftNodes m)) ?limit =
      Inl (rg_reject RG_cycle_detected)"
    by (rule compile_cycleE [OF assms(1)])
  have m: "validate_recipes (rgi_dataset input) ?fields [] (by_target []) recipes = Inr m"
    using valid by (simp add: validateRecipes_def recipes_def)
  from m have dist: "distinct (targets recipes)" and m': "m = by_target recipes"
    unfolding validate_recipes_Inr by simp_all
  have "orderNodes (drafts recipes) (recipe_drafts_graph recipes) ?limit =
      Inl (rg_reject RG_cycle_detected)"
    using cycle draftNodes_by_target [OF dist] by (simp add: m' drafts_def recipe_drafts_graph_def)
  then have none: "\<not> (\<exists>ks. dependency_order (recipe_nodes recipes) ks)"
    using orderNodes_spec [OF dist, of ?limit] by (auto simp: rg_reject_def)
  have "dependency_order (recipe_nodes recipes) order"
    unfolding dependency_order_def
  proof (intro conjI allI impI)
    fix i assume i: "i < length order"
    then obtain recipe where recipe: "recipe \<in> set recipes" "order ! i = er_targetFieldId recipe"
      using order(2) nth_mem [OF i] by auto
    then show "set (node_deps (recipe_nodes recipes) (order ! i)) \<subseteq> set (take i order)"
      using order(3) [OF recipe(1) i recipe(2)] deps_as_node [OF dist recipe(1)]
      by (simp add: set_produced_inputs)
  qed (use order(1,2) in \<open>simp_all add: image_image\<close>)
  with none show False by blast
qed


lemma ex_cyclic_graph:
  "compileRecipeFieldGraph
     (ex_graph_input [ex_recipe_for ''c'' [''b''], ex_recipe_for ''b'' [''c'']]) =
   Inl (rg_reject RG_cycle_detected)"
  unfolding compileRecipeFieldGraph_def Let_def ex_graph_fields
  by (simp add: ex_graph_defs compile_graph_defs)

section \<open>The fingerprint\<close>

text \<open>What the fingerprint is meant to identify of an ordered recipe.\<close>

definition node_facts ::
  "compiled_recipe_node \<Rightarrow> jstring list \<times> nat \<times> jstring list \<times> jstring list" where
  "node_facts node =
     (crn_dependsOn node, crn_depth node, er_inputFieldIds (crn_recipe node),
      [er_enrichmentRecipeId (crn_recipe node), er_recipeRevision (crn_recipe node),
       crn_targetFieldId node, er_workflowContentHash (crn_recipe node),
       er_workflowRevision (crn_recipe node), er_workflowSpecId (crn_recipe node)])"

lemma json_strings_inject [simp]: "json_strings ss = json_strings ts \<longleftrightarrow> ss = ts"
  by (simp add: json_strings_def inj_map_eq_map inj_def)

lemma recipe_node_json_facts:
  "recipe_node_json m = recipe_node_json n \<Longrightarrow> node_facts m = node_facts n"
  by (simp add: recipe_node_json_def node_facts_def Let_def)

lemma map_determines:
  "map f xs = map f ys \<Longrightarrow> (\<And>x y. f x = f y \<Longrightarrow> g x = g y) \<Longrightarrow> map g xs = map g ys"
proof (induction xs arbitrary: ys)
  case (Cons x xs)
  from Cons.prems(1) obtain y ys' where ys: "ys = y # ys'" "f x = f y" "map f xs = map f ys'"
    by (cases ys) simp_all
  then show ?case using Cons.IH [OF ys(3) Cons.prems(2)] Cons.prems(2) [OF ys(2)] by simp
qed simp

lemma compiled_graph_ids:
  assumes "compileRecipeFieldGraph input = Inr g"
  shows "crg_datasetId g = ds_datasetId (rgi_dataset input)"
    "crg_workspaceId g = ds_workspaceId (rgi_dataset input)"
    "crg_fingerprint g = fingerprintFor (rgi_dataset input) (crg_nodes g) (crg_sourceFieldIds g)"
  using assms by (auto simp: compileRecipeFieldGraph_def Let_def)

text \<open>
  The fingerprint identifies a compiled graph: if two compilations give the same
  fingerprint, the graphs agree in dataset, workspace and source fields, and node by node
  in target, dependencies, depth, inputs and the exact revisions of recipe and workflow.
  The quoting of \<open>JSON.stringify\<close> leaves no room for two graphs with one text.
\<close>

lemma fingerprint_identifies_graph:
  assumes "compileRecipeFieldGraph a = Inr g" and "compileRecipeFieldGraph b = Inr h"
    and "crg_fingerprint g = crg_fingerprint h"
  shows "crg_datasetId g = crg_datasetId h \<and> crg_workspaceId g = crg_workspaceId h \<and>
    crg_sourceFieldIds g = crg_sourceFieldIds h \<and>
    map node_facts (crg_nodes g) = map node_facts (crg_nodes h)"
proof -
  have "fingerprintFor (rgi_dataset a) (crg_nodes g) (crg_sourceFieldIds g) =
      fingerprintFor (rgi_dataset b) (crg_nodes h) (crg_sourceFieldIds h)"
    using assms(3) compiled_graph_ids(3) [OF assms(1)] compiled_graph_ids(3) [OF assms(2)] by simp
  then have same: "ds_datasetId (rgi_dataset a) = ds_datasetId (rgi_dataset b)"
    "ds_workspaceId (rgi_dataset a) = ds_workspaceId (rgi_dataset b)"
    "crg_sourceFieldIds g = crg_sourceFieldIds h"
    and nodes: "map recipe_node_json (crg_nodes g) = map recipe_node_json (crg_nodes h)"
    unfolding fingerprintFor_def stringify_inject by simp_all
  have "map node_facts (crg_nodes g) = map node_facts (crg_nodes h)"
    by (rule map_determines [OF nodes recipe_node_json_facts])
  with same show ?thesis
    using compiled_graph_ids(1,2) [OF assms(1)] compiled_graph_ids(1,2) [OF assms(2)] by simp
qed

lemma ex_graph_reordered:
  "\<exists>g. compileRecipeFieldGraph
       (ex_graph_input [ex_recipe_for ''b'' [''a''], ex_recipe_for ''c'' [''b'', ''a'']]) = Inr g \<and>
     compileRecipeFieldGraph ex_graph = Inr g"
  unfolding compileRecipeFieldGraph_def Let_def ex_graph_def ex_graph_fields
  by (simp add: ex_graph_defs compile_graph_defs)

end
