(* ===== verification/Budget_Preflight.thy ===== *)
theory Budget_Preflight
  imports Policy "HOL-Library.Monad_Syntax"
begin

text \<open>
  \<open>policy-engine/src/evaluate-sourcing-budget-preflight.ts\<close>: the decision that a sourcing job
  may spend money. The facts arrive unchecked, so they are values of unknown type, whose
  objects are read by their own property descriptors only: a property is data or an accessor,
  which is never called. A proxy whose traps throw stands for every object that throws when it
  is inspected; the decision catches it.
\<close>

section \<open>Unknown values\<close>

datatype property_key = Key_string jstring | Key_symbol nat

text \<open>\<open>U_other\<close> is a value of another type: null, an array, a function, a boolean and so on.\<close>

datatype unknown_value =
    U_undefined
  | U_number js_number
  | U_string jstring
  | U_object "(property_key \<times> own_property) list"
  | U_throwing
  | U_other
and own_property = Data_property unknown_value | Accessor_property

datatype own_read = Read_missing | Read_accessor | Read_value unknown_value

fun isRecord :: "unknown_value \<Rightarrow> bool" where
  "isRecord (U_object _) = True"
| "isRecord U_throwing = True"
| "isRecord _ = False"

text \<open>\<open>None\<close> when the read throws.\<close>

fun readOwnValue :: "unknown_value \<Rightarrow> property_key \<Rightarrow> own_read option" where
  "readOwnValue (U_object properties) key =
     (case map_of properties key of
        None \<Rightarrow> Some Read_missing
      | Some (Data_property v) \<Rightarrow> Some (Read_value v)
      | Some Accessor_property \<Rightarrow> Some Read_accessor)"
| "readOwnValue U_throwing key = None"
| "readOwnValue _ key = Some Read_missing"

definition ownValue :: "unknown_value \<Rightarrow> property_key \<Rightarrow> unknown_value option" where
  "ownValue v key =
     map_option (\<lambda>read. case read of Read_value w \<Rightarrow> w | _ \<Rightarrow> U_undefined) (readOwnValue v key)"

text \<open>\<open>None\<close> when the read throws or is refused; \<open>Some None\<close> when the property is missing.\<close>

definition readOptionalNumber :: "unknown_value \<Rightarrow> property_key \<Rightarrow> js_number option option" where
  "readOptionalNumber source key =
     do {
       read \<leftarrow> readOwnValue source key;
       (case read of
          Read_missing \<Rightarrow> Some None
        | Read_value (U_number x) \<Rightarrow> Some (Some x)
        | _ \<Rightarrow> None)
     }"

abbreviation key_of :: "string \<Rightarrow> property_key" where
  "key_of name \<equiv> Key_string (lit name)"


section \<open>Facts and decisions\<close>

datatype limit_name =
    MaxCompanies | MaxContactsPerCompany | MaxContactsTotal | MaxEnrichments | MaxPhones
  | MaxResults | MaxPages | MaxCalls

definition SOURCING_LIMIT_NAMES :: "limit_name list" where
  "SOURCING_LIMIT_NAMES =
     [MaxCompanies, MaxContactsPerCompany, MaxContactsTotal, MaxEnrichments, MaxPhones,
      MaxResults, MaxPages, MaxCalls]"

fun limit_key :: "limit_name \<Rightarrow> jstring" where
  "limit_key MaxCompanies = lit ''maxCompanies''"
| "limit_key MaxContactsPerCompany = lit ''maxContactsPerCompany''"
| "limit_key MaxContactsTotal = lit ''maxContactsTotal''"
| "limit_key MaxEnrichments = lit ''maxEnrichments''"
| "limit_key MaxPhones = lit ''maxPhones''"
| "limit_key MaxResults = lit ''maxResults''"
| "limit_key MaxPages = lit ''maxPages''"
| "limit_key MaxCalls = lit ''maxCalls''"

type_synonym cardinality_limits = "limit_name \<Rightarrow> js_number"

datatype preflight_reason =
    Input_invalid | Limit_unknown | Limit_missing | Limit_invalid | Limit_overflow
  | Limits_inconsistent | Deadline_invalid | Deadline_elapsed | Budget_invalid | Quote_invalid
  | Quote_expired | Quote_unit_mismatch | Quote_upper_bound_required | Quote_exceeds_budget
  | Unknown_cost_authorization_required | Unknown_cost_hard_cap_required
  | Unknown_cost_hard_cap_invalid | Preflight_allowed

record preflight_snapshot =
  pfs_budget :: budget_limit
  pfs_deadline :: js_number
  pfs_hardExecutionCap :: js_number
  pfs_limits :: cardinality_limits
  pfs_quote :: cost_quote

record preflight_decision =
  pfd_allowed :: bool
  pfd_reasonCodes :: "preflight_reason list"
  pfd_snapshot :: "preflight_snapshot option"
  pfd_stopExternalEffects :: bool
  pfd_stopFallback :: bool

record limit_input =
  li_hasUnknown :: bool
  li_values :: "limit_name \<Rightarrow> unknown_value"

record normalized_quote =
  nq_expiresAt :: js_number
  nq_guarantee :: jstring
  nq_pricingVersion :: jstring
  nq_quoteId :: jstring
  nq_unit :: jstring
  nq_upperBound :: "js_number option"

datatype unknown_cost_mode = Mode_deny | Mode_explicit_non_interactive

record unknown_cost_policy =
  uc_mode :: unknown_cost_mode
  uc_hardCap :: "js_number option"

record preflight_facts =
  pr_budget :: budget_limit
  pr_deadline :: js_number
  pr_limits :: limit_input
  pr_now :: js_number
  pr_quote :: normalized_quote
  pr_unknownCostPolicy :: unknown_cost_policy


section \<open>Reading the facts\<close>

fun own_keys :: "unknown_value \<Rightarrow> property_key list option" where
  "own_keys (U_object properties) = Some (map fst properties)"
| "own_keys U_throwing = None"
| "own_keys _ = Some []"

definition normalizeLimits :: "unknown_value \<Rightarrow> limit_input option" where
  "normalizeLimits source =
     do {
       keys \<leftarrow> own_keys source;
       if list_ex (\<lambda>n. readOwnValue source (Key_string (limit_key n)) = Some Read_accessor)
            SOURCING_LIMIT_NAMES
       then None
       else Some
         \<lparr>li_hasUnknown =
            list_ex (\<lambda>k. k \<notin> set (map (\<lambda>n. Key_string (limit_key n)) SOURCING_LIMIT_NAMES)) keys,
          li_values =
            (\<lambda>n. case readOwnValue source (Key_string (limit_key n)) of
                Some (Read_value v) \<Rightarrow> v | _ \<Rightarrow> U_undefined)\<rparr>
     }"

text \<open>The \<open>typeof\<close> tests: the value of the type, or a refusal.\<close>

fun as_number :: "unknown_value \<Rightarrow> js_number option" where
  "as_number (U_number x) = Some x"
| "as_number _ = None"

fun as_string :: "unknown_value \<Rightarrow> jstring option" where
  "as_string (U_string s) = Some s"
| "as_string _ = None"

fun as_mode :: "unknown_value \<Rightarrow> unknown_cost_mode option" where
  "as_mode (U_string s) =
     (if s = lit ''deny'' then Some Mode_deny
      else if s = lit ''explicit-non-interactive'' then Some Mode_explicit_non_interactive
      else None)"
| "as_mode _ = None"

fun as_record :: "unknown_value \<Rightarrow> unknown_value option" where
  "as_record v = (if isRecord v then Some v else None)"

definition number_property :: "unknown_value \<Rightarrow> string \<Rightarrow> js_number option" where
  "number_property source name = do { v \<leftarrow> ownValue source (key_of name); as_number v }"

definition string_property :: "unknown_value \<Rightarrow> string \<Rightarrow> jstring option" where
  "string_property source name = do { v \<leftarrow> ownValue source (key_of name); as_string v }"

definition record_property :: "unknown_value \<Rightarrow> string \<Rightarrow> unknown_value option" where
  "record_property source name = do { v \<leftarrow> ownValue source (key_of name); as_record v }"

definition normalizeFacts :: "unknown_value \<Rightarrow> preflight_facts option" where
  "normalizeFacts facts =
     do {
       value \<leftarrow> as_record facts;
       budgetSource \<leftarrow> record_property value ''budget'';
       limitsSource \<leftarrow> record_property value ''limits'';
       quoteSource \<leftarrow> record_property value ''quote'';
       policySource \<leftarrow> record_property value ''unknownCostPolicy'';
       deadline \<leftarrow> number_property value ''deadline'';
       now \<leftarrow> number_property value ''now'';
       budgetLimit \<leftarrow> number_property budgetSource ''limit'';
       budgetReserved \<leftarrow> number_property budgetSource ''reserved'';
       budgetSpent \<leftarrow> number_property budgetSource ''spent'';
       budgetUnit \<leftarrow> string_property budgetSource ''unit'';
       quoteExpiresAt \<leftarrow> number_property quoteSource ''expiresAt'';
       quoteGuarantee \<leftarrow> string_property quoteSource ''guarantee'';
       pricingVersion \<leftarrow> string_property quoteSource ''pricingVersion'';
       quoteId \<leftarrow> string_property quoteSource ''quoteId'';
       quoteUnit \<leftarrow> string_property quoteSource ''unit'';
       modeValue \<leftarrow> ownValue policySource (key_of ''mode'');
       mode \<leftarrow> as_mode modeValue;
       upperBound \<leftarrow> readOptionalNumber quoteSource (key_of ''upperBound'');
       hardCap \<leftarrow> readOptionalNumber policySource (key_of ''hardCap'');
       limits \<leftarrow> normalizeLimits limitsSource;
       if mode = Mode_deny \<and> hardCap \<noteq> None then None
       else Some
         \<lparr>pr_budget = \<lparr>bl_unit = budgetUnit, bl_limit = budgetLimit, bl_spent = budgetSpent,
            bl_reserved = budgetReserved\<rparr>,
          pr_deadline = deadline, pr_limits = limits, pr_now = now,
          pr_quote = \<lparr>nq_expiresAt = quoteExpiresAt, nq_guarantee = quoteGuarantee,
            nq_pricingVersion = pricingVersion, nq_quoteId = quoteId, nq_unit = quoteUnit,
            nq_upperBound = upperBound\<rparr>,
          pr_unknownCostPolicy = \<lparr>uc_mode = mode, uc_hardCap = hardCap\<rparr>\<rparr>
     }"


section \<open>Limits, budget and quote\<close>

fun is_limit :: "unknown_value \<Rightarrow> bool" where
  "is_limit (U_number x) = (is_safe_integer x \<and> js_ge x (num 0))"
| "is_limit _ = False"

definition areValidLimits :: "(limit_name \<Rightarrow> unknown_value) \<Rightarrow> bool" where
  "areValidLimits values' \<longleftrightarrow> list_all (\<lambda>n. is_limit (values' n)) SOURCING_LIMIT_NAMES"

fun limit_number :: "unknown_value \<Rightarrow> js_number" where
  "limit_number (U_number x) = x"
| "limit_number _ = NaN"

text \<open>The contradictions between limits that pass each on its own.\<close>

definition limits_inconsistent :: "cardinality_limits \<Rightarrow> js_number \<Rightarrow> bool" where
  "limits_inconsistent limits contactCapacity =
     (let companies = js_gt (limits MaxCompanies) (num 0);
          perCompany = js_gt (limits MaxContactsPerCompany) (num 0)
      in js_eq (limits MaxCompanies) (num 0) \<and> perCompany \<or>
         js_gt (limits MaxContactsTotal) (num 0) \<and> companies \<noteq> perCompany \<or>
         (companies \<and> perCompany) \<and> js_gt (limits MaxContactsTotal) contactCapacity \<or>
         js_gt (limits MaxEnrichments) (limits MaxContactsTotal) \<or>
         js_gt (limits MaxPhones) (limits MaxEnrichments) \<or>
         js_gt (limits MaxPages) (limits MaxCalls))"

text \<open>The reasons that are pushed, and the limits unless they cannot be read.\<close>

definition readLimits :: "limit_input \<Rightarrow> preflight_reason list \<times> cardinality_limits option" where
  "readLimits inp =
     (let missing = list_ex (\<lambda>n. li_values inp n = U_undefined) SOURCING_LIMIT_NAMES;
          invalid = list_ex (\<lambda>n. li_values inp n \<noteq> U_undefined \<and> \<not> is_limit (li_values inp n))
            SOURCING_LIMIT_NAMES;
          codes = (if li_hasUnknown inp then [Limit_unknown] else []) @
            (if missing then [Limit_missing] else []) @ (if invalid then [Limit_invalid] else [])
      in if missing \<or> invalid \<or> \<not> areValidLimits (li_values inp) then (codes, None)
         else
           let limits = (\<lambda>n. limit_number (li_values inp n));
               contactCapacity = js_mul (limits MaxCompanies) (limits MaxContactsPerCompany)
           in if \<not> is_safe_integer contactCapacity then (codes @ [Limit_overflow], None)
              else
                (codes @ (if limits_inconsistent limits contactCapacity
                   then [Limits_inconsistent] else []), Some limits))"

definition budgetRemaining :: "budget_limit \<Rightarrow> preflight_reason list \<times> js_number option" where
  "budgetRemaining budget =
     (if length (trim (bl_unit budget)) > 0 \<and> isAmount (bl_limit budget) \<and>
         isAmount (bl_spent budget) \<and> isAmount (bl_reserved budget) \<and>
         js_le (js_add (bl_spent budget) (bl_reserved budget)) (bl_limit budget)
      then ([], Some (js_sub (js_sub (bl_limit budget) (bl_spent budget)) (bl_reserved budget)))
      else ([Budget_invalid], None))"

definition quoteGuarantee :: "jstring \<Rightarrow> guarantee option" where
  "quoteGuarantee v =
     (if v = lit ''hard'' then Some Hard else if v = lit ''estimated'' then Some Estimated
      else if v = lit ''unknown'' then Some Unknown else None)"

definition validatedQuote :: "normalized_quote \<Rightarrow> cost_quote option" where
  "validatedQuote quote =
     (case quoteGuarantee (nq_guarantee quote) of
        None \<Rightarrow> None
      | Some g \<Rightarrow>
          if length (trim (nq_quoteId quote)) = 0 \<or> length (trim (nq_unit quote)) = 0 \<or>
             length (trim (nq_pricingVersion quote)) = 0 \<or>
             \<not> is_safe_integer (nq_expiresAt quote) \<or> js_lt (nq_expiresAt quote) (num 0) \<or>
             (case nq_upperBound quote of None \<Rightarrow> False | Some b \<Rightarrow> \<not> isAmount b)
          then None
          else Some \<lparr>cq_quoteId = nq_quoteId quote, cq_guarantee = g, cq_unit = nq_unit quote,
            cq_upperBound = nq_upperBound quote, cq_pricingVersion = nq_pricingVersion quote,
            cq_expiresAt = nq_expiresAt quote\<rparr>)"

record quote_evaluation =
  qe_hardExecutionCap :: "js_number option"
  qe_quote :: "cost_quote option"

definition exceeds :: "js_number \<Rightarrow> js_number option \<Rightarrow> bool" where
  "exceeds x remainingBudget = (case remainingBudget of None \<Rightarrow> False | Some r \<Rightarrow> js_gt x r)"

definition unknown_cost_cap ::
  "unknown_cost_policy \<Rightarrow> js_number option \<Rightarrow> preflight_reason list \<times> js_number option" where
  "unknown_cost_cap policy remainingBudget =
     (if uc_mode policy \<noteq> Mode_explicit_non_interactive
      then ([Unknown_cost_authorization_required], None)
      else case uc_hardCap policy of
          None \<Rightarrow> ([Unknown_cost_hard_cap_required], None)
        | Some hardCap \<Rightarrow>
            if \<not> isAmount hardCap \<or> exceeds hardCap remainingBudget
            then ([Unknown_cost_hard_cap_invalid], None)
            else ([], Some hardCap))"

definition evaluateQuote ::
  "preflight_facts \<Rightarrow> js_number option \<Rightarrow> preflight_reason list \<times> quote_evaluation" where
  "evaluateQuote facts remainingBudget =
     (let quote = pr_quote facts
      in case validatedQuote quote of
          None \<Rightarrow> ([Quote_invalid], \<lparr>qe_hardExecutionCap = None, qe_quote = None\<rparr>)
        | Some normalizedQuote \<Rightarrow>
            let codes =
              (if js_le (nq_expiresAt quote) (pr_now facts) then [Quote_expired] else []) @
              (if nq_unit quote \<noteq> bl_unit (pr_budget facts) then [Quote_unit_mismatch] else []) @
              (if cq_guarantee normalizedQuote \<noteq> Unknown \<and> nq_upperBound quote = None
               then [Quote_upper_bound_required] else []) @
              (case nq_upperBound quote of
                 None \<Rightarrow> []
               | Some b \<Rightarrow> if exceeds b remainingBudget then [Quote_exceeds_budget] else [])
            in if cq_guarantee normalizedQuote = Unknown then
                 let (more, cap) = unknown_cost_cap (pr_unknownCostPolicy facts) remainingBudget
                 in (codes @ more, \<lparr>qe_hardExecutionCap = cap, qe_quote = Some normalizedQuote\<rparr>)
               else
                 (codes,
                  \<lparr>qe_hardExecutionCap =
                     (case (nq_upperBound quote, remainingBudget) of
                        (Some b, Some r) \<Rightarrow>
                          Some (if cq_guarantee normalizedQuote = Hard then js_min b r else r)
                      | _ \<Rightarrow> None),
                   qe_quote = Some normalizedQuote\<rparr>))"


section \<open>The decision\<close>

definition denied :: "preflight_reason list \<Rightarrow> preflight_decision" where
  "denied codes =
     \<lparr>pfd_allowed = False, pfd_reasonCodes = codes, pfd_snapshot = None,
      pfd_stopExternalEffects = True, pfd_stopFallback = True\<rparr>"

definition invalidInputDecision :: preflight_decision where
  "invalidInputDecision = denied [Input_invalid]"

text \<open>\<open>None\<close> when \<open>instant\<close> throws.\<close>

definition evaluateSafeSourcingBudgetPreflight :: "preflight_facts \<Rightarrow> preflight_decision option" where
  "evaluateSafeSourcingBudgetPreflight facts =
     (let (limitCodes, limits) = readLimits (pr_limits facts);
          instantsAreValid =
            is_safe_integer (pr_now facts) \<and> js_ge (pr_now facts) (num 0) \<and>
            is_safe_integer (pr_deadline facts) \<and> js_ge (pr_deadline facts) (num 0);
          instantCodes =
            (if \<not> instantsAreValid then [Deadline_invalid]
             else if js_le (pr_deadline facts) (pr_now facts) then [Deadline_elapsed] else []);
          (budgetCodes, remainingBudget) = budgetRemaining (pr_budget facts);
          (quoteCodes, quote) = evaluateQuote facts remainingBudget;
          reasonCodes = limitCodes @ instantCodes @ budgetCodes @ quoteCodes;
          allowed = (length reasonCodes = 0)
      in case (limits, qe_hardExecutionCap quote, qe_quote quote) of
          (Some l, Some cap, Some q) \<Rightarrow>
            if \<not> allowed then Some (denied reasonCodes)
            else
              (case instant (pr_deadline facts) of
                 Inl _ \<Rightarrow> None
               | Inr deadline \<Rightarrow>
                   Some \<lparr>pfd_allowed = True, pfd_reasonCodes = [Preflight_allowed],
                     pfd_snapshot = Some \<lparr>pfs_budget = pr_budget facts, pfs_deadline = deadline,
                       pfs_hardExecutionCap = cap, pfs_limits = l, pfs_quote = q\<rparr>,
                     pfd_stopExternalEffects = False, pfd_stopFallback = False\<rparr>)
        | _ \<Rightarrow> Some (denied reasonCodes))"

definition evaluateSourcingBudgetPreflight :: "unknown_value \<Rightarrow> preflight_decision" where
  "evaluateSourcingBudgetPreflight facts =
     (case normalizeFacts facts of
        None \<Rightarrow> invalidInputDecision
      | Some normalized \<Rightarrow>
          (case evaluateSafeSourcingBudgetPreflight normalized of
             None \<Rightarrow> invalidInputDecision
           | Some decision \<Rightarrow> decision))"

end
