(* ===== verification/Budget_Preflight_Properties.thy ===== *)
theory Budget_Preflight_Properties
  imports Budget_Preflight Routing
begin

text \<open>
  What a preflight decision guarantees: it permits spending only below the rest of the budget,
  within limits that do not contradict each other, before the deadline and the end of the
  quote; and a refusal always names its reasons.
\<close>

section \<open>Counts\<close>

text \<open>The integer that a safe integer stands for.\<close>

definition count :: "js_number \<Rightarrow> int" where
  "count x = js_units x div one_units"

lemma count_num [simp]: "count (num n) = n" "count NegZero = 0"
  by (simp_all add: count_def num_def)

definition natural :: "js_number \<Rightarrow> bool" where
  "natural x \<longleftrightarrow> is_safe_integer x \<and> js_ge x (num 0)"

lemma naturalE:
  assumes "natural x"
  obtains "x = NegZero" | n where "x = num n" "0 \<le> n" "n \<le> max_safe"
  using assms unfolding natural_def by (auto elim!: is_safe_integerE)

lemma js_lt_NegZero [simp]:
  "js_lt NegZero (num n) \<longleftrightarrow> 0 < n" "js_lt (num n) NegZero \<longleftrightarrow> n < 0" "\<not> js_lt NegZero NegZero"
  by (simp_all add: js_lt_def num_def zero_less_mult_iff mult_less_0_iff)

lemma js_eq_NegZero [simp]: "js_eq NegZero (num n) \<longleftrightarrow> n = 0" "js_eq (num n) NegZero \<longleftrightarrow> n = 0"
  "js_eq NegZero NegZero"
  by (simp_all add: js_eq_def num_def)

lemma natural_less: "natural x \<Longrightarrow> natural y \<Longrightarrow> js_lt x y \<longleftrightarrow> count x < count y"
  by (auto elim!: naturalE)

lemma natural_zero: "natural x \<Longrightarrow> js_eq x (num 0) \<longleftrightarrow> count x = 0" "natural x \<Longrightarrow> 0 \<le> count x"
  "natural x \<Longrightarrow> js_lt (num 0) x \<longleftrightarrow> 0 < count x"
  by (auto elim!: naturalE)

text \<open>Rounding keeps a number above a power of two that it is above.\<close>

lemma bit_length_greater: "2 ^ b \<le> n \<longleftrightarrow> b < bit_length n"
proof
  assume "2 ^ b \<le> n"
  then have "(2::nat) ^ b < 2 ^ bit_length n" using less_two_power_bit_length by (rule le_less_trans)
  then show "b < bit_length n" by simp
next
  assume "b < bit_length n"
  then show "2 ^ b \<le> n" using bit_length_le by (meson leD leI)
qed

lemma round_scaled_large:
  assumes "2 ^ c \<le> p" and "53 + s \<le> c"
  shows "round_scaled neg p s = PosInf \<or> (\<exists>k. round_scaled neg p s = Fin k \<and> 2 ^ (c - s) \<le> k)"
proof -
  define t where "t = excess_bits p s"
  have p0: "0 \<le> p" using assms(1) by (rule order_trans [rotated]) simp
  have "2 ^ c \<le> nat \<bar>p\<bar>" using assms(1) p0 by (simp add: le_nat_iff)
  then have bl: "c < bit_length (nat \<bar>p\<bar>)" by (simp only: bit_length_greater)
  then have t: "bit_length (nat \<bar>p\<bar>) = 53 + s + t" and c: "c - s \<le> 52 + t"
    using assms(2) by (simp_all add: t_def excess_bits_def)
  have "2 ^ (52 + (s + t)) \<le> nat \<bar>p\<bar>" unfolding bit_length_greater t by simp
  then have "2 ^ 52 * 2 ^ (s + t) \<le> p" using p0 by (simp add: le_nat_iff power_add)
  then have "round_even (2 ^ 52 * 2 ^ (s + t)) (s + t) \<le> round_even p (s + t)"
    by (rule round_even_mono)
  then have "2 ^ 52 \<le> round_even p (s + t)" by (simp add: round_even_def)
  then have "2 ^ 52 * 2 ^ t \<le> round_even p (s + t) * 2 ^ t" by (rule mult_right_mono) simp
  then obtain m where m: "m = round_even p (s + t) * 2 ^ t" "2 ^ (52 + t) \<le> m"
    by (simp add: power_add)
  have le: "2 ^ (c - s) \<le> m"
    by (rule order_trans [OF power_increasing [OF c] m(2)]) simp
  then have "0 < m" by (rule less_le_trans [rotated]) simp
  then have "\<not> m \<le> - overflow_units" using overflow_units_pos(1) by linarith
  with le \<open>0 < m\<close> show ?thesis
    unfolding round_scaled_def Let_def t_def [symmetric] m(1) [symmetric] by simp
qed

text \<open>A product of counts that is not a safe integer is never taken for one.\<close>

lemma js_mul_large:
  assumes "0 < m" "0 < n" and "max_safe < m * n"
  shows "\<not> is_safe_integer (js_mul (num m) (num n))"
proof -
  let ?p = "(m * one_units) * (n * one_units)"
  have p: "?p = (m * n) * (one_units * one_units)" by (simp only: ac_simps)
  have "2 ^ 53 * (one_units * one_units) \<le> ?p"
    unfolding p using assms(3) by (intro mult_right_mono) (simp_all add: max_safe_def)
  then have "2 ^ (53 + 1074 + 1074) \<le> ?p"
    unfolding one_units_def power_add by (simp only: ac_simps)
  then have "round_scaled False ?p 1074 = PosInf \<or>
      (\<exists>k. round_scaled False ?p 1074 = Fin k \<and> 2 ^ (53 + 1074 + 1074 - 1074) \<le> k)"
    by (rule round_scaled_large) simp
  moreover have "js_mul (num m) (num n) = round_scaled False ?p 1074"
    using assms(1,2) by (simp add: js_mul_def num_def Let_def mult_less_0_iff)
  moreover have "\<not> is_safe_integer (Fin k)" if "2 ^ (53 + 1074 + 1074 - 1074) \<le> k" for k
  proof -
    have "max_safe * one_units < 2 ^ 53 * one_units"
      by (intro mult_strict_right_mono) (simp_all add: max_safe_def)
    also have "\<dots> = 2 ^ (53 + 1074 + 1074 - 1074)"
      unfolding one_units_def power_add [symmetric] by simp
    also note that
    also have "k \<le> \<bar>k\<bar>" by simp
    finally show ?thesis by simp
  qed
  ultimately show ?thesis by auto
qed

lemma natural_mul:
  assumes "natural x" and "natural y"
  shows "is_safe_integer (js_mul x y) \<longleftrightarrow> count x * count y \<le> max_safe"
    "is_safe_integer (js_mul x y) \<Longrightarrow> natural (js_mul x y) \<and> count (js_mul x y) = count x * count y"
proof -
  have zero: "js_mul NegZero NegZero = Fin 0" "0 \<le> n \<Longrightarrow> js_mul NegZero (num n) = NegZero"
    "0 \<le> n \<Longrightarrow> js_mul (num n) NegZero = NegZero" for n
    by (auto simp: js_mul_def num_def Let_def round_scaled_zero mult_less_0_iff)
  have "natural (num 0)" "count (num 0) = 0"
    by (simp_all add: natural_def max_safe_def)
  moreover have "natural NegZero" by (simp add: natural_def js_le_def)
  ultimately have neg: "natural NegZero" "natural (Fin 0)" "count (Fin 0) = 0" by (simp_all only: num_0)
  have both: "(is_safe_integer (js_mul x y) \<longleftrightarrow> count x * count y \<le> max_safe) \<and>
    (is_safe_integer (js_mul x y) \<longrightarrow> natural (js_mul x y) \<and> count (js_mul x y) = count x * count y)"
    using assms
  proof (elim naturalE)
    fix m n
    assume x: "x = num m" "0 \<le> m" "m \<le> max_safe" and y: "y = num n" "0 \<le> n" "n \<le> max_safe"
    show ?thesis
    proof (cases "m * n \<le> max_safe")
      case True
      then have "js_mul x y = num (m * n)" using x y by (simp add: js_mul_num max_safe_def)
      then show ?thesis using True x y by (simp add: natural_def)
    next
      case False
      moreover have "0 < m" "0 < n" using False x(2) y(2) by (auto simp: max_safe_def less_le)
      ultimately show ?thesis using js_mul_large x(1) y(1) by simp
    qed
  qed (simp_all add: zero neg natural_def [symmetric], simp_all add: max_safe_def zero_le_mult_iff)
  then show "is_safe_integer (js_mul x y) \<longleftrightarrow> count x * count y \<le> max_safe"
    "is_safe_integer (js_mul x y) \<Longrightarrow> natural (js_mul x y) \<and> count (js_mul x y) = count x * count y"
    by blast+
qed


section \<open>Limits that agree\<close>

definition limits_agree :: "cardinality_limits \<Rightarrow> bool" where
  "limits_agree limits \<longleftrightarrow>
     list_all (\<lambda>n. natural (limits n)) SOURCING_LIMIT_NAMES \<and>
     (let n = (\<lambda>name. count (limits name));
          capacity = n MaxCompanies * n MaxContactsPerCompany
      in capacity \<le> max_safe \<and>
         (n MaxCompanies = 0 \<longrightarrow> n MaxContactsPerCompany = 0) \<and>
         (n MaxContactsPerCompany = 0 \<longrightarrow> n MaxCompanies = 0 \<or> n MaxContactsTotal = 0) \<and>
         (0 < capacity \<longrightarrow> n MaxContactsTotal \<le> capacity) \<and>
         n MaxPhones \<le> n MaxEnrichments \<and> n MaxEnrichments \<le> n MaxContactsTotal \<and>
         n MaxPages \<le> n MaxCalls)"

lemma all_limit_names: "list_all P SOURCING_LIMIT_NAMES \<longleftrightarrow> (\<forall>n. P n)"
proof -
  have "set SOURCING_LIMIT_NAMES = UNIV"
    using limit_name.exhaust by (auto simp: SOURCING_LIMIT_NAMES_def)
  then show ?thesis by (simp add: list_all_iff)
qed

lemma is_limit_natural: "is_limit v \<longleftrightarrow> (\<exists>x. v = U_number x \<and> natural x)"
  by (cases v) (auto simp: natural_def)

lemma consistent_limits:
  assumes "\<forall>n. natural (limits n)"
    and "is_safe_integer (js_mul (limits MaxCompanies) (limits MaxContactsPerCompany))"
    and "\<not> limits_inconsistent limits (js_mul (limits MaxCompanies) (limits MaxContactsPerCompany))"
  shows "limits_agree limits"
proof -
  let ?c = "count (limits MaxCompanies)" and ?p = "count (limits MaxContactsPerCompany)"
  have nat: "natural (limits n)" "0 \<le> count (limits n)" for n using assms(1) natural_zero(2) by auto
  note mul = natural_mul(2) [OF nat(1) nat(1) assms(2)]
  have cap: "?c * ?p \<le> max_safe" using natural_mul(1) [OF nat(1) nat(1)] assms(2) by blast
  have zero: "js_eq (limits n) (num 0) \<longleftrightarrow> count (limits n) = 0"
    "js_lt (num 0) (limits n) \<longleftrightarrow> 0 < count (limits n)" for n
    using natural_zero(1,3) nat(1) by auto
  have less: "js_lt (limits m) (limits n) \<longleftrightarrow> count (limits m) < count (limits n)" for m n
    using natural_less nat(1) by blast
  have prod: "js_lt (js_mul (limits MaxCompanies) (limits MaxContactsPerCompany)) (limits n) \<longleftrightarrow>
      ?c * ?p < count (limits n)" for n
    using natural_less mul nat(1) by auto
  note ok = assms(3) [unfolded limits_inconsistent_def Let_def zero less prod]
  have pos: "0 < ?c \<longleftrightarrow> ?c \<noteq> 0" "0 < ?p \<longleftrightarrow> ?p \<noteq> 0"
    "0 < count (limits MaxContactsTotal) \<longleftrightarrow> count (limits MaxContactsTotal) \<noteq> 0"
    using nat(2) [of MaxCompanies] nat(2) [of MaxContactsPerCompany] nat(2) [of MaxContactsTotal]
    by linarith+
  have both: "0 < ?c * ?p \<longrightarrow> 0 < ?c \<and> 0 < ?p"
    using nat(2) [of MaxCompanies] nat(2) [of MaxContactsPerCompany] by (auto simp: zero_less_mult_iff)
  have less': "\<not> m < n \<Longrightarrow> n \<le> m" for m n :: int by simp
  show ?thesis
    unfolding limits_agree_def Let_def all_limit_names
  proof (intro conjI allI impI)
    show "natural (limits n)" for n by (rule nat)
  qed (use ok cap both less' in \<open>simp_all only: pos de_Morgan_disj de_Morgan_conj, (blast | argo)+\<close>)
qed

lemma readLimits_agree:
  assumes "readLimits inp = ([], Some limits)"
  shows "limits_agree limits" "\<not> li_hasUnknown inp" "li_values inp n = U_number (limits n)"
proof -
  have valid: "areValidLimits (li_values inp)" and unknown: "\<not> li_hasUnknown inp"
    and limits: "limits = (\<lambda>n. limit_number (li_values inp n))"
    and safe: "is_safe_integer (js_mul (limits MaxCompanies) (limits MaxContactsPerCompany))"
    and consistent: "\<not> limits_inconsistent limits (js_mul (limits MaxCompanies) (limits MaxContactsPerCompany))"
    using assms by (auto simp: readLimits_def Let_def split: if_splits)
  have is_limit: "is_limit (li_values inp n)" for n
    using valid by (simp add: areValidLimits_def all_limit_names)
  then show "li_values inp n = U_number (limits n)"
    using is_limit_natural [of "li_values inp n"] by (auto simp: limits)
  have "\<forall>n. natural (limits n)"
    using is_limit is_limit_natural by (metis limit_number.simps(1) limits)
  then show "limits_agree limits" using safe consistent by (rule consistent_limits)
  show "\<not> li_hasUnknown inp" by (rule unknown)
qed


section \<open>Decisions\<close>

lemma permitted:
  assumes "pfd_snapshot (evaluateSourcingBudgetPreflight facts) = Some s"
  obtains n r where "normalizeFacts facts = Some n"
    "readLimits (pr_limits n) = ([], Some (pfs_limits s))"
    "js_lt (pr_now n) (pfs_deadline s)" "is_safe_integer (pr_now n)" "pfs_budget s = pr_budget n"
    "budgetRemaining (pr_budget n) = ([], Some r)"
    "evaluateQuote n (Some r) =
      ([], \<lparr>qe_hardExecutionCap = Some (pfs_hardExecutionCap s), qe_quote = Some (pfs_quote s)\<rparr>)"
proof -
  obtain n where n: "normalizeFacts facts = Some n"
    using assms by (auto simp: evaluateSourcingBudgetPreflight_def invalidInputDecision_def denied_def
        split: option.splits)
  obtain codes limits where l: "readLimits (pr_limits n) = (codes, limits)" by fastforce
  obtain codes' r where b: "budgetRemaining (pr_budget n) = (codes', r)" by fastforce
  obtain codes'' q where q: "evaluateQuote n r = (codes'', q)" by fastforce
  have all: "codes = []" "codes' = []" "codes'' = []" "limits = Some (pfs_limits s)"
    "qe_hardExecutionCap q = Some (pfs_hardExecutionCap s)" "qe_quote q = Some (pfs_quote s)"
    "pfs_budget s = pr_budget n" "instant (pr_deadline n) = Inr (pfs_deadline s)"
    "is_safe_integer (pr_now n)" "js_ge (pr_now n) (num 0)" "is_safe_integer (pr_deadline n)"
    "js_ge (pr_deadline n) (num 0)" "\<not> js_le (pr_deadline n) (pr_now n)"
    using assms
    by (auto simp: evaluateSourcingBudgetPreflight_def evaluateSafeSourcingBudgetPreflight_def n l b q
        Let_def denied_def invalidInputDecision_def
        split: option.splits sum.splits if_splits)
  have "js_lt (pr_now n) (pr_deadline n)"
    using all(9-13) by (auto elim!: is_safe_integerE simp: js_le_def)
  moreover have "pfs_deadline s = pr_deadline n" using all(8) instant_InrD by blast
  moreover obtain r' where "r = Some r'"
    using b all(2) by (auto simp: budgetRemaining_def split: if_splits)
  moreover have "q = \<lparr>qe_hardExecutionCap = qe_hardExecutionCap q, qe_quote = qe_quote q\<rparr>" by simp
  ultimately show thesis using n l b q all by (intro that [of n r']) simp_all
qed


text \<open>A quote that adds no reason: its end, its unit, and the cap that it allows.\<close>

lemma quote_permits:
  assumes "evaluateQuote n (Some r) = ([], \<lparr>qe_hardExecutionCap = Some cap, qe_quote = Some q\<rparr>)"
    and "is_safe_integer (pr_now n)"
  shows "js_lt (pr_now n) (cq_expiresAt q)" "cq_unit q = bl_unit (pr_budget n)"
    "cq_guarantee q = Unknown \<and>
       pr_unknownCostPolicy n =
         \<lparr>uc_mode = Mode_explicit_non_interactive, uc_hardCap = Some cap\<rparr> \<and>
       isAmount cap \<and> \<not> js_gt cap r \<or>
     cq_guarantee q \<noteq> Unknown \<and>
       (\<exists>b. cq_upperBound q = Some b \<and> isAmount b \<and> \<not> js_gt b r \<and>
          cap = (if cq_guarantee q = Hard then js_min b r else r))"
proof -
  let ?nq = "pr_quote n"
  have valid: "validatedQuote ?nq = Some q"
    using assms(1) by (auto simp: evaluateQuote_def Let_def split: option.splits if_splits prod.splits)
  have q: "cq_expiresAt q = nq_expiresAt ?nq" "is_safe_integer (nq_expiresAt ?nq)"
    "cq_unit q = nq_unit ?nq" "cq_upperBound q = nq_upperBound ?nq"
    "nq_upperBound ?nq = Some b \<Longrightarrow> isAmount b" for b
    using valid by (auto simp: validatedQuote_def split: option.splits if_splits)
  have unit: "\<not> js_le (nq_expiresAt ?nq) (pr_now n)" "nq_unit ?nq = bl_unit (pr_budget n)"
    using assms(1)
    by (auto simp: evaluateQuote_def Let_def valid split: option.splits if_splits prod.splits)
  show "cq_unit q = bl_unit (pr_budget n)" by (simp add: q unit)
  show "js_lt (pr_now n) (cq_expiresAt q)"
    using unit(1) q(2) assms(2) by (auto simp: q(1) js_le_def elim!: is_safe_integerE)
  show "cq_guarantee q = Unknown \<and>
       pr_unknownCostPolicy n =
         \<lparr>uc_mode = Mode_explicit_non_interactive, uc_hardCap = Some cap\<rparr> \<and>
       isAmount cap \<and> \<not> js_gt cap r \<or>
     cq_guarantee q \<noteq> Unknown \<and>
       (\<exists>b. cq_upperBound q = Some b \<and> isAmount b \<and> \<not> js_gt b r \<and>
          cap = (if cq_guarantee q = Hard then js_min b r else r))"
  proof (cases "cq_guarantee q = Unknown")
    case True
    obtain codes where "unknown_cost_cap (pr_unknownCostPolicy n) (Some r) = (codes, Some cap)"
      using assms(1) True
      by (auto simp: evaluateQuote_def Let_def valid split: option.splits if_splits prod.splits)
    then have "uc_mode (pr_unknownCostPolicy n) = Mode_explicit_non_interactive"
      "uc_hardCap (pr_unknownCostPolicy n) = Some cap" "isAmount cap" "\<not> js_gt cap r"
      by (auto simp: unknown_cost_cap_def exceeds_def split: option.splits if_splits)
    with True show ?thesis by simp
  next
    case False
    then show ?thesis
      using assms(1) q(4,5)
      by (auto simp: evaluateQuote_def Let_def valid exceeds_def
          split: option.splits if_splits prod.splits)
  qed
qed

lemma js_min_le: "\<not> js_lt b (js_min b r)" "\<not> js_lt r (js_min b r)"
  by (auto simp: js_min_def js_lt_def split: option.splits)

section \<open>An example\<close>

text \<open>Facts with a budget of 100, of which 30 are spent and 20 reserved, and a hard quote of 40.\<close>

definition sample_limits :: unknown_value where
  "sample_limits =
     U_object (map (\<lambda>n. (Key_string (limit_key n), Data_property (U_number (num 1))))
       SOURCING_LIMIT_NAMES)"

definition sample_facts :: unknown_value where
  "sample_facts =
     U_object
       [(key_of ''budget'', Data_property (U_object
           [(key_of ''limit'', Data_property (U_number (num 100))),
            (key_of ''reserved'', Data_property (U_number (num 20))),
            (key_of ''spent'', Data_property (U_number (num 30))),
            (key_of ''unit'', Data_property (U_string (lit ''credit'')))])),
        (key_of ''deadline'', Data_property (U_number (num 9))),
        (key_of ''limits'', Data_property sample_limits),
        (key_of ''now'', Data_property (U_number (num 5))),
        (key_of ''quote'', Data_property (U_object
           [(key_of ''expiresAt'', Data_property (U_number (num 8))),
            (key_of ''guarantee'', Data_property (U_string (lit ''hard''))),
            (key_of ''pricingVersion'', Data_property (U_string (lit ''v''))),
            (key_of ''quoteId'', Data_property (U_string (lit ''q''))),
            (key_of ''unit'', Data_property (U_string (lit ''credit''))),
            (key_of ''upperBound'', Data_property (U_number (num 40)))])),
        (key_of ''unknownCostPolicy'', Data_property (U_object
           [(key_of ''mode'', Data_property (U_string (lit ''deny'')))]))]"

definition sample_snapshot :: preflight_snapshot where
  "sample_snapshot =
     \<lparr>pfs_budget = \<lparr>bl_unit = lit ''credit'', bl_limit = num 100, bl_spent = num 30,
        bl_reserved = num 20\<rparr>,
      pfs_deadline = num 9, pfs_hardExecutionCap = num 40, pfs_limits = (\<lambda>n. num 1),
      pfs_quote = \<lparr>cq_quoteId = lit ''q'', cq_guarantee = Hard, cq_unit = lit ''credit'',
        cq_upperBound = Some (num 40), cq_pricingVersion = lit ''v'', cq_expiresAt = num 8\<rparr>\<rparr>"

definition sample_normalized :: preflight_facts where
  "sample_normalized =
     \<lparr>pr_budget = pfs_budget sample_snapshot, pr_deadline = num 9,
      pr_limits = \<lparr>li_hasUnknown = False, li_values = (\<lambda>n. U_number (num 1))\<rparr>, pr_now = num 5,
      pr_quote = \<lparr>nq_expiresAt = num 8, nq_guarantee = lit ''hard'', nq_pricingVersion = lit ''v'',
        nq_quoteId = lit ''q'', nq_unit = lit ''credit'', nq_upperBound = Some (num 40)\<rparr>,
      pr_unknownCostPolicy = \<lparr>uc_mode = Mode_deny, uc_hardCap = None\<rparr>\<rparr>"

lemma sample_limits_normalized:
  "normalizeLimits sample_limits = Some \<lparr>li_hasUnknown = False, li_values = (\<lambda>n. U_number (num 1))\<rparr>"
proof -
  have read: "readOwnValue sample_limits (Key_string (limit_key n)) = Some (Read_value (U_number (num 1)))"
    for n by (cases n) (simp_all add: sample_limits_def SOURCING_LIMIT_NAMES_def lit_def)
  have keys: "own_keys sample_limits = Some (map (\<lambda>n. Key_string (limit_key n)) SOURCING_LIMIT_NAMES)"
    by (simp add: sample_limits_def)
  show ?thesis by (auto simp: normalizeLimits_def read keys list_ex_iff)
qed

lemma sample_normalizes: "normalizeFacts sample_facts = Some sample_normalized"
  by (simp add: normalizeFacts_def sample_facts_def number_property_def string_property_def
      record_property_def ownValue_def readOptionalNumber_def lit_def sample_normalized_def
      sample_snapshot_def sample_limits_normalized [unfolded sample_limits_def]
      sample_limits_def)

lemma sample_reads_limits:
  "readLimits \<lparr>li_hasUnknown = False, li_values = (\<lambda>n. U_number (num 1))\<rparr> = ([], Some (\<lambda>n. num 1))"
  by (simp add: readLimits_def SOURCING_LIMIT_NAMES_def areValidLimits_def js_mul_num
      limits_inconsistent_def max_safe_def)

lemma sample_permitted: "pfd_snapshot (evaluateSourcingBudgetPreflight sample_facts) = Some sample_snapshot"
  by (simp add: evaluateSourcingBudgetPreflight_def sample_normalizes
      evaluateSafeSourcingBudgetPreflight_def sample_normalized_def sample_reads_limits
      budgetRemaining_def sample_snapshot_def isAmount_def trim_def js_space_def lit_def evaluateQuote_def
      validatedQuote_def quoteGuarantee_def exceeds_def max_safe_def instant_def)


section \<open>Properties\<close>

text \<open>
  C40. A permitted job has limits that agree with each other, a quote in the unit of the budget,
  and a deadline and a quote that have not passed. A hard quote caps the spending by its bound,
  an unknown one by the cap that the operator set for non-interactive use.
\<close>

theorem preflight_safe:
  assumes "pfd_snapshot (evaluateSourcingBudgetPreflight facts) = Some s"
  shows "limits_agree (pfs_limits s) \<and> cq_unit (pfs_quote s) = bl_unit (pfs_budget s) \<and>
    (\<exists>n. normalizeFacts facts = Some n \<and> \<not> li_hasUnknown (pr_limits n) \<and>
      pfs_budget s = pr_budget n \<and>
      js_lt (pr_now n) (pfs_deadline s) \<and> js_lt (pr_now n) (cq_expiresAt (pfs_quote s)) \<and>
      (case cq_guarantee (pfs_quote s) of
         Unknown \<Rightarrow> pr_unknownCostPolicy n =
           \<lparr>uc_mode = Mode_explicit_non_interactive, uc_hardCap = Some (pfs_hardExecutionCap s)\<rparr>
       | Hard \<Rightarrow> \<exists>b. cq_upperBound (pfs_quote s) = Some b \<and> \<not> js_gt (pfs_hardExecutionCap s) b
       | Estimated \<Rightarrow> cq_upperBound (pfs_quote s) \<noteq> None))"
proof -
  obtain n r where n: "normalizeFacts facts = Some n"
    "readLimits (pr_limits n) = ([], Some (pfs_limits s))"
    "js_lt (pr_now n) (pfs_deadline s)" "is_safe_integer (pr_now n)" "pfs_budget s = pr_budget n"
    "evaluateQuote n (Some r) =
      ([], \<lparr>qe_hardExecutionCap = Some (pfs_hardExecutionCap s), qe_quote = Some (pfs_quote s)\<rparr>)"
    using assms by (rule permitted)
  note q = quote_permits [OF n(6,4)] and l = readLimits_agree [OF n(2)]
  from q(3) have "case cq_guarantee (pfs_quote s) of
         Unknown \<Rightarrow> pr_unknownCostPolicy n =
           \<lparr>uc_mode = Mode_explicit_non_interactive, uc_hardCap = Some (pfs_hardExecutionCap s)\<rparr>
       | Hard \<Rightarrow> \<exists>b. cq_upperBound (pfs_quote s) = Some b \<and> \<not> js_gt (pfs_hardExecutionCap s) b
       | Estimated \<Rightarrow> cq_upperBound (pfs_quote s) \<noteq> None"
    by (auto simp: js_min_le split: guarantee.split)
  with n l(1,2) q(1,2) show ?thesis by auto
qed

theorem preflight_safe_witness:
  "limits_agree (pfs_limits sample_snapshot) \<and>
   cq_unit (pfs_quote sample_snapshot) = bl_unit (pfs_budget sample_snapshot)"
  using preflight_safe [OF sample_permitted] by (elim conjE) (intro conjI)

lemma js_add_large:
  assumes "0 \<le> a" "0 \<le> b" "l \<le> max_safe" and "js_le (js_add (num a) (num b)) (num l)"
  shows "a + b \<le> max_safe"
proof (cases "a = 0 \<or> b = 0")
  case True
  then have "js_add (num a) (num b) = num (a + b)" by (auto simp: num_def round_scaled_zero)
  with assms show ?thesis by simp
next
  case False
  show ?thesis
  proof (rule ccontr)
    assume "\<not> a + b \<le> max_safe"
    then have "2 ^ 53 * one_units \<le> (a + b) * one_units"
      by (intro mult_right_mono) (simp_all add: max_safe_def)
    then have "2 ^ (53 + 1074) \<le> (a + b) * one_units" unfolding one_units_def power_add .
    then have "round_scaled False ((a + b) * one_units) 0 = PosInf \<or>
        (\<exists>k. round_scaled False ((a + b) * one_units) 0 = Fin k \<and> 2 ^ (53 + 1074 - 0) \<le> k)"
      by (rule round_scaled_large) simp
    moreover have "js_add (num a) (num b) = round_scaled False ((a + b) * one_units) 0"
      using False by (simp add: num_def distrib_right)
    moreover have "l * one_units < 2 ^ (53 + 1074 - 0)"
    proof -
      have "l * one_units \<le> max_safe * one_units" using assms(3) by (intro mult_right_mono) simp_all
      also have "\<dots> < 2 ^ 53 * one_units" by (intro mult_strict_right_mono) (simp_all add: max_safe_def)
      also have "\<dots> = 2 ^ (53 + 1074 - 0)" by (simp only: one_units_def power_add diff_zero)
      finally show ?thesis .
    qed
    ultimately show False using assms(4)
      by (auto simp: js_le_def js_lt_def js_eq_def num_def simp del: power_numeral)
  qed
qed

text \<open>
  With a budget of whole amounts, what was spent, what is reserved and the cap of the job
  together never exceed the limit.
\<close>

lemma preflight_cap:
  assumes "pfd_snapshot (evaluateSourcingBudgetPreflight facts) = Some s"
    and "bl_limit (pfs_budget s) = num l" "bl_spent (pfs_budget s) = num p"
    and "bl_reserved (pfs_budget s) = num r" and "l \<le> max_safe"
  shows "is_finite (pfs_hardExecutionCap s) \<and> 0 \<le> js_units (pfs_hardExecutionCap s) \<and>
    js_units (pfs_hardExecutionCap s) + (p + r) * one_units \<le> l * one_units"
proof -
  obtain n rest where n: "is_safe_integer (pr_now n)" "pfs_budget s = pr_budget n"
    "budgetRemaining (pr_budget n) = ([], Some rest)"
    "evaluateQuote n (Some rest) =
      ([], \<lparr>qe_hardExecutionCap = Some (pfs_hardExecutionCap s), qe_quote = Some (pfs_quote s)\<rparr>)"
    using assms(1) by (rule permitted)
  have budget: "0 \<le> p" "0 \<le> r" "0 \<le> l" "js_le (js_add (num p) (num r)) (num l)"
    "rest = js_sub (js_sub (num l) (num p)) (num r)"
    using n(3) assms(2-4) by (auto simp: budgetRemaining_def isAmount_def n(2) split: if_splits)
  have "p + r \<le> max_safe" using js_add_large budget(1,2,4) assms(5) by blast
  then have "\<bar>p + r\<bar> < 2 ^ 53" using budget(1,2) by (simp add: max_safe_def)
  then have sum: "p + r \<le> l" using budget(4) by simp
  then have rest: "rest = num (l - p - r)"
    using budget(1-3,5) assms(5) by (simp add: max_safe_def)
  have amount: "is_finite x \<and> 0 \<le> js_units x \<and> js_units x \<le> (l - p - r) * one_units"
    if "isAmount x" "\<not> js_gt x rest" for x
    using that by (cases x) (auto simp: isAmount_def rest js_le_def js_lt_def js_eq_def num_def
        not_less split: option.splits intro: mult_nonneg_nonneg)
  have "is_finite (pfs_hardExecutionCap s) \<and> 0 \<le> js_units (pfs_hardExecutionCap s) \<and>
      js_units (pfs_hardExecutionCap s) \<le> (l - p - r) * one_units"
    using quote_permits(3) [OF n(4,1)]
  proof (elim disjE conjE exE)
    fix b
    assume b: "isAmount b" "\<not> js_gt b rest"
      "pfs_hardExecutionCap s = (if cq_guarantee (pfs_quote s) = Hard then js_min b rest else rest)"
    have "pfs_hardExecutionCap s \<in> {b, rest}" using b(3) by (auto simp: js_min_def rest)
    then show ?thesis using amount [OF b(1,2)] sum by (auto simp: rest num_def)
  qed (rule amount)
  then show ?thesis by (simp add: algebra_simps)
qed


lemma reasons_not_allowed:
  "Preflight_allowed \<notin> set (fst (readLimits inp))"
  "Preflight_allowed \<notin> set (fst (budgetRemaining budget))"
  "Preflight_allowed \<notin> set (fst (unknown_cost_cap policy r))"
  by (auto simp: readLimits_def Let_def budgetRemaining_def unknown_cost_cap_def split: option.splits)

lemma quote_reasons_not_allowed: "Preflight_allowed \<notin> set (fst (evaluateQuote n r))"
  using reasons_not_allowed(3) [of "pr_unknownCostPolicy n" r]
  by (auto simp: evaluateQuote_def Let_def split: option.splits prod.splits)

lemma quote_without_reason:
  "evaluateQuote n (Some r) = ([], q) \<Longrightarrow> qe_hardExecutionCap q \<noteq> None \<and> qe_quote q \<noteq> None"
  by (auto simp: evaluateQuote_def Let_def unknown_cost_cap_def eq_commute [of "Some _" "uc_hardCap _"]
      split: option.splits prod.splits if_splits)

lemma budget_without_reason: "budgetRemaining budget = ([], r) \<Longrightarrow> r \<noteq> None"
  by (auto simp: budgetRemaining_def split: if_splits)

lemma limits_without_reason: "readLimits inp = ([], l) \<Longrightarrow> l \<noteq> None"
  by (auto simp: readLimits_def Let_def areValidLimits_def list_ex_iff list_all_iff split: if_splits)

definition decided :: "preflight_decision \<Rightarrow> bool" where
  "decided d \<longleftrightarrow>
     (if pfd_allowed d
      then pfd_reasonCodes d = [Preflight_allowed] \<and> pfd_snapshot d \<noteq> None \<and>
        \<not> pfd_stopExternalEffects d \<and> \<not> pfd_stopFallback d
      else pfd_reasonCodes d \<noteq> [] \<and> Preflight_allowed \<notin> set (pfd_reasonCodes d) \<and>
        pfd_snapshot d = None \<and> pfd_stopExternalEffects d \<and> pfd_stopFallback d)"

lemma decided_denied [simp]: "decided (denied codes) \<longleftrightarrow> codes \<noteq> [] \<and> Preflight_allowed \<notin> set codes"
  by (simp add: decided_def denied_def)

lemma decided_permitted [simp]:
  "decided \<lparr>pfd_allowed = True, pfd_reasonCodes = [Preflight_allowed], pfd_snapshot = Some s,
     pfd_stopExternalEffects = False, pfd_stopFallback = False\<rparr>"
  by (simp add: decided_def)

text \<open>
  A decision either permits, with a snapshot, or refuses and stops both external effects and
  fallback; a refusal always names a reason, and no snapshot goes with it.
\<close>

lemma preflight_decides: "decided (evaluateSourcingBudgetPreflight facts)"
proof (cases "normalizeFacts facts")
  case None
  then show ?thesis by (simp add: evaluateSourcingBudgetPreflight_def invalidInputDecision_def)
next
  case (Some n)
  obtain codes limits where l: "readLimits (pr_limits n) = (codes, limits)" by fastforce
  obtain codes' r where b: "budgetRemaining (pr_budget n) = (codes', r)" by fastforce
  obtain codes'' q where q: "evaluateQuote n r = (codes'', q)" by fastforce
  have no: "Preflight_allowed \<notin> set codes" "Preflight_allowed \<notin> set codes'"
    "Preflight_allowed \<notin> set codes''"
    using reasons_not_allowed(1) [of "pr_limits n"] reasons_not_allowed(2) [of "pr_budget n"]
      quote_reasons_not_allowed [of n r] l b q by simp_all
  have some: "limits \<noteq> None \<and> qe_hardExecutionCap q \<noteq> None \<and> qe_quote q \<noteq> None"
    if empty: "codes = []" "codes' = []" "codes'' = []"
  proof -
    obtain r' where "r = Some r'" using budget_without_reason b empty(2) by fastforce
    then show ?thesis
      using limits_without_reason quote_without_reason l q empty by fastforce
  qed
  show ?thesis
    using no some
    by (auto simp: evaluateSourcingBudgetPreflight_def evaluateSafeSourcingBudgetPreflight_def Some l b q
        Let_def invalidInputDecision_def
        split: option.split sum.split)
qed

end
