(* ===== verification/Utf8.thy ===== *)
theory Utf8
  imports Prelude
begin

text \<open>
  \<open>TextEncoder\<close> and the fatal \<open>TextDecoder("utf-8")\<close>, as the Encoding standard defines them. A
  lone surrogate is encoded as U+FFFD, and decoding drops a byte order mark at the start.
\<close>

type_synonym byte = "8 word"


section \<open>Scalar values\<close>

definition surrogate :: "code_unit \<Rightarrow> bool" where
  "surrogate u \<longleftrightarrow> high_surrogate u \<or> low_surrogate u"

definition unit_scalar :: "code_unit \<Rightarrow> nat" where
  "unit_scalar u = (if surrogate u then 0xFFFD else unat u)"

definition pair_scalar :: "code_unit \<Rightarrow> code_unit \<Rightarrow> nat" where
  "pair_scalar u v = 0x10000 + (unat u - 0xD800) * 0x400 + (unat v - 0xDC00)"

fun scalars :: "jstring \<Rightarrow> nat list" where
  "scalars [] = []"
| "scalars [u] = [unit_scalar u]"
| "scalars (u # v # s) =
     (if high_surrogate u \<and> low_surrogate v then pair_scalar u v # scalars s
      else unit_scalar u # scalars (v # s))"

definition scalar_units :: "nat \<Rightarrow> jstring" where
  "scalar_units c =
     (if c < 0x10000 then [word_of_nat c]
      else [word_of_nat (0xD800 + (c - 0x10000) div 0x400),
            word_of_nat (0xDC00 + (c - 0x10000) mod 0x400)])"

definition unicode_scalar :: "nat \<Rightarrow> bool" where
  "unicode_scalar c \<longleftrightarrow> c < 0xD800 \<or> (0xE000 \<le> c \<and> c < 0x110000)"

text \<open>A string without lone surrogates.\<close>

fun well_formed :: "jstring \<Rightarrow> bool" where
  "well_formed [] = True"
| "well_formed [u] = (\<not> surrogate u)"
| "well_formed (u # v # s) =
     (if high_surrogate u \<and> low_surrogate v then well_formed s
      else \<not> surrogate u \<and> well_formed (v # s))"

lemma unat_unit [simp]: "unat (u :: code_unit) < 0x10000"
  using unsigned_less [of u] by simp

lemma surrogate_nat:
  "high_surrogate u \<longleftrightarrow> 0xD800 \<le> unat u \<and> unat u \<le> 0xDBFF"
  "low_surrogate u \<longleftrightarrow> 0xDC00 \<le> unat u \<and> unat u \<le> 0xDFFF"
  by (simp_all add: high_surrogate_def low_surrogate_def word_le_nat_alt)

lemma scalar_units_unit: "\<not> surrogate u \<Longrightarrow> scalar_units (unit_scalar u) = [u]"
  by (simp add: scalar_units_def unit_scalar_def)

lemma scalar_units_pair:
  assumes "high_surrogate u" and "low_surrogate v"
  shows "scalar_units (pair_scalar u v) = [u, v]"
proof -
  have u: "0xD800 \<le> unat u" "unat u \<le> 0xDBFF" and v: "0xDC00 \<le> unat v" "unat v \<le> 0xDFFF"
    using assms by (simp_all add: surrogate_nat)
  have "unat v - 0xDC00 < 0x400" using v by simp
  then have "((unat u - 0xD800) * 0x400 + (unat v - 0xDC00)) div 0x400 = unat u - 0xD800"
    "((unat u - 0xD800) * 0x400 + (unat v - 0xDC00)) mod 0x400 = unat v - 0xDC00"
    by simp_all
  then show ?thesis using u v by (simp add: scalar_units_def pair_scalar_def)
qed

lemma units_of_scalars: "well_formed s \<Longrightarrow> concat (map scalar_units (scalars s)) = s"
  by (induction s rule: scalars.induct) (auto simp: scalar_units_unit scalar_units_pair split: if_splits)

lemma unicode_scalar_unit [simp]: "unicode_scalar (unit_scalar u)"
proof -
  have "unat u < 0x110000" by (rule less_trans [OF unat_unit]) simp
  then show ?thesis by (auto simp: unicode_scalar_def unit_scalar_def surrogate_def surrogate_nat)
qed

lemma unicode_scalar_pair [simp]:
  "high_surrogate u \<Longrightarrow> low_surrogate v \<Longrightarrow> unicode_scalar (pair_scalar u v)"
  by (auto simp: unicode_scalar_def pair_scalar_def surrogate_nat)

lemma unicode_scalars: "list_all unicode_scalar (scalars s)"
  by (induction s rule: scalars.induct) auto


section \<open>Bytes\<close>

definition continuation :: "nat \<Rightarrow> byte" where
  "continuation c = word_of_nat (0x80 + c mod 0x40)"

definition utf8_bytes :: "nat \<Rightarrow> byte list" where
  "utf8_bytes c =
     (if c < 0x80 then [word_of_nat c]
      else if c < 0x800 then [word_of_nat (0xC0 + c div 0x40), continuation c]
      else if c < 0x10000
      then [word_of_nat (0xE0 + c div 0x1000), continuation (c div 0x40), continuation c]
      else [word_of_nat (0xF0 + c div 0x40000), continuation (c div 0x1000),
            continuation (c div 0x40), continuation c])"

text \<open>\<open>new TextEncoder().encode(value)\<close>\<close>

definition encodeUtf8 :: "jstring \<Rightarrow> byte list" where
  "encodeUtf8 value = concat (map utf8_bytes (scalars value))"

definition is_continuation :: "byte \<Rightarrow> bool" where
  "is_continuation b \<longleftrightarrow> 0x80 \<le> b \<and> b \<le> 0xBF"

definition payload :: "byte \<Rightarrow> nat" where
  "payload b = unat b - 0x80"

text \<open>The second bytes that may follow a lead byte: no overlong form, surrogate or excess.\<close>

definition second_of_three :: "byte \<Rightarrow> byte \<Rightarrow> bool" where
  "second_of_three a b \<longleftrightarrow>
     is_continuation b \<and> (a = 0xE0 \<longrightarrow> 0xA0 \<le> b) \<and> (a = 0xED \<longrightarrow> b \<le> 0x9F)"

definition second_of_four :: "byte \<Rightarrow> byte \<Rightarrow> bool" where
  "second_of_four a b \<longleftrightarrow>
     is_continuation b \<and> (a = 0xF0 \<longrightarrow> 0x90 \<le> b) \<and> (a = 0xF4 \<longrightarrow> b \<le> 0x8F)"

fun utf8_scalars :: "byte list \<Rightarrow> nat list option" where
  "utf8_scalars [] = Some []"
| "utf8_scalars (a # t) =
     (if a \<le> 0x7F then map_option (Cons (unat a)) (utf8_scalars t)
      else if 0xC2 \<le> a \<and> a \<le> 0xDF then
        (case t of
           b # t' \<Rightarrow>
             if is_continuation b
             then map_option (Cons ((unat a - 0xC0) * 0x40 + payload b)) (utf8_scalars t')
             else None
         | _ \<Rightarrow> None)
      else if 0xE0 \<le> a \<and> a \<le> 0xEF then
        (case t of
           b # c # t' \<Rightarrow>
             if second_of_three a b \<and> is_continuation c
             then map_option (Cons ((unat a - 0xE0) * 0x1000 + payload b * 0x40 + payload c))
               (utf8_scalars t')
             else None
         | _ \<Rightarrow> None)
      else if 0xF0 \<le> a \<and> a \<le> 0xF4 then
        (case t of
           b # c # d # t' \<Rightarrow>
             if second_of_four a b \<and> is_continuation c \<and> is_continuation d
             then map_option (Cons ((unat a - 0xF0) * 0x40000 + payload b * 0x1000 +
               payload c * 0x40 + payload d)) (utf8_scalars t')
             else None
         | _ \<Rightarrow> None)
      else None)"

definition drop_byte_order_mark :: "byte list \<Rightarrow> byte list" where
  "drop_byte_order_mark bytes =
     (if take 3 bytes = [0xEF, 0xBB, 0xBF] then drop 3 bytes else bytes)"

text \<open>\<open>new TextDecoder("utf-8", { fatal: true }).decode(bytes)\<close>; \<open>None\<close> when it throws.\<close>

definition decodeUtf8 :: "byte list \<Rightarrow> jstring option" where
  "decodeUtf8 bytes =
     map_option (\<lambda>cs. concat (map scalar_units cs)) (utf8_scalars (drop_byte_order_mark bytes))"


section \<open>Decoding what was encoded\<close>

lemma unat_byte [simp]: "n < 0x100 \<Longrightarrow> unat (word_of_nat n :: byte) = n"
  by (simp add: unat_of_nat)

lemma continuation_props [simp]:
  "is_continuation (continuation c)" "payload (continuation c) = c mod 0x40"
  "unat (continuation c) = 0x80 + c mod 0x40"
proof -
  have "c mod 0x40 < 0x40" by simp
  then have lt: "0x80 + c mod 0x40 < 0x100" by linarith
  show "unat (continuation c) = 0x80 + c mod 0x40" unfolding continuation_def by (rule unat_byte [OF lt])
  with \<open>c mod 0x40 < 0x40\<close> show "is_continuation (continuation c)" "payload (continuation c) = c mod 0x40"
    by (simp_all add: is_continuation_def payload_def word_le_nat_alt)
qed

declare utf8_scalars.simps(2) [simp del]

text \<open>One character of each length.\<close>

lemma utf8_scalars_lead:
  "a \<le> 0x7F \<Longrightarrow> utf8_scalars (a # t) = map_option (Cons (unat a)) (utf8_scalars t)"
  "0xC2 \<le> a \<Longrightarrow> a \<le> 0xDF \<Longrightarrow> is_continuation b \<Longrightarrow>
   utf8_scalars (a # b # t) =
   map_option (Cons ((unat a - 0xC0) * 0x40 + payload b)) (utf8_scalars t)"
  "0xE0 \<le> a \<Longrightarrow> a \<le> 0xEF \<Longrightarrow> second_of_three a b \<Longrightarrow> is_continuation c \<Longrightarrow>
   utf8_scalars (a # b # c # t) =
   map_option (Cons ((unat a - 0xE0) * 0x1000 + payload b * 0x40 + payload c)) (utf8_scalars t)"
  "0xF0 \<le> a \<Longrightarrow> a \<le> 0xF4 \<Longrightarrow> second_of_four a b \<Longrightarrow> is_continuation c \<Longrightarrow>
   is_continuation d \<Longrightarrow>
   utf8_scalars (a # b # c # d # t) =
   map_option (Cons ((unat a - 0xF0) * 0x40000 + payload b * 0x1000 + payload c * 0x40 +
     payload d)) (utf8_scalars t)"
  by (simp_all add: utf8_scalars.simps(2) word_le_nat_alt)

lemma byte_digits: "c = c div 0x40 * 0x40 + c mod (0x40 :: nat)"
  by simp

lemma utf8_scalars_bytes:
  assumes "unicode_scalar c"
  shows "utf8_scalars (utf8_bytes c @ t) = map_option (Cons c) (utf8_scalars t)"
proof -
  consider (1) "c < 0x80" | (2) "0x80 \<le> c" "c < 0x800" | (3) "0x800 \<le> c" "c < 0x10000"
    | (4) "0x10000 \<le> c" by linarith
  then show ?thesis
  proof cases
    case 1
    then show ?thesis by (simp add: utf8_bytes_def utf8_scalars_lead(1) word_le_nat_alt)
  next
    case 2
    define a :: byte where "a = word_of_nat (0xC0 + c div 0x40)"
    have a: "unat a = 0xC0 + c div 0x40" unfolding a_def using 2 by (intro unat_byte) linarith
    have lead: "0xC2 \<le> a" "a \<le> 0xDF"
      using 2 by (simp_all add: word_le_nat_alt a)
    have "utf8_bytes c @ t = a # continuation c # t" using 2 by (simp add: utf8_bytes_def a_def)
    then show ?thesis using lead a by (simp add: utf8_scalars_lead(2))
  next
    case 3
    define a :: byte where "a = word_of_nat (0xE0 + c div 0x1000)"
    have a: "unat a = 0xE0 + c div 0x1000" unfolding a_def using 3 by (intro unat_byte) linarith
    have lead: "0xE0 \<le> a" "a \<le> 0xEF"
      using 3 by (simp_all add: word_le_nat_alt a)
    have eq: "a = 0xE0 \<longleftrightarrow> c div 0x1000 = 0" "a = 0xED \<longleftrightarrow> c div 0x1000 = 13"
      using a by (simp_all add: word_unat_eq_iff)
    have high: "c div 0x40 = c div 0x1000 * 0x40 + c div 0x40 mod 0x40"
      using div_mult2_eq [of c 64 64] by simp
    moreover have "c < 0xD800 \<Longrightarrow> c div 0x40 < 0x360" by linarith
    moreover have "0xE000 \<le> c \<Longrightarrow> c div 0x1000 \<noteq> 13" by linarith
    moreover have "0x20 \<le> c div 0x40" using 3 by linarith
    ultimately have second: "second_of_three a (continuation (c div 0x40))"
      unfolding second_of_three_def eq using assms
      by (auto simp: word_le_nat_alt unicode_scalar_def)
    have bytes: "utf8_bytes c @ t = a # continuation (c div 0x40) # continuation c # t"
      using 3 by (simp add: utf8_bytes_def a_def)
    have "c div 0x1000 * 0x1000 + c div 0x40 mod 0x40 * 0x40 + c mod 0x40 = c"
      using high byte_digits [of c] by linarith
    then show ?thesis unfolding bytes by (simp add: utf8_scalars_lead(3) lead second a)
  next
    case 4
    have c: "c < 0x110000" using assms by (auto simp: unicode_scalar_def)
    define a :: byte where "a = word_of_nat (0xF0 + c div 0x40000)"
    have a: "unat a = 0xF0 + c div 0x40000" unfolding a_def using c by (intro unat_byte) linarith
    have lead: "0xF0 \<le> a" "a \<le> 0xF4"
      using c by (simp_all add: word_le_nat_alt a)
    have eq: "a = 0xF0 \<longleftrightarrow> c div 0x40000 = 0" "a = 0xF4 \<longleftrightarrow> c div 0x40000 = 4"
      using a by (simp_all add: word_unat_eq_iff)
    have low: "c div 0x40 = c div 0x1000 * 0x40 + c div 0x40 mod 0x40"
      using div_mult2_eq [of c 64 64] by simp
    have high: "c div 0x1000 = c div 0x40000 * 0x40 + c div 0x1000 mod 0x40"
      using div_mult2_eq [of c "0x1000" 64] by simp
    moreover have "c div 0x1000 < 0x110" "0x10 \<le> c div 0x1000" using 4 c by linarith+
    ultimately have second: "second_of_four a (continuation (c div 0x1000))"
      unfolding second_of_four_def eq by (auto simp: word_le_nat_alt)
    have bytes: "utf8_bytes c @ t =
        a # continuation (c div 0x1000) # continuation (c div 0x40) # continuation c # t"
      using 4 by (simp add: utf8_bytes_def a_def)
    have "c div 0x40000 * 0x40000 + c div 0x1000 mod 0x40 * 0x1000 +
        c div 0x40 mod 0x40 * 0x40 + c mod 0x40 = c"
      using high low byte_digits [of c] by linarith
    then show ?thesis unfolding bytes by (simp add: utf8_scalars_lead(4) lead second a)
  qed
qed

lemma utf8_scalars_encoded:
  "list_all unicode_scalar cs \<Longrightarrow> utf8_scalars (concat (map utf8_bytes cs)) = Some cs"
  by (induction cs) (simp_all add: utf8_scalars_bytes)

text \<open>Only the character U+FEFF has the bytes of the byte order mark.\<close>

lemma byte_order_mark_encoded:
  assumes "take 3 (encodeUtf8 s) = [0xEF, 0xBB, 0xBF]"
  shows "scalars s \<noteq> []" "hd (scalars s) = 0xFEFF"
proof -
  obtain t where "encodeUtf8 s = [0xEF, 0xBB, 0xBF] @ t"
    using assms append_take_drop_id [of 3 "encodeUtf8 s"] by metis
  moreover have "utf8_scalars (encodeUtf8 s) = Some (scalars s)"
    unfolding encodeUtf8_def by (rule utf8_scalars_encoded [OF unicode_scalars])
  moreover have "utf8_scalars ([0xEF, 0xBB, 0xBF] @ t) = map_option (Cons 0xFEFF) (utf8_scalars t)"
    by (simp add: utf8_scalars_lead(3) second_of_three_def is_continuation_def payload_def)
  ultimately have "map_option (Cons 0xFEFF) (utf8_scalars t) = Some (scalars s)" by metis
  then show "scalars s \<noteq> []" "hd (scalars s) = 0xFEFF" by (auto dest: sym)
qed

theorem decode_encode:
  assumes "well_formed s" and "take 1 s \<noteq> [0xFEFF]"
  shows "decodeUtf8 (encodeUtf8 s) = Some s"
proof -
  have "take 3 (encodeUtf8 s) \<noteq> [0xEF, 0xBB, 0xBF]"
  proof
    assume bom: "take 3 (encodeUtf8 s) = [0xEF, 0xBB, 0xBF]"
    have "s = concat (map scalar_units (scalars s))" using units_of_scalars [OF assms(1)] ..
    also have "\<dots> = 0xFEFF # concat (map scalar_units (tl (scalars s)))"
      using byte_order_mark_encoded [OF bom] by (cases "scalars s") (simp_all add: scalar_units_def)
    finally have "s = 0xFEFF # concat (map scalar_units (tl (scalars s)))" .
    with assms(2) show False by (metis take_Suc_Cons One_nat_def take0)
  qed
  then show ?thesis
    using units_of_scalars [OF assms(1)] unicode_scalars [of s]
    by (simp add: decodeUtf8_def drop_byte_order_mark_def encodeUtf8_def utf8_scalars_encoded)
qed

section \<open>ASCII characters\<close>

lemma scalars_Cons: "\<not> surrogate u \<Longrightarrow> scalars (u # t) = unat u # scalars t"
  by (cases t) (simp_all add: unit_scalar_def surrogate_def)

lemma scalars_append:
  "\<not> low_surrogate c \<Longrightarrow> scalars (s @ c # t) = scalars s @ scalars (c # t)"
  by (induction s rule: scalars.induct) auto

definition ascii :: "code_unit \<Rightarrow> bool" where
  "ascii u \<longleftrightarrow> unat u < 0x80"

lemma ascii_not_surrogate [simp]:
  "ascii u \<Longrightarrow> \<not> surrogate u" "ascii u \<Longrightarrow> \<not> low_surrogate u" "ascii u \<Longrightarrow> \<not> high_surrogate u"
  by (auto simp: ascii_def surrogate_def surrogate_nat)

lemma ascii_simps [simp]: "ascii 10" "ascii 13" "ascii 34" "ascii 44"
  by (simp_all add: ascii_def)

lemma encode_Nil [simp]: "encodeUtf8 [] = []"
  by (simp add: encodeUtf8_def)

lemma encode_ascii_Cons:
  "ascii u \<Longrightarrow> encodeUtf8 (u # t) = word_of_nat (unat u) # encodeUtf8 t"
  by (simp add: encodeUtf8_def scalars_Cons utf8_bytes_def ascii_def)

lemma encode_append_ascii:
  "ascii u \<Longrightarrow> encodeUtf8 (s @ u # t) = encodeUtf8 s @ encodeUtf8 (u # t)"
  by (simp add: encodeUtf8_def scalars_append)

end
