(* ===== verification/Number_Text.thy ===== *)
theory Number_Text
  imports Js_Number Decimal
begin

text \<open>
  \<open>String(x)\<close> and \<open>Number(text)\<close> on doubles. \<open>String\<close> writes the shortest decimal that rounds
  to the number, as ECMAScript prescribes; \<open>Number\<close> rounds the decimal it reads to the nearest
  double. Reading back what was written gives every number but negative zero.
\<close>

section \<open>Rounding a ratio\<close>

definition round_ratio :: "nat \<Rightarrow> nat \<Rightarrow> nat" where
  "round_ratio n d =
     (let q = n div d; r = n mod d
      in if 2 * r < d then q else if 2 * r > d then q + 1 else if even q then q else q + 1)"

text \<open>Doubles are multiples of \<open>2 ^ -1074\<close>; the units of the whole number one.\<close>

definition grid_bits :: nat where
  "grid_bits = 1074"

definition grid :: nat where
  "grid = 2 ^ grid_bits"

lemma grid_pos [simp]: "0 < grid" "grid \<noteq> 0"
  by (simp_all add: grid_def)

text \<open>The double nearest to \<open>n / d\<close>, with a sign.\<close>

definition ratio_number :: "bool \<Rightarrow> nat \<Rightarrow> nat \<Rightarrow> js_number" where
  "ratio_number neg n d =
     (let u = n * grid; e = bit_length (u div d) - 53;
          m = int (round_ratio u (d * 2 ^ e) * 2 ^ e)
      in if overflow_units \<le> m then (if neg then NegInf else PosInf)
         else if m = 0 then (if neg then NegZero else Fin 0)
         else Fin (if neg then - m else m))"

text \<open>The double nearest to \<open>n * 10 ^ x\<close>.\<close>

definition decimal_number :: "bool \<Rightarrow> nat \<Rightarrow> int \<Rightarrow> js_number" where
  "decimal_number neg n x =
     (if 0 \<le> x then ratio_number neg (n * 10 ^ nat x) 1 else ratio_number neg n (10 ^ nat (- x)))"

lemma round_ratio_scale:
  assumes "0 < c" shows "round_ratio (c * n) (c * d) = round_ratio n d"
proof -
  have div: "(c * n) div (c * d) = n div d" "(c * n) mod (c * d) = c * (n mod d)"
    using assms by simp_all
  have two: "2 * (c * r) = c * (2 * r)" for r by simp
  have less: "2 * (c * r) < c * d \<longleftrightarrow> 2 * r < d" "c * d < 2 * (c * r) \<longleftrightarrow> d < 2 * r" for r
    unfolding two using assms by (rule nat_mult_less_cancel1)+
  show ?thesis by (simp only: round_ratio_def Let_def div less)
qed

lemma ratio_number_scale:
  assumes "0 < c" shows "ratio_number neg (c * n) (c * d) = ratio_number neg n d"
proof -
  have u: "c * n * grid = c * (n * grid)" by (rule mult.assoc)
  have e: "c * d * 2 ^ e = c * (d * 2 ^ e)" for e by (rule mult.assoc)
  have div: "(c * (n * grid)) div (c * d) = (n * grid) div d" using assms by simp
  show ?thesis
    unfolding ratio_number_def Let_def u div e round_ratio_scale [OF assms] ..
qed

lemma ratio_number_eq:
  assumes "0 < d" "0 < d'" "n * d' = n' * d"
  shows "ratio_number neg n d = ratio_number neg n' d'"
proof -
  have "ratio_number neg n d = ratio_number neg (d' * n) (d' * d)"
    using assms(2) by (simp only: ratio_number_scale)
  also have "\<dots> = ratio_number neg (d * n') (d * d')" using assms(3) by (simp add: mult.commute)
  also have "\<dots> = ratio_number neg n' d'" using assms(1) by (simp only: ratio_number_scale)
  finally show ?thesis .
qed

lemma decimal_number_shift: "decimal_number neg (n * 10 ^ z) (x - int z) = decimal_number neg n x"
proof -
  consider "int z \<le> x" | "0 \<le> x" "x < int z" | "x < 0" by linarith
  then show ?thesis
  proof cases
    case 1
    then obtain y where y: "x = int z + int y" using zle_iff_zadd by auto
    have "nat x = z + y" "nat (x - int z) = y" using y by simp_all
    then show ?thesis using 1 by (simp add: decimal_number_def power_add mult.assoc)
  next
    case 2
    then obtain y where y: "x = int y" using zero_le_imp_eq_int by blast
    then have z: "z = y + nat (int z - x)" using 2 by simp
    have "n * 10 ^ z * 1 = n * 10 ^ y * 10 ^ nat (int z - x)"
      by (subst z) (simp add: power_add)
    then show ?thesis using 2 by (simp add: decimal_number_def y ratio_number_eq)
  next
    case 3
    have e: "nat (int z - x) = z + nat (- x)" using 3 by linarith
    show ?thesis using 3
      by (simp add: decimal_number_def e power_add ratio_number_eq)
  qed
qed

text \<open>Every double is its own nearest double.\<close>

lemma round_ratio_power: "int (round_ratio j (2 ^ e)) = round_even (int j) e"
proof -
  have q: "int j div 2 ^ e = int (j div 2 ^ e)" by (simp add: zdiv_int)
  have r: "int j mod 2 ^ e = int (j mod 2 ^ e)" by (simp add: zmod_int)
  have less: "2 * int r < 2 ^ e \<longleftrightarrow> 2 * r < 2 ^ e" "2 ^ e < 2 * int r \<longleftrightarrow> 2 ^ e < 2 * r" for r
  proof -
    have "2 * int r = int (2 * r)" "(2::int) ^ e = int (2 ^ e)" by simp_all
    then show "2 * int r < 2 ^ e \<longleftrightarrow> 2 * r < 2 ^ e" "2 ^ e < 2 * int r \<longleftrightarrow> 2 ^ e < 2 * r"
      by (simp_all only: of_nat_less_iff)
  qed
  show ?thesis
    unfolding round_ratio_def round_even_def Let_def q r less by simp
qed

lemma representable_round:
  assumes "representable (Fin k)" and "k \<noteq> 0"
  shows "round_even \<bar>k\<bar> (excess_bits k 0) * 2 ^ excess_bits k 0 = \<bar>k\<bar>" "\<bar>k\<bar> < overflow_units"
proof -
  have "round_even k (excess_bits k 0) * 2 ^ excess_bits k 0 = k \<and> k < overflow_units \<and> - overflow_units < k"
    using assms by (auto simp: representable_def round_scaled_def Let_def split: if_splits)
  then show "round_even \<bar>k\<bar> (excess_bits k 0) * 2 ^ excess_bits k 0 = \<bar>k\<bar>" "\<bar>k\<bar> < overflow_units"
    by (auto simp: abs_if round_even_minus)
qed

lemma ratio_number_exact:
  assumes "representable (Fin k)" and "k \<noteq> 0"
  shows "ratio_number (k < 0) (nat \<bar>k\<bar>) grid = Fin k"
proof -
  let ?j = "nat \<bar>k\<bar>" and ?e = "excess_bits k 0"
  have div: "?j * grid div grid = ?j" by simp
  have e: "bit_length ?j - 53 = ?e" by (simp add: excess_bits_def)
  have "round_ratio (?j * grid) (grid * 2 ^ ?e) = round_ratio ?j (2 ^ ?e)"
    using round_ratio_scale [of grid ?j "2 ^ ?e"] by (simp add: mult.commute)
  then have "int (round_ratio (?j * grid) (grid * 2 ^ ?e) * 2 ^ ?e) = \<bar>k\<bar>"
    using representable_round(1) [OF assms] by (simp add: round_ratio_power)
  then have m: "int (round_ratio (?j * grid) (grid * 2 ^ ?e) * 2 ^ ?e) = \<bar>k\<bar>" .
  show ?thesis
    using representable_round(2) [OF assms] assms(2)
    unfolding ratio_number_def Let_def div e m by auto
qed


section \<open>The shortest decimal\<close>

text \<open>
  A positive number of \<open>k\<close> units is \<open>decimal_units k / 10 ^ 1074\<close>, exactly. Of its decimals
  with a given count of digits only the two neighbours can round to it, one below, one above.
\<close>

definition decimal_units :: "nat \<Rightarrow> nat" where
  "decimal_units k = k * 5 ^ grid_bits"

definition decimal_point :: "nat \<Rightarrow> int" where
  "decimal_point k = int (length (nat_text (decimal_units k))) - int grid_bits"

definition decimal_fits :: "nat \<Rightarrow> nat \<Rightarrow> nat \<Rightarrow> bool" where
  "decimal_fits k count s \<longleftrightarrow> decimal_number False s (decimal_point k - int count) = Fin (int k)"

definition decimal_choice :: "nat \<Rightarrow> nat \<Rightarrow> nat option" where
  "decimal_choice k count =
     (let scale = 10 ^ (length (nat_text (decimal_units k)) - count);
          q = decimal_units k div scale; r = decimal_units k mod scale
      in if decimal_fits k count q \<and> decimal_fits k count (q + 1)
         then Some (if 2 * r < scale then q else if 2 * r > scale then q + 1
                    else if even q then q else q + 1)
         else if decimal_fits k count q then Some q
         else if decimal_fits k count (q + 1) then Some (q + 1)
         else None)"

text \<open>
  The digits and the position of the decimal point, for the least count of digits that has a
  choice. All digits of the exact decimal always do.
\<close>

definition shortest_decimal :: "nat \<Rightarrow> jstring \<times> int" where
  "shortest_decimal k =
     (case List.find (\<lambda>count. decimal_choice k count \<noteq> None)
         [1..<Suc (length (nat_text (decimal_units k)))] of
        None \<Rightarrow> (nat_text (decimal_units k), decimal_point k)
      | Some count \<Rightarrow>
          let s = the (decimal_choice k count)
          in if s = 10 ^ count then (nat_text (10 ^ (count - 1)), decimal_point k + 1)
             else (nat_text s, decimal_point k))"

definition decimal_text :: "jstring \<Rightarrow> int \<Rightarrow> jstring" where
  "decimal_text ds n =
     (let k = int (length ds)
      in if k \<le> n \<and> n \<le> 21 then ds @ replicate (nat (n - k)) 48
         else if 0 < n \<and> n \<le> 21 then take (nat n) ds @ [46] @ drop (nat n) ds
         else if - 6 < n \<and> n \<le> 0 then [48, 46] @ replicate (nat (- n)) 48 @ ds
         else take 1 ds @ (if k = 1 then [] else 46 # drop 1 ds) @ [101] @
           (if n - 1 < 0 then [45] else [43]) @ nat_text (nat \<bar>n - 1\<bar>))"

text \<open>\<open>String(x)\<close>\<close>

fun number_text :: "js_number \<Rightarrow> jstring" where
  "number_text NaN = lit ''NaN''"
| "number_text PosInf = lit ''Infinity''"
| "number_text NegInf = lit ''-Infinity''"
| "number_text NegZero = [48]"
| "number_text (Fin k) =
     (if k = 0 then [48]
      else (if k < 0 then [45] else []) @
        (case shortest_decimal (nat \<bar>k\<bar>) of (ds, n) \<Rightarrow> decimal_text ds n))"


section \<open>Reading a number\<close>

text \<open>
  The syntax \<open>/^-?(?:0|[1-9]\d*)(?:\.\d+)?(?:[eE][+-]?\d+)?$/u\<close>, with the sign, the digits
  before and after the point and the exponent of a text that has it.
\<close>

definition read_exponent :: "jstring \<Rightarrow> int option" where
  "read_exponent t =
     (case t of
        [] \<Rightarrow> Some 0
      | e # t' \<Rightarrow>
          if e \<noteq> 101 \<and> e \<noteq> 69 then None
          else
            let signed = (t' \<noteq> [] \<and> (hd t' = 43 \<or> hd t' = 45));
                negative = (signed \<and> hd t' = 45);
                ds = (if signed then tl t' else t')
            in if ds = [] \<or> \<not> list_all decimal_digit ds then None
               else Some (if negative then - int (digits_value ds) else int (digits_value ds)))"

definition read_fraction :: "jstring \<Rightarrow> (jstring \<times> jstring) option" where
  "read_fraction t =
     (if t = [] \<or> hd t \<noteq> 46 then Some ([], t)
      else
        let fraction = takeWhile decimal_digit (tl t)
        in if fraction = [] then None else Some (fraction, dropWhile decimal_digit (tl t)))"

definition read_unsigned :: "jstring \<Rightarrow> (jstring \<times> jstring \<times> int) option" where
  "read_unsigned t =
     (let whole = takeWhile decimal_digit t
      in if whole = [] \<or> hd whole = 48 \<and> whole \<noteq> [48] then None
         else case read_fraction (dropWhile decimal_digit t) of
             None \<Rightarrow> None
           | Some (fraction, rest) \<Rightarrow>
               map_option (\<lambda>x. (whole, fraction, x)) (read_exponent rest))"

text \<open>\<open>Number(text)\<close> on a text with the syntax; \<open>None\<close> on any other.\<close>

definition text_number :: "jstring \<Rightarrow> js_number option" where
  "text_number t =
     (let neg = (t \<noteq> [] \<and> hd t = 45)
      in map_option (\<lambda>(whole, fraction, x).
             decimal_number neg (digits_value (whole @ fraction)) (x - int (length fraction)))
           (read_unsigned (if neg then tl t else t)))"


section \<open>Reading what was written\<close>

lemma nat_text_length_bounds:
  "n < 10 ^ length (nat_text n)" "n \<noteq> 0 \<Longrightarrow> 10 ^ (length (nat_text n) - 1) \<le> n"
proof (induction n rule: nat_text.induct)
  case (1 n)
  {
    case 1
    show ?case
    proof (cases "n < 10")
      case True
      then show ?thesis by (subst nat_text.simps) simp
    next
      case False
      with "1.IH"(1) have "n div 10 < 10 ^ length (nat_text (n div 10))" by simp
      then have "n < 10 * 10 ^ length (nat_text (n div 10))" by linarith
      with False show ?thesis by (subst nat_text.simps) simp
    qed
  next
    case 2
    show ?case
    proof (cases "n < 10")
      case True
      with 2 show ?thesis by (subst nat_text.simps) simp
    next
      case False
      with "1.IH"(2) have "10 ^ (length (nat_text (n div 10)) - 1) \<le> n div 10" by simp
      then have "10 * 10 ^ (length (nat_text (n div 10)) - 1) \<le> n" by linarith
      moreover have "nat_text (n div 10) \<noteq> []" by simp
      ultimately have "10 ^ length (nat_text (n div 10)) \<le> n"
        by (cases "nat_text (n div 10)") simp_all
      with False show ?thesis by (subst nat_text.simps) simp
    qed
  }
qed

lemma length_nat_text:
  assumes "10 ^ (c - 1) \<le> n" "n < 10 ^ c" "0 < c"
  shows "length (nat_text n) = c"
proof -
  have n: "n \<noteq> 0" using assms(1) by (metis le_zero_eq power_not_zero zero_neq_numeral)
  have "10 ^ (c - 1) < (10::nat) ^ length (nat_text n)"
    using assms(1) nat_text_length_bounds(1) [of n] by (rule le_less_trans)
  then have "c - 1 < length (nat_text n)" by simp
  moreover have "(10::nat) ^ (length (nat_text n) - 1) < 10 ^ c"
    using nat_text_length_bounds(2) [OF n] assms(2) by (rule le_less_trans)
  then have "length (nat_text n) - 1 < c" by simp
  ultimately show ?thesis using assms(3) by linarith
qed

lemma nat_text_hd_zero: "0 < n \<Longrightarrow> hd (nat_text n) \<noteq> 48"
proof (induction n rule: nat_text.induct)
  case (1 n)
  show ?case
  proof (cases "n < 10")
    case True
    have "digit_text n \<noteq> 48"
      using unat_digit_text [OF True] 1(2) by (auto simp: word_unat_eq_iff)
    with True show ?thesis by (subst nat_text.simps) simp
  next
    case False
    with 1 show ?thesis by (subst nat_text.simps) simp
  qed
qed

lemma decimal_units_pos [simp]: "0 < k \<Longrightarrow> 0 < decimal_units k"
  by (simp add: decimal_units_def)

lemma exact_decimal_fits:
  assumes "representable (Fin (int k))" and "0 < k"
  shows "decimal_number False (decimal_units k) (- int grid_bits) = Fin (int k)"
proof -
  have ten: "(10::nat) ^ n = 2 ^ n * 5 ^ n" for n by (simp flip: power_mult_distrib)
  have "0 < grid_bits" by (simp add: grid_bits_def)
  then have "decimal_number False (decimal_units k) (- int grid_bits) =
      ratio_number False (decimal_units k) (10 ^ grid_bits)"
    by (simp add: decimal_number_def)
  also have "\<dots> = ratio_number False (5 ^ grid_bits * k) (5 ^ grid_bits * grid)"
    unfolding ten decimal_units_def grid_def by (simp only: mult.commute)
  also have "\<dots> = ratio_number False k grid"
    by (rule ratio_number_scale) simp
  also have "\<dots> = Fin (int k)" using ratio_number_exact [OF assms(1)] assms(2) by simp
  finally show ?thesis .
qed

text \<open>The shortest decimal rounds to the number; its digits are those of a positive number.\<close>

lemma decimal_choice_fits:
  "decimal_choice k count = Some s \<Longrightarrow> decimal_fits k count s"
  "decimal_choice k count = Some s \<Longrightarrow>
   s = decimal_units k div 10 ^ (length (nat_text (decimal_units k)) - count) \<or>
   s = decimal_units k div 10 ^ (length (nat_text (decimal_units k)) - count) + 1"
  by (auto simp: decimal_choice_def Let_def split: if_splits)

lemma leading_digits_bounds:
  assumes "0 < n" and "1 \<le> count" and "count \<le> length (nat_text n)"
  shows "10 ^ (count - 1) \<le> n div 10 ^ (length (nat_text n) - count)"
    "n div 10 ^ (length (nat_text n) - count) < 10 ^ count"
proof -
  let ?l = "length (nat_text n)"
  have "10 ^ (count - 1) * 10 ^ (?l - count) = (10::nat) ^ (?l - 1)"
    using assms(2,3) by (simp flip: power_add)
  then have "10 ^ (count - 1) * 10 ^ (?l - count) \<le> n"
    using nat_text_length_bounds(2) [of n] assms(1) by simp
  then show "10 ^ (count - 1) \<le> n div 10 ^ (?l - count)"
    by (simp add: less_eq_div_iff_mult_less_eq)
  have "10 ^ count * 10 ^ (?l - count) = (10::nat) ^ ?l"
    using assms(3) by (simp flip: power_add)
  then show "n div 10 ^ (?l - count) < 10 ^ count"
    using nat_text_length_bounds(1) [of n] by (simp add: less_mult_imp_div_less)
qed

lemma shortest_decimal_rounds:
  assumes "representable (Fin (int k))" and "0 < k" and "shortest_decimal k = (ds, n)"
  shows "\<exists>s>0. ds = nat_text s \<and> decimal_number False s (n - int (length ds)) = Fin (int k)"
proof -
  let ?u = "decimal_units k"
  let ?l = "length (nat_text ?u)"
  show ?thesis
  proof (cases "List.find (\<lambda>count. decimal_choice k count \<noteq> None) [1..<Suc ?l]")
    case None
    then have "ds = nat_text ?u" "n - int (length ds) = - int grid_bits"
      using assms(3) by (auto simp: shortest_decimal_def decimal_point_def)
    with exact_decimal_fits [OF assms(1,2)] assms(2) show ?thesis by auto
  next
    case (Some count)
    then have count: "1 \<le> count" "count \<le> ?l" and "decimal_choice k count \<noteq> None"
      using find_Some_mem [OF Some] by auto
    then obtain s where s: "decimal_choice k count = Some s" by blast
    have bounds: "10 ^ (count - 1) \<le> s" "s \<le> 10 ^ count"
      using decimal_choice_fits(2) [OF s] leading_digits_bounds [OF decimal_units_pos [OF assms(2)] count]
      by auto
    note fits = decimal_choice_fits(1) [OF s, unfolded decimal_fits_def]
    show ?thesis
    proof (cases "s = 10 ^ count")
      case True
      let ?s = "10 ^ (count - 1) :: nat"
      have ds: "ds = nat_text ?s" "n = decimal_point k + 1"
        using assms(3) Some s True by (simp_all add: shortest_decimal_def)
      have len: "length ds = count" unfolding ds(1)
        using count(1) by (intro length_nat_text) simp_all
      have "s = ?s * 10 ^ 1" using count(1) True by (cases count) simp_all
      then have "decimal_number False ?s (n - int count) = Fin (int k)"
        using fits decimal_number_shift [of False ?s 1 "n - int count"] by (simp add: ds(2))
      with ds(1) len show ?thesis by (intro exI [of _ ?s]) simp
    next
      case False
      have ds: "ds = nat_text s" "n = decimal_point k"
        using assms(3) Some s False by (simp_all add: shortest_decimal_def)
      have "length ds = count" unfolding ds(1)
        using bounds False count(1) by (intro length_nat_text) simp_all
      moreover have "0 < s" using bounds(1) by (metis gr0I le_zero_eq power_not_zero zero_neq_numeral)
      ultimately show ?thesis using fits ds by auto
    qed
  qed
qed


lemma takeWhile_digits:
  "list_all decimal_digit ds \<Longrightarrow> ends_number t \<Longrightarrow> takeWhile decimal_digit (ds @ t) = ds"
  "list_all decimal_digit ds \<Longrightarrow> ends_number t \<Longrightarrow> dropWhile decimal_digit (ds @ t) = t"
  by (induction ds) (cases t; simp add: ends_number_def)+

lemma ends_number_simps [simp]:
  "ends_number []" "ends_number (46 # t)" "ends_number (101 # t)" "ends_number (44 # t)"
  by (simp_all add: ends_number_def decimal_digit_def)

lemma digits_nat_text [simp]: "list_all decimal_digit (nat_text n)"
  using nat_text_digits by (simp add: list_all_iff)

lemma digit_zero [simp]: "decimal_digit 48" "digit_value 48 = 0"
  by (simp_all add: decimal_digit_def digit_value_def)

lemma digits_value_replicate [simp]: "digits_value (replicate z 48) = 0"
proof (induction z)
  case (Suc z)
  have "replicate (Suc z) 48 = replicate z (48 :: code_unit) @ [48]"
    by (simp add: replicate_append_same)
  with Suc show ?case by (simp only: digits_value_snoc digit_zero)
qed simp

lemma digits_value_zeros [simp]:
  "digits_value (ds @ replicate z 48) = digits_value ds * 10 ^ z"
  "digits_value (48 # ds) = digits_value ds"
  using digits_value_append [of "[48]" ds] by (simp_all add: digits_value_append)

lemma read_exponent_text:
  "read_exponent (101 # (if x < 0 then [45] else [43]) @ nat_text (nat \<bar>x\<bar>)) = Some x"
  by (simp add: read_exponent_def Let_def)

lemma read_unsigned_text:
  assumes "list_all decimal_digit whole" "whole \<noteq> []" "hd whole \<noteq> 48 \<or> whole = [48]"
    and "list_all decimal_digit fraction" and "ends_number rest" "rest = [] \<or> hd rest \<noteq> 46"
    and "read_exponent rest = Some x"
  shows "read_unsigned (whole @ (if fraction = [] then [] else 46 # fraction) @ rest) =
    Some (whole, fraction, x)"
proof (cases "fraction = []")
  case True
  with assms show ?thesis
    by (auto simp: read_unsigned_def Let_def takeWhile_digits read_fraction_def)
next
  case False
  with assms show ?thesis
    by (auto simp: read_unsigned_def Let_def takeWhile_digits read_fraction_def)
qed

lemma read_decimal_text:
  assumes "0 < s" and "ds = nat_text s"
  obtains whole fraction x where "read_unsigned (decimal_text ds n) = Some (whole, fraction, x)"
    "decimal_number neg (digits_value (whole @ fraction)) (x - int (length fraction)) =
     decimal_number neg s (n - int (length ds))"
proof -
  let ?k = "int (length ds)"
  have ds: "list_all decimal_digit ds" "ds \<noteq> []" "hd ds \<noteq> 48" "digits_value ds = s"
    using assms nat_text_hd_zero by simp_all
  have part: "list_all decimal_digit (take m ds)" "list_all decimal_digit (drop m ds)" for m
    using ds(1) by (auto simp: list_all_iff dest: in_set_takeD in_set_dropD)
  have hd_take: "0 < m \<Longrightarrow> hd (take m ds) \<noteq> 48" "0 < m \<Longrightarrow> take m ds \<noteq> []" for m
    using ds(2,3) by (cases ds; cases m; simp)+
  consider (whole) "?k \<le> n \<and> n \<le> 21" | (point) "\<not> (?k \<le> n \<and> n \<le> 21)" "0 < n \<and> n \<le> 21"
    | (zeros) "\<not> (?k \<le> n \<and> n \<le> 21)" "\<not> (0 < n \<and> n \<le> 21)" "- 6 < n \<and> n \<le> 0"
    | (exponent) "\<not> (?k \<le> n \<and> n \<le> 21)" "\<not> (0 < n \<and> n \<le> 21)" "\<not> (- 6 < n \<and> n \<le> 0)"
    by blast
  then show thesis
  proof cases
    case whole
    let ?z = "nat (n - ?k)"
    have shape: "decimal_text ds n = (ds @ replicate ?z 48) @ (if ([] :: jstring) = [] then [] else 46 # []) @ []"
      using whole by (simp add: decimal_text_def Let_def)
    have read: "read_unsigned (decimal_text ds n) = Some (ds @ replicate ?z 48, [], 0)"
      unfolding shape using ds
      by (intro read_unsigned_text) (auto simp: list_all_iff read_exponent_def)
    have digits: "digits_value ((ds @ replicate ?z 48) @ []) = s * 10 ^ ?z" using ds(4) by simp
    have shift: "0 - int (length ([] :: jstring)) = n - ?k - int ?z" using whole by simp
    show thesis
      by (rule that [OF read]) (unfold digits shift, rule decimal_number_shift)
  next
    case point
    let ?w = "take (nat n) ds" and ?f = "drop (nat n) ds"
    have "?f \<noteq> []" using point by auto
    then have shape: "decimal_text ds n = ?w @ (if ?f = [] then [] else 46 # ?f) @ []"
      using point by (simp add: decimal_text_def Let_def)
    have read: "read_unsigned (decimal_text ds n) = Some (?w, ?f, 0)"
      unfolding shape using point part hd_take [of "nat n"]
      by (intro read_unsigned_text) (auto simp: read_exponent_def)
    have digits: "digits_value (?w @ ?f) = s" using ds(4) by simp
    have shift: "0 - int (length ?f) = n - ?k" using point by auto
    show thesis by (rule that [OF read]) (simp only: digits shift)
  next
    case zeros
    let ?f = "replicate (nat (- n)) 48 @ ds"
    have shape: "decimal_text ds n = [48] @ (if ?f = [] then [] else 46 # ?f) @ []"
      using zeros ds(2) by (auto simp: decimal_text_def Let_def)
    have read: "read_unsigned (decimal_text ds n) = Some ([48], ?f, 0)"
      unfolding shape using ds(1)
      by (intro read_unsigned_text) (auto simp: read_exponent_def list_all_iff)
    have shift: "0 - int (length ?f) = n - ?k" using zeros by auto
    have digits: "digits_value ([48] @ ?f) = s" using ds(4) by (simp add: digits_value_append)
    show thesis by (rule that [OF read]) (simp only: digits shift)
  next
    case exponent
    let ?w = "take 1 ds" and ?f = "drop 1 ds"
    let ?rest = "101 # (if n - 1 < 0 then [45] else [43]) @ nat_text (nat \<bar>n - 1\<bar>)"
    have len: "?f = [] \<longleftrightarrow> ?k = 1" using ds(2) by (cases ds) auto
    have shape: "decimal_text ds n = ?w @ (if ?f = [] then [] else 46 # ?f) @ ?rest"
      using exponent len by (auto simp: decimal_text_def Let_def)
    have read: "read_unsigned (decimal_text ds n) = Some (?w, ?f, n - 1)"
      unfolding shape using part hd_take [of 1]
      by (intro read_unsigned_text read_exponent_text) auto
    have shift: "n - 1 - int (length ?f) = n - ?k" using ds(2) by (cases ds) auto
    have digits: "digits_value (?w @ ?f) = s" using ds(4) by simp
    show thesis by (rule that [OF read]) (simp only: digits shift)
  qed
qed

lemma representable_abs: "representable (Fin k) \<Longrightarrow> representable (Fin \<bar>k\<bar>)"
  by (cases "k < 0")
    (auto simp: representable_def round_scaled_def Let_def excess_bits_def round_even_minus
      split: if_splits)

lemma decimal_number_sign:
  "decimal_number False s x = Fin k \<Longrightarrow> k \<noteq> 0 \<Longrightarrow> decimal_number True s x = Fin (- k)"
  by (auto simp: decimal_number_def ratio_number_def Let_def split: if_splits)

lemma decimal_text_hd:
  assumes "0 < s" and "ds = nat_text s"
  shows "decimal_text ds n \<noteq> []" "hd (decimal_text ds n) \<noteq> 45"
proof -
  obtain whole fraction x where "read_unsigned (decimal_text ds n) = Some (whole, fraction, x)"
    using read_decimal_text [OF assms] by metis
  then have "takeWhile decimal_digit (decimal_text ds n) \<noteq> []"
    by (auto simp: read_unsigned_def Let_def split: if_splits)
  then show "decimal_text ds n \<noteq> []" "hd (decimal_text ds n) \<noteq> 45"
    by (cases "decimal_text ds n"; auto simp: decimal_digit_def split: if_splits)+
qed

text \<open>\<open>Number(String(x))\<close> is \<open>x\<close> for every finite double but negative zero.\<close>

theorem text_number_text:
  assumes "representable x" and "is_finite x" and "x \<noteq> NegZero"
  shows "text_number (number_text x) = Some x"
proof -
  obtain k where x: "x = Fin k" using assms(2,3) by (cases x) simp_all
  show ?thesis
  proof (cases "k = 0")
    case True
    have "text_number [48] = Some (decimal_number False 0 0)"
      by (simp add: text_number_def read_unsigned_def read_fraction_def read_exponent_def Let_def)
    moreover have "decimal_number False 0 0 = Fin 0"
      by (simp add: decimal_number_def ratio_number_def round_ratio_def Let_def)
    ultimately show ?thesis by (simp add: x True)
  next
    case False
    let ?j = "nat \<bar>k\<bar>"
    have "representable (Fin (int ?j))"
      using assms(1) representable_abs by (simp add: x)
    moreover have "0 < ?j" using False by simp
    moreover obtain ds n where sd: "shortest_decimal ?j = (ds, n)" by fastforce
    ultimately obtain s where s: "0 < s" "ds = nat_text s"
      "decimal_number False s (n - int (length ds)) = Fin (int ?j)"
      using shortest_decimal_rounds by blast
    obtain whole fraction e where u: "read_unsigned (decimal_text ds n) = Some (whole, fraction, e)"
      "decimal_number (k < 0) (digits_value (whole @ fraction)) (e - int (length fraction)) =
       decimal_number (k < 0) s (n - int (length ds))"
      using read_decimal_text [OF s(1,2)] by blast
    have "text_number (number_text x) = Some (decimal_number (k < 0) s (n - int (length ds)))"
      using u decimal_text_hd [OF s(1,2), of n] False
      by (auto simp: text_number_def x sd Let_def)
    also have "decimal_number (k < 0) s (n - int (length ds)) = Fin k"
      using s(3) decimal_number_sign [of s "n - int (length ds)" "int ?j"] False by (simp add: abs_if split: if_splits)
    finally show ?thesis by (simp add: x)
  qed
qed

text \<open>The characters of the text of a finite number.\<close>

definition number_unit :: "code_unit \<Rightarrow> bool" where
  "number_unit u \<longleftrightarrow> decimal_digit u \<or> u \<in> {43, 45, 46, 101}"

lemma decimal_text_units:
  "list_all decimal_digit ds \<Longrightarrow> list_all number_unit (decimal_text ds n)"
  using nat_text_digits
  by (auto simp: decimal_text_def Let_def list_all_iff number_unit_def
      dest: in_set_takeD in_set_dropD)

lemma shortest_decimal_digits: "shortest_decimal k = (ds, n) \<Longrightarrow> list_all decimal_digit ds"
  by (auto simp: shortest_decimal_def Let_def split: option.splits if_splits)

lemma number_text_units: "is_finite x \<Longrightarrow> list_all number_unit (number_text x)"
  using shortest_decimal_digits decimal_text_units
  by (cases x) (auto simp: number_unit_def split: prod.split)

end
