(* ===== verification/Generation_Query.thy ===== *)
theory Generation_Query
  imports Json Utf8 Number_Text
begin

text \<open>
  The query snapshot of \<open>kernel/src/dataset-generation.ts\<close>: a bounded copy of a value of unknown
  type, refused unless it is inert JSON. An object of the heap is its identity, what the code
  inspects of it and its properties, so that an object inside itself is a tree in which an
  identity occurs again below itself. Reading a property is reading its descriptor; accessors
  are refused and never called. Any read of a throwing value (a proxy) ends the snapshot.
\<close>

section \<open>Values\<close>

datatype query_input =
    QI_null
  | QI_boolean bool
  | QI_number js_number
  | QI_string jstring
  | QI_array nat bool nat nat "query_property list"
  | QI_object nat bool nat "(jstring \<times> query_property) list"
  | QI_throwing
  | QI_other
and query_property =
    QP_missing
  | QP_accessor
  | QP_data bool query_input

text \<open>
  An array has an identity, whether its prototype is \<open>Array.prototype\<close>, the number of its symbol
  keys, the number of its own property names, and the property at each index below its length.
  An object has an identity, whether its prototype is \<open>Object.prototype\<close> or null, the number of
  its symbol keys, and its properties by name in their order. Data carries whether it is
  enumerable.
\<close>

datatype query_value =
    Q_null
  | Q_boolean bool
  | Q_number js_number
  | Q_string jstring
  | Q_array "query_value list"
  | Q_object "(jstring \<times> query_value) list"

definition DATASET_GENERATION_QUERY_MAX_BYTES :: nat where
  "DATASET_GENERATION_QUERY_MAX_BYTES = 1048576"
definition DATASET_GENERATION_QUERY_MAX_DEPTH :: nat where
  "DATASET_GENERATION_QUERY_MAX_DEPTH = 32"
definition DATASET_GENERATION_QUERY_MAX_NODES :: nat where
  "DATASET_GENERATION_QUERY_MAX_NODES = 10000"
definition DATASET_GENERATION_QUERY_MAX_ENTRIES :: nat where
  "DATASET_GENERATION_QUERY_MAX_ENTRIES = 1024"
definition DATASET_GENERATION_QUERY_MAX_KEY_CODE_POINTS :: nat where
  "DATASET_GENERATION_QUERY_MAX_KEY_CODE_POINTS = 255"
definition DATASET_GENERATION_QUERY_MAX_STRING_CODE_POINTS :: nat where
  "DATASET_GENERATION_QUERY_MAX_STRING_CODE_POINTS = 16384"

definition UNSAFE_DATASET_GENERATION_QUERY_KEYS :: "jstring list" where
  "UNSAFE_DATASET_GENERATION_QUERY_KEYS =
     [lit ''__proto__'', lit ''constructor'', lit ''prototype'']"

text \<open>The counters of a snapshot; the identities of the objects around it are an argument.\<close>

record query_state =
  qs_bytes :: nat
  qs_nodes :: nat


section \<open>The snapshot\<close>

definition reserveQueryBytes :: "query_state \<Rightarrow> nat \<Rightarrow> query_state option" where
  "reserveQueryBytes state bytes =
     (if bytes > DATASET_GENERATION_QUERY_MAX_BYTES - qs_bytes state then None
      else Some (state\<lparr>qs_bytes := qs_bytes state + bytes\<rparr>))"

definition reserveSerializedQueryText :: "query_state \<Rightarrow> jstring \<Rightarrow> query_state option" where
  "reserveSerializedQueryText state value = reserveQueryBytes state (length (encodeUtf8 value))"

definition queryNodeIsAvailable :: "nat \<Rightarrow> query_state \<Rightarrow> query_state option" where
  "queryNodeIsAvailable depth state =
     (let state = state\<lparr>qs_nodes := qs_nodes state + 1\<rparr>
      in if depth \<le> DATASET_GENERATION_QUERY_MAX_DEPTH \<and>
            qs_nodes state \<le> DATASET_GENERATION_QUERY_MAX_NODES
         then Some state else None)"

definition query_key_allowed :: "jstring \<Rightarrow> bool" where
  "query_key_allowed key \<longleftrightarrow>
     length key \<noteq> 0 \<and> key \<notin> set UNSAFE_DATASET_GENERATION_QUERY_KEYS \<and>
     code_points key \<le> DATASET_GENERATION_QUERY_MAX_KEY_CODE_POINTS"

text \<open>\<open>None\<close> stands for \<open>undefined\<close> and for a throw, which the caller treats alike.\<close>

function (sequential) snapshotQueryValue ::
    "query_input \<Rightarrow> nat \<Rightarrow> nat list \<Rightarrow> query_state \<Rightarrow> (query_value \<times> query_state) option"
  and snapshot_entries ::
    "query_property list \<Rightarrow> nat \<Rightarrow> nat list \<Rightarrow> query_state \<Rightarrow>
     (query_value list \<times> query_state) option"
  and snapshot_properties ::
    "(jstring \<times> query_property) list \<Rightarrow> nat \<Rightarrow> nat list \<Rightarrow> query_state \<Rightarrow>
     ((jstring \<times> query_value) list \<times> query_state) option"
where
  "snapshotQueryValue v depth parents state =
     Option.bind (queryNodeIsAvailable depth state) (\<lambda>state.
       case v of
         QI_null \<Rightarrow> map_option (Pair Q_null) (reserveQueryBytes state 4)
       | QI_boolean b \<Rightarrow>
           map_option (Pair (Q_boolean b)) (reserveQueryBytes state (if b then 4 else 5))
       | QI_number x \<Rightarrow>
           if is_finite x
           then map_option (Pair (Q_number x)) (reserveSerializedQueryText state (number_text x))
           else None
       | QI_string s \<Rightarrow>
           if code_points s \<le> DATASET_GENERATION_QUERY_MAX_STRING_CODE_POINTS
           then map_option (Pair (Q_string s)) (reserveSerializedQueryText state (json_string s))
           else None
       | QI_array i plain symbols names entries \<Rightarrow>
           if \<not> plain \<or> symbols > 0 \<or> length entries > DATASET_GENERATION_QUERY_MAX_ENTRIES \<or>
              names \<noteq> length entries + 1
           then None
           else Option.bind (reserveQueryBytes state (2 + (length entries - 1))) (\<lambda>state.
             if i \<in> set parents then None
             else map_option (\<lambda>(qs, state). (Q_array qs, state))
               (snapshot_entries entries depth (i # parents) state))
       | QI_object i plain symbols properties \<Rightarrow>
           if \<not> (plain \<and> symbols = 0 \<and> i \<notin> set parents) \<or>
              length properties > DATASET_GENERATION_QUERY_MAX_ENTRIES
           then None
           else Option.bind (reserveQueryBytes state (2 + (length properties - 1))) (\<lambda>state.
             map_option (\<lambda>(kvs, state). (Q_object kvs, state))
               (snapshot_properties properties depth (i # parents) state))
       | QI_throwing \<Rightarrow> None
       | QI_other \<Rightarrow> None)"
| "snapshot_entries [] depth parents state = Some ([], state)"
| "snapshot_entries (p # ps) depth parents state =
     (case p of
        QP_data True v \<Rightarrow>
          Option.bind (snapshotQueryValue v (depth + 1) parents state) (\<lambda>(q, state).
            map_option (\<lambda>(qs, state). (q # qs, state)) (snapshot_entries ps depth parents state))
      | _ \<Rightarrow> None)"
| "snapshot_properties [] depth parents state = Some ([], state)"
| "snapshot_properties ((key, p) # ps) depth parents state =
     (case p of
        QP_data True v \<Rightarrow>
          if \<not> query_key_allowed key then None
          else Option.bind (reserveSerializedQueryText state (json_string key)) (\<lambda>state.
            Option.bind (reserveQueryBytes state 1) (\<lambda>state.
            Option.bind (snapshotQueryValue v (depth + 1) parents state) (\<lambda>(q, state).
              map_option (\<lambda>(kvs, state). ((key, q) # kvs, state))
                (snapshot_properties ps depth parents state))))
      | _ \<Rightarrow> None)"
  by pat_completeness auto

termination
proof (relation "measure (case_sum (\<lambda>(v, _). 2 * size v)
    (case_sum (\<lambda>(ps, _). 1 + 2 * size_list size ps) (\<lambda>(ps, _). 1 + 2 * size_list (size_prod (\<lambda>_. 0) size) ps)))")
qed (simp_all)


datatype query_failure = Query_invalid

definition snapshotDatasetGenerationQuery ::
  "query_input \<Rightarrow> (query_value, query_failure) domain_result" where
  "snapshotDatasetGenerationQuery v =
     (case snapshotQueryValue v 0 [] \<lparr>qs_bytes = 0, qs_nodes = 0\<rparr> of
        None \<Rightarrow> fail Query_invalid
      | Some (snapshot, _) \<Rightarrow> succeed snapshot)"

definition queryIsBounded :: "query_input \<Rightarrow> bool" where
  "queryIsBounded v \<longleftrightarrow> ok (snapshotDatasetGenerationQuery v)"

declare snapshotQueryValue.simps [simp del]

lemmas snapshot_induct =
  snapshotQueryValue_snapshot_entries_snapshot_properties.induct


section \<open>What a snapshot measures\<close>

text \<open>\<open>JSON.stringify\<close> of a snapshot, its nesting and the number of its nodes.\<close>

fun query_text :: "query_value \<Rightarrow> jstring" where
  "query_text Q_null = lit ''null''"
| "query_text (Q_boolean b) = (if b then lit ''true'' else lit ''false'')"
| "query_text (Q_number x) = number_text x"
| "query_text (Q_string s) = json_string s"
| "query_text (Q_array qs) = [91] @ join [44] (map query_text qs) @ [93]"
| "query_text (Q_object kvs) =
     [123] @ join [44] (map (\<lambda>(k, q). json_string k @ [58] @ query_text q) kvs) @ [125]"

fun query_depth :: "query_value \<Rightarrow> nat" where
  "query_depth (Q_array qs) = foldr max (map (\<lambda>q. Suc (query_depth q)) qs) 0"
| "query_depth (Q_object kvs) = foldr max (map (\<lambda>(k, q). Suc (query_depth q)) kvs) 0"
| "query_depth _ = 0"

fun query_nodes :: "query_value \<Rightarrow> nat" where
  "query_nodes (Q_array qs) = Suc (sum_list (map query_nodes qs))"
| "query_nodes (Q_object kvs) = Suc (sum_list (map (\<lambda>(k, q). query_nodes q) kvs))"
| "query_nodes _ = 1"

text \<open>The length of a text in UTF-8 bytes; it adds up where the next part starts with ASCII.\<close>

definition utf8_length :: "jstring \<Rightarrow> nat" where
  "utf8_length s = length (encodeUtf8 s)"

definition ascii_start :: "jstring \<Rightarrow> bool" where
  "ascii_start s \<longleftrightarrow> (case s of [] \<Rightarrow> True | u # _ \<Rightarrow> ascii u)"

lemma ascii_start_simps [simp]:
  "ascii_start []" "ascii_start (u # t) \<longleftrightarrow> ascii u"
  "s \<noteq> [] \<Longrightarrow> ascii_start (s @ t) \<longleftrightarrow> ascii_start s"
  by (cases s; simp add: ascii_start_def)+

lemma utf8_length_Nil [simp]: "utf8_length [] = 0"
  by (simp add: utf8_length_def)

lemma utf8_length_append: "ascii_start t \<Longrightarrow> utf8_length (s @ t) = utf8_length s + utf8_length t"
  by (cases t) (simp_all add: utf8_length_def encode_append_ascii)

lemma ascii_json_units [simp]: "ascii 58" "ascii 91" "ascii 93" "ascii 123" "ascii 125"
  by (simp_all add: ascii_def)

lemma utf8_length_Cons [simp]: "ascii u \<Longrightarrow> utf8_length (u # t) = Suc (utf8_length t)"
  by (simp add: utf8_length_def encode_ascii_Cons)

lemma ascii_json_string [simp]: "ascii_start (json_string s)" "json_string s \<noteq> []"
  by (simp_all add: json_string_def)

lemma shortest_decimal_nonempty: "shortest_decimal k = (ds, n) \<Longrightarrow> ds \<noteq> []"
  by (auto simp: shortest_decimal_def Let_def split: option.splits if_splits)

lemma decimal_text_nonempty: "ds \<noteq> [] \<Longrightarrow> decimal_text ds n \<noteq> []"
  by (simp add: decimal_text_def Let_def)

lemma ascii_number_text:
  assumes "is_finite x" shows "number_text x \<noteq> []" "ascii_start (number_text x)"
proof -
  show ne: "number_text x \<noteq> []"
    using assms shortest_decimal_nonempty decimal_text_nonempty
    by (cases x) (auto split: prod.split)
  have "ascii u" if "number_unit u" for u
    using that by (auto simp: number_unit_def ascii_def decimal_digit_def word_le_nat_alt)
  then show "ascii_start (number_text x)"
    using number_text_units [OF assms] ne by (cases "number_text x") simp_all
qed

fun finite_query :: "query_value \<Rightarrow> bool" where
  "finite_query (Q_number x) = is_finite x"
| "finite_query (Q_array qs) = list_all finite_query qs"
| "finite_query (Q_object kvs) = list_all (\<lambda>(k, q). finite_query q) kvs"
| "finite_query _ = True"

lemma ascii_query_text:
  "finite_query q \<Longrightarrow> ascii_start (query_text q)" "finite_query q \<Longrightarrow> query_text q \<noteq> []"
  using ascii_number_text by (cases q; auto simp: lit_def ascii_def; fail)+

lemma utf8_length_join:
  assumes "list_all (\<lambda>t. ascii_start t \<and> t \<noteq> []) ts"
  shows "utf8_length (join [44] ts) = sum_list (map utf8_length ts) + (length ts - 1)"
    "ascii_start (join [44] ts)"
  using assms
proof (induction "[44] :: jstring" ts rule: join.induct)
  case (3 x y xs)
  {
    case 1
    then show ?case using 3 by (simp add: utf8_length_append)
  next
    case 2
    then show ?case by simp
  }
qed simp_all

text \<open>The bytes of a composite value.\<close>

lemma utf8_length_array:
  assumes "list_all finite_query qs"
  shows "utf8_length (query_text (Q_array qs)) =
    2 + (length qs - 1) + sum_list (map (\<lambda>q. utf8_length (query_text q)) qs)"
proof -
  have "list_all (\<lambda>t. ascii_start t \<and> t \<noteq> []) (map query_text qs)"
    using assms ascii_query_text by (auto simp: list_all_iff)
  note j = utf8_length_join [OF this]
  have "utf8_length (join [44] (map query_text qs) @ [93]) = utf8_length (join [44] (map query_text qs)) + 1"
    by (simp add: utf8_length_append)
  then show ?thesis using j by (simp add: comp_def)
qed

lemma utf8_length_object:
  assumes "list_all (\<lambda>(k, q). finite_query q) kvs"
  shows "utf8_length (query_text (Q_object kvs)) =
    2 + (length kvs - 1) +
    sum_list (map (\<lambda>(k, q). utf8_length (json_string k) + 1 + utf8_length (query_text q)) kvs)"
proof -
  let ?t = "\<lambda>(k, q). json_string k @ [58] @ query_text q"
  have "list_all (\<lambda>t. ascii_start t \<and> t \<noteq> []) (map ?t kvs)"
    by (auto simp: list_all_iff)
  note j = utf8_length_join [OF this]
  have parts: "map utf8_length (map ?t kvs) =
      map (\<lambda>(k, q). utf8_length (json_string k) + 1 + utf8_length (query_text q)) kvs"
    using assms by (auto simp: list_all_iff utf8_length_append)
  have "utf8_length (join [44] (map ?t kvs) @ [125]) = utf8_length (join [44] (map ?t kvs)) + 1"
    by (simp add: utf8_length_append)
  then show ?thesis unfolding j(1) parts by simp
qed


section \<open>The bounds of a snapshot\<close>

lemma reserve_bytes:
  "reserveQueryBytes state n = Some state' \<Longrightarrow>
   qs_bytes state' = qs_bytes state + n \<and> qs_nodes state' = qs_nodes state \<and>
   (qs_bytes state \<le> DATASET_GENERATION_QUERY_MAX_BYTES \<longrightarrow>
     qs_bytes state' \<le> DATASET_GENERATION_QUERY_MAX_BYTES)"
  by (auto simp: reserveQueryBytes_def split: if_splits)

lemma node_available:
  "queryNodeIsAvailable depth state = Some state' \<Longrightarrow>
   qs_bytes state' = qs_bytes state \<and> qs_nodes state' = qs_nodes state + 1 \<and>
   depth \<le> DATASET_GENERATION_QUERY_MAX_DEPTH \<and>
   qs_nodes state' \<le> DATASET_GENERATION_QUERY_MAX_NODES"
  by (auto simp: queryNodeIsAvailable_def Let_def split: if_splits)

lemma bind_Some_iff: "Option.bind x f = Some y \<longleftrightarrow> (\<exists>z. x = Some z \<and> f z = Some y)"
  by (cases x) simp_all

text \<open>The values of a composite, from the state before the first of them.\<close>

definition measured :: "query_value list \<Rightarrow> nat \<Rightarrow> nat \<Rightarrow> query_state \<Rightarrow> query_state \<Rightarrow> bool" where
  "measured qs keys depth state state' \<longleftrightarrow>
     list_all finite_query qs \<and>
     qs_bytes state' = qs_bytes state + keys + sum_list (map (\<lambda>q. utf8_length (query_text q)) qs) \<and>
     qs_nodes state' = qs_nodes state + sum_list (map query_nodes qs) \<and>
     list_all (\<lambda>q. depth + query_depth q \<le> DATASET_GENERATION_QUERY_MAX_DEPTH) qs \<and>
     (qs_bytes state \<le> DATASET_GENERATION_QUERY_MAX_BYTES \<longrightarrow>
       qs_bytes state' \<le> DATASET_GENERATION_QUERY_MAX_BYTES) \<and>
     (qs_nodes state \<le> DATASET_GENERATION_QUERY_MAX_NODES \<longrightarrow>
       qs_nodes state' \<le> DATASET_GENERATION_QUERY_MAX_NODES)"

definition key_bytes :: "(jstring \<times> query_value) list \<Rightarrow> nat" where
  "key_bytes kvs = sum_list (map (\<lambda>(k, q). utf8_length (json_string k) + 1) kvs)"

lemma measured_Nil [simp]: "measured [] 0 depth state state"
  by (simp add: measured_def)

lemma measured_Cons:
  "measured [q] k depth state state' \<Longrightarrow> measured qs ks depth state' state'' \<Longrightarrow>
   measured (q # qs) (k + ks) depth state state''"
  by (auto simp: measured_def)


lemma depth_below:
  "depth + foldr max (map (\<lambda>q. Suc (query_depth q)) qs) 0 \<le> n \<longleftrightarrow>
   depth \<le> n \<and> list_all (\<lambda>q. depth + 1 + query_depth q \<le> n) qs"
  by (induction qs) auto

lemma measured_array:
  assumes "queryNodeIsAvailable depth s0 = Some s1"
    and "reserveQueryBytes s1 (2 + (length qs - 1)) = Some s2"
    and "measured qs 0 (depth + 1) s2 s3"
  shows "measured [Q_array qs] 0 depth s0 s3"
  using node_available [OF assms(1)] reserve_bytes [OF assms(2)] assms(3)
    utf8_length_array [of qs] depth_below [of depth qs DATASET_GENERATION_QUERY_MAX_DEPTH]
  by (auto simp: measured_def simp del: query_text.simps)

lemma measured_object:
  assumes "queryNodeIsAvailable depth s0 = Some s1"
    and "reserveQueryBytes s1 (2 + (length kvs - 1)) = Some s2"
    and "measured (map snd kvs) (key_bytes kvs) (depth + 1) s2 s3"
  shows "measured [Q_object kvs] 0 depth s0 s3"
proof -
  have parts: "sum_list (map (\<lambda>(k, q). utf8_length (json_string k) + 1 + utf8_length (query_text q)) kvs) =
      key_bytes kvs + sum_list (map (\<lambda>q. utf8_length (query_text q)) (map snd kvs))"
    by (induction kvs) (auto simp: key_bytes_def)
  have depth: "map (\<lambda>(k, q). Suc (query_depth q)) kvs = map (\<lambda>q. Suc (query_depth q)) (map snd kvs)"
    "map (\<lambda>(k, q). query_nodes q) kvs = map query_nodes (map snd kvs)"
    "list_all (\<lambda>(k, q). finite_query q) kvs = list_all finite_query (map snd kvs)"
    by (auto simp: list_all_iff)
  show ?thesis
    using node_available [OF assms(1)] reserve_bytes [OF assms(2)] assms(3)
      utf8_length_object [of kvs]
      depth_below [of depth "map snd kvs" DATASET_GENERATION_QUERY_MAX_DEPTH]
    unfolding parts measured_def query_depth.simps query_nodes.simps depth
    by (auto simp: depth simp del: query_text.simps map_map)
qed

lemma measured_scalar:
  assumes "queryNodeIsAvailable depth s0 = Some s1" and "reserveQueryBytes s1 n = Some s2"
    and "finite_query q" "utf8_length (query_text q) = n" "query_depth q = 0" "query_nodes q = 1"
  shows "measured [q] 0 depth s0 s2"
  using node_available [OF assms(1)] reserve_bytes [OF assms(2)] assms(3-) by (auto simp: measured_def)

lemma snapshot_measured:
  "snapshotQueryValue v depth parents state = Some (q, state') \<Longrightarrow> measured [q] 0 depth state state'"
  "snapshot_entries es depth parents state = Some (qs, state') \<Longrightarrow>
   measured qs 0 (depth + 1) state state' \<and> length qs = length es"
  "snapshot_properties ps depth parents state = Some (kvs, state') \<Longrightarrow>
   measured (map snd kvs) (key_bytes kvs) (depth + 1) state state' \<and> length kvs = length ps"
proof (induction v depth parents state and es depth parents state and ps depth parents state
    arbitrary: q state' and qs state' and kvs state' rule: snapshot_induct)
  case (1 v depth parents state)
  from "1.prems" obtain s1 where s1: "queryNodeIsAvailable depth state = Some s1"
    by (auto simp: snapshotQueryValue.simps bind_Some_iff)
  note scalar = measured_scalar [OF s1]
  show ?case
  proof (cases v)
    case QI_null
    then show ?thesis using "1.prems" s1
      by (auto simp: snapshotQueryValue.simps lit_def ascii_def intro!: scalar)
  next
    case (QI_boolean b)
    then show ?thesis using "1.prems" s1
      by (auto simp: snapshotQueryValue.simps lit_def ascii_def split: if_splits intro!: scalar)
  next
    case (QI_number x)
    then show ?thesis using "1.prems" s1
      by (auto simp: snapshotQueryValue.simps reserveSerializedQueryText_def utf8_length_def
          split: if_splits intro!: scalar)
  next
    case (QI_string t)
    then show ?thesis using "1.prems" s1
      by (auto simp: snapshotQueryValue.simps reserveSerializedQueryText_def utf8_length_def
          split: if_splits intro!: scalar)
  next
    case (QI_array i plain symbols names entries)
    from "1.prems" s1 QI_array obtain s2 qs where s2:
      "reserveQueryBytes s1 (2 + (length entries - 1)) = Some s2" "i \<notin> set parents"
      "snapshot_entries entries depth (i # parents) s2 = Some (qs, state')" "q = Q_array qs"
      and guard: "\<not> (\<not> plain \<or> 0 < symbols \<or> DATASET_GENERATION_QUERY_MAX_ENTRIES < length entries \<or>
        names \<noteq> length entries + 1)"
      by (auto simp: snapshotQueryValue.simps bind_Some_iff split: if_splits)
    have "measured qs 0 (depth + 1) s2 state' \<and> length qs = length entries"
      by (rule "1.IH"(1) [OF s1 QI_array guard s2(1,2,3)])
    then show ?thesis unfolding s2(4) using s1 s2(1) by (intro measured_array) auto
  next
    case (QI_object i plain symbols properties)
    from "1.prems" s1 QI_object obtain s2 kvs where s2:
      "reserveQueryBytes s1 (2 + (length properties - 1)) = Some s2"
      "snapshot_properties properties depth (i # parents) s2 = Some (kvs, state')" "q = Q_object kvs"
      and guard: "\<not> (\<not> (plain \<and> symbols = 0 \<and> i \<notin> set parents) \<or>
        DATASET_GENERATION_QUERY_MAX_ENTRIES < length properties)"
      by (auto simp: snapshotQueryValue.simps bind_Some_iff split: if_splits)
    have "measured (map snd kvs) (key_bytes kvs) (depth + 1) s2 state' \<and> length kvs = length properties"
      by (rule "1.IH"(2) [OF s1 QI_object guard s2(1,2)])
    then show ?thesis unfolding s2(3) using s1 s2(1) by (intro measured_object) auto
  qed (use "1.prems" s1 in \<open>simp_all add: snapshotQueryValue.simps\<close>)
next
  case (2 depth parents state)
  then show ?case by simp
next
  case (3 p ps depth parents state)
  from "3.prems" obtain v where p: "p = QP_data True v"
    by (auto split: query_property.splits bool.splits)
  from "3.prems" p obtain q s1 rest where s1: "snapshotQueryValue v (depth + 1) parents state = Some (q, s1)"
    "snapshot_entries ps depth parents s1 = Some (rest, state')" "qs = q # rest"
    by (auto simp: bind_Some_iff)
  have "measured [q] 0 (depth + 1) state s1" by (rule "3.IH"(1) [OF p refl s1(1)])
  moreover have "measured rest 0 (depth + 1) s1 state' \<and> length rest = length ps"
    by (rule "3.IH"(2) [OF p refl s1(1) refl s1(2)])
  ultimately show ?case using measured_Cons [of q 0 "depth + 1" state s1 rest 0 state'] s1(3) by simp
next
  case (4 depth parents state)
  then show ?case by (simp add: key_bytes_def)
next
  case (5 key p ps depth parents state)
  from "5.prems" obtain v where p: "p = QP_data True v" and key: "query_key_allowed key"
    by (auto split: query_property.splits bool.splits if_splits)
  from "5.prems" p key obtain s1 s2 q s3 rest where s:
    "reserveSerializedQueryText state (json_string key) = Some s1" "reserveQueryBytes s1 1 = Some s2"
    "snapshotQueryValue v (depth + 1) parents s2 = Some (q, s3)"
    "snapshot_properties ps depth parents s3 = Some (rest, state')" "kvs = (key, q) # rest"
    by (auto simp: bind_Some_iff)
  have notnot: "\<not> \<not> query_key_allowed key" using key by simp
  have "measured [q] 0 (depth + 1) s2 s3" by (rule "5.IH"(1) [OF p refl notnot s(1,2,3)])
  then have "measured [q] (utf8_length (json_string key) + 1) (depth + 1) state s3"
    using reserve_bytes [OF s(1) [unfolded reserveSerializedQueryText_def]] reserve_bytes [OF s(2)]
    by (auto simp: measured_def utf8_length_def)
  moreover have "measured (map snd rest) (key_bytes rest) (depth + 1) s3 state' \<and> length rest = length ps"
    by (rule "5.IH"(2) [OF p refl notnot s(1,2,3) refl s(4)])
  ultimately show ?case
    using measured_Cons [of q "utf8_length (json_string key) + 1" "depth + 1" state s3 "map snd rest"
        "key_bytes rest" state'] s(5)
    by (simp add: key_bytes_def add.assoc)
qed

text \<open>
  C33. A query is accepted only as a copy whose JSON text has at most a mebibyte in UTF-8, that
  is nested at most 32 deep, has at most 10000 nodes and only finite numbers.
\<close>

theorem query_snapshot_bounded:
  assumes "snapshotDatasetGenerationQuery v = Inr q"
  shows "length (encodeUtf8 (query_text q)) \<le> 1048576 \<and> query_depth q \<le> 32 \<and>
    query_nodes q \<le> 10000 \<and> finite_query q"
proof -
  obtain state' where "snapshotQueryValue v 0 [] \<lparr>qs_bytes = 0, qs_nodes = 0\<rparr> = Some (q, state')"
    using assms by (auto simp: snapshotDatasetGenerationQuery_def split: option.splits)
  then have "measured [q] 0 0 \<lparr>qs_bytes = 0, qs_nodes = 0\<rparr> state'" by (rule snapshot_measured(1))
  then show ?thesis
    by (simp add: measured_def utf8_length_def DATASET_GENERATION_QUERY_MAX_BYTES_def
        DATASET_GENERATION_QUERY_MAX_DEPTH_def DATASET_GENERATION_QUERY_MAX_NODES_def)
qed

theorem query_snapshot_bounded_witness:
  "let q = Q_object [(lit ''size'', Q_array [Q_boolean True, Q_null]), (lit ''name'', Q_string [0xD800])]
   in length (encodeUtf8 (query_text q)) \<le> 1048576 \<and> query_depth q \<le> 32 \<and>
     query_nodes q \<le> 10000 \<and> finite_query q"
proof -
  have "snapshotDatasetGenerationQuery
      (QI_object 1 True 0
         [(lit ''size'', QP_data True (QI_array 2 True 0 3
             [QP_data True (QI_boolean True), QP_data True QI_null])),
          (lit ''name'', QP_data True (QI_string [0xD800]))]) =
    Inr (Q_object [(lit ''size'', Q_array [Q_boolean True, Q_null]), (lit ''name'', Q_string [0xD800])])"
    by (simp add: snapshotDatasetGenerationQuery_def snapshotQueryValue.simps queryNodeIsAvailable_def
        reserveSerializedQueryText_def reserveQueryBytes_def query_key_allowed_def lit_def
        DATASET_GENERATION_QUERY_MAX_BYTES_def DATASET_GENERATION_QUERY_MAX_DEPTH_def
        DATASET_GENERATION_QUERY_MAX_NODES_def DATASET_GENERATION_QUERY_MAX_ENTRIES_def
        DATASET_GENERATION_QUERY_MAX_KEY_CODE_POINTS_def DATASET_GENERATION_QUERY_MAX_STRING_CODE_POINTS_def
        UNSAFE_DATASET_GENERATION_QUERY_KEYS_def json_string_def quote_unit_def unicode_escape_def
        hex_unit_def encodeUtf8_def utf8_bytes_def unit_scalar_def surrogate_def high_surrogate_def
        low_surrogate_def)
  from query_snapshot_bounded [OF this] show ?thesis unfolding Let_def .
qed

end
