(* ===== verification/Generation_Plan.thy ===== *)
theory Generation_Plan
  imports Generation_Query Product Run Budget_Preflight
begin

text \<open>
  The plans of \<open>kernel/src/dataset-generation.ts\<close>: the intention to generate a dataset, and the
  immutable plan that fixes its limits, budget, quote, authority and routes. Limits are by the
  names that the sourcing preflight uses too; a request for limits is the list of its entries.
\<close>

section \<open>Types\<close>

definition DATASET_GENERATION_LIMIT_NAMES :: "limit_name list" where
  "DATASET_GENERATION_LIMIT_NAMES =
     [MaxCompanies, MaxContactsPerCompany, MaxContactsTotal, MaxEnrichments, MaxPhones,
      MaxResults, MaxPages, MaxCalls]"

definition DATASET_GENERATION_EXECUTION_PERMISSION :: jstring where
  "DATASET_GENERATION_EXECUTION_PERMISSION = lit ''steps:execute''"

type_synonym generation_limit_request = "(jstring \<times> js_number option) list"

datatype generation_cost_policy = GC_deny | GC_explicit_non_interactive js_number

record requested_budget =
  qb_limit :: js_number
  qb_unit :: jstring

record generation_intent =
  gi_actorId :: jstring
  gi_authorityEnvelopeId :: jstring
  gi_capability :: capability_ref
  gi_fields :: "field list"
  gi_limits :: generation_limit_request
  gi_requestedBudget :: requested_budget
  gi_requestedDeadline :: js_number
  gi_requestedQuery :: query_input
  gi_targetDataset :: dataset
  gi_unknownCostPolicy :: generation_cost_policy
  gi_workspaceId :: jstring

record generation_route =
  gr_capability :: capability_ref
  gr_effectAdapterKey :: jstring
  gr_factsHash :: jstring
  gr_pricingVersion :: jstring
  gr_providerIdentityNamespace :: "jstring option"
  gr_reservableUpperBound :: js_number
  gr_reservationUnit :: jstring
  gr_routeKey :: jstring

record generation_policy =
  gp_factsHash :: jstring
  gp_requiredPermission :: jstring
  gp_version :: jstring

record generation_plan =
  gpl_authority :: authority_envelope
  gpl_budget :: budget_limit
  gpl_deadline :: js_number
  gpl_generationPlanId :: jstring
  gpl_hardExecutionCap :: js_number
  gpl_idempotencyKey :: jstring
  gpl_limits :: cardinality_limits
  gpl_normalizedQuery :: query_input
  gpl_normalizerVersion :: jstring
  gpl_planHash :: jstring
  gpl_policy :: generation_policy
  gpl_queryContract :: contract_ref
  gpl_queryHash :: jstring
  gpl_quote :: cost_quote
  gpl_requestIntent :: generation_intent
  gpl_requestIntentHash :: jstring
  gpl_routeSnapshots :: "generation_route list"
  gpl_schemaHash :: jstring
  gpl_workspaceId :: jstring

datatype plan_failure_code =
    PF_authority_invalid | PF_budget_invalid | PF_identity_invalid | PF_query_invalid
  | PF_route_invalid | PF_schema_invalid | PF_scope_mismatch | PF_snapshot_invalid

datatype intent_failure_code =
  IF_request_invalid | IF_query_invalid | IF_schema_invalid | IF_scope_mismatch

definition datasetGenerationAcceptedRecordLimit :: "generation_plan \<Rightarrow> js_number" where
  "datasetGenerationAcceptedRecordLimit plan =
     (let c = capabilityId (gi_capability (gpl_requestIntent plan))
      in if c = lit ''organizations.discover'' then gpl_limits plan MaxCompanies
         else if c = lit ''contacts.discover'' then gpl_limits plan MaxContactsTotal
         else gpl_limits plan MaxResults)"


section \<open>Bounded values\<close>

definition boundedText :: "jstring \<Rightarrow> nat \<Rightarrow> bool" where
  "boundedText value maximum \<longleftrightarrow> length (trim value) > 0 \<and> code_points value \<le> maximum"

definition boundedIdentity :: "jstring \<Rightarrow> nat \<Rightarrow> bool" where
  "boundedIdentity value maximum \<longleftrightarrow> trim value = value \<and> boundedText value maximum"

definition contentHashIsValid :: "jstring \<Rightarrow> bool" where
  "contentHashIsValid value \<longleftrightarrow> content_hash_pattern value"

definition instantIsValid :: "js_number \<Rightarrow> bool" where
  "instantIsValid value \<longleftrightarrow> is_safe_integer value \<and> js_ge value (num 0)"

definition nonNegativeSafeInteger :: "js_number \<Rightarrow> bool" where
  "nonNegativeSafeInteger value \<longleftrightarrow> is_safe_integer value \<and> js_ge value (num 0)"

definition dg_limitsAreValid :: "cardinality_limits \<Rightarrow> bool" where
  "dg_limitsAreValid limits \<longleftrightarrow>
     list_all (\<lambda>n. is_safe_integer (limits n) \<and> js_ge (limits n) (num 0))
       DATASET_GENERATION_LIMIT_NAMES"

definition budgetIsValid :: "budget_limit \<Rightarrow> bool" where
  "budgetIsValid budget \<longleftrightarrow>
     (let committed = js_add (bl_reserved budget) (bl_spent budget)
      in isAmount (bl_limit budget) \<and> isAmount (bl_reserved budget) \<and> isAmount (bl_spent budget) \<and>
         isAmount committed \<and> length (trim (bl_unit budget)) > 0 \<and>
         (js_le committed (bl_limit budget) \<or> amountsEqual committed (bl_limit budget)))"

definition availableBudget :: "budget_limit \<Rightarrow> js_number" where
  "availableBudget budget =
     js_sub (js_sub (bl_limit budget) (bl_reserved budget)) (bl_spent budget)"

definition dg_amountExceeds :: "js_number \<Rightarrow> js_number \<Rightarrow> bool" where
  "dg_amountExceeds value limit \<longleftrightarrow> js_gt value limit \<and> \<not> amountsEqual value limit"

text \<open>\<open>requested[name]\<close>, undefined when the entry is missing or undefined.\<close>

definition requested_limit :: "generation_limit_request \<Rightarrow> limit_name \<Rightarrow> js_number option" where
  "requested_limit requested n =
     (case map_of requested (limit_key n) of Some (Some x) \<Rightarrow> Some x | _ \<Rightarrow> None)"

definition limitsDoNotExceedRequest ::
  "cardinality_limits \<Rightarrow> generation_limit_request \<Rightarrow> bool" where
  "limitsDoNotExceedRequest limits requested \<longleftrightarrow>
     list_all (\<lambda>n. case requested_limit requested n of
         None \<Rightarrow> False | Some r \<Rightarrow> js_le (limits n) r) DATASET_GENERATION_LIMIT_NAMES"

definition quoteIsValid :: "cost_quote \<Rightarrow> bool" where
  "quoteIsValid quote \<longleftrightarrow>
     boundedText (cq_quoteId quote) 255 \<and> boundedText (cq_pricingVersion quote) 255 \<and>
     boundedText (cq_unit quote) 64 \<and>
     is_safe_integer (cq_expiresAt quote) \<and> js_ge (cq_expiresAt quote) (num 0) \<and>
     (case cq_upperBound quote of None \<Rightarrow> True | Some b \<Rightarrow> isAmount b) \<and>
     (cq_guarantee quote = Unknown \<or> cq_upperBound quote \<noteq> None)"

definition limitRequestIsValid :: "generation_limit_request \<Rightarrow> bool" where
  "limitRequestIsValid limits \<longleftrightarrow>
     list_all (\<lambda>(name, value').
       name \<in> set (map limit_key DATASET_GENERATION_LIMIT_NAMES) \<and>
       (case value' of
          None \<Rightarrow> False
        | Some x \<Rightarrow> is_safe_integer x \<and> js_ge x (num 0))) limits"

text \<open>The loop over the routes, with the keys of those before.\<close>

fun routes_valid :: "generation_plan \<Rightarrow> generation_intent \<Rightarrow> jstring list \<Rightarrow> generation_route list \<Rightarrow> bool"
where
  "routes_valid plan intent routeKeys [] = True"
| "routes_valid plan intent routeKeys (route # routes) =
     (capabilityMatches (gr_capability route) (gi_capability intent) \<and>
      boundedText (gr_routeKey route) 255 \<and> boundedText (gr_effectAdapterKey route) 255 \<and>
      (case gr_providerIdentityNamespace route of None \<Rightarrow> True | Some n \<Rightarrow> boundedText n 128) \<and>
      boundedText (gr_pricingVersion route) 255 \<and> boundedText (gr_reservationUnit route) 255 \<and>
      gr_pricingVersion route = cq_pricingVersion (gpl_quote plan) \<and>
      gr_reservationUnit route = bl_unit (gpl_budget plan) \<and>
      gr_factsHash route = gp_factsHash (gpl_policy plan) \<and>
      isAmount (gr_reservableUpperBound route) \<and>
      \<not> dg_amountExceeds (gr_reservableUpperBound route) (gpl_hardExecutionCap plan) \<and>
      \<not> dg_amountExceeds (gr_reservableUpperBound route) (availableBudget (gpl_budget plan)) \<and>
      gr_routeKey route \<notin> set routeKeys \<and>
      routes_valid plan intent (gr_routeKey route # routeKeys) routes)"

definition routeSnapshotsAreValid :: "generation_plan \<Rightarrow> generation_intent \<Rightarrow> bool" where
  "routeSnapshotsAreValid plan intent \<longleftrightarrow>
     \<not> (length (gpl_routeSnapshots plan) = 0 \<or> length (gpl_routeSnapshots plan) > 64) \<and>
     routes_valid plan intent [] (gpl_routeSnapshots plan)"


section \<open>Intentions and plans\<close>

definition validateDatasetGenerationRequestIntent ::
  "generation_intent \<Rightarrow> (generation_intent, intent_failure_code) domain_result" where
  "validateDatasetGenerationRequestIntent intent =
     (if gi_workspaceId intent \<noteq> ds_workspaceId (gi_targetDataset intent) \<or>
         \<not> boundedIdentity (gi_authorityEnvelopeId intent) 255
      then fail IF_scope_mismatch
      else if \<not> (ok (createDataset (gi_targetDataset intent)) \<and>
            ok (validateDatasetFields (gi_targetDataset intent) (gi_fields intent)))
      then fail IF_schema_invalid
      else if \<not> queryIsBounded (gi_requestedQuery intent) then fail IF_query_invalid
      else if \<not> (boundedText (capabilityId (gi_capability intent)) 255 \<and>
            boundedText (capabilityVersion (gi_capability intent)) 255 \<and>
            isAmount (qb_limit (gi_requestedBudget intent)) \<and>
            boundedText (qb_unit (gi_requestedBudget intent)) 64 \<and>
            is_safe_integer (gi_requestedDeadline intent)) \<or>
          js_lt (gi_requestedDeadline intent) (num 0) \<or>
          \<not> limitRequestIsValid (gi_limits intent) \<or>
          \<not> (case gi_unknownCostPolicy intent of
               GC_deny \<Rightarrow> True
             | GC_explicit_non_interactive hardCap \<Rightarrow> isAmount hardCap)
      then fail IF_request_invalid
      else succeed intent)"

fun plan_code_of_intent :: "intent_failure_code \<Rightarrow> plan_failure_code" where
  "plan_code_of_intent IF_query_invalid = PF_query_invalid"
| "plan_code_of_intent IF_request_invalid = PF_snapshot_invalid"
| "plan_code_of_intent IF_schema_invalid = PF_schema_invalid"
| "plan_code_of_intent IF_scope_mismatch = PF_scope_mismatch"

definition plan_authority_invalid :: "generation_plan \<Rightarrow> bool" where
  "plan_authority_invalid plan \<longleftrightarrow>
     (let intent = gpl_requestIntent plan; authority = gpl_authority plan
      in ae_subjectActorId authority \<noteq> gi_actorId intent \<or>
         ae_authorityEnvelopeId authority \<noteq> gi_authorityEnvelopeId intent \<or>
         \<not> isSupportedAuthorityEnvelopeVersion (ae_version authority) \<or>
         gp_requiredPermission (gpl_policy plan) \<notin> set (ae_permissions authority) \<or>
         DATASET_GENERATION_EXECUTION_PERMISSION \<notin> set (ae_permissions authority) \<or>
         \<not> list_ex (\<lambda>candidate. capabilityMatches candidate (gi_capability intent))
           (ae_capabilities authority))"

definition plan_budget_invalid :: "generation_plan \<Rightarrow> bool" where
  "plan_budget_invalid plan \<longleftrightarrow>
     (let intent = gpl_requestIntent plan; authority = gpl_authority plan;
          budget = gpl_budget plan; quote = gpl_quote plan; cap = gpl_hardExecutionCap plan
      in \<not> (dg_limitsAreValid (gpl_limits plan) \<and>
            limitsDoNotExceedRequest (gpl_limits plan) (gi_limits intent) \<and>
            isAmount cap \<and> budgetIsValid budget \<and> budgetIsValid (ae_budgetLimit authority) \<and>
            quoteIsValid quote \<and> is_safe_integer (gpl_deadline plan) \<and>
            js_ge (gpl_deadline plan) (num 0) \<and> is_safe_integer (ae_deadline authority) \<and>
            js_ge (ae_deadline authority) (num 0)) \<or>
         dg_amountExceeds cap (availableBudget budget) \<or>
         bl_unit budget \<noteq> cq_unit quote \<or>
         bl_unit budget \<noteq> qb_unit (gi_requestedBudget intent) \<or>
         bl_unit budget \<noteq> bl_unit (ae_budgetLimit authority) \<or>
         dg_amountExceeds (availableBudget budget) (qb_limit (gi_requestedBudget intent)) \<or>
         dg_amountExceeds (availableBudget budget) (availableBudget (ae_budgetLimit authority)) \<or>
         js_gt (gpl_deadline plan) (gi_requestedDeadline intent) \<or>
         js_gt (gpl_deadline plan) (ae_deadline authority) \<or>
         (cq_guarantee quote = Hard \<and>
           (case cq_upperBound quote of None \<Rightarrow> False | Some b \<Rightarrow> dg_amountExceeds cap b)) \<or>
         (cq_guarantee quote = Unknown \<and>
           \<not> (case gi_unknownCostPolicy intent of
                GC_deny \<Rightarrow> False
              | GC_explicit_non_interactive hardCap \<Rightarrow> \<not> dg_amountExceeds cap hardCap)))"

definition createDatasetGenerationPlan ::
  "generation_plan \<Rightarrow> (generation_plan, plan_failure_code) domain_result" where
  "createDatasetGenerationPlan plan =
     (if \<not> (boundedIdentity (gpl_generationPlanId plan) 255 \<and>
            boundedIdentity (gpl_idempotencyKey plan) 512)
      then fail PF_identity_invalid
      else
        let intent = gpl_requestIntent plan
        in case validateDatasetGenerationRequestIntent intent of
            Inl e \<Rightarrow> fail (plan_code_of_intent e)
          | Inr _ \<Rightarrow>
              if gpl_workspaceId plan \<noteq> gi_workspaceId intent \<or>
                 gpl_workspaceId plan \<noteq> ds_workspaceId (gi_targetDataset intent) \<or>
                 gpl_workspaceId plan \<noteq> ae_workspaceId (gpl_authority plan)
              then fail PF_scope_mismatch
              else if \<not> (ok (createDataset (gi_targetDataset intent)) \<and>
                    ok (validateDatasetFields (gi_targetDataset intent) (gi_fields intent)))
              then fail PF_schema_invalid
              else if \<not> (queryIsBounded (gi_requestedQuery intent) \<and>
                    queryIsBounded (gpl_normalizedQuery plan))
              then fail PF_query_invalid
              else if \<not> (boundedText (gpl_normalizerVersion plan) 255 \<and>
                    boundedText (gp_version (gpl_policy plan)) 255 \<and>
                    boundedText (gp_requiredPermission (gpl_policy plan)) 255)
              then fail PF_snapshot_invalid
              else if plan_authority_invalid plan then fail PF_authority_invalid
              else if plan_budget_invalid plan then fail PF_budget_invalid
              else if \<not> routeSnapshotsAreValid plan intent then fail PF_route_invalid
              else succeed plan)"

end
