(* ===== verification/Generation.thy ===== *)
theory Generation
  imports Generation_Plan
begin

text \<open>
  The generation of \<open>kernel/src/dataset-generation.ts\<close>: a generation and the materialization of
  its dataset change together, by operations that check the pair and the plan before and after.
  A constructor of identities may throw; a check that calls it on an invalid identity would
  throw, but the checks before it refuse that identity.
\<close>

section \<open>Types\<close>

datatype materialization_state = Mat_building | Mat_ready | Mat_failed | Mat_cancelled | Mat_ambiguous

datatype coverage_basis = Basis_imported_source | Basis_locked_provider_route

datatype coverage_status = Cov_complete_for_declared_source | Cov_bounded | Cov_unknown

record materialization_coverage =
  cov_basis :: coverage_basis
  cov_status :: coverage_status

datatype materialization_origin = Origin_import jstring | Origin_generation jstring

record materialization =
  mt_completedAt :: "js_number option"
  mt_completionReason :: "jstring option"
  mt_contentHash :: "jstring option"
  mt_coverage :: "materialization_coverage option"
  mt_createdAt :: js_number
  mt_datasetId :: jstring
  mt_materializationId :: jstring
  mt_origin :: materialization_origin
  mt_recordCount :: js_number
  mt_rejectedCount :: js_number
  mt_revision :: js_number
  mt_schemaHash :: jstring
  mt_state :: materialization_state
  mt_workspaceId :: jstring

datatype generation_state =
    Gen_planned | Gen_running | Gen_stopping | Gen_completed | Gen_failed | Gen_cancelled
  | Gen_ambiguous

record generation_counters =
  gc_accepted :: js_number
  gc_calls :: js_number
  gc_duplicates :: js_number
  gc_pages :: js_number
  gc_rejected :: js_number
  gc_returned :: js_number

record generation_cost =
  gco_reserved :: js_number
  gco_spent :: js_number
  gco_unit :: jstring

text \<open>The reason of a stop is always \<open>requested\<close>.\<close>

record generation_stop =
  gs_requestedAt :: js_number

record generation =
  gn_aggregateVersion :: js_number
  gn_capability :: capability_ref
  gn_cost :: generation_cost
  gn_counters :: generation_counters
  gn_createdAt :: js_number
  gn_datasetId :: jstring
  gn_generationId :: jstring
  gn_generationPlanId :: jstring
  gn_lastPageSequence :: "js_number option"
  gn_lockedProvider :: "jstring option"
  gn_materializationId :: jstring
  gn_planHash :: jstring
  gn_queryHash :: jstring
  gn_requestIntentHash :: jstring
  gn_schemaHash :: jstring
  gn_state :: generation_state
  gn_stop :: "generation_stop option"
  gn_workspaceId :: jstring

record generation_creation =
  gcr_generation :: generation
  gcr_materialization :: materialization

datatype materialization_failure =
    MF_coverage_invalid | MF_identity_invalid | MF_progress_invalid | MF_scope_mismatch
  | MF_state_invalid | MF_terminal_proof_invalid

datatype creation_failure =
  CF_binding_mismatch | CF_generation_invalid | CF_materialization_invalid | CF_plan_invalid


section \<open>Materializations\<close>

definition coverageIsValid :: "materialization \<Rightarrow> bool" where
  "coverageIsValid m \<longleftrightarrow>
     (case mt_coverage m of
        None \<Rightarrow> False
      | Some coverage \<Rightarrow>
          cov_status coverage \<noteq> Cov_unknown \<and>
          (case mt_origin m of
             Origin_import _ \<Rightarrow>
               cov_basis coverage = Basis_imported_source \<and>
               cov_status coverage = Cov_complete_for_declared_source
           | Origin_generation _ \<Rightarrow>
               cov_basis coverage = Basis_locked_provider_route \<and>
               (cov_status coverage = Cov_complete_for_declared_source \<or>
                cov_status coverage = Cov_bounded)))"

definition materializationIdentityIsValid :: "materialization \<Rightarrow> bool" where
  "materializationIdentityIsValid m \<longleftrightarrow>
     boundedText (mt_materializationId m) 255 \<and> boundedText (mt_datasetId m) 255 \<and>
     boundedText (mt_workspaceId m) 255 \<and>
     datasetMaterializationId (mt_datasetId m) = succeed (mt_materializationId m) \<and>
     contentHashIsValid (mt_schemaHash m)"

fun materializationOriginIsValid :: "materialization_origin \<Rightarrow> bool" where
  "materializationOriginIsValid (Origin_import importId) = boundedText importId 255"
| "materializationOriginIsValid (Origin_generation generationId) = boundedIdentity generationId 255"

definition materializationProgressIsValid :: "materialization \<Rightarrow> bool" where
  "materializationProgressIsValid m \<longleftrightarrow>
     instantIsValid (mt_createdAt m) \<and> nonNegativeSafeInteger (mt_recordCount m) \<and>
     nonNegativeSafeInteger (mt_rejectedCount m) \<and>
     is_safe_integer (js_add (mt_recordCount m) (mt_rejectedCount m)) \<and>
     is_safe_integer (mt_revision m) \<and> js_ge (mt_revision m) (num 1)"

definition terminalProofIsAbsent :: "materialization \<Rightarrow> bool" where
  "terminalProofIsAbsent m \<longleftrightarrow>
     mt_completedAt m = None \<and> mt_completionReason m = None \<and> mt_contentHash m = None \<and>
     mt_coverage m = None"

definition completionReasonIsValid :: "materialization \<Rightarrow> bool" where
  "completionReasonIsValid m \<longleftrightarrow>
     (case mt_completionReason m of None \<Rightarrow> False | Some reason \<Rightarrow> boundedText reason 128)"

definition completedAtIsValid :: "materialization \<Rightarrow> bool" where
  "completedAtIsValid m \<longleftrightarrow>
     (case mt_completedAt m of
        None \<Rightarrow> False | Some at \<Rightarrow> instantIsValid at \<and> js_ge at (mt_createdAt m))"

definition createDatasetMaterialization ::
  "materialization \<Rightarrow> (materialization, materialization_failure) domain_result" where
  "createDatasetMaterialization m =
     (if \<not> materializationIdentityIsValid m then fail MF_identity_invalid
      else if \<not> materializationOriginIsValid (mt_origin m) then fail MF_scope_mismatch
      else if \<not> materializationProgressIsValid m then fail MF_progress_invalid
      else if mt_state m = Mat_ready then
        if \<not> (completedAtIsValid m \<and> completionReasonIsValid m \<and>
              (case mt_contentHash m of None \<Rightarrow> False | Some h \<Rightarrow> contentHashIsValid h) \<and>
              coverageIsValid m)
        then fail MF_terminal_proof_invalid
        else succeed m
      else if mt_state m = Mat_failed \<or> mt_state m = Mat_cancelled then
        if \<not> (completedAtIsValid m \<and> completionReasonIsValid m \<and> mt_contentHash m = None \<and>
              mt_coverage m = None)
        then fail MF_terminal_proof_invalid
        else succeed m
      else if \<not> terminalProofIsAbsent m then fail MF_terminal_proof_invalid
      else succeed m)"


section \<open>Snapshots of a generation\<close>

definition countersAreZero :: "generation_counters \<Rightarrow> bool" where
  "countersAreZero c \<longleftrightarrow>
     js_eq (gc_accepted c) (num 0) \<and> js_eq (gc_calls c) (num 0) \<and> js_eq (gc_duplicates c) (num 0) \<and>
     js_eq (gc_pages c) (num 0) \<and> js_eq (gc_rejected c) (num 0) \<and> js_eq (gc_returned c) (num 0)"

definition origin_is_generation :: "materialization \<Rightarrow> generation \<Rightarrow> bool" where
  "origin_is_generation m g \<longleftrightarrow>
     (case mt_origin m of Origin_generation i \<Rightarrow> i = gn_generationId g | Origin_import _ \<Rightarrow> False)"

definition generationBindingMatchesPlan :: "generation_creation \<Rightarrow> generation_plan \<Rightarrow> bool" where
  "generationBindingMatchesPlan creation plan \<longleftrightarrow>
     (let g = gcr_generation creation; m = gcr_materialization creation;
          targetDataset = gi_targetDataset (gpl_requestIntent plan)
      in gn_workspaceId g = gpl_workspaceId plan \<and>
         gn_workspaceId g = ds_workspaceId targetDataset \<and>
         gn_datasetId g = ds_datasetId targetDataset \<and>
         gn_generationPlanId g = gpl_generationPlanId plan \<and>
         gn_planHash g = gpl_planHash plan \<and> gn_queryHash g = gpl_queryHash plan \<and>
         gn_schemaHash g = gpl_schemaHash plan \<and>
         gn_requestIntentHash g = gpl_requestIntentHash plan \<and>
         gco_unit (gn_cost g) = bl_unit (gpl_budget plan) \<and>
         capabilityMatches (gn_capability g) (gi_capability (gpl_requestIntent plan)) \<and>
         mt_workspaceId m = gn_workspaceId g \<and> mt_datasetId m = gn_datasetId g \<and>
         mt_materializationId m = gn_materializationId g \<and> mt_schemaHash m = gn_schemaHash g \<and>
         js_eq (mt_createdAt m) (gn_createdAt g) \<and> origin_is_generation m g)"

definition validateDatasetGenerationCreation ::
  "generation_creation \<Rightarrow> generation_plan \<Rightarrow> (generation_creation, creation_failure) domain_result" where
  "validateDatasetGenerationCreation creation plan =
     (let g = gcr_generation creation; m = gcr_materialization creation;
          targetDataset = gi_targetDataset (gpl_requestIntent plan)
      in if \<not> ok (createDatasetGenerationPlan plan) then fail CF_plan_invalid
         else if \<not> ok (createDatasetMaterialization m) then fail CF_materialization_invalid
         else if \<not> (boundedIdentity (gn_generationId g) 255 \<and> instantIsValid (gn_createdAt g) \<and>
              js_eq (gn_aggregateVersion g) (num 1) \<and> gn_state g = Gen_planned \<and>
              countersAreZero (gn_counters g) \<and> js_eq (gco_reserved (gn_cost g)) (num 0) \<and>
              js_eq (gco_spent (gn_cost g)) (num 0) \<and> boundedText (gco_unit (gn_cost g)) 64)
         then fail CF_generation_invalid
         else if \<not> (gn_workspaceId g = gpl_workspaceId plan \<and>
              gn_workspaceId g = ds_workspaceId targetDataset \<and>
              gn_datasetId g = ds_datasetId targetDataset \<and>
              gn_generationPlanId g = gpl_generationPlanId plan \<and>
              gn_planHash g = gpl_planHash plan \<and> gn_queryHash g = gpl_queryHash plan \<and>
              gn_schemaHash g = gpl_schemaHash plan \<and>
              gn_requestIntentHash g = gpl_requestIntentHash plan \<and>
              gco_unit (gn_cost g) = bl_unit (gpl_budget plan) \<and>
              capabilityMatches (gn_capability g) (gi_capability (gpl_requestIntent plan)) \<and>
              mt_workspaceId m = gn_workspaceId g \<and> mt_datasetId m = gn_datasetId g \<and>
              mt_materializationId m = gn_materializationId g \<and> mt_schemaHash m = gn_schemaHash g \<and>
              js_eq (mt_createdAt m) (gn_createdAt g) \<and> mt_state m = Mat_building \<and>
              js_eq (mt_revision m) (num 1) \<and> js_eq (mt_recordCount m) (num 0) \<and>
              js_eq (mt_rejectedCount m) (num 0) \<and> origin_is_generation m g)
         then fail CF_binding_mismatch
         else succeed creation)"

definition generationCountersAreValid :: "generation_counters \<Rightarrow> bool" where
  "generationCountersAreValid c \<longleftrightarrow>
     nonNegativeSafeInteger (gc_accepted c) \<and> nonNegativeSafeInteger (gc_calls c) \<and>
     nonNegativeSafeInteger (gc_duplicates c) \<and> nonNegativeSafeInteger (gc_pages c) \<and>
     nonNegativeSafeInteger (gc_rejected c) \<and> nonNegativeSafeInteger (gc_returned c) \<and>
     is_safe_integer
       (js_add (js_add (js_add (js_add (js_add (gc_accepted c) (gc_duplicates c)) (gc_rejected c))
         (gc_returned c)) (gc_pages c)) (gc_calls c))"

definition generationCountersFitPlan :: "generation_counters \<Rightarrow> generation_plan \<Rightarrow> bool" where
  "generationCountersFitPlan c plan \<longleftrightarrow>
     js_le (gc_pages c) (gpl_limits plan MaxPages) \<and>
     js_le (gc_calls c) (gpl_limits plan MaxCalls) \<and>
     js_le (gc_returned c) (gpl_limits plan MaxResults) \<and>
     js_le (gc_accepted c) (datasetGenerationAcceptedRecordLimit plan)"

fun materializationStateForGeneration :: "generation_state \<Rightarrow> materialization_state" where
  "materializationStateForGeneration Gen_completed = Mat_ready"
| "materializationStateForGeneration Gen_failed = Mat_failed"
| "materializationStateForGeneration Gen_cancelled = Mat_cancelled"
| "materializationStateForGeneration Gen_ambiguous = Mat_ambiguous"
| "materializationStateForGeneration _ = Mat_building"

definition generationStopIsValid :: "generation \<Rightarrow> bool" where
  "generationStopIsValid g \<longleftrightarrow>
     (case gn_stop g of
        None \<Rightarrow> gn_state g \<noteq> Gen_stopping \<and> gn_state g \<noteq> Gen_cancelled
      | Some stop \<Rightarrow>
          instantIsValid (gs_requestedAt stop) \<and> js_ge (gs_requestedAt stop) (gn_createdAt g) \<and>
          gn_state g \<noteq> Gen_planned \<and> gn_state g \<noteq> Gen_running \<and> gn_state g \<noteq> Gen_completed \<and>
          gn_state g \<noteq> Gen_failed)"

text \<open>The number of the last page is compared with \<open>===\<close>; undefined equals no number.\<close>

definition is_page :: "js_number option \<Rightarrow> js_number \<Rightarrow> bool" where
  "is_page page n \<longleftrightarrow> (case page of None \<Rightarrow> False | Some k \<Rightarrow> js_eq k n)"

definition pagesAreBound :: "generation \<Rightarrow> bool" where
  "pagesAreBound g \<longleftrightarrow>
     (let pages = gc_pages (gn_counters g)
      in case gn_lockedProvider g of
          None \<Rightarrow> gn_lastPageSequence g = None \<and> js_le pages (num 1)
        | Some provider \<Rightarrow>
            (is_page (gn_lastPageSequence g) pages \<or>
             (gn_state g = Gen_running \<or> gn_state g = Gen_stopping \<or> gn_state g = Gen_failed \<or>
              gn_state g = Gen_cancelled) \<and>
             is_page (gn_lastPageSequence g) (js_sub pages (num 1))) \<and>
            js_gt pages (num 0) \<and> boundedText provider 255)"

definition progressIsExact :: "generation_creation \<Rightarrow> generation_plan \<Rightarrow> bool" where
  "progressIsExact creation plan \<longleftrightarrow>
     (let g = gcr_generation creation; m = gcr_materialization creation;
          c = gn_counters g; cost = gn_cost g; total = js_add (gco_reserved cost) (gco_spent cost)
      in boundedIdentity (gn_generationId g) 255 \<and> js_ge (gn_aggregateVersion g) (num 1) \<and>
         instantIsValid (gn_createdAt g) \<and> generationCountersAreValid c \<and>
         generationCountersFitPlan c plan \<and> js_eq (gc_accepted c) (mt_recordCount m) \<and>
         js_eq (gc_rejected c) (mt_rejectedCount m) \<and>
         js_eq (gc_returned c)
           (js_add (js_add (gc_accepted c) (gc_duplicates c)) (gc_rejected c)) \<and>
         js_ge (gc_calls c) (gc_pages c) \<and> isAmount (gco_reserved cost) \<and>
         isAmount (gco_spent cost) \<and> isAmount total \<and>
         \<not> dg_amountExceeds total (bl_limit (gpl_budget plan)) \<and> generationStopIsValid g \<and>
         pagesAreBound g \<and> mt_state m = materializationStateForGeneration (gn_state g))"

definition validateDatasetGenerationSnapshot ::
  "generation_creation \<Rightarrow> generation_plan \<Rightarrow> (generation_creation, creation_failure) domain_result" where
  "validateDatasetGenerationSnapshot creation plan =
     (let g = gcr_generation creation; m = gcr_materialization creation
      in if \<not> ok (createDatasetGenerationPlan plan) then fail CF_plan_invalid
         else if \<not> ok (createDatasetMaterialization m) then fail CF_materialization_invalid
         else if \<not> generationBindingMatchesPlan creation plan then fail CF_binding_mismatch
         else if \<not> progressIsExact creation plan then fail CF_generation_invalid
         else if gn_state g = Gen_planned \<and>
             \<not> (js_eq (gn_aggregateVersion g) (num 1) \<and> countersAreZero (gn_counters g) \<and>
               js_eq (gco_reserved (gn_cost g)) (num 0) \<and> js_eq (gco_spent (gn_cost g)) (num 0) \<and>
               js_eq (mt_revision m) (num 1))
         then fail CF_generation_invalid
         else succeed creation)"


section \<open>Operations\<close>

record authorize_page_input =
  ap_now :: js_number
  ap_pageSequence :: js_number
  ap_reservedAmount :: js_number
  ap_unit :: jstring

definition next_version :: "generation \<Rightarrow> generation" where
  "next_version g = g\<lparr>gn_aggregateVersion := js_add (gn_aggregateVersion g) (num 1)\<rparr>"

definition next_revision :: "materialization \<Rightarrow> materialization" where
  "next_revision m = m\<lparr>mt_revision := js_add (mt_revision m) (num 1)\<rparr>"

definition authorizeDatasetGenerationPageEffect ::
  "generation_creation \<Rightarrow> generation_plan \<Rightarrow> authorize_page_input \<Rightarrow>
   (generation_creation, creation_failure) domain_result" where
  "authorizeDatasetGenerationPageEffect creation plan inp =
     and_then (validateDatasetGenerationSnapshot creation plan) (\<lambda>_.
       let g = gcr_generation creation; m = gcr_materialization creation;
           c = gn_counters g; cost = gn_cost g
       in if (gn_state g \<noteq> Gen_planned \<and> gn_state g \<noteq> Gen_running) \<or> mt_state m \<noteq> Mat_building \<or>
             \<not> is_safe_integer (ap_pageSequence inp) \<or>
             \<not> js_eq (ap_pageSequence inp) (js_add (gc_pages c) (num 1)) \<or>
             js_eq (ap_pageSequence inp) (num 1) \<noteq> (gn_state g = Gen_planned) \<or>
             \<not> instantIsValid (ap_now inp) \<or> js_ge (ap_now inp) (gpl_deadline plan) \<or>
             js_ge (ap_now inp) (ae_deadline (gpl_authority plan)) \<or>
             ap_unit inp \<noteq> gco_unit cost \<or> \<not> isAmount (ap_reservedAmount inp) \<or>
             dg_amountExceeds (js_add (gco_spent cost) (ap_reservedAmount inp))
               (gpl_hardExecutionCap plan) \<or>
             dg_amountExceeds (ap_reservedAmount inp)
               (js_sub (js_sub (bl_limit (gpl_budget plan)) (gco_reserved cost)) (gco_spent cost)) \<or>
             js_ge (gc_pages c) (gpl_limits plan MaxPages) \<or>
             js_ge (gc_calls c) (gpl_limits plan MaxCalls) \<or>
             js_ge (gc_accepted c) (datasetGenerationAcceptedRecordLimit plan) \<or>
             js_ge (gc_returned c) (gpl_limits plan MaxResults) \<or>
             \<not> list_all (\<lambda>n. nonNegativeSafeInteger (gpl_limits plan n)) DATASET_GENERATION_LIMIT_NAMES
          then fail CF_generation_invalid
          else validateDatasetGenerationSnapshot
            \<lparr>gcr_generation = (next_version g)
               \<lparr>gn_cost := cost\<lparr>gco_reserved := js_add (gco_reserved cost) (ap_reservedAmount inp)\<rparr>,
                gn_counters := c\<lparr>gc_calls := js_add (gc_calls c) (num 1),
                  gc_pages := js_add (gc_pages c) (num 1)\<rparr>,
                gn_state := Gen_running\<rparr>,
             gcr_materialization = m\<rparr> plan)"

record checkpoint_input =
  cp_accepted :: js_number
  cp_costAmount :: js_number
  cp_costUnit :: jstring
  cp_duplicates :: js_number
  cp_pageSequence :: js_number
  cp_providerKey :: jstring
  cp_rejected :: js_number
  cp_returned :: js_number

definition checkpointDatasetGenerationPageProgress ::
  "generation_creation \<Rightarrow> generation_plan \<Rightarrow> checkpoint_input \<Rightarrow>
   (generation_creation, creation_failure) domain_result" where
  "checkpointDatasetGenerationPageProgress creation plan inp =
     and_then (validateDatasetGenerationSnapshot creation plan) (\<lambda>_.
       let g = gcr_generation creation; m = gcr_materialization creation;
           c = gn_counters g; cost = gn_cost g
       in if (gn_state g \<noteq> Gen_running \<and> gn_state g \<noteq> Gen_stopping) \<or>
             \<not> js_eq (gc_pages c) (cp_pageSequence inp) \<or>
             \<not> js_eq (gc_calls c) (cp_pageSequence inp) \<or>
             (\<not> is_page (gn_lastPageSequence g) (js_sub (cp_pageSequence inp) (num 1)) \<and>
               \<not> (js_eq (cp_pageSequence inp) (num 1) \<and> gn_lastPageSequence g = None)) \<or>
             (gn_lockedProvider g \<noteq> None \<and> gn_lockedProvider g \<noteq> Some (cp_providerKey inp)) \<or>
             \<not> is_safe_integer (cp_pageSequence inp) \<or> js_lt (cp_pageSequence inp) (num 1) \<or>
             \<not> boundedText (cp_providerKey inp) 255 \<or> cp_costUnit inp \<noteq> gco_unit cost \<or>
             \<not> isAmount (cp_costAmount inp) \<or>
             dg_amountExceeds (cp_costAmount inp) (gco_reserved cost) \<or>
             \<not> list_all nonNegativeSafeInteger
               [cp_accepted inp, cp_duplicates inp, cp_rejected inp, cp_returned inp] \<or>
             \<not> js_eq (cp_returned inp)
               (js_add (js_add (cp_accepted inp) (cp_duplicates inp)) (cp_rejected inp))
          then fail CF_generation_invalid
          else validateDatasetGenerationSnapshot
            \<lparr>gcr_generation = (next_version g)
               \<lparr>gn_cost := cost\<lparr>gco_reserved := num 0,
                  gco_spent := js_add (gco_spent cost) (cp_costAmount inp)\<rparr>,
                gn_counters :=
                  \<lparr>gc_accepted = js_add (gc_accepted c) (cp_accepted inp), gc_calls = gc_calls c,
                   gc_duplicates = js_add (gc_duplicates c) (cp_duplicates inp),
                   gc_pages = gc_pages c,
                   gc_rejected = js_add (gc_rejected c) (cp_rejected inp),
                   gc_returned = js_add (gc_returned c) (cp_returned inp)\<rparr>,
                gn_lastPageSequence := Some (cp_pageSequence inp),
                gn_lockedProvider :=
                  (case gn_lockedProvider g of
                     None \<Rightarrow> Some (cp_providerKey inp) | Some provider \<Rightarrow> Some provider)\<rparr>,
             gcr_materialization = (next_revision m)
               \<lparr>mt_recordCount := js_add (mt_recordCount m) (cp_accepted inp),
                mt_rejectedCount := js_add (mt_rejectedCount m) (cp_rejected inp)\<rparr>\<rparr> plan)"

datatype completion_reason = Caps_reached | Source_completed

fun completion_text :: "completion_reason \<Rightarrow> jstring" where
  "completion_text Caps_reached = lit ''caps-reached''"
| "completion_text Source_completed = lit ''source-completed''"

text \<open>The coverage of a completion is bounded or complete, never unknown.\<close>

record complete_input =
  ci_completedAt :: js_number
  ci_completionReason :: completion_reason
  ci_contentHash :: jstring
  ci_coverageStatus :: coverage_status

definition completeDatasetGeneration ::
  "generation_creation \<Rightarrow> generation_plan \<Rightarrow> complete_input \<Rightarrow>
   (generation_creation, creation_failure) domain_result" where
  "completeDatasetGeneration creation plan inp =
     and_then (validateDatasetGenerationSnapshot creation plan) (\<lambda>_.
       let g = gcr_generation creation; m = gcr_materialization creation
       in if gn_state g \<noteq> Gen_running \<or> mt_state m \<noteq> Mat_building \<or>
             \<not> js_eq (gco_reserved (gn_cost g)) (num 0) \<or>
             \<not> is_page (gn_lastPageSequence g) (gc_pages (gn_counters g)) \<or>
             \<not> instantIsValid (ci_completedAt inp) \<or>
             js_lt (ci_completedAt inp) (gn_createdAt g) \<or>
             \<not> contentHashIsValid (ci_contentHash inp) \<or>
             (ci_completionReason inp = Source_completed) \<noteq>
               (ci_coverageStatus inp = Cov_complete_for_declared_source)
          then fail CF_generation_invalid
          else validateDatasetGenerationSnapshot
            \<lparr>gcr_generation = (next_version g)\<lparr>gn_state := Gen_completed\<rparr>,
             gcr_materialization = (next_revision m)
               \<lparr>mt_completedAt := Some (ci_completedAt inp),
                mt_completionReason := Some (completion_text (ci_completionReason inp)),
                mt_contentHash := Some (ci_contentHash inp),
                mt_coverage := Some \<lparr>cov_basis = Basis_locked_provider_route,
                  cov_status = ci_coverageStatus inp\<rparr>,
                mt_state := Mat_ready\<rparr>\<rparr> plan)"

record fail_input =
  fi_completedAt :: js_number
  fi_completionReason :: jstring

definition failDatasetGeneration ::
  "generation_creation \<Rightarrow> generation_plan \<Rightarrow> fail_input \<Rightarrow>
   (generation_creation, creation_failure) domain_result" where
  "failDatasetGeneration creation plan inp =
     and_then (validateDatasetGenerationSnapshot creation plan) (\<lambda>_.
       let g = gcr_generation creation; m = gcr_materialization creation
       in if gn_state g \<noteq> Gen_running \<or> mt_state m \<noteq> Mat_building \<or>
             \<not> instantIsValid (fi_completedAt inp) \<or>
             js_lt (fi_completedAt inp) (gn_createdAt g) \<or>
             \<not> boundedText (fi_completionReason inp) 128
          then fail CF_generation_invalid
          else validateDatasetGenerationSnapshot
            \<lparr>gcr_generation = (next_version g)
               \<lparr>gn_cost := (gn_cost g)\<lparr>gco_reserved := num 0\<rparr>, gn_state := Gen_failed\<rparr>,
             gcr_materialization = (next_revision m)
               \<lparr>mt_completedAt := Some (fi_completedAt inp),
                mt_completionReason := Some (fi_completionReason inp),
                mt_state := Mat_failed\<rparr>\<rparr> plan)"

definition markDatasetGenerationAmbiguous ::
  "generation_creation \<Rightarrow> generation_plan \<Rightarrow> (generation_creation, creation_failure) domain_result" where
  "markDatasetGenerationAmbiguous creation plan =
     and_then (validateDatasetGenerationSnapshot creation plan) (\<lambda>_.
       let g = gcr_generation creation; m = gcr_materialization creation
       in if (gn_state g \<noteq> Gen_running \<and> gn_state g \<noteq> Gen_stopping) \<or> mt_state m \<noteq> Mat_building
          then fail CF_generation_invalid
          else validateDatasetGenerationSnapshot
            \<lparr>gcr_generation = (next_version g)\<lparr>gn_state := Gen_ambiguous\<rparr>,
             gcr_materialization = (next_revision m)\<lparr>mt_state := Mat_ambiguous\<rparr>\<rparr> plan)"

definition requestDatasetGenerationStop ::
  "generation_creation \<Rightarrow> generation_plan \<Rightarrow> generation_stop \<Rightarrow>
   (generation_creation, creation_failure) domain_result" where
  "requestDatasetGenerationStop creation plan inp =
     and_then (validateDatasetGenerationSnapshot creation plan) (\<lambda>_.
       let g = gcr_generation creation; m = gcr_materialization creation
       in if \<not> instantIsValid (gs_requestedAt inp) \<or>
             js_lt (gs_requestedAt inp) (gn_createdAt g) \<or>
             gn_state g = Gen_ambiguous \<or> gn_state g = Gen_completed \<or> gn_state g = Gen_failed
          then fail CF_generation_invalid
          else if gn_state g = Gen_cancelled \<or> gn_state g = Gen_stopping then succeed creation
          else
            let noEffectIsInFlight =
                  (gn_state g = Gen_planned \<or>
                   js_eq (gco_reserved (gn_cost g)) (num 0) \<and>
                   is_page (gn_lastPageSequence g) (gc_pages (gn_counters g)));
                state = (if noEffectIsInFlight then Gen_cancelled else Gen_stopping)
            in validateDatasetGenerationSnapshot
              \<lparr>gcr_generation = (next_version g)\<lparr>gn_state := state, gn_stop := Some inp\<rparr>,
               gcr_materialization =
                 (if state = Gen_cancelled
                  then (next_revision m)
                    \<lparr>mt_completedAt := Some (gs_requestedAt inp),
                     mt_completionReason := Some (lit ''requested''), mt_state := Mat_cancelled\<rparr>
                  else m)\<rparr> plan)"

definition cancelDatasetGenerationAfterStop ::
  "generation_creation \<Rightarrow> generation_plan \<Rightarrow> js_number \<Rightarrow>
   (generation_creation, creation_failure) domain_result" where
  "cancelDatasetGenerationAfterStop creation plan completedAt =
     and_then (validateDatasetGenerationSnapshot creation plan) (\<lambda>_.
       let g = gcr_generation creation; m = gcr_materialization creation
       in case gn_stop g of
           None \<Rightarrow> fail CF_generation_invalid
         | Some stop \<Rightarrow>
             if gn_state g \<noteq> Gen_stopping \<or> \<not> instantIsValid completedAt \<or>
                js_lt completedAt (gs_requestedAt stop)
             then fail CF_generation_invalid
             else validateDatasetGenerationSnapshot
               \<lparr>gcr_generation = (next_version g)
                  \<lparr>gn_cost := (gn_cost g)\<lparr>gco_reserved := num 0\<rparr>, gn_state := Gen_cancelled\<rparr>,
                gcr_materialization = (next_revision m)
                  \<lparr>mt_completedAt := Some completedAt,
                   mt_completionReason := Some (lit ''requested''),
                   mt_state := Mat_cancelled\<rparr>\<rparr> plan)"

record create_generation_input =
  cg_createdAt :: js_number
  cg_generationId :: jstring
  cg_plan :: generation_plan

text \<open>\<open>None\<close> when the identity of the materialization cannot be made and the code throws.\<close>

definition createDatasetGeneration ::
  "create_generation_input \<Rightarrow> (generation_creation, creation_failure) domain_result option" where
  "createDatasetGeneration inp =
     (let plan = cg_plan inp; targetDataset = gi_targetDataset (gpl_requestIntent plan)
      in case datasetMaterializationId (ds_datasetId targetDataset) of
          Inl _ \<Rightarrow> None
        | Inr materializationId \<Rightarrow> Some (validateDatasetGenerationCreation
            \<lparr>gcr_generation =
               \<lparr>gn_aggregateVersion = num 1, gn_capability = gi_capability (gpl_requestIntent plan),
                gn_cost = \<lparr>gco_reserved = num 0, gco_spent = num 0,
                  gco_unit = bl_unit (gpl_budget plan)\<rparr>,
                gn_counters = \<lparr>gc_accepted = num 0, gc_calls = num 0, gc_duplicates = num 0,
                  gc_pages = num 0, gc_rejected = num 0, gc_returned = num 0\<rparr>,
                gn_createdAt = cg_createdAt inp, gn_datasetId = ds_datasetId targetDataset,
                gn_generationId = cg_generationId inp,
                gn_generationPlanId = gpl_generationPlanId plan, gn_lastPageSequence = None,
                gn_lockedProvider = None, gn_materializationId = materializationId,
                gn_planHash = gpl_planHash plan, gn_queryHash = gpl_queryHash plan,
                gn_requestIntentHash = gpl_requestIntentHash plan,
                gn_schemaHash = gpl_schemaHash plan, gn_state = Gen_planned, gn_stop = None,
                gn_workspaceId = gpl_workspaceId plan\<rparr>,
             gcr_materialization =
               \<lparr>mt_completedAt = None, mt_completionReason = None, mt_contentHash = None,
                mt_coverage = None, mt_createdAt = cg_createdAt inp,
                mt_datasetId = ds_datasetId targetDataset, mt_materializationId = materializationId,
                mt_origin = Origin_generation (cg_generationId inp), mt_recordCount = num 0,
                mt_rejectedCount = num 0, mt_revision = num 1, mt_schemaHash = gpl_schemaHash plan,
                mt_state = Mat_building, mt_workspaceId = gpl_workspaceId plan\<rparr>\<rparr> plan))"

end
