(* ===== verification/Generation_Page.thy ===== *)
theory Generation_Page
  imports Generation
begin

text \<open>
  The pages of a generation in \<open>kernel/src/dataset-generation.ts\<close>: one page is one run of the
  locked provider. An undefined member is \<open>None\<close>; a cursor that is null is \<open>None\<close> where the
  member is always there, and \<open>Some None\<close> where it may be undefined.
\<close>

section \<open>Types\<close>

datatype page_state = Page_run_created | Page_executing | Page_failed | Page_committed | Page_ambiguous

datatype page_failure = PGF_evidence_invalid | PGF_identity_invalid | PGF_state_invalid

record generation_page =
  pg_acceptedCount :: "js_number option"
  pg_aggregateVersion :: js_number
  pg_artifactContentHash :: "jstring option"
  pg_artifactId :: "jstring option"
  pg_attemptId :: "jstring option"
  pg_checkpointHash :: "jstring option"
  pg_committedAt :: "js_number option"
  pg_costAmount :: "js_number option"
  pg_costUnit :: "jstring option"
  pg_createdAt :: js_number
  pg_duplicateCount :: "js_number option"
  pg_generationId :: jstring
  pg_hasMore :: "bool option"
  pg_inputContentHash :: jstring
  pg_inputCursor :: "jstring option"
  pg_inputId :: jstring
  pg_nextCursor :: "jstring option option"
  pg_operationKey :: "jstring option"
  pg_pageSequence :: js_number
  pg_providerKey :: "jstring option"
  pg_rejectedCount :: "js_number option"
  pg_reservationId :: "jstring option"
  pg_reservedAmount :: "js_number option"
  pg_resultManifestHash :: "jstring option"
  pg_resultManifestId :: "jstring option"
  pg_returnedCount :: "js_number option"
  pg_routeKey :: "jstring option"
  pg_routeSnapshotHash :: "jstring option"
  pg_routingDecisionId :: "jstring option"
  pg_runId :: jstring
  pg_runPlanId :: jstring
  pg_sourcePartitionCompleted :: "bool option"
  pg_state :: page_state
  pg_stepRunId :: "jstring option"
  pg_usageEntryId :: "jstring option"
  pg_workspaceId :: jstring

record start_page_input =
  sp_attemptId :: jstring
  sp_costUnit :: jstring
  sp_operationKey :: jstring
  sp_providerKey :: jstring
  sp_reservationId :: jstring
  sp_reservedAmount :: js_number
  sp_routeKey :: jstring
  sp_routeSnapshotHash :: jstring
  sp_routingDecisionId :: jstring
  sp_stepRunId :: jstring

record commit_page_input =
  cpi_acceptedCount :: js_number
  cpi_artifactContentHash :: jstring
  cpi_artifactId :: jstring
  cpi_checkpointHash :: jstring
  cpi_committedAt :: js_number
  cpi_costAmount :: js_number
  cpi_duplicateCount :: js_number
  cpi_hasMore :: bool
  cpi_nextCursor :: "jstring option"
  cpi_rejectedCount :: js_number
  cpi_resultManifestHash :: jstring
  cpi_resultManifestId :: jstring
  cpi_returnedCount :: js_number
  cpi_sourcePartitionCompleted :: bool
  cpi_usageEntryId :: jstring


section \<open>Evidence\<close>

definition defined_and :: "('a \<Rightarrow> bool) \<Rightarrow> 'a option \<Rightarrow> bool" where
  "defined_and P member = (case member of None \<Rightarrow> False | Some x \<Rightarrow> P x)"

definition pageEffectEvidenceIsAbsent :: "generation_page \<Rightarrow> bool" where
  "pageEffectEvidenceIsAbsent page \<longleftrightarrow>
     pg_attemptId page = None \<and> pg_costUnit page = None \<and> pg_operationKey page = None \<and>
     pg_providerKey page = None \<and> pg_reservationId page = None \<and>
     pg_reservedAmount page = None \<and> pg_routeKey page = None \<and>
     pg_routeSnapshotHash page = None \<and> pg_routingDecisionId page = None \<and>
     pg_stepRunId page = None"

definition pageEffectEvidenceIsPresent :: "generation_page \<Rightarrow> bool" where
  "pageEffectEvidenceIsPresent page \<longleftrightarrow>
     defined_and (\<lambda>x. boundedText x 255) (pg_attemptId page) \<and>
     defined_and (\<lambda>x. boundedText x 64) (pg_costUnit page) \<and>
     defined_and (\<lambda>x. boundedText x 512) (pg_operationKey page) \<and>
     defined_and (\<lambda>x. boundedText x 255) (pg_providerKey page) \<and>
     defined_and (\<lambda>x. boundedText x 512) (pg_reservationId page) \<and>
     defined_and isAmount (pg_reservedAmount page) \<and>
     defined_and (\<lambda>x. boundedText x 255) (pg_routeKey page) \<and>
     defined_and contentHashIsValid (pg_routeSnapshotHash page) \<and>
     defined_and (\<lambda>x. boundedText x 512) (pg_routingDecisionId page) \<and>
     defined_and (\<lambda>x. boundedText x 512) (pg_stepRunId page)"

definition pageResultEvidenceIsAbsent :: "generation_page \<Rightarrow> bool" where
  "pageResultEvidenceIsAbsent page \<longleftrightarrow>
     pg_acceptedCount page = None \<and> pg_artifactContentHash page = None \<and>
     pg_artifactId page = None \<and> pg_checkpointHash page = None \<and> pg_committedAt page = None \<and>
     pg_costAmount page = None \<and> pg_duplicateCount page = None \<and> pg_hasMore page = None \<and>
     pg_nextCursor page = None \<and> pg_rejectedCount page = None \<and>
     pg_resultManifestHash page = None \<and> pg_resultManifestId page = None \<and>
     pg_returnedCount page = None \<and> pg_sourcePartitionCompleted page = None \<and>
     pg_usageEntryId page = None"

text \<open>A cursor goes on exactly while the source partition is not completed.\<close>

definition cursor_is_coherent :: "bool \<Rightarrow> jstring option \<Rightarrow> bool \<Rightarrow> bool" where
  "cursor_is_coherent hasMore nextCursor completed =
     (if hasMore
      then (case nextCursor of None \<Rightarrow> False | Some c \<Rightarrow> boundedText c 255) \<and> \<not> completed
      else nextCursor = None \<and> completed)"

definition pageResultEvidenceIsPresent :: "generation_page \<Rightarrow> bool" where
  "pageResultEvidenceIsPresent page \<longleftrightarrow>
     (case (pg_acceptedCount page, pg_duplicateCount page, pg_rejectedCount page,
         pg_returnedCount page) of
        (Some accepted, Some duplicates, Some rejected, Some returned) \<Rightarrow>
          list_all nonNegativeSafeInteger [accepted, duplicates, rejected, returned] \<and>
          js_eq returned (js_add (js_add accepted duplicates) rejected)
      | _ \<Rightarrow> False) \<and>
     (case (pg_hasMore page, pg_nextCursor page, pg_sourcePartitionCompleted page) of
        (Some hasMore, Some nextCursor, Some completed) \<Rightarrow>
          cursor_is_coherent hasMore nextCursor completed
      | _ \<Rightarrow> False) \<and>
     defined_and contentHashIsValid (pg_artifactContentHash page) \<and>
     defined_and (\<lambda>x. boundedText x 512) (pg_artifactId page) \<and>
     defined_and contentHashIsValid (pg_checkpointHash page) \<and>
     defined_and (\<lambda>at. instantIsValid at \<and> js_ge at (pg_createdAt page)) (pg_committedAt page) \<and>
     (case (pg_costAmount page, pg_reservedAmount page) of
        (Some cost, Some reserved) \<Rightarrow> isAmount cost \<and> \<not> dg_amountExceeds cost reserved
      | _ \<Rightarrow> False) \<and>
     defined_and contentHashIsValid (pg_resultManifestHash page) \<and>
     defined_and (\<lambda>x. boundedText x 512) (pg_resultManifestId page) \<and>
     defined_and (\<lambda>x. boundedText x 512) (pg_usageEntryId page)"


section \<open>Operations\<close>

definition page_identity_valid :: "generation_page \<Rightarrow> bool" where
  "page_identity_valid page \<longleftrightarrow>
     \<not> (\<not> is_safe_integer (pg_pageSequence page) \<or> js_lt (pg_pageSequence page) (num 1) \<or>
       (if js_eq (pg_pageSequence page) (num 1)
        then pg_inputCursor page \<noteq> None
        else \<not> (case pg_inputCursor page of None \<Rightarrow> False | Some c \<Rightarrow> boundedText c 4096)) \<or>
       \<not> boundedIdentity (pg_workspaceId page) 255 \<or>
       \<not> boundedIdentity (pg_generationId page) 255 \<or> \<not> boundedText (pg_runPlanId page) 512 \<or>
       \<not> boundedText (pg_runId page) 512 \<or> \<not> boundedText (pg_inputId page) 512 \<or>
       \<not> contentHashIsValid (pg_inputContentHash page) \<or> \<not> instantIsValid (pg_createdAt page) \<or>
       \<not> is_safe_integer (pg_aggregateVersion page) \<or> js_lt (pg_aggregateVersion page) (num 1))"

definition validateDatasetGenerationPageSnapshot ::
  "generation_page \<Rightarrow> (generation_page, page_failure) domain_result" where
  "validateDatasetGenerationPageSnapshot page =
     (if \<not> page_identity_valid page then fail PGF_identity_invalid
      else case pg_state page of
          Page_run_created \<Rightarrow>
            if js_eq (pg_aggregateVersion page) (num 1) \<and> pageEffectEvidenceIsAbsent page \<and>
               pageResultEvidenceIsAbsent page
            then succeed page else fail PGF_state_invalid
        | Page_committed \<Rightarrow>
            if js_ge (pg_aggregateVersion page) (num 3) \<and> pageEffectEvidenceIsPresent page \<and>
               pageResultEvidenceIsPresent page
            then succeed page else fail PGF_evidence_invalid
        | _ \<Rightarrow>
            if js_ge (pg_aggregateVersion page) (num 2) \<and> pageEffectEvidenceIsPresent page \<and>
               pageResultEvidenceIsAbsent page
            then succeed page else fail PGF_evidence_invalid)"

definition page_next :: "generation_page \<Rightarrow> page_state \<Rightarrow> generation_page" where
  "page_next page state =
     page\<lparr>pg_aggregateVersion := js_add (pg_aggregateVersion page) (num 1), pg_state := state\<rparr>"

definition startDatasetGenerationPage ::
  "generation_page \<Rightarrow> start_page_input \<Rightarrow> (generation_page, page_failure) domain_result" where
  "startDatasetGenerationPage page inp =
     and_then (validateDatasetGenerationPageSnapshot page) (\<lambda>_.
       if pg_state page \<noteq> Page_run_created then fail PGF_state_invalid
       else validateDatasetGenerationPageSnapshot
         ((page_next page Page_executing)
            \<lparr>pg_attemptId := Some (sp_attemptId inp), pg_costUnit := Some (sp_costUnit inp),
             pg_operationKey := Some (sp_operationKey inp),
             pg_providerKey := Some (sp_providerKey inp),
             pg_reservationId := Some (sp_reservationId inp),
             pg_reservedAmount := Some (sp_reservedAmount inp),
             pg_routeKey := Some (sp_routeKey inp),
             pg_routeSnapshotHash := Some (sp_routeSnapshotHash inp),
             pg_routingDecisionId := Some (sp_routingDecisionId inp),
             pg_stepRunId := Some (sp_stepRunId inp)\<rparr>))"

definition markDatasetGenerationPageAmbiguous ::
  "generation_page \<Rightarrow> (generation_page, page_failure) domain_result" where
  "markDatasetGenerationPageAmbiguous page =
     and_then (validateDatasetGenerationPageSnapshot page) (\<lambda>_.
       if pg_state page = Page_executing
       then validateDatasetGenerationPageSnapshot (page_next page Page_ambiguous)
       else fail PGF_state_invalid)"

definition markDatasetGenerationPageFailed ::
  "generation_page \<Rightarrow> (generation_page, page_failure) domain_result" where
  "markDatasetGenerationPageFailed page =
     and_then (validateDatasetGenerationPageSnapshot page) (\<lambda>_.
       if pg_state page = Page_executing
       then validateDatasetGenerationPageSnapshot (page_next page Page_failed)
       else fail PGF_state_invalid)"

definition commitDatasetGenerationPage ::
  "generation_page \<Rightarrow> commit_page_input \<Rightarrow> (generation_page, page_failure) domain_result" where
  "commitDatasetGenerationPage page inp =
     and_then (validateDatasetGenerationPageSnapshot page) (\<lambda>_.
       if pg_state page = Page_executing
       then validateDatasetGenerationPageSnapshot
         ((page_next page Page_committed)
            \<lparr>pg_acceptedCount := Some (cpi_acceptedCount inp),
             pg_artifactContentHash := Some (cpi_artifactContentHash inp),
             pg_artifactId := Some (cpi_artifactId inp),
             pg_checkpointHash := Some (cpi_checkpointHash inp),
             pg_committedAt := Some (cpi_committedAt inp),
             pg_costAmount := Some (cpi_costAmount inp),
             pg_duplicateCount := Some (cpi_duplicateCount inp),
             pg_hasMore := Some (cpi_hasMore inp),
             pg_nextCursor := Some (cpi_nextCursor inp),
             pg_rejectedCount := Some (cpi_rejectedCount inp),
             pg_resultManifestHash := Some (cpi_resultManifestHash inp),
             pg_resultManifestId := Some (cpi_resultManifestId inp),
             pg_returnedCount := Some (cpi_returnedCount inp),
             pg_sourcePartitionCompleted := Some (cpi_sourcePartitionCompleted inp),
             pg_usageEntryId := Some (cpi_usageEntryId inp)\<rparr>)
       else fail PGF_state_invalid)"

end
