(* ===== verification/Generation_Example.thy ===== *)
theory Generation_Example
  imports Generation_Page Product_Properties
begin

text \<open>
  A plan for companies in one dataset, the generation it creates, and commands that complete
  it: the concrete inputs on which the properties of generations are applied.
\<close>

section \<open>A plan\<close>

definition ex_hash :: jstring where
  "ex_hash = lit ''sha256:'' @ replicate 64 97"

definition ex_capability :: capability_ref where
  "ex_capability = \<lparr>capabilityId = lit ''organizations.discover'', capabilityVersion = lit ''1''\<rparr>"

definition ex_intent :: generation_intent where
  "ex_intent = \<lparr>gi_actorId = lit ''a'', gi_authorityEnvelopeId = lit ''e'',
     gi_capability = ex_capability, gi_fields = [ex_field],
     gi_limits = map (\<lambda>n. (limit_key n, Some (num 5))) DATASET_GENERATION_LIMIT_NAMES,
     gi_requestedBudget = \<lparr>qb_limit = num 20, qb_unit = lit ''u''\<rparr>,
     gi_requestedDeadline = num 100, gi_requestedQuery = QI_boolean True,
     gi_targetDataset = ex_dataset, gi_unknownCostPolicy = GC_deny, gi_workspaceId = lit ''ws''\<rparr>"

definition ex_budget :: budget_limit where
  "ex_budget = \<lparr>bl_unit = lit ''u'', bl_limit = num 20, bl_spent = num 0, bl_reserved = num 0\<rparr>"

definition ex_authority :: authority_envelope where
  "ex_authority = \<lparr>ae_authorityEnvelopeId = lit ''e'', ae_version = AUTHORITY_ENVELOPE_VERSION_V1,
     ae_subjectActorId = lit ''a'', ae_workspaceId = lit ''ws'',
     ae_permissions = [DATASET_GENERATION_EXECUTION_PERMISSION], ae_capabilities = [ex_capability],
     ae_budgetLimit = ex_budget, ae_deadline = num 100\<rparr>"

definition ex_route :: generation_route where
  "ex_route = \<lparr>gr_capability = ex_capability, gr_effectAdapterKey = lit ''x'',
     gr_factsHash = ex_hash, gr_pricingVersion = lit ''p'', gr_providerIdentityNamespace = None,
     gr_reservableUpperBound = num 4, gr_reservationUnit = lit ''u'', gr_routeKey = lit ''r''\<rparr>"

definition ex_generation_plan :: generation_plan where
  "ex_generation_plan = \<lparr>gpl_authority = ex_authority, gpl_budget = ex_budget,
     gpl_deadline = num 100, gpl_generationPlanId = lit ''gp'', gpl_hardExecutionCap = num 10,
     gpl_idempotencyKey = lit ''k'', gpl_limits = (\<lambda>_. num 5),
     gpl_normalizedQuery = QI_boolean True, gpl_normalizerVersion = lit ''1'',
     gpl_planHash = ex_hash,
     gpl_policy = \<lparr>gp_factsHash = ex_hash,
       gp_requiredPermission = DATASET_GENERATION_EXECUTION_PERMISSION, gp_version = lit ''1''\<rparr>,
     gpl_queryContract = \<lparr>catalogVersion = lit ''1'', catalogFingerprint = ex_hash,
       schemaId = lit ''s'', schemaVersion = lit ''1'', schemaFingerprint = ex_hash\<rparr>,
     gpl_queryHash = ex_hash,
     gpl_quote = \<lparr>cq_quoteId = lit ''q'', cq_guarantee = Hard, cq_unit = lit ''u'',
       cq_upperBound = Some (num 10), cq_pricingVersion = lit ''p'', cq_expiresAt = num 100\<rparr>,
     gpl_requestIntent = ex_intent, gpl_requestIntentHash = ex_hash,
     gpl_routeSnapshots = [ex_route], gpl_schemaHash = ex_hash, gpl_workspaceId = lit ''ws''\<rparr>"

lemma ex_intent_simps [simp]:
  "gi_actorId ex_intent = lit ''a''"
  "gi_authorityEnvelopeId ex_intent = lit ''e''"
  "gi_capability ex_intent = ex_capability"
  "gi_fields ex_intent = [ex_field]"
  "gi_limits ex_intent = map (\<lambda>n. (limit_key n, Some (num 5))) DATASET_GENERATION_LIMIT_NAMES"
  "gi_requestedBudget ex_intent = \<lparr>qb_limit = num 20, qb_unit = lit ''u''\<rparr>"
  "gi_requestedDeadline ex_intent = num 100"
  "gi_requestedQuery ex_intent = QI_boolean True"
  "gi_targetDataset ex_intent = ex_dataset"
  "gi_unknownCostPolicy ex_intent = GC_deny"
  "gi_workspaceId ex_intent = lit ''ws''"
  by (simp_all add: ex_intent_def)

lemma ex_generation_plan_simps [simp]:
  "gpl_authority ex_generation_plan = ex_authority"
  "gpl_budget ex_generation_plan = ex_budget"
  "gpl_deadline ex_generation_plan = num 100"
  "gpl_generationPlanId ex_generation_plan = lit ''gp''"
  "gpl_hardExecutionCap ex_generation_plan = num 10"
  "gpl_idempotencyKey ex_generation_plan = lit ''k''"
  "gpl_limits ex_generation_plan = (\<lambda>_. num 5)"
  "gpl_normalizedQuery ex_generation_plan = QI_boolean True"
  "gpl_normalizerVersion ex_generation_plan = lit ''1''"
  "gpl_planHash ex_generation_plan = ex_hash"
  "gpl_policy ex_generation_plan = \<lparr>gp_factsHash = ex_hash, gp_requiredPermission = DATASET_GENERATION_EXECUTION_PERMISSION, gp_version = lit ''1''\<rparr>"
  "gpl_queryContract ex_generation_plan = \<lparr>catalogVersion = lit ''1'', catalogFingerprint = ex_hash, schemaId = lit ''s'', schemaVersion = lit ''1'', schemaFingerprint = ex_hash\<rparr>"
  "gpl_queryHash ex_generation_plan = ex_hash"
  "gpl_quote ex_generation_plan = \<lparr>cq_quoteId = lit ''q'', cq_guarantee = Hard, cq_unit = lit ''u'', cq_upperBound = Some (num 10), cq_pricingVersion = lit ''p'', cq_expiresAt = num 100\<rparr>"
  "gpl_requestIntent ex_generation_plan = ex_intent"
  "gpl_requestIntentHash ex_generation_plan = ex_hash"
  "gpl_routeSnapshots ex_generation_plan = [ex_route]"
  "gpl_schemaHash ex_generation_plan = ex_hash"
  "gpl_workspaceId ex_generation_plan = lit ''ws''"
  by (simp_all add: ex_generation_plan_def)

lemma ex_hash_valid [simp]: "contentHashIsValid ex_hash"
  by (simp add: contentHashIsValid_def content_hash_pattern_def ex_hash_def lit_def sha256_prefix_def
      hex_digit_def list_all_iff)

lemmas ex_text_simps = lit_def boundedText_def boundedIdentity_def trim_def js_space_def
  high_surrogate_def low_surrogate_def isBoundedIdentity_def isBoundedText_def MAX_NAME_LENGTH_def
  max_safe_def

lemma ex_schema_valid:
  "createDataset ex_dataset = Inr ex_dataset" "validateDatasetFields ex_dataset [ex_field] = Inr [ex_field]"
  by (simp_all add: ex_dataset_def ex_field_def ex_text_simps createDataset_def
      validateDatasetFields_def indexFields_def MAX_DATASET_FIELDS_def validateField_def
      hasDatasetScope_def MAX_FIELD_KEY_LENGTH_def FIELD_KEY_PATTERN_def lower_def map_has_def map_get_def)

lemma ex_query_valid: "queryIsBounded (QI_boolean True)"
  by (simp add: queryIsBounded_def snapshotDatasetGenerationQuery_def snapshotQueryValue.simps
      queryNodeIsAvailable_def reserveQueryBytes_def DATASET_GENERATION_QUERY_MAX_BYTES_def
      DATASET_GENERATION_QUERY_MAX_DEPTH_def DATASET_GENERATION_QUERY_MAX_NODES_def)

lemma ex_limits_valid:
  "limitRequestIsValid (map (\<lambda>n. (limit_key n, Some (num 5))) DATASET_GENERATION_LIMIT_NAMES)"
  "limitsDoNotExceedRequest (\<lambda>_. num 5)
     (map (\<lambda>n. (limit_key n, Some (num 5))) DATASET_GENERATION_LIMIT_NAMES)"
  "dg_limitsAreValid (\<lambda>_. num 5)"
  unfolding limitRequestIsValid_def limitsDoNotExceedRequest_def dg_limitsAreValid_def
    DATASET_GENERATION_LIMIT_NAMES_def
  by (simp_all add: requested_limit_def lit_def max_safe_def)

lemma ex_intent_valid: "validateDatasetGenerationRequestIntent ex_intent = Inr ex_intent"
  by (simp add: validateDatasetGenerationRequestIntent_def ex_schema_valid ex_query_valid
      ex_limits_valid ex_capability_def)
    (simp add: ex_dataset_def ex_text_simps)

lemma ex_budget_valid: "budgetIsValid ex_budget" "availableBudget ex_budget = num 20"
  by (simp_all add: budgetIsValid_def availableBudget_def ex_budget_def ex_text_simps)

lemma ex_authority_valid: "\<not> plan_authority_invalid ex_generation_plan"
  by (simp add: plan_authority_invalid_def ex_authority_def capabilityMatches_def
      isSupportedAuthorityEnvelopeVersion_def)

lemma ex_plan_budget_valid: "\<not> plan_budget_invalid ex_generation_plan"
  by (simp add: plan_budget_invalid_def ex_authority_def ex_budget_valid ex_limits_valid
      quoteIsValid_def dg_amountExceeds_def)
    (simp add: ex_budget_def ex_text_simps)

lemma ex_route_snapshots_valid: "routeSnapshotsAreValid ex_generation_plan ex_intent"
  by (simp add: routeSnapshotsAreValid_def ex_route_def ex_budget_valid dg_amountExceeds_def
      capabilityMatches_def)
    (simp add: ex_budget_def ex_text_simps)

lemma ex_plan_valid: "createDatasetGenerationPlan ex_generation_plan = Inr ex_generation_plan"
  by (simp add: createDatasetGenerationPlan_def Let_def ex_authority_valid ex_plan_budget_valid
      ex_route_snapshots_valid ex_intent_valid ex_schema_valid ex_query_valid)
    (simp add: ex_dataset_def ex_authority_def ex_text_simps DATASET_GENERATION_EXECUTION_PERMISSION_def)


section \<open>A generation\<close>

definition ex_materialization ::
  "materialization_state \<Rightarrow> js_number \<Rightarrow> js_number \<Rightarrow> materialization" where
  "ex_materialization state records revision =
     (let done = (state = Mat_ready \<or> state = Mat_cancelled)
      in \<lparr>mt_completedAt = (if done then Some (num 9) else None),
          mt_completionReason =
            (if state = Mat_ready then Some (lit ''source-completed'')
             else if done then Some (lit ''requested'') else None),
          mt_contentHash = (if state = Mat_ready then Some ex_hash else None),
          mt_coverage = (if state = Mat_ready then Some \<lparr>cov_basis = Basis_locked_provider_route,
            cov_status = Cov_complete_for_declared_source\<rparr> else None),
          mt_createdAt = num 1, mt_datasetId = lit ''ds'', mt_materializationId = lit ''ds'',
          mt_origin = Origin_generation (lit ''g''), mt_recordCount = records,
          mt_rejectedCount = num 0, mt_revision = revision, mt_schemaHash = ex_hash,
          mt_state = state, mt_workspaceId = lit ''ws''\<rparr>)"

definition ex_counters :: "js_number \<Rightarrow> js_number \<Rightarrow> generation_counters" where
  "ex_counters pages accepted = \<lparr>gc_accepted = accepted, gc_calls = pages, gc_duplicates = num 0,
     gc_pages = pages, gc_rejected = num 0, gc_returned = accepted\<rparr>"

definition ex_generation ::
  "generation_state \<Rightarrow> js_number \<Rightarrow> generation_cost \<Rightarrow> generation_counters \<Rightarrow> js_number option \<Rightarrow>
   jstring option \<Rightarrow> generation_stop option \<Rightarrow> generation" where
  "ex_generation state version cost counters page provider stop =
     \<lparr>gn_aggregateVersion = version, gn_capability = ex_capability, gn_cost = cost,
      gn_counters = counters, gn_createdAt = num 1, gn_datasetId = lit ''ds'',
      gn_generationId = lit ''g'', gn_generationPlanId = lit ''gp'', gn_lastPageSequence = page,
      gn_lockedProvider = provider, gn_materializationId = lit ''ds'', gn_planHash = ex_hash,
      gn_queryHash = ex_hash, gn_requestIntentHash = ex_hash, gn_schemaHash = ex_hash,
      gn_state = state, gn_stop = stop, gn_workspaceId = lit ''ws''\<rparr>"

definition ex_cost :: "js_number \<Rightarrow> js_number \<Rightarrow> generation_cost" where
  "ex_cost reserved spent = \<lparr>gco_reserved = reserved, gco_spent = spent, gco_unit = lit ''u''\<rparr>"

text \<open>Planned, with its first page in flight, checkpointed, and completed.\<close>

definition ex_planned :: generation_creation where
  "ex_planned = \<lparr>gcr_generation = ex_generation Gen_planned (num 1) (ex_cost (num 0) (num 0))
       (ex_counters (num 0) (num 0)) None None None,
     gcr_materialization = ex_materialization Mat_building (num 0) (num 1)\<rparr>"

definition ex_in_flight :: generation_creation where
  "ex_in_flight = \<lparr>gcr_generation = ex_generation Gen_running (num 2) (ex_cost (num 4) (num 0))
       (ex_counters (num 1) (num 0)) None None None,
     gcr_materialization = ex_materialization Mat_building (num 0) (num 1)\<rparr>"

definition ex_checkpointed :: generation_creation where
  "ex_checkpointed = \<lparr>gcr_generation = ex_generation Gen_running (num 3) (ex_cost (num 0) (num 3))
       (ex_counters (num 1) (num 2)) (Some (num 1)) (Some (lit ''p'')) None,
     gcr_materialization = ex_materialization Mat_building (num 2) (num 2)\<rparr>"

definition ex_completed :: generation_creation where
  "ex_completed = \<lparr>gcr_generation = ex_generation Gen_completed (num 4) (ex_cost (num 0) (num 3))
       (ex_counters (num 1) (num 2)) (Some (num 1)) (Some (lit ''p'')) None,
     gcr_materialization = ex_materialization Mat_ready (num 2) (num 3)\<rparr>"

text \<open>The first page is checkpointed and the second in flight.\<close>

definition ex_second_in_flight :: generation_creation where
  "ex_second_in_flight = \<lparr>gcr_generation = ex_generation Gen_running (num 4) (ex_cost (num 4) (num 3))
       (ex_counters (num 2) (num 2)) (Some (num 1)) (Some (lit ''p'')) None,
     gcr_materialization = ex_materialization Mat_building (num 2) (num 2)\<rparr>"

definition ex_stopping :: generation_creation where
  "ex_stopping = \<lparr>gcr_generation = ex_generation Gen_stopping (num 5) (ex_cost (num 4) (num 3))
       (ex_counters (num 2) (num 2)) (Some (num 1)) (Some (lit ''p'')) (Some \<lparr>gs_requestedAt = num 9\<rparr>),
     gcr_materialization = ex_materialization Mat_building (num 2) (num 2)\<rparr>"

lemmas ex_generation_defs = ex_generation_def ex_cost_def ex_counters_def ex_materialization_def Let_def

lemma ex_ids [simp]:
  "datasetMaterializationId (lit ''ds'') = Inr (lit ''ds'')" "ds_datasetId ex_dataset = lit ''ds''"
  "ds_workspaceId ex_dataset = lit ''ws''" "bl_unit ex_budget = lit ''u''"
  by (simp_all add: datasetMaterializationId_def ex_dataset_def ex_budget_def ex_text_simps
      boundedProductIdentity_def nonEmpty_def blank_def)

lemma ex_texts [simp]:
  "boundedIdentity (lit ''g'') 255" "boundedText (lit ''ds'') 255" "boundedText (lit ''ws'') 255"
  "boundedText (lit ''u'') 64" "boundedText (lit ''p'') 255" "boundedText (lit ''source-completed'') 128"
  "boundedText (lit ''requested'') 128"
  by (simp_all add: ex_text_simps)

lemma ex_instants [simp]:
  "instantIsValid (num n) \<longleftrightarrow> 0 \<le> n \<and> n \<le> max_safe"
  "nonNegativeSafeInteger (num n) \<longleftrightarrow> 0 \<le> n \<and> n \<le> max_safe"
  by (auto simp: instantIsValid_def nonNegativeSafeInteger_def)

lemmas ex_creation_checks = createDatasetMaterialization_def materializationIdentityIsValid_def
  materializationProgressIsValid_def terminalProofIsAbsent_def completedAtIsValid_def
  completionReasonIsValid_def coverageIsValid_def countersAreZero_def origin_is_generation_def
  capabilityMatches_def

lemma ex_create:
  "createDatasetGeneration
     \<lparr>cg_createdAt = num 1, cg_generationId = lit ''g'', cg_plan = ex_generation_plan\<rparr> =
   Some (Inr ex_planned)"
  by (simp add: createDatasetGeneration_def validateDatasetGenerationCreation_def ex_plan_valid
      ex_planned_def ex_generation_defs ex_creation_checks max_safe_def)

lemmas ex_snapshot_checks = validateDatasetGenerationSnapshot_def generationBindingMatchesPlan_def
  progressIsExact_def generationCountersAreValid_def generationCountersFitPlan_def
  generationStopIsValid_def pagesAreBound_def is_page_def dg_amountExceeds_def
  datasetGenerationAcceptedRecordLimit_def ex_plan_valid ex_creation_checks ex_generation_defs

lemma ex_budget_limit [simp]: "bl_limit ex_budget = num 20" "bl_reserved ex_budget = num 0"
  "bl_spent ex_budget = num 0" "ae_deadline ex_authority = num 100"
  by (simp_all add: ex_budget_def ex_authority_def)

lemma ex_snapshots:
  "validateDatasetGenerationSnapshot ex_planned ex_generation_plan = Inr ex_planned"
  "validateDatasetGenerationSnapshot ex_in_flight ex_generation_plan = Inr ex_in_flight"
  "validateDatasetGenerationSnapshot ex_checkpointed ex_generation_plan = Inr ex_checkpointed"
  "validateDatasetGenerationSnapshot ex_completed ex_generation_plan = Inr ex_completed"
  "validateDatasetGenerationSnapshot ex_second_in_flight ex_generation_plan = Inr ex_second_in_flight"
  "validateDatasetGenerationSnapshot ex_stopping ex_generation_plan = Inr ex_stopping"
  by (simp_all add: ex_snapshot_checks ex_planned_def ex_in_flight_def ex_checkpointed_def
      ex_completed_def ex_second_in_flight_def ex_stopping_def max_safe_def)

text \<open>The commands between them.\<close>

definition ex_authorize :: "int \<Rightarrow> authorize_page_input" where
  "ex_authorize k = \<lparr>ap_now = num 5, ap_pageSequence = num k, ap_reservedAmount = num 4,
     ap_unit = lit ''u''\<rparr>"

definition ex_checkpoint :: checkpoint_input where
  "ex_checkpoint = \<lparr>cp_accepted = num 2, cp_costAmount = num 3, cp_costUnit = lit ''u'',
     cp_duplicates = num 0, cp_pageSequence = num 1, cp_providerKey = lit ''p'',
     cp_rejected = num 0, cp_returned = num 2\<rparr>"

definition ex_complete :: complete_input where
  "ex_complete = \<lparr>ci_completedAt = num 9, ci_completionReason = Source_completed,
     ci_contentHash = ex_hash, ci_coverageStatus = Cov_complete_for_declared_source\<rparr>"

lemmas ex_commands = ex_authorize_def ex_checkpoint_def ex_complete_def ex_snapshots
  next_version_def next_revision_def

lemma ex_authorized:
  "authorizeDatasetGenerationPageEffect ex_planned ex_generation_plan (ex_authorize 1) = Inr ex_in_flight"
  unfolding authorizeDatasetGenerationPageEffect_def ex_snapshots and_then_simps
  by (simp add: ex_planned_def ex_in_flight_def ex_commands ex_snapshot_checks list_all_iff max_safe_def)

lemma ex_checkpoint_made:
  "checkpointDatasetGenerationPageProgress ex_in_flight ex_generation_plan ex_checkpoint =
   Inr ex_checkpointed"
  unfolding checkpointDatasetGenerationPageProgress_def ex_snapshots and_then_simps
  by (simp add: ex_in_flight_def ex_checkpointed_def ex_commands ex_snapshot_checks max_safe_def)

lemma ex_completion_made:
  "completeDatasetGeneration ex_checkpointed ex_generation_plan ex_complete = Inr ex_completed"
  unfolding completeDatasetGeneration_def ex_snapshots and_then_simps
  by (simp add: ex_checkpointed_def ex_completed_def ex_commands ex_snapshot_checks max_safe_def)

lemma ex_second_authorized:
  "authorizeDatasetGenerationPageEffect ex_checkpointed ex_generation_plan (ex_authorize 2) =
   Inr ex_second_in_flight"
  unfolding authorizeDatasetGenerationPageEffect_def ex_snapshots and_then_simps
  by (simp add: ex_checkpointed_def ex_second_in_flight_def ex_commands ex_snapshot_checks list_all_iff
      max_safe_def)

lemma ex_stop_made:
  "requestDatasetGenerationStop ex_second_in_flight ex_generation_plan \<lparr>gs_requestedAt = num 9\<rparr> =
   Inr ex_stopping"
  unfolding requestDatasetGenerationStop_def ex_snapshots and_then_simps
  by (simp add: ex_second_in_flight_def ex_stopping_def ex_commands ex_snapshot_checks max_safe_def)

end
