(* ===== verification/Generation_Properties.thy ===== *)
theory Generation_Properties
  imports Generation_Example Budget_Preflight_Properties
begin

text \<open>
  What the operations on a generation guarantee over every sequence of commands: a refused
  command leaves the generation as it is, as a transaction that is rolled back does.
\<close>

section \<open>Commands\<close>

datatype generation_command =
    Authorize_page authorize_page_input
  | Checkpoint_page checkpoint_input
  | Complete_generation complete_input
  | Fail_generation fail_input
  | Mark_ambiguous
  | Request_stop generation_stop
  | Cancel_after_stop js_number

fun generation_result ::
  "generation_plan \<Rightarrow> generation_creation \<Rightarrow> generation_command \<Rightarrow>
   (generation_creation, creation_failure) domain_result" where
  "generation_result plan c (Authorize_page inp) = authorizeDatasetGenerationPageEffect c plan inp"
| "generation_result plan c (Checkpoint_page inp) = checkpointDatasetGenerationPageProgress c plan inp"
| "generation_result plan c (Complete_generation inp) = completeDatasetGeneration c plan inp"
| "generation_result plan c (Fail_generation inp) = failDatasetGeneration c plan inp"
| "generation_result plan c Mark_ambiguous = markDatasetGenerationAmbiguous c plan"
| "generation_result plan c (Request_stop inp) = requestDatasetGenerationStop c plan inp"
| "generation_result plan c (Cancel_after_stop at) = cancelDatasetGenerationAfterStop c plan at"

definition generation_step ::
  "generation_plan \<Rightarrow> generation_creation \<Rightarrow> generation_command \<Rightarrow> generation_creation" where
  "generation_step plan c command =
     (case generation_result plan c command of Inl _ \<Rightarrow> c | Inr c' \<Rightarrow> c')"

definition generation_after ::
  "generation_plan \<Rightarrow> generation_creation \<Rightarrow> generation_command list \<Rightarrow> generation_creation" where
  "generation_after plan c commands = foldl (generation_step plan) c commands"

lemma generation_after_simps [simp]:
  "generation_after plan c [] = c"
  "generation_after plan c (command # commands) =
     generation_after plan (generation_step plan c command) commands"
  "generation_after plan c (commands @ [command]) =
     generation_step plan (generation_after plan c commands) command"
  by (simp_all add: generation_after_def)

text \<open>What every successful command keeps, every sequence of commands keeps.\<close>

lemma generation_after_induct:
  assumes "I c" and "list_all P commands"
    and "\<And>c command c'. I c \<Longrightarrow> P command \<Longrightarrow> generation_result plan c command = Inr c' \<Longrightarrow> I c'"
  shows "I (generation_after plan c commands)"
  using assms(1,2)
proof (induction commands arbitrary: c)
  case (Cons command commands)
  then have "I (generation_step plan c command)"
    using assms(3) by (auto simp: generation_step_def split: sum.splits)
  with Cons show ?case by simp
qed simp

abbreviation state_of :: "generation_creation \<Rightarrow> generation_state" where
  "state_of c \<equiv> gn_state (gcr_generation c)"

abbreviation counters_of :: "generation_creation \<Rightarrow> generation_counters" where
  "counters_of c \<equiv> gn_counters (gcr_generation c)"

abbreviation cost_of :: "generation_creation \<Rightarrow> generation_cost" where
  "cost_of c \<equiv> gn_cost (gcr_generation c)"

abbreviation last_page_of :: "generation_creation \<Rightarrow> js_number option" where
  "last_page_of c \<equiv> gn_lastPageSequence (gcr_generation c)"

definition snapshot_valid :: "generation_plan \<Rightarrow> generation_creation \<Rightarrow> bool" where
  "snapshot_valid plan c \<longleftrightarrow> validateDatasetGenerationSnapshot c plan = Inr c"

lemma validate_InrD: "validateDatasetGenerationSnapshot c plan = Inr c' \<Longrightarrow> c' = c"
  by (auto simp: validateDatasetGenerationSnapshot_def Let_def split: if_splits)

lemma snapshot_valid_iff:
  "snapshot_valid plan c \<longleftrightarrow>
     ok (createDatasetGenerationPlan plan) \<and>
     ok (createDatasetMaterialization (gcr_materialization c)) \<and>
     generationBindingMatchesPlan c plan \<and> progressIsExact c plan \<and>
     (state_of c = Gen_planned \<longrightarrow>
       js_eq (gn_aggregateVersion (gcr_generation c)) (num 1) \<and> countersAreZero (counters_of c) \<and>
       js_eq (gco_reserved (cost_of c)) (num 0) \<and> js_eq (gco_spent (cost_of c)) (num 0) \<and>
       js_eq (mt_revision (gcr_materialization c)) (num 1))"
  by (auto simp: snapshot_valid_def validateDatasetGenerationSnapshot_def Let_def)

lemma validated_simps [simp]:
  "validateDatasetGenerationSnapshot c plan = Inr c' \<longleftrightarrow> c' = c \<and> snapshot_valid plan c"
  using validate_InrD [of c plan c'] by (auto simp: snapshot_valid_def)

section \<open>Successful commands\<close>

lemma authorize_InrD:
  assumes "authorizeDatasetGenerationPageEffect c plan inp = Inr c'"
  shows "snapshot_valid plan c \<and> snapshot_valid plan c' \<and>
    (state_of c = Gen_planned \<or> state_of c = Gen_running) \<and> state_of c' = Gen_running \<and>
    js_eq (ap_pageSequence inp) (js_add (gc_pages (counters_of c)) (num 1)) \<and>
    is_safe_integer (ap_pageSequence inp) \<and>
    (js_eq (ap_pageSequence inp) (num 1) \<longleftrightarrow> state_of c = Gen_planned) \<and>
    isAmount (ap_reservedAmount inp) \<and>
    \<not> dg_amountExceeds (js_add (gco_spent (cost_of c)) (ap_reservedAmount inp))
        (gpl_hardExecutionCap plan) \<and>
    cost_of c' = (cost_of c)\<lparr>gco_reserved :=
      js_add (gco_reserved (cost_of c)) (ap_reservedAmount inp)\<rparr> \<and>
    counters_of c' = (counters_of c)\<lparr>gc_calls := js_add (gc_calls (counters_of c)) (num 1),
      gc_pages := js_add (gc_pages (counters_of c)) (num 1)\<rparr> \<and>
    last_page_of c' = last_page_of c \<and>
    gn_lockedProvider (gcr_generation c') = gn_lockedProvider (gcr_generation c)"
  using assms
  by (auto simp: authorizeDatasetGenerationPageEffect_def Let_def next_version_def simp del: not_all)

lemma checkpoint_InrD:
  assumes "checkpointDatasetGenerationPageProgress c plan inp = Inr c'"
  shows "snapshot_valid plan c \<and> snapshot_valid plan c' \<and>
    (state_of c = Gen_running \<or> state_of c = Gen_stopping) \<and> state_of c' = state_of c \<and>
    js_eq (gc_pages (counters_of c)) (cp_pageSequence inp) \<and>
    isAmount (cp_costAmount inp) \<and>
    \<not> dg_amountExceeds (cp_costAmount inp) (gco_reserved (cost_of c)) \<and>
    gco_reserved (cost_of c') = num 0 \<and>
    gco_spent (cost_of c') = js_add (gco_spent (cost_of c)) (cp_costAmount inp) \<and>
    gc_pages (counters_of c') = gc_pages (counters_of c) \<and>
    gc_calls (counters_of c') = gc_calls (counters_of c) \<and>
    gn_stop (gcr_generation c') = gn_stop (gcr_generation c) \<and>
    last_page_of c' = Some (cp_pageSequence inp)"
  using assms
  by (auto simp: checkpointDatasetGenerationPageProgress_def Let_def next_version_def)

lemma complete_InrD:
  assumes "completeDatasetGeneration c plan inp = Inr c'"
  shows "snapshot_valid plan c \<and> snapshot_valid plan c' \<and> state_of c = Gen_running \<and>
    state_of c' = Gen_completed \<and> js_eq (gco_reserved (cost_of c)) (num 0) \<and>
    is_page (last_page_of c) (gc_pages (counters_of c)) \<and> cost_of c' = cost_of c \<and>
    counters_of c' = counters_of c \<and> last_page_of c' = last_page_of c"
  using assms by (auto simp: completeDatasetGeneration_def Let_def next_version_def)

lemma fail_InrD:
  assumes "failDatasetGeneration c plan inp = Inr c'"
  shows "snapshot_valid plan c \<and> snapshot_valid plan c' \<and> state_of c = Gen_running \<and>
    state_of c' = Gen_failed \<and> cost_of c' = (cost_of c)\<lparr>gco_reserved := num 0\<rparr> \<and>
    counters_of c' = counters_of c \<and> last_page_of c' = last_page_of c"
  using assms by (auto simp: failDatasetGeneration_def Let_def next_version_def)

lemma ambiguous_InrD:
  assumes "markDatasetGenerationAmbiguous c plan = Inr c'"
  shows "snapshot_valid plan c \<and> snapshot_valid plan c' \<and>
    (state_of c = Gen_running \<or> state_of c = Gen_stopping) \<and>
    state_of c' = Gen_ambiguous \<and> cost_of c' = cost_of c \<and>
    counters_of c' = counters_of c \<and> last_page_of c' = last_page_of c \<and>
    gn_stop (gcr_generation c') = gn_stop (gcr_generation c)"
  using assms by (auto simp: markDatasetGenerationAmbiguous_def Let_def next_version_def)

lemma stop_InrD:
  assumes "requestDatasetGenerationStop c plan inp = Inr c'"
  shows "snapshot_valid plan c \<and> snapshot_valid plan c' \<and>
    state_of c \<notin> {Gen_ambiguous, Gen_completed, Gen_failed} \<and>
    (if state_of c = Gen_cancelled \<or> state_of c = Gen_stopping then c' = c
     else gn_stop (gcr_generation c') = Some inp \<and>
       (state_of c' = Gen_cancelled \<or>
        state_of c' = Gen_stopping \<and> state_of c = Gen_running)) \<and>
    cost_of c' = cost_of c \<and> counters_of c' = counters_of c \<and> last_page_of c' = last_page_of c"
  using assms
  by (cases "state_of c")
    (auto simp: requestDatasetGenerationStop_def Let_def next_version_def split: if_splits)

lemma cancel_InrD:
  assumes "cancelDatasetGenerationAfterStop c plan at = Inr c'"
  shows "snapshot_valid plan c \<and> snapshot_valid plan c' \<and> state_of c = Gen_stopping \<and>
    state_of c' = Gen_cancelled \<and> cost_of c' = (cost_of c)\<lparr>gco_reserved := num 0\<rparr> \<and>
    counters_of c' = counters_of c \<and> last_page_of c' = last_page_of c \<and>
    gn_stop (gcr_generation c') = gn_stop (gcr_generation c)"
  using assms
  by (auto simp: cancelDatasetGenerationAfterStop_def Let_def next_version_def split: option.splits)

lemmas command_InrD = authorize_InrD checkpoint_InrD complete_InrD fail_InrD ambiguous_InrD
  stop_InrD cancel_InrD

text \<open>Every command checks the snapshot it starts from and the one it leaves.\<close>

lemma generation_result_valid:
  "generation_result plan c command = Inr c' \<Longrightarrow> snapshot_valid plan c \<and> snapshot_valid plan c'"
  by (cases command; auto dest!: command_InrD)

section \<open>Spending\<close>

text \<open>An amount that is a whole number of units below \<open>2 ^ 49\<close>, so that sums of two are exact.\<close>

definition whole_amount :: "js_number \<Rightarrow> bool" where
  "whole_amount x \<longleftrightarrow> x = num (count x) \<and> 0 \<le> count x \<and> count x < 2 ^ 49"

lemma whole_amount_num [simp]: "whole_amount (num n) \<longleftrightarrow> 0 \<le> n \<and> n < 2 ^ 49"
  by (simp add: whole_amount_def)

lemma whole_amountE:
  assumes "whole_amount x" obtains n where "x = num n" "0 \<le> n" "n < 2 ^ 49"
  using assms unfolding whole_amount_def by blast

fun whole_command :: "generation_command \<Rightarrow> bool" where
  "whole_command (Authorize_page inp) = whole_amount (ap_reservedAmount inp)"
| "whole_command (Checkpoint_page inp) = whole_amount (cp_costAmount inp)"
| "whole_command _ = True"

lemma dg_amountExceeds_num [simp]:
  "\<bar>m\<bar> < 2 ^ 50 \<Longrightarrow> \<bar>n\<bar> < 2 ^ 50 \<Longrightarrow> dg_amountExceeds (num m) (num n) \<longleftrightarrow> n < m"
  by (auto simp: dg_amountExceeds_def)

lemma nonNegativeSafeInteger_natural: "nonNegativeSafeInteger x \<longleftrightarrow> natural x"
  by (simp add: nonNegativeSafeInteger_def natural_def)

lemma snapshot_pages:
  assumes "snapshot_valid plan c"
  shows "natural (gc_pages (counters_of c)) \<and> pagesAreBound (gcr_generation c)"
  using assms
  by (simp add: snapshot_valid_iff progressIsExact_def Let_def generationCountersAreValid_def
      nonNegativeSafeInteger_natural)

lemma is_page_unique: "is_page l (num p) \<Longrightarrow> is_page l (num q) \<Longrightarrow> p = q"
  by (auto simp: is_page_def js_eq_def split: option.splits)

lemma snapshot_last_page:
  assumes "snapshot_valid plan c" and "gc_pages (counters_of c) = num p"
  shows "0 \<le> p \<and> p \<le> max_safe \<and>
    (last_page_of c = None \<and> p \<le> 1 \<or> is_page (last_page_of c) (num p) \<or>
     is_page (last_page_of c) (num (p - 1)) \<and> state_of c \<notin> {Gen_completed, Gen_ambiguous})"
proof -
  have "natural (num p)" "pagesAreBound (gcr_generation c)"
    using snapshot_pages [OF assms(1)] assms(2) by auto
  then have p: "0 \<le> p" "p \<le> max_safe" by (auto simp: natural_def)
  then have "js_sub (num p) (num 1) = num (p - 1)"
    by (intro js_sub_num) (auto simp: max_safe_def)
  with \<open>pagesAreBound _\<close> p show ?thesis
    by (auto simp: pagesAreBound_def Let_def assms(2) split: option.splits)
qed

text \<open>Authorizing counts one page more, and none is in flight before.\<close>

lemma authorize_pages:
  assumes "authorizeDatasetGenerationPageEffect c plan inp = Inr c'"
    and "gc_pages (counters_of c) = num p"
  shows "gc_pages (counters_of c') = num (p + 1) \<and> \<not> is_page (last_page_of c') (num (p + 1)) \<and>
    (state_of c = Gen_planned \<or> is_page (last_page_of c) (num p))"
proof -
  note a = authorize_InrD [OF assms(1)]
  have before: "0 \<le> p" "last_page_of c = None \<and> p \<le> 1 \<or> is_page (last_page_of c) (num p) \<or>
      is_page (last_page_of c) (num (p - 1))"
    using snapshot_last_page [of plan c p] a assms(2) by auto
  have seq: "js_eq (ap_pageSequence inp) (js_add (num p) (num 1))" "is_safe_integer (ap_pageSequence inp)"
    "js_eq (ap_pageSequence inp) (num 1) \<longleftrightarrow> state_of c = Gen_planned"
    using a assms(2) by auto
  have "p + 1 \<le> max_safe"
  proof (rule is_safe_integerE [OF seq(2)])
    assume "ap_pageSequence inp = NegZero"
    with seq(1) have "js_le (js_add (num p) (num 1)) (num 0)"
      by (cases "js_add (num p) (num 1)") (auto simp: js_eq_def js_le_def num_def)
    then show ?thesis using js_add_large [of p 1 0] before(1) by (simp add: max_safe_def)
  next
    fix q assume q: "ap_pageSequence inp = num q" "\<bar>q\<bar> \<le> max_safe"
    with seq(1) have "js_le (js_add (num p) (num 1)) (num q)"
      by (cases "js_add (num p) (num 1)") (auto simp: js_eq_def js_le_def num_def)
    then show ?thesis using js_add_large [of p 1 q] before(1) q(2) by simp
  qed
  then have sum: "js_add (num p) (num 1) = num (p + 1)"
    using before(1) by (intro js_add_num) (simp add: max_safe_def)
  then have pages: "gc_pages (counters_of c') = num (p + 1)" using a assms(2) by simp
  have after: "last_page_of c' = None \<and> p + 1 \<le> 1 \<or> is_page (last_page_of c) (num (p + 1)) \<or>
      is_page (last_page_of c) (num p)"
    using snapshot_last_page [of plan c' "p + 1"] a pages by auto
  have first: "p = 0 \<Longrightarrow> state_of c = Gen_planned"
    using seq(1,3) sum by (cases "ap_pageSequence inp") (auto simp: js_eq_def)
  show ?thesis
    using pages before after first a
      is_page_unique [of "last_page_of c" "p + 1" p] is_page_unique [of "last_page_of c" "p + 1" "p - 1"]
    by (auto simp: is_page_def)
qed

definition spending_bounded :: "generation_plan \<Rightarrow> generation_creation \<Rightarrow> bool" where
  "spending_bounded plan c \<longleftrightarrow>
     (\<exists>s r p. gco_spent (cost_of c) = num s \<and> gco_reserved (cost_of c) = num r \<and>
        gc_pages (counters_of c) = num p \<and>
        0 \<le> s \<and> 0 \<le> r \<and> s + r \<le> count (gpl_hardExecutionCap plan) \<and>
        (state_of c = Gen_planned \<or> is_page (last_page_of c) (num p) \<longrightarrow> r = 0))"

lemma authorize_spending:
  assumes "authorizeDatasetGenerationPageEffect c plan inp = Inr c'" and "spending_bounded plan c"
    and "whole_amount (ap_reservedAmount inp)" and "whole_amount (gpl_hardExecutionCap plan)"
  shows "spending_bounded plan c'"
proof -
  obtain s r p where c: "gco_spent (cost_of c) = num s" "gco_reserved (cost_of c) = num r"
      "gc_pages (counters_of c) = num p" "0 \<le> s" "0 \<le> r" "s + r \<le> count (gpl_hardExecutionCap plan)"
      "state_of c = Gen_planned \<or> is_page (last_page_of c) (num p) \<longrightarrow> r = 0"
    using assms(2) unfolding spending_bounded_def by blast
  obtain n where n: "ap_reservedAmount inp = num n" "0 \<le> n" "n < 2 ^ 49"
    using assms(3) by (rule whole_amountE)
  obtain k where k: "gpl_hardExecutionCap plan = num k" "k < 2 ^ 49"
    using assms(4) by (rule whole_amountE)
  note a = authorize_InrD [OF assms(1)] and pages = authorize_pages [OF assms(1) c(3)]
  from pages c(7) have r: "r = 0" by blast
  have "js_add (num s) (num n) = num (s + n)" using c k n by (intro js_add_num) auto
  then have "s + n \<le> k" using a c(1,4,5,6) n k r by (auto simp: not_less)
  moreover have "gco_reserved (cost_of c') = num n"
    using a c(2) r n by simp
  moreover have "gco_spent (cost_of c') = num s" using a c(1) by simp
  moreover have "state_of c' \<noteq> Gen_planned" using a by simp
  ultimately show ?thesis
    unfolding spending_bounded_def using pages c(4) n(2) k(1) by auto
qed

lemma checkpoint_spending:
  assumes "checkpointDatasetGenerationPageProgress c plan inp = Inr c'" and "spending_bounded plan c"
    and "whole_amount (cp_costAmount inp)" and "whole_amount (gpl_hardExecutionCap plan)"
  shows "spending_bounded plan c'"
proof -
  obtain s r p where c: "gco_spent (cost_of c) = num s" "gco_reserved (cost_of c) = num r"
      "gc_pages (counters_of c) = num p" "0 \<le> s" "0 \<le> r" "s + r \<le> count (gpl_hardExecutionCap plan)"
    using assms(2) unfolding spending_bounded_def by blast
  obtain n where n: "cp_costAmount inp = num n" "0 \<le> n" "n < 2 ^ 49"
    using assms(3) by (rule whole_amountE)
  obtain k where k: "gpl_hardExecutionCap plan = num k" "k < 2 ^ 49"
    using assms(4) by (rule whole_amountE)
  note a = checkpoint_InrD [OF assms(1)]
  have "n \<le> r" using a c k n by (auto simp: not_less)
  moreover have "js_add (num s) (num n) = num (s + n)" using c k n by (intro js_add_num) auto
  ultimately show ?thesis
    unfolding spending_bounded_def using a c n by (intro exI [of _ "s + n"] exI [of _ 0] exI [of _ p]) auto
qed

lemma command_spending:
  assumes "generation_result plan c command = Inr c'" and "spending_bounded plan c"
    and "whole_command command" and "whole_amount (gpl_hardExecutionCap plan)"
  shows "spending_bounded plan c'"
proof (cases command)
  case (Authorize_page inp)
  with assms show ?thesis using authorize_spending [of c plan inp c'] by simp
next
  case (Checkpoint_page inp)
  with assms show ?thesis using checkpoint_spending [of c plan inp c'] by simp
next
  case (Complete_generation inp)
  then show ?thesis using complete_InrD [of c plan inp c'] assms by (auto simp: spending_bounded_def)
next
  case (Fail_generation inp)
  then show ?thesis using fail_InrD [of c plan inp c'] assms by (auto simp: spending_bounded_def)
next
  case Mark_ambiguous
  then show ?thesis using ambiguous_InrD [of c plan c'] assms by (auto simp: spending_bounded_def)
next
  case (Request_stop inp)
  then show ?thesis using stop_InrD [of c plan inp c'] assms
    by (auto simp: spending_bounded_def split: if_splits)
next
  case (Cancel_after_stop at)
  then show ?thesis using cancel_InrD [of c plan at c'] assms by (auto simp: spending_bounded_def)
qed

section \<open>From the creation on\<close>

lemma create_InrD:
  assumes "createDatasetGeneration inp = Some (Inr c)"
  shows "ok (createDatasetGenerationPlan (cg_plan inp)) \<and>
    ok (createDatasetMaterialization (gcr_materialization c)) \<and>
    generationBindingMatchesPlan c (cg_plan inp) \<and>
    boundedIdentity (gn_generationId (gcr_generation c)) 255 \<and>
    instantIsValid (gn_createdAt (gcr_generation c)) \<and> gn_aggregateVersion (gcr_generation c) = num 1 \<and>
    state_of c = Gen_planned \<and> gn_lockedProvider (gcr_generation c) = None \<and>
    gn_stop (gcr_generation c) = None \<and> last_page_of c = None \<and>
    gco_spent (cost_of c) = num 0 \<and> gco_reserved (cost_of c) = num 0 \<and>
    counters_of c = \<lparr>gc_accepted = num 0, gc_calls = num 0, gc_duplicates = num 0,
      gc_pages = num 0, gc_rejected = num 0, gc_returned = num 0\<rparr> \<and>
    mt_state (gcr_materialization c) = Mat_building \<and> mt_revision (gcr_materialization c) = num 1 \<and>
    mt_recordCount (gcr_materialization c) = num 0 \<and> mt_rejectedCount (gcr_materialization c) = num 0"
  using assms
  by (auto simp: createDatasetGeneration_def validateDatasetGenerationCreation_def
      generationBindingMatchesPlan_def Let_def split: sum.splits if_splits)

lemma plan_budget_valid:
  assumes "ok (createDatasetGenerationPlan plan)"
  shows "\<not> plan_budget_invalid plan" "\<not> plan_authority_invalid plan"
    "routeSnapshotsAreValid plan (gpl_requestIntent plan)"
  using assms by (auto simp: createDatasetGenerationPlan_def Let_def split: sum.splits if_splits)

text \<open>A new generation is a valid snapshot of its plan.\<close>

lemma created_snapshot_valid:
  assumes "createDatasetGeneration inp = Some (Inr c)"
  shows "snapshot_valid (cg_plan inp) c"
proof -
  note c = create_InrD [OF assms]
  have budget: "dg_limitsAreValid (gpl_limits (cg_plan inp))" "isAmount (bl_limit (gpl_budget (cg_plan inp)))"
    using plan_budget_valid(1) [of "cg_plan inp"] c
    by (auto simp: plan_budget_invalid_def budgetIsValid_def Let_def)
  then have limits: "js_ge (gpl_limits (cg_plan inp) n) (num 0)" for n
    by (cases n) (simp_all add: dg_limitsAreValid_def DATASET_GENERATION_LIMIT_NAMES_def)
  have "\<not> dg_amountExceeds (num 0) (bl_limit (gpl_budget (cg_plan inp)))"
    using budget(2) by (auto simp: dg_amountExceeds_def isAmount_iff js_lt_def num_def)
  then show ?thesis
    using c limits
    by (simp add: snapshot_valid_iff progressIsExact_def Let_def generationCountersAreValid_def
        nonNegativeSafeInteger_def generationCountersFitPlan_def generationStopIsValid_def
        pagesAreBound_def countersAreZero_def datasetGenerationAcceptedRecordLimit_def max_safe_def)
qed

lemma created_spending:
  assumes "createDatasetGeneration inp = Some (Inr c)"
    and "whole_amount (gpl_hardExecutionCap (cg_plan inp))"
  shows "spending_bounded (cg_plan inp) c"
  using create_InrD [OF assms(1)] assms(2) by (auto simp: spending_bounded_def whole_amount_def)

section \<open>Spending and completion\<close>

definition accounted :: "generation_plan \<Rightarrow> generation_creation \<Rightarrow> bool" where
  "accounted plan c \<longleftrightarrow> snapshot_valid plan c \<and>
     (state_of c = Gen_completed \<longrightarrow> js_eq (gco_reserved (cost_of c)) (num 0) \<and>
        is_page (last_page_of c) (gc_pages (counters_of c)))"

lemma command_accounted:
  assumes "generation_result plan c command = Inr c'"
  shows "accounted plan c'"
  using assms unfolding accounted_def
  by (cases command; auto dest!: command_InrD split: if_splits)

lemma generation_accounted:
  assumes "createDatasetGeneration inp = Some (Inr c)"
  shows "accounted (cg_plan inp) (generation_after (cg_plan inp) c commands)"
proof (rule generation_after_induct)
  show "accounted (cg_plan inp) c"
    using created_snapshot_valid [OF assms] create_InrD [OF assms] by (simp add: accounted_def)
  show "list_all (\<lambda>_. True) commands" by (simp add: list_all_iff)
qed (rule command_accounted)

text \<open>
  C28. With whole amounts below 2^49, whatever commands arrive in whatever order, what a
  generation has spent and what it still reserves never exceed the hard cap of its plan. At most
  one page is in flight: the pages that were authorized are at most one more than the last page
  that was checkpointed, and when that page is the last one, nothing is reserved.
\<close>

theorem generation_spending_bounded:
  assumes "createDatasetGeneration inp = Some (Inr c)"
    and "whole_amount (gpl_hardExecutionCap (cg_plan inp))" and "list_all whole_command commands"
    and "d = generation_after (cg_plan inp) c commands"
  shows "js_le (js_add (gco_reserved (cost_of d)) (gco_spent (cost_of d)))
      (gpl_hardExecutionCap (cg_plan inp)) \<and>
    (\<exists>p. gc_pages (counters_of d) = num p \<and>
       (last_page_of d = None \<and> p \<le> 1 \<or> is_page (last_page_of d) (num p) \<or>
        is_page (last_page_of d) (num (p - 1)))) \<and>
    (is_page (last_page_of d) (gc_pages (counters_of d)) \<longrightarrow> gco_reserved (cost_of d) = num 0)"
proof -
  obtain k where k: "gpl_hardExecutionCap (cg_plan inp) = num k" "k < 2 ^ 49"
    using assms(2) by (rule whole_amountE)
  have "spending_bounded (cg_plan inp) d"
    unfolding assms(4) using created_spending [OF assms(1,2)] assms(3)
    by (rule generation_after_induct) (rule command_spending, assumption+, rule assms(2))
  then obtain s r p where d: "gco_spent (cost_of d) = num s" "gco_reserved (cost_of d) = num r"
      "gc_pages (counters_of d) = num p" "0 \<le> s" "0 \<le> r" "s + r \<le> k"
      "state_of d = Gen_planned \<or> is_page (last_page_of d) (num p) \<longrightarrow> r = 0"
    unfolding spending_bounded_def k by auto
  moreover have "js_add (num r) (num s) = num (r + s)" using d k by (intro js_add_num) auto
  moreover have "last_page_of d = None \<and> p \<le> 1 \<or> is_page (last_page_of d) (num p) \<or>
      is_page (last_page_of d) (num (p - 1))"
    using generation_accounted [OF assms(1), of commands] snapshot_last_page [OF _ d(3)]
    unfolding assms(4) accounted_def by blast
  ultimately show ?thesis by (auto simp: k add.commute)
qed


text \<open>
  C29. A generation that ends completed has every page checkpointed and nothing reserved; its
  dataset is ready, with a content hash and a declared coverage; every result the provider
  returned is accepted, a duplicate or rejected; and pages, results and accepted records stay
  within the limits of the plan.
\<close>

theorem completed_generation_accounted:
  assumes "createDatasetGeneration inp = Some (Inr c)" and "plan = cg_plan inp"
    and "d = generation_after plan c commands" and "state_of d = Gen_completed"
  shows "is_page (last_page_of d) (gc_pages (counters_of d)) \<and>
    js_eq (gco_reserved (cost_of d)) (num 0) \<and>
    mt_state (gcr_materialization d) = Mat_ready \<and>
    (\<exists>h. mt_contentHash (gcr_materialization d) = Some h \<and> contentHashIsValid h) \<and>
    coverageIsValid (gcr_materialization d) \<and>
    js_eq (gc_accepted (counters_of d)) (mt_recordCount (gcr_materialization d)) \<and>
    js_eq (gc_returned (counters_of d)) (js_add (js_add (gc_accepted (counters_of d))
      (gc_duplicates (counters_of d))) (gc_rejected (counters_of d))) \<and>
    js_le (gc_pages (counters_of d)) (gpl_limits plan MaxPages) \<and>
    js_le (gc_returned (counters_of d)) (gpl_limits plan MaxResults) \<and>
    js_le (gc_accepted (counters_of d)) (datasetGenerationAcceptedRecordLimit plan)"
proof -
  have acc: "accounted plan d" using generation_accounted [OF assms(1)] assms(2,3) by simp
  then have "snapshot_valid plan d" by (simp add: accounted_def)
  then have mat: "ok (createDatasetMaterialization (gcr_materialization d))" and
    exact: "progressIsExact d plan" by (simp_all add: snapshot_valid_iff)
  then have "mt_state (gcr_materialization d) = Mat_ready"
    using assms(4) by (simp add: progressIsExact_def Let_def)
  then show ?thesis
    using mat exact acc assms(4)
    by (auto simp: accounted_def createDatasetMaterialization_def progressIsExact_def Let_def
        generationCountersFitPlan_def split: if_splits option.splits)
qed


section \<open>Stops and terminal states\<close>

definition terminal_generation :: "generation_creation \<Rightarrow> bool" where
  "terminal_generation c \<longleftrightarrow>
     state_of c \<in> {Gen_completed, Gen_failed, Gen_cancelled, Gen_ambiguous}"

lemma terminal_step: "terminal_generation c \<Longrightarrow> generation_step plan c command = c"
  by (cases command; cases "generation_result plan c command")
    (auto simp: generation_step_def terminal_generation_def dest!: command_InrD split: if_splits)

lemma terminal_generation_final:
  "terminal_generation c \<Longrightarrow> generation_after plan c commands = c"
  by (induction commands) (simp_all add: terminal_step)

definition stopped_from :: "generation_creation \<Rightarrow> generation_creation \<Rightarrow> bool" where
  "stopped_from c d \<longleftrightarrow> state_of d \<in> {Gen_stopping, Gen_cancelled, Gen_ambiguous} \<and>
     gn_stop (gcr_generation d) = gn_stop (gcr_generation c) \<and>
     gc_calls (counters_of d) = gc_calls (counters_of c) \<and>
     gc_pages (counters_of d) = gc_pages (counters_of c)"

lemma command_stopped:
  "stopped_from c d \<Longrightarrow> generation_result plan d command = Inr d' \<Longrightarrow> stopped_from c d'"
  by (cases command; auto simp: stopped_from_def dest!: command_InrD split: if_splits)

text \<open>
  Once a stop is accepted, no later command authorizes a page or calls the provider again,
  the request of the stop is kept, and the generation ends cancelled or ambiguous; from then on
  nothing changes it.
\<close>

lemma generation_stop_effective:
  assumes "requestDatasetGenerationStop c plan inp = Inr c'"
    and "d = generation_after plan c' commands"
  shows "state_of d \<in> {Gen_stopping, Gen_cancelled, Gen_ambiguous} \<and>
    gn_stop (gcr_generation d) = gn_stop (gcr_generation c') \<and>
    gc_calls (counters_of d) = gc_calls (counters_of c) \<and>
    gc_pages (counters_of d) = gc_pages (counters_of c) \<and>
    (state_of d \<noteq> Gen_stopping \<longrightarrow> generation_after plan d later = d)"
proof -
  have "stopped_from c' c'" "gc_calls (counters_of c') = gc_calls (counters_of c)"
    "gc_pages (counters_of c') = gc_pages (counters_of c)"
    using stop_InrD [OF assms(1)] by (auto simp: stopped_from_def split: if_splits)
  moreover from this(1) have "stopped_from c' d"
    unfolding assms(2) by (rule generation_after_induct [where P = "\<lambda>_. True"])
      (auto simp: list_all_iff intro: command_stopped)
  ultimately show ?thesis
    by (auto simp: stopped_from_def intro!: terminal_generation_final)
      (auto simp: terminal_generation_def)
qed


section \<open>Ambiguity\<close>

lemma safe_increment:
  assumes "is_safe_integer x" "js_ge x (num 1)" "js_lt x (num max_safe)"
  shows "is_safe_integer (js_add x (num 1)) \<and> js_ge (js_add x (num 1)) (num 1)"
proof -
  obtain n where n: "x = num n" using assms(1,2) by (auto elim!: is_safe_integerE simp: js_le_def)
  then have "1 \<le> n" "n < max_safe" using assms by simp_all
  moreover from this have "js_add (num n) (num 1) = num (n + 1)"
    by (intro js_add_num) (simp add: max_safe_def)
  ultimately show ?thesis by (simp add: n)
qed

lemma ambiguous_materialization:
  assumes "ok (createDatasetMaterialization m)" "mt_state m = Mat_building"
    and "js_lt (mt_revision m) (num max_safe)"
  shows "ok (createDatasetMaterialization ((next_revision m)\<lparr>mt_state := Mat_ambiguous\<rparr>))"
proof -
  have rev: "is_safe_integer (mt_revision m)" "js_ge (mt_revision m) (num 1)"
    using assms(1) by (auto simp: createDatasetMaterialization_def materializationProgressIsValid_def
        split: if_splits)
  have "is_safe_integer (js_add (mt_revision m) (num 1)) \<and> js_ge (js_add (mt_revision m) (num 1)) (num 1)"
    by (rule safe_increment [OF rev assms(3)])
  with assms(1,2) show ?thesis
    by (simp add: createDatasetMaterialization_def next_revision_def materializationIdentityIsValid_def
        materializationProgressIsValid_def terminalProofIsAbsent_def split: if_splits)
qed

lemma ambiguous_progress:
  assumes "progressIsExact c plan" and "state_of c = Gen_running \<or> state_of c = Gen_stopping"
    and "is_safe_integer (gn_aggregateVersion (gcr_generation c))"
    and "js_lt (gn_aggregateVersion (gcr_generation c)) (num max_safe)"
  shows "progressIsExact
      \<lparr>gcr_generation = (next_version (gcr_generation c))\<lparr>gn_state := Gen_ambiguous\<rparr>,
       gcr_materialization = (next_revision (gcr_materialization c))\<lparr>mt_state := Mat_ambiguous\<rparr>\<rparr> plan \<longleftrightarrow>
    gn_lockedProvider (gcr_generation c) = None \<or> is_page (last_page_of c) (gc_pages (counters_of c))"
proof -
  let ?g = "gcr_generation c"
  note exact = assms(1) [unfolded progressIsExact_def Let_def]
  have version: "js_ge (js_add (gn_aggregateVersion ?g) (num 1)) (num 1)"
    using exact by (intro safe_increment [THEN conjunct2] assms(3,4)) blast
  have stop: "generationStopIsValid ((next_version ?g)\<lparr>gn_state := Gen_ambiguous\<rparr>)"
    using exact assms(2) by (auto simp: generationStopIsValid_def next_version_def split: option.splits)
  have pages: "pagesAreBound ((next_version ?g)\<lparr>gn_state := Gen_ambiguous\<rparr>) \<longleftrightarrow>
      gn_lockedProvider ?g = None \<or> is_page (last_page_of c) (gc_pages (counters_of c))"
    using exact by (auto simp: pagesAreBound_def next_version_def Let_def split: option.splits)
  show ?thesis
    unfolding progressIsExact_def Let_def
    using exact version stop pages by (simp add: next_version_def next_revision_def)
qed

text \<open>
  C30. An active generation can become ambiguous exactly while its first page is in flight or
  when all its pages are checkpointed: with a later page in flight, whose effect may be
  uncertain, the code refuses the transition.
\<close>

theorem ambiguous_not_in_later_page:
  assumes "validateDatasetGenerationSnapshot c plan = Inr c"
    and "state_of c = Gen_running \<or> state_of c = Gen_stopping"
    and "is_safe_integer (gn_aggregateVersion (gcr_generation c))"
    and "js_lt (gn_aggregateVersion (gcr_generation c)) (num max_safe)"
    and "js_lt (mt_revision (gcr_materialization c)) (num max_safe)"
  shows "ok (markDatasetGenerationAmbiguous c plan) \<longleftrightarrow>
    gn_lockedProvider (gcr_generation c) = None \<or>
    is_page (last_page_of c) (gc_pages (counters_of c))"
proof -
  let ?g = "gcr_generation c" and ?m = "gcr_materialization c"
  let ?d = "\<lparr>gcr_generation = (next_version ?g)\<lparr>gn_state := Gen_ambiguous\<rparr>,
    gcr_materialization = (next_revision ?m)\<lparr>mt_state := Mat_ambiguous\<rparr>\<rparr>"
  have parts: "ok (createDatasetGenerationPlan plan)" "ok (createDatasetMaterialization ?m)"
    "generationBindingMatchesPlan c plan" "progressIsExact c plan"
    using assms(1) by (simp_all add: snapshot_valid_def [symmetric] snapshot_valid_iff)
  then have building: "mt_state ?m = Mat_building"
    using assms(2) by (auto simp only: progressIsExact_def Let_def materializationStateForGeneration.simps)
  have binding: "generationBindingMatchesPlan ?d plan"
    using parts(3) by (cases "mt_origin ?m") (auto simp: generationBindingMatchesPlan_def
        origin_is_generation_def next_version_def next_revision_def Let_def)
  have "markDatasetGenerationAmbiguous c plan = validateDatasetGenerationSnapshot ?d plan"
    using assms(2) building by (auto simp: markDatasetGenerationAmbiguous_def assms(1) Let_def)
  then have "ok (markDatasetGenerationAmbiguous c plan) \<longleftrightarrow> snapshot_valid plan ?d"
    by (simp add: ok_iff)
  also have "\<dots> \<longleftrightarrow> progressIsExact ?d plan"
    using parts(1) binding ambiguous_materialization [OF parts(2) building assms(5)]
    by (simp add: snapshot_valid_iff)
  also note ambiguous_progress [OF parts(4) assms(2-4)]
  finally show ?thesis .
qed


section \<open>On the example\<close>

lemma ex_in_flight_reached:
  "generation_after ex_generation_plan ex_planned [Authorize_page (ex_authorize 1)] = ex_in_flight"
  by (simp add: generation_step_def ex_authorized)

lemma ex_completed_reached:
  "generation_after ex_generation_plan ex_planned
     [Authorize_page (ex_authorize 1), Checkpoint_page ex_checkpoint, Complete_generation ex_complete] =
   ex_completed"
  by (simp add: generation_step_def ex_authorized ex_checkpoint_made ex_completion_made)

theorem generation_spending_bounded_witness:
  "js_le (js_add (gco_reserved (cost_of ex_in_flight)) (gco_spent (cost_of ex_in_flight))) (num 10)"
  using generation_spending_bounded [OF ex_create, of "[Authorize_page (ex_authorize 1)]" ex_in_flight]
    ex_in_flight_reached
  by (simp add: ex_authorize_def)

theorem completed_generation_accounted_witness:
  "is_page (last_page_of ex_completed) (gc_pages (counters_of ex_completed)) \<and>
   js_le (gc_accepted (counters_of ex_completed)) (num 5)"
proof -
  have "state_of ex_completed = Gen_completed" by (simp add: ex_completed_def ex_generation_def)
  moreover have "datasetGenerationAcceptedRecordLimit ex_generation_plan = num 5"
    by (simp add: datasetGenerationAcceptedRecordLimit_def Let_def)
  ultimately show ?thesis
    using completed_generation_accounted [OF ex_create _ ex_completed_reached [symmetric]]
    by (simp only: create_generation_input.simps simp_thms)
qed

theorem ambiguous_not_in_later_page_witness:
  "\<not> ok (markDatasetGenerationAmbiguous ex_second_in_flight ex_generation_plan)"
  using ambiguous_not_in_later_page [OF ex_snapshots(5)]
  by (simp add: ex_second_in_flight_def ex_generation_defs is_page_def max_safe_def)

end
