(* ===== verification/Generation_Page_Properties.thy ===== *)
theory Generation_Page_Properties
  imports Generation_Properties
begin

text \<open>
  What a plan promises to the intention it serves, and what the evidence of a page is worth
  after any sequence of commands.
\<close>

section \<open>Plans\<close>

lemma safe_not_greater:
  "is_safe_integer x \<Longrightarrow> is_safe_integer y \<Longrightarrow> \<not> js_gt x y \<Longrightarrow> js_le x y"
  by (auto simp: js_le_def not_less elim!: is_safe_integerE)

text \<open>
  A plan that is accepted stays within the intention and the authority: with whole amounts
  its hard cap is at most the budget requested and at most what the authority has left; every
  limit is at most the limit requested; it ends no later than either deadline; and every route
  reserves at most the cap for one call.
\<close>

lemma plan_within_request:
  assumes "createDatasetGenerationPlan plan = Inr plan'"
    and "intent = gpl_requestIntent plan" and "authority = gpl_authority plan"
    and "list_all whole_amount [gpl_hardExecutionCap plan, availableBudget (gpl_budget plan),
      qb_limit (gi_requestedBudget intent), availableBudget (ae_budgetLimit authority)]"
    and "list_all (\<lambda>r. whole_amount (gr_reservableUpperBound r)) (gpl_routeSnapshots plan)"
  shows "js_le (gpl_hardExecutionCap plan) (qb_limit (gi_requestedBudget intent)) \<and>
    js_le (gpl_hardExecutionCap plan) (availableBudget (ae_budgetLimit authority)) \<and>
    list_all (\<lambda>n. \<exists>r. requested_limit (gi_limits intent) n = Some r \<and> js_le (gpl_limits plan n) r)
      DATASET_GENERATION_LIMIT_NAMES \<and>
    js_le (gpl_deadline plan) (gi_requestedDeadline intent) \<and>
    js_le (gpl_deadline plan) (ae_deadline authority) \<and>
    list_all (\<lambda>r. js_le (gr_reservableUpperBound r) (gpl_hardExecutionCap plan))
      (gpl_routeSnapshots plan)"
proof -
  have accepted: "ok (createDatasetGenerationPlan plan)" using assms(1) by simp
  have budget: "\<not> plan_budget_invalid plan" and routes: "routeSnapshotsAreValid plan intent"
    using plan_budget_valid [OF accepted] by (simp_all add: assms(2))
  obtain k a q b where amounts: "gpl_hardExecutionCap plan = num k"
      "availableBudget (gpl_budget plan) = num a" "qb_limit (gi_requestedBudget intent) = num q"
      "availableBudget (ae_budgetLimit authority) = num b"
      "0 \<le> k \<and> k < 2 ^ 49 \<and> 0 \<le> a \<and> a < 2 ^ 49 \<and> 0 \<le> q \<and> q < 2 ^ 49 \<and> 0 \<le> b \<and> b < 2 ^ 49"
    using assms(4) by (auto elim!: whole_amountE)
  have "k \<le> a" "a \<le> q" "a \<le> b"
    using budget amounts by (auto simp: plan_budget_invalid_def Let_def assms(2,3) [symmetric])
  moreover have "is_safe_integer (gi_requestedDeadline intent)"
    using accepted by (auto simp: createDatasetGenerationPlan_def validateDatasetGenerationRequestIntent_def
        Let_def assms(2) split: sum.splits if_splits)
  then have "js_le (gpl_deadline plan) (gi_requestedDeadline intent)"
      "js_le (gpl_deadline plan) (ae_deadline authority)"
    using budget
    by (simp_all add: plan_budget_invalid_def Let_def assms(2,3) [symmetric] safe_not_greater)
  moreover have "list_all (\<lambda>n. \<exists>r. requested_limit (gi_limits intent) n = Some r \<and>
      js_le (gpl_limits plan n) r) DATASET_GENERATION_LIMIT_NAMES"
    using budget by (auto simp: plan_budget_invalid_def limitsDoNotExceedRequest_def Let_def
        assms(2) [symmetric] list_all_iff split: option.splits)
  moreover have "list_all (\<lambda>r. js_le (gr_reservableUpperBound r) (num k)) rs"
    if "routes_valid plan intent keys rs" and "list_all (\<lambda>r. whole_amount (gr_reservableUpperBound r)) rs"
    for keys rs
    using that
  proof (induction rs arbitrary: keys)
    case (Cons r rs)
    then obtain n where "gr_reservableUpperBound r = num n" "0 \<le> n" "n < 2 ^ 49"
      by (auto elim!: whole_amountE)
    with Cons amounts show ?case by auto
  qed simp
  ultimately show ?thesis
    using routes amounts assms(5) by (auto simp: routeSnapshotsAreValid_def)
qed

section \<open>Commands on a page\<close>

datatype page_command =
    Start_page start_page_input
  | Commit_page commit_page_input
  | Lose_page
  | Fail_page

fun page_result ::
  "generation_page \<Rightarrow> page_command \<Rightarrow> (generation_page, page_failure) domain_result" where
  "page_result page (Start_page inp) = startDatasetGenerationPage page inp"
| "page_result page (Commit_page inp) = commitDatasetGenerationPage page inp"
| "page_result page Lose_page = markDatasetGenerationPageAmbiguous page"
| "page_result page Fail_page = markDatasetGenerationPageFailed page"

definition page_step :: "generation_page \<Rightarrow> page_command \<Rightarrow> generation_page" where
  "page_step page command = (case page_result page command of Inl _ \<Rightarrow> page | Inr page' \<Rightarrow> page')"

definition page_after :: "generation_page \<Rightarrow> page_command list \<Rightarrow> generation_page" where
  "page_after page commands = foldl page_step page commands"

lemma page_after_simps [simp]:
  "page_after page [] = page"
  "page_after page (commands @ [command]) = page_step (page_after page commands) command"
  by (simp_all add: page_after_def)

definition page_valid :: "generation_page \<Rightarrow> bool" where
  "page_valid page \<longleftrightarrow> validateDatasetGenerationPageSnapshot page = Inr page"

lemma page_validated [simp]:
  "validateDatasetGenerationPageSnapshot page = Inr page' \<longleftrightarrow> page' = page \<and> page_valid page"
  by (auto simp: page_valid_def validateDatasetGenerationPageSnapshot_def split: page_state.splits if_splits)

text \<open>What no command changes: the run, the input and the place of the page.\<close>

definition page_identity :: "generation_page \<Rightarrow> jstring list \<times> js_number \<times> jstring option \<times> js_number" where
  "page_identity page =
     ([pg_workspaceId page, pg_generationId page, pg_runId page, pg_runPlanId page, pg_inputId page,
       pg_inputContentHash page], pg_pageSequence page, pg_inputCursor page, pg_createdAt page)"

text \<open>The evidence of the effect as it is started, and of the result as it is committed.\<close>

definition started_as :: "generation_page \<Rightarrow> start_page_input \<Rightarrow> bool" where
  "started_as page inp \<longleftrightarrow>
     pg_attemptId page = Some (sp_attemptId inp) \<and> pg_costUnit page = Some (sp_costUnit inp) \<and>
     pg_operationKey page = Some (sp_operationKey inp) \<and>
     pg_providerKey page = Some (sp_providerKey inp) \<and>
     pg_reservationId page = Some (sp_reservationId inp) \<and>
     pg_reservedAmount page = Some (sp_reservedAmount inp) \<and>
     pg_routeKey page = Some (sp_routeKey inp) \<and>
     pg_routeSnapshotHash page = Some (sp_routeSnapshotHash inp) \<and>
     pg_routingDecisionId page = Some (sp_routingDecisionId inp) \<and>
     pg_stepRunId page = Some (sp_stepRunId inp)"

definition committed_as :: "generation_page \<Rightarrow> commit_page_input \<Rightarrow> bool" where
  "committed_as page inp \<longleftrightarrow>
     pg_acceptedCount page = Some (cpi_acceptedCount inp) \<and>
     pg_duplicateCount page = Some (cpi_duplicateCount inp) \<and>
     pg_rejectedCount page = Some (cpi_rejectedCount inp) \<and>
     pg_returnedCount page = Some (cpi_returnedCount inp) \<and>
     pg_costAmount page = Some (cpi_costAmount inp) \<and>
     pg_hasMore page = Some (cpi_hasMore inp) \<and> pg_nextCursor page = Some (cpi_nextCursor inp) \<and>
     pg_sourcePartitionCompleted page = Some (cpi_sourcePartitionCompleted inp) \<and>
     pg_resultManifestId page = Some (cpi_resultManifestId inp) \<and>
     pg_resultManifestHash page = Some (cpi_resultManifestHash inp) \<and>
     pg_usageEntryId page = Some (cpi_usageEntryId inp)"

lemma start_page_InrD:
  assumes "startDatasetGenerationPage page inp = Inr page'"
  shows "page_valid page' \<and> pg_state page = Page_run_created \<and> pg_state page' = Page_executing \<and>
    pg_aggregateVersion page' = js_add (pg_aggregateVersion page) (num 1) \<and>
    started_as page' inp \<and> page_identity page' = page_identity page"
  using assms
  by (auto simp: startDatasetGenerationPage_def page_next_def started_as_def page_identity_def)

lemma commit_page_InrD:
  assumes "commitDatasetGenerationPage page inp = Inr page'"
  shows "page_valid page' \<and> pg_state page = Page_executing \<and> pg_state page' = Page_committed \<and>
    pg_aggregateVersion page' = js_add (pg_aggregateVersion page) (num 1) \<and>
    (\<forall>sinp. started_as page sinp \<longrightarrow> started_as page' sinp) \<and>
    committed_as page' inp \<and> page_identity page' = page_identity page"
  using assms
  by (auto simp: commitDatasetGenerationPage_def page_next_def started_as_def committed_as_def
      page_identity_def split: if_splits)

lemma end_page_InrD:
  assumes "page_result page command = Inr page'" "command = Lose_page \<or> command = Fail_page"
  shows "page_valid page' \<and> pg_state page = Page_executing \<and>
    (pg_state page' = Page_ambiguous \<or> pg_state page' = Page_failed) \<and>
    pg_aggregateVersion page' = js_add (pg_aggregateVersion page) (num 1) \<and>
    (\<forall>sinp. started_as page sinp \<longrightarrow> started_as page' sinp) \<and> page_identity page' = page_identity page"
  using assms
  by (auto simp: markDatasetGenerationPageAmbiguous_def markDatasetGenerationPageFailed_def
      page_next_def started_as_def page_identity_def split: if_splits)

text \<open>The state of a page tells its version and which commands made it.\<close>

definition page_history :: "generation_page \<Rightarrow> page_command set \<Rightarrow> generation_page \<Rightarrow> bool" where
  "page_history page\<^sub>0 commands page \<longleftrightarrow>
     page_valid page \<and> page_identity page = page_identity page\<^sub>0 \<and>
     (case pg_state page of
        Page_run_created \<Rightarrow> js_eq (pg_aggregateVersion page) (num 1)
      | Page_executing \<Rightarrow> pg_aggregateVersion page = num 2 \<and>
          (\<exists>inp. Start_page inp \<in> commands \<and> started_as page inp)
      | Page_committed \<Rightarrow> pg_aggregateVersion page = num 3 \<and>
          (\<exists>inp. Start_page inp \<in> commands \<and> started_as page inp) \<and>
          (\<exists>inp. Commit_page inp \<in> commands \<and> committed_as page inp)
      | _ \<Rightarrow> pg_aggregateVersion page = num 3 \<and>
          (\<exists>inp. Start_page inp \<in> commands \<and> started_as page inp))"

lemma page_history_mono: "page_history p0 S p \<Longrightarrow> S \<subseteq> T \<Longrightarrow> page_history p0 T p"
  unfolding page_history_def by (cases "pg_state p"; auto)

lemma first_version_exact: "js_eq x (num 1) \<Longrightarrow> x = num 1"
  by (cases x) (auto simp: js_eq_def num_def)

lemma first_version: "js_eq x (num 1) \<Longrightarrow> js_add x (num 1) = num 2"
  by (drule first_version_exact) simp

lemma page_history_step:
  assumes "page_history p0 S p" and "page_result p command = Inr p'"
  shows "page_history p0 (insert command S) p'"
proof (cases command)
  case (Start_page inp)
  then show ?thesis
    using assms start_page_InrD [of p inp p'] first_version [of "pg_aggregateVersion p"]
    by (auto simp: page_history_def; blast)
next
  case (Commit_page inp)
  then show ?thesis
    using assms commit_page_InrD [of p inp p'] by (auto simp: page_history_def; blast)
next
  case Lose_page
  then show ?thesis
    using assms end_page_InrD [of p command p'] by (auto simp: page_history_def; blast)
next
  case Fail_page
  then show ?thesis
    using assms end_page_InrD [of p command p'] by (auto simp: page_history_def; blast)
qed

lemma page_history_after:
  assumes "validateDatasetGenerationPageSnapshot p0 = Inr p0" and "pg_state p0 = Page_run_created"
  shows "page_history p0 (set commands) (page_after p0 commands)"
proof (induction commands rule: rev_induct)
  case Nil
  have "js_eq (pg_aggregateVersion p0) (num 1)"
    using assms(1) [unfolded validateDatasetGenerationPageSnapshot_def] assms(2)
    by (auto split: if_splits)
  with assms show ?case by (simp add: page_history_def)
next
  case (snoc command commands)
  then show ?case
  proof (cases "page_result (page_after p0 commands) command")
    case (Inl e)
    then show ?thesis using page_history_mono [OF snoc] by (auto simp: page_step_def)
  next
    case (Inr p')
    then show ?thesis using page_history_step [OF snoc Inr] by (simp add: page_step_def)
  qed
qed

text \<open>A started page keeps its evidence, and a page at an end refuses every command.\<close>

lemma page_started_step:
  "page_result p command = Inr p' \<Longrightarrow> pg_state p \<noteq> Page_run_created \<Longrightarrow>
   pg_state p' \<noteq> Page_run_created \<and> (\<forall>start. started_as p start \<longrightarrow> started_as p' start)"
  using start_page_InrD [of p _ p'] commit_page_InrD [of p _ p'] end_page_InrD [of p command p']
  by (cases command) auto

lemma page_started_stays:
  assumes "started_as p start" and "pg_state p \<noteq> Page_run_created"
  shows "started_as (page_after p commands) start \<and> pg_state (page_after p commands) \<noteq> Page_run_created"
proof (induction commands rule: rev_induct)
  case (snoc command commands)
  then show ?case
    using page_started_step [of "page_after p commands" command]
    by (cases "page_result (page_after p commands) command") (auto simp: page_step_def)
qed (use assms in simp)

lemma page_ended_stays:
  assumes "pg_state p \<notin> {Page_run_created, Page_executing}"
  shows "page_after p commands = p"
proof (induction commands rule: rev_induct)
  case (snoc command commands)
  have "\<exists>e. page_result p command = Inl e"
    using start_page_InrD [of p _] commit_page_InrD [of p _] end_page_InrD [of p command] assms
    by (cases "page_result p command"; cases command) auto
  then show ?case using snoc by (auto simp: page_step_def)
qed simp

text \<open>The result of a page against the effect it was started with.\<close>

definition result_accounted :: "start_page_input \<Rightarrow> commit_page_input \<Rightarrow> bool" where
  "result_accounted start commit \<longleftrightarrow>
     \<not> dg_amountExceeds (cpi_costAmount commit) (sp_reservedAmount start) \<and>
     (whole_amount (cpi_costAmount commit) \<and> whole_amount (sp_reservedAmount start) \<longrightarrow>
       js_le (cpi_costAmount commit) (sp_reservedAmount start)) \<and>
     js_eq (cpi_returnedCount commit) (js_add (js_add (cpi_acceptedCount commit)
       (cpi_duplicateCount commit)) (cpi_rejectedCount commit)) \<and>
     (cpi_hasMore commit \<longleftrightarrow> cpi_nextCursor commit \<noteq> None) \<and>
     (cpi_hasMore commit \<longleftrightarrow> \<not> cpi_sourcePartitionCompleted commit)"

lemma committed_result:
  assumes "page_valid p" and "pg_state p = Page_committed" and "started_as p start" and "committed_as p commit"
  shows "result_accounted start commit"
proof -
  have "pageResultEvidenceIsPresent p"
    using assms(1,2) unfolding page_valid_def validateDatasetGenerationPageSnapshot_def
    by (auto split: if_splits)
  moreover have "js_le x y" if "\<not> dg_amountExceeds x y" "whole_amount x" "whole_amount y" for x y
    using that by (auto elim!: whole_amountE)
  ultimately show ?thesis
    using assms(3,4) unfolding result_accounted_def
    by (auto simp: pageResultEvidenceIsPresent_def started_as_def committed_as_def
        cursor_is_coherent_def split: if_splits option.splits)
qed

text \<open>
  C32. Whatever commands reach a new page, in whatever order, its identity stays and its version
  tells what happened: 1 when nothing was started; 2 when it is executing; and 3 at an end, after
  which no command changes it any more. Once it is started, one of the start commands is the
  evidence of its effect, and no later command replaces it. When it is committed, its result is
  that of one of the commit commands: the cost does not exceed the amount reserved at the start,
  up to the tolerance of amounts and exactly for whole amounts below 2^49, every returned result
  is counted once, and a next cursor exists exactly when the source has more.
\<close>

theorem committed_page_accounted:
  assumes "validateDatasetGenerationPageSnapshot p0 = Inr p0" and "pg_state p0 = Page_run_created"
    and "p = page_after p0 commands"
  shows "page_identity p = page_identity p0 \<and>
    (pg_state p = Page_run_created \<longrightarrow> pg_aggregateVersion p = num 1) \<and>
    (pg_state p = Page_executing \<longrightarrow> pg_aggregateVersion p = num 2) \<and>
    (pg_state p \<notin> {Page_run_created, Page_executing} \<longrightarrow>
       pg_aggregateVersion p = num 3 \<and> (\<forall>later. page_after p later = p)) \<and>
    (pg_state p \<noteq> Page_run_created \<longrightarrow>
       (\<exists>start. Start_page start \<in> set commands \<and>
         (\<forall>later. started_as (page_after p later) start) \<and>
         (pg_state p = Page_committed \<longrightarrow>
           (\<exists>commit. Commit_page commit \<in> set commands \<and> committed_as p commit \<and>
             result_accounted start commit))))"
proof -
  have h: "page_history p0 (set commands) p"
    using page_history_after [OF assms(1,2)] assms(3) by simp
  then have valid: "page_valid p" "page_identity p = page_identity p0" by (simp_all add: page_history_def)
  have version: "pg_state p = Page_run_created \<Longrightarrow> pg_aggregateVersion p = num 1"
    "pg_state p = Page_executing \<Longrightarrow> pg_aggregateVersion p = num 2"
    "pg_state p \<notin> {Page_run_created, Page_executing} \<Longrightarrow> pg_aggregateVersion p = num 3"
    using h first_version_exact unfolding page_history_def by (cases "pg_state p"; auto)+
  have "\<exists>start. Start_page start \<in> set commands \<and> started_as p start \<and>
      (pg_state p = Page_committed \<longrightarrow> (\<exists>commit. Commit_page commit \<in> set commands \<and> committed_as p commit))"
    if "pg_state p \<noteq> Page_run_created"
    using h that unfolding page_history_def by (cases "pg_state p") auto
  then have effect: "\<exists>start. Start_page start \<in> set commands \<and>
         (\<forall>later. started_as (page_after p later) start) \<and>
         (pg_state p = Page_committed \<longrightarrow>
           (\<exists>commit. Commit_page commit \<in> set commands \<and> committed_as p commit \<and>
             result_accounted start commit))"
    if "pg_state p \<noteq> Page_run_created"
    using that page_started_stays [of p] committed_result [OF valid(1)] by meson
  show ?thesis
    using valid(2) version effect page_ended_stays [of p] by blast
qed

definition ex_page :: generation_page where
  "ex_page = \<lparr>pg_acceptedCount = None, pg_aggregateVersion = num 1, pg_artifactContentHash = None,
     pg_artifactId = None, pg_attemptId = None, pg_checkpointHash = None, pg_committedAt = None,
     pg_costAmount = None, pg_costUnit = None, pg_createdAt = num 1, pg_duplicateCount = None,
     pg_generationId = lit ''g'', pg_hasMore = None, pg_inputContentHash = ex_hash,
     pg_inputCursor = None, pg_inputId = lit ''i'', pg_nextCursor = None, pg_operationKey = None,
     pg_pageSequence = num 1, pg_providerKey = None, pg_rejectedCount = None,
     pg_reservationId = None, pg_reservedAmount = None, pg_resultManifestHash = None,
     pg_resultManifestId = None, pg_returnedCount = None, pg_routeKey = None,
     pg_routeSnapshotHash = None, pg_routingDecisionId = None, pg_runId = lit ''r'',
     pg_runPlanId = lit ''rp'', pg_sourcePartitionCompleted = None, pg_state = Page_run_created,
     pg_stepRunId = None, pg_usageEntryId = None, pg_workspaceId = lit ''ws''\<rparr>"

definition ex_start :: start_page_input where
  "ex_start = \<lparr>sp_attemptId = lit ''a'', sp_costUnit = lit ''u'', sp_operationKey = lit ''o'',
     sp_providerKey = lit ''p'', sp_reservationId = lit ''v'', sp_reservedAmount = num 4,
     sp_routeKey = lit ''r'', sp_routeSnapshotHash = ex_hash, sp_routingDecisionId = lit ''d'',
     sp_stepRunId = lit ''s''\<rparr>"

definition ex_commit :: commit_page_input where
  "ex_commit = \<lparr>cpi_acceptedCount = num 2, cpi_artifactContentHash = ex_hash,
     cpi_artifactId = lit ''t'', cpi_checkpointHash = ex_hash, cpi_committedAt = num 8,
     cpi_costAmount = num 3, cpi_duplicateCount = num 1, cpi_hasMore = False,
     cpi_nextCursor = None, cpi_rejectedCount = num 0, cpi_resultManifestHash = ex_hash,
     cpi_resultManifestId = lit ''m'', cpi_returnedCount = num 3,
     cpi_sourcePartitionCompleted = True, cpi_usageEntryId = lit ''e''\<rparr>"

lemma ex_short_texts [simp]:
  "boundedText [u] n \<longleftrightarrow> \<not> js_space u \<and> 1 \<le> n"
  "boundedIdentity [u] n \<longleftrightarrow> \<not> js_space u \<and> 1 \<le> n"
  by (auto simp: boundedText_def boundedIdentity_def trim_def)

lemmas ex_page_checks = validateDatasetGenerationPageSnapshot_def page_identity_valid_def
  pageEffectEvidenceIsAbsent_def pageEffectEvidenceIsPresent_def pageResultEvidenceIsAbsent_def
  pageResultEvidenceIsPresent_def defined_and_def cursor_is_coherent_def dg_amountExceeds_def
  page_next_def lit_def js_space_def

lemma ex_page_valid: "validateDatasetGenerationPageSnapshot ex_page = Inr ex_page"
  by (simp add: ex_page_def ex_page_checks) (simp add: ex_text_simps)

lemma ex_page_committed:
  "pg_state (page_after ex_page [Start_page ex_start, Commit_page ex_commit]) = Page_committed"
proof -
  let ?started = "(page_next ex_page Page_executing)
    \<lparr>pg_attemptId := Some (lit ''a''), pg_costUnit := Some (lit ''u''),
     pg_operationKey := Some (lit ''o''), pg_providerKey := Some (lit ''p''),
     pg_reservationId := Some (lit ''v''), pg_reservedAmount := Some (num 4),
     pg_routeKey := Some (lit ''r''), pg_routeSnapshotHash := Some ex_hash,
     pg_routingDecisionId := Some (lit ''d''), pg_stepRunId := Some (lit ''s'')\<rparr>"
  have started: "page_valid ?started"
    unfolding page_valid_def
    by (simp add: ex_page_def ex_page_checks) (simp add: ex_text_simps)
  have "startDatasetGenerationPage ex_page ex_start = Inr ?started"
    using started ex_page_valid by (simp add: startDatasetGenerationPage_def ex_start_def) (simp add: ex_page_def)
  moreover have "ok (commitDatasetGenerationPage ?started ex_commit)"
    unfolding commitDatasetGenerationPage_def
    using started [unfolded page_valid_def]
    by (simp only: and_then_simps)
      (simp add: ex_page_def ex_commit_def ex_page_checks, simp add: ex_text_simps)
  ultimately show ?thesis
    using commit_page_InrD [of ?started ex_commit]
    by (auto simp: page_after_def page_step_def ok_iff split: sum.splits)
qed

theorem committed_page_accounted_witness:
  "pg_aggregateVersion (page_after ex_page [Start_page ex_start, Commit_page ex_commit]) = num 3"
  using committed_page_accounted [OF ex_page_valid _ refl, of "[Start_page ex_start, Commit_page ex_commit]"]
    ex_page_committed
  by (simp add: ex_page_def)

end
