(* ===== verification/Js_Value.thy ===== *)
theory Js_Value
  imports Product Number_Text Json
begin

text \<open>
  Values that arrive with no type that the code could trust: data of any shape, and what the
  operators of the language that the code applies to them do. An object is the list of its own
  properties with their values, in their order; properties that are accessors or have symbols
  as keys are left out. A function is its source text.
\<close>

datatype js_value =
    V_undefined
  | V_null
  | V_boolean bool
  | V_number js_number
  | V_bigint int
  | V_string jstring
  | V_symbol
  | V_function jstring
  | V_array "js_value list"
  | V_object "(jstring \<times> js_value) list"

definition own_property_list :: "js_value \<Rightarrow> (jstring \<times> js_value) list" where
  "own_property_list v = (case v of V_object kvs \<Rightarrow> kvs | _ \<Rightarrow> [])"

text \<open>\<open>typeof v === "object" && v !== null && !Array.isArray(v)\<close>\<close>

definition is_plain_object :: "js_value \<Rightarrow> bool" where
  "is_plain_object v = (case v of V_object _ \<Rightarrow> True | _ \<Rightarrow> False)"

text \<open>\<open>v[k]\<close> for an own property of an object, \<open>undefined\<close> when it has none.\<close>

definition member_value :: "js_value \<Rightarrow> jstring \<Rightarrow> js_value" where
  "member_value v k = (case map_of (own_property_list v) k of None \<Rightarrow> V_undefined | Some w \<Rightarrow> w)"

text \<open>The results of a callback on every element, unless one throws.\<close>

fun all_some :: "'a option list \<Rightarrow> 'a list option" where
  "all_some [] = Some []"
| "all_some (x # xs) = (case x of None \<Rightarrow> None | Some t \<Rightarrow> map_option (Cons t) (all_some xs))"

lemma all_some_map:
  "all_some (map (\<lambda>x. if P x then Some (f x) else None) xs) =
   (if list_all P xs then Some (map f xs) else None)"
  by (induction xs) auto

text \<open>
  \<open>String(v)\<close> as a pattern applies it; \<open>None\<close> when it throws. The elements of an array are
  joined, without those that are null or undefined. An object has no text of its own, and one
  with a property \<open>toString\<close>, which no data defines as a function, cannot be converted.
\<close>

definition bigint_text :: "int \<Rightarrow> jstring" where
  "bigint_text i = (if i < 0 then 45 # nat_text (nat (- i)) else nat_text (nat i))"

fun to_text :: "js_value \<Rightarrow> jstring option" where
  "to_text V_undefined = Some (lit ''undefined'')"
| "to_text V_null = Some (lit ''null'')"
| "to_text (V_boolean b) = Some (if b then lit ''true'' else lit ''false'')"
| "to_text (V_number x) = Some (number_text x)"
| "to_text (V_bigint i) = Some (bigint_text i)"
| "to_text (V_string s) = Some s"
| "to_text V_symbol = None"
| "to_text (V_function source) = Some source"
| "to_text (V_array vs) =
     map_option (join [44])
       (all_some (map (\<lambda>v. if v = V_null \<or> v = V_undefined then Some [] else to_text v) vs))"
| "to_text (V_object kvs) =
     (if lit ''toString'' \<in> fst ` set kvs then None else Some (lit ''[object Object]''))"

text \<open>Names are told apart as they are written.\<close>

lemma lit_inject [simp]: "lit s = lit t \<longleftrightarrow> s = t"
proof -
  have "inj (\<lambda>c. word_of_nat (of_char c) :: code_unit)"
  proof (rule injI)
    fix c d :: char
    assume "(word_of_nat (of_char c) :: code_unit) = word_of_nat (of_char d)"
    then have "unat (word_of_nat (of_char c) :: code_unit) = unat (word_of_nat (of_char d) :: code_unit)"
      by (rule arg_cong)
    moreover have "unat (word_of_nat (of_char e) :: code_unit) = of_char e" for e :: char
      by (simp add: unat_of_nat mod_less less_trans [OF nat_of_char_less_256 [of e]])
    ultimately have "(of_char c :: nat) = of_char d" by (simp only:)
    then show "c = d" by simp
  qed
  then show ?thesis by (simp add: lit_def inj_map_eq_map)
qed

end
