(* ===== verification/Contact_Sourcing.thy ===== *)
theory Contact_Sourcing
  imports Js_Value "HOL-Library.Monad_Syntax"
begin

text \<open>
  \<open>kernel/src/contact-sourcing.ts\<close>: the checks of contacts, of the identities that providers
  give them, of the operations that reveal identities or resolve work e-mails, and the step that
  reveals an obfuscated contact. The functions that inspect the shape of their argument take a
  value of unknown type; their result is \<open>None\<close> when they throw. \<open>new URL\<close> and the case tables
  of \<open>toLowerCase\<close> belong to the platform and are arguments.
\<close>

section \<open>Patterns\<close>

definition alnum :: "code_unit \<Rightarrow> bool" where
  "alnum u \<longleftrightarrow> lower u \<or> digit u"

text \<open>\<open>/^[a-z0-9](?:[a-z0-9.-]*[a-z0-9])?$/u\<close>\<close>

definition DOMAIN_PATTERN :: "jstring \<Rightarrow> bool" where
  "DOMAIN_PATTERN s \<longleftrightarrow>
     s \<noteq> [] \<and> alnum (hd s) \<and> alnum (last s) \<and> list_all (\<lambda>u. alnum u \<or> u = 46 \<or> u = 45) s"

text \<open>\<open>/^[A-Z]{2}$/u\<close>\<close>

definition COUNTRY_PATTERN :: "jstring \<Rightarrow> bool" where
  "COUNTRY_PATTERN s \<longleftrightarrow> length s = 2 \<and> list_all (\<lambda>u. 65 \<le> u \<and> u \<le> 90) s"

text \<open>\<open>/^[a-z][a-z0-9._-]{0,127}$/u\<close>\<close>

definition TAXONOMY_PATTERN :: "jstring \<Rightarrow> bool" where
  "TAXONOMY_PATTERN s \<longleftrightarrow>
     (case s of [] \<Rightarrow> False
      | u # t \<Rightarrow> lower u \<and> length t \<le> 127 \<and>
          list_all (\<lambda>c. alnum c \<or> c = 46 \<or> c = 95 \<or> c = 45) t)"

text \<open>\<open>/^[^\s@]+@[^\s@]+$/u\<close>: the at sign that may not occur elsewhere is the first.\<close>

definition EMAIL_PATTERN :: "jstring \<Rightarrow> bool" where
  "EMAIL_PATTERN s \<longleftrightarrow>
     (let user = takeWhile (\<lambda>u. u \<noteq> 64) s; rest = dropWhile (\<lambda>u. u \<noteq> 64) s
      in user \<noteq> [] \<and> rest \<noteq> [] \<and> tl rest \<noteq> [] \<and> list_all (\<lambda>u. \<not> js_space u) user \<and>
         list_all (\<lambda>u. \<not> js_space u \<and> u \<noteq> 64) (tl rest))"

text \<open>A pattern applied to a value of any type is applied to its text.\<close>

definition pattern_test :: "(jstring \<Rightarrow> bool) \<Rightarrow> js_value \<Rightarrow> bool option" where
  "pattern_test pattern v = map_option pattern (to_text v)"


section \<open>Shapes\<close>

definition CONTACT_CANDIDATE_KEYS :: "jstring list" where
  "CONTACT_CANDIDATE_KEYS =
     [lit ''contactId'', lit ''department'', lit ''displayName'', lit ''identityCompleteness'',
      lit ''jobTitle'', lit ''observedAt'', lit ''organizationDomain'', lit ''organizationId'',
      lit ''organizationName'', lit ''personCountryCode'', lit ''profileUrl'', lit ''seniority'']"

definition CONTACT_PROVIDER_IDENTITY_KEYS :: "jstring list" where
  "CONTACT_PROVIDER_IDENTITY_KEYS = [lit ''providerKey'', lit ''providerSubjectId'']"

definition INTERNAL_CONTACT_CANDIDATE_KEYS :: "jstring list" where
  "INTERNAL_CONTACT_CANDIDATE_KEYS = [lit ''candidate'', lit ''providerIdentity'']"

definition CONTACT_IDENTITY_RESOLUTION_KEYS :: "jstring list" where
  "CONTACT_IDENTITY_RESOLUTION_KEYS =
     [lit ''displayName'', lit ''firstName'', lit ''identityCompleteness'', lit ''lastName'',
      lit ''observedAt'', lit ''profileUrl'']"

definition CONTACT_IDENTITY_OPERATION_KEYS :: "jstring list" where
  "CONTACT_IDENTITY_OPERATION_KEYS =
     [lit ''authorityEnvelopeId'', lit ''budget'', lit ''contactDatasetId'', lit ''contactRecordIds'',
      lit ''deadline'', lit ''kind'', lit ''operationId'', lit ''state'', lit ''workspaceId'']"

definition CONTACT_OPERATION_BUDGET_KEYS :: "jstring list" where
  "CONTACT_OPERATION_BUDGET_KEYS = [lit ''limit'', lit ''unit'']"

datatype contact_failure =
    Contact_candidate_invalid | Contact_identity_invalid | Contact_identity_state_invalid
  | Contact_provider_identity_invalid | Contact_selection_invalid | Work_email_invalid

type_synonym 'a contact_result = "('a, contact_failure) domain_result"

definition bounded :: "js_value \<Rightarrow> nat \<Rightarrow> bool" where
  "bounded v maximum =
     (case v of V_string s \<Rightarrow> length (trim s) > 0 \<and> code_points s \<le> maximum | _ \<Rightarrow> False)"

definition boundedTrimmed :: "js_value \<Rightarrow> nat \<Rightarrow> bool" where
  "boundedTrimmed v maximum \<longleftrightarrow>
     bounded v maximum \<and> (case v of V_string s \<Rightarrow> s = trim s | _ \<Rightarrow> False)"

definition hasExactOwnKeys :: "js_value \<Rightarrow> jstring list \<Rightarrow> bool" where
  "hasExactOwnKeys v expectedKeys \<longleftrightarrow>
     length (own_property_list v) = length expectedKeys \<and>
     list_all (\<lambda>(k, _). k \<in> set expectedKeys) (own_property_list v)"

text \<open>\<open>Number.isSafeInteger(v) && v >= 0\<close>, and \<open>Number.isFinite(v) && v > 0\<close>.\<close>

definition is_time :: "js_value \<Rightarrow> bool" where
  "is_time v = (case v of V_number x \<Rightarrow> is_safe_integer x \<and> \<not> js_lt x (num 0) | _ \<Rightarrow> False)"

definition is_positive :: "js_value \<Rightarrow> bool" where
  "is_positive v = (case v of V_number x \<Rightarrow> is_finite x \<and> \<not> js_le x (num 0) | _ \<Rightarrow> False)"

record url_parts =
  url_protocol :: jstring
  url_hostname :: jstring
  url_username :: jstring
  url_password :: jstring
  url_port :: jstring

type_synonym url_parser = "jstring \<Rightarrow> url_parts option"

definition secureHttpsUrl :: "url_parser \<Rightarrow> jstring \<Rightarrow> bool" where
  "secureHttpsUrl parse_url s =
     (case parse_url s of
        None \<Rightarrow> False
      | Some url \<Rightarrow>
          url_protocol url = lit ''https:'' \<and> length (url_hostname url) > 0 \<and>
          length (url_username url) = 0 \<and> length (url_password url) = 0 \<and>
          length (url_port url) = 0)"

definition contactSeniorityIsValid :: "js_value \<Rightarrow> bool" where
  "contactSeniorityIsValid v \<longleftrightarrow>
     v \<in> {V_null, V_string (lit ''owner''), V_string (lit ''c_suite''), V_string (lit ''vp''),
       V_string (lit ''director''), V_string (lit ''manager''), V_string (lit ''senior''),
       V_string (lit ''individual_contributor'')}"


section \<open>Contacts\<close>

text \<open>\<open>v !== null && !PATTERN.test(v)\<close>, which throws when the value has no text.\<close>

definition violates :: "(jstring \<Rightarrow> bool) \<Rightarrow> js_value \<Rightarrow> bool option" where
  "violates pattern v = (if v = V_null then Some False else map_option Not (pattern_test pattern v))"

definition profile_url_invalid :: "js_value \<Rightarrow> bool" where
  "profile_url_invalid v \<longleftrightarrow>
     v \<noteq> V_null \<and>
     \<not> (bounded v 2048 \<and>
        (case v of V_string s \<Rightarrow> take 8 s = lit ''https://'' | _ \<Rightarrow> False))"

definition select_keys :: "js_value \<Rightarrow> jstring list \<Rightarrow> js_value" where
  "select_keys v keys = V_object (map (\<lambda>k. (k, member_value v k)) keys)"

definition createContactCandidate :: "js_value \<Rightarrow> js_value contact_result option" where
  "createContactCandidate candidate =
     (let field = (\<lambda>name. member_value candidate (lit name))
      in if \<not> is_plain_object candidate \<or>
          \<not> hasExactOwnKeys candidate CONTACT_CANDIDATE_KEYS \<or>
          \<not> (bounded (field ''contactId'') 255 \<and> bounded (field ''displayName'') 255 \<and>
             bounded (field ''jobTitle'') 255 \<and> bounded (field ''organizationId'') 255 \<and>
             bounded (field ''organizationName'') 255 \<and> bounded (field ''organizationDomain'') 253 \<and>
             pattern_test DOMAIN_PATTERN (field ''organizationDomain'') = Some True \<and>
             is_time (field ''observedAt''))
         then Some (fail Contact_candidate_invalid)
         else if field ''identityCompleteness'' \<noteq> V_string (lit ''full'') \<and>
             field ''identityCompleteness'' \<noteq> V_string (lit ''obfuscated'')
         then Some (fail Contact_candidate_invalid)
         else do {
           department \<leftarrow> violates TAXONOMY_PATTERN (field ''department'');
           country \<leftarrow> (if department then Some False
             else violates COUNTRY_PATTERN (field ''personCountryCode''));
           Some (if department \<or> country \<or> profile_url_invalid (field ''profileUrl'') \<or>
                  \<not> contactSeniorityIsValid (field ''seniority'')
             then fail Contact_candidate_invalid
             else succeed (select_keys candidate CONTACT_CANDIDATE_KEYS))
         })"

definition createContactProviderIdentity :: "js_value \<Rightarrow> js_value contact_result option" where
  "createContactProviderIdentity identity =
     (if \<not> is_plain_object identity \<or> \<not> hasExactOwnKeys identity CONTACT_PROVIDER_IDENTITY_KEYS
      then Some (fail Contact_provider_identity_invalid)
      else do {
        key \<leftarrow> pattern_test TAXONOMY_PATTERN (member_value identity (lit ''providerKey''));
        Some (if \<not> key \<or> \<not> boundedTrimmed (member_value identity (lit ''providerSubjectId'')) 512
          then fail Contact_provider_identity_invalid
          else succeed (select_keys identity CONTACT_PROVIDER_IDENTITY_KEYS))
      })"

text \<open>The first and the last name with a space between them.\<close>

definition full_name :: "js_value \<Rightarrow> js_value \<Rightarrow> js_value" where
  "full_name firstName lastName =
     (case (firstName, lastName) of (V_string a, V_string b) \<Rightarrow> V_string (a @ 32 # b) | _ \<Rightarrow> V_undefined)"

definition resolution_url_invalid :: "url_parser \<Rightarrow> js_value \<Rightarrow> bool" where
  "resolution_url_invalid parse_url v \<longleftrightarrow>
     v \<noteq> V_null \<and>
     \<not> (boundedTrimmed v 2048 \<and>
        (case v of V_string s \<Rightarrow> secureHttpsUrl parse_url s | _ \<Rightarrow> False))"

definition createContactIdentityResolution :: "url_parser \<Rightarrow> js_value \<Rightarrow> js_value contact_result" where
  "createContactIdentityResolution parse_url inp =
     (let field = (\<lambda>name. member_value inp (lit name))
      in if \<not> is_plain_object inp \<or>
          \<not> hasExactOwnKeys inp CONTACT_IDENTITY_RESOLUTION_KEYS \<or>
          \<not> boundedTrimmed (field ''firstName'') 128 \<or>
          \<not> boundedTrimmed (field ''lastName'') 128 \<or>
          \<not> boundedTrimmed (field ''displayName'') 255 \<or>
          field ''displayName'' \<noteq> full_name (field ''firstName'') (field ''lastName'') \<or>
          field ''identityCompleteness'' \<noteq> V_string (lit ''full'') \<or>
          \<not> is_time (field ''observedAt'') \<or>
          resolution_url_invalid parse_url (field ''profileUrl'')
         then fail Contact_identity_invalid
         else succeed inp)"

text \<open>One to three distinct records; what is compared before its type is checked is refused then.\<close>

definition record_selection_invalid :: "js_value \<Rightarrow> bool" where
  "record_selection_invalid v =
     (case v of
        V_array ids \<Rightarrow>
          length ids < 1 \<or> length ids > 3 \<or> set_size ids \<noteq> length ids \<or>
          list_ex (\<lambda>i. \<not> boundedTrimmed i 255) ids
      | _ \<Rightarrow> True)"

definition createContactIdentityOperation :: "js_value \<Rightarrow> js_value contact_result option" where
  "createContactIdentityOperation inp =
     (let field = (\<lambda>name. member_value inp (lit name)); budget = field ''budget''
      in if \<not> is_plain_object inp \<or>
          \<not> hasExactOwnKeys inp CONTACT_IDENTITY_OPERATION_KEYS \<or>
          \<not> is_plain_object budget \<or>
          \<not> hasExactOwnKeys budget CONTACT_OPERATION_BUDGET_KEYS \<or>
          \<not> boundedTrimmed (field ''authorityEnvelopeId'') 255 \<or>
          \<not> boundedTrimmed (field ''contactDatasetId'') 255 \<or>
          \<not> boundedTrimmed (field ''workspaceId'') 255 \<or>
          \<not> boundedTrimmed (field ''operationId'') 512 \<or>
          field ''kind'' \<noteq> V_string (lit ''reveal'') \<or>
          field ''state'' \<notin> {V_string (lit ''planned''), V_string (lit ''running''),
            V_string (lit ''completed''), V_string (lit ''failed''), V_string (lit ''ambiguous'')} \<or>
          record_selection_invalid (field ''contactRecordIds'') \<or>
          \<not> is_positive (member_value budget (lit ''limit''))
         then Some (fail Contact_selection_invalid)
         else do {
           unit \<leftarrow> pattern_test TAXONOMY_PATTERN (member_value budget (lit ''unit''));
           Some (if \<not> unit \<or> \<not> is_time (field ''deadline'')
             then fail Contact_selection_invalid else succeed inp)
         })"

text \<open>The copy of an object with the members of another written over it.\<close>

definition write_members :: "js_value \<Rightarrow> (jstring \<times> js_value) list \<Rightarrow> js_value" where
  "write_members v kvs = V_object (fold (\<lambda>(k, w). map_set k w) kvs (own_property_list v))"

definition revealContactCandidateIdentity ::
  "url_parser \<Rightarrow> js_value \<Rightarrow> js_value \<Rightarrow> js_value contact_result option" where
  "revealContactCandidateIdentity parse_url contact resolution =
     (if \<not> is_plain_object contact \<or> \<not> hasExactOwnKeys contact INTERNAL_CONTACT_CANDIDATE_KEYS
      then Some (fail Contact_candidate_invalid)
      else do {
        candidate \<leftarrow> createContactCandidate (member_value contact (lit ''candidate''));
        (case candidate of
           Inl e \<Rightarrow> Some (Inl e)
         | Inr candidate \<Rightarrow> do {
             providerIdentity \<leftarrow>
               createContactProviderIdentity (member_value contact (lit ''providerIdentity''));
             (case providerIdentity of
                Inl e \<Rightarrow> Some (Inl e)
              | Inr providerIdentity \<Rightarrow>
                  if member_value candidate (lit ''identityCompleteness'') \<noteq>
                      V_string (lit ''obfuscated'')
                  then Some (fail Contact_identity_state_invalid)
                  else (case createContactIdentityResolution parse_url resolution of
                      Inl e \<Rightarrow> Some (Inl e)
                    | Inr identity \<Rightarrow> do {
                        revealed \<leftarrow> createContactCandidate (write_members candidate
                          [(lit ''displayName'', member_value identity (lit ''displayName'')),
                           (lit ''identityCompleteness'', V_string (lit ''full'')),
                           (lit ''profileUrl'', member_value identity (lit ''profileUrl''))]);
                        Some (case revealed of
                            Inl _ \<Rightarrow> fail Contact_identity_invalid
                          | Inr revealed \<Rightarrow>
                              if member_value revealed (lit ''identityCompleteness'') \<noteq>
                                  V_string (lit ''full'')
                              then fail Contact_identity_invalid
                              else succeed (V_object
                                [(lit ''candidate'', revealed), (lit ''identity'', identity),
                                 (lit ''providerIdentity'', providerIdentity)]))
                      }))
           })
      })"


section \<open>Work e-mails\<close>

datatype work_email_source = Source_inferred | Source_public | Source_provider_unspecified

datatype work_email_status = Email_accept_all | Email_invalid | Email_unknown | Email_valid

datatype work_email_operation_kind = Kind_resolve | Kind_verify

datatype contact_operation_state =
    Operation_planned | Operation_running | Operation_completed | Operation_failed
  | Operation_ambiguous

record work_email_resolution =
  wer_confidence :: "js_number option"
  wer_email :: jstring
  wer_observedAt :: js_number
  wer_source :: work_email_source
  wer_verification :: work_email_status

record work_email_operation =
  weo_budget_limit :: js_number
  weo_budget_unit :: jstring
  weo_contactDatasetId :: jstring
  weo_contactRecordIds :: "jstring list"
  weo_deadline :: js_number
  weo_kind :: work_email_operation_kind
  weo_operationId :: jstring
  weo_state :: contact_operation_state
  weo_workspaceId :: jstring

definition createContactWorkEmailOperation ::
  "work_email_operation \<Rightarrow> work_email_operation contact_result" where
  "createContactWorkEmailOperation inp =
     (if \<not> bounded (V_string (weo_operationId inp)) 512 \<or>
         length (weo_contactRecordIds inp) < 1 \<or> length (weo_contactRecordIds inp) > 3 \<or>
         set_size (weo_contactRecordIds inp) \<noteq> length (weo_contactRecordIds inp) \<or>
         list_ex (\<lambda>i. \<not> bounded (V_string i) 255) (weo_contactRecordIds inp) \<or>
         \<not> is_positive (V_number (weo_budget_limit inp)) \<or>
         \<not> TAXONOMY_PATTERN (weo_budget_unit inp) \<or>
         \<not> is_time (V_number (weo_deadline inp))
      then fail Contact_selection_invalid
      else succeed inp)"

definition confidence_invalid :: "js_number option \<Rightarrow> bool" where
  "confidence_invalid confidence =
     (case confidence of
        None \<Rightarrow> False
      | Some x \<Rightarrow> \<not> is_finite x \<or> js_lt x (num 0) \<or> js_lt (num 1) x)"

definition createContactWorkEmailResolution ::
  "(jstring \<Rightarrow> jstring) \<Rightarrow> work_email_resolution \<Rightarrow> work_email_resolution contact_result" where
  "createContactWorkEmailResolution toLowerCase inp =
     (let email = toLowerCase (trim (wer_email inp))
      in if length email > 320 \<or> \<not> EMAIL_PATTERN email \<or> confidence_invalid (wer_confidence inp) \<or>
          \<not> is_time (V_number (wer_observedAt inp))
         then fail Work_email_invalid
         else succeed (inp\<lparr>wer_email := email\<rparr>))"

end
