(* ===== verification/Contact_Properties.thy ===== *)
theory Contact_Properties
  imports Contact_Sourcing
begin

text \<open>
  What the checks of \<open>Contact_Sourcing\<close> promise: an accepted contact is accepted unchanged when
  it is checked again, and revealing an identity changes what it says and nothing else, once.
\<close>

section \<open>Contacts\<close>

lemma map_of_map_keys: "map_of (map (\<lambda>k. (k, f k)) ks) k = (if k \<in> set ks then Some (f k) else None)"
  by (induction ks) auto

lemma member_select: "member_value (select_keys v keys) k = (if k \<in> set keys then member_value v k else V_undefined)"
  by (simp add: member_value_def select_keys_def own_property_list_def map_of_map_keys)

lemma select_shape:
  "is_plain_object (select_keys v keys)" "hasExactOwnKeys (select_keys v keys) keys"
  by (simp_all add: is_plain_object_def hasExactOwnKeys_def select_keys_def own_property_list_def
      list_all_iff)

lemma select_again:
  "(\<And>k. k \<in> set keys \<Longrightarrow> member_value w k = member_value v k) \<Longrightarrow> select_keys w keys = select_keys v keys"
  by (simp add: select_keys_def)

text \<open>The check depends on the members of the twelve names only.\<close>

definition candidate_fields_valid :: "js_value \<Rightarrow> bool" where
  "candidate_fields_valid v \<longleftrightarrow>
     (let field = (\<lambda>name. member_value v (lit name))
      in bounded (field ''contactId'') 255 \<and> bounded (field ''displayName'') 255 \<and>
         bounded (field ''jobTitle'') 255 \<and> bounded (field ''organizationId'') 255 \<and>
         bounded (field ''organizationName'') 255 \<and> bounded (field ''organizationDomain'') 253 \<and>
         pattern_test DOMAIN_PATTERN (field ''organizationDomain'') = Some True \<and>
         is_time (field ''observedAt'') \<and>
         field ''identityCompleteness'' \<in> {V_string (lit ''full''), V_string (lit ''obfuscated'')} \<and>
         violates TAXONOMY_PATTERN (field ''department'') = Some False \<and>
         violates COUNTRY_PATTERN (field ''personCountryCode'') = Some False \<and>
         \<not> profile_url_invalid (field ''profileUrl'') \<and>
         contactSeniorityIsValid (field ''seniority''))"

lemma candidate_accepted:
  "createContactCandidate v = Some (Inr w) \<longleftrightarrow>
   is_plain_object v \<and> hasExactOwnKeys v CONTACT_CANDIDATE_KEYS \<and> candidate_fields_valid v \<and>
   w = select_keys v CONTACT_CANDIDATE_KEYS"
  by (auto simp: createContactCandidate_def candidate_fields_valid_def Let_def bind_eq_Some_conv
      split: if_splits)

lemma contact_names:
  "lit name \<in> set CONTACT_CANDIDATE_KEYS"
  if "name \<in> {''contactId'', ''department'', ''displayName'', ''identityCompleteness'', ''jobTitle'',
    ''observedAt'', ''organizationDomain'', ''organizationId'', ''organizationName'',
    ''personCountryCode'', ''profileUrl'', ''seniority''}"
  using that by (auto simp: CONTACT_CANDIDATE_KEYS_def)

lemma candidate_selected:
  "candidate_fields_valid (select_keys v CONTACT_CANDIDATE_KEYS) = candidate_fields_valid v"
  by (simp add: candidate_fields_valid_def member_select contact_names)

lemma candidate_again:
  "createContactCandidate v = Some (Inr w) \<Longrightarrow> createContactCandidate w = Some (Inr w)"
  by (auto simp: candidate_accepted select_shape candidate_selected intro: select_again
      simp: member_select)

lemma provider_accepted:
  "createContactProviderIdentity v = Some (Inr w) \<longleftrightarrow>
   is_plain_object v \<and> hasExactOwnKeys v CONTACT_PROVIDER_IDENTITY_KEYS \<and>
   pattern_test TAXONOMY_PATTERN (member_value v (lit ''providerKey'')) = Some True \<and>
   boundedTrimmed (member_value v (lit ''providerSubjectId'')) 512 \<and>
   w = select_keys v CONTACT_PROVIDER_IDENTITY_KEYS"
  by (auto simp: createContactProviderIdentity_def bind_eq_Some_conv split: if_splits)

lemma provider_again:
  "createContactProviderIdentity v = Some (Inr w) \<Longrightarrow> createContactProviderIdentity w = Some (Inr w)"
  by (auto simp: provider_accepted select_shape member_select CONTACT_PROVIDER_IDENTITY_KEYS_def
      intro: select_again)



section \<open>Revealing\<close>

lemma member_write:
  "distinct (map fst kvs) \<Longrightarrow> member_value (write_members v kvs) k =
   (case map_of kvs k of Some w \<Rightarrow> w | None \<Rightarrow> member_value v k)"
proof -
  have "map_get (fold (\<lambda>(k, w). map_set k w) kvs m) k =
      (case map_of kvs k of Some w \<Rightarrow> Some w | None \<Rightarrow> map_get m k)"
    if "distinct (map fst kvs)" for m
    using that
  proof (induction kvs arbitrary: m)
    case (Cons kv kvs)
    obtain l u where kv: "kv = (l, u)" by (cases kv)
    have none: "map_of kvs l = None" using Cons.prems by (simp add: kv map_of_eq_None_iff)
    have "map_get (fold (\<lambda>(k, w). map_set k w) kvs (map_set l u m)) k =
        (case map_of kvs k of Some w \<Rightarrow> Some w | None \<Rightarrow> map_get (map_set l u m) k)"
      using Cons.prems by (intro Cons.IH) simp
    then show ?case by (cases "k = l") (auto simp: kv none js_map_simps split: option.split)
  qed simp
  moreover assume "distinct (map fst kvs)"
  ultimately show ?thesis
    by (simp add: member_value_def write_members_def own_property_list_def map_get_def
        split: option.split)
qed

text \<open>The three members that revealing writes.\<close>

definition revealed_members :: "js_value \<Rightarrow> (jstring \<times> js_value) list" where
  "revealed_members identity =
     [(lit ''displayName'', member_value identity (lit ''displayName'')),
      (lit ''identityCompleteness'', V_string (lit ''full'')),
      (lit ''profileUrl'', member_value identity (lit ''profileUrl''))]"

lemma reveal_accepted:
  assumes "revealContactCandidateIdentity parse_url contact resolution = Some (Inr w)"
  obtains candidate revealed providerIdentity where
    "createContactCandidate (member_value contact (lit ''candidate'')) = Some (Inr candidate)"
    "createContactProviderIdentity (member_value contact (lit ''providerIdentity'')) =
       Some (Inr providerIdentity)"
    "member_value candidate (lit ''identityCompleteness'') = V_string (lit ''obfuscated'')"
    "createContactIdentityResolution parse_url resolution = Inr resolution"
    "createContactCandidate (write_members candidate (revealed_members resolution)) = Some (Inr revealed)"
    "w = V_object [(lit ''candidate'', revealed), (lit ''identity'', resolution),
       (lit ''providerIdentity'', providerIdentity)]"
proof -
  have same: "i = resolution" if "createContactIdentityResolution parse_url resolution = Inr i" for i
    using that by (auto simp: createContactIdentityResolution_def Let_def split: if_splits)
  show thesis
    using assms that same unfolding revealContactCandidateIdentity_def revealed_members_def
    by (auto split: if_splits sum.splits Option.bind_splits)
qed

text \<open>
  C23. When a contact is revealed it was obfuscated and becomes full: its name is the first and the
  last name of the resolution, its profile is that of the resolution, and every other member is
  the one it had. The provider identity stays. What comes out is a valid contact, and revealing
  it again is refused, whatever the resolution.
\<close>

theorem revealed_contact:
  assumes "revealContactCandidateIdentity parse_url contact resolution = Some (Inr w)"
  shows "let old = member_value contact (lit ''candidate''); new = member_value w (lit ''candidate'');
             provider = member_value w (lit ''providerIdentity'')
    in member_value old (lit ''identityCompleteness'') = V_string (lit ''obfuscated'') \<and>
       member_value new (lit ''identityCompleteness'') = V_string (lit ''full'') \<and>
       member_value new (lit ''displayName'') = full_name (member_value resolution (lit ''firstName''))
         (member_value resolution (lit ''lastName'')) \<and>
       member_value new (lit ''profileUrl'') = member_value resolution (lit ''profileUrl'') \<and>
       map (member_value new) (filter (\<lambda>k. k \<notin> fst ` set (revealed_members resolution)) CONTACT_CANDIDATE_KEYS) =
       map (member_value old) (filter (\<lambda>k. k \<notin> fst ` set (revealed_members resolution)) CONTACT_CANDIDATE_KEYS) \<and>
       map (member_value provider) CONTACT_PROVIDER_IDENTITY_KEYS =
       map (member_value (member_value contact (lit ''providerIdentity''))) CONTACT_PROVIDER_IDENTITY_KEYS \<and>
       createContactCandidate new = Some (Inr new) \<and>
       revealContactCandidateIdentity parse_url'
         (V_object [(lit ''candidate'', new), (lit ''providerIdentity'', provider)]) resolution' =
       Some (Inl Contact_identity_state_invalid)"
proof -
  let ?old = "member_value contact (lit ''candidate'')"
  from assms obtain candidate new provider where
    old: "createContactCandidate ?old = Some (Inr candidate)"
    and pi: "createContactProviderIdentity (member_value contact (lit ''providerIdentity'')) =
       Some (Inr provider)"
    and obf: "member_value candidate (lit ''identityCompleteness'') = V_string (lit ''obfuscated'')"
    and res: "createContactIdentityResolution parse_url resolution = Inr resolution"
    and new: "createContactCandidate (write_members candidate (revealed_members resolution)) = Some (Inr new)"
    and w: "w = V_object [(lit ''candidate'', new), (lit ''identity'', resolution),
       (lit ''providerIdentity'', provider)]"
    by (rule reveal_accepted)
  note parts = contact_names member_select
  have candidate: "candidate = select_keys ?old CONTACT_CANDIDATE_KEYS"
    using old by (simp add: candidate_accepted)
  have dist: "distinct (map fst (revealed_members resolution))"
    by (simp add: revealed_members_def)
  have new_member: "member_value new k =
      (case map_of (revealed_members resolution) k of Some x \<Rightarrow> x | None \<Rightarrow> member_value ?old k)"
    if "k \<in> set CONTACT_CANDIDATE_KEYS" for k
    using new that by (simp add: candidate_accepted member_select member_write [OF dist] candidate
        split: option.split)
  have names: "member_value resolution (lit ''displayName'') =
      full_name (member_value resolution (lit ''firstName'')) (member_value resolution (lit ''lastName''))"
    using res by (auto simp: createContactIdentityResolution_def Let_def split: if_splits)
  have pw: "provider = select_keys (member_value contact (lit ''providerIdentity'')) CONTACT_PROVIDER_IDENTITY_KEYS"
    using pi by (simp add: provider_accepted)
  have w_members: "member_value w (lit ''candidate'') = new"
    "member_value w (lit ''providerIdentity'') = provider"
    by (simp_all add: w member_value_def own_property_list_def)
  have full: "member_value new (lit ''identityCompleteness'') = V_string (lit ''full'')"
    by (simp add: new_member contact_names revealed_members_def)
  have again: "revealContactCandidateIdentity parse_url'
      (V_object [(lit ''candidate'', new), (lit ''providerIdentity'', provider)]) resolution' =
      Some (Inl Contact_identity_state_invalid)"
    using candidate_again [OF new] provider_again [OF pi] full
    by (simp add: revealContactCandidateIdentity_def is_plain_object_def hasExactOwnKeys_def
        INTERNAL_CONTACT_CANDIDATE_KEYS_def own_property_list_def member_value_def)
  show ?thesis
    unfolding Let_def w_members
    using obf candidate again names full candidate_again [OF new]
    by (auto simp: new_member contact_names pw member_select revealed_members_def)
qed


text \<open>A parser of plain addresses, and an obfuscated contact with its resolution.\<close>

definition sample_url :: url_parser where
  "sample_url s =
     (if take 8 s = lit ''https://''
      then Some \<lparr>url_protocol = lit ''https:'', url_hostname = drop 8 s, url_username = [],
        url_password = [], url_port = []\<rparr>
      else None)"

definition sample_candidate :: "js_value \<Rightarrow> js_value" where
  "sample_candidate department =
     V_object
       [(lit ''contactId'', V_string (lit ''c'')), (lit ''department'', department),
        (lit ''displayName'', V_string (lit ''A***'')),
        (lit ''identityCompleteness'', V_string (lit ''obfuscated'')),
        (lit ''jobTitle'', V_string (lit ''j'')), (lit ''observedAt'', V_number (num 1)),
        (lit ''organizationDomain'', V_string (lit ''o.io'')),
        (lit ''organizationId'', V_string (lit ''o'')),
        (lit ''organizationName'', V_string (lit ''O'')), (lit ''personCountryCode'', V_null),
        (lit ''profileUrl'', V_null), (lit ''seniority'', V_string (lit ''vp''))]"

definition sample_provider :: "js_value \<Rightarrow> js_value" where
  "sample_provider key =
     V_object [(lit ''providerKey'', key), (lit ''providerSubjectId'', V_string (lit ''s''))]"

definition sample_contact :: js_value where
  "sample_contact =
     V_object
       [(lit ''candidate'', sample_candidate (V_string (lit ''sales''))),
        (lit ''providerIdentity'', sample_provider (V_string (lit ''hunter'')))]"

definition sample_resolution :: js_value where
  "sample_resolution =
     V_object
       [(lit ''displayName'', V_string (lit ''Ada Li'')), (lit ''firstName'', V_string (lit ''Ada'')),
        (lit ''identityCompleteness'', V_string (lit ''full'')),
        (lit ''lastName'', V_string (lit ''Li'')), (lit ''observedAt'', V_number (num 2)),
        (lit ''profileUrl'', V_string (lit ''https://a.io''))]"

lemma bounded_string: "bounded (V_string s) n \<longleftrightarrow> \<not> blank s \<and> code_points s \<le> n"
  by (simp add: bounded_def blank_def)

lemma shape_simps:
  "is_plain_object (V_object kvs)" "own_property_list (V_object kvs) = kvs"
  "member_value (V_object kvs) k = (case map_of kvs k of None \<Rightarrow> V_undefined | Some w \<Rightarrow> w)"
  by (simp_all add: is_plain_object_def own_property_list_def member_value_def)

lemma sample_texts:
  "\<not> blank (lit ''c'')" "code_points (lit ''c'') = 1" "\<not> blank (lit ''A***'')"
  "code_points (lit ''A***'') = 4" "\<not> blank (lit ''j'')" "code_points (lit ''j'') = 1"
  "\<not> blank (lit ''o'')" "code_points (lit ''o'') = 1" "\<not> blank (lit ''O'')"
  "code_points (lit ''O'') = 1" "\<not> blank (lit ''o.io'')" "code_points (lit ''o.io'') = 4"
  "DOMAIN_PATTERN (lit ''o.io'')" "TAXONOMY_PATTERN (lit ''true'')" "TAXONOMY_PATTERN (lit ''null'')"
  "TAXONOMY_PATTERN (lit ''sales'')" "TAXONOMY_PATTERN (lit ''hunter'')"
  "boundedTrimmed (V_string (lit ''s'')) 512" "boundedTrimmed (V_string (lit ''Ada'')) 128"
  "boundedTrimmed (V_string (lit ''Li'')) 128" "boundedTrimmed (V_string (lit ''Ada Li'')) 255"
  "\<not> blank (lit ''Ada Li'')" "code_points (lit ''Ada Li'') = 6"
  "lit ''Ada'' @ 32 # lit ''Li'' = lit ''Ada Li''"
  "\<not> resolution_url_invalid sample_url (V_string (lit ''https://a.io''))"
  "\<not> profile_url_invalid (V_string (lit ''https://a.io''))"
  by code_simp+

lemmas contact_evaluation =
  shape_simps hasExactOwnKeys_def bounded_string sample_texts pattern_test_def is_time_def
  max_safe_def violates_def contactSeniorityIsValid_def select_keys_def
  CONTACT_CANDIDATE_KEYS_def CONTACT_PROVIDER_IDENTITY_KEYS_def INTERNAL_CONTACT_CANDIDATE_KEYS_def
  CONTACT_IDENTITY_RESOLUTION_KEYS_def sample_candidate_def sample_provider_def

lemma sample_accepted:
  "createContactCandidate (sample_candidate (V_string (lit ''sales''))) =
     Some (Inr (sample_candidate (V_string (lit ''sales''))))"
  "createContactProviderIdentity (sample_provider (V_string (lit ''hunter''))) =
     Some (Inr (sample_provider (V_string (lit ''hunter''))))"
  "createContactIdentityResolution sample_url sample_resolution = Inr sample_resolution"
  by (simp_all add: createContactCandidate_def createContactProviderIdentity_def
      createContactIdentityResolution_def sample_resolution_def full_name_def contact_evaluation
      profile_url_invalid_def)

lemma sample_reveals:
  "\<exists>w. revealContactCandidateIdentity sample_url sample_contact sample_resolution = Some (Inr w)"
proof -
  have "createContactCandidate (write_members (sample_candidate (V_string (lit ''sales'')))
      [(lit ''displayName'', V_string (lit ''Ada Li'')), (lit ''identityCompleteness'', V_string (lit ''full'')),
       (lit ''profileUrl'', V_string (lit ''https://a.io''))]) =
    Some (Inr (write_members (sample_candidate (V_string (lit ''sales'')))
      [(lit ''displayName'', V_string (lit ''Ada Li'')), (lit ''identityCompleteness'', V_string (lit ''full'')),
       (lit ''profileUrl'', V_string (lit ''https://a.io''))]))"
    by (simp add: createContactCandidate_def write_members_def map_set_def contact_evaluation)
  then show ?thesis
    using sample_accepted
    by (simp add: revealContactCandidateIdentity_def sample_contact_def sample_resolution_def
        write_members_def map_set_def contact_evaluation)
qed

theorem revealed_contact_witness:
  "\<exists>w. revealContactCandidateIdentity sample_url sample_contact sample_resolution = Some (Inr w) \<and>
     member_value (member_value w (lit ''candidate'')) (lit ''displayName'') =
       full_name (member_value sample_resolution (lit ''firstName''))
         (member_value sample_resolution (lit ''lastName''))"
proof -
  obtain w where w: "revealContactCandidateIdentity sample_url sample_contact sample_resolution = Some (Inr w)"
    using sample_reveals by blast
  with revealed_contact [OF w, of sample_url sample_resolution] show ?thesis
    by (intro exI [of _ w]) (simp only: Let_def)
qed

text \<open>
  A pattern is applied to the text of any value, so the checks let through members that are
  not strings: a contact whose department is the boolean true is accepted with it, and so is a
  provider identity whose key is null.
\<close>

lemma untyped_members_accepted:
  "createContactCandidate (sample_candidate (V_boolean True)) =
     Some (Inr (sample_candidate (V_boolean True))) \<and>
   createContactProviderIdentity (sample_provider V_null) = Some (Inr (sample_provider V_null))"
  by (simp add: createContactCandidate_def createContactProviderIdentity_def contact_evaluation
      profile_url_invalid_def)

end
