(* ===== verification/Contact_Privacy.thy ===== *)
theory Contact_Privacy
  imports Product
begin

text \<open>
  \<open>kernel/src/contact-privacy.ts\<close>: tombstones of contacts that may no longer be sourced. A
  subject is known only by a keyed digest; the proof of a tombstone leaves the digest out.
\<close>

definition CONTACT_PRIVACY_TOMBSTONE_REASONS :: "jstring list" where
  "CONTACT_PRIVACY_TOMBSTONE_REASONS =
     [lit ''provider-opt-out'', lit ''provider-deletion'', lit ''provider-claimed-email'',
      lit ''operator-subject-request'']"

datatype subject_kind = Kind_email | Kind_provider_subject

record subject_key =
  sk_algorithm :: jstring
  sk_digest :: jstring
  sk_formatVersion :: jstring
  sk_identityKind :: subject_kind
  sk_providerKey :: "jstring option"
  sk_secretVersion :: jstring

record tombstone =
  ts_intentHash :: jstring
  ts_reason :: jstring
  ts_registeredAt :: js_number
  ts_subjectKey :: subject_key
  ts_tombstoneId :: jstring
  ts_workspaceId :: jstring

record subject_key_version =
  skv_algorithm :: jstring
  skv_formatVersion :: jstring
  skv_identityKind :: subject_kind
  skv_providerKey :: "jstring option"
  skv_secretVersion :: jstring

record tombstone_proof =
  tp_reason :: jstring
  tp_registeredAt :: js_number
  tp_subjectKeyVersion :: subject_key_version
  tp_tombstoneId :: jstring
  tp_workspaceId :: jstring

record tombstone_input =
  ti_intentHash :: jstring
  ti_reason :: jstring
  ti_registeredAt :: js_number
  ti_subjectKey :: subject_key
  ti_workspaceId :: jstring

datatype privacy_failure = Subject_key_invalid | Tombstone_reason_invalid

definition name_unit :: "code_unit \<Rightarrow> bool" where
  "name_unit u \<longleftrightarrow> lower u \<or> digit u \<or> u = 46 \<or> u = 95 \<or> u = 45"

text \<open>\<open>/^[0-9a-f]{64}$/u\<close>\<close>

definition DIGEST_PATTERN :: "jstring \<Rightarrow> bool" where
  "DIGEST_PATTERN s \<longleftrightarrow> length s = 64 \<and> list_all hex_digit s"

text \<open>\<open>/^[a-zA-Z0-9][a-zA-Z0-9._-]{0,63}$/u\<close>\<close>

definition VERSION_PATTERN :: "jstring \<Rightarrow> bool" where
  "VERSION_PATTERN s \<longleftrightarrow>
     (let upper = (\<lambda>u. 65 \<le> u \<and> u \<le> 90)
      in case s of [] \<Rightarrow> False
       | u # t \<Rightarrow> (lower u \<or> upper u \<or> digit u) \<and> length t \<le> 63 \<and>
           list_all (\<lambda>c. name_unit c \<or> upper c) t)"

text \<open>\<open>/^[a-z0-9][a-z0-9._-]{0,127}$/u\<close>\<close>

definition PROVIDER_KEY_PATTERN :: "jstring \<Rightarrow> bool" where
  "PROVIDER_KEY_PATTERN s \<longleftrightarrow>
     (case s of [] \<Rightarrow> False
      | u # t \<Rightarrow> (lower u \<or> digit u) \<and> length t \<le> 127 \<and> list_all name_unit t)"

definition contactPrivacySubjectKeysEqual :: "subject_key \<Rightarrow> subject_key \<Rightarrow> bool" where
  "contactPrivacySubjectKeysEqual left right \<longleftrightarrow>
     sk_algorithm left = sk_algorithm right \<and> sk_digest left = sk_digest right \<and>
     sk_formatVersion left = sk_formatVersion right \<and>
     sk_identityKind left = sk_identityKind right \<and>
     sk_providerKey left = sk_providerKey right \<and> sk_secretVersion left = sk_secretVersion right"

definition validateContactPrivacySubjectKey ::
  "subject_key \<Rightarrow> (subject_key, privacy_failure) domain_result" where
  "validateContactPrivacySubjectKey candidate =
     (if sk_algorithm candidate \<noteq> lit ''hmac-sha-256'' \<or> sk_formatVersion candidate \<noteq> lit ''1.0.0'' \<or>
         \<not> DIGEST_PATTERN (sk_digest candidate) \<or> \<not> VERSION_PATTERN (sk_secretVersion candidate)
      then fail Subject_key_invalid
      else if (sk_identityKind candidate = Kind_email \<and> sk_providerKey candidate \<noteq> None) \<or>
          (sk_identityKind candidate = Kind_provider_subject \<and>
           (case sk_providerKey candidate of None \<Rightarrow> True | Some key \<Rightarrow> \<not> PROVIDER_KEY_PATTERN key))
      then fail Subject_key_invalid
      else succeed candidate)"

text \<open>The identity of a tombstone is its intent hash without the name of the algorithm.\<close>

definition createContactPrivacyTombstone ::
  "tombstone_input \<Rightarrow> (tombstone, privacy_failure) domain_result" where
  "createContactPrivacyTombstone inp =
     and_then (validateContactPrivacySubjectKey (ti_subjectKey inp)) (\<lambda>key.
       if ti_reason inp \<notin> set CONTACT_PRIVACY_TOMBSTONE_REASONS then fail Tombstone_reason_invalid
       else succeed
         \<lparr>ts_intentHash = ti_intentHash inp, ts_reason = ti_reason inp,
          ts_registeredAt = ti_registeredAt inp, ts_subjectKey = key,
          ts_tombstoneId = lit ''privacy-ts-'' @ drop 7 (ti_intentHash inp),
          ts_workspaceId = ti_workspaceId inp\<rparr>)"

definition contactPrivacyTombstoneProof :: "tombstone \<Rightarrow> tombstone_proof" where
  "contactPrivacyTombstoneProof t =
     (let key = ts_subjectKey t
      in \<lparr>tp_reason = ts_reason t, tp_registeredAt = ts_registeredAt t,
          tp_subjectKeyVersion =
            \<lparr>skv_algorithm = sk_algorithm key, skv_formatVersion = sk_formatVersion key,
             skv_identityKind = sk_identityKind key, skv_providerKey = sk_providerKey key,
             skv_secretVersion = sk_secretVersion key\<rparr>,
          tp_tombstoneId = ts_tombstoneId t, tp_workspaceId = ts_workspaceId t\<rparr>)"


section \<open>Properties\<close>

lemma subject_keys_equal_iff [simp]: "contactPrivacySubjectKeysEqual left right \<longleftrightarrow> left = right"
  by (cases left; cases right) (auto simp: contactPrivacySubjectKeysEqual_def)

text \<open>The identity of a tombstone tells its intent, when the intent hash is a content hash.\<close>

lemma tombstone_identity:
  assumes "createContactPrivacyTombstone a = Inr s" and "createContactPrivacyTombstone b = Inr t"
    and "content_hash_pattern (ti_intentHash a)" and "content_hash_pattern (ti_intentHash b)"
  shows "ts_tombstoneId s = ts_tombstoneId t \<longleftrightarrow> ti_intentHash a = ti_intentHash b"
proof -
  have whole: "ti_intentHash i = sha256_prefix @ drop 7 (ti_intentHash i)"
    if "content_hash_pattern (ti_intentHash i)" for i
    using that append_take_drop_id [of 7 "ti_intentHash i"] by (simp add: content_hash_pattern_def)
  have "ts_tombstoneId s = lit ''privacy-ts-'' @ drop 7 (ti_intentHash a)"
    "ts_tombstoneId t = lit ''privacy-ts-'' @ drop 7 (ti_intentHash b)"
    using assms(1,2) by (auto simp: createContactPrivacyTombstone_def split: if_splits)
  then show ?thesis
    using whole [OF assms(3)] whole [OF assms(4)] by (metis same_append_eq)
qed

text \<open>
  What a proof discloses does not depend on the digest: tombstones of two subjects that agree on
  everything else have the same proof.
\<close>

lemma proof_hides_digest:
  assumes "createContactPrivacyTombstone inp = Inr s"
    and "createContactPrivacyTombstone
      (inp\<lparr>ti_subjectKey := (ti_subjectKey inp)\<lparr>sk_digest := digest\<rparr>\<rparr>) = Inr t"
  shows "contactPrivacyTombstoneProof s = contactPrivacyTombstoneProof t"
  using assms
  by (auto simp: createContactPrivacyTombstone_def validateContactPrivacySubjectKey_def
      contactPrivacyTombstoneProof_def Let_def split: if_splits option.splits)

end
