(* ===== verification/Dataset_Record.thy ===== *)
theory Dataset_Record
  imports Product Utf8
begin

text \<open>
  \<open>adapters/dataset-codec/src/record.ts\<close> and the types of \<open>ports/src/dataset-codec.ts\<close>: the
  errors of a codec, its configuration, and the record that both formats accept and produce.
\<close>

definition MAX_RECORD_BYTES :: int where "MAX_RECORD_BYTES = 16777216"
definition MAX_NUMBER :: int where "MAX_NUMBER = 1000000000000000"

record field_spec =
  fs_fieldId :: jstring
  fs_key :: jstring
  fs_valueType :: field_value_type

datatype codec_error_code =
    Column_count_mismatch | Configuration_invalid | Csv_syntax_invalid | Field_set_invalid
  | Header_invalid | Invalid_json | Invalid_record_shape | Invalid_utf8 | Record_id_invalid
  | Record_too_large | Scope_mismatch | Value_type_mismatch

datatype codec_scope = Scope_document | Scope_record

record codec_error =
  cx_code :: codec_error_code
  cx_recoverable :: bool
  cx_scope :: codec_scope
  cx_fieldKey :: "jstring option"
  cx_lineEnd :: "nat option"
  cx_lineStart :: "nat option"
  cx_recordId :: "jstring option"
  cx_recordNumber :: "nat option"

record codec_location =
  cl_lineEnd :: "nat option"
  cl_lineStart :: "nat option"
  cl_recordId :: "jstring option"
  cl_recordNumber :: "nat option"

definition no_location :: codec_location where
  "no_location =
     \<lparr>cl_lineEnd = None, cl_lineStart = None, cl_recordId = None, cl_recordNumber = None\<rparr>"

datatype decode_event = Decoded data_record nat | Decode_error codec_error

datatype encode_event = Chunk "byte list" "nat option" | Encode_error codec_error

record record_failure =
  rf_code :: codec_error_code
  rf_fieldKey :: "jstring option"

definition validId :: "jstring \<Rightarrow> bool" where
  "validId value \<longleftrightarrow> length (trim value) > 0 \<and> code_points value \<le> 255"

text \<open>An error carries the identity of a record only when it is a valid one.\<close>

definition codecError ::
  "codec_error_code \<Rightarrow> codec_scope \<Rightarrow> bool \<Rightarrow> codec_location \<Rightarrow> jstring option \<Rightarrow> codec_error"
where
  "codecError code scope recoverable location fieldKey =
     \<lparr>cx_code = code, cx_recoverable = recoverable, cx_scope = scope, cx_fieldKey = fieldKey,
      cx_lineEnd = cl_lineEnd location, cx_lineStart = cl_lineStart location,
      cx_recordId =
        (case cl_recordId location of
           None \<Rightarrow> None | Some i \<Rightarrow> if \<not> validId i then None else Some i),
      cx_recordNumber = cl_recordNumber location\<rparr>"

text \<open>The loop that looks for an invalid or a repeated field, with the keys seen so far.\<close>

fun invalid_field :: "jstring list \<Rightarrow> jstring list \<Rightarrow> field_spec list \<Rightarrow> bool" where
  "invalid_field ids keys [] = False"
| "invalid_field ids keys (f # specs) =
     (\<not> validId (fs_fieldId f) \<or> length (fs_key f) > 128 \<or> \<not> FIELD_KEY_PATTERN (fs_key f) \<or>
      fs_fieldId f \<in> set ids \<or> fs_key f \<in> set keys \<or>
      invalid_field (fs_fieldId f # ids) (fs_key f # keys) specs)"

definition configurationError ::
  "field_spec list \<Rightarrow> js_number \<Rightarrow> jstring option \<Rightarrow> jstring option \<Rightarrow> codec_error option" where
  "configurationError specs maxRecordBytes datasetId workspaceId =
     (if \<not> is_safe_integer maxRecordBytes \<or> js_lt maxRecordBytes (num 1) \<or>
         js_lt (num MAX_RECORD_BYTES) maxRecordBytes
      then Some (codecError Configuration_invalid Scope_document False no_location None)
      else if length specs > 256 \<or>
          (case datasetId of None \<Rightarrow> False | Some i \<Rightarrow> \<not> validId i) \<or>
          (case workspaceId of None \<Rightarrow> False | Some i \<Rightarrow> \<not> validId i)
      then Some (codecError Configuration_invalid Scope_document False no_location None)
      else if invalid_field [] [] specs
      then Some (codecError Configuration_invalid Scope_document False no_location None)
      else None)"

fun scalarMatchesField :: "scalar_value \<Rightarrow> field_spec \<Rightarrow> bool" where
  "scalarMatchesField VNull field = True"
| "scalarMatchesField (VString s) field =
     (fs_valueType field = T_string \<and> code_points s \<le> 16384)"
| "scalarMatchesField (VBool _) field = (fs_valueType field = T_boolean)"
| "scalarMatchesField (VNumber x) field =
     (fs_valueType field = T_number \<and> is_finite x \<and> js_le (js_abs x) (num MAX_NUMBER))"

text \<open>The first loop of \<open>normalizeRecord\<close>: the values by field, unless a field is repeated.\<close>

fun index_values ::
  "(jstring, scalar_value) js_map \<Rightarrow> record_value list \<Rightarrow> (jstring, scalar_value) js_map option"
where
  "index_values m [] = Some m"
| "index_values m (entry # entries) =
     (if map_has m (rv_fieldId entry) then None
      else index_values (map_set (rv_fieldId entry) (rv_value entry) m) entries)"

text \<open>The second loop: the values in the order of the fields, or the field that refuses one.\<close>

fun order_values ::
  "(jstring, scalar_value) js_map \<Rightarrow> field_spec list \<Rightarrow> (record_value list, field_spec) domain_result"
where
  "order_values m [] = succeed []"
| "order_values m (field # specs) =
     (case map_get m (fs_fieldId field) of
        None \<Rightarrow> order_values m specs
      | Some v \<Rightarrow>
          if \<not> scalarMatchesField v field then fail field
          else and_then (order_values m specs)
            (\<lambda>rest. succeed (\<lparr>rv_fieldId = fs_fieldId field, rv_value = v\<rparr> # rest)))"

record dataset_scope =
  sc_datasetId :: jstring
  sc_workspaceId :: jstring

definition normalizeRecord ::
  "data_record \<Rightarrow> field_spec list \<Rightarrow> dataset_scope option \<Rightarrow> bool \<Rightarrow>
   (data_record, record_failure) domain_result"
where
  "normalizeRecord r specs expectedScope requireCompleteFieldSet =
     (if \<not> validId (rec_recordId r)
      then fail \<lparr>rf_code = Record_id_invalid, rf_fieldKey = None\<rparr>
      else if \<not> (validId (rec_datasetId r) \<and> validId (rec_workspaceId r)) \<or>
          (case expectedScope of
             None \<Rightarrow> False
           | Some scope \<Rightarrow>
               rec_datasetId r \<noteq> sc_datasetId scope \<or> rec_workspaceId r \<noteq> sc_workspaceId scope)
      then fail \<lparr>rf_code = Scope_mismatch, rf_fieldKey = None\<rparr>
      else case index_values [] (rec_values r) of
          None \<Rightarrow> fail \<lparr>rf_code = Field_set_invalid, rf_fieldKey = None\<rparr>
        | Some m \<Rightarrow>
            if (requireCompleteFieldSet \<and> length m \<noteq> length specs) \<or>
               list_ex (\<lambda>k. \<not> list_ex (\<lambda>field. fs_fieldId field = k) specs) (map_keys m)
            then fail \<lparr>rf_code = Field_set_invalid, rf_fieldKey = None\<rparr>
            else case order_values m specs of
                Inl field \<Rightarrow>
                  fail \<lparr>rf_code = Value_type_mismatch, rf_fieldKey = Some (fs_key field)\<rparr>
              | Inr ordered \<Rightarrow> succeed (r\<lparr>rec_values := ordered\<rparr>))"

definition validationError :: "record_failure \<Rightarrow> codec_location \<Rightarrow> bool \<Rightarrow> codec_error" where
  "validationError failure location recoverable =
     codecError (rf_code failure) Scope_record recoverable location (rf_fieldKey failure)"


section \<open>What a normalized record is\<close>

lemma index_values_Some:
  assumes "distinct (map_keys m)"
  shows "index_values m entries = Some m' \<longleftrightarrow>
    distinct (map_keys m @ map rv_fieldId entries) \<and>
    m' = m @ map (\<lambda>e. (rv_fieldId e, rv_value e)) entries"
  using assms
proof (induction entries arbitrary: m)
  case (Cons e entries)
  have has: "map_has m (rv_fieldId e) \<longleftrightarrow> rv_fieldId e \<in> set (map_keys m)"
    by (simp add: map_has_def js_map.get_keys)
  have fresh: "map_set (rv_fieldId e) (rv_value e) m = m @ [(rv_fieldId e, rv_value e)]"
    if "rv_fieldId e \<notin> set (map_keys m)"
    using that by (induction m) (auto simp: map_set_def map_keys_def)
  show ?case
  proof (cases "rv_fieldId e \<in> set (map_keys m)")
    case False
    then have "distinct (map_keys (m @ [(rv_fieldId e, rv_value e)]))"
      using Cons.prems by (auto simp: map_keys_def)
    from Cons.IH [OF this] False show ?thesis
      by (auto simp: has fresh map_keys_def)
  qed (auto simp: has)
qed auto

text \<open>The distinct field identities and keys of an accepted configuration.\<close>

lemma invalid_field_False:
  "\<not> invalid_field ids keys specs \<longleftrightarrow>
   (\<forall>f\<in>set specs. validId (fs_fieldId f) \<and> length (fs_key f) \<le> 128 \<and>
      FIELD_KEY_PATTERN (fs_key f)) \<and>
   (\<forall>i\<in>set ids. i \<notin> fs_fieldId ` set specs) \<and> distinct (map fs_fieldId specs) \<and>
   (\<forall>k\<in>set keys. k \<notin> fs_key ` set specs) \<and> distinct (map fs_key specs)"
proof (induction ids keys specs rule: invalid_field.induct)
  case (2 ids keys f specs)
  have swap: "(\<forall>i\<in>A. i \<noteq> x \<and> i \<notin> B) \<longleftrightarrow> x \<notin> A \<and> (\<forall>i\<in>A. i \<notin> B)" for A B and x :: jstring
    by blast
  show ?case
    unfolding invalid_field.simps de_Morgan_disj "2.IH" not_not not_less
    by (simp add: swap) blast
qed simp

lemma order_values_complete:
  assumes "\<forall>f\<in>set specs. map_get m (fs_fieldId f) \<noteq> None"
  shows "order_values m specs = Inr ordered \<longleftrightarrow>
    (\<forall>f\<in>set specs. scalarMatchesField (the (map_get m (fs_fieldId f))) f) \<and>
    ordered = map (\<lambda>f. \<lparr>rv_fieldId = fs_fieldId f, rv_value = the (map_get m (fs_fieldId f))\<rparr>) specs"
  using assms
proof (induction specs arbitrary: ordered)
  case (Cons f specs)
  from Cons.prems obtain v where v: "map_get m (fs_fieldId f) = Some v" by auto
  have IH: "order_values m specs = Inr rest \<longleftrightarrow>
      (\<forall>f\<in>set specs. scalarMatchesField (the (map_get m (fs_fieldId f))) f) \<and>
      rest = map (\<lambda>f. \<lparr>rv_fieldId = fs_fieldId f, rv_value = the (map_get m (fs_fieldId f))\<rparr>) specs"
    for rest using Cons.prems by (intro Cons.IH) simp
  show ?case
    by (cases "scalarMatchesField v f") (simp_all add: v IH eq_commute [of ordered])
qed auto

text \<open>A complete normalized record has one matching value for each field, in their order.\<close>

lemma normalized_complete:
  assumes "normalizeRecord r specs (Some scope) True = Inr r'"
    and "distinct (map fs_fieldId specs)"
  shows "validId (rec_recordId r)" "rec_datasetId r = sc_datasetId scope"
    "rec_workspaceId r = sc_workspaceId scope" "validId (sc_datasetId scope)"
    "validId (sc_workspaceId scope)" "r' = r\<lparr>rec_values := rec_values r'\<rparr>"
    "map rv_fieldId (rec_values r') = map fs_fieldId specs"
    "list_all2 (\<lambda>v f. scalarMatchesField (rv_value v) f) (rec_values r') specs"
    "set (rec_values r') \<subseteq> set (rec_values r)"
proof -
  from assms(1) obtain m ordered where
    valid: "validId (rec_recordId r)" "rec_datasetId r = sc_datasetId scope"
      "rec_workspaceId r = sc_workspaceId scope" "validId (sc_datasetId scope)"
      "validId (sc_workspaceId scope)"
    and m: "index_values [] (rec_values r) = Some m" "length m = length specs"
      "set (map_keys m) \<subseteq> set (map fs_fieldId specs)"
    and ordered: "order_values m specs = Inr ordered" and r': "r' = r\<lparr>rec_values := ordered\<rparr>"
    by (auto simp: normalizeRecord_def list_ex_iff subset_iff image_iff eq_commute
        split: if_splits option.splits sum.splits)
  from valid show "validId (rec_recordId r)" "rec_datasetId r = sc_datasetId scope"
    "rec_workspaceId r = sc_workspaceId scope" "validId (sc_datasetId scope)"
    "validId (sc_workspaceId scope)" by simp_all
  show "r' = r\<lparr>rec_values := rec_values r'\<rparr>" by (simp add: r')
  have mdef: "distinct (map rv_fieldId (rec_values r))"
    "m = map (\<lambda>e. (rv_fieldId e, rv_value e)) (rec_values r)"
    using m(1) index_values_Some [of "[]" "rec_values r" m] by (simp_all add: map_keys_def)
  have len: "length m = length (rec_values r)" by (simp add: mdef(2))
  have keys: "map_keys m = map rv_fieldId (rec_values r)" by (simp add: mdef map_keys_def)
  have "card (set (map_keys m)) = card (set (map fs_fieldId specs))"
    using distinct_card [OF mdef(1)] distinct_card [OF assms(2)] m(2) len by (simp add: keys)
  then have "set (map_keys m) = set (map fs_fieldId specs)"
    using m(3) by (intro card_subset_eq) simp_all
  then have all: "\<forall>f\<in>set specs. map_get m (fs_fieldId f) \<noteq> None"
    by (auto simp: js_map.get_keys)
  note o = order_values_complete [OF all, THEN iffD1, OF ordered]
  show "map rv_fieldId (rec_values r') = map fs_fieldId specs" using o by (simp add: r')
  show "list_all2 (\<lambda>v f. scalarMatchesField (rv_value v) f) (rec_values r') specs"
    using o by (auto simp: r' list_all2_map1 list_all2_same)
  have "\<lparr>rv_fieldId = k, rv_value = v\<rparr> \<in> set (rec_values r)" if "map_get m k = Some v" for k v
  proof -
    have "(k, v) \<in> set m" using that by (simp add: map_get_def map_of_SomeD)
    then obtain e where "e \<in> set (rec_values r)" "k = rv_fieldId e" "v = rv_value e"
      by (auto simp: mdef(2))
    moreover have "\<lparr>rv_fieldId = rv_fieldId e, rv_value = rv_value e\<rparr> = e" by simp
    ultimately show ?thesis by (simp only:)
  qed
  then show "set (rec_values r') \<subseteq> set (rec_values r)" using o all by (fastforce simp: r')
qed

text \<open>Normalizing what is already in order changes nothing.\<close>

lemma normalize_complete_values:
  assumes "validId (rec_recordId r)" "rec_datasetId r = sc_datasetId scope"
    "rec_workspaceId r = sc_workspaceId scope" "validId (sc_datasetId scope)"
    "validId (sc_workspaceId scope)" "distinct (map fs_fieldId specs)"
    "map rv_fieldId (rec_values r) = map fs_fieldId specs"
    "list_all2 (\<lambda>v f. scalarMatchesField (rv_value v) f) (rec_values r) specs"
  shows "normalizeRecord r specs (Some scope) required = Inr r"
proof -
  let ?m = "map (\<lambda>e. (rv_fieldId e, rv_value e)) (rec_values r)"
  have m: "index_values [] (rec_values r) = Some ?m"
    using assms(6,7) by (subst index_values_Some) (simp_all add: map_keys_def)
  have len: "length (rec_values r) = length specs"
    using assms(8) by (rule list_all2_lengthD)
  have get: "map_get ?m (fs_fieldId (specs ! i)) = Some (rv_value (rec_values r ! i))"
    if "i < length specs" for i
  proof -
    have "fs_fieldId (specs ! i) = rv_fieldId (rec_values r ! i)"
      using that len assms(7) by (metis nth_map)
    moreover have "distinct (map fst ?m)" using assms(6,7) by (simp add: comp_def)
    ultimately show ?thesis using that len by (simp add: map_get_def)
  qed
  have all: "\<forall>f\<in>set specs. map_get ?m (fs_fieldId f) \<noteq> None"
    using get by (auto simp: in_set_conv_nth)
  have "order_values ?m specs = Inr (rec_values r)"
  proof (subst order_values_complete [OF all], intro conjI ballI)
    fix f assume "f \<in> set specs"
    then obtain i where i: "i < length specs" "f = specs ! i" by (auto simp: in_set_conv_nth)
    then show "scalarMatchesField (the (map_get ?m (fs_fieldId f))) f"
      using get assms(8) by (simp add: list_all2_conv_all_nth)
  next
    show "rec_values r =
        map (\<lambda>f. \<lparr>rv_fieldId = fs_fieldId f, rv_value = the (map_get ?m (fs_fieldId f))\<rparr>) specs"
    proof (rule nth_equalityI)
      fix i assume "i < length (rec_values r)"
      moreover from this have "rv_fieldId (rec_values r ! i) = fs_fieldId (specs ! i)"
        using len assms(7) by (metis nth_map)
      ultimately show "rec_values r ! i =
          map (\<lambda>f. \<lparr>rv_fieldId = fs_fieldId f, rv_value = the (map_get ?m (fs_fieldId f))\<rparr>) specs ! i"
        using len get by simp
    qed (simp add: len)
  qed
  moreover have "\<not> list_ex (\<lambda>k. \<not> list_ex (\<lambda>field. fs_fieldId field = k) specs) (map_keys ?m)"
  proof -
    have "set (map_keys ?m) = fs_fieldId ` set specs"
      using arg_cong [OF assms(7), of set] by (simp add: map_keys_def image_image)
    then show ?thesis by (auto simp: list_ex_iff)
  qed
  ultimately show ?thesis
    using assms(1-5) len by (simp add: normalizeRecord_def m)
qed

end
