(* ===== verification/Csv.thy ===== *)
theory Csv
  imports Dataset_Record Number_Text Workflow_Compiler
begin

text \<open>
  \<open>adapters/dataset-codec/src/csv.ts\<close>: the framer that cuts a byte stream into records, the
  parser of a record, and the decoder and the encoder of a document. A stream of chunks is the
  list of its chunks, and the events of a generator are the list that it yields. The bytes of
  a framed record are a view of the framer's buffer; the decoder reads them before the framer
  takes its next byte, so their value at the yield is what the record carries.
\<close>

section \<open>The framer\<close>

datatype csv_state = After_quote | Field_start | Quoted | Unquoted

datatype pending_cr = Cr_quoted | Cr_record

record raw_record =
  rr_bytes :: "byte list option"
  rr_lineEnd :: nat
  rr_lineStart :: nat
  rr_oversized :: bool

datatype raw_event = Raw_error codec_error | Raw_record raw_record

record framer =
  cf_buffer :: "byte list"
  cf_limit :: nat
  cf_length :: nat
  cf_line :: nat
  cf_lineStart :: nat
  cf_pendingCr :: "pending_cr option"
  cf_started :: bool
  cf_state :: csv_state

definition new_framer :: "nat \<Rightarrow> framer" where
  "new_framer limit =
     \<lparr>cf_buffer = replicate limit 0, cf_limit = limit, cf_length = 0, cf_line = 1,
      cf_lineStart = 1, cf_pendingCr = None, cf_started = False, cf_state = Field_start\<rparr>"

definition syntaxError :: "nat \<Rightarrow> nat \<Rightarrow> raw_event" where
  "syntaxError lineStart lineEnd =
     Raw_error (codecError Csv_syntax_invalid Scope_document False
       (no_location\<lparr>cl_lineEnd := Some lineEnd, cl_lineStart := Some lineStart\<rparr>) None)"

definition framer_error :: "framer \<Rightarrow> raw_event" where
  "framer_error f = syntaxError (cf_lineStart f) (cf_line f)"

text \<open>A byte beyond the limit is counted but not stored.\<close>

definition append_byte :: "byte \<Rightarrow> framer \<Rightarrow> framer" where
  "append_byte byte f =
     f\<lparr>cf_buffer :=
         (if cf_length f < cf_limit f then (cf_buffer f)[cf_length f := byte] else cf_buffer f),
       cf_length := cf_length f + 1\<rparr>"

definition takeRecord :: "framer \<Rightarrow> raw_event \<times> framer" where
  "takeRecord f =
     (let oversized = cf_length f > cf_limit f
      in (Raw_record
            \<lparr>rr_bytes = (if oversized then None else Some (take (cf_length f) (cf_buffer f))),
             rr_lineEnd = cf_line f, rr_lineStart = cf_lineStart f, rr_oversized = oversized\<rparr>,
          f\<lparr>cf_length := 0, cf_started := False, cf_state := Field_start\<rparr>))"

fun consumeData :: "byte \<Rightarrow> framer \<Rightarrow> raw_event option \<times> framer" where
  "consumeData byte f =
     (case cf_state f of
        Field_start \<Rightarrow>
          (None, (append_byte byte f)\<lparr>cf_state :=
             (if byte = 34 then Quoted else if byte \<noteq> 44 then Unquoted else Field_start)\<rparr>)
      | Unquoted \<Rightarrow>
          if byte = 34 then (Some (framer_error f), f)
          else (None, (append_byte byte f)\<lparr>cf_state := (if byte = 44 then Field_start else Unquoted)\<rparr>)
      | Quoted \<Rightarrow>
          (None, (append_byte byte f)\<lparr>cf_state := (if byte = 34 then After_quote else Quoted)\<rparr>)
      | After_quote \<Rightarrow>
          if byte \<noteq> 34 \<and> byte \<noteq> 44 then (Some (framer_error f), f)
          else (None, (append_byte byte f)\<lparr>cf_state := (if byte = 34 then Quoted else Field_start)\<rparr>))"

text \<open>\<open>consume\<close> when no carriage return is pending.\<close>

definition consume_fresh :: "byte \<Rightarrow> framer \<Rightarrow> raw_event option \<times> framer" where
  "consume_fresh byte f =
     (if byte = 13 then
        let f = f\<lparr>cf_started := True\<rparr>
        in if cf_state f = Quoted
           then (None, (append_byte byte f)\<lparr>cf_pendingCr := Some Cr_quoted, cf_line := cf_line f + 1\<rparr>)
           else (None, f\<lparr>cf_pendingCr := Some Cr_record\<rparr>)
      else if byte = 10 then
        if cf_state f = Quoted
        then (None, (append_byte byte (f\<lparr>cf_started := True\<rparr>))\<lparr>cf_line := cf_line f + 1\<rparr>)
        else (Some (framer_error f), f)
      else consumeData byte (f\<lparr>cf_started := True\<rparr>))"

definition consumeAfterCr :: "pending_cr \<Rightarrow> byte \<Rightarrow> framer \<Rightarrow> raw_event option \<times> framer" where
  "consumeAfterCr pending byte f =
     (if pending = Cr_quoted then
        let f = f\<lparr>cf_pendingCr := None\<rparr>
        in if byte = 10 then (None, append_byte byte f) else consume_fresh byte f
      else if byte \<noteq> 10 then (Some (framer_error f), f)
      else
        let (event, f) = takeRecord (f\<lparr>cf_pendingCr := None\<rparr>)
        in (Some event, f\<lparr>cf_line := cf_line f + 1, cf_lineStart := cf_line f + 1\<rparr>))"

definition consume :: "byte \<Rightarrow> framer \<Rightarrow> raw_event option \<times> framer" where
  "consume byte f =
     (case cf_pendingCr f of
        Some pending \<Rightarrow> consumeAfterCr pending byte f
      | None \<Rightarrow> consume_fresh byte f)"

definition finish :: "framer \<Rightarrow> raw_event option" where
  "finish f =
     (if cf_pendingCr f \<noteq> None \<or> cf_state f = Quoted then Some (framer_error f)
      else if cf_started f then Some (fst (takeRecord f)) else None)"

text \<open>The loops of \<open>records\<close> over the chunks and their bytes; an error ends the stream.\<close>

fun frame :: "framer \<Rightarrow> byte list list \<Rightarrow> raw_event list" where
  "frame f [] = (case finish f of None \<Rightarrow> [] | Some final \<Rightarrow> [final])"
| "frame f ([] # chunks) = frame f chunks"
| "frame f ((byte # bytes) # chunks) =
     (case consume byte f of
        (None, f') \<Rightarrow> frame f' (bytes # chunks)
      | (Some (Raw_error e), f') \<Rightarrow> [Raw_error e]
      | (Some event, f') \<Rightarrow> event # frame f' (bytes # chunks))"

definition records :: "byte list list \<Rightarrow> nat \<Rightarrow> raw_event list" where
  "records chunks limit = frame (new_framer limit) chunks"


section \<open>The fields of a record\<close>

record csv_field =
  cv_quoted :: bool
  cv_text :: jstring

text \<open>From the character after the opening quote: the text, and what follows the closing one.\<close>

fun read_quoted :: "jstring \<Rightarrow> jstring \<times> jstring" where
  "read_quoted [] = ([], [])"
| "read_quoted (c # s) =
     (if c \<noteq> 34 then apfst (Cons c) (read_quoted s)
      else case s of
          d # s' \<Rightarrow> if d = 34 then apfst (Cons 34) (read_quoted s') else ([], s)
        | [] \<Rightarrow> ([], []))"

definition readQuotedField :: "jstring \<Rightarrow> csv_field \<times> jstring" where
  "readQuotedField source =
     (let (t, rest) = read_quoted (tl source) in (\<lparr>cv_quoted = True, cv_text = t\<rparr>, rest))"

definition readUnquotedField :: "jstring \<Rightarrow> csv_field \<times> jstring" where
  "readUnquotedField source =
     (\<lparr>cv_quoted = False, cv_text = takeWhile (\<lambda>c. c \<noteq> 44) source\<rparr>,
      dropWhile (\<lambda>c. c \<noteq> 44) source)"

text \<open>The argument is the number of fields that may still be read.\<close>

fun parseCsvText :: "nat \<Rightarrow> jstring \<Rightarrow> csv_field list option" where
  "parseCsvText 0 source = None"
| "parseCsvText (Suc n) source =
     (let (field, rest) =
        (if take 1 source = [34] then readQuotedField source else readUnquotedField source)
      in case rest of
          [] \<Rightarrow> Some [field]
        | _ # rest' \<Rightarrow> map_option (Cons field) (parseCsvText n rest'))"

datatype parsed_fields = Not_utf8 | Too_many_fields | Fields "csv_field list"

definition parseFields :: "byte list \<Rightarrow> nat \<Rightarrow> parsed_fields" where
  "parseFields bytes maximumFields =
     (case decodeUtf8 bytes of
        None \<Rightarrow> Not_utf8
      | Some source \<Rightarrow>
          (case parseCsvText maximumFields source of
             None \<Rightarrow> Too_many_fields
           | Some cells \<Rightarrow> Fields cells))"

definition expectedHeader :: "field_spec list \<Rightarrow> jstring list" where
  "expectedHeader specs = lit ''record_id'' # map fs_key specs"

definition decodeCell :: "csv_field \<Rightarrow> field_spec \<Rightarrow> scalar_value option" where
  "decodeCell cell spec =
     (if \<not> cv_quoted cell \<and> length (cv_text cell) = 0 then Some VNull
      else case fs_valueType spec of
          T_string \<Rightarrow> Some (VString (cv_text cell))
        | T_boolean \<Rightarrow>
            if cv_text cell = lit ''true'' then Some (VBool True)
            else if cv_text cell = lit ''false'' then Some (VBool False) else None
        | T_number \<Rightarrow>
            (case text_number (cv_text cell) of
               None \<Rightarrow> None
             | Some x \<Rightarrow> if scalarMatchesField (VNumber x) spec then Some (VNumber x) else None))"


section \<open>Decoding a document\<close>

record decode_input =
  di_bytes :: "byte list list"
  di_datasetId :: jstring
  di_fields :: "field_spec list"
  di_maxRecordBytes :: js_number
  di_workspaceId :: jstring

text \<open>The byte limit of an accepted configuration, a safe integer.\<close>

definition byte_limit :: "js_number \<Rightarrow> nat" where
  "byte_limit x = nat (js_units x div one_units)"

definition record_location :: "raw_record \<Rightarrow> nat \<Rightarrow> codec_location" where
  "record_location raw recordNumber =
     no_location\<lparr>cl_lineEnd := Some (rr_lineEnd raw), cl_lineStart := Some (rr_lineStart raw),
       cl_recordNumber := Some recordNumber\<rparr>"

definition recordError :: "codec_error_code \<Rightarrow> raw_record \<Rightarrow> nat \<Rightarrow> decode_event" where
  "recordError code raw recordNumber =
     Decode_error (codecError code Scope_record True (record_location raw recordNumber) None)"

text \<open>The loop over the fields: their values, or the field whose cell has none.\<close>

fun decode_cells ::
  "field_spec list \<Rightarrow> csv_field list \<Rightarrow> (record_value list, field_spec option) domain_result"
where
  "decode_cells [] cells = succeed []"
| "decode_cells (spec # specs) [] = fail None"
| "decode_cells (spec # specs) (cell # cells) =
     (case decodeCell cell spec of
        None \<Rightarrow> fail (Some spec)
      | Some v \<Rightarrow> and_then (decode_cells specs cells)
          (\<lambda>rest. succeed (\<lparr>rv_fieldId = fs_fieldId spec, rv_value = v\<rparr> # rest)))"

definition decodeRecord :: "raw_record \<Rightarrow> decode_input \<Rightarrow> nat \<Rightarrow> decode_event" where
  "decodeRecord raw inp recordNumber =
     (case rr_bytes raw of
        None \<Rightarrow> recordError Record_too_large raw recordNumber
      | Some bytes \<Rightarrow>
          if rr_oversized raw then recordError Record_too_large raw recordNumber
          else case parseFields bytes (length (di_fields inp) + 1) of
              Not_utf8 \<Rightarrow> recordError Invalid_utf8 raw recordNumber
            | Too_many_fields \<Rightarrow> recordError Column_count_mismatch raw recordNumber
            | Fields cells \<Rightarrow>
                if length cells \<noteq> length (di_fields inp) + 1
                then recordError Column_count_mismatch raw recordNumber
                else
                  let recordId = (case cells of [] \<Rightarrow> [] | cell # _ \<Rightarrow> cv_text cell);
                      location = (record_location raw recordNumber)\<lparr>cl_recordId := Some recordId\<rparr>
                  in case decode_cells (di_fields inp) (tl cells) of
                      Inl None \<Rightarrow> recordError Column_count_mismatch raw recordNumber
                    | Inl (Some spec) \<Rightarrow>
                        Decode_error (codecError Value_type_mismatch Scope_record True location
                          (Some (fs_key spec)))
                    | Inr values \<Rightarrow>
                        (case normalizeRecord
                             \<lparr>rec_datasetId = di_datasetId inp, rec_recordId = recordId,
                              rec_values = values, rec_workspaceId = di_workspaceId inp\<rparr>
                             (di_fields inp)
                             (Some \<lparr>sc_datasetId = di_datasetId inp, sc_workspaceId = di_workspaceId inp\<rparr>)
                             False of
                           Inr r \<Rightarrow> Decoded r recordNumber
                         | Inl failure \<Rightarrow> Decode_error (validationError failure location True)))"

definition header_matches :: "raw_record \<Rightarrow> field_spec list \<Rightarrow> bool" where
  "header_matches raw specs =
     (let expected = expectedHeader specs
      in case rr_bytes raw of
          None \<Rightarrow> False
        | Some bytes \<Rightarrow>
            (case parseFields bytes (length expected) of
               Fields header \<Rightarrow>
                 length header = length expected \<and>
                 list_all2 (\<lambda>cell key. cv_text cell = key) header expected
             | _ \<Rightarrow> False))"

text \<open>The loop over the framed records, after \<open>n\<close> records if the header was seen.\<close>

fun decode_events :: "decode_input \<Rightarrow> nat option \<Rightarrow> raw_event list \<Rightarrow> decode_event list" where
  "decode_events inp seen [] =
     (if seen = None
      then [Decode_error (codecError Header_invalid Scope_document False
              (no_location\<lparr>cl_lineEnd := Some 1, cl_lineStart := Some 1\<rparr>) None)]
      else [])"
| "decode_events inp seen (Raw_error e # events) = [Decode_error e]"
| "decode_events inp (Some recordNumber) (Raw_record raw # events) =
     decodeRecord raw inp (recordNumber + 1) # decode_events inp (Some (recordNumber + 1)) events"
| "decode_events inp None (Raw_record raw # events) =
     (if header_matches raw (di_fields inp) then decode_events inp (Some 0) events
      else [Decode_error (codecError Header_invalid Scope_document False
              (no_location\<lparr>cl_lineEnd := Some (rr_lineEnd raw),
                 cl_lineStart := Some (rr_lineStart raw)\<rparr>) None)])"

definition decodeCsv :: "decode_input \<Rightarrow> decode_event list" where
  "decodeCsv inp =
     (case configurationError (di_fields inp) (di_maxRecordBytes inp) (Some (di_datasetId inp))
        (Some (di_workspaceId inp)) of
        Some e \<Rightarrow> [Decode_error e]
      | None \<Rightarrow>
          decode_events inp None (records (di_bytes inp) (byte_limit (di_maxRecordBytes inp))))"


section \<open>Encoding a document\<close>

record encode_input =
  ei_datasetId :: jstring
  ei_fields :: "field_spec list"
  ei_maxRecordBytes :: js_number
  ei_records :: "data_record list"
  ei_workspaceId :: jstring

text \<open>\<open>/[",\r\n]/u\<close>\<close>

definition requires_quotes :: "jstring \<Rightarrow> bool" where
  "requires_quotes s \<longleftrightarrow> list_ex (\<lambda>c. c = 34 \<or> c = 44 \<or> c = 13 \<or> c = 10) s"

definition double_quotes :: "jstring \<Rightarrow> jstring" where
  "double_quotes s = concat (map (\<lambda>c. if c = 34 then [34, 34] else [c]) s)"

definition encodeField :: "jstring \<Rightarrow> jstring" where
  "encodeField s =
     (if length s = 0 \<or> requires_quotes s then [34] @ double_quotes s @ [34] else s)"

fun encodeScalar :: "scalar_value \<Rightarrow> jstring" where
  "encodeScalar VNull = []"
| "encodeScalar (VString s) = encodeField s"
| "encodeScalar (VBool b) = (if b then lit ''true'' else lit ''false'')"
| "encodeScalar (VNumber x) = number_text x"

text \<open>The loop over the records, after \<open>n\<close> of them.\<close>

fun encode_records :: "encode_input \<Rightarrow> nat \<Rightarrow> data_record list \<Rightarrow> encode_event list" where
  "encode_records inp n [] = []"
| "encode_records inp n (candidate # candidates) =
     (let recordNumber = n + 1;
          location = no_location\<lparr>cl_recordId := Some (rec_recordId candidate),
            cl_recordNumber := Some recordNumber\<rparr>
      in case normalizeRecord candidate (ei_fields inp)
            (Some \<lparr>sc_datasetId = ei_datasetId inp, sc_workspaceId = ei_workspaceId inp\<rparr>) True of
          Inl failure \<Rightarrow>
            [Encode_error ((validationError failure location True)\<lparr>cx_recoverable := False\<rparr>)]
        | Inr normalized \<Rightarrow>
            let row = join [44] (encodeField (rec_recordId candidate) #
                  map (\<lambda>v. encodeScalar (rv_value v)) (rec_values normalized))
            in if length (encodeUtf8 row) > byte_limit (ei_maxRecordBytes inp)
               then [Encode_error (codecError Record_too_large Scope_record False location None)]
               else Chunk (encodeUtf8 (row @ [13, 10])) (Some recordNumber) #
                 encode_records inp recordNumber candidates)"

definition encodeCsv :: "encode_input \<Rightarrow> encode_event list" where
  "encodeCsv inp =
     (case configurationError (ei_fields inp) (ei_maxRecordBytes inp) (Some (ei_datasetId inp))
        (Some (ei_workspaceId inp)) of
        Some e \<Rightarrow> [Encode_error e]
      | None \<Rightarrow>
          let headerText = join [44] (map encodeField (expectedHeader (ei_fields inp)))
          in if length (encodeUtf8 headerText) > byte_limit (ei_maxRecordBytes inp)
             then [Encode_error (codecError Record_too_large Scope_document False no_location None)]
             else Chunk (encodeUtf8 (headerText @ [13, 10])) None #
               encode_records inp 0 (ei_records inp))"

end
