(* ===== verification/Json_Parse.thy ===== *)
theory Json_Parse
  imports Generation_Query
begin

text \<open>
  \<open>JSON.parse\<close> on the values of \<open>Generation_Query\<close>. A position in a text is the rest of the
  text from there on. The parser is the grammar of ECMA-404 by recursive descent, and the same
  grammar is stated as a relation; the lemmas show that the parser with its fuel reads exactly
  what the grammar reads, and that it reads back what \<open>JSON.stringify\<close> writes. The order in
  which an object lists its members, which the program does not rely on, is the order of the
  text.
\<close>

section \<open>Tokens\<close>

definition json_space :: "code_unit \<Rightarrow> bool" where
  "json_space u \<longleftrightarrow> u = 9 \<or> u = 10 \<or> u = 13 \<or> u = 32"

definition skip_space :: "jstring \<Rightarrow> jstring" where
  "skip_space s = dropWhile json_space s"

definition hex_value :: "code_unit \<Rightarrow> code_unit option" where
  "hex_value u =
     (if 48 \<le> u \<and> u \<le> 57 then Some (u - 48)
      else if 97 \<le> u \<and> u \<le> 102 then Some (u - 87)
      else if 65 \<le> u \<and> u \<le> 70 then Some (u - 55) else None)"

definition hex_code :: "code_unit \<Rightarrow> code_unit \<Rightarrow> code_unit \<Rightarrow> code_unit \<Rightarrow> code_unit option" where
  "hex_code a b c d =
     (case (hex_value a, hex_value b, hex_value c, hex_value d) of
        (Some a, Some b, Some c, Some d) \<Rightarrow> Some (a * 4096 + b * 256 + c * 16 + d)
      | _ \<Rightarrow> None)"

definition escaped_unit :: "code_unit \<Rightarrow> code_unit option" where
  "escaped_unit e =
     (if e = 34 \<or> e = 92 \<or> e = 47 then Some e else if e = 98 then Some 8
      else if e = 102 then Some 12 else if e = 110 then Some 10 else if e = 114 then Some 13
      else if e = 116 then Some 9 else None)"

text \<open>The content of a string after its opening quote, and the text after the closing one.\<close>

fun read_text :: "jstring \<Rightarrow> (jstring \<times> jstring) option" where
  "read_text [] = None"
| "read_text (c # t) =
     (if c = 34 then Some ([], t)
      else if c < 32 then None
      else if c \<noteq> 92 then map_option (apfst (Cons c)) (read_text t)
      else case t of
          [] \<Rightarrow> None
        | e # t \<Rightarrow>
            if e = 117 then
              (case t of
                 a # b # c # d # t \<Rightarrow>
                   (case hex_code a b c d of
                      None \<Rightarrow> None
                    | Some u \<Rightarrow> map_option (apfst (Cons u)) (read_text t))
               | _ \<Rightarrow> None)
            else
              (case escaped_unit e of
                 None \<Rightarrow> None
               | Some u \<Rightarrow> map_option (apfst (Cons u)) (read_text t)))"

text \<open>
  A number token is read to its last digit, sign, point or exponent letter: any of these after
  a number is a syntax error in either reading.
\<close>

definition json_number_unit :: "code_unit \<Rightarrow> bool" where
  "json_number_unit u \<longleftrightarrow> decimal_digit u \<or> u = 43 \<or> u = 45 \<or> u = 46 \<or> u = 69 \<or> u = 101"

definition read_number :: "jstring \<Rightarrow> (query_value \<times> jstring) option" where
  "read_number s =
     map_option (\<lambda>x. (Q_number x, dropWhile json_number_unit s))
       (text_number (takeWhile json_number_unit s))"

definition read_literal :: "jstring \<Rightarrow> query_value \<Rightarrow> jstring \<Rightarrow> (query_value \<times> jstring) option" where
  "read_literal name v s =
     (if take (length name) s = name then Some (v, drop (length name) s) else None)"

definition read_atom :: "jstring \<Rightarrow> (query_value \<times> jstring) option" where
  "read_atom s =
     (if hd s = 110 then read_literal (lit ''null'') Q_null s
      else if hd s = 116 then read_literal (lit ''true'') (Q_boolean True) s
      else if hd s = 102 then read_literal (lit ''false'') (Q_boolean False) s
      else read_number s)"


section \<open>The parser\<close>

fun parse_value :: "nat \<Rightarrow> jstring \<Rightarrow> (query_value \<times> jstring) option"
and parse_elements :: "nat \<Rightarrow> jstring \<Rightarrow> (query_value list \<times> jstring) option"
and parse_members :: "nat \<Rightarrow> jstring \<Rightarrow> ((jstring \<times> query_value) list \<times> jstring) option"
where
  "parse_value 0 s = None"
| "parse_value (Suc n) s =
     (case skip_space s of
        [] \<Rightarrow> None
      | c # t \<Rightarrow>
          if c = 34 then map_option (apfst Q_string) (read_text t)
          else if c = 91 then
            (case skip_space t of
               [] \<Rightarrow> None
             | d # r \<Rightarrow>
                 if d = 93 then Some (Q_array [], r)
                 else map_option (apfst Q_array) (parse_elements n t))
          else if c = 123 then
            (case skip_space t of
               [] \<Rightarrow> None
             | d # r \<Rightarrow>
                 if d = 125 then Some (Q_object [], r)
                 else map_option (apfst Q_object) (parse_members n t))
          else read_atom (c # t))"
| "parse_elements 0 s = None"
| "parse_elements (Suc n) s =
     (case parse_value n s of
        None \<Rightarrow> None
      | Some (v, r) \<Rightarrow>
          (case skip_space r of
             [] \<Rightarrow> None
           | c # t \<Rightarrow>
               if c = 93 then Some ([v], t)
               else if c = 44 then map_option (apfst (Cons v)) (parse_elements n t)
               else None))"
| "parse_members 0 s = None"
| "parse_members (Suc n) s =
     (case skip_space s of
        [] \<Rightarrow> None
      | c # t \<Rightarrow>
          if c \<noteq> 34 then None
          else (case read_text t of
              None \<Rightarrow> None
            | Some (k, r) \<Rightarrow>
                (case skip_space r of
                   [] \<Rightarrow> None
                 | c # t \<Rightarrow>
                     if c \<noteq> 58 then None
                     else (case parse_value n t of
                         None \<Rightarrow> None
                       | Some (v, r) \<Rightarrow>
                           (case skip_space r of
                              [] \<Rightarrow> None
                            | c # t \<Rightarrow>
                                if c = 125 then Some ([(k, v)], t)
                                else if c = 44
                                then map_option (apfst (Cons (k, v))) (parse_members n t)
                                else None)))))"

definition json_fuel :: "jstring \<Rightarrow> nat" where
  "json_fuel s = 2 * length s + 1"

text \<open>The value as it is written, with every member of an object.\<close>

definition json_tree :: "jstring \<Rightarrow> query_value option" where
  "json_tree s =
     (case parse_value (json_fuel s) s of
        Some (v, r) \<Rightarrow> if skip_space r = [] then Some v else None
      | None \<Rightarrow> None)"

text \<open>A repeated key keeps the place of its first member and the value of its last.\<close>

fun merge_members :: "query_value \<Rightarrow> query_value" where
  "merge_members (Q_array vs) = Q_array (map merge_members vs)"
| "merge_members (Q_object kvs) = Q_object (map_from (map (\<lambda>(k, v). (k, merge_members v)) kvs))"
| "merge_members v = v"

definition json_parse :: "jstring \<Rightarrow> query_value option" where
  "json_parse s = map_option merge_members (json_tree s)"

declare parse_value.simps(2) [simp del] parse_elements.simps(2) [simp del]
  parse_members.simps(2) [simp del]

lemmas parse_induct = parse_value_parse_elements_parse_members.induct


section \<open>The grammar\<close>

text \<open>The same syntax as a relation between a text, the value it starts with and what follows.\<close>

inductive reads_value :: "jstring \<Rightarrow> query_value \<Rightarrow> jstring \<Rightarrow> bool"
and reads_elements :: "jstring \<Rightarrow> query_value list \<Rightarrow> jstring \<Rightarrow> bool"
and reads_members :: "jstring \<Rightarrow> (jstring \<times> query_value) list \<Rightarrow> jstring \<Rightarrow> bool"
where
  reads_string: "skip_space s = 34 # t \<Longrightarrow> read_text t = Some (k, r) \<Longrightarrow> reads_value s (Q_string k) r"
| reads_empty_array:
    "skip_space s = 91 # t \<Longrightarrow> skip_space t = 93 # r \<Longrightarrow> reads_value s (Q_array []) r"
| reads_array:
    "skip_space s = 91 # t \<Longrightarrow> reads_elements t vs r \<Longrightarrow> reads_value s (Q_array vs) r"
| reads_empty_object:
    "skip_space s = 123 # t \<Longrightarrow> skip_space t = 125 # r \<Longrightarrow> reads_value s (Q_object []) r"
| reads_object:
    "skip_space s = 123 # t \<Longrightarrow> reads_members t kvs r \<Longrightarrow> reads_value s (Q_object kvs) r"
| reads_atom:
    "skip_space s = c # t \<Longrightarrow> c \<noteq> 34 \<Longrightarrow> c \<noteq> 91 \<Longrightarrow> c \<noteq> 123 \<Longrightarrow> read_atom (c # t) = Some (v, r) \<Longrightarrow>
     reads_value s v r"
| reads_last:
    "reads_value s v r \<Longrightarrow> skip_space r = 93 # t \<Longrightarrow> reads_elements s [v] t"
| reads_more:
    "reads_value s v r \<Longrightarrow> skip_space r = 44 # t \<Longrightarrow> reads_elements t vs u \<Longrightarrow>
     reads_elements s (v # vs) u"
| reads_last_member:
    "skip_space s = 34 # t \<Longrightarrow> read_text t = Some (k, r) \<Longrightarrow> skip_space r = 58 # u \<Longrightarrow>
     reads_value u v w \<Longrightarrow> skip_space w = 125 # x \<Longrightarrow> reads_members s [(k, v)] x"
| reads_more_members:
    "skip_space s = 34 # t \<Longrightarrow> read_text t = Some (k, r) \<Longrightarrow> skip_space r = 58 # u \<Longrightarrow>
     reads_value u v w \<Longrightarrow> skip_space w = 44 # x \<Longrightarrow> reads_members x kvs y \<Longrightarrow>
     reads_members s ((k, v) # kvs) y"

lemmas reads_induct = reads_value_reads_elements_reads_members.inducts

lemma parse_reads:
  "parse_value n s = Some (v, r) \<Longrightarrow> reads_value s v r"
  "parse_elements n s = Some (vs, r) \<Longrightarrow> reads_elements s vs r"
  "parse_members n s = Some (kvs, r) \<Longrightarrow> reads_members s kvs r"
proof (induction n s and n s and n s arbitrary: v r and vs r and kvs r rule: parse_induct)
  case (2 n s)
  from "2.prems" obtain c t where ct: "skip_space s = c # t"
    by (auto simp: parse_value.simps(2) split: list.splits)
  with 2 show ?case
    by (auto simp: parse_value.simps(2) intro: reads_value_reads_elements_reads_members.intros
        split: if_splits list.splits)
next
  case (4 n s)
  from "4.prems" obtain a b c t where ab: "parse_value n s = Some (a, b)" "skip_space b = c # t"
    by (auto simp: parse_elements.simps(2) split: option.splits list.splits)
  with "4.IH"(1) have value_read: "reads_value s a b" by blast
  from "4.prems" ab consider "c = 93" "vs = [a]" "r = t"
    | us where "c = 44" "c \<noteq> 93" "parse_elements n t = Some (us, r)" "vs = a # us"
    by (auto simp: parse_elements.simps(2) split: if_splits)
  then show ?case
  proof cases
    case 1
    with ab value_read show ?thesis by (simp add: reads_last)
  next
    case 2
    with "4.IH"(2) [OF ab(1) refl ab(2)] have "reads_elements t us r" by blast
    with 2 ab value_read show ?thesis by (auto intro: reads_more)
  qed
next
  case (6 n s)
  from "6.prems" obtain t k u c t' where k: "skip_space s = 34 # t" "read_text t = Some (k, u)"
      "skip_space u = 58 # t'"
    by (auto simp: parse_members.simps(2) split: option.splits list.splits if_splits)
  with "6.prems" obtain a b c x where ab: "parse_value n t' = Some (a, b)" "skip_space b = c # x"
    by (auto simp: parse_members.simps(2) split: option.splits list.splits)
  have value_read: "reads_value t' a b"
    by (rule "6.IH"(1) [OF k(1) _ k(2) refl k(3) _ ab(1)]) simp_all
  from "6.prems" k ab consider "c = 125" "kvs = [(k, a)]" "r = x"
    | us where "c = 44" "c \<noteq> 125" "parse_members n x = Some (us, r)" "kvs = (k, a) # us"
    by (auto simp: parse_members.simps(2) split: if_splits)
  then show ?case
  proof cases
    case 1
    with k ab value_read show ?thesis by (auto intro: reads_last_member)
  next
    case 2
    have "reads_members x us r"
      by (rule "6.IH"(2) [OF k(1) _ k(2) refl k(3) _ ab(1) refl ab(2)]) (use 2 in simp_all)
    with 2 k ab value_read show ?thesis by (auto intro: reads_more_members)
  qed
qed simp_all


section \<open>Fuel\<close>

lemma skip_space_Cons: "skip_space s = c # t \<Longrightarrow> length t < length s"
  using length_dropWhile_le [of json_space s] by (simp add: skip_space_def)

lemma read_text_length: "read_text s = Some (k, r) \<Longrightarrow> length r < length s"
proof (induction s arbitrary: k r rule: read_text.induct)
  case (2 c t)
  then show ?case
    by (auto split: if_splits list.splits option.splits) fastforce+
qed simp

lemma read_atom_length: "read_atom s = Some (v, r) \<Longrightarrow> length r \<le> length s"
  by (auto simp: read_atom_def read_number_def read_literal_def length_dropWhile_le split: if_splits)

text \<open>What is read leaves a rest of the text.\<close>

lemma reads_length:
  "reads_value s v r \<Longrightarrow> length r \<le> length s"
  "reads_elements s vs r \<Longrightarrow> length r < length s"
  "reads_members s kvs r \<Longrightarrow> length r < length s"
  by (induction rule: reads_induct)
    (auto dest!: skip_space_Cons read_text_length dest: read_atom_length)

text \<open>An element never starts with a closing bracket.\<close>

lemma read_atom_close: "read_atom (c # t) = Some x \<Longrightarrow> c \<noteq> 93 \<and> c \<noteq> 125"
  by (auto simp: read_atom_def read_number_def json_number_unit_def text_number_def read_unsigned_def
      decimal_digit_def)

lemma reads_start:
  "reads_value s v r \<Longrightarrow> \<exists>c t. skip_space s = c # t \<and> c \<noteq> 93"
  "reads_elements s vs r \<Longrightarrow> \<exists>c t. skip_space s = c # t \<and> c \<noteq> 93"
  "reads_members s kvs r \<Longrightarrow> \<exists>t. skip_space s = 34 # t"
  by (induction rule: reads_induct) (auto dest: read_atom_close)

text \<open>The parser with enough fuel reads what the grammar reads.\<close>

lemma reads_parse:
  "reads_value s v r \<Longrightarrow> 2 * length s + 1 \<le> n \<Longrightarrow> parse_value n s = Some (v, r)"
  "reads_elements s vs r \<Longrightarrow> 2 * length s + 2 \<le> n \<Longrightarrow> parse_elements n s = Some (vs, r)"
  "reads_members s kvs r \<Longrightarrow> 2 * length s + 2 \<le> n \<Longrightarrow> parse_members n s = Some (kvs, r)"
proof (induction arbitrary: n and n and n rule: reads_induct)
  case (reads_string s t k r)
  then show ?case by (cases n) (auto simp: parse_value.simps(2))
next
  case (reads_array s t vs r)
  then have "2 * length t + 2 \<le> n - 1" using skip_space_Cons [of s] by fastforce
  with reads_array reads_start(2) [of t vs r] show ?case
    by (cases n) (auto simp: parse_value.simps(2))
next
  case (reads_object s t kvs r)
  then have "2 * length t + 2 \<le> n - 1" using skip_space_Cons [of s] by fastforce
  with reads_object reads_start(3) [of t kvs r] show ?case
    by (cases n) (auto simp: parse_value.simps(2))
next
  case (reads_last s v r t)
  then show ?case by (cases n) (auto simp: parse_elements.simps(2))
next
  case (reads_more s v r t vs u)
  then have "2 * length t + 2 \<le> n - 1"
    using skip_space_Cons [of r] reads_length(1) [of s v r] by fastforce
  with reads_more show ?case by (cases n) (auto simp: parse_elements.simps(2))
next
  case (reads_last_member s t k r u v w x)
  then have "2 * length u + 1 \<le> n - 1"
    using skip_space_Cons [of s] skip_space_Cons [of r] read_text_length [of t] by fastforce
  with reads_last_member show ?case by (cases n) (auto simp: parse_members.simps(2))
next
  case (reads_more_members s t k r u v w x kvs y)
  then have "2 * length u + 1 \<le> n - 1" "2 * length x + 2 \<le> n - 1"
    using skip_space_Cons [of s] skip_space_Cons [of r] read_text_length [of t] skip_space_Cons [of w]
      reads_length(1) [of u v w] by fastforce+
  with reads_more_members show ?case by (cases n) (auto simp: parse_members.simps(2))
next
  case (reads_empty_array s t r)
  then show ?case by (cases n) (auto simp: parse_value.simps(2))
next
  case (reads_empty_object s t r)
  then show ?case by (cases n) (auto simp: parse_value.simps(2))
next
  case (reads_atom s c t v r)
  then show ?case by (cases n) (auto simp: parse_value.simps(2))
qed

text \<open>So the fuel of \<open>json_tree\<close> is enough: it gives exactly the reading of the whole text.\<close>

lemma json_tree_iff:
  "json_tree s = Some v \<longleftrightarrow> (\<exists>r. reads_value s v r \<and> skip_space r = [])"
proof
  assume "json_tree s = Some v"
  then show "\<exists>r. reads_value s v r \<and> skip_space r = []"
    using parse_reads(1) [of "json_fuel s" s v]
    by (auto simp: json_tree_def split: option.splits if_splits)
next
  assume "\<exists>r. reads_value s v r \<and> skip_space r = []"
  then show "json_tree s = Some v"
    using reads_parse(1) [of s v _ "json_fuel s"] by (auto simp: json_tree_def json_fuel_def)
qed


section \<open>Reading back what is written\<close>

lemma hex_value_unit [simp]: "d < 16 \<Longrightarrow> hex_value (hex_unit d) = Some d"
  by (auto simp: hex_value_def hex_unit_def word_less_nat_alt word_le_nat_alt unat_word_ariths
      word_unat_eq_iff)

lemma read_text_escape:
  "read_text (unicode_escape u @ t) = map_option (apfst (Cons u)) (read_text t)"
  by (simp add: unicode_escape_def hex_code_def escape_value)

lemma read_text_unit:
  "read_text (quote_unit u @ t) = map_option (apfst (Cons u)) (read_text t)"
  by (auto simp: quote_unit_def read_text_escape escaped_unit_def)

lemma read_text_quoted: "read_text (quote_units s @ 34 # t) = Some (s, t)"
proof (induction s rule: quote_units.induct)
  case (2 u)
  then show ?case by (simp add: read_text_escape read_text_unit)
next
  case (3 u v s)
  have "\<not> u < 32 \<and> u \<noteq> 34 \<and> u \<noteq> 92" if "high_surrogate u \<or> low_surrogate u" for u
    using that by (auto simp: high_surrogate_def low_surrogate_def word_less_nat_alt word_le_nat_alt)
  with 3 show ?case
    by (auto simp: read_text_escape read_text_unit)
qed simp

lemma skip_space_id: "s = [] \<or> \<not> json_space (hd s) \<Longrightarrow> skip_space s = s"
  by (cases s) (auto simp: skip_space_def)

lemma skip_space_simps [simp]:
  "skip_space [] = []" "skip_space (34 # t) = 34 # t" "skip_space (91 # t) = 91 # t"
  "skip_space (93 # t) = 93 # t" "skip_space (123 # t) = 123 # t" "skip_space (125 # t) = 125 # t"
  "skip_space (44 # t) = 44 # t" "skip_space (58 # t) = 58 # t"
  by (simp_all add: skip_space_def json_space_def)

text \<open>The numbers of a value are doubles that a text keeps.\<close>

definition exact_number :: "js_number \<Rightarrow> bool" where
  "exact_number x \<longleftrightarrow> representable x \<and> is_finite x \<and> x \<noteq> NegZero"

fun exact_value :: "query_value \<Rightarrow> bool" where
  "exact_value (Q_number x) = exact_number x"
| "exact_value (Q_array vs) = list_all exact_value vs"
| "exact_value (Q_object kvs) = list_all (\<lambda>(k, v). exact_value v) kvs"
| "exact_value v = True"

lemma number_text_nonempty: "is_finite x \<Longrightarrow> number_text x \<noteq> []"
  using ascii_number_text [of x] by (cases x) (auto simp: ascii_start_def)

lemma read_number_text:
  assumes "exact_number x" and "json_ends r"
  shows "read_number (number_text x @ r) = Some (Q_number x, r)"
proof -
  have units: "list_all json_number_unit (number_text x)"
    using number_text_units [of x] assms(1)
    by (auto simp: exact_number_def list_all_iff number_unit_def json_number_unit_def)
  have "takeWhile json_number_unit r = []" "dropWhile json_number_unit r = r"
    using assms(2) by (auto simp: json_ends_def json_number_unit_def decimal_digit_def split: list.splits)
  with units have "takeWhile json_number_unit (number_text x @ r) = number_text x"
    "dropWhile json_number_unit (number_text x @ r) = r"
    by (simp_all add: takeWhile_append2 dropWhile_append2 list_all_iff)
  then show ?thesis
    using text_number_text assms(1) by (simp add: read_number_def exact_number_def)
qed

lemma number_text_start:
  assumes "exact_number x"
  obtains c t where "number_text x = c # t" "json_number_unit c" "c \<noteq> 69" "c \<noteq> 101"
proof -
  have "number_text x \<noteq> []" using assms by (simp add: exact_number_def number_text_nonempty)
  then obtain c t where ct: "number_text x = c # t" by (cases "number_text x") auto
  moreover have "json_number_unit c"
    using number_text_units [of x] assms ct
    by (auto simp: exact_number_def list_all_iff number_unit_def json_number_unit_def)
  moreover have "c \<noteq> 69 \<and> c \<noteq> 101"
    using text_number_text [of x] assms ct
    by (auto simp: exact_number_def text_number_def read_unsigned_def decimal_digit_def)
  ultimately show thesis using that by blast
qed

text \<open>The elements of a list, each with the comma or the bracket after it.\<close>

lemma reads_joined:
  assumes "vs \<noteq> []" and "\<And>v t. v \<in> set vs \<Longrightarrow> json_ends t \<Longrightarrow> reads_value (query_text v @ t) v t"
  shows "reads_elements (join [44] (map query_text vs) @ 93 # r) vs r"
  using assms
proof (induction vs)
  case (Cons v vs)
  show ?case
  proof (cases vs)
    case Nil
    have "reads_value (query_text v @ 93 # r) v (93 # r)"
      by (rule Cons.prems(2)) (simp_all add: json_ends_def)
    then show ?thesis by (simp add: Nil reads_last)
  next
    case (Cons w ws)
    have "reads_value (query_text v @ 44 # join [44] (map query_text vs) @ 93 # r) v
        (44 # join [44] (map query_text vs) @ 93 # r)"
      by (rule Cons.prems(2)) (simp_all add: json_ends_def)
    moreover have "reads_elements (join [44] (map query_text vs) @ 93 # r) vs r"
      by (rule Cons.IH) (use Cons Cons.prems(2) in auto)
    ultimately show ?thesis
      by (auto simp: Cons join_Cons2 intro: reads_more)
  qed
qed simp

definition member_text :: "jstring \<times> query_value \<Rightarrow> jstring" where
  "member_text kv = (case kv of (k, q) \<Rightarrow> json_string k @ [58] @ query_text q)"

lemma reads_joined_members:
  assumes "kvs \<noteq> []"
    and "\<And>k v t. (k, v) \<in> set kvs \<Longrightarrow> json_ends t \<Longrightarrow> reads_value (query_text v @ t) v t"
  shows "reads_members (join [44] (map member_text kvs) @ 125 # r) kvs r"
  using assms
proof (induction kvs)
  case (Cons kv kvs)
  obtain k v where kv: "kv = (k, v)" by (cases kv)
  have shape: "member_text (k, v) @ t = 34 # quote_units k @ 34 # 58 # query_text v @ t" for t
    by (simp add: member_text_def json_string_def)
  have read: "reads_value (query_text v @ t) v t" if "json_ends t" for t
    using Cons.prems(2) that by (auto simp: kv)
  show ?case
  proof (cases kvs)
    case Nil
    then show ?thesis
      unfolding kv Nil
      by (auto simp: shape json_ends_def read_text_quoted intro!: reads_last_member read)
  next
    case (Cons w ws)
    have "reads_members (join [44] (map member_text kvs) @ 125 # r) kvs r"
      by (rule Cons.IH) (use Cons Cons.prems(2) in auto)
    then have "reads_members (34 # quote_units k @ 34 # 58 # query_text v @ 44 #
        join [44] (map member_text kvs) @ 125 # r) ((k, v) # kvs) r"
      by (auto simp: json_ends_def read_text_quoted intro!: reads_more_members read)
    then show ?thesis by (simp add: kv Cons join_Cons2 shape)
  qed
qed simp

lemma read_literal_text: "read_literal name v (name @ r) = Some (v, r)"
  by (simp add: read_literal_def)

lemma reads_query_text:
  "exact_value v \<Longrightarrow> json_ends r \<Longrightarrow> reads_value (query_text v @ r) v r"
proof (induction v arbitrary: r)
  case Q_null
  show ?case
    by (rule reads_atom [of _ 110 "lit ''ull'' @ r"])
      (simp_all add: lit_def skip_space_def json_space_def read_atom_def read_literal_def)
next
  case (Q_boolean b)
  show ?case
    by (cases b; rule reads_atom [of _ "if b then 116 else 102" "lit (if b then ''rue'' else ''alse'') @ r"])
      (simp_all add: lit_def skip_space_def json_space_def read_atom_def read_literal_def)
next
  case (Q_number x)
  then obtain c t where ct: "number_text x = c # t" "json_number_unit c" "c \<noteq> 69" "c \<noteq> 101"
    using number_text_start by auto
  have "read_atom (c # t @ r) = Some (Q_number x, r)"
    using read_number_text [of x r] Q_number ct
    by (auto simp: read_atom_def json_number_unit_def decimal_digit_def)
  then show ?case
    using ct by (intro reads_atom [of _ c "t @ r"])
      (auto simp: json_number_unit_def decimal_digit_def skip_space_def json_space_def)
next
  case (Q_string s)
  show ?case
    by (rule reads_string [of _ "quote_units s @ 34 # r"]) (simp_all add: json_string_def read_text_quoted)
next
  case (Q_array vs)
  show ?case
  proof (cases "vs = []")
    case False
    then have "reads_elements (join [44] (map query_text vs) @ 93 # r) vs r"
      by (rule reads_joined) (use Q_array in \<open>auto simp: list_all_iff\<close>)
    then show ?thesis by (auto intro!: reads_array)
  qed (auto intro!: reads_empty_array)
next
  case (Q_object kvs)
  show ?case
  proof (cases "kvs = []")
    case False
    then have "reads_members (join [44] (map member_text kvs) @ 125 # r) kvs r"
      by (rule reads_joined_members) (use Q_object in \<open>fastforce simp: list_all_iff\<close>)
    moreover have "member_text = (\<lambda>(k, q). json_string k @ 58 # query_text q)"
      by (auto simp: fun_eq_iff member_text_def)
    ultimately show ?thesis by (auto intro!: reads_object)
  qed (auto intro!: reads_empty_object)
qed

text \<open>\<open>JSON.parse(JSON.stringify(v))\<close> reads the tree back.\<close>

lemma json_tree_text: "exact_value v \<Longrightarrow> json_tree (query_text v) = Some v"
  using reads_query_text [of v "[]"] by (auto simp: json_tree_iff json_ends_def)

end
