(* ===== verification/Strict_Json.thy ===== *)
theory Strict_Json
  imports Json_Parse
begin

text \<open>
  \<open>adapters/dataset-codec/src/strict-json.ts\<close>: a scan of the text that refuses repeated keys,
  too many keys and too deep nesting before the text is parsed. A cursor is the rest of the text
  from it on; the stack of contexts has its top at the head. The scan is compared with the tree
  that the parser reads from the same text.
\<close>

section \<open>The scan\<close>

definition MAX_JSON_NESTING_DEPTH :: nat where "MAX_JSON_NESTING_DEPTH = 64"
definition MAX_JSON_OBJECT_KEYS :: nat where "MAX_JSON_OBJECT_KEYS = 512"

datatype json_context = Array_context | Object_context bool "jstring list"

text \<open>The rest of a string token after its opening quote, and what follows the token.\<close>

fun stringEnd :: "jstring \<Rightarrow> (jstring \<times> jstring) option" where
  "stringEnd [] = None"
| "stringEnd (c # t) =
     (if c = 34 then Some ([34], t)
      else if c = 92 then
        (case t of
           [] \<Rightarrow> None
         | e # t \<Rightarrow> map_option (apfst (\<lambda>a. c # e # a)) (stringEnd t))
      else map_option (apfst (Cons c)) (stringEnd t))"

definition decodedKey :: "jstring \<Rightarrow> jstring option" where
  "decodedKey token =
     (case json_parse token of Some (Q_string k) \<Rightarrow> Some k | _ \<Rightarrow> None)"

definition scanString :: "jstring \<Rightarrow> json_context list \<Rightarrow> (jstring \<times> json_context list) option" where
  "scanString t contexts =
     (case stringEnd t of
        None \<Rightarrow> None
      | Some (token, rest) \<Rightarrow>
          (case contexts of
             Object_context True keys # outer \<Rightarrow>
               (case decodedKey (34 # token) of
                  None \<Rightarrow> None
                | Some key \<Rightarrow>
                    if key \<in> set keys \<or> length keys \<ge> MAX_JSON_OBJECT_KEYS then None
                    else Some (rest, Object_context False (key # keys) # outer))
           | _ \<Rightarrow> Some (rest, contexts)))"

definition updateContexts :: "code_unit \<Rightarrow> json_context list \<Rightarrow> json_context list option" where
  "updateContexts c contexts =
     (if c = 123 then
        (if length contexts \<ge> MAX_JSON_NESTING_DEPTH then None
         else Some (Object_context True [] # contexts))
      else if c = 91 then
        (if length contexts \<ge> MAX_JSON_NESTING_DEPTH then None
         else Some (Array_context # contexts))
      else if c = 125 \<or> c = 93 then Some (tl contexts)
      else if c = 44 then
        Some (case contexts of
            Object_context _ keys # outer \<Rightarrow> Object_context True keys # outer
          | _ \<Rightarrow> contexts)
      else Some contexts)"

lemma stringEnd_length: "stringEnd t = Some (token, rest) \<Longrightarrow> length rest < length t"
proof (induction t arbitrary: token rest rule: stringEnd.induct)
  case (2 c t)
  then show ?case by (auto split: if_splits list.splits) fastforce+
qed simp

lemma scanString_length: "scanString t contexts = Some (rest, contexts') \<Longrightarrow> length rest < length t"
  by (auto simp: scanString_def dest: stringEnd_length
      split: option.splits list.splits json_context.splits bool.splits if_splits)

function scan :: "json_context list \<Rightarrow> jstring \<Rightarrow> bool" where
  "scan contexts [] = True"
| "scan contexts (c # t) =
     (if c = 34 then
        (case scanString t contexts of
           None \<Rightarrow> False
         | Some (rest, contexts) \<Rightarrow> scan contexts rest)
      else
        (case updateContexts c contexts of
           None \<Rightarrow> False
         | Some contexts \<Rightarrow> scan contexts t))"
  by pat_completeness auto

text \<open>The scan ends: every step moves the cursor forward.\<close>

termination
  by (relation "measure (\<lambda>(contexts, s). length s)") (auto dest: scanString_length)

declare scan.simps(2) [simp del]

definition hasUniqueObjectKeys :: "jstring \<Rightarrow> bool" where
  "hasUniqueObjectKeys source = scan [] source"

definition parseJsonWithUniqueObjectKeys :: "jstring \<Rightarrow> query_value option" where
  "parseJsonWithUniqueObjectKeys source =
     (if \<not> hasUniqueObjectKeys source then None else json_parse source)"


section \<open>Strict values\<close>

text \<open>What the scan promises of a value that lies inside \<open>d\<close> arrays and objects.\<close>

fun strict_value :: "nat \<Rightarrow> query_value \<Rightarrow> bool" where
  "strict_value d (Q_array vs) \<longleftrightarrow>
     d < MAX_JSON_NESTING_DEPTH \<and> list_all (strict_value (Suc d)) vs"
| "strict_value d (Q_object kvs) \<longleftrightarrow>
     d < MAX_JSON_NESTING_DEPTH \<and> distinct (map fst kvs) \<and>
     length kvs \<le> MAX_JSON_OBJECT_KEYS \<and> list_all (\<lambda>(k, v). strict_value (Suc d) v) kvs"
| "strict_value d v \<longleftrightarrow> True"

text \<open>Characters that the scan passes over.\<close>

definition neutral :: "code_unit \<Rightarrow> bool" where
  "neutral c \<longleftrightarrow> c \<notin> {34, 44, 91, 93, 123, 125}"

lemma scan_neutral: "neutral c \<Longrightarrow> scan contexts (c # t) = scan contexts t"
  by (simp add: neutral_def updateContexts_def scan.simps(2))

lemma scan_neutrals: "list_all neutral s \<Longrightarrow> scan contexts (s @ t) = scan contexts t"
  by (induction s) (simp_all add: scan_neutral)

lemma scan_space: "scan contexts (skip_space s) = scan contexts s"
proof (induction s)
  case (Cons c s)
  show ?case
  proof (cases "json_space c")
    case True
    then have "neutral c" by (auto simp: json_space_def neutral_def)
    then have "scan contexts (c # s) = scan contexts s" by (rule scan_neutral)
    with True Cons show ?thesis by (simp add: skip_space_def)
  qed (simp add: skip_space_def)
qed (simp add: skip_space_def)

lemma scan_skipped: "skip_space s = t \<Longrightarrow> scan contexts s = scan contexts t"
  using scan_space by blast

text \<open>A literal or a number has no character that the scan acts on.\<close>

lemma neutral_number: "json_number_unit c \<Longrightarrow> neutral c"
  by (auto simp: json_number_unit_def neutral_def decimal_digit_def)

lemma neutral_literals:
  "list_all neutral (lit ''null'')" "list_all neutral (lit ''true'')" "list_all neutral (lit ''false'')"
  by (simp_all add: lit_def neutral_def)

lemma read_literal_split: "read_literal name w s = Some (v, r) \<Longrightarrow> s = name @ r"
  by (auto simp: read_literal_def split: if_splits) (metis append_take_drop_id)

lemma scan_atom: "read_atom s = Some (v, r) \<Longrightarrow> scan contexts s = scan contexts r"
proof -
  assume read: "read_atom s = Some (v, r)"
  have "list_all neutral (takeWhile json_number_unit s)"
    by (auto simp: list_all_iff dest!: set_takeWhileD intro: neutral_number)
  from scan_neutrals [OF this, of contexts "dropWhile json_number_unit s"]
  have number: "scan contexts s = scan contexts (dropWhile json_number_unit s)"
    by (simp only: takeWhile_dropWhile_id)
  show ?thesis
  proof (cases "read_number s = Some (v, r)")
    case True
    with number show ?thesis by (auto simp: read_number_def)
  next
    case False
    with read have "s = lit ''null'' @ r \<or> s = lit ''true'' @ r \<or> s = lit ''false'' @ r"
      unfolding read_atom_def by (auto split: if_splits dest: read_literal_split)
    then show ?thesis
      using scan_neutrals [OF neutral_literals(1)] scan_neutrals [OF neutral_literals(2)]
        scan_neutrals [OF neutral_literals(3)] by blast
  qed
qed

text \<open>Both readings of a string token end at the same quote.\<close>

lemma hex_unit_plain: "hex_value a \<noteq> None \<Longrightarrow> a \<noteq> 34 \<and> a \<noteq> 92"
  by (auto simp: hex_value_def)

lemma stringEnd_read:
  "read_text t = Some (k, r) \<Longrightarrow>
   \<exists>token. stringEnd t = Some (token, r) \<and> read_text token = Some (k, [])"
proof (induction t arbitrary: k r rule: read_text.induct)
  case (2 c t)
  show ?case
  proof (cases "c = 92")
    case False
    with 2 show ?thesis by (auto split: if_splits)
  next
    case True
    with "2.prems" obtain e u where t: "t = e # u" by (cases t) auto
    show ?thesis
    proof (cases "e = 117")
      case False
      with True t 2 show ?thesis by (auto split: option.splits) fastforce
    next
      case hex: True
      with True t "2.prems" obtain a b c' d w x where u: "u = a # b # c' # d # w"
        and x: "hex_code a b c' d = Some x" and w: "map_option (apfst (Cons x)) (read_text w) = Some (k, r)"
        by (auto split: list.splits option.splits)
      then obtain k' where k': "read_text w = Some (k', r)" "k = x # k'" by auto
      obtain token where token: "stringEnd w = Some (token, r)" "read_text token = Some (k', [])"
        using "2.IH"(2) [OF _ _ _ t hex u refl refl refl x k'(1)] True by auto
      have "hex_value a \<noteq> None" "hex_value b \<noteq> None" "hex_value c' \<noteq> None" "hex_value d \<noteq> None"
        using x by (auto simp: hex_code_def split: option.splits)
      then show ?thesis
        using token hex_unit_plain x True t hex u k'(2) by auto
    qed
  qed
qed simp

lemma decoded_key: "read_text token = Some (k, []) \<Longrightarrow> decodedKey (34 # token) = Some k"
proof -
  assume "read_text token = Some (k, [])"
  then have "reads_value (34 # token) (Q_string k) []"
    by (intro reads_string) (simp_all add: skip_space_def json_space_def)
  then have "json_tree (34 # token) = Some (Q_string k)"
    by (auto simp: json_tree_iff skip_space_def)
  then show ?thesis by (simp add: decodedKey_def json_parse_def)
qed


section \<open>The scan agrees with the tree\<close>

text \<open>A value may stand where no key is expected.\<close>

fun value_position :: "json_context list \<Rightarrow> bool" where
  "value_position (Object_context True keys # outer) = False"
| "value_position contexts = True"

lemma scan_string:
  assumes "read_text t = Some (k, r)" and "value_position contexts"
  shows "scan contexts (34 # t) = scan contexts r"
proof -
  obtain token where "stringEnd t = Some (token, r)" using stringEnd_read [OF assms(1)] by blast
  with assms(2) show ?thesis
    by (cases contexts rule: value_position.cases) (simp_all add: scan.simps(2) scanString_def)
qed

lemma scan_key:
  assumes "read_text t = Some (k, r)"
  shows "scan (Object_context True keys # outer) (34 # t) \<longleftrightarrow>
    k \<notin> set keys \<and> length keys < MAX_JSON_OBJECT_KEYS \<and>
    scan (Object_context False (k # keys) # outer) r"
proof -
  obtain token where "stringEnd t = Some (token, r)" "read_text token = Some (k, [])"
    using stringEnd_read [OF assms] by blast
  then show ?thesis using decoded_key by (auto simp: scan.simps(2) scanString_def)
qed

lemma scan_open:
  "scan contexts (91 # t) \<longleftrightarrow> length contexts < MAX_JSON_NESTING_DEPTH \<and> scan (Array_context # contexts) t"
  "scan contexts (123 # t) \<longleftrightarrow>
     length contexts < MAX_JSON_NESTING_DEPTH \<and> scan (Object_context True [] # contexts) t"
  by (simp_all add: scan.simps(2) updateContexts_def not_le)

lemma scan_close: "scan (c # contexts) (93 # t) = scan contexts t" "scan (c # contexts) (125 # t) = scan contexts t"
  by (simp_all add: scan.simps(2) updateContexts_def)

lemma scan_comma:
  "scan (Array_context # contexts) (44 # t) = scan (Array_context # contexts) t"
  "scan (Object_context b keys # contexts) (44 # t) = scan (Object_context True keys # contexts) t"
  by (simp_all add: scan.simps(2) updateContexts_def)

lemma scan_colon: "scan contexts (58 # t) = scan contexts t"
  by (simp add: scan_neutral neutral_def)

lemma scan_reads:
  "reads_value s v r \<Longrightarrow> value_position contexts \<Longrightarrow>
     scan contexts s \<longleftrightarrow> strict_value (length contexts) v \<and> scan contexts r"
  "reads_elements s vs r \<Longrightarrow>
     scan (Array_context # contexts) s \<longleftrightarrow>
     list_all (strict_value (Suc (length contexts))) vs \<and> scan contexts r"
  "reads_members s kvs r \<Longrightarrow>
     scan (Object_context True keys # contexts) s \<longleftrightarrow>
     distinct (map fst kvs) \<and> set (map fst kvs) \<inter> set keys = {} \<and>
     length keys + length kvs \<le> MAX_JSON_OBJECT_KEYS \<and>
     list_all (\<lambda>(k, v). strict_value (Suc (length contexts)) v) kvs \<and> scan contexts r"
proof (induction arbitrary: contexts and contexts and keys contexts rule: reads_induct)
  case (reads_string s t k r)
  then show ?case by (simp add: scan_skipped [OF reads_string(1)] scan_string)
next
  case (reads_empty_array s t r)
  then show ?case
    by (simp add: scan_skipped [OF reads_empty_array(1)] scan_open
        scan_skipped [OF reads_empty_array(2)] scan_close)
next
  case (reads_array s t vs r)
  then show ?case by (simp add: scan_skipped [OF reads_array(1)] scan_open)
next
  case (reads_empty_object s t r)
  then show ?case
    by (simp add: scan_skipped [OF reads_empty_object(1)] scan_open
        scan_skipped [OF reads_empty_object(2)] scan_close)
next
  case (reads_object s t kvs r)
  then show ?case by (auto simp: scan_skipped [OF reads_object(1)] scan_open)
next
  case (reads_atom s c t v r)
  have "strict_value d v" for d
    using reads_atom(5) by (auto simp: read_atom_def read_literal_def read_number_def split: if_splits)
  then show ?case
    using scan_atom [OF reads_atom(5)] by (simp add: scan_skipped [OF reads_atom(1)])
next
  case (reads_last s v r t)
  then show ?case by (simp add: scan_skipped [OF reads_last(2)] scan_close)
next
  case (reads_more s v r t vs u)
  then show ?case by (simp add: scan_skipped [OF reads_more(2)] scan_comma conj_assoc)
next
  case (reads_last_member s t k r u v w x)
  then show ?case
    by (auto simp: scan_skipped [OF reads_last_member(1)] scan_key
        scan_skipped [OF reads_last_member(3)] scan_colon scan_skipped [OF reads_last_member(5)]
        scan_close)
next
  case (reads_more_members s t k r u v w x kvs y)
  have "scan (Object_context True keys # contexts) s \<longleftrightarrow>
      k \<notin> set keys \<and> length keys < MAX_JSON_OBJECT_KEYS \<and>
      strict_value (Suc (length contexts)) v \<and> scan (Object_context True (k # keys) # contexts) x"
    using reads_more_members
    by (simp add: scan_skipped [OF reads_more_members(1)] scan_key
        scan_skipped [OF reads_more_members(3)] scan_colon scan_skipped [OF reads_more_members(5)]
        scan_comma)
  with reads_more_members.IH(2) [of "k # keys" contexts] show ?case by auto
qed

text \<open>A value without repeated keys is what \<open>JSON.parse\<close> makes of its tree.\<close>

lemma merge_strict: "strict_value d v \<Longrightarrow> merge_members v = v"
proof (induction v arbitrary: d)
  case (Q_array vs)
  then have "map merge_members vs = vs" by (intro map_idI) (auto simp: list_all_iff)
  then show ?case by simp
next
  case (Q_object kvs)
  have "map (\<lambda>(k, v). (k, merge_members v)) kvs = kvs"
    using Q_object by (intro map_idI) (fastforce simp: list_all_iff)
  moreover have "map_from kvs = kvs"
    using Q_object.prems by (simp add: map_from_distinct)
  ultimately show ?case by simp
qed simp_all

lemma strict_tree:
  "parseJsonWithUniqueObjectKeys source = Some v \<longleftrightarrow> json_tree source = Some v \<and> strict_value 0 v"
proof (cases "json_tree source")
  case None
  then show ?thesis by (simp add: parseJsonWithUniqueObjectKeys_def json_parse_def)
next
  case (Some w)
  then obtain r where r: "reads_value source w r" "skip_space r = []" by (auto simp: json_tree_iff)
  have "hasUniqueObjectKeys source \<longleftrightarrow> strict_value 0 w"
    using scan_reads(1) [OF r(1), of "[]"] scan_skipped [OF r(2), of "[]"]
    by (simp add: hasUniqueObjectKeys_def)
  with Some merge_strict [of 0 w] show ?thesis
    by (auto simp: parseJsonWithUniqueObjectKeys_def json_parse_def)
qed

text \<open>
  C37. The strict parser accepts a text exactly when it is JSON, read as a tree, in which no
  object repeats a key or has more than 512 keys and nothing lies deeper than 64 arrays and
  objects; its value is then that tree.
\<close>

theorem strict_json_exact:
  "parseJsonWithUniqueObjectKeys source = Some v \<longleftrightarrow> json_tree source = Some v \<and> strict_value 0 v"
  by (rule strict_tree)

end
