(* ===== verification/Jsonl.thy ===== *)
theory Jsonl
  imports Csv Strict_Json
begin

text \<open>
  \<open>adapters/dataset-codec/src/jsonl.ts\<close>: the lines of a byte stream, the record of a line,
  and the decoder and the encoder of a document. A stream is the list of its chunks and a
  generator the list of the events that it yields, as for CSV. A parsed value is the tree of
  \<open>Strict_Json\<close>; the program looks its members up by name, never by their order.
\<close>

section \<open>Lines\<close>

record raw_line =
  rl_bytes :: "byte list option"
  rl_lineNumber :: nat
  rl_oversized :: bool

definition rawLine :: "byte list \<Rightarrow> nat \<Rightarrow> nat \<Rightarrow> nat \<Rightarrow> raw_line" where
  "rawLine buffer len lineNumber limit =
     (let contentLength =
            (if len \<le> length buffer \<and> len > 0 \<and> buffer ! (len - 1) = 13 then len - 1 else len);
          oversized = contentLength > limit
      in \<lparr>rl_bytes = (if oversized then None else Some (take contentLength buffer)),
          rl_lineNumber = lineNumber, rl_oversized = oversized\<rparr>)"

text \<open>The loop over the chunks and their bytes: the buffer, the length of the line, its number.\<close>

fun line_loop :: "nat \<Rightarrow> byte list \<Rightarrow> nat \<Rightarrow> nat \<Rightarrow> byte list list \<Rightarrow> raw_line list" where
  "line_loop limit buffer len lineNumber [] =
     (if len > 0 then [rawLine buffer len lineNumber limit] else [])"
| "line_loop limit buffer len lineNumber ([] # chunks) =
     line_loop limit buffer len lineNumber chunks"
| "line_loop limit buffer len lineNumber ((byte # bytes) # chunks) =
     (if byte = 10 then
        rawLine buffer len lineNumber limit #
          line_loop limit buffer 0 (lineNumber + 1) (bytes # chunks)
      else
        line_loop limit (if len < length buffer then buffer[len := byte] else buffer) (len + 1)
          lineNumber (bytes # chunks))"

definition jsonl_lines :: "byte list list \<Rightarrow> nat \<Rightarrow> raw_line list" where
  "jsonl_lines source limit = line_loop limit (replicate (limit + 1) 0) 0 1 source"


section \<open>The record of a line\<close>

definition isObject :: "query_value \<Rightarrow> bool" where
  "isObject v = (case v of Q_object _ \<Rightarrow> True | _ \<Rightarrow> False)"

definition object_members :: "query_value \<Rightarrow> (jstring \<times> query_value) list" where
  "object_members v = (case v of Q_object kvs \<Rightarrow> kvs | _ \<Rightarrow> [])"

definition hasKeys :: "query_value \<Rightarrow> jstring list \<Rightarrow> bool" where
  "hasKeys v expected =
     (length (object_members v) = length expected \<and>
      list_all (\<lambda>(k, _). k \<in> set expected) (object_members v))"

definition isScalar :: "query_value \<Rightarrow> scalar_value option" where
  "isScalar v =
     (case v of
        Q_null \<Rightarrow> Some VNull
      | Q_boolean b \<Rightarrow> Some (VBool b)
      | Q_number x \<Rightarrow> Some (VNumber x)
      | Q_string s \<Rightarrow> Some (VString s)
      | _ \<Rightarrow> None)"

text \<open>A member that has to be a string, and one that has to be an array.\<close>

definition string_member :: "query_value \<Rightarrow> jstring \<Rightarrow> jstring option" where
  "string_member v k =
     (case map_get (object_members v) k of Some (Q_string s) \<Rightarrow> Some s | _ \<Rightarrow> None)"

definition array_member :: "query_value \<Rightarrow> jstring \<Rightarrow> query_value list option" where
  "array_member v k =
     (case map_get (object_members v) k of Some (Q_array vs) \<Rightarrow> Some vs | _ \<Rightarrow> None)"

definition line_location :: "nat \<Rightarrow> codec_location" where
  "line_location n =
     no_location\<lparr>cl_lineEnd := Some n, cl_lineStart := Some n, cl_recordNumber := Some n\<rparr>"

definition shapeError :: "nat \<Rightarrow> codec_error" where
  "shapeError recordNumber =
     codecError Invalid_record_shape Scope_record True (line_location recordNumber) None"

text \<open>The loop over the entries: their values, unless an entry has another shape.\<close>

definition wire_entry :: "query_value \<Rightarrow> record_value option" where
  "wire_entry v =
     (if \<not> (isObject v \<and> hasKeys v [lit ''field_id'', lit ''value'']) then None
      else case string_member v (lit ''field_id'') of
          None \<Rightarrow> None
        | Some fieldId \<Rightarrow>
            (case Option.bind (map_get (object_members v) (lit ''value'')) isScalar of
               None \<Rightarrow> None
             | Some x \<Rightarrow> Some \<lparr>rv_fieldId = fieldId, rv_value = x\<rparr>))"

fun wire_values :: "query_value list \<Rightarrow> record_value list option" where
  "wire_values [] = Some []"
| "wire_values (v # vs) =
     (case wire_entry v of
        None \<Rightarrow> None
      | Some e \<Rightarrow> map_option (Cons e) (wire_values vs))"

definition parseWireRecord :: "query_value \<Rightarrow> decode_input \<Rightarrow> nat \<Rightarrow> codec_error + data_record" where
  "parseWireRecord v inp recordNumber =
     (if \<not> (isObject v \<and>
         hasKeys v [lit ''dataset_id'', lit ''record_id'', lit ''values'', lit ''workspace_id''])
      then Inl (shapeError recordNumber)
      else case (string_member v (lit ''dataset_id''), string_member v (lit ''record_id''),
          string_member v (lit ''workspace_id''), array_member v (lit ''values'')) of
          (Some datasetId, Some recordId, Some workspaceId, Some entries) \<Rightarrow>
            (case wire_values entries of
               None \<Rightarrow> Inl (shapeError recordNumber)
             | Some values \<Rightarrow>
                 let location = (line_location recordNumber)\<lparr>cl_recordId := Some recordId\<rparr>
                 in if workspaceId \<noteq> di_workspaceId inp
                    then Inl (codecError Scope_mismatch Scope_record True location None)
                    else case normalizeRecord
                        \<lparr>rec_datasetId = datasetId, rec_recordId = recordId, rec_values = values,
                         rec_workspaceId = di_workspaceId inp\<rparr>
                        (di_fields inp)
                        (Some \<lparr>sc_datasetId = di_datasetId inp, sc_workspaceId = di_workspaceId inp\<rparr>)
                        False of
                        Inr r \<Rightarrow> Inr r
                      | Inl failure \<Rightarrow> Inl (validationError failure location True))
        | _ \<Rightarrow> Inl (shapeError recordNumber))"

definition decodeLine :: "byte list \<Rightarrow> decode_input \<Rightarrow> nat \<Rightarrow> decode_event" where
  "decodeLine bytes inp recordNumber =
     (case decodeUtf8 bytes of
        None \<Rightarrow>
          Decode_error (codecError Invalid_utf8 Scope_record True (line_location recordNumber) None)
      | Some source \<Rightarrow>
          (case parseJsonWithUniqueObjectKeys source of
             None \<Rightarrow>
               Decode_error (codecError Invalid_json Scope_record True (line_location recordNumber) None)
           | Some v \<Rightarrow>
               (case parseWireRecord v inp recordNumber of
                  Inr r \<Rightarrow> Decoded r recordNumber
                | Inl e \<Rightarrow> Decode_error e)))"

text \<open>The loop over the lines, after \<open>n\<close> of them.\<close>

fun decode_lines :: "decode_input \<Rightarrow> nat \<Rightarrow> raw_line list \<Rightarrow> decode_event list" where
  "decode_lines inp n [] = []"
| "decode_lines inp n (line # rest) =
     (let recordNumber = n + 1
      in (case rl_bytes line of
            Some bytes \<Rightarrow>
              if rl_oversized line
              then Decode_error (codecError Record_too_large Scope_record True
                (no_location\<lparr>cl_lineEnd := Some (rl_lineNumber line),
                   cl_lineStart := Some (rl_lineNumber line), cl_recordNumber := Some recordNumber\<rparr>) None)
              else decodeLine bytes inp recordNumber
          | None \<Rightarrow>
              Decode_error (codecError Record_too_large Scope_record True
                (no_location\<lparr>cl_lineEnd := Some (rl_lineNumber line),
                   cl_lineStart := Some (rl_lineNumber line), cl_recordNumber := Some recordNumber\<rparr>) None)) #
         decode_lines inp recordNumber rest)"

definition decodeJsonl :: "decode_input \<Rightarrow> decode_event list" where
  "decodeJsonl inp =
     (case configurationError (di_fields inp) (di_maxRecordBytes inp) (Some (di_datasetId inp))
        (Some (di_workspaceId inp)) of
        Some e \<Rightarrow> [Decode_error e]
      | None \<Rightarrow>
          decode_lines inp 0 (jsonl_lines (di_bytes inp) (byte_limit (di_maxRecordBytes inp))))"


section \<open>Encoding a document\<close>

text \<open>The value of a field inside a JSON tree.\<close>

fun scalar_json :: "scalar_value \<Rightarrow> query_value" where
  "scalar_json VNull = Q_null"
| "scalar_json (VBool b) = Q_boolean b"
| "scalar_json (VNumber x) = Q_number x"
| "scalar_json (VString s) = Q_string s"

definition wireRecord :: "data_record \<Rightarrow> query_value" where
  "wireRecord r =
     Q_object
       [(lit ''dataset_id'', Q_string (rec_datasetId r)),
        (lit ''record_id'', Q_string (rec_recordId r)),
        (lit ''values'', Q_array (map (\<lambda>e. Q_object
           [(lit ''field_id'', Q_string (rv_fieldId e)), (lit ''value'', scalar_json (rv_value e))])
           (rec_values r))),
        (lit ''workspace_id'', Q_string (rec_workspaceId r))]"

text \<open>The loop over the records, after \<open>n\<close> of them; an error ends the document.\<close>

fun encode_lines :: "encode_input \<Rightarrow> nat \<Rightarrow> data_record list \<Rightarrow> encode_event list" where
  "encode_lines inp n [] = []"
| "encode_lines inp n (candidate # candidates) =
     (let recordNumber = n + 1;
          location = no_location\<lparr>cl_recordId := Some (rec_recordId candidate),
            cl_recordNumber := Some recordNumber\<rparr>
      in case normalizeRecord candidate (ei_fields inp)
            (Some \<lparr>sc_datasetId = ei_datasetId inp, sc_workspaceId = ei_workspaceId inp\<rparr>) False of
          Inl failure \<Rightarrow>
            [Encode_error ((validationError failure location True)\<lparr>cx_recoverable := False\<rparr>)]
        | Inr normalized \<Rightarrow>
            let source = query_text (wireRecord normalized)
            in if length (encodeUtf8 source) > byte_limit (ei_maxRecordBytes inp)
               then [Encode_error (codecError Record_too_large Scope_record False location None)]
               else Chunk (encodeUtf8 (source @ [10])) (Some recordNumber) #
                 encode_lines inp recordNumber candidates)"

definition encodeJsonl :: "encode_input \<Rightarrow> encode_event list" where
  "encodeJsonl inp =
     (case configurationError (ei_fields inp) (ei_maxRecordBytes inp) (Some (ei_datasetId inp))
        (Some (ei_workspaceId inp)) of
        Some e \<Rightarrow> [Encode_error e]
      | None \<Rightarrow> encode_lines inp 0 (ei_records inp))"

end
