(* ===== verification/Csv_Framing.thy ===== *)
theory Csv_Framing
  imports Csv
begin

text \<open>
  What the framer does with the bytes of an encoded record: how texts become bytes around ASCII
  separators, and that every well-quoted row is framed as one record, byte for byte.
\<close>

section \<open>Bytes of texts\<close>

lemma well_formed_append:
  "\<not> low_surrogate c \<Longrightarrow> well_formed (s @ c # t) \<longleftrightarrow> well_formed s \<and> well_formed (c # t)"
  by (induction s rule: well_formed.induct) auto

lemma well_formed_Cons: "\<not> surrogate u \<Longrightarrow> well_formed (u # t) \<longleftrightarrow> well_formed t"
  by (cases t) (auto simp: surrogate_def)

lemma well_formed_ascii: "list_all ascii s \<Longrightarrow> well_formed s"
  by (induction s) (simp_all add: well_formed_Cons)

text \<open>A byte below \<open>0x80\<close> of an encoded text is a character of the text.\<close>

lemma continuation_high: "0x80 \<le> unat (continuation c)"
  by simp

lemma utf8_bytes_low: "b \<in> set (utf8_bytes c) \<Longrightarrow> unicode_scalar c \<Longrightarrow> unat b < 0x80 \<Longrightarrow> c = unat b"
proof -
  assume b: "b \<in> set (utf8_bytes c)" "unicode_scalar c" "unat b < 0x80"
  have lead: "0x80 \<le> unat (word_of_nat (0xC0 + c div 0x40) :: byte)" if "c < 0x800"
    using that by (subst unat_byte) linarith+
  have lead3: "0x80 \<le> unat (word_of_nat (0xE0 + c div 0x1000) :: byte)" if "c < 0x10000"
    using that by (subst unat_byte) linarith+
  have "c < 0x110000" using b(2) by (auto simp: unicode_scalar_def)
  then have lead4: "0x80 \<le> unat (word_of_nat (0xF0 + c div 0x40000) :: byte)"
    by (subst unat_byte) linarith+
  show ?thesis
    using b(1,3) lead lead3 lead4 unfolding utf8_bytes_def
    by (auto simp del: of_nat_add split: if_splits)
qed

lemma scalars_low: "c \<in> set (scalars s) \<Longrightarrow> c < 0x80 \<Longrightarrow> word_of_nat c \<in> set s"
  by (induction s rule: scalars.induct) (auto simp: unit_scalar_def pair_scalar_def split: if_splits)

lemma encoded_low:
  assumes "b \<in> set (encodeUtf8 s)" and "unat b < 0x80"
  shows "word_of_nat (unat b) \<in> set s"
proof -
  obtain c where c: "c \<in> set (scalars s)" "b \<in> set (utf8_bytes c)"
    using assms(1) by (auto simp: encodeUtf8_def)
  then have "c = unat b" using utf8_bytes_low assms(2) unicode_scalars by (auto simp: list_all_iff)
  with c assms(2) show ?thesis using scalars_low by blast
qed

text \<open>Doubling the quotes of a text doubles those of its bytes.\<close>

definition double_bytes :: "byte list \<Rightarrow> byte list" where
  "double_bytes bs = concat (map (\<lambda>b. if b = 34 then [34, 34] else [b]) bs)"

lemma double_simps [simp]:
  "double_bytes [] = []" "double_quotes [] = []"
  "double_bytes (b # bs) = (if b = 34 then [34, 34] else [b]) @ double_bytes bs"
  "double_quotes (c # s) = (if c = 34 then [34, 34] else [c]) @ double_quotes s"
  by (simp_all add: double_bytes_def double_quotes_def)

lemma double_bytes_append [simp]: "double_bytes (a @ b) = double_bytes a @ double_bytes b"
  by (simp add: double_bytes_def)

lemma double_utf8_bytes:
  assumes "unicode_scalar c" and "c \<noteq> 34"
  shows "double_bytes (utf8_bytes c) = utf8_bytes c"
proof -
  have "b \<noteq> 34" if "b \<in> set (utf8_bytes c)" for b
    using utf8_bytes_low [OF that assms(1)] assms(2) by auto
  then have "map (\<lambda>b. if b = 34 then [34, 34] else [b]) (utf8_bytes c) = map (\<lambda>b. [b]) (utf8_bytes c)"
    by auto
  then show ?thesis by (simp only: double_bytes_def concat_map_singleton) simp
qed

lemma unit_scalar_34 [simp]: "unit_scalar u = 34 \<longleftrightarrow> u = 34"
  by (auto simp: unit_scalar_def word_unat_eq_iff surrogate_def surrogate_nat)

lemma encode_double: "encodeUtf8 (double_quotes s) = double_bytes (encodeUtf8 s)"
proof (induction s rule: scalars.induct)
  case (2 u)
  show ?case
  proof (cases "u = 34")
    case True then show ?thesis by (simp add: encode_ascii_Cons)
  next
    case False
    then show ?thesis by (simp add: encodeUtf8_def double_utf8_bytes)
  qed
next
  case (3 u v s)
  show ?case
  proof (cases "high_surrogate u \<and> low_surrogate v")
    case True
    then have ne: "u \<noteq> 34" "v \<noteq> 34" by (auto simp: surrogate_nat)
    have "pair_scalar u v \<noteq> 34" by (simp add: pair_scalar_def)
    with True ne 3 show ?thesis by (simp add: encodeUtf8_def double_utf8_bytes)
  next
    case False
    have hd: "\<exists>w t. double_quotes (v # s) = w # t \<and> (w = v \<or> w = 34)" by auto
    then obtain w t where w: "double_quotes (v # s) = w # t" "w = v \<or> w = 34" by blast
    have low: "\<not> (high_surrogate u \<and> low_surrogate w)" using w(2) False by (auto simp: surrogate_nat)
    have IH: "encodeUtf8 (w # t) = double_bytes (encodeUtf8 (v # s))"
      using 3(2) False w(1) by simp
    have split: "encodeUtf8 (u # v # s) = utf8_bytes (unit_scalar u) @ encodeUtf8 (v # s)"
      using False by (auto simp: encodeUtf8_def)
    show ?thesis
    proof (cases "u = 34")
      case True
      then have "encodeUtf8 (double_quotes (u # v # s)) = [34, 34] @ encodeUtf8 (w # t)"
        using w(1) by (simp only: double_simps) (simp add: encode_ascii_Cons)
      moreover have "utf8_bytes 34 = [34]" by (simp add: utf8_bytes_def)
      moreover have "unit_scalar u = 34" using True by (simp only: unit_scalar_34)
      ultimately show ?thesis unfolding split double_bytes_append IH by (simp only:) simp
    next
      case False
      then have "encodeUtf8 (double_quotes (u # v # s)) =
          utf8_bytes (unit_scalar u) @ encodeUtf8 (w # t)"
        using w(1) low by (auto simp: encodeUtf8_def)
      then show ?thesis using False by (simp add: split IH double_utf8_bytes)
    qed
  qed
qed simp


section \<open>Feeding the framer\<close>

text \<open>The framer after bytes that complete no record.\<close>

fun feed :: "framer \<Rightarrow> byte list \<Rightarrow> framer option" where
  "feed f [] = Some f"
| "feed f (b # bs) =
     (case consume b f of (None, f') \<Rightarrow> feed f' bs | (Some _, _) \<Rightarrow> None)"

lemma feed_append: "feed f (a @ b) = Option.bind (feed f a) (\<lambda>f'. feed f' b)"
  by (induction f a rule: feed.induct) (auto split: prod.splits option.splits)

lemma frame_feed: "feed f bs = Some f' \<Longrightarrow> frame f ((bs @ rest) # chunks) = frame f' (rest # chunks)"
  by (induction f bs rule: feed.induct) (auto split: prod.splits option.splits)

text \<open>Only the bytes matter, not how they are cut into chunks.\<close>

lemma frame_concat: "frame f chunks = frame f [concat chunks]"
proof (induction f chunks rule: frame.induct)
  case (3 f b bs chunks)
  then show ?case by (auto split: prod.splits option.splits raw_event.splits)
qed simp_all

text \<open>The framer between two bytes of a record of which it has stored \<open>bs\<close>.\<close>

definition storing :: "nat \<Rightarrow> byte list \<Rightarrow> framer \<Rightarrow> bool" where
  "storing limit bs f \<longleftrightarrow>
     cf_limit f = limit \<and> length (cf_buffer f) = limit \<and> cf_length f = length bs \<and>
     length bs \<le> limit \<and> take (length bs) (cf_buffer f) = bs \<and> (bs \<noteq> [] \<longrightarrow> cf_started f)"

definition reading :: "nat \<Rightarrow> csv_state \<Rightarrow> byte list \<Rightarrow> framer \<Rightarrow> bool" where
  "reading limit st bs f \<longleftrightarrow> storing limit bs f \<and> cf_pendingCr f = None \<and> cf_state f = st"

definition reading_quoted :: "nat \<Rightarrow> byte list \<Rightarrow> framer \<Rightarrow> bool" where
  "reading_quoted limit bs f \<longleftrightarrow>
     storing limit bs f \<and> bs \<noteq> [] \<and> cf_pendingCr f \<noteq> Some Cr_record \<and> cf_state f = Quoted"

text \<open>Changes of the other fields keep what is stored.\<close>

lemma storing_update [simp]:
  "storing limit bs (f\<lparr>cf_state := st\<rparr>) = storing limit bs f"
  "storing limit bs (f\<lparr>cf_pendingCr := p\<rparr>) = storing limit bs f"
  "storing limit bs (f\<lparr>cf_line := n\<rparr>) = storing limit bs f"
  "storing limit bs (f\<lparr>cf_lineStart := n\<rparr>) = storing limit bs f"
  "storing limit bs f \<Longrightarrow> storing limit bs (f\<lparr>cf_started := True\<rparr>)"
  by (simp_all add: storing_def)

lemma append_byte_fields [simp]:
  "cf_state (append_byte b f) = cf_state f" "cf_pendingCr (append_byte b f) = cf_pendingCr f"
  "cf_line (append_byte b f) = cf_line f" "cf_started (append_byte b f) = cf_started f"
  by (simp_all add: append_byte_def)

lemma storing_append:
  assumes "storing limit bs f" and "length bs < limit" and "cf_started f"
  shows "storing limit (bs @ [b]) (append_byte b f)"
proof -
  have len: "cf_length f < length (cf_buffer f)" using assms(1,2) by (simp add: storing_def)
  have "take (Suc (cf_length f)) ((cf_buffer f)[cf_length f := b]) = take (cf_length f) (cf_buffer f) @ [b]"
    using len by (simp add: take_Suc_conv_app_nth)
  with assms show ?thesis by (simp add: storing_def append_byte_def)
qed

lemma feed_single:
  "consume b f = (None, f') \<Longrightarrow> feed f [b] = Some f'"
  by simp

lemma feed_seq:
  assumes "feed f a = Some f'" and "feed f' b = Some f''"
  shows "feed f (a @ b) = Some f''"
  using assms by (simp add: feed_append)

text \<open>A step inside quotes: any byte but a quote.\<close>

lemma quoted_fresh:
  assumes "reading_quoted limit bs f" and "length bs < limit" and "b \<noteq> 34"
  shows "\<exists>f'. consume_fresh b f = (None, f') \<and> reading_quoted limit (bs @ [b]) f'"
  using assms
  by (auto simp: consume_fresh_def Let_def reading_quoted_def intro!: storing_append)

lemma quoted_step:
  assumes "reading_quoted limit bs f" and "length bs < limit" and "b \<noteq> 34"
  shows "\<exists>f'. consume b f = (None, f') \<and> reading_quoted limit (bs @ [b]) f'"
proof (cases "cf_pendingCr f")
  case None
  then show ?thesis using quoted_fresh [OF assms] by (simp add: consume_def)
next
  case (Some p)
  have p: "p = Cr_quoted" using assms(1) Some by (cases p) (simp_all add: reading_quoted_def)
  have q: "reading_quoted limit bs (f\<lparr>cf_pendingCr := None\<rparr>)"
    using assms(1) by (simp add: reading_quoted_def)
  show ?thesis
  proof (cases "b = 10")
    case True
    have "cf_started f" using assms(1) by (simp add: reading_quoted_def storing_def)
    then have "reading_quoted limit (bs @ [b]) (append_byte b (f\<lparr>cf_pendingCr := None\<rparr>))"
      using q assms(2) by (auto simp: reading_quoted_def intro!: storing_append)
    then show ?thesis using Some p True by (simp add: consume_def consumeAfterCr_def)
  next
    case False
    then show ?thesis
      using quoted_fresh [OF q assms(2,3)] Some p by (simp add: consume_def consumeAfterCr_def)
  qed
qed

text \<open>A closing quote, and a doubled one.\<close>

lemma quote_step:
  assumes "reading_quoted limit bs f" and "length bs < limit"
  shows "\<exists>f'. consume 34 f = (None, f') \<and> reading limit After_quote (bs @ [34]) f'"
proof -
  have p: "cf_pendingCr f = None \<or> cf_pendingCr f = Some Cr_quoted"
  proof (cases "cf_pendingCr f")
    case (Some p)
    then show ?thesis using assms(1) by (cases p) (simp_all add: reading_quoted_def)
  qed simp
  have fresh: "\<exists>f'. consume_fresh 34 g = (None, f') \<and> reading limit After_quote (bs @ [34]) f'"
    if "reading_quoted limit bs g" "cf_pendingCr g = None" for g
    using that assms(2)
    by (auto simp: consume_fresh_def reading_quoted_def reading_def intro!: storing_append)
  have "reading_quoted limit bs (f\<lparr>cf_pendingCr := None\<rparr>)"
    using assms(1) by (simp add: reading_quoted_def)
  from fresh [OF this] fresh [OF assms(1)] p show ?thesis
    by (elim disjE) (simp_all add: consume_def consumeAfterCr_def)
qed

lemma requote_step:
  assumes "reading limit After_quote bs f" and "length bs < limit" and "bs \<noteq> []"
  shows "\<exists>f'. consume 34 f = (None, f') \<and> reading_quoted limit (bs @ [34]) f'"
  using assms
  by (auto simp: consume_def consume_fresh_def reading_quoted_def reading_def intro!: storing_append)

lemma feed_quoted:
  assumes "reading_quoted limit bs f" and "length bs + length (double_bytes w) \<le> limit"
  shows "\<exists>f'. feed f (double_bytes w) = Some f' \<and> reading_quoted limit (bs @ double_bytes w) f'"
  using assms
proof (induction w arbitrary: bs f)
  case (Cons b w)
  show ?case
  proof (cases "b = 34")
    case True
    obtain f1 where f1: "consume 34 f = (None, f1)" "reading limit After_quote (bs @ [34]) f1"
      using quote_step [OF Cons.prems(1)] Cons.prems(2) True by auto
    obtain f2 where f2: "consume 34 f1 = (None, f2)" "reading_quoted limit ((bs @ [34]) @ [34]) f2"
      using requote_step [OF f1(2)] Cons.prems(2) True by auto
    show ?thesis using Cons.IH [OF f2(2)] Cons.prems(2) True f1(1) f2(1) by auto
  next
    case False
    obtain f1 where f1: "consume b f = (None, f1)" "reading_quoted limit (bs @ [b]) f1"
      using quoted_step [OF Cons.prems(1) _ False] Cons.prems(2) False by auto
    show ?thesis using Cons.IH [OF f1(2)] Cons.prems(2) False f1(1) by auto
  qed
qed simp

text \<open>Outside quotes: the bytes of a field that needs none.\<close>

definition plain_byte :: "byte \<Rightarrow> bool" where
  "plain_byte b \<longleftrightarrow> b \<noteq> 34 \<and> b \<noteq> 44 \<and> b \<noteq> 13 \<and> b \<noteq> 10"

lemma plain_step:
  assumes "reading limit st bs f" and "st = Field_start \<or> st = Unquoted"
    and "length bs < limit" and "plain_byte b"
  shows "\<exists>f'. consume b f = (None, f') \<and> reading limit Unquoted (bs @ [b]) f'"
  using assms
  by (auto simp: consume_def consume_fresh_def reading_def plain_byte_def intro!: storing_append)

lemma feed_plain:
  assumes "reading limit st bs f" and "st = Field_start \<or> st = Unquoted"
    and "length bs + length w \<le> limit" and "list_all plain_byte w"
  shows "\<exists>f' st'. feed f w = Some f' \<and> reading limit st' (bs @ w) f' \<and>
    (st' = Field_start \<or> st' = Unquoted)"
  using assms
proof (induction w arbitrary: bs f st)
  case Nil
  then show ?case by auto
next
  case (Cons b w)
  obtain f1 where f1: "consume b f = (None, f1)" "reading limit Unquoted (bs @ [b]) f1"
    using plain_step [OF Cons.prems(1,2)] Cons.prems(3,4) by auto
  show ?case using Cons.IH [OF f1(2)] Cons.prems(3,4) f1(1) by auto
qed

lemma open_step:
  assumes "reading limit Field_start bs f" and "length bs < limit"
  shows "\<exists>f'. consume 34 f = (None, f') \<and> reading_quoted limit (bs @ [34]) f'"
  using assms
  by (auto simp: consume_def consume_fresh_def reading_quoted_def reading_def intro!: storing_append)

lemma comma_step:
  assumes "reading limit st bs f" and "st \<noteq> Quoted" and "length bs < limit"
  shows "\<exists>f'. consume 44 f = (None, f') \<and> reading limit Field_start (bs @ [44]) f'"
  using assms
  by (cases st) (auto simp: consume_def consume_fresh_def reading_def intro!: storing_append)

text \<open>The bytes of one field: plain, or between quotes with its own doubled.\<close>

definition field_bytes :: "byte list \<Rightarrow> bool" where
  "field_bytes e \<longleftrightarrow> list_all plain_byte e \<or> (\<exists>w. e = [34] @ double_bytes w @ [34])"

lemma feed_field:
  assumes "field_bytes e" and "reading limit Field_start bs f" and "length bs + length e \<le> limit"
  shows "\<exists>f' st. feed f e = Some f' \<and> reading limit st (bs @ e) f' \<and> st \<noteq> Quoted"
proof (cases "list_all plain_byte e")
  case True
  then show ?thesis using feed_plain [OF assms(2) _ assms(3)] by auto
next
  case False
  then obtain w where e: "e = [34] @ double_bytes w @ [34]"
    using assms(1) by (auto simp: field_bytes_def)
  obtain f1 where f1: "consume 34 f = (None, f1)" "reading_quoted limit (bs @ [34]) f1"
    using open_step [OF assms(2)] assms(3) e by auto
  obtain f2 where f2: "feed f1 (double_bytes w) = Some f2"
    "reading_quoted limit ((bs @ [34]) @ double_bytes w) f2"
    using feed_quoted [OF f1(2), of w] assms(3) e by auto
  obtain f3 where f3: "consume 34 f2 = (None, f3)"
    "reading limit After_quote (((bs @ [34]) @ double_bytes w) @ [34]) f3"
    using quote_step [OF f2(2)] assms(3) e by auto
  have "feed f e = Some f3" using f1(1) f2(1) f3(1) by (simp add: e feed_append)
  with f3(2) show ?thesis by (auto simp: e)
qed


section \<open>Rows and documents\<close>

lemma join_Cons_Cons: "join s (x # y # xs) = x @ s @ join s (y # xs)"
  by simp

lemma encode_join:
  "encodeUtf8 (join [44] (x # y # xs)) = encodeUtf8 x @ 44 # encodeUtf8 (join [44] (y # xs))"
  by (simp add: encode_append_ascii encode_ascii_Cons)

lemma feed_row:
  assumes "list_all (\<lambda>e. field_bytes (encodeUtf8 e)) es" and "es \<noteq> []"
    and "reading limit Field_start bs f"
    and "length bs + length (encodeUtf8 (join [44] es)) \<le> limit"
  shows "\<exists>f' st. feed f (encodeUtf8 (join [44] es)) = Some f' \<and>
    reading limit st (bs @ encodeUtf8 (join [44] es)) f' \<and> st \<noteq> Quoted"
  using assms
proof (induction "[44] :: jstring" es arbitrary: bs f rule: join.induct)
  case (2 x)
  then show ?case using feed_field [of "encodeUtf8 x"] by simp
next
  case (3 x y xs)
  obtain f1 st where f1: "feed f (encodeUtf8 x) = Some f1"
    "reading limit st (bs @ encodeUtf8 x) f1" "st \<noteq> Quoted"
    using feed_field [OF _ 3(4), of "encodeUtf8 x"] 3(2,5) by (auto simp: encode_join simp del: join.simps)
  obtain f2 where f2: "consume 44 f1 = (None, f2)"
    "reading limit Field_start ((bs @ encodeUtf8 x) @ [44]) f2"
    using comma_step [OF f1(2,3)] 3(5) by (auto simp: encode_join simp del: join.simps)
  obtain f3 st3 where f3: "feed f2 (encodeUtf8 (join [44] (y # xs))) = Some f3"
    "reading limit st3 (((bs @ encodeUtf8 x) @ [44]) @ encodeUtf8 (join [44] (y # xs))) f3"
    "st3 \<noteq> Quoted"
    using 3(1) [OF _ _ f2(2)] 3(2,5) by (auto simp: encode_join simp del: join.simps)
  have "feed f (encodeUtf8 (join [44] (x # y # xs))) = Some f3"
    using f1(1) f2(1) f3(1) by (simp add: encode_join feed_append del: join.simps)
  then show ?case using f3(2,3) by (auto simp: encode_join simp del: join.simps)
qed simp

text \<open>The framer between two records.\<close>

definition fresh :: "nat \<Rightarrow> framer \<Rightarrow> bool" where
  "fresh limit f \<longleftrightarrow> reading limit Field_start [] f \<and> \<not> cf_started f"

definition framed :: "byte list \<Rightarrow> raw_event \<Rightarrow> bool" where
  "framed bs event \<longleftrightarrow>
     (\<exists>raw. event = Raw_record raw \<and> rr_bytes raw = Some bs \<and> \<not> rr_oversized raw)"

lemma fresh_new [simp]: "fresh limit (new_framer limit)"
  by (simp add: fresh_def reading_def storing_def new_framer_def)

lemma frame_end: "fresh limit f \<Longrightarrow> frame f [] = []"
  by (simp add: fresh_def reading_def finish_def)

lemma frame_line_end:
  assumes "reading limit st bs f" and "st \<noteq> Quoted"
  shows "\<exists>event f'. frame f ((13 # 10 # rest) # chunks) = event # frame f' (rest # chunks) \<and>
    framed bs event \<and> fresh limit f'"
proof -
  let ?f = "f\<lparr>cf_started := True, cf_pendingCr := Some Cr_record\<rparr>"
  have cr: "consume 13 f = (None, ?f)"
    using assms by (simp add: consume_def consume_fresh_def reading_def Let_def)
  obtain event g where take: "takeRecord (?f\<lparr>cf_pendingCr := None\<rparr>) = (event, g)" by fastforce
  let ?g = "g\<lparr>cf_line := cf_line g + 1, cf_lineStart := cf_line g + 1\<rparr>"
  have lf: "consume 10 ?f = (Some event, ?g)"
    using take by (simp add: consume_def consumeAfterCr_def)
  have event: "framed bs event" and g: "fresh limit ?g"
    using take assms(1)
    by (auto simp: takeRecord_def Let_def framed_def reading_def storing_def fresh_def)
  from event have "frame ?f ((10 # rest) # chunks) = event # frame ?g (rest # chunks)"
    using lf by (auto simp: framed_def)
  with cr event g show ?thesis by auto
qed

lemma encode_line: "encodeUtf8 (row @ [13, 10]) = encodeUtf8 row @ [13, 10]"
  by (simp add: encode_append_ascii encode_ascii_Cons)

text \<open>A document of rows is framed row by row.\<close>

lemma frame_document:
  assumes "\<forall>es\<in>set rows. es \<noteq> [] \<and> list_all (\<lambda>e. field_bytes (encodeUtf8 e)) es \<and>
      length (encodeUtf8 (join [44] es)) \<le> limit"
    and "fresh limit f"
  shows "list_all2 framed (map (\<lambda>es. encodeUtf8 (join [44] es)) rows)
    (frame f [concat (map (\<lambda>es. encodeUtf8 (join [44] es @ [13, 10])) rows)])"
  using assms
proof (induction rows arbitrary: f)
  case Nil
  then show ?case using frame_end [of limit f] by simp
next
  case (Cons es rows)
  let ?rest = "concat (map (\<lambda>es. encodeUtf8 (join [44] es @ [13, 10])) rows)"
  obtain f1 st where f1: "feed f (encodeUtf8 (join [44] es)) = Some f1"
    "reading limit st ([] @ encodeUtf8 (join [44] es)) f1" "st \<noteq> Quoted"
    using feed_row [of es limit "[]" f] Cons.prems by (auto simp: fresh_def)
  obtain event f2 where f2: "frame f1 [13 # 10 # ?rest] = event # frame f2 [?rest]"
    "framed (encodeUtf8 (join [44] es)) event" "fresh limit f2"
    using frame_line_end [OF f1(2,3), of ?rest "[]"] unfolding append_Nil by blast
  have "frame f [concat (map (\<lambda>es. encodeUtf8 (join [44] es @ [13, 10])) (es # rows))] =
      event # frame f2 [?rest]"
    using frame_feed [OF f1(1)] f2(1) by (simp add: encode_line del: frame.simps)
  then show ?case using Cons.IH [OF _ f2(3)] Cons.prems(1) f2(2) by (simp del: frame.simps)
qed

end
