(* ===== verification/Csv_Properties.thy ===== *)
theory Csv_Properties
  imports Csv_Framing
begin

text \<open>
  What the CSV codec promises: how a stream is cut into chunks does not matter, and a document
  that was encoded without an error decodes to the records it was made of, normalized, in their
  order. A text survives unless it has a lone surrogate or is a record identity that starts with
  U+FEFF; a number survives unless it is negative zero.
\<close>

section \<open>Cells\<close>

definition plain_unit :: "code_unit \<Rightarrow> bool" where
  "plain_unit u \<longleftrightarrow> u \<noteq> 34 \<and> u \<noteq> 44 \<and> u \<noteq> 13 \<and> u \<noteq> 10"

text \<open>The text of a cell: its own characters, or between quotes with its quotes doubled.\<close>

definition csv_cell :: "jstring \<Rightarrow> csv_field \<Rightarrow> bool" where
  "csv_cell e cell \<longleftrightarrow>
     (if cv_quoted cell then e = [34] @ double_quotes (cv_text cell) @ [34]
      else e = cv_text cell \<and> list_all plain_unit e)"

lemma plain_unit_bytes:
  assumes "list_all plain_unit e" shows "list_all plain_byte (encodeUtf8 e)"
proof -
  have "word_of_nat (unat b) \<in> set e" if "b \<in> set (encodeUtf8 e)" "b = 34 \<or> b = 44 \<or> b = 13 \<or> b = 10"
    for b using that by (intro encoded_low) auto
  then show ?thesis using assms by (fastforce simp: list_all_iff plain_byte_def plain_unit_def)
qed

lemma csv_cell_bytes: "csv_cell e cell \<Longrightarrow> field_bytes (encodeUtf8 e)"
  using plain_unit_bytes [of e]
  by (auto simp: csv_cell_def field_bytes_def encode_ascii_Cons encode_append_ascii encode_double
      split: if_splits)

lemma read_quoted_double:
  "take 1 rest \<noteq> [34] \<Longrightarrow> read_quoted (double_quotes t @ 34 # rest) = (t, rest)"
  by (induction t) (auto split: list.split)

lemma parse_field:
  assumes "csv_cell e cell" and "rest = [] \<or> (\<exists>r. rest = 44 # r)"
  shows "(if take 1 (e @ rest) = [34] then readQuotedField (e @ rest) else readUnquotedField (e @ rest))
    = (cell, rest)"
proof (cases "cv_quoted cell")
  case True
  then have e: "e = [34] @ double_quotes (cv_text cell) @ [34]" using assms(1) by (simp add: csv_cell_def)
  have "take 1 rest \<noteq> [34]" using assms(2) by auto
  then have "read_quoted (tl (e @ rest)) = (cv_text cell, rest)"
    using read_quoted_double by (simp add: e)
  then show ?thesis using True by (simp add: e readQuotedField_def)
next
  case False
  then have e: "e = cv_text cell" "list_all plain_unit e" using assms(1) by (auto simp: csv_cell_def)
  have "take 1 (e @ rest) \<noteq> [34]"
    using e(2) assms(2) by (cases e) (auto simp: plain_unit_def)
  moreover have "takeWhile (\<lambda>c. c \<noteq> 44) (e @ rest) = e" "dropWhile (\<lambda>c. c \<noteq> 44) (e @ rest) = rest"
    using e(2) assms(2) by (induction e) (auto simp: plain_unit_def)
  ultimately show ?thesis using False e(1) by (simp add: readUnquotedField_def)
qed

lemma parse_cells:
  assumes "list_all2 csv_cell es cells" and "es \<noteq> []"
  shows "parseCsvText (length es) (join [44] es) = Some cells"
  using assms
proof (induction "[44] :: jstring" es arbitrary: cells rule: join.induct)
  case (2 x)
  then obtain cell where "cells = [cell]" "csv_cell x cell" by (auto simp: list_all2_Cons1)
  then show ?case using parse_field [of x cell "[]"] by (simp split: if_splits)
next
  case (3 x y xs)
  then obtain cell cells' where c: "cells = cell # cells'" "csv_cell x cell"
    "list_all2 csv_cell (y # xs) cells'" by (auto simp: list_all2_Cons1)
  let ?rest = "44 # join [44] (y # xs)"
  have "join [44] (x # y # xs) = x @ ?rest" by simp
  moreover have "parseCsvText (length (y # xs)) (join [44] (y # xs)) = Some cells'"
    using 3(1) [OF c(3)] by simp
  ultimately show ?case
    using parse_field [OF c(2), of ?rest] c(1) by (simp del: join.simps)
qed simp


section \<open>Scalars\<close>

definition text_cell :: "jstring \<Rightarrow> csv_field" where
  "text_cell s = \<lparr>cv_quoted = (s = [] \<or> requires_quotes s), cv_text = s\<rparr>"

fun scalar_cell :: "scalar_value \<Rightarrow> csv_field" where
  "scalar_cell (VString s) = text_cell s"
| "scalar_cell v = \<lparr>cv_quoted = False, cv_text = encodeScalar v\<rparr>"

text \<open>The values that a text can carry exactly.\<close>

fun exact_scalar :: "scalar_value \<Rightarrow> bool" where
  "exact_scalar (VString s) = well_formed s"
| "exact_scalar (VNumber x) = (representable x \<and> is_finite x \<and> x \<noteq> NegZero)"
| "exact_scalar _ = True"

lemma text_cell: "csv_cell (encodeField s) (text_cell s)"
  by (auto simp: csv_cell_def encodeField_def text_cell_def requires_quotes_def plain_unit_def
      list_all_iff list_ex_iff)

lemma number_unit_plain: "number_unit u \<Longrightarrow> plain_unit u" "number_unit u \<Longrightarrow> ascii u"
  by (auto simp: number_unit_def plain_unit_def ascii_def decimal_digit_def word_le_nat_alt)

lemma list_all_number_unit:
  "list_all number_unit s \<Longrightarrow> list_all plain_unit s" "list_all number_unit s \<Longrightarrow> list_all ascii s"
  by (auto simp: list_all_iff number_unit_plain)

lemma scalar_cell: "exact_scalar v \<Longrightarrow> csv_cell (encodeScalar v) (scalar_cell v)"
proof (cases v)
  case (VNumber x)
  assume "exact_scalar v"
  then show ?thesis
    using VNumber number_text_units list_all_number_unit(1) by (simp add: csv_cell_def)
next
  case (VString s)
  then show ?thesis by (simp add: text_cell)
qed (auto simp: csv_cell_def plain_unit_def lit_def)

lemma well_formed_double: "well_formed s \<Longrightarrow> well_formed (double_quotes s)"
proof (induction s rule: well_formed.induct)
  case (2 u)
  then show ?case by (auto simp: surrogate_def)
next
  case (3 u v s)
  show ?case
  proof (cases "high_surrogate u \<and> low_surrogate v")
    case True
    then have "u \<noteq> 34" "v \<noteq> 34" by (auto simp: surrogate_nat)
    with True 3 show ?thesis by simp
  next
    case False
    then have "well_formed (double_quotes (v # s))" "\<not> surrogate u" using 3(2,3) by auto
    then show ?thesis
      by (simp only: double_simps) (auto simp: well_formed_Cons)
  qed
qed simp

lemma well_formed_field:
  assumes "well_formed s" shows "well_formed (encodeField s)"
proof -
  have "well_formed (34 # double_quotes s @ [34])"
    using well_formed_double [OF assms] by (simp add: well_formed_Cons well_formed_append surrogate_def)
  with assms show ?thesis by (simp add: encodeField_def)
qed

lemma well_formed_scalar: "exact_scalar v \<Longrightarrow> well_formed (encodeScalar v)"
  using well_formed_field number_text_units list_all_number_unit(2) well_formed_ascii
  by (cases v) (auto simp: lit_def surrogate_def high_surrogate_def low_surrogate_def)

lemma well_formed_join:
  "list_all well_formed es \<Longrightarrow> well_formed (join [44] es)"
  by (induction "[44] :: jstring" es rule: join.induct)
    (simp_all add: well_formed_append well_formed_Cons)

lemma decode_scalar_cell:
  assumes "exact_scalar v" and "scalarMatchesField v spec"
  shows "decodeCell (scalar_cell v) spec = Some v"
proof (cases v)
  case (VNumber x)
  then have x: "text_number (number_text x) = Some x"
    using assms(1) by (simp add: text_number_text)
  have "text_number [] = None" by (simp add: text_number_def read_unsigned_def)
  then have "number_text x \<noteq> []" using x by auto
  then show ?thesis using x assms(2) VNumber by (auto simp: decodeCell_def)
next
  case (VString s)
  then show ?thesis using assms(2) by (auto simp: decodeCell_def text_cell_def)
next
  case (VBool b)
  then show ?thesis using assms(2) by (auto simp: decodeCell_def lit_def)
qed (simp add: decodeCell_def)

lemma decode_scalar_cells:
  assumes "list_all2 (\<lambda>v f. scalarMatchesField (rv_value v) f) vs specs"
    and "map rv_fieldId vs = map fs_fieldId specs"
    and "\<forall>v\<in>set vs. exact_scalar (rv_value v)"
  shows "decode_cells specs (map (\<lambda>v. scalar_cell (rv_value v)) vs) = Inr vs"
  using assms
proof (induction vs specs rule: list_all2_induct)
  case (Cons v vs f specs)
  have "decodeCell (scalar_cell (rv_value v)) f = Some (rv_value v)"
    using Cons by (intro decode_scalar_cell) simp_all
  moreover have "\<lparr>rv_fieldId = fs_fieldId f, rv_value = rv_value v\<rparr> = v" using Cons.prems(1) by simp
  ultimately show ?case using Cons by simp
qed simp


section \<open>Rows\<close>

definition row_cells :: "data_record \<Rightarrow> jstring list" where
  "row_cells r =
     encodeField (rec_recordId r) # map (\<lambda>v. encodeScalar (rv_value v)) (rec_values r)"

text \<open>A record whose texts and numbers can be carried exactly.\<close>

definition exact_record :: "data_record \<Rightarrow> bool" where
  "exact_record r \<longleftrightarrow>
     well_formed (rec_recordId r) \<and> take 1 (rec_recordId r) \<noteq> [0xFEFF] \<and>
     (\<forall>v\<in>set (rec_values r). exact_scalar (rv_value v))"

lemma exact_row:
  assumes "exact_record r"
  shows "list_all2 csv_cell (row_cells r)
      (text_cell (rec_recordId r) # map (\<lambda>v. scalar_cell (rv_value v)) (rec_values r))"
    "list_all (\<lambda>e. field_bytes (encodeUtf8 e)) (row_cells r)"
    "decodeUtf8 (encodeUtf8 (join [44] (row_cells r))) = Some (join [44] (row_cells r))"
proof -
  show cells: "list_all2 csv_cell (row_cells r)
      (text_cell (rec_recordId r) # map (\<lambda>v. scalar_cell (rv_value v)) (rec_values r))"
    using assms
    by (auto simp: row_cells_def exact_record_def text_cell scalar_cell list_all2_map1 list_all2_map2
        list_all2_same)
  then show "list_all (\<lambda>e. field_bytes (encodeUtf8 e)) (row_cells r)"
    by (auto simp: list_all2_conv_all_nth list_all_length intro: csv_cell_bytes)
  have "well_formed (join [44] (row_cells r))"
    using assms
    by (intro well_formed_join)
      (auto simp: row_cells_def exact_record_def list_all_iff well_formed_field well_formed_scalar)
  moreover have "take 1 (join [44] (row_cells r)) \<noteq> [0xFEFF]"
  proof -
    have "encodeField (rec_recordId r) \<noteq> []" by (simp add: encodeField_def)
    moreover have "take 1 (encodeField (rec_recordId r)) \<noteq> [0xFEFF]"
      using assms by (auto simp: exact_record_def encodeField_def)
    moreover have "\<exists>t. join [44] (row_cells r) = encodeField (rec_recordId r) @ t"
      unfolding row_cells_def by (cases "rec_values r") simp_all
    ultimately show ?thesis by (cases "encodeField (rec_recordId r)") auto
  qed
  ultimately show "decodeUtf8 (encodeUtf8 (join [44] (row_cells r))) = Some (join [44] (row_cells r))"
    by (rule decode_encode)
qed

lemma length_row_cells [simp]: "length (row_cells r) = length (rec_values r) + 1" "row_cells r \<noteq> []"
  by (simp_all add: row_cells_def)

text \<open>The scope of an input, and the input of a decoder for the same dataset.\<close>

definition encode_scope :: "encode_input \<Rightarrow> dataset_scope" where
  "encode_scope inp =
     \<lparr>sc_datasetId = ei_datasetId inp, sc_workspaceId = ei_workspaceId inp\<rparr>"

definition decoder_of :: "encode_input \<Rightarrow> byte list list \<Rightarrow> decode_input" where
  "decoder_of inp chunks =
     \<lparr>di_bytes = chunks, di_datasetId = ei_datasetId inp, di_fields = ei_fields inp,
      di_maxRecordBytes = ei_maxRecordBytes inp, di_workspaceId = ei_workspaceId inp\<rparr>"

lemma decode_row:
  assumes "normalizeRecord r (ei_fields inp) (Some (encode_scope inp)) True = Inr r'"
    and "distinct (map fs_fieldId (ei_fields inp))" and "exact_record r"
    and "framed (encodeUtf8 (join [44] (row_cells r'))) (Raw_record raw)"
  shows "decodeRecord raw (decoder_of inp chunks) n = Decoded r' n"
proof -
  note nc = normalized_complete [OF assms(1,2)]
  have id: "rec_recordId r' = rec_recordId r" "rec_datasetId r' = ei_datasetId inp"
    "rec_workspaceId r' = ei_workspaceId inp"
    by (subst nc(6); simp add: nc(2,3) encode_scope_def)+
  have exact: "exact_record r'"
    using assms(3) nc(9) by (auto simp: exact_record_def id)
  note row = exact_row [OF exact]
  have len: "length (rec_values r') = length (ei_fields inp)"
    using nc(8) by (rule list_all2_lengthD)
  have "parseCsvText (length (ei_fields inp) + 1) (join [44] (row_cells r')) =
      Some (text_cell (rec_recordId r') # map (\<lambda>v. scalar_cell (rv_value v)) (rec_values r'))"
    using parse_cells [OF row(1)] len by simp
  then have fields: "parseFields (encodeUtf8 (join [44] (row_cells r'))) (length (ei_fields inp) + 1) =
      Fields (text_cell (rec_recordId r') # map (\<lambda>v. scalar_cell (rv_value v)) (rec_values r'))"
    using row(3) by (simp add: parseFields_def)
  have cells: "decode_cells (ei_fields inp) (map (\<lambda>v. scalar_cell (rv_value v)) (rec_values r')) =
      Inr (rec_values r')"
    using exact by (intro decode_scalar_cells nc(7,8)) (simp add: exact_record_def)
  have self: "normalizeRecord r' (ei_fields inp) (Some (encode_scope inp)) False = Inr r'"
    using nc(1-5,7,8) assms(2) id
    by (intro normalize_complete_values) (simp_all add: encode_scope_def)
  have r': "\<lparr>rec_datasetId = ei_datasetId inp, rec_recordId = rec_recordId r',
      rec_values = rec_values r', rec_workspaceId = ei_workspaceId inp\<rparr> = r'"
    using id by simp
  show ?thesis
    using assms(4) fields cells self r' len
    by (simp add: decodeRecord_def framed_def decoder_of_def Let_def encode_scope_def text_cell_def)
qed

text \<open>The header of an accepted configuration is framed as one record and matches.\<close>

lemma plain_key:
  assumes "FIELD_KEY_PATTERN k"
  shows "list_all plain_unit k" "k \<noteq> []" "list_all ascii k"
proof -
  have unit: "plain_unit u \<and> ascii u" if "lower u \<or> digit u \<or> u = 95" for u
    using that by (auto simp: lower_def digit_def plain_unit_def ascii_def word_le_nat_alt)
  show "list_all plain_unit k" "k \<noteq> []" "list_all ascii k"
    using assms unit by (cases k; auto simp: FIELD_KEY_PATTERN_def list_all_iff)+
qed

lemma plain_field: "list_all plain_unit e \<Longrightarrow> e \<noteq> [] \<Longrightarrow> encodeField e = e"
  by (auto simp: encodeField_def requires_quotes_def list_ex_iff list_all_iff plain_unit_def)

lemma plain_header:
  assumes "\<forall>f\<in>set specs. FIELD_KEY_PATTERN (fs_key f)"
  shows "list_all2 csv_cell (map encodeField (expectedHeader specs))
      (map (\<lambda>k. \<lparr>cv_quoted = False, cv_text = k\<rparr>) (expectedHeader specs))"
    "decodeUtf8 (encodeUtf8 (join [44] (map encodeField (expectedHeader specs)))) =
     Some (join [44] (map encodeField (expectedHeader specs)))"
proof -
  have key: "list_all plain_unit k \<and> k \<noteq> [] \<and> list_all ascii k" if "k \<in> set (expectedHeader specs)" for k
    using that assms plain_key
    by (auto simp: expectedHeader_def lit_def plain_unit_def ascii_def)
  then show "list_all2 csv_cell (map encodeField (expectedHeader specs))
      (map (\<lambda>k. \<lparr>cv_quoted = False, cv_text = k\<rparr>) (expectedHeader specs))"
    by (auto simp: list_all2_map1 list_all2_map2 list_all2_same plain_field csv_cell_def)
  have "encodeField (lit ''record_id'') = lit ''record_id''"
    by (rule plain_field) (simp_all add: lit_def plain_unit_def)
  then have "take 1 (join [44] (map encodeField (expectedHeader specs))) \<noteq> [0xFEFF]"
    by (cases specs) (simp_all add: expectedHeader_def lit_def)
  moreover have "well_formed (join [44] (map encodeField (expectedHeader specs)))"
    using key by (intro well_formed_join) (auto simp: list_all_iff well_formed_ascii well_formed_field)
  ultimately show "decodeUtf8 (encodeUtf8 (join [44] (map encodeField (expectedHeader specs)))) =
      Some (join [44] (map encodeField (expectedHeader specs)))"
    by (rule decode_encode [rotated])
qed

lemma header_framed:
  assumes "\<forall>f\<in>set specs. FIELD_KEY_PATTERN (fs_key f)"
    and "framed (encodeUtf8 (join [44] (map encodeField (expectedHeader specs)))) (Raw_record raw)"
  shows "header_matches raw specs"
proof -
  let ?header = "expectedHeader specs"
  have ne: "map encodeField ?header \<noteq> []" by (simp add: expectedHeader_def)
  have "parseCsvText (length ?header) (join [44] (map encodeField ?header)) =
      Some (map (\<lambda>k. \<lparr>cv_quoted = False, cv_text = k\<rparr>) ?header)"
    using parse_cells [OF plain_header(1) [OF assms(1)] ne] by simp
  then show ?thesis
    using assms(2) plain_header(2) [OF assms(1)]
    by (simp add: header_matches_def Let_def framed_def parseFields_def list_all2_map1 list_all2_same)
qed


section \<open>Documents\<close>

text \<open>The bytes that an encoder yields.\<close>

fun event_bytes :: "encode_event \<Rightarrow> byte list" where
  "event_bytes (Chunk bytes n) = bytes"
| "event_bytes (Encode_error e) = []"

fun is_chunk :: "encode_event \<Rightarrow> bool" where
  "is_chunk (Chunk bytes n) = True"
| "is_chunk (Encode_error e) = False"

lemma encoded_rows:
  assumes "list_all is_chunk (encode_records inp n rs)"
  shows "\<exists>ns. list_all2 (\<lambda>r r'. normalizeRecord r (ei_fields inp) (Some (encode_scope inp)) True = Inr r')
      rs ns \<and>
    list_all (\<lambda>r'. length (encodeUtf8 (join [44] (row_cells r'))) \<le> byte_limit (ei_maxRecordBytes inp)) ns \<and>
    map event_bytes (encode_records inp n rs) =
      map (\<lambda>r'. encodeUtf8 (join [44] (row_cells r') @ [13, 10])) ns"
  using assms
proof (induction rs arbitrary: n)
  case (Cons r rs)
  show ?case
  proof (cases "normalizeRecord r (ei_fields inp) (Some (encode_scope inp)) True")
    case (Inl e)
    then show ?thesis using Cons.prems by (simp add: Let_def encode_scope_def)
  next
    case (Inr r')
    have id: "rec_recordId r = rec_recordId r'"
      using Inr by (auto simp: normalizeRecord_def split: if_splits option.splits sum.splits)
    let ?row = "join [44] (row_cells r')"
    have step: "encode_records inp n (r # rs) =
        (if length (encodeUtf8 ?row) > byte_limit (ei_maxRecordBytes inp)
         then [Encode_error (codecError Record_too_large Scope_record False
                 (no_location\<lparr>cl_recordId := Some (rec_recordId r), cl_recordNumber := Some (n + 1)\<rparr>)
                 None)]
         else Chunk (encodeUtf8 (?row @ [13, 10])) (Some (n + 1)) # encode_records inp (n + 1) rs)"
      using Inr by (simp add: Let_def encode_scope_def row_cells_def id del: join.simps)
    then have small: "length (encodeUtf8 ?row) \<le> byte_limit (ei_maxRecordBytes inp)"
      and rest: "list_all is_chunk (encode_records inp (n + 1) rs)"
      using Cons.prems by (simp_all split: if_splits)
    from Cons.IH [OF rest] obtain ns where "list_all2 (\<lambda>r r'. normalizeRecord r (ei_fields inp)
        (Some (encode_scope inp)) True = Inr r') rs ns"
      "list_all (\<lambda>r'. length (encodeUtf8 (join [44] (row_cells r'))) \<le>
        byte_limit (ei_maxRecordBytes inp)) ns"
      "map event_bytes (encode_records inp (n + 1) rs) =
        map (\<lambda>r'. encodeUtf8 (join [44] (row_cells r') @ [13, 10])) ns"
      by (elim exE conjE)
    then show ?thesis
      using Inr small by (intro exI [of _ "r' # ns"]) (simp add: step del: encode_records.simps)
  qed
qed simp

lemma decode_rows:
  assumes "list_all2 (\<lambda>r r'. normalizeRecord r (ei_fields inp) (Some (encode_scope inp)) True = Inr r') rs ns"
    and "distinct (map fs_fieldId (ei_fields inp))" and "\<forall>r\<in>set rs. exact_record r"
    and "list_all2 framed (map (\<lambda>r'. encodeUtf8 (join [44] (row_cells r'))) ns) events"
  shows "decode_events (decoder_of inp chunks) (Some k) events =
    map2 Decoded ns [Suc k..<Suc k + length ns]"
  using assms(1,3,4)
proof (induction rs ns arbitrary: k events rule: list_all2_induct)
  case (Cons r rs r' ns)
  from Cons.prems(2) obtain event rest where e: "events = event # rest"
    "framed (encodeUtf8 (join [44] (row_cells r'))) event"
    "list_all2 framed (map (\<lambda>r'. encodeUtf8 (join [44] (row_cells r'))) ns) rest"
    by (auto simp: list_all2_Cons1)
  from e(2) obtain raw where raw: "event = Raw_record raw" by (auto simp: framed_def)
  have "decodeRecord raw (decoder_of inp chunks) (Suc k) = Decoded r' (Suc k)"
    using decode_row [OF Cons.hyps(1) assms(2)] Cons.prems(1) e(2) raw by simp
  moreover have "[Suc k..<Suc k + length (r' # ns)] = Suc k # [Suc (Suc k)..<Suc (Suc k) + length ns]"
    by (subst upt_conv_Cons) simp_all
  ultimately show ?case
    using Cons.IH [OF _ e(3), of "Suc k"] Cons.prems(1) by (simp add: e(1) raw del: upt_Suc)
qed simp

lemma is_chunk_iff: "list_all is_chunk evs \<longleftrightarrow> (\<forall>ev\<in>set evs. is_chunk ev)"
  by (simp add: list_all_iff)

text \<open>
  However a byte stream is cut into chunks, the decoder yields the same events: a quote, a
  CRLF or a character may lie across two chunks.
\<close>

lemma csv_chunking:
  assumes "concat chunks = concat chunks'"
  shows "decodeCsv (inp\<lparr>di_bytes := chunks\<rparr>) = decodeCsv (inp\<lparr>di_bytes := chunks'\<rparr>)"
proof -
  have inp: "di_fields (inp\<lparr>di_bytes := b\<rparr>) = di_fields inp"
    "di_datasetId (inp\<lparr>di_bytes := b\<rparr>) = di_datasetId inp"
    "di_workspaceId (inp\<lparr>di_bytes := b\<rparr>) = di_workspaceId inp"
    "di_maxRecordBytes (inp\<lparr>di_bytes := b\<rparr>) = di_maxRecordBytes inp"
    "di_bytes (inp\<lparr>di_bytes := b\<rparr>) = b" for inp :: decode_input and b
    by simp_all
  have scope: "decodeRecord raw (inp\<lparr>di_bytes := b\<rparr>) n = decodeRecord raw inp n"
    for raw b n and inp :: decode_input
    unfolding decodeRecord_def inp ..
  have events: "decode_events (inp\<lparr>di_bytes := b\<rparr>) seen evs = decode_events inp seen evs" for b seen evs
    by (induction inp seen evs rule: decode_events.induct) (simp_all add: scope)
  have cut: "records chunks limit = records chunks' limit" for limit
    unfolding records_def using assms by (metis frame_concat)
  show ?thesis unfolding decodeCsv_def inp events cut ..
qed

text \<open>
  C34. When the encoder reports no error, decoding its bytes, in any chunks, gives the records in
  their order, each normalized to the order of the fields, and no error. The texts have no lone
  surrogate, no record identity starts with a byte order mark, and no number is negative zero.
\<close>

theorem csv_roundtrip:
  assumes "list_all is_chunk (encodeCsv inp)"
    and "list_all exact_record (ei_records inp)"
    and "concat chunks = concat (map event_bytes (encodeCsv inp))"
  shows "\<exists>rs. list_all2
      (\<lambda>r r'. normalizeRecord r (ei_fields inp) (Some (encode_scope inp)) True = Inr r')
      (ei_records inp) rs \<and>
    decodeCsv (decoder_of inp chunks) = map2 Decoded rs [1..<1 + length rs]"
proof -
  let ?limit = "byte_limit (ei_maxRecordBytes inp)"
  let ?header = "map encodeField (expectedHeader (ei_fields inp))"
  have config: "configurationError (ei_fields inp) (ei_maxRecordBytes inp) (Some (ei_datasetId inp))
      (Some (ei_workspaceId inp)) = None"
    using assms(1) by (auto simp: encodeCsv_def split: option.splits)
  have small: "length (encodeUtf8 (join [44] ?header)) \<le> ?limit"
    and rows: "list_all is_chunk (encode_records inp 0 (ei_records inp))"
    and encoded: "encodeCsv inp =
      Chunk (encodeUtf8 (join [44] ?header @ [13, 10])) None # encode_records inp 0 (ei_records inp)"
    using assms(1) config by (simp_all add: encodeCsv_def Let_def split: if_splits)
  have specs: "\<not> invalid_field [] [] (ei_fields inp)"
    using config by (auto simp: configurationError_def split: if_splits)
  then have keys: "\<forall>f\<in>set (ei_fields inp). FIELD_KEY_PATTERN (fs_key f)"
    and ids: "distinct (map fs_fieldId (ei_fields inp))"
    unfolding invalid_field_False by blast+
  obtain ns where norm: "list_all2 (\<lambda>r r'. normalizeRecord r (ei_fields inp) (Some (encode_scope inp)) True = Inr r')
      (ei_records inp) ns"
    and fit: "list_all (\<lambda>r'. length (encodeUtf8 (join [44] (row_cells r'))) \<le> ?limit) ns"
    and bytes: "map event_bytes (encode_records inp 0 (ei_records inp)) =
      map (\<lambda>r'. encodeUtf8 (join [44] (row_cells r') @ [13, 10])) ns"
    using encoded_rows [OF rows] by (elim exE conjE)
  have exact: "exact_record r'" if "r' \<in> set ns" for r'
  proof -
    from that norm obtain r where r: "r \<in> set (ei_records inp)"
      "normalizeRecord r (ei_fields inp) (Some (encode_scope inp)) True = Inr r'"
      by (fastforce simp: list_all2_conv_all_nth in_set_conv_nth)
    note nc = normalized_complete [OF r(2) ids]
    have "rec_recordId r' = rec_recordId r" by (subst nc(6)) simp
    then show ?thesis
      using nc(9) assms(2) r(1) by (auto simp: exact_record_def list_all_iff)
  qed
  let ?rows = "?header # map row_cells ns"
  have "\<forall>es\<in>set ?rows. es \<noteq> [] \<and> list_all (\<lambda>e. field_bytes (encodeUtf8 e)) es \<and>
      length (encodeUtf8 (join [44] es)) \<le> ?limit"
  proof -
    have "list_all (\<lambda>e. field_bytes (encodeUtf8 e)) ?header"
      using plain_header(1) [OF keys]
      by (auto simp: list_all2_conv_all_nth list_all_length intro: csv_cell_bytes)
    then show ?thesis
      using small fit exact exact_row(2) by (auto simp: list_all_iff expectedHeader_def)
  qed
  from frame_document [OF this fresh_new]
  have "list_all2 framed (map (\<lambda>es. encodeUtf8 (join [44] es)) ?rows)
      (frame (new_framer ?limit) [concat (map (\<lambda>es. encodeUtf8 (join [44] es @ [13, 10])) ?rows)])" .
  also have "concat (map (\<lambda>es. encodeUtf8 (join [44] es @ [13, 10])) ?rows) = concat chunks"
    using assms(3) encoded bytes by (simp add: comp_def)
  finally have framed: "list_all2 framed (map (\<lambda>es. encodeUtf8 (join [44] es)) ?rows)
      (records chunks ?limit)"
    by (simp only: records_def frame_concat [of "new_framer ?limit" chunks])
  then obtain first rest where ev: "records chunks ?limit = first # rest"
    "framed (encodeUtf8 (join [44] ?header)) first"
    "list_all2 framed (map (\<lambda>r'. encodeUtf8 (join [44] (row_cells r'))) ns) rest"
    by (auto simp: list_all2_Cons1 list_all2_map1)
  from ev(2) obtain raw where raw: "first = Raw_record raw" by (auto simp: framed_def)
  have "header_matches raw (ei_fields inp)"
    using header_framed [OF keys] ev(2) raw by simp
  then have "decodeCsv (decoder_of inp chunks) =
      decode_events (decoder_of inp chunks) (Some 0) rest"
    using config ev(1) raw by (simp add: decodeCsv_def decoder_of_def)
  also have "\<dots> = map2 Decoded ns [Suc 0..<Suc 0 + length ns]"
    using norm ids assms(2) ev(3) by (intro decode_rows) (simp_all add: list_all_iff)
  finally show ?thesis using norm by (intro exI [of _ ns]) simp
qed


definition sample_document :: encode_input where
  "sample_document =
     \<lparr>ei_datasetId = lit ''d'',
      ei_fields =
        [\<lparr>fs_fieldId = lit ''f'', fs_key = lit ''note'', fs_valueType = T_string\<rparr>,
         \<lparr>fs_fieldId = lit ''g'', fs_key = lit ''ok'', fs_valueType = T_boolean\<rparr>],
      ei_maxRecordBytes = num 64,
      ei_records =
        [\<lparr>rec_datasetId = lit ''d'', rec_recordId = lit ''1'',
          rec_values =
            [\<lparr>rv_fieldId = lit ''g'', rv_value = VBool True\<rparr>,
             \<lparr>rv_fieldId = lit ''f'', rv_value = VString [34, 13, 10, 0x20AC, 44]\<rparr>],
          rec_workspaceId = lit ''w''\<rparr>,
         \<lparr>rec_datasetId = lit ''d'', rec_recordId = lit ''2'',
          rec_values =
            [\<lparr>rv_fieldId = lit ''f'', rv_value = VString []\<rparr>,
             \<lparr>rv_fieldId = lit ''g'', rv_value = VNull\<rparr>],
          rec_workspaceId = lit ''w''\<rparr>],
      ei_workspaceId = lit ''w''\<rparr>"

lemma byte_limit_num [simp]: "byte_limit (num n) = nat n"
  by (simp add: byte_limit_def num_def)

lemma sample_configuration:
  "configurationError (ei_fields sample_document) (ei_maxRecordBytes sample_document)
     (Some (ei_datasetId sample_document)) (Some (ei_workspaceId sample_document)) = None"
  by (simp add: configurationError_def sample_document_def validId_def trim_def lit_def js_space_def
      FIELD_KEY_PATTERN_def lower_def digit_def MAX_RECORD_BYTES_def max_safe_def)

lemma sample_encodes: "list_all is_chunk (encodeCsv sample_document)"
  "list_all exact_record (ei_records sample_document)"
  unfolding encodeCsv_def sample_configuration
  by (simp_all add: sample_document_def Let_def normalizeRecord_def validId_def trim_def lit_def
      js_space_def map_has_def map_get_def map_set_def map_keys_def expectedHeader_def encodeField_def
      requires_quotes_def double_quotes_def encodeUtf8_def utf8_bytes_def unit_scalar_def surrogate_def
      high_surrogate_def low_surrogate_def exact_record_def)

theorem csv_roundtrip_witness:
  "\<exists>rs. list_all2
      (\<lambda>r r'. normalizeRecord r (ei_fields sample_document) (Some (encode_scope sample_document)) True = Inr r')
      (ei_records sample_document) rs \<and>
    decodeCsv (decoder_of sample_document [concat (map event_bytes (encodeCsv sample_document))]) =
      map2 Decoded rs [1..<1 + length rs]"
  by (rule csv_roundtrip [OF sample_encodes]) simp

end
