(* ===== verification/Jsonl_Properties.thy ===== *)
theory Jsonl_Properties
  imports Jsonl Csv_Properties
begin

text \<open>
  What the JSONL codec promises: the lines are those of the whole stream, a document that was
  encoded without an error decodes to its records, and every record that either decoder yields
  belongs to the scope it was asked for and has values of the types of their fields.
\<close>

section \<open>Lines\<close>

text \<open>The lines of a stream, after the bytes \<open>acc\<close> of the first; a last empty one is none.\<close>

fun split_lines :: "byte list \<Rightarrow> byte list \<Rightarrow> byte list list" where
  "split_lines acc [] = (if acc = [] then [] else [acc])"
| "split_lines acc (b # bs) = (if b = 10 then acc # split_lines [] bs else split_lines (acc @ [b]) bs)"

text \<open>A line without the carriage return before its end.\<close>

definition line_content :: "byte list \<Rightarrow> byte list" where
  "line_content line = (if line \<noteq> [] \<and> last line = 13 then butlast line else line)"

definition reference_line :: "nat \<Rightarrow> byte list \<Rightarrow> nat \<Rightarrow> raw_line" where
  "reference_line limit line n =
     \<lparr>rl_bytes = (if length (line_content line) > limit then None else Some (line_content line)),
      rl_lineNumber = n, rl_oversized = (length (line_content line) > limit)\<rparr>"

text \<open>The buffer holds the first bytes of a line, up to one more than the limit.\<close>

definition buffered :: "nat \<Rightarrow> byte list \<Rightarrow> byte list \<Rightarrow> bool" where
  "buffered limit line buffer \<longleftrightarrow>
     length buffer = limit + 1 \<and> take (length line) buffer = take (limit + 1) line"

lemma buffered_Nil: "length buffer = limit + 1 \<Longrightarrow> buffered limit [] buffer"
  by (simp add: buffered_def)

lemma buffered_snoc:
  assumes "buffered limit line buffer"
  shows "buffered limit (line @ [b])
    (if length line < length buffer then buffer[length line := b] else buffer)"
proof (cases "length line < length buffer")
  case True
  then have "take (length line) buffer = line" using assms by (simp add: buffered_def)
  with True assms show ?thesis
    by (simp add: buffered_def take_Suc_conv_app_nth)
next
  case False
  have len: "length buffer = limit + 1" using assms by (simp add: buffered_def)
  with False have "limit + 1 \<le> length line" by simp
  with assms len False show ?thesis by (simp add: buffered_def)
qed

lemma raw_line_reference:
  assumes "buffered limit line buffer"
  shows "rawLine buffer (length line) n limit = reference_line limit line n"
proof (cases "length line \<le> limit + 1")
  case True
  then have line: "take (length line) buffer = line" "length line \<le> length buffer"
    using assms by (simp_all add: buffered_def)
  show ?thesis
  proof (cases line rule: rev_cases)
    case Nil
    then show ?thesis by (simp add: rawLine_def reference_line_def line_content_def)
  next
    case (snoc xs b)
    have "take (length xs) buffer = take (length xs) (take (length line) buffer)"
      by (simp add: snoc)
    then have xs: "take (length xs) buffer = xs" by (simp only: line(1)) (simp add: snoc)
    have "buffer ! length xs = take (length line) buffer ! length xs" by (simp add: snoc)
    then have "buffer ! length xs = b" by (simp only: line(1)) (simp add: snoc)
    with xs line show ?thesis
      by (simp add: rawLine_def reference_line_def line_content_def Let_def snoc)
  qed
next
  case False
  then have "length (line_content line) > limit" by (auto simp: line_content_def)
  with False assms show ?thesis
    by (simp add: rawLine_def reference_line_def buffered_def)
qed

lemma line_loop_reference:
  assumes "buffered limit line buffer"
  shows "line_loop limit buffer (length line) n chunks =
    map2 (reference_line limit) (split_lines line (concat chunks))
      [n..<n + length (split_lines line (concat chunks))]"
  using assms
proof (induction limit buffer "length line" n chunks arbitrary: line rule: line_loop.induct)
  case (1 limit buffer n)
  then show ?case using raw_line_reference [OF 1] by (cases line) simp_all
next
  case (3 limit buffer n byte bytes chunks)
  show ?case
  proof (cases "byte = 10")
    case True
    have "length buffer = limit + 1" using "3.prems" by (simp add: buffered_def)
    from "3.hyps"(1) [OF True _ buffered_Nil [OF this]]
    show ?thesis using True raw_line_reference [OF "3.prems"] by (simp add: upt_conv_Cons del: upt_Suc)
  next
    case False
    from "3.hyps"(2) [OF False _ buffered_snoc [OF "3.prems"]] False show ?thesis by simp
  qed
qed simp

lemma jsonl_lines_reference:
  "jsonl_lines chunks limit =
   map2 (reference_line limit) (split_lines [] (concat chunks))
     [1..<1 + length (split_lines [] (concat chunks))]"
  using line_loop_reference [OF buffered_Nil, of "replicate (limit + 1) 0" limit 1 chunks]
  by (simp add: jsonl_lines_def)

text \<open>
  The fixed buffer reads the same lines as cutting the whole stream at its line feeds: each
  line loses one carriage return at its end, carries its number, and is given up as too large
  exactly when its content exceeds the limit, however the stream is cut into chunks.
\<close>

lemma jsonl_lines_exact:
  "jsonl_lines chunks limit =
   map2 (reference_line limit) (split_lines [] (concat chunks))
     [1..<1 + length (split_lines [] (concat chunks))]"
  by (rule jsonl_lines_reference)

lemma split_line: "10 \<notin> set line \<Longrightarrow> split_lines acc (line @ 10 # rest) = (acc @ line) # split_lines [] rest"
  by (induction line arbitrary: acc) auto

lemma split_document:
  "\<forall>line\<in>set ls. 10 \<notin> set line \<Longrightarrow> split_lines [] (concat (map (\<lambda>line. line @ [10]) ls)) = ls"
  by (induction ls) (simp_all add: split_line)


section \<open>Typed records\<close>

text \<open>Values in the order of the fields, none of them twice, each of the type of its field.\<close>

fun typed_values :: "field_spec list \<Rightarrow> record_value list \<Rightarrow> bool" where
  "typed_values specs [] = True"
| "typed_values [] (v # vs) = False"
| "typed_values (f # specs) (v # vs) =
     (if rv_fieldId v = fs_fieldId f then scalarMatchesField (rv_value v) f \<and> typed_values specs vs
      else typed_values specs (v # vs))"

definition typed_record :: "decode_input \<Rightarrow> data_record \<Rightarrow> bool" where
  "typed_record inp r \<longleftrightarrow>
     validId (rec_recordId r) \<and> rec_datasetId r = di_datasetId inp \<and>
     rec_workspaceId r = di_workspaceId inp \<and> typed_values (di_fields inp) (rec_values r)"

lemma ordered_has: "order_values m specs = Inr vs \<Longrightarrow> v \<in> set vs \<Longrightarrow> map_get m (rv_fieldId v) \<noteq> None"
  by (induction specs arbitrary: vs) (auto split: option.splits if_splits)

lemma typed_skip: "fs_fieldId f \<notin> rv_fieldId ` set vs \<Longrightarrow> typed_values (f # specs) vs = typed_values specs vs"
  by (cases vs) auto

lemma ordered_typed: "order_values m specs = Inr vs \<Longrightarrow> typed_values specs vs"
proof (induction specs arbitrary: vs)
  case (Cons f specs)
  show ?case
  proof (cases "map_get m (fs_fieldId f)")
    case None
    then have "fs_fieldId f \<notin> rv_fieldId ` set vs" using ordered_has [OF Cons.prems] by fastforce
    with None Cons show ?thesis by (simp add: typed_skip)
  next
    case (Some x)
    with Cons show ?thesis by (auto split: if_splits)
  qed
qed simp

lemma normalized_scope:
  assumes "normalizeRecord r specs (Some scope) required = Inr r'"
  shows "validId (rec_recordId r')" "rec_datasetId r' = sc_datasetId scope"
    "rec_workspaceId r' = sc_workspaceId scope" "validId (sc_datasetId scope)"
    "validId (sc_workspaceId scope)" "typed_values specs (rec_values r')"
  using assms by (auto simp: normalizeRecord_def ordered_typed split: if_splits option.splits sum.splits)

lemma normalized_typed:
  assumes "normalizeRecord r (di_fields inp)
      (Some \<lparr>sc_datasetId = di_datasetId inp, sc_workspaceId = di_workspaceId inp\<rparr>) required = Inr r'"
  shows "typed_record inp r'"
  using normalized_scope [OF assms] by (simp add: typed_record_def)

lemma decoded_line_typed: "decodeLine bytes inp n = Decoded r k \<Longrightarrow> typed_record inp r"
  by (auto simp: decodeLine_def parseWireRecord_def Let_def
      split: option.splits sum.splits if_splits dest!: normalized_typed)

lemma decode_lines_typed: "Decoded r k \<in> set (decode_lines inp n ls) \<Longrightarrow> typed_record inp r"
proof (induction inp n ls rule: decode_lines.induct)
  case (2 inp n line rest)
  then show ?case
    using decoded_line_typed [of _ inp "n + 1" r k]
    by (auto simp: Let_def split: option.splits if_splits)
qed simp

lemma decode_record_typed: "decodeRecord raw inp n = Decoded r k \<Longrightarrow> typed_record inp r"
  by (auto simp: decodeRecord_def recordError_def Let_def
      split: option.splits sum.splits if_splits parsed_fields.splits dest!: normalized_typed)

lemma decode_events_typed: "Decoded r k \<in> set (decode_events inp seen evs) \<Longrightarrow> typed_record inp r"
proof (induction inp seen evs rule: decode_events.induct)
  case (3 inp n raw evs)
  then show ?case using decode_record_typed [of raw inp "n + 1" r k] by auto
qed (auto split: if_splits)

text \<open>
  C36. Whatever the bytes, every record that a decoder yields, for CSV or for JSONL, belongs to
  the dataset and the workspace it was asked for, has a valid identity, and has at most one value
  for each configured field, in their order and of their types.
\<close>

theorem decoded_records_typed:
  assumes "Decoded r n \<in> set (decodeCsv inp) \<union> set (decodeJsonl inp)"
  shows "typed_record inp r"
  using assms
  by (auto simp: decodeCsv_def decodeJsonl_def split: option.splits
      dest: decode_events_typed decode_lines_typed)


section \<open>The text of a record\<close>

text \<open>The text of a value has no line end and no lone surrogate, whatever its strings hold.\<close>

definition line_text :: "jstring \<Rightarrow> bool" where
  "line_text s \<longleftrightarrow> well_formed s \<and> 10 \<notin> set s \<and> 13 \<notin> set s"

lemma well_formed_ascii_append: "list_all ascii s \<Longrightarrow> well_formed (s @ t) = well_formed t"
  by (induction s) (simp_all add: well_formed_Cons)

lemma ascii_hex: "d < 16 \<Longrightarrow> ascii (hex_unit d) \<and> hex_unit d \<noteq> 10 \<and> hex_unit d \<noteq> 13"
  by (auto simp: hex_unit_def ascii_def word_less_nat_alt unat_word_ariths word_unat_eq_iff)

lemma ascii_escape: "list_all ascii (unicode_escape u)" "10 \<notin> set (unicode_escape u)"
  "13 \<notin> set (unicode_escape u)"
  using ascii_hex [of "u div 4096"] ascii_hex [of "u div 256 mod 16"] ascii_hex [of "u div 16 mod 16"]
    ascii_hex [of "u mod 16"]
  by (auto simp: unicode_escape_def ascii_def)

lemma quote_unit_text:
  assumes "\<not> (high_surrogate u \<or> low_surrogate u)"
  shows "well_formed (quote_unit u @ t) = well_formed t" "10 \<notin> set (quote_unit u)" "13 \<notin> set (quote_unit u)"
proof -
  have "list_all ascii [92, c] \<longleftrightarrow> ascii c" for c by (simp add: ascii_def)
  then show "well_formed (quote_unit u @ t) = well_formed t"
    using assms by (auto simp: quote_unit_def well_formed_Cons surrogate_def well_formed_ascii_append
        ascii_escape high_surrogate_def low_surrogate_def)
  show "10 \<notin> set (quote_unit u)" "13 \<notin> set (quote_unit u)"
    using ascii_escape by (auto simp: quote_unit_def)
qed

lemma quoted_text: "line_text t \<Longrightarrow> line_text (quote_units s @ 34 # t)"
proof (induction s rule: quote_units.induct)
  case 1
  then show ?case by (simp add: line_text_def well_formed_Cons surrogate_def surrogate_nat)
next
  case (2 u)
  have "well_formed (34 # t) = well_formed t" by (simp add: well_formed_Cons surrogate_def surrogate_nat)
  with 2 ascii_escape quote_unit_text show ?case
    by (auto simp: line_text_def well_formed_ascii_append)
next
  case (3 u v s)
  have plain: "u \<noteq> 10 \<and> u \<noteq> 13" if "high_surrogate u \<or> low_surrogate u" for u
    using that by (auto simp: surrogate_nat)
  from 3 ascii_escape quote_unit_text plain show ?case
    by (auto simp: line_text_def well_formed_ascii_append)
qed

lemma line_text_ascii:
  "list_all ascii s \<Longrightarrow> 10 \<notin> set s \<Longrightarrow> 13 \<notin> set s \<Longrightarrow> line_text (s @ t) = line_text t"
  by (simp add: line_text_def well_formed_ascii_append)

lemma line_text_Cons: "ascii u \<Longrightarrow> u \<noteq> 10 \<Longrightarrow> u \<noteq> 13 \<Longrightarrow> line_text (u # t) = line_text t"
  using line_text_ascii [of "[u]" t] by simp

lemma line_text_units [simp]:
  "line_text []" "line_text (34 # t) = line_text t" "line_text (44 # t) = line_text t"
  "line_text (58 # t) = line_text t" "line_text (91 # t) = line_text t" "line_text (93 # t) = line_text t"
  "line_text (123 # t) = line_text t" "line_text (125 # t) = line_text t"
  by (simp_all add: line_text_Cons) (simp add: line_text_def)

lemma line_text_string: "line_text t \<Longrightarrow> line_text (json_string s @ t)"
  by (simp add: json_string_def quoted_text)

lemma line_text_join:
  assumes "\<And>x t. x \<in> set xs \<Longrightarrow> line_text t \<Longrightarrow> line_text (f x @ t)" and "line_text t"
  shows "line_text (join [44] (map f xs) @ t)"
  using assms(1)
proof (induction xs)
  case (Cons x xs)
  then show ?case using assms(2) by (cases xs) auto
qed (simp add: assms(2))

lemma query_line_text: "finite_query v \<Longrightarrow> line_text t \<Longrightarrow> line_text (query_text v @ t)"
proof (induction v arbitrary: t)
  case (Q_number x)
  then show ?case
    using number_text_units [of x] list_all_number_unit(2) [of "number_text x"]
    by (subst line_text_ascii) (auto simp: list_all_iff number_unit_def decimal_digit_def)
next
  case (Q_array vs)
  then show ?case by (auto simp: list_all_iff intro!: line_text_join)
next
  case (Q_object kvs)
  then show ?case by (auto simp: list_all_iff intro!: line_text_join line_text_string) fastforce
qed (auto simp: lit_def line_text_Cons ascii_def line_text_string)


lemma record_line_text:
  assumes "finite_query v"
  shows "decodeUtf8 (encodeUtf8 (query_text v)) = Some (query_text v)"
    "10 \<notin> set (encodeUtf8 (query_text v))" "13 \<notin> set (encodeUtf8 (query_text v))"
proof -
  have clean: "line_text (query_text v)" using query_line_text [OF assms, of "[]"] by simp
  show "10 \<notin> set (encodeUtf8 (query_text v))" "13 \<notin> set (encodeUtf8 (query_text v))"
    using clean encoded_low [of 10 "query_text v"] encoded_low [of 13 "query_text v"]
    by (auto simp: line_text_def)
  have "take 1 (query_text v) \<noteq> [0xFEFF]"
    using ascii_query_text [OF assms] by (cases "query_text v") (auto simp: ascii_def)
  with clean show "decodeUtf8 (encodeUtf8 (query_text v)) = Some (query_text v)"
    by (intro decode_encode) (auto simp: line_text_def)
qed


section \<open>Records\<close>

text \<open>The numbers that JSON carries exactly; every string survives.\<close>

fun json_exact :: "scalar_value \<Rightarrow> bool" where
  "json_exact (VNumber x) = exact_number x"
| "json_exact _ = True"

definition json_exact_record :: "data_record \<Rightarrow> bool" where
  "json_exact_record r \<longleftrightarrow> (\<forall>v\<in>set (rec_values r). json_exact (rv_value v))"

lemma scalar_json_props [simp]:
  "json_exact v \<Longrightarrow> exact_value (scalar_json v)" "strict_value d (scalar_json v)"
  "isScalar (scalar_json v) = Some v" "json_exact v \<Longrightarrow> finite_query (scalar_json v)"
  by (cases v; simp add: isScalar_def exact_number_def)+

lemma wire_names [simp]:
  "lit ''dataset_id'' \<noteq> lit ''record_id''" "lit ''dataset_id'' \<noteq> lit ''values''"
  "lit ''dataset_id'' \<noteq> lit ''workspace_id''" "lit ''record_id'' \<noteq> lit ''dataset_id''"
  "lit ''record_id'' \<noteq> lit ''values''" "lit ''record_id'' \<noteq> lit ''workspace_id''"
  "lit ''values'' \<noteq> lit ''dataset_id''" "lit ''values'' \<noteq> lit ''record_id''"
  "lit ''values'' \<noteq> lit ''workspace_id''" "lit ''workspace_id'' \<noteq> lit ''dataset_id''"
  "lit ''workspace_id'' \<noteq> lit ''record_id''" "lit ''workspace_id'' \<noteq> lit ''values''"
  "lit ''field_id'' \<noteq> lit ''value''" "lit ''value'' \<noteq> lit ''field_id''"
  by (simp_all add: lit_def)

lemma wire_record_tree:
  assumes "json_exact_record r"
  shows "parseJsonWithUniqueObjectKeys (query_text (wireRecord r)) = Some (wireRecord r)"
    "finite_query (wireRecord r)"
proof -
  have "exact_value (wireRecord r)" "strict_value 0 (wireRecord r)"
    using assms
    by (auto simp: wireRecord_def json_exact_record_def list_all_iff MAX_JSON_NESTING_DEPTH_def
        MAX_JSON_OBJECT_KEYS_def)
  then show "parseJsonWithUniqueObjectKeys (query_text (wireRecord r)) = Some (wireRecord r)"
    by (simp add: strict_tree json_tree_text)
  show "finite_query (wireRecord r)"
    using assms by (auto simp: wireRecord_def json_exact_record_def list_all_iff)
qed

lemma wire_values_back:
  "wire_values (map (\<lambda>e. Q_object [(lit ''field_id'', Q_string (rv_fieldId e)),
     (lit ''value'', scalar_json (rv_value e))]) es) = Some es"
  by (induction es)
    (simp_all add: wire_entry_def isObject_def hasKeys_def object_members_def string_member_def
      map_get_def)

lemma parse_wire_back:
  assumes "rec_workspaceId r = di_workspaceId inp"
    and "normalizeRecord r (di_fields inp)
      (Some \<lparr>sc_datasetId = di_datasetId inp, sc_workspaceId = di_workspaceId inp\<rparr>) False = Inr r"
  shows "parseWireRecord (wireRecord r) inp n = Inr r"
proof -
  have same: "\<lparr>rec_datasetId = rec_datasetId r, rec_recordId = rec_recordId r, rec_values = rec_values r,
      rec_workspaceId = di_workspaceId inp\<rparr> = r"
    using assms(1) by (cases r) simp
  with assms show ?thesis
    by (simp add: parseWireRecord_def wireRecord_def isObject_def hasKeys_def object_members_def
        string_member_def array_member_def map_get_def wire_values_back same)
qed

text \<open>Normalizing a normalized record changes nothing.\<close>

lemma typed_ids: "typed_values specs vs \<Longrightarrow> rv_fieldId ` set vs \<subseteq> fs_fieldId ` set specs"
  by (induction specs vs rule: typed_values.induct) (auto split: if_splits)

lemma typed_distinct:
  "typed_values specs vs \<Longrightarrow> distinct (map fs_fieldId specs) \<Longrightarrow> distinct (map rv_fieldId vs)"
proof (induction specs vs rule: typed_values.induct)
  case (3 f specs v vs)
  then show ?case using typed_ids [of specs vs] by (auto split: if_splits)
qed simp_all

lemma order_values_typed:
  assumes "typed_values specs vs" and "distinct (map fs_fieldId specs)"
    and "\<And>v. v \<in> set vs \<Longrightarrow> map_get m (rv_fieldId v) = Some (rv_value v)"
    and "\<And>f. f \<in> set specs \<Longrightarrow> fs_fieldId f \<notin> rv_fieldId ` set vs \<Longrightarrow> map_get m (fs_fieldId f) = None"
  shows "order_values m specs = Inr vs"
  using assms
proof (induction specs vs rule: typed_values.induct)
  case (1 specs)
  then show ?case by (induction specs) simp_all
next
  case (3 f specs v vs)
  have dist: "distinct (map fs_fieldId specs)" "fs_fieldId f \<notin> fs_fieldId ` set specs"
    using "3.prems"(2) by simp_all
  then have other: "fs_fieldId g \<noteq> fs_fieldId f" if "g \<in> set specs" for g
    using that by (metis imageI)
  show ?case
  proof (cases "rv_fieldId v = fs_fieldId f")
    case True
    have typed: "typed_values specs vs" "scalarMatchesField (rv_value v) f"
      using "3.prems"(1) True by simp_all
    have get: "map_get m (fs_fieldId f) = Some (rv_value v)"
      using "3.prems"(3) [of v] by (simp add: True)
    have "order_values m specs = Inr vs"
    proof (rule "3.IH"(1) [OF True typed(1) dist(1)])
      fix g assume g: "g \<in> set specs" "fs_fieldId g \<notin> rv_fieldId ` set vs"
      then have "fs_fieldId g \<notin> rv_fieldId ` set (v # vs)" using other True by simp
      with g(1) show "map_get m (fs_fieldId g) = None" by (intro "3.prems"(4)) simp_all
    qed (simp add: "3.prems"(3))
    moreover have "\<lparr>rv_fieldId = fs_fieldId f, rv_value = rv_value v\<rparr> = v" by (simp add: True [symmetric])
    ultimately show ?thesis by (simp add: get typed(2))
  next
    case False
    have typed: "typed_values specs (v # vs)" using "3.prems"(1) False by simp
    have "fs_fieldId f \<notin> rv_fieldId ` set (v # vs)"
      using typed_ids [OF typed] dist(2) by (metis subsetD)
    then have "map_get m (fs_fieldId f) = None" by (intro "3.prems"(4)) simp_all
    moreover have "order_values m specs = Inr (v # vs)"
      by (rule "3.IH"(2) [OF False typed dist(1)]) (simp_all add: "3.prems"(3,4))
    ultimately show ?thesis by simp
  qed
qed simp

text \<open>The values of a normalized record are values of the record.\<close>

lemma ordered_values:
  "order_values m specs = Inr vs \<Longrightarrow> v \<in> set vs \<Longrightarrow> map_get m (rv_fieldId v) = Some (rv_value v)"
  by (induction specs arbitrary: vs) (auto split: option.splits if_splits)

lemma normalized_exact:
  assumes "normalizeRecord r specs (Some scope) required = Inr r'" and "json_exact_record r"
  shows "json_exact_record r'"
proof -
  obtain m where m: "index_values [] (rec_values r) = Some m" "order_values m specs = Inr (rec_values r')"
    using assms(1) by (auto simp: normalizeRecord_def split: if_splits option.splits sum.splits)
  then have "m = map (\<lambda>e. (rv_fieldId e, rv_value e)) (rec_values r)"
    using index_values_Some [of "[]" "rec_values r" m] by (simp add: map_keys_def)
  then have "\<exists>e\<in>set (rec_values r). rv_value e = rv_value v" if "v \<in> set (rec_values r')" for v
    using ordered_values [OF m(2) that] by (auto simp: map_get_def dest!: map_of_SomeD; blast)
  with assms(2) show ?thesis unfolding json_exact_record_def by metis
qed

lemma normalized_exact_records:
  "list_all2 (\<lambda>r r'. normalizeRecord r specs (Some scope) required = Inr r') rs ns \<Longrightarrow>
   list_all json_exact_record rs \<Longrightarrow> \<forall>r'\<in>set ns. json_exact_record r'"
  by (induction rule: list_all2_induct) (auto dest: normalized_exact)

lemma normalize_again:
  assumes "normalizeRecord r specs (Some scope) required = Inr r'" and "distinct (map fs_fieldId specs)"
  shows "normalizeRecord r' specs (Some scope) False = Inr r'"
proof -
  let ?m = "map (\<lambda>e. (rv_fieldId e, rv_value e)) (rec_values r')"
  note norm = normalized_scope [OF assms(1)]
  have ids: "distinct (map rv_fieldId (rec_values r'))" "rv_fieldId ` set (rec_values r') \<subseteq> fs_fieldId ` set specs"
    using typed_distinct [OF norm(6) assms(2)] typed_ids [OF norm(6)] by simp_all
  have get: "map_get ?m (rv_fieldId v) = Some (rv_value v)" if "v \<in> set (rec_values r')" for v
    using ids(1) that by (auto simp: map_get_def comp_def)
  have "map_get ?m k = None" if "k \<notin> rv_fieldId ` set (rec_values r')" for k
    using that by (auto simp: map_get_def map_of_eq_None_iff image_image)
  then have ordered: "order_values ?m specs = Inr (rec_values r')"
    using order_values_typed [OF norm(6) assms(2), of ?m] get by blast
  have known: "\<not> list_ex (\<lambda>k. \<not> list_ex (\<lambda>field. fs_fieldId field = k) specs) (map_keys ?m)"
  proof -
    have "\<exists>f\<in>set specs. fs_fieldId f = rv_fieldId e" if "e \<in> set (rec_values r')" for e
      using ids(2) imageI [OF that, of rv_fieldId] by (metis image_iff subsetD)
    then show ?thesis by (simp add: list_ex_iff map_keys_def)
  qed
  have "index_values [] (rec_values r') = Some ?m"
    using ids(1) by (subst index_values_Some) (simp_all add: map_keys_def)
  then show ?thesis
    using norm(1-5) ordered known by (simp add: normalizeRecord_def)
qed


section \<open>Documents\<close>

lemma encoded_lines:
  assumes "list_all is_chunk (encode_lines inp n rs)"
  shows "\<exists>ns. list_all2 (\<lambda>r r'. normalizeRecord r (ei_fields inp) (Some (encode_scope inp)) False = Inr r')
      rs ns \<and>
    list_all (\<lambda>r'. length (encodeUtf8 (query_text (wireRecord r'))) \<le> byte_limit (ei_maxRecordBytes inp)) ns \<and>
    map event_bytes (encode_lines inp n rs) =
      map (\<lambda>r'. encodeUtf8 (query_text (wireRecord r') @ [10])) ns"
  using assms
proof (induction rs arbitrary: n)
  case (Cons r rs)
  show ?case
  proof (cases "normalizeRecord r (ei_fields inp) (Some (encode_scope inp)) False")
    case (Inl e)
    then show ?thesis using Cons.prems by (simp add: Let_def encode_scope_def)
  next
    case (Inr r')
    let ?row = "query_text (wireRecord r')"
    have small: "length (encodeUtf8 ?row) \<le> byte_limit (ei_maxRecordBytes inp)"
      and rest: "list_all is_chunk (encode_lines inp (n + 1) rs)"
      and first: "event_bytes (hd (encode_lines inp n (r # rs))) = encodeUtf8 (?row @ [10])"
        "tl (encode_lines inp n (r # rs)) = encode_lines inp (n + 1) rs" "encode_lines inp n (r # rs) \<noteq> []"
      using Cons.prems Inr by (simp_all add: Let_def encode_scope_def split: if_splits)
    from Cons.IH [OF rest] obtain ns where "list_all2 (\<lambda>r r'. normalizeRecord r (ei_fields inp)
        (Some (encode_scope inp)) False = Inr r') rs ns"
      "list_all (\<lambda>r'. length (encodeUtf8 (query_text (wireRecord r'))) \<le>
        byte_limit (ei_maxRecordBytes inp)) ns"
      "map event_bytes (encode_lines inp (n + 1) rs) =
        map (\<lambda>r'. encodeUtf8 (query_text (wireRecord r') @ [10])) ns"
      by (elim exE conjE)
    moreover have "map event_bytes (encode_lines inp n (r # rs)) =
        encodeUtf8 (?row @ [10]) # map event_bytes (encode_lines inp (n + 1) rs)"
      using first by (metis list.collapse list.simps(9))
    ultimately show ?thesis
      using Inr small by (intro exI [of _ "r' # ns"]) (simp del: encode_lines.simps)
  qed
qed simp

lemma decode_line_back:
  assumes "normalizeRecord r (ei_fields inp) (Some (encode_scope inp)) False = Inr r'"
    and "distinct (map fs_fieldId (ei_fields inp))" and "json_exact_record r'"
    and "length (encodeUtf8 (query_text (wireRecord r'))) \<le> limit"
  shows "decode_lines (decoder_of inp chunks) k
      (reference_line limit (encodeUtf8 (query_text (wireRecord r'))) n # rest) =
    Decoded r' (Suc k) # decode_lines (decoder_of inp chunks) (Suc k) rest"
proof -
  let ?row = "encodeUtf8 (query_text (wireRecord r'))"
  note tree = wire_record_tree [OF assms(3)]
  note row = record_line_text [OF tree(2)]
  have "line_content ?row = ?row"
    using row(3) by (metis last_in_set line_content_def)
  then have line: "reference_line limit ?row n =
      \<lparr>rl_bytes = Some ?row, rl_lineNumber = n, rl_oversized = False\<rparr>"
    using assms(4) by (simp add: reference_line_def)
  have "parseWireRecord (wireRecord r') (decoder_of inp chunks) (Suc k) = Inr r'"
    using normalize_again [OF assms(1,2)] normalized_scope [OF assms(1)]
    by (intro parse_wire_back) (simp_all add: decoder_of_def encode_scope_def)
  then show ?thesis by (simp add: line decodeLine_def row(1) tree(1))
qed

lemma decode_lines_back:
  assumes "list_all2 (\<lambda>r r'. normalizeRecord r (ei_fields inp) (Some (encode_scope inp)) False = Inr r') rs ns"
    and "distinct (map fs_fieldId (ei_fields inp))" and "\<forall>r'\<in>set ns. json_exact_record r'"
    and "\<forall>r'\<in>set ns. length (encodeUtf8 (query_text (wireRecord r'))) \<le> limit"
  shows "decode_lines (decoder_of inp chunks) k
      (map2 (reference_line limit) (map (\<lambda>r'. encodeUtf8 (query_text (wireRecord r'))) ns)
        [Suc k..<Suc k + length ns]) =
    map2 Decoded ns [Suc k..<Suc k + length ns]"
  using assms(1,3,4)
proof (induction rs ns arbitrary: k rule: list_all2_induct)
  case (Cons r rs r' ns)
  have "[Suc k..<Suc k + length (r' # ns)] = Suc k # [Suc (Suc k)..<Suc (Suc k) + length ns]"
    by (subst upt_conv_Cons) simp_all
  then show ?case
    using decode_line_back [OF Cons.hyps(1) assms(2)] Cons.IH [of "Suc k"] Cons.prems
    by (simp del: upt_Suc decode_lines.simps)
qed simp

lemma jsonl_decodes:
  assumes "list_all is_chunk (encodeJsonl inp)"
    and "list_all json_exact_record (ei_records inp)"
    and "concat chunks = concat (map event_bytes (encodeJsonl inp))"
  shows "\<exists>rs. list_all2
      (\<lambda>r r'. normalizeRecord r (ei_fields inp) (Some (encode_scope inp)) False = Inr r')
      (ei_records inp) rs \<and>
    decodeJsonl (decoder_of inp chunks) = map2 Decoded rs [1..<1 + length rs]"
proof -
  let ?limit = "byte_limit (ei_maxRecordBytes inp)"
  let ?row = "\<lambda>r. encodeUtf8 (query_text (wireRecord r))"
  have config: "configurationError (ei_fields inp) (ei_maxRecordBytes inp) (Some (ei_datasetId inp))
      (Some (ei_workspaceId inp)) = None"
    using assms(1) by (auto simp: encodeJsonl_def split: option.splits)
  then have ids: "distinct (map fs_fieldId (ei_fields inp))"
    using invalid_field_False [of "[]" "[]" "ei_fields inp"]
    by (auto simp: configurationError_def split: if_splits)
  have encoded: "encodeJsonl inp = encode_lines inp 0 (ei_records inp)"
    using config by (simp add: encodeJsonl_def)
  obtain ns where norm: "list_all2 (\<lambda>r r'. normalizeRecord r (ei_fields inp) (Some (encode_scope inp)) False = Inr r')
      (ei_records inp) ns"
    and fit: "list_all (\<lambda>r'. length (?row r') \<le> ?limit) ns"
    and bytes: "map event_bytes (encode_lines inp 0 (ei_records inp)) =
      map (\<lambda>r'. encodeUtf8 (query_text (wireRecord r') @ [10])) ns"
    using encoded_lines [OF assms(1) [unfolded encoded]] by (elim exE conjE)
  have exact: "\<forall>r'\<in>set ns. json_exact_record r'"
    using norm assms(2) by (intro normalized_exact_records)
  then have rows: "\<forall>line\<in>set (map ?row ns). 10 \<notin> set line"
    using record_line_text(2) wire_record_tree(2) by auto
  have "concat chunks = concat (map (\<lambda>line. line @ [10]) (map ?row ns))"
    using assms(3) encoded bytes by (simp add: comp_def encode_append_ascii encode_ascii_Cons)
  then have "split_lines [] (concat chunks) = map ?row ns"
    using split_document [OF rows] by simp
  then have "jsonl_lines chunks ?limit = map2 (reference_line ?limit) (map ?row ns) [1..<1 + length ns]"
    by (simp add: jsonl_lines_reference)
  then have "decodeJsonl (decoder_of inp chunks) = map2 Decoded ns [1..<1 + length ns]"
    using config decode_lines_back [OF norm ids exact, of ?limit chunks 0] fit
    by (simp add: decodeJsonl_def decoder_of_def list_all_iff del: upt_Suc)
  with norm show ?thesis by (intro exI [of _ ns]) simp
qed

text \<open>
  C35. When the JSONL encoder reports no error, decoding its bytes, in any chunks, gives the
  records in their order, each normalized to the order of the fields, and no error. The strings
  are arbitrary, lone surrogates and line ends included; only negative zero is not carried.
\<close>

theorem jsonl_roundtrip:
  assumes "list_all is_chunk (encodeJsonl inp)"
    and "list_all json_exact_record (ei_records inp)"
    and "concat chunks = concat (map event_bytes (encodeJsonl inp))"
  shows "\<exists>rs. list_all2
      (\<lambda>r r'. normalizeRecord r (ei_fields inp) (Some (encode_scope inp)) False = Inr r')
      (ei_records inp) rs \<and>
    decodeJsonl (decoder_of inp chunks) = map2 Decoded rs [1..<1 + length rs]"
  by (rule jsonl_decodes [OF assms])

definition sample_jsonl :: encode_input where
  "sample_jsonl = sample_document
     \<lparr>ei_maxRecordBytes := num 512,
      ei_records :=
        [\<lparr>rec_datasetId = lit ''d'', rec_recordId = [0xFEFF, 49],
          rec_values = [\<lparr>rv_fieldId = lit ''f'', rv_value = VString [34, 10, 0xD800]\<rparr>],
          rec_workspaceId = lit ''w''\<rparr>]\<rparr>"

lemma jsonl_configuration:
  "configurationError (ei_fields sample_jsonl) (ei_maxRecordBytes sample_jsonl)
     (Some (ei_datasetId sample_jsonl)) (Some (ei_workspaceId sample_jsonl)) = None"
  by (simp add: configurationError_def sample_jsonl_def sample_document_def validId_def trim_def
      lit_def js_space_def FIELD_KEY_PATTERN_def lower_def digit_def MAX_RECORD_BYTES_def max_safe_def)

lemma encoded_length: "length (encodeUtf8 s) \<le> 3 * length s"
  by (induction s rule: scalars.induct) (auto simp: encodeUtf8_def utf8_bytes_def unit_scalar_def)

lemma jsonl_encodes:
  "list_all is_chunk (encodeJsonl sample_jsonl)" "list_all json_exact_record (ei_records sample_jsonl)"
proof -
  let ?r = "\<lparr>rec_datasetId = lit ''d'', rec_recordId = [0xFEFF, 49],
    rec_values = [\<lparr>rv_fieldId = lit ''f'', rv_value = VString [34, 10, 0xD800]\<rparr>],
    rec_workspaceId = lit ''w''\<rparr>"
  have "length (query_text (wireRecord ?r)) \<le> 170"
    by (simp add: wireRecord_def json_string_def quote_unit_def unicode_escape_def high_surrogate_def
        low_surrogate_def lit_def)
  then have small: "length (encodeUtf8 (query_text (wireRecord ?r))) \<le> 512"
    using encoded_length [of "query_text (wireRecord ?r)"] by simp
  have "normalizeRecord ?r (ei_fields sample_jsonl)
      (Some \<lparr>sc_datasetId = lit ''d'', sc_workspaceId = lit ''w''\<rparr>) False = Inr ?r"
    by (simp add: sample_jsonl_def sample_document_def normalizeRecord_def validId_def trim_def
        lit_def js_space_def map_has_def map_get_def map_set_def map_keys_def)
  with small show "list_all is_chunk (encodeJsonl sample_jsonl)"
    unfolding encodeJsonl_def jsonl_configuration
    by (simp add: sample_jsonl_def sample_document_def Let_def)
qed (simp add: sample_jsonl_def json_exact_record_def)

text \<open>The document cut into one chunk for each byte.\<close>

definition sample_chunks :: "byte list list" where
  "sample_chunks = map (\<lambda>b. [b]) (concat (map event_bytes (encodeJsonl sample_jsonl)))"

lemma sample_chunks: "concat sample_chunks = concat (map event_bytes (encodeJsonl sample_jsonl))"
  by (simp add: sample_chunks_def)

theorem jsonl_roundtrip_witness:
  "\<exists>rs. list_all2
      (\<lambda>r r'. normalizeRecord r (ei_fields sample_jsonl) (Some (encode_scope sample_jsonl)) False = Inr r')
      (ei_records sample_jsonl) rs \<and>
    decodeJsonl (decoder_of sample_jsonl sample_chunks) = map2 Decoded rs [1..<1 + length rs]"
  by (rule jsonl_roundtrip [OF jsonl_encodes sample_chunks])

theorem decoded_records_typed_witness:
  "\<exists>r. Decoded r 1 \<in> set (decodeJsonl (decoder_of sample_jsonl sample_chunks)) \<and>
     typed_record (decoder_of sample_jsonl sample_chunks) r"
proof -
  obtain rs where rs: "list_all2 (\<lambda>r r'. normalizeRecord r (ei_fields sample_jsonl)
      (Some (encode_scope sample_jsonl)) False = Inr r') (ei_records sample_jsonl) rs"
    "decodeJsonl (decoder_of sample_jsonl sample_chunks) = map2 Decoded rs [1..<1 + length rs]"
    using jsonl_decodes [OF jsonl_encodes sample_chunks] by blast
  from rs(1) obtain r rs' where "rs = r # rs'" by (auto simp: sample_jsonl_def list_all2_Cons1)
  with rs(2) have mem: "Decoded r 1 \<in> set (decodeJsonl (decoder_of sample_jsonl sample_chunks))"
    by (simp add: upt_conv_Cons del: upt_Suc)
  with decoded_records_typed [of r 1 "decoder_of sample_jsonl sample_chunks"] show ?thesis by blast
qed

end
