(* ===== verification/Canonical_Content.thy ===== *)
theory Canonical_Content
  imports Js_Value Jsonl_Properties
begin

text \<open>
  \<open>application/src/canonical-content-hash.ts\<close>, the text and the hash by which the application
  identifies content, and \<open>plugin-conformance/src/canonical-json.ts\<close>, the text of a conformance
  report. The digest of \<open>node:crypto\<close> is an argument.
\<close>

section \<open>The code\<close>

definition is_defined :: "jstring \<times> js_value \<Rightarrow> bool" where
  "is_defined entry \<longleftrightarrow> snd entry \<noteq> V_undefined"

text \<open>\<open>Object.entries(value)\<close> without undefined values, sorted by key as \<open>compareKeys\<close> orders.\<close>

definition canonical_entries :: "(jstring \<times> js_value) list \<Rightarrow> (jstring \<times> js_value) list" where
  "canonical_entries kvs = sort_key fst (filter is_defined kvs)"

lemma member_size: "(k, v) \<in> set kvs \<Longrightarrow> size v \<le> size_list (size_prod (\<lambda>x. 0) size) kvs"
  by (induction kvs) auto

lemma entry_size:
  "(k, v) \<in> set (canonical_entries kvs) \<Longrightarrow> size v \<le> size_list (size_prod (\<lambda>x. 0) size) kvs"
  by (auto simp: canonical_entries_def intro: member_size)

text \<open>\<open>None\<close> when the value cannot be serialized, which throws.\<close>

function serializeCanonical :: "js_value \<Rightarrow> jstring option" where
  "serializeCanonical V_null = Some (lit ''null'')"
| "serializeCanonical (V_boolean b) = Some (if b then lit ''true'' else lit ''false'')"
| "serializeCanonical (V_string s) = Some (json_string s)"
| "serializeCanonical (V_number x) = (if \<not> is_finite x then None else Some (number_text x))"
| "serializeCanonical (V_array vs) =
     map_option (\<lambda>ts. [91] @ join [44] ts @ [93]) (all_some (map serializeCanonical vs))"
| "serializeCanonical (V_object kvs) =
     map_option (\<lambda>ts. [123] @ join [44] ts @ [125])
       (all_some (map (\<lambda>(k, v). map_option (\<lambda>t. json_string k @ [58] @ t) (serializeCanonical v))
         (canonical_entries kvs)))"
| "serializeCanonical V_undefined = None"
| "serializeCanonical (V_bigint i) = None"
| "serializeCanonical V_symbol = None"
| "serializeCanonical (V_function f) = None"
  by pat_completeness auto

termination
  by (relation "measure size") (auto simp: entry_size size_list_estimation' less_Suc_eq_le)

definition canonicalContentHash :: "(byte list \<Rightarrow> jstring) \<Rightarrow> js_value \<Rightarrow> jstring option" where
  "canonicalContentHash sha256 v =
     Option.bind (serializeCanonical v) (\<lambda>t.
       case contentHash (lit ''sha256:'' @ sha256 (encodeUtf8 t)) of Inl _ \<Rightarrow> None | Inr h \<Rightarrow> Some h)"

definition canonicalContentByteSize :: "js_value \<Rightarrow> nat option" where
  "canonicalContentByteSize v = map_option (\<lambda>t. length (encodeUtf8 t)) (serializeCanonical v)"

text \<open>\<open>JSON.stringify\<close> writes null for a number that is not finite.\<close>

function canonicalJson :: "query_value \<Rightarrow> jstring" where
  "canonicalJson Q_null = lit ''null''"
| "canonicalJson (Q_boolean b) = (if b then lit ''true'' else lit ''false'')"
| "canonicalJson (Q_number x) = (if is_finite x then number_text x else lit ''null'')"
| "canonicalJson (Q_string s) = json_string s"
| "canonicalJson (Q_array vs) = [91] @ join [44] (map canonicalJson vs) @ [93]"
| "canonicalJson (Q_object kvs) =
     [123] @ join [44] (map (\<lambda>(k, v). json_string k @ [58] @ canonicalJson v) (sort_key fst kvs)) @
     [125]"
  by pat_completeness auto

termination
  by (relation "measure size") (auto simp: less_Suc_eq_le size_list_estimation' member_size)

definition serializeCanonicalJson :: "query_value \<Rightarrow> jstring" where
  "serializeCanonicalJson v = canonicalJson v @ [10]"

end
