(* ===== verification/Canonical_Properties.thy ===== *)
theory Canonical_Properties
  imports Canonical_Content
begin

text \<open>
  What the canonical text identifies: two values have the same text exactly when they differ at
  most in the order of members, in members that are undefined and in the sign of zero; and both
  implementations write the same text.
\<close>

section \<open>The tree behind the text\<close>

fun serializable :: "js_value \<Rightarrow> bool" where
  "serializable (V_number x) = is_finite x"
| "serializable (V_array vs) = list_all serializable vs"
| "serializable (V_object kvs) = list_all (\<lambda>(k, v). v = V_undefined \<or> serializable v) kvs"
| "serializable V_null = True"
| "serializable (V_boolean b) = True"
| "serializable (V_string s) = True"
| "serializable _ = False"

function canonical :: "js_value \<Rightarrow> query_value" where
  "canonical V_null = Q_null"
| "canonical (V_boolean b) = Q_boolean b"
| "canonical (V_string s) = Q_string s"
| "canonical (V_number x) = Q_number (if x = NegZero then Fin 0 else x)"
| "canonical (V_array vs) = Q_array (map canonical vs)"
| "canonical (V_object kvs) = Q_object (map (\<lambda>(k, v). (k, canonical v)) (canonical_entries kvs))"
| "canonical V_undefined = Q_null"
| "canonical (V_bigint i) = Q_null"
| "canonical V_symbol = Q_null"
| "canonical (V_function f) = Q_null"
  by pat_completeness auto

termination
  by (relation "measure size") (auto simp: less_Suc_eq_le size_list_estimation' entry_size)

text \<open>Numbers are doubles and an object has each key once, as in any value of the language.\<close>

fun proper_value :: "js_value \<Rightarrow> bool" where
  "proper_value (V_number x) = representable x"
| "proper_value (V_array vs) = list_all proper_value vs"
| "proper_value (V_object kvs) \<longleftrightarrow> distinct (map fst kvs) \<and> list_all (\<lambda>(k, v). proper_value v) kvs"
| "proper_value _ = True"

lemma entries_mem: "(k, v) \<in> set (canonical_entries kvs) \<longleftrightarrow> (k, v) \<in> set kvs \<and> v \<noteq> V_undefined"
  by (auto simp: canonical_entries_def is_defined_def)

lemma serialize_canonical:
  "serializeCanonical v = (if serializable v then Some (query_text (canonical v)) else None)"
proof (induction v rule: serializeCanonical.induct)
  case (5 vs)
  then have "map serializeCanonical vs =
      map (\<lambda>v. if serializable v then Some (query_text (canonical v)) else None) vs" by simp
  then show ?case by (simp add: all_some_map comp_def del: map_eq_conv)
next
  case (6 kvs)
  have texts: "map (\<lambda>(k, v). map_option (\<lambda>t. json_string k @ [58] @ t) (serializeCanonical v)) (canonical_entries kvs) =
      map (\<lambda>kv. if serializable (snd kv) then Some (json_string (fst kv) @ [58] @ query_text (canonical (snd kv)))
        else None) (canonical_entries kvs)"
    using 6 by (intro map_cong) auto
  moreover have "list_all (\<lambda>kv. serializable (snd kv)) (canonical_entries kvs) = serializable (V_object kvs)"
    by (simp add: list_all_iff Ball_def split_paired_All entries_mem) blast
  moreover have "query_text (canonical (V_object kvs)) =
      [123] @ join [44] (map (\<lambda>kv. json_string (fst kv) @ [58] @ query_text (canonical (snd kv)))
        (canonical_entries kvs)) @ [125]"
    by (simp add: comp_def case_prod_unfold)
  ultimately show ?case unfolding serializeCanonical.simps texts all_some_map by simp
qed simp_all

lemma exact_canonical: "proper_value v \<Longrightarrow> serializable v \<Longrightarrow> exact_value (canonical v)"
proof (induction v rule: canonical.induct)
  case (4 x)
  then show ?case
    by (auto simp: exact_number_def representable_def round_scaled_def excess_bits_def round_even_def
        overflow_units_def Let_def)
next
  case (6 kvs)
  then show ?case by (fastforce simp: list_all_iff entries_mem)
qed (auto simp: list_all_iff)

lemma finite_exact: "exact_value q \<Longrightarrow> finite_query q"
proof (induction q rule: exact_value.induct)
  case (2 vs)
  then show ?case by (simp add: list_all_iff)
next
  case (3 kvs)
  then show ?case by (simp add: list_all_iff Ball_def split_paired_All)
qed (simp_all add: exact_number_def)

text \<open>So the text, and even its bytes, determine the tree.\<close>

lemma query_text_inject:
  assumes "exact_value p" "exact_value q"
  shows "query_text p = query_text q \<longleftrightarrow> p = q"
    "encodeUtf8 (query_text p) = encodeUtf8 (query_text q) \<longleftrightarrow> p = q"
proof -
  have same: "p = q" if "query_text p = query_text q"
  proof -
    have "Some p = Some q"
      unfolding json_tree_text [OF assms(1), symmetric] json_tree_text [OF assms(2), symmetric] that ..
    then show ?thesis by simp
  qed
  then show "query_text p = query_text q \<longleftrightarrow> p = q" by blast
  have "p = q" if bytes: "encodeUtf8 (query_text p) = encodeUtf8 (query_text q)"
  proof -
    have "Some (query_text p) = Some (query_text q)"
      unfolding record_line_text(1) [OF finite_exact [OF assms(1)], symmetric]
        record_line_text(1) [OF finite_exact [OF assms(2)], symmetric] bytes ..
    then show ?thesis by (simp add: same)
  qed
  then show "encodeUtf8 (query_text p) = encodeUtf8 (query_text q) \<longleftrightarrow> p = q" by blast
qed


section \<open>The same content\<close>

function same_content :: "js_value \<Rightarrow> js_value \<Rightarrow> bool" where
  "same_content (V_number x) w = (case w of V_number y \<Rightarrow> x = y \<or> js_eq x y | _ \<Rightarrow> False)"
| "same_content (V_array vs) w =
     (case w of
        V_array ws \<Rightarrow> length vs = length ws \<and> list_all (\<lambda>(v, w). same_content v w) (zip vs ws)
      | _ \<Rightarrow> False)"
| "same_content (V_object kvs) w =
     (case w of
        V_object lvs \<Rightarrow>
          (let old = filter is_defined kvs; new = filter is_defined lvs
           in set (map fst new) \<subseteq> set (map fst old) \<and>
              list_all (\<lambda>(k, v). case map_of new k of None \<Rightarrow> False | Some w \<Rightarrow> same_content v w) old)
      | _ \<Rightarrow> False)"
| "same_content V_undefined w = (w = V_undefined)"
| "same_content V_null w = (w = V_null)"
| "same_content (V_boolean b) w = (w = V_boolean b)"
| "same_content (V_bigint i) w = (w = V_bigint i)"
| "same_content (V_string s) w = (w = V_string s)"
| "same_content V_symbol w = (w = V_symbol)"
| "same_content (V_function f) w = (w = V_function f)"
  by pat_completeness auto

termination
  by (relation "measure (\<lambda>(v, w). size v)")
    (auto simp: less_Suc_eq_le member_size dest!: set_zip_leftD intro: size_list_estimation')

lemma inj_on_keys: "distinct (map fst xs) \<Longrightarrow> inj_on fst (set xs)"
  by (simp add: distinct_map)

lemma distinct_sort_keys: "distinct (map fst xs) \<Longrightarrow> distinct (map fst (sort_key fst xs))"
  by (simp add: distinct_map)

lemma sorted_entries_eq:
  assumes "distinct (map fst xs)" and "distinct (map fst ys)"
  shows "sort_key fst xs = sort_key fst ys \<longleftrightarrow> map_of xs = map_of ys"
proof
  assume "sort_key fst xs = sort_key fst ys"
  then have "set xs = set ys" by (metis set_sort)
  then show "map_of xs = map_of ys" using assms by (simp add: map_of_inject_set)
next
  assume "map_of xs = map_of ys"
  then have "set (sort_key fst xs) = set (sort_key fst ys)" using assms by (simp add: map_of_inject_set)
  moreover have "inj_on fst (set xs)" "inj_on fst (set ys)"
    using assms by (simp_all add: distinct_map)
  ultimately show "sort_key fst xs = sort_key fst ys"
    using assms by (intro map_sorted_distinct_set_unique [where f = fst]) (simp_all add: distinct_map)
qed

lemma map_insort_key:
  "map (\<lambda>(k, v). (k, f v)) (insort_key fst (k, v) xs) = insort_key fst (k, f v) (map (\<lambda>(k, v). (k, f v)) xs)"
  by (induction xs) auto

lemma map_sort_key:
  "map (\<lambda>(k, v). (k, f v)) (sort_key fst xs) = sort_key fst (map (\<lambda>(k, v). (k, f v)) xs)"
  by (induction xs) (auto simp: map_insort_key)

lemma canonical_object:
  "canonical (V_object kvs) =
    Q_object (sort_key fst (map (\<lambda>(k, v). (k, canonical v)) (filter is_defined kvs)))"
  by (simp add: canonical_entries_def map_sort_key)

lemma same_content_object:
  "same_content (V_object kvs) (V_object lvs) \<longleftrightarrow>
   fst ` set (filter is_defined lvs) \<subseteq> fst ` set (filter is_defined kvs) \<and>
   (\<forall>k v. (k, v) \<in> set (filter is_defined kvs) \<longrightarrow>
      (case map_of (filter is_defined lvs) k of None \<Rightarrow> False | Some w \<Rightarrow> same_content v w))"
  by (simp only: same_content.simps js_value.case Let_def list_all_iff set_map Ball_def
      split_paired_All prod.case)

lemma map_of_entries: "map_of (map (\<lambda>(k, v). (k, f v)) xs) k = map_option f (map_of xs k)"
  by (induction xs) auto

text \<open>Two objects, when their members are known to be compared right.\<close>

lemma canonical_objects:
  fixes kvs lvs
  defines "old \<equiv> filter is_defined kvs" and "new \<equiv> filter is_defined lvs"
  assumes "distinct (map fst kvs)" "distinct (map fst lvs)"
    and "\<And>k v u. (k, v) \<in> set old \<Longrightarrow> map_of new k = Some u \<Longrightarrow>
      canonical v = canonical u \<longleftrightarrow> same_content v u"
  shows "canonical (V_object kvs) = canonical (V_object lvs) \<longleftrightarrow>
    same_content (V_object kvs) (V_object lvs)"
proof -
  let ?old = "filter is_defined kvs" and ?new = "filter is_defined lvs"
  have dist': "distinct (map fst ?old)" "distinct (map fst ?new)"
    using assms(3,4) by (simp_all add: distinct_map_filter)
  note ih = assms(5) [unfolded old_def new_def]
  have "canonical (V_object kvs) = canonical (V_object lvs) \<longleftrightarrow>
      (\<forall>k. map_option canonical (map_of ?old k) = map_option canonical (map_of ?new k))"
  proof -
    have keys: "distinct (map fst (map (\<lambda>(k, v). (k, canonical v)) xs))" if "distinct (map fst xs)" for xs
      using that by (simp add: comp_def case_prod_unfold)
    show ?thesis
      unfolding canonical_object query_value.inject
        sorted_entries_eq [OF keys [OF dist'(1)] keys [OF dist'(2)]] fun_eq_iff map_of_entries ..
  qed
  also have "\<dots> \<longleftrightarrow> same_content (V_object kvs) (V_object lvs)"
  proof
    assume eq: "\<forall>k. map_option canonical (map_of ?old k) = map_option canonical (map_of ?new k)"
    then have "dom (map_of ?old) = dom (map_of ?new)" unfolding dom_def by (metis map_option_is_None)
    then have "fst ` set ?old = fst ` set ?new" by (simp only: dom_map_of_conv_image_fst)
    moreover have "case map_of ?new k of None \<Rightarrow> False | Some u \<Rightarrow> same_content v u"
      if "(k, v) \<in> set ?old" for k v
    proof -
      have "map_of ?old k = Some v" using dist' that by simp
      with eq obtain u where "map_of ?new k = Some u" "canonical v = canonical u"
        by (metis (no_types, lifting) map_option_eq_Some)
      with ih [OF that] show ?thesis by simp
    qed
    ultimately show "same_content (V_object kvs) (V_object lvs)"
      unfolding same_content_object by (intro conjI allI impI) (simp_all only: order_refl)
  next
    assume same: "same_content (V_object kvs) (V_object lvs)"
    note conds = same [unfolded same_content_object]
    have sub: "fst ` set ?new \<subseteq> fst ` set ?old" by (rule conjunct1 [OF conds])
    have each: "case map_of ?new k of None \<Rightarrow> False | Some u \<Rightarrow> same_content v u"
      if "(k, v) \<in> set ?old" for k v
      by (rule conjunct2 [OF conds, rule_format, OF that])
    show "\<forall>k. map_option canonical (map_of ?old k) = map_option canonical (map_of ?new k)"
    proof
      fix k
      show "map_option canonical (map_of ?old k) = map_option canonical (map_of ?new k)"
      proof (cases "map_of ?old k")
        case None
        then have "k \<notin> fst ` set ?old" by (simp only: map_of_eq_None_iff not_False_eq_True)
        with sub have "k \<notin> fst ` set ?new" by (rule contra_subsetD)
        then have "map_of ?new k = None" by (simp only: map_of_eq_None_iff not_False_eq_True)
        with None show ?thesis by simp
      next
        case (Some v)
        then have mem: "(k, v) \<in> set ?old" by (rule map_of_SomeD)
        obtain u where u: "map_of ?new k = Some u"
          using each [OF mem] by (cases "map_of ?new k") simp_all
        then have "same_content v u" using each [OF mem] by simp
        with ih [OF mem u] Some u show ?thesis by simp
      qed
    qed
  qed
  finally show ?thesis .
qed

lemma canonical_same:
  assumes "proper_value v" "proper_value w" "serializable v" "serializable w"
  shows "canonical v = canonical w \<longleftrightarrow> same_content v w"
  using assms
proof (induction v w rule: same_content.induct)
  case (1 x w)
  show ?case
  proof (cases w)
    case (V_number y)
    then show ?thesis using 1 by (cases x; cases y) (auto simp: js_eq_def)
  qed auto
next
  case (2 vs w)
  show ?case
  proof (cases w)
    case (V_array ws)
    have "canonical v = canonical u \<longleftrightarrow> same_content v u" if "(v, u) \<in> set (zip vs ws)" for v u
      using 2 that set_zip_leftD [OF that] set_zip_rightD [OF that] V_array
      by (auto simp: list_all_iff)
    then have "canonical (vs ! i) = canonical (ws ! i) \<longleftrightarrow> same_content (vs ! i) (ws ! i)"
      if "length vs = length ws" "i < length ws" for i
      using that by (auto simp: in_set_zip)
    then show ?thesis by (auto simp: V_array list_all_length list_eq_iff_nth_eq)
  qed auto
next
  case (3 kvs w)
  show ?case
  proof (cases w)
    case (V_object lvs)
    let ?old = "filter is_defined kvs" and ?new = "filter is_defined lvs"
    have dist: "distinct (map fst kvs)" "distinct (map fst lvs)" using "3.prems" V_object by simp_all
    have ih: "canonical v = canonical u \<longleftrightarrow> same_content v u"
      if "(k, v) \<in> set ?old" "map_of ?new k = Some u" for k v u
    proof -
      have "(k, u) \<in> set lvs" "u \<noteq> V_undefined" using map_of_SomeD [OF that(2)] by (auto simp: is_defined_def)
      moreover have "(k, v) \<in> set kvs" "v \<noteq> V_undefined" using that(1) by (auto simp: is_defined_def)
      ultimately show ?thesis
        using "3.IH" [OF V_object refl refl that(1) refl that(2)] "3.prems" V_object
        by (fastforce simp: list_all_iff)
    qed
    show ?thesis unfolding V_object using dist ih by (intro canonical_objects)
  qed auto
next
  case (5 w)
  then show ?case by (cases w) auto
next
  case (6 b w)
  then show ?case by (cases w) auto
next
  case (8 t w)
  then show ?case by (cases w) auto
qed auto



section \<open>Texts and hashes\<close>

lemma same_text:
  assumes "proper_value v" "proper_value w"
    and "serializeCanonical v = Some s" "serializeCanonical w = Some t"
  shows "s = t \<longleftrightarrow> same_content v w" "encodeUtf8 s = encodeUtf8 t \<longleftrightarrow> same_content v w"
proof -
  have s: "serializable v" "serializable w" "s = query_text (canonical v)" "t = query_text (canonical w)"
    using assms(3,4) by (simp_all add: serialize_canonical split: if_splits)
  note inject = query_text_inject [OF exact_canonical [OF assms(1) s(1)] exact_canonical [OF assms(2) s(2)]]
  show "s = t \<longleftrightarrow> same_content v w" "encodeUtf8 s = encodeUtf8 t \<longleftrightarrow> same_content v w"
    unfolding s(3,4) inject using canonical_same [OF assms(1,2) s(1,2)] by blast+
qed

lemma canonical_hash_Some:
  "canonicalContentHash sha256 v = Some h \<Longrightarrow>
   \<exists>s. serializeCanonical v = Some s \<and> h = lit ''sha256:'' @ sha256 (encodeUtf8 s)"
  by (auto simp: canonicalContentHash_def bind_eq_Some_conv contentHash_def split: sum.splits if_splits)

text \<open>
  C39. The hash of a content identifies it: the same content has the same hash, whatever the order
  of its members, and contents with the same hash are the same, unless the digest has a
  collision.
\<close>

theorem content_hash_identifies:
  assumes "proper_value v" "proper_value w"
    and "canonicalContentHash sha256 v = Some h" "canonicalContentHash sha256 w = Some h'"
  shows "(same_content v w \<longrightarrow> h = h') \<and>
    (h = h' \<longrightarrow> same_content v w \<or> (\<exists>a b. a \<noteq> b \<and> sha256 a = sha256 b))"
proof -
  obtain s t where st: "serializeCanonical v = Some s" "serializeCanonical w = Some t"
    "h = lit ''sha256:'' @ sha256 (encodeUtf8 s)" "h' = lit ''sha256:'' @ sha256 (encodeUtf8 t)"
    using canonical_hash_Some [OF assms(3)] canonical_hash_Some [OF assms(4)] by blast
  show ?thesis
    using same_text [OF assms(1,2) st(1,2)] unfolding st(3,4) by auto
qed

text \<open>The tree of a JSON value as a value, for the two serializers.\<close>

fun js_of :: "query_value \<Rightarrow> js_value" where
  "js_of Q_null = V_null"
| "js_of (Q_boolean b) = V_boolean b"
| "js_of (Q_number x) = V_number x"
| "js_of (Q_string s) = V_string s"
| "js_of (Q_array vs) = V_array (map js_of vs)"
| "js_of (Q_object kvs) = V_object (map (\<lambda>(k, v). (k, js_of v)) kvs)"


lemma js_of_defined [simp]: "js_of q \<noteq> V_undefined"
  by (cases q) simp_all

lemma js_of_serializable: "serializable (js_of q) = finite_query q"
  by (induction q rule: finite_query.induct) (auto simp: list_all_iff)

lemma js_of_canonical: "finite_query q \<Longrightarrow> query_text (canonical (js_of q)) = canonicalJson q"
proof (induction q rule: canonicalJson.induct)
  case (3 x)
  then show ?case by simp
next
  case (5 vs)
  then have "map (\<lambda>q. query_text (canonical (js_of q))) vs = map canonicalJson vs"
    by (simp add: list_all_iff)
  then show ?case by (simp add: comp_def del: map_eq_conv)
next
  case (6 kvs)
  have "filter is_defined (map (\<lambda>(k, v). (k, js_of v)) kvs) = map (\<lambda>(k, v). (k, js_of v)) kvs"
    by (intro filter_True) (auto simp: is_defined_def)
  then have entries: "canonical_entries (map (\<lambda>(k, v). (k, js_of v)) kvs) =
      map (\<lambda>(k, v). (k, js_of v)) (sort_key fst kvs)"
    by (simp add: canonical_entries_def map_sort_key)
  have "map (\<lambda>(k, v). json_string k @ [58] @ query_text (canonical (js_of v))) (sort_key fst kvs) =
      map (\<lambda>(k, v). json_string k @ [58] @ canonicalJson v) (sort_key fst kvs)"
    using 6 by (intro map_cong) (auto simp: list_all_iff)
  then show ?case
    unfolding js_of.simps canonical.simps entries by (simp add: comp_def case_prod_unfold del: map_eq_conv)
qed simp_all

text \<open>
  The two serializers agree: on a JSON value the application writes what the conformance
  report writes, and it refuses exactly the values with a number that is not finite.
\<close>

lemma canonical_serializers_agree:
  "serializeCanonical (js_of q) = (if finite_query q then Some (canonicalJson q) else None)"
  by (simp add: serialize_canonical js_of_serializable js_of_canonical)

text \<open>A digest that is constant, for the examples of other theories.\<close>

lemma zero_digest: "content_hash_pattern (lit ''sha256:'' @ replicate 64 48)"
  by (simp add: content_hash_pattern_def sha256_prefix_lit [symmetric] sha256_prefix_def list_all_iff
      hex_digit_def)

lemma zero_hash:
  "serializable v \<Longrightarrow>
   canonicalContentHash (\<lambda>bytes. replicate 64 48) v = Some (lit ''sha256:'' @ replicate 64 48)"
  by (simp add: canonicalContentHash_def serialize_canonical contentHash_def zero_digest)

text \<open>A digest that is not secure, for an example.\<close>

definition sample_digest :: "byte list \<Rightarrow> jstring" where
  "sample_digest bytes = replicate 64 (if length bytes = 13 then 48 else 49)"

theorem content_hash_identifies_witness:
  "same_content (V_object [(lit ''a'', V_number NegZero), (lit ''b'', V_array [V_null])])
     (V_object [(lit ''b'', V_array [V_null]), (lit ''c'', V_undefined), (lit ''a'', V_number (Fin 0))]) \<and>
   canonicalContentHash sample_digest
     (V_object [(lit ''a'', V_number NegZero), (lit ''b'', V_array [V_null])]) =
   canonicalContentHash sample_digest
     (V_object [(lit ''b'', V_array [V_null]), (lit ''c'', V_undefined), (lit ''a'', V_number (Fin 0))])"
proof -
  let ?v = "V_object [(lit ''a'', V_number NegZero), (lit ''b'', V_array [V_null])]"
  let ?w = "V_object [(lit ''b'', V_array [V_null]), (lit ''c'', V_undefined), (lit ''a'', V_number (Fin 0))]"
  obtain h h' where h: "canonicalContentHash sample_digest ?v = Some h"
    "canonicalContentHash sample_digest ?w = Some h'"
  proof -
    have "canonicalContentHash sample_digest ?v \<noteq> None \<and> canonicalContentHash sample_digest ?w \<noteq> None"
      by code_simp
    then show thesis using that by blast
  qed
  have "proper_value ?v" "proper_value ?w" "same_content ?v ?w" by code_simp+
  with content_hash_identifies [OF _ _ h] h show ?thesis by auto
qed

end
