(* ===== verification/Port_Trace.thy ===== *)
theory Port_Trace
  imports Prelude "HOL-Library.State_Monad"
begin

text \<open>
  Use cases talk to the outside through ports. A use case is a state-monad program over the list
  of the port calls that it has made, in their order; what a port answers is a function that the
  program is given. A program that throws ends in \<open>Thrown\<close>: the transaction around it is rolled
  back.
\<close>

type_synonym ('call, 'a) traced = "('call list, 'a) state"

datatype 'a outcome = Returned 'a | Thrown

definition call :: "'call \<Rightarrow> 'a \<Rightarrow> ('call, 'a) traced" where
  "call c answer = State (\<lambda>trace. (answer, trace @ [c]))"

definition calls :: "'call list \<Rightarrow> ('call, unit) traced" where
  "calls cs = State (\<lambda>trace. ((), trace @ cs))"

text \<open>The outcome of a program and the calls that it makes.\<close>

definition outcome_of :: "('call, 'a) traced \<Rightarrow> 'a" where
  "outcome_of m = fst (run_state m [])"

definition trace_of :: "('call, 'a) traced \<Rightarrow> 'call list" where
  "trace_of m = snd (run_state m [])"

lemma run_call [simp]: "run_state (call c answer) trace = (answer, trace @ [c])"
  by (simp add: call_def)

lemma run_calls [simp]: "run_state (calls cs) trace = ((), trace @ cs)"
  by (simp add: calls_def)

lemma run_return [simp]: "run_state (State_Monad.return a) trace = (a, trace)"
  by (simp add: State_Monad.return_def)

lemma run_bind [simp]:
  "run_state (State_Monad.bind m f) trace = (case run_state m trace of (a, trace') \<Rightarrow> run_state (f a) trace')"
  by (simp add: State_Monad.bind_def)

text \<open>A program only ever adds to the calls made before it, and does not look at them.\<close>

definition appends :: "('call, 'a) traced \<Rightarrow> bool" where
  "appends m \<longleftrightarrow> (\<forall>trace. run_state m trace = (outcome_of m, trace @ trace_of m))"

named_theorems appending

lemma outcome_simps [simp]:
  "outcome_of (State_Monad.return a) = a" "outcome_of (call c a) = a" "outcome_of (calls cs) = ()"
  "trace_of (State_Monad.return a) = []" "trace_of (call c a) = [c]" "trace_of (calls cs) = cs"
  by (simp_all add: outcome_of_def trace_of_def)

lemma appends_basic [appending]:
  "appends (State_Monad.return a)" "appends (call c a)" "appends (calls cs)"
  by (simp_all add: appends_def)

lemma bind_simps:
  assumes "appends m" and "appends (f (outcome_of m))"
  shows "outcome_of (State_Monad.bind m f) = outcome_of (f (outcome_of m))"
    "trace_of (State_Monad.bind m f) = trace_of m @ trace_of (f (outcome_of m))"
proof -
  have m: "run_state m [] = (outcome_of m, [] @ trace_of m)"
    and f: "run_state (f (outcome_of m)) trace = (outcome_of (f (outcome_of m)), trace @ trace_of (f (outcome_of m)))"
    for trace
    using assms unfolding appends_def by blast+
  show "outcome_of (State_Monad.bind m f) = outcome_of (f (outcome_of m))"
    "trace_of (State_Monad.bind m f) = trace_of m @ trace_of (f (outcome_of m))"
    unfolding outcome_of_def [of "State_Monad.bind m f"] trace_of_def [of "State_Monad.bind m f"] run_bind m
    by (simp_all add: f)
qed

lemma appends_bind [appending]:
  assumes "appends m" and "\<And>a. appends (f a)"
  shows "appends (State_Monad.bind m f)"
proof -
  have m: "run_state m trace = (outcome_of m, trace @ trace_of m)" for trace
    using assms(1) unfolding appends_def by blast
  have f: "run_state (f a) trace = (outcome_of (f a), trace @ trace_of (f a))" for a trace
    using assms(2) unfolding appends_def by blast
  show ?thesis
    unfolding appends_def bind_simps [OF assms(1) assms(2)] run_bind m by (simp add: f)
qed

lemma appends_cases [appending]:
  "\<lbrakk>x = None \<Longrightarrow> appends m; \<And>y. x = Some y \<Longrightarrow> appends (f y)\<rbrakk> \<Longrightarrow>
   appends (case x of None \<Rightarrow> m | Some y \<Rightarrow> f y)"
  "\<lbrakk>\<And>e. r = Inl e \<Longrightarrow> appends (g e); \<And>v. r = Inr v \<Longrightarrow> appends (h v)\<rbrakk> \<Longrightarrow>
   appends (case r of Inl e \<Rightarrow> g e | Inr v \<Rightarrow> h v)"
  "\<lbrakk>b \<Longrightarrow> appends m; \<not> b \<Longrightarrow> appends n\<rbrakk> \<Longrightarrow> appends (if b then m else n)"
  "(\<And>a b. p = (a, b) \<Longrightarrow> appends (k a b)) \<Longrightarrow> appends (case p of (a, b) \<Rightarrow> k a b)"
  "\<lbrakk>\<And>a. o' = Returned a \<Longrightarrow> appends (u a); o' = Thrown \<Longrightarrow> appends w\<rbrakk> \<Longrightarrow>
   appends (case o' of Returned a \<Rightarrow> u a | Thrown \<Rightarrow> w)"
  by (simp_all split: option.split sum.split prod.split outcome.split)

end
