(* ===== verification/Transition_Attempt.thy ===== *)
theory Transition_Attempt
  imports Port_Trace Step_Run Canonical_Content
begin

text \<open>
  \<open>application/src/transition-step-attempt.ts\<close>: the use case that starts, settles, retries or
  reconciles an attempt of a step. It runs inside one transaction: it reads the step with its
  run and plan, answers a repeated command from the journal, and otherwise checks the authority,
  applies the command, settles the reservation in the ledger, applies the command again with the
  receipt of the ledger, and stores the step, its events and the journal entry.
\<close>

section \<open>Requests\<close>

record usage_settlement =
  us_amount :: js_number
  us_unit :: jstring
  us_usageEntryId :: jstring

datatype step_cost_settlement = Settle usage_settlement | Release

record output_materialization =
  om_artifact :: artifact
  om_ref :: validated_output
  om_value :: js_value

datatype transition_request =
    Req_StartAttemptEffect
  | Req_RecordAttemptSucceeded "output_materialization option" usage_settlement
  | Req_RecordAttemptFailure bool step_cost_settlement
  | Req_RecordAttemptNotStarted bool
  | Req_AuthorizeRetry
  | Req_MarkAttemptAmbiguous
  | Req_ResolveAttemptAmbiguity ambiguity_outcome jstring "output_materialization option"
      step_cost_settlement
  | Req_CancelAttemptBeforeEffect

record transition_input =
  ti_actorId :: jstring
  ti_attemptId :: jstring
  ti_commandIdempotencyKey :: jstring
  ti_correlationId :: jstring
  ti_expectedAggregateVersion :: js_number
  ti_request :: transition_request
  ti_stepRunId :: jstring
  ti_workspaceId :: jstring

fun request_type :: "transition_request \<Rightarrow> step_command_kind" where
  "request_type Req_StartAttemptEffect = T_StartAttemptEffect"
| "request_type (Req_RecordAttemptSucceeded _ _) = T_RecordAttemptSucceeded"
| "request_type (Req_RecordAttemptFailure _ _) = T_RecordAttemptFailure"
| "request_type (Req_RecordAttemptNotStarted _) = T_RecordAttemptNotStarted"
| "request_type Req_AuthorizeRetry = T_AuthorizeRetry"
| "request_type Req_MarkAttemptAmbiguous = T_MarkAttemptAmbiguous"
| "request_type (Req_ResolveAttemptAmbiguity _ _ _ _) = T_ResolveAttemptAmbiguity"
| "request_type Req_CancelAttemptBeforeEffect = T_CancelAttemptBeforeEffect"

datatype transition_failure_code =
    TF_authority_capability_missing | TF_authority_permission_missing
  | TF_authority_subject_mismatch | TF_authority_version_unsupported
  | TF_cost_settlement_conflict | TF_deadline_elapsed | TF_invalid_output | TF_invalid_settlement
  | TF_run_not_cancelling | TF_run_not_running | TF_step_not_found | TF_transition_rejected
  | TF_usage_exceeds_reservation

text \<open>The code of the domain or of the parent that refused a transition.\<close>

datatype domain_code = DC_attempt_id_mismatch | DC_step step_failure_code | DC_parent jstring

record transition_failure =
  tf_code :: transition_failure_code
  tf_domainCode :: "domain_code option"

datatype effect_permission = Permission_granted | Permission_not_applicable | Permission_replay_only

datatype settlement_status = Status_existing | Status_released | Status_settled

record transition_success =
  tx_effectPermission :: effect_permission
  tx_replayed :: bool
  tx_settlementStatus :: "settlement_status option"
  tx_stepRun :: step_run

type_synonym transition_result = "(transition_success, transition_failure) domain_result"

definition failure_code :: "transition_failure_code \<Rightarrow> transition_failure" where
  "failure_code code = \<lparr>tf_code = code, tf_domainCode = None\<rparr>"

definition transitionRejected :: "domain_code \<Rightarrow> transition_failure" where
  "transitionRejected code = \<lparr>tf_code = TF_transition_rejected, tf_domainCode = Some code\<rparr>"


section \<open>Ports\<close>

record step_execution_context =
  sx_plan :: run_plan
  sx_run :: run
  sx_stepRun :: "step_run option"

record usage_entry =
  ue_amount :: js_number
  ue_attemptId :: jstring
  ue_operationKey :: jstring
  ue_recordedAt :: js_number
  ue_reservationId :: jstring
  ue_runId :: jstring
  ue_unit :: jstring
  ue_usageEntryId :: jstring
  ue_workspaceId :: jstring
  ue_reconciliationProofId :: "jstring option"

record reservation_release =
  rr_amount :: js_number
  rr_attemptId :: jstring
  rr_operationKey :: jstring
  rr_releasedAt :: js_number
  rr_reservationId :: jstring
  rr_runId :: jstring
  rr_unit :: jstring
  rr_workspaceId :: jstring

text \<open>A receipt tells whether it existed before.\<close>

datatype release_answer = Release_receipt bool cost_reservation | Release_conflict

datatype settle_answer =
  Settle_receipt bool cost_reservation usage_entry | Settle_amount_exceeded | Settle_conflict

record parent_effect =
  pe_attempt :: attempt
  pe_now :: js_number
  pe_plan :: run_plan
  pe_run :: run
  pe_stepRun :: step_run

datatype parent_answer = Parent_accepted | Parent_denied jstring

datatype port_call =
    Get_context jstring jstring
  | Find_proof jstring jstring jstring
  | Read_clock
  | Next_event_id
  | Authorize_parent jstring parent_effect
  | Mark_parent_ambiguous jstring parent_effect
  | Release_reservation jstring reservation_release
  | Settle_reservation jstring usage_entry
  | Insert_artifact jstring artifact js_value
  | Update_attempt jstring attempt_state attempt
  | Update_step jstring js_number step_run
  | Append_event jstring step_event
  | Insert_proof jstring step_replay_proof jstring jstring
  | Request_schedule jstring jstring
  | Request_routing jstring jstring

record parent_ports =
  pp_authorize :: "jstring \<Rightarrow> parent_effect \<Rightarrow> parent_answer"
  pp_markAmbiguous :: "jstring \<Rightarrow> parent_effect \<Rightarrow> parent_answer"

text \<open>What the ports answer; \<open>eventId n\<close> is the answer to the request after \<open>n\<close> others.\<close>

record transition_ports =
  pt_context :: "jstring \<Rightarrow> jstring \<Rightarrow> step_execution_context option"
  pt_proof :: "jstring \<Rightarrow> jstring \<Rightarrow> jstring \<Rightarrow> step_replay_proof option"
  pt_now :: js_number
  pt_eventId :: "nat \<Rightarrow> jstring"
  pt_parents :: "parent_ports option"
  pt_release :: "jstring \<Rightarrow> reservation_release \<Rightarrow> release_answer"
  pt_settle :: "jstring \<Rightarrow> usage_entry \<Rightarrow> settle_answer"
  pt_requiredPermission :: jstring
  pt_sha256 :: "byte list \<Rightarrow> jstring"


section \<open>Checks\<close>

definition settlementOf :: "transition_input \<Rightarrow> step_cost_settlement option" where
  "settlementOf inp =
     (case ti_request inp of
        Req_RecordAttemptSucceeded _ usage \<Rightarrow> Some (Settle usage)
      | Req_RecordAttemptFailure _ settlement \<Rightarrow> Some settlement
      | Req_RecordAttemptNotStarted _ \<Rightarrow> Some Release
      | Req_ResolveAttemptAmbiguity _ _ _ settlement \<Rightarrow> Some settlement
      | Req_CancelAttemptBeforeEffect \<Rightarrow> Some Release
      | _ \<Rightarrow> None)"

definition outputOf :: "transition_input \<Rightarrow> output_materialization option" where
  "outputOf inp =
     (case ti_request inp of
        Req_RecordAttemptSucceeded output _ \<Rightarrow> output
      | Req_ResolveAttemptAmbiguity _ _ output _ \<Rightarrow> output
      | _ \<Rightarrow> None)"

text \<open>\<open>None\<close> when the content of the output cannot be serialized, which throws.\<close>

definition output_invalid :: "(byte list \<Rightarrow> jstring) \<Rightarrow> output_materialization \<Rightarrow> bool option" where
  "output_invalid sha256 output =
     (let ref = om_ref output; artifact = om_artifact output
      in if ar_artifactId (vo_artifact ref) \<noteq> art_artifactId artifact \<or>
          ar_contentHash (vo_artifact ref) \<noteq> art_contentHash artifact \<or>
          \<not> sameContract (vo_contract ref) (art_contract artifact) \<or>
          \<not> js_eq (vo_validatedAt ref) (art_validatedAt artifact) \<or>
          vo_validatorVersion ref \<noteq> art_validatorVersion artifact \<or>
          blank (vo_validatorVersion ref)
         then Some True
         else do {
           hash \<leftarrow> canonicalContentHash sha256 (om_value output);
           size \<leftarrow> canonicalContentByteSize (om_value output);
           Some (art_contentHash artifact \<noteq> hash \<or>
             \<not> js_eq (art_sizeBytes artifact) (num (int size)) \<or>
             js_lt (art_finalizedAt artifact) (art_validatedAt artifact))
         })"

definition validateSettlement ::
  "(byte list \<Rightarrow> jstring) \<Rightarrow> transition_input \<Rightarrow> transition_failure option option" where
  "validateSettlement sha256 inp =
     (if (case settlementOf inp of
            Some (Settle usage) \<Rightarrow> blank (us_unit usage) \<or> \<not> isAmount (us_amount usage)
          | _ \<Rightarrow> False) \<or>
         (case ti_request inp of
            Req_ResolveAttemptAmbiguity AO_succeeded _ _ Release \<Rightarrow> True
          | _ \<Rightarrow> False)
      then Some (Some (failure_code TF_invalid_settlement))
      else do {
        invalid \<leftarrow> (case outputOf inp of None \<Rightarrow> Some False | Some output \<Rightarrow> output_invalid sha256 output);
        Some (if invalid \<or>
            (case ti_request inp of
               Req_ResolveAttemptAmbiguity outcome _ (Some _) _ \<Rightarrow> outcome \<noteq> AO_succeeded
             | _ \<Rightarrow> False)
          then Some (failure_code TF_invalid_output) else None)
      })"

definition validateFreshTransitionContext ::
  "step_execution_context \<Rightarrow> attempt \<Rightarrow> transition_input \<Rightarrow> transition_failure option" where
  "validateFreshTransitionContext context attempt inp =
     (if ti_request inp = Req_CancelAttemptBeforeEffect \<and> run_state (sx_run context) \<noteq> R_cancelling
      then Some (failure_code TF_run_not_cancelling)
      else if (case outputOf inp of
            None \<Rightarrow> False
          | Some output \<Rightarrow>
              let nodes = cw_nodes (pl_compiledWorkflow (sx_plan context));
                  dependedOn = concat (map cn_dependsOn nodes);
                  sinks = filter (\<lambda>node. cn_key node \<notin> set dependedOn) nodes;
                  artifact = om_artifact output
              in length sinks \<noteq> 1 \<or>
                 map_option cn_key (List.find (\<lambda>_. True) sinks) \<noteq>
                   map_option sr_nodeKey (sx_stepRun context) \<or>
                 \<not> sameContract (art_contract artifact) (pl_outputContract (sx_plan context)) \<or>
                 art_workspaceId artifact \<noteq> ti_workspaceId inp \<or>
                 art_runId artifact \<noteq> run_runId (sx_run context) \<or>
                 art_stepRunId artifact \<noteq> ti_stepRunId inp \<or>
                 art_attemptId artifact \<noteq> at_attemptId attempt \<or>
                 art_operationKey artifact \<noteq> at_operationKey attempt)
      then Some (failure_code TF_invalid_output)
      else case settlementOf inp of
          Some (Settle usage) \<Rightarrow>
            if js_lt (at_reservedAmount attempt) (us_amount usage) \<and>
               \<not> amountsEqual (us_amount usage) (at_reservedAmount attempt)
            then Some (failure_code TF_usage_exceeds_reservation) else None
        | _ \<Rightarrow> None)"

definition validateAuthorityIdentity ::
  "step_execution_context \<Rightarrow> jstring \<Rightarrow> transition_failure option" where
  "validateAuthorityIdentity context actorId =
     (let authority = pl_authority (sx_plan context)
      in if ae_subjectActorId authority \<noteq> actorId
         then Some (failure_code TF_authority_subject_mismatch)
         else if \<not> isSupportedAuthorityEnvelopeVersion (ae_version authority)
         then Some (failure_code TF_authority_version_unsupported)
         else None)"

definition validateExecutionWindow ::
  "step_execution_context \<Rightarrow> js_number \<Rightarrow> jstring \<Rightarrow> transition_failure option" where
  "validateExecutionWindow context now requiredPermission =
     (let plan = sx_plan context; authority = pl_authority plan
      in if run_state (sx_run context) \<noteq> R_running then Some (failure_code TF_run_not_running)
         else if js_ge now (pl_deadline plan) \<or> js_ge now (ae_deadline authority)
         then Some (failure_code TF_deadline_elapsed)
         else if requiredPermission \<notin> set (ae_permissions authority)
         then Some (failure_code TF_authority_permission_missing)
         else case List.find (\<lambda>candidate. Some (cn_key candidate) = map_option sr_nodeKey (sx_stepRun context))
             (cw_nodes (pl_compiledWorkflow plan)) of
            None \<Rightarrow> Some (failure_code TF_authority_capability_missing)
          | Some node \<Rightarrow>
              if list_all (\<lambda>authorized. \<not> capabilityMatches authorized (cn_capability node))
                  (ae_capabilities authority)
              then Some (failure_code TF_authority_capability_missing) else None)"



section \<open>The command and its hash\<close>

definition settlement_value :: "step_cost_settlement \<Rightarrow> js_value" where
  "settlement_value settlement =
     (case settlement of
        Settle usage \<Rightarrow> V_object
          [(lit ''amount'', V_number (us_amount usage)), (lit ''kind'', V_string (lit ''settle'')),
           (lit ''unit'', V_string (us_unit usage)),
           (lit ''usageEntryId'', V_string (us_usageEntryId usage))]
      | Release \<Rightarrow> V_object [(lit ''kind'', V_string (lit ''release''))])"

definition contract_value :: "contract_ref \<Rightarrow> js_value" where
  "contract_value contract =
     V_object
       [(lit ''catalogFingerprint'', V_string (catalogFingerprint contract)),
        (lit ''catalogVersion'', V_string (catalogVersion contract)),
        (lit ''schemaFingerprint'', V_string (schemaFingerprint contract)),
        (lit ''schemaId'', V_string (schemaId contract)),
        (lit ''schemaVersion'', V_string (schemaVersion contract))]"

definition artifact_value :: "artifact \<Rightarrow> js_value" where
  "artifact_value artifact =
     V_object
       [(lit ''artifactId'', V_string (art_artifactId artifact)),
        (lit ''attemptId'', V_string (art_attemptId artifact)),
        (lit ''classification'', V_string (lit ''internal'')),
        (lit ''contentHash'', V_string (art_contentHash artifact)),
        (lit ''contract'', contract_value (art_contract artifact)),
        (lit ''finalizedAt'', V_number (art_finalizedAt artifact)),
        (lit ''kind'', V_string (lit ''normalized-output'')),
        (lit ''mediaType'', V_string (lit ''application/json'')),
        (lit ''operationKey'', V_string (art_operationKey artifact)),
        (lit ''retentionPolicy'', V_string (lit ''run'')),
        (lit ''runId'', V_string (art_runId artifact)),
        (lit ''sizeBytes'', V_number (art_sizeBytes artifact)),
        (lit ''state'', V_string (lit ''finalized'')),
        (lit ''stepRunId'', V_string (art_stepRunId artifact)),
        (lit ''validatedAt'', V_number (art_validatedAt artifact)),
        (lit ''validatorVersion'', V_string (art_validatorVersion artifact)),
        (lit ''workspaceId'', V_string (art_workspaceId artifact))]"

fun type_name :: "step_command_kind \<Rightarrow> jstring" where
  "type_name T_StartAttemptEffect = lit ''StartAttemptEffect''"
| "type_name T_RecordAttemptSucceeded = lit ''RecordAttemptSucceeded''"
| "type_name T_RecordAttemptFailure = lit ''RecordAttemptFailure''"
| "type_name T_RecordAttemptNotStarted = lit ''RecordAttemptNotStarted''"
| "type_name T_AuthorizeRetry = lit ''AuthorizeRetry''"
| "type_name T_MarkAttemptAmbiguous = lit ''MarkAttemptAmbiguous''"
| "type_name T_ResolveAttemptAmbiguity = lit ''ResolveAttemptAmbiguity''"
| "type_name T_CancelAttemptBeforeEffect = lit ''CancelAttemptBeforeEffect''"
| "type_name T_ClaimStepAttempt = lit ''ClaimStepAttempt''"
| "type_name T_RejectStepRouting = lit ''RejectStepRouting''"

fun outcome_name :: "ambiguity_outcome \<Rightarrow> jstring" where
  "outcome_name AO_succeeded = lit ''succeeded''"
| "outcome_name AO_failed_retryable = lit ''failed_retryable''"
| "outcome_name AO_failed_terminal = lit ''failed_terminal''"

definition output_members :: "output_materialization option \<Rightarrow> (jstring \<times> js_value) list" where
  "output_members output =
     (case output of None \<Rightarrow> [] | Some o' \<Rightarrow> [(lit ''output'', artifact_value (om_artifact o'))])"

definition hashableCommand :: "transition_input \<Rightarrow> js_value" where
  "hashableCommand inp =
     V_object
       ([(lit ''attemptId'', V_string (ti_attemptId inp)),
         (lit ''stepRunId'', V_string (ti_stepRunId inp)),
         (lit ''type'', V_string (type_name (request_type (ti_request inp)))),
         (lit ''workspaceId'', V_string (ti_workspaceId inp))] @
        (case ti_request inp of
           Req_RecordAttemptSucceeded output usage \<Rightarrow>
             output_members output @ [(lit ''settlement'', settlement_value (Settle usage))]
         | Req_RecordAttemptFailure retryable settlement \<Rightarrow>
             [(lit ''retryable'', V_boolean retryable), (lit ''settlement'', settlement_value settlement)]
         | Req_RecordAttemptNotStarted retryable \<Rightarrow>
             [(lit ''retryable'', V_boolean retryable), (lit ''settlement'', settlement_value Release)]
         | Req_ResolveAttemptAmbiguity outcome proofId output settlement \<Rightarrow>
             [(lit ''outcome'', V_string (outcome_name outcome))] @ output_members output @
             [(lit ''proofId'', V_string proofId), (lit ''settlement'', settlement_value settlement)]
         | _ \<Rightarrow> []))"

definition commandHash :: "(byte list \<Rightarrow> jstring) \<Rightarrow> transition_input \<Rightarrow> jstring option" where
  "commandHash sha256 inp = canonicalContentHash sha256 (hashableCommand inp)"

definition attempt_identity :: "attempt \<Rightarrow> jstring \<Rightarrow> settlement_identity" where
  "attempt_identity attempt unit =
     \<lparr>si_attemptId = at_attemptId attempt, si_operationKey = at_operationKey attempt,
      si_reservationId = at_costReservationId attempt, si_unit = unit\<rparr>"

definition settlementProof :: "transition_input \<Rightarrow> attempt \<Rightarrow> settlement_proof option" where
  "settlementProof inp attempt =
     (case settlementOf inp of
        None \<Rightarrow> None
      | Some Release \<Rightarrow>
          Some (Released
            \<lparr>rl_identity = attempt_identity attempt (at_reservationUnit attempt),
             rl_releasedAmount = at_reservedAmount attempt\<rparr>)
      | Some (Settle usage) \<Rightarrow>
          Some (Settled (attempt_identity attempt (us_unit usage))
            (js_sub (at_reservedAmount attempt) (us_amount usage)) (us_amount usage)
            (us_usageEntryId usage)))"

definition settlementForCommand ::
  "transition_input \<Rightarrow> attempt \<Rightarrow> settlement_proof option \<Rightarrow> settlement_proof option" where
  "settlementForCommand inp attempt durableSettlement =
     (case durableSettlement of Some proof \<Rightarrow> Some proof | None \<Rightarrow> settlementProof inp attempt)"

definition output_ref :: "output_materialization option \<Rightarrow> validated_output option" where
  "output_ref output = map_option om_ref output"

definition toCommand ::
  "transition_input \<Rightarrow> attempt \<Rightarrow> bool \<Rightarrow> settlement_proof option \<Rightarrow> step_command option" where
  "toCommand inp attempt retryAuthorized durableSettlement =
     (let settlement = settlementForCommand inp attempt durableSettlement; attemptId = ti_attemptId inp
      in case ti_request inp of
          Req_StartAttemptEffect \<Rightarrow> Some (StartAttemptEffect attemptId)
        | Req_MarkAttemptAmbiguous \<Rightarrow> Some (MarkAttemptAmbiguous attemptId)
        | Req_AuthorizeRetry \<Rightarrow> Some (AuthorizeRetry attemptId retryAuthorized)
        | Req_RecordAttemptSucceeded output _ \<Rightarrow>
            map_option (RecordAttemptSucceeded attemptId (output_ref output)) settlement
        | Req_RecordAttemptFailure retryable _ \<Rightarrow>
            map_option (RecordAttemptFailure attemptId (retryable \<and> retryAuthorized) retryable) settlement
        | Req_RecordAttemptNotStarted retryable \<Rightarrow>
            (case settlement of
               Some (Released proof) \<Rightarrow>
                 Some (RecordAttemptNotStarted attemptId (retryable \<and> retryAuthorized) retryable proof)
             | _ \<Rightarrow> None)
        | Req_ResolveAttemptAmbiguity outcome proofId output _ \<Rightarrow>
            map_option (\<lambda>proof. ResolveAttemptAmbiguity attemptId outcome proofId
              (outcome = AO_failed_retryable \<and> retryAuthorized) proof (output_ref output)) settlement
        | Req_CancelAttemptBeforeEffect \<Rightarrow>
            (case settlement of
               Some (Released proof) \<Rightarrow> Some (CancelAttemptBeforeEffect attemptId proof)
             | _ \<Rightarrow> None))"

definition effectPermission :: "step_command_kind \<Rightarrow> bool \<Rightarrow> effect_permission" where
  "effectPermission type replayed =
     (if type \<noteq> T_StartAttemptEffect then Permission_not_applicable
      else if replayed then Permission_replay_only else Permission_granted)"

definition isTerminalStepRun :: "step_run \<Rightarrow> bool" where
  "isTerminalStepRun stepRun \<longleftrightarrow>
     sr_state stepRun \<in> {S_succeeded, S_failed, S_cancelled, S_skipped}"

definition targetAttempt :: "step_run \<Rightarrow> jstring \<Rightarrow> attempt option" where
  "targetAttempt stepRun requestedAttemptId =
     List.find (\<lambda>attempt. at_attemptId attempt = requestedAttemptId) (sr_attempts stepRun)"

fun eventCountForCommand :: "step_command \<Rightarrow> nat" where
  "eventCountForCommand (RecordAttemptFailure _ _ retryable _) = (if retryable then 2 else 1)"
| "eventCountForCommand (RecordAttemptNotStarted _ _ retryable _) = (if retryable then 2 else 1)"
| "eventCountForCommand (ResolveAttemptAmbiguity _ outcome _ _ _ _) =
     (if outcome = AO_failed_retryable then 2 else 1)"
| "eventCountForCommand _ = 1"


section \<open>Receipts of the ledger\<close>

definition usageFor ::
  "transition_input \<Rightarrow> attempt \<Rightarrow> step_run \<Rightarrow> js_number \<Rightarrow> usage_settlement \<Rightarrow> usage_entry" where
  "usageFor inp attempt stepRun now settlement =
     \<lparr>ue_amount = us_amount settlement, ue_attemptId = at_attemptId attempt,
      ue_operationKey = at_operationKey attempt, ue_recordedAt = now,
      ue_reservationId = at_costReservationId attempt, ue_runId = sr_runId stepRun,
      ue_unit = us_unit settlement, ue_usageEntryId = us_usageEntryId settlement,
      ue_workspaceId = ti_workspaceId inp,
      ue_reconciliationProofId =
        (case ti_request inp of
           Req_ResolveAttemptAmbiguity _ proofId _ _ \<Rightarrow> Some proofId | _ \<Rightarrow> None)\<rparr>"

definition reservationIdentityMatches ::
  "cost_reservation_base \<Rightarrow> attempt \<Rightarrow> step_run \<Rightarrow> jstring \<Rightarrow> bool" where
  "reservationIdentityMatches reservation attempt stepRun workspaceId \<longleftrightarrow>
     cr_workspaceId reservation = workspaceId \<and> cr_runId reservation = sr_runId stepRun \<and>
     cr_stepRunId reservation = sr_stepRunId stepRun \<and>
     cr_attemptId reservation = at_attemptId attempt \<and>
     cr_reservationId reservation = at_costReservationId attempt \<and>
     cr_operationKey reservation = at_operationKey attempt \<and>
     cr_unit reservation = at_reservationUnit attempt \<and>
     js_eq (cr_amount reservation) (at_reservedAmount attempt)"

definition usageMatchesRequest :: "usage_entry \<Rightarrow> usage_entry \<Rightarrow> bool" where
  "usageMatchesRequest actual requested \<longleftrightarrow>
     ue_workspaceId actual = ue_workspaceId requested \<and> ue_runId actual = ue_runId requested \<and>
     ue_attemptId actual = ue_attemptId requested \<and>
     ue_reservationId actual = ue_reservationId requested \<and>
     ue_operationKey actual = ue_operationKey requested \<and>
     ue_usageEntryId actual = ue_usageEntryId requested \<and> ue_unit actual = ue_unit requested \<and>
     js_eq (ue_amount actual) (ue_amount requested) \<and>
     ue_reconciliationProofId actual = ue_reconciliationProofId requested"

definition reservation_identity :: "cost_reservation_base \<Rightarrow> settlement_identity" where
  "reservation_identity reservation =
     \<lparr>si_attemptId = cr_attemptId reservation, si_operationKey = cr_operationKey reservation,
      si_reservationId = cr_reservationId reservation, si_unit = cr_unit reservation\<rparr>"

text \<open>\<open>None\<close> when the receipt does not match, which throws.\<close>

definition releaseProofFrom ::
  "cost_reservation \<Rightarrow> attempt \<Rightarrow> step_run \<Rightarrow> jstring \<Rightarrow> settlement_proof option" where
  "releaseProofFrom reservation attempt stepRun workspaceId =
     (case reservation of
        CR_released base _ \<Rightarrow>
          if \<not> reservationIdentityMatches base attempt stepRun workspaceId then None
          else Some (Released
            \<lparr>rl_identity = reservation_identity base, rl_releasedAmount = cr_amount base\<rparr>)
      | _ \<Rightarrow> None)"

definition settlementProofFrom ::
  "cost_reservation \<Rightarrow> usage_entry \<Rightarrow> usage_entry \<Rightarrow> attempt \<Rightarrow> step_run \<Rightarrow> jstring \<Rightarrow>
   settlement_proof option" where
  "settlementProofFrom reservation usage requestedUsage attempt stepRun workspaceId =
     (case reservation of
        CR_settled base settled released _ usageEntryId \<Rightarrow>
          if \<not> reservationIdentityMatches base attempt stepRun workspaceId \<or>
             \<not> usageMatchesRequest usage requestedUsage \<or>
             usageEntryId \<noteq> ue_usageEntryId usage \<or>
             \<not> js_eq settled (ue_amount usage) \<or> \<not> isAmount released \<or>
             \<not> amountsEqual (js_add settled released) (cr_amount base)
          then None
          else Some (Settled (reservation_identity base) released settled usageEntryId)
      | _ \<Rightarrow> None)"

record applied_settlement =
  aps_proof :: "settlement_proof option"
  aps_status :: "settlement_status option"

type_synonym 'a transition_program =
  "(port_call, ('a, transition_failure) domain_result outcome) traced"

definition settleReservation ::
  "transition_ports \<Rightarrow> transition_input \<Rightarrow> step_run \<Rightarrow> attempt \<Rightarrow> js_number \<Rightarrow>
   applied_settlement transition_program" where
  "settleReservation ports inp stepRun attempt now =
     (let workspaceId = ti_workspaceId inp
      in case settlementOf inp of
          None \<Rightarrow> State_Monad.return (Returned (succeed \<lparr>aps_proof = None, aps_status = None\<rparr>))
        | Some Release \<Rightarrow>
            let request =
              \<lparr>rr_amount = at_reservedAmount attempt, rr_attemptId = at_attemptId attempt,
               rr_operationKey = at_operationKey attempt, rr_releasedAt = now,
               rr_reservationId = at_costReservationId attempt, rr_runId = sr_runId stepRun,
               rr_unit = at_reservationUnit attempt, rr_workspaceId = workspaceId\<rparr>
            in do {
              answer \<leftarrow> call (Release_reservation workspaceId request) (pt_release ports workspaceId request);
              State_Monad.return (case answer of
                  Release_conflict \<Rightarrow> Returned (fail (failure_code TF_cost_settlement_conflict))
                | Release_receipt existing reservation \<Rightarrow>
                    (case releaseProofFrom reservation attempt stepRun workspaceId of
                       None \<Rightarrow> Thrown
                     | Some proof \<Rightarrow> Returned (succeed
                         \<lparr>aps_proof = Some proof,
                          aps_status = Some (if existing then Status_existing else Status_released)\<rparr>)))
            }
        | Some (Settle usage) \<Rightarrow>
            let requestedUsage = usageFor inp attempt stepRun now usage
            in do {
              answer \<leftarrow> call (Settle_reservation workspaceId requestedUsage)
                (pt_settle ports workspaceId requestedUsage);
              State_Monad.return (case answer of
                  Settle_amount_exceeded \<Rightarrow> Returned (fail (failure_code TF_usage_exceeds_reservation))
                | Settle_conflict \<Rightarrow> Returned (fail (failure_code TF_cost_settlement_conflict))
                | Settle_receipt existing reservation entry \<Rightarrow>
                    (case settlementProofFrom reservation entry requestedUsage attempt stepRun workspaceId of
                       None \<Rightarrow> Thrown
                     | Some proof \<Rightarrow> Returned (succeed
                         \<lparr>aps_proof = Some proof,
                          aps_status = Some (if existing then Status_existing else Status_settled)\<rparr>)))
            })"



section \<open>The transaction\<close>

definition requestDagSchedulingForTerminalStep ::
  "jstring \<Rightarrow> transition_result \<Rightarrow> (port_call, unit) traced" where
  "requestDagSchedulingForTerminalStep workspaceId result =
     calls (case result of
        Inr s \<Rightarrow>
          if isTerminalStepRun (tx_stepRun s)
          then [Request_schedule workspaceId (sr_runId (tx_stepRun s))] else []
      | Inl _ \<Rightarrow> [])"

definition requestRoutingForReadyStep :: "jstring \<Rightarrow> transition_result \<Rightarrow> (port_call, unit) traced" where
  "requestRoutingForReadyStep workspaceId result =
     calls (case result of
        Inr s \<Rightarrow>
          if sr_state (tx_stepRun s) = S_ready
          then [Request_routing workspaceId (sr_stepRunId (tx_stepRun s))] else []
      | Inl _ \<Rightarrow> [])"

definition replayCommand ::
  "step_run \<Rightarrow> transition_input \<Rightarrow> step_command \<Rightarrow> step_command_identity \<Rightarrow> step_replay_proof \<Rightarrow>
   transition_result" where
  "replayCommand stepRun inp command identity proof =
     (case applyStepCommand stepRun command
         \<lparr>scx_actorId = ti_actorId inp, scx_commandIdentity = identity,
          scx_correlationId = ti_correlationId inp, scx_eventIds = [],
          scx_expectedAggregateVersion = ti_expectedAggregateVersion inp,
          scx_occurredAt = sr_createdAt stepRun, scx_replayProof = Some proof\<rparr> of
        Inl e \<Rightarrow> fail (transitionRejected (DC_step (sf_code e)))
      | Inr replay \<Rightarrow> succeed
          \<lparr>tx_effectPermission = effectPermission (request_type (ti_request inp)) True,
           tx_replayed = True, tx_settlementStatus = None, tx_stepRun = tr_aggregate replay\<rparr>)"

definition persistTransition ::
  "step_run \<Rightarrow> step_run \<Rightarrow> transition_input \<Rightarrow> step_command_identity \<Rightarrow> step_event list \<Rightarrow>
   (port_call, unit) traced" where
  "persistTransition previous next_step inp identity events =
     (let workspaceId = ti_workspaceId inp
      in do {
        calls (case outputOf inp of
            None \<Rightarrow> []
          | Some output \<Rightarrow> [Insert_artifact workspaceId (om_artifact output) (om_value output)]);
        calls (case (targetAttempt previous (ti_attemptId inp), targetAttempt next_step (ti_attemptId inp)) of
            (Some previousAttempt, Some nextAttempt) \<Rightarrow>
              if at_state nextAttempt \<noteq> at_state previousAttempt
              then [Update_attempt workspaceId (at_state previousAttempt) nextAttempt] else []
          | _ \<Rightarrow> []);
        calls [Update_step workspaceId (sr_aggregateVersion previous) next_step];
        calls (map (Append_event workspaceId) events);
        calls [Insert_proof workspaceId
          \<lparr>srp_actorId = ti_actorId inp, srp_commandType = request_type (ti_request inp),
           srp_identity = identity, srp_stepRunId = ti_stepRunId inp, srp_workspaceId = workspaceId\<rparr>
          (ti_actorId inp) (ti_correlationId inp)]
      })"

text \<open>The loop that asks for identities until it has enough.\<close>

fun allocateEventIds :: "transition_ports \<Rightarrow> nat \<Rightarrow> nat \<Rightarrow> (port_call, jstring list) traced" where
  "allocateEventIds ports asked 0 = State_Monad.return []"
| "allocateEventIds ports asked (Suc n) =
     do {
       i \<leftarrow> call Next_event_id (pt_eventId ports asked);
       ids \<leftarrow> allocateEventIds ports (asked + 1) n;
       State_Monad.return (i # ids)
     }"

definition projectParentEffect ::
  "transition_ports \<Rightarrow> step_execution_context \<Rightarrow> step_run \<Rightarrow> attempt \<Rightarrow> transition_input \<Rightarrow> js_number \<Rightarrow>
   (port_call, transition_failure option) traced" where
  "projectParentEffect ports context stepRun attempt inp now =
     (let workspaceId = ti_workspaceId inp;
          projection =
            \<lparr>pe_attempt = attempt, pe_now = now, pe_plan = sx_plan context, pe_run = sx_run context,
             pe_stepRun = stepRun\<rparr>;
          refusal = (\<lambda>answer. case answer of
              Parent_denied code \<Rightarrow> Some (transitionRejected (DC_parent code))
            | Parent_accepted \<Rightarrow> None)
      in case pt_parents ports of
          None \<Rightarrow> State_Monad.return None
        | Some parents \<Rightarrow>
            if ti_request inp = Req_StartAttemptEffect then do {
              answer \<leftarrow> call (Authorize_parent workspaceId projection)
                (pp_authorize parents workspaceId projection);
              State_Monad.return (refusal answer)
            } else if ti_request inp = Req_MarkAttemptAmbiguous then do {
              answer \<leftarrow> call (Mark_parent_ambiguous workspaceId projection)
                (pp_markAmbiguous parents workspaceId projection);
              State_Monad.return (refusal answer)
            } else State_Monad.return None)"

definition finishTransition ::
  "transition_ports \<Rightarrow> transition_input \<Rightarrow> step_command_identity \<Rightarrow> step_run \<Rightarrow> attempt \<Rightarrow> bool \<Rightarrow>
   step_command_context \<Rightarrow> transition_success transition_program" where
  "finishTransition ports inp identity stepRun attempt retryAuthorized transitionContext =
     do {
       settlement \<leftarrow> settleReservation ports inp stepRun attempt (scx_occurredAt transitionContext);
       (case settlement of
          Thrown \<Rightarrow> State_Monad.return Thrown
        | Returned (Inl e) \<Rightarrow> State_Monad.return (Returned (Inl e))
        | Returned (Inr applied) \<Rightarrow>
            (case toCommand inp attempt retryAuthorized (aps_proof applied) of
               None \<Rightarrow> State_Monad.return Thrown
             | Some durableCommand \<Rightarrow>
                 (case applyStepCommand stepRun durableCommand transitionContext of
                    Inl _ \<Rightarrow> State_Monad.return Thrown
                  | Inr durable \<Rightarrow>
                      let result = succeed
                        \<lparr>tx_effectPermission = effectPermission (request_type (ti_request inp)) False,
                         tx_replayed = False, tx_settlementStatus = aps_status applied,
                         tx_stepRun = tr_aggregate durable\<rparr>
                      in do {
                        persistTransition stepRun (tr_aggregate durable) inp identity (tr_events durable);
                        requestDagSchedulingForTerminalStep (ti_workspaceId inp) result;
                        requestRoutingForReadyStep (ti_workspaceId inp) result;
                        State_Monad.return (Returned result)
                      })))
     }"

text \<open>Whether a retry is allowed now, and the failure of the window where it matters.\<close>

definition retry_authorized :: "step_execution_context \<Rightarrow> js_number \<Rightarrow> bool \<Rightarrow> bool" where
  "retry_authorized context now retryCapacityAvailable \<longleftrightarrow>
     run_state (sx_run context) = R_running \<and> retryCapacityAvailable \<and>
     js_lt now (pl_deadline (sx_plan context)) \<and>
     js_lt now (ae_deadline (pl_authority (sx_plan context)))"

definition gated_window ::
  "step_execution_context \<Rightarrow> js_number \<Rightarrow> jstring \<Rightarrow> transition_request \<Rightarrow> bool \<Rightarrow>
   transition_failure option" where
  "gated_window context now requiredPermission request retryAuthorized =
     (if request = Req_StartAttemptEffect \<or> request = Req_AuthorizeRetry \<and> retryAuthorized
      then validateExecutionWindow context now requiredPermission else None)"

definition transition_context ::
  "transition_input \<Rightarrow> step_command_identity \<Rightarrow> jstring list \<Rightarrow> js_number \<Rightarrow> step_command_context" where
  "transition_context inp identity eventIds now =
     \<lparr>scx_actorId = ti_actorId inp, scx_commandIdentity = identity,
      scx_correlationId = ti_correlationId inp, scx_eventIds = eventIds,
      scx_expectedAggregateVersion = ti_expectedAggregateVersion inp,
      scx_occurredAt = now, scx_replayProof = None\<rparr>"

definition executeFreshTransition ::
  "transition_ports \<Rightarrow> transition_input \<Rightarrow> step_command_identity \<Rightarrow> step_execution_context \<Rightarrow>
   step_run \<Rightarrow> attempt \<Rightarrow> bool \<Rightarrow> transition_success transition_program" where
  "executeFreshTransition ports inp identity context stepRun attempt retryCapacityAvailable =
     (case validateAuthorityIdentity context (ti_actorId inp) of
        Some e \<Rightarrow> State_Monad.return (Returned (fail e))
      | None \<Rightarrow>
      (case validateFreshTransitionContext context attempt inp of
        Some e \<Rightarrow> State_Monad.return (Returned (fail e))
      | None \<Rightarrow> do {
          now \<leftarrow> call Read_clock (pt_now ports);
          let retryAuthorized = retry_authorized context now retryCapacityAvailable
          in case gated_window context now (pt_requiredPermission ports) (ti_request inp) retryAuthorized of
              Some e \<Rightarrow> State_Monad.return (Returned (fail e))
            | None \<Rightarrow>
                (case toCommand inp attempt retryAuthorized None of
                   None \<Rightarrow> State_Monad.return (Returned (fail (transitionRejected DC_attempt_id_mismatch)))
                 | Some command \<Rightarrow> do {
                     eventIds \<leftarrow> allocateEventIds ports 0 (eventCountForCommand command);
                     let transitionContext = transition_context inp identity eventIds now
                     in case applyStepCommand stepRun command transitionContext of
                         Inl e \<Rightarrow>
                           State_Monad.return (Returned (fail (transitionRejected (DC_step (sf_code e)))))
                       | Inr _ \<Rightarrow> do {
                           parentFailure \<leftarrow> projectParentEffect ports context stepRun attempt inp now;
                           (case parentFailure of
                              Some e \<Rightarrow> State_Monad.return (Returned (fail e))
                            | None \<Rightarrow>
                                finishTransition ports inp identity stepRun attempt retryAuthorized
                                  transitionContext)
                         }
                   })
        }))"

text \<open>Whether the retry policy leaves room for another attempt.\<close>

definition retry_capacity :: "run_plan \<Rightarrow> step_run \<Rightarrow> bool" where
  "retry_capacity plan stepRun =
     (let maxAttempts = maxAttemptsPerStep (pl_retryPolicy plan)
      in is_safe_integer maxAttempts \<and> js_ge maxAttempts (num 1) \<and> js_le maxAttempts (num 100) \<and>
         js_lt (num (int (length (sr_attempts stepRun)))) maxAttempts)"

definition executeTransition ::
  "transition_ports \<Rightarrow> transition_input \<Rightarrow> step_command_identity \<Rightarrow>
   transition_success transition_program" where
  "executeTransition ports inp identity =
     (let workspaceId = ti_workspaceId inp; stepRunId = ti_stepRunId inp
      in do {
        context \<leftarrow> call (Get_context workspaceId stepRunId) (pt_context ports workspaceId stepRunId);
        (case Option.bind context (\<lambda>c. map_option (Pair c) (sx_stepRun c)) of
           None \<Rightarrow> State_Monad.return (Returned (fail (failure_code TF_step_not_found)))
         | Some (context, stepRun) \<Rightarrow>
             (case targetAttempt stepRun (ti_attemptId inp) of
                None \<Rightarrow> State_Monad.return (Returned (fail (transitionRejected DC_attempt_id_mismatch)))
              | Some attempt \<Rightarrow>
                  let retryCapacityAvailable = retry_capacity (sx_plan context) stepRun
                  in case toCommand inp attempt retryCapacityAvailable None of
                      None \<Rightarrow>
                        State_Monad.return (Returned (fail (transitionRejected DC_attempt_id_mismatch)))
                    | Some replayCandidate \<Rightarrow> do {
                        proof \<leftarrow> call (Find_proof workspaceId stepRunId (ti_commandIdempotencyKey inp))
                          (pt_proof ports workspaceId stepRunId (ti_commandIdempotencyKey inp));
                        (case proof of
                           Some proof \<Rightarrow>
                             let replay = replayCommand stepRun inp replayCandidate identity proof
                             in do {
                               requestDagSchedulingForTerminalStep workspaceId replay;
                               requestRoutingForReadyStep workspaceId replay;
                               State_Monad.return (Returned replay)
                             }
                         | None \<Rightarrow>
                             executeFreshTransition ports inp identity context stepRun attempt
                               retryCapacityAvailable)
                      }))
      })"

definition transitionStepAttempt ::
  "transition_ports \<Rightarrow> transition_input \<Rightarrow> transition_success transition_program" where
  "transitionStepAttempt ports inp =
     (case validateSettlement (pt_sha256 ports) inp of
        None \<Rightarrow> State_Monad.return Thrown
      | Some (Some e) \<Rightarrow> State_Monad.return (Returned (fail e))
      | Some None \<Rightarrow>
          (case commandHash (pt_sha256 ports) inp of
             None \<Rightarrow> State_Monad.return Thrown
           | Some hash \<Rightarrow>
               executeTransition ports inp
                 \<lparr>sci_commandHash = hash, sci_idempotencyKey = ti_commandIdempotencyKey inp\<rparr>))"

end
