(* ===== verification/Transition_Properties.thy ===== *)
theory Transition_Properties
  imports Transition_Attempt Step_Properties
begin

text \<open>
  What the use case promises: a repeated command changes nothing, a refused one stores nothing,
  and the permission to perform an external effect is given at most once, under a live authority.
\<close>

section \<open>The programs\<close>

lemma appends_settle [appending]: "appends (settleReservation ports inp stepRun attempt now)"
  by (auto simp: settleReservation_def Let_def split: option.split step_cost_settlement.split
      intro!: appending)

lemma appends_persist [appending]: "appends (persistTransition previous next_step inp identity events)"
  by (auto simp: persistTransition_def Let_def intro!: appending)

lemma appends_requests [appending]:
  "appends (requestDagSchedulingForTerminalStep workspaceId result)"
  "appends (requestRoutingForReadyStep workspaceId result)"
  by (auto simp: requestDagSchedulingForTerminalStep_def requestRoutingForReadyStep_def intro!: appending)

lemma appends_allocate [appending]: "appends (allocateEventIds ports asked n)"
  by (induction n arbitrary: asked) (auto intro!: appending)

lemma appends_parent [appending]: "appends (projectParentEffect ports context stepRun attempt inp now)"
  by (auto simp: projectParentEffect_def Let_def intro!: appending)

lemma appends_finish [appending]:
  "appends (finishTransition ports inp identity stepRun attempt retryAuthorized context)"
  unfolding finishTransition_def Let_def by (intro appending)

lemma appends_fresh [appending]:
  "appends (executeFreshTransition ports inp identity context stepRun attempt available)"
  unfolding executeFreshTransition_def Let_def by (intro appending)

lemma appends_execute [appending]: "appends (executeTransition ports inp identity)"
  unfolding executeTransition_def Let_def by (intro appending)

lemma appends_transition [appending]: "appends (transitionStepAttempt ports inp)"
  unfolding transitionStepAttempt_def by (intro appending)

lemmas programs = bind_simps appending

lemma persist_trace:
  "trace_of (persistTransition previous next_step inp identity events) =
   (case outputOf inp of
      None \<Rightarrow> []
    | Some output \<Rightarrow> [Insert_artifact (ti_workspaceId inp) (om_artifact output) (om_value output)]) @
   (case (targetAttempt previous (ti_attemptId inp), targetAttempt next_step (ti_attemptId inp)) of
      (Some previousAttempt, Some nextAttempt) \<Rightarrow>
        if at_state nextAttempt \<noteq> at_state previousAttempt
        then [Update_attempt (ti_workspaceId inp) (at_state previousAttempt) nextAttempt] else []
    | _ \<Rightarrow> []) @
   [Update_step (ti_workspaceId inp) (sr_aggregateVersion previous) next_step] @
   map (Append_event (ti_workspaceId inp)) events @
   [Insert_proof (ti_workspaceId inp)
      \<lparr>srp_actorId = ti_actorId inp, srp_commandType = request_type (ti_request inp),
       srp_identity = identity, srp_stepRunId = ti_stepRunId inp,
       srp_workspaceId = ti_workspaceId inp\<rparr> (ti_actorId inp) (ti_correlationId inp)]"
  unfolding persistTransition_def Let_def by (simp add: programs)

text \<open>The calls that change what is stored, or ask others to work on it.\<close>

fun stores :: "port_call \<Rightarrow> bool" where
  "stores (Insert_artifact _ _ _) = True"
| "stores (Update_attempt _ _ _) = True"
| "stores (Update_step _ _ _) = True"
| "stores (Append_event _ _) = True"
| "stores (Insert_proof _ _ _ _) = True"
| "stores (Request_schedule _ _) = True"
| "stores (Request_routing _ _) = True"
| "stores _ = False"

text \<open>A call that stores nothing, and that the ledger or the parent answered with a refusal.\<close>

definition refused_call :: "transition_ports \<Rightarrow> port_call \<Rightarrow> bool" where
  "refused_call ports c \<longleftrightarrow>
     \<not> stores c \<and>
     (case c of
        Release_reservation w r \<Rightarrow> pt_release ports w r = Release_conflict
      | Settle_reservation w u \<Rightarrow> pt_settle ports w u \<in> {Settle_amount_exceeded, Settle_conflict}
      | Authorize_parent w p \<Rightarrow>
          (case pt_parents ports of
             None \<Rightarrow> False
           | Some parents \<Rightarrow> (case pp_authorize parents w p of Parent_denied _ \<Rightarrow> True | _ \<Rightarrow> False))
      | Mark_parent_ambiguous w p \<Rightarrow>
          (case pt_parents ports of
             None \<Rightarrow> False
           | Some parents \<Rightarrow> (case pp_markAmbiguous parents w p of Parent_denied _ \<Rightarrow> True | _ \<Rightarrow> False))
      | _ \<Rightarrow> True)"

lemma allocate_trace: "trace_of (allocateEventIds ports asked n) = replicate n Next_event_id"
  "outcome_of (allocateEventIds ports asked n) = map (pt_eventId ports) [asked..<asked + n]"
  by (induction n arbitrary: asked) (simp_all add: programs upt_conv_Cons del: upt_Suc)

lemma settle_refused:
  "outcome_of (settleReservation ports inp stepRun attempt now) = Returned (Inl e) \<Longrightarrow>
   settlementOf inp \<noteq> None \<and>
   list_all (refused_call ports) (trace_of (settleReservation ports inp stepRun attempt now))"
  by (auto simp: settleReservation_def Let_def programs refused_call_def
      split: option.splits step_cost_settlement.splits release_answer.splits settle_answer.splits)

lemma parent_refused:
  "outcome_of (projectParentEffect ports context stepRun attempt inp now) = Some e \<Longrightarrow>
   list_all (refused_call ports) (trace_of (projectParentEffect ports context stepRun attempt inp now))"
  "settlementOf inp \<noteq> None \<Longrightarrow>
   trace_of (projectParentEffect ports context stepRun attempt inp now) = []"
  by (auto simp: projectParentEffect_def Let_def programs refused_call_def settlementOf_def
      split: option.splits if_splits parent_answer.splits transition_request.splits)

text \<open>What the last part of a transition returns, and the calls it makes.\<close>

lemma finish_outcome:
  "outcome_of (finishTransition ports inp identity stepRun attempt retryAuthorized context) =
   (case outcome_of (settleReservation ports inp stepRun attempt (scx_occurredAt context)) of
      Thrown \<Rightarrow> Thrown
    | Returned (Inl e) \<Rightarrow> Returned (Inl e)
    | Returned (Inr applied) \<Rightarrow>
        (case toCommand inp attempt retryAuthorized (aps_proof applied) of
           None \<Rightarrow> Thrown
         | Some command \<Rightarrow>
             (case applyStepCommand stepRun command context of
                Inl _ \<Rightarrow> Thrown
              | Inr durable \<Rightarrow> Returned (succeed
                  \<lparr>tx_effectPermission = effectPermission (request_type (ti_request inp)) False,
                   tx_replayed = False, tx_settlementStatus = aps_status applied,
                   tx_stepRun = tr_aggregate durable\<rparr>))))"
  unfolding finishTransition_def Let_def
  by (simp add: programs split: outcome.split sum.split option.split)

lemma finish_refused:
  assumes "outcome_of (finishTransition ports inp identity stepRun attempt retryAuthorized context) =
    Returned (Inl e)"
  shows "settlementOf inp \<noteq> None \<and>
    list_all (refused_call ports)
      (trace_of (finishTransition ports inp identity stepRun attempt retryAuthorized context))"
proof -
  let ?settle = "settleReservation ports inp stepRun attempt (scx_occurredAt context)"
  have settle: "outcome_of ?settle = Returned (Inl e)"
    using assms unfolding finish_outcome by (simp split: outcome.splits sum.splits option.splits)
  then have "trace_of (finishTransition ports inp identity stepRun attempt retryAuthorized context) =
      trace_of ?settle"
    unfolding finishTransition_def Let_def by (simp add: programs)
  then show ?thesis using settle_refused [OF settle] by simp
qed

text \<open>A fresh transition is refused before the ledger is asked, or it comes to its last part.\<close>

lemma run_program: "appends m \<Longrightarrow> state.run_state m t = (outcome_of m, t @ trace_of m)"
  by (simp add: appends_def)

lemmas runs =
  run_program [OF appends_allocate] run_program [OF appends_parent] run_program [OF appends_finish]

text \<open>The command and the context of a fresh transition, as far as it comes.\<close>

definition fresh_context ::
  "transition_ports \<Rightarrow> transition_input \<Rightarrow> step_command_identity \<Rightarrow> step_command \<Rightarrow> step_command_context" where
  "fresh_context ports inp identity command =
     transition_context inp identity
       (map (pt_eventId ports) [0..<eventCountForCommand command]) (pt_now ports)"

definition fresh_result ::
  "transition_ports \<Rightarrow> transition_input \<Rightarrow> step_command_identity \<Rightarrow> step_execution_context \<Rightarrow>
   step_run \<Rightarrow> attempt \<Rightarrow> bool \<Rightarrow> transition_result outcome \<times> port_call list" where
  "fresh_result ports inp identity context stepRun attempt available =
     (let retry = retry_authorized context (pt_now ports) available
      in case validateAuthorityIdentity context (ti_actorId inp) of
        Some e \<Rightarrow> (Returned (Inl e), [])
      | None \<Rightarrow> (case validateFreshTransitionContext context attempt inp of
        Some e \<Rightarrow> (Returned (Inl e), [])
      | None \<Rightarrow> (case gated_window context (pt_now ports) (pt_requiredPermission ports)
            (ti_request inp) retry of
        Some e \<Rightarrow> (Returned (Inl e), [Read_clock])
      | None \<Rightarrow> (case toCommand inp attempt retry None of
        None \<Rightarrow> (Returned (Inl (transitionRejected DC_attempt_id_mismatch)), [Read_clock])
      | Some command \<Rightarrow>
         (let before = Read_clock # replicate (eventCountForCommand command) Next_event_id;
              parent = projectParentEffect ports context stepRun attempt inp (pt_now ports);
              last_part = finishTransition ports inp identity stepRun attempt retry
                (fresh_context ports inp identity command)
          in case applyStepCommand stepRun command (fresh_context ports inp identity command) of
            Inl e \<Rightarrow> (Returned (Inl (transitionRejected (DC_step (sf_code e)))), before)
          | Inr _ \<Rightarrow> (case outcome_of parent of
              Some e \<Rightarrow> (Returned (Inl e), before @ trace_of parent)
            | None \<Rightarrow> (outcome_of last_part, before @ trace_of parent @ trace_of last_part)))))))"

lemma fresh_run:
  "state.run_state (executeFreshTransition ports inp identity context stepRun attempt available) [] =
   fresh_result ports inp identity context stepRun attempt available"
  unfolding executeFreshTransition_def fresh_result_def fresh_context_def Let_def
  by (simp add: runs allocate_trace split: option.split sum.split)

lemma fresh_outcome:
  "outcome_of (executeFreshTransition ports inp identity context stepRun attempt available) =
     fst (fresh_result ports inp identity context stepRun attempt available)"
  "trace_of (executeFreshTransition ports inp identity context stepRun attempt available) =
     snd (fresh_result ports inp identity context stepRun attempt available)"
  by (simp_all add: outcome_of_def trace_of_def fresh_run)

lemma reads [simp]:
  "refused_call ports Read_clock" "refused_call ports Next_event_id"
  "refused_call ports (Get_context w i)" "refused_call ports (Find_proof w i k)"
  by (simp_all add: refused_call_def)

lemma parent_accepts:
  "outcome_of (projectParentEffect ports context stepRun attempt inp now) = None \<Longrightarrow>
   settlementOf inp \<noteq> None \<Longrightarrow> list_all (refused_call ports)
     (trace_of (projectParentEffect ports context stepRun attempt inp now))"
  by (simp add: parent_refused(2))

lemma fresh_refused:
  assumes "fst (fresh_result ports inp identity context stepRun attempt available) = Returned (Inl e)"
  shows "list_all (refused_call ports)
    (snd (fresh_result ports inp identity context stepRun attempt available))"
  using assms finish_refused parent_refused(1) parent_accepts
  unfolding fresh_result_def Let_def
  by (simp add: list_all_iff split: option.splits sum.splits) fastforce+

text \<open>The whole transaction: a step that is found, a command that is not a repetition.\<close>

lemma toCommand_total: "\<exists>command. toCommand inp attempt retry None = Some command"
  by (cases "ti_request inp") (simp_all add: toCommand_def Let_def settlementForCommand_def
      settlementProof_def settlementOf_def split: step_cost_settlement.split)

definition execute_result ::
  "transition_ports \<Rightarrow> transition_input \<Rightarrow> step_command_identity \<Rightarrow>
   transition_result outcome \<times> port_call list" where
  "execute_result ports inp identity =
     (let w = ti_workspaceId inp; i = ti_stepRunId inp; k = ti_commandIdempotencyKey inp
      in case pt_context ports w i of
        None \<Rightarrow> (Returned (Inl (failure_code TF_step_not_found)), [Get_context w i])
      | Some context \<Rightarrow> (case sx_stepRun context of
        None \<Rightarrow> (Returned (Inl (failure_code TF_step_not_found)), [Get_context w i])
      | Some stepRun \<Rightarrow> (case targetAttempt stepRun (ti_attemptId inp) of
        None \<Rightarrow> (Returned (Inl (transitionRejected DC_attempt_id_mismatch)), [Get_context w i])
      | Some attempt \<Rightarrow>
         (let available = retry_capacity (sx_plan context) stepRun;
              reading = [Get_context w i, Find_proof w i k]
          in case pt_proof ports w i k of
            Some proof \<Rightarrow>
              (let replay = replayCommand stepRun inp (the (toCommand inp attempt available None)) identity proof
               in (Returned replay,
                   reading @ trace_of (requestDagSchedulingForTerminalStep w replay) @
                   trace_of (requestRoutingForReadyStep w replay)))
          | None \<Rightarrow>
              (let fresh = fresh_result ports inp identity context stepRun attempt available
               in (fst fresh, reading @ snd fresh))))))"

lemmas executes = run_program [OF appends_fresh] run_program [OF appends_requests(1)]
  run_program [OF appends_requests(2)]

lemma execute_run: "state.run_state (executeTransition ports inp identity) [] = execute_result ports inp identity"
proof (cases "pt_context ports (ti_workspaceId inp) (ti_stepRunId inp)")
  case (Some found_context)
  note found = this
  show ?thesis
  proof (cases "sx_stepRun found_context")
    case (Some stepRun)
    note step = this
    show ?thesis
    proof (cases "targetAttempt stepRun (ti_attemptId inp)")
      case (Some attempt)
      obtain command where
        "toCommand inp attempt (retry_capacity (sx_plan found_context) stepRun) None = Some command"
        using toCommand_total by blast
      then show ?thesis
        using found step Some unfolding executeTransition_def execute_result_def Let_def
        by (simp add: executes fresh_outcome split: option.split)
    qed (use found step in \<open>simp add: executeTransition_def execute_result_def Let_def\<close>)
  qed (use found in \<open>simp add: executeTransition_def execute_result_def Let_def\<close>)
qed (simp add: executeTransition_def execute_result_def Let_def)

lemma execute_outcome:
  "outcome_of (executeTransition ports inp identity) = fst (execute_result ports inp identity)"
  "trace_of (executeTransition ports inp identity) = snd (execute_result ports inp identity)"
  by (simp_all add: outcome_of_def trace_of_def execute_run)

lemma request_traces:
  "trace_of (requestDagSchedulingForTerminalStep w (Inl e)) = []"
  "trace_of (requestRoutingForReadyStep w (Inl e)) = []"
  by (simp_all add: requestDagSchedulingForTerminalStep_def requestRoutingForReadyStep_def)

lemma execute_refused:
  assumes "outcome_of (executeTransition ports inp identity) = Returned (Inl e)"
  shows "list_all (refused_call ports) (trace_of (executeTransition ports inp identity))"
  using assms fresh_refused unfolding execute_outcome execute_result_def Let_def
  by (auto simp: request_traces split: option.splits)

lemma transition_runs:
  assumes "outcome_of (transitionStepAttempt ports inp) = Returned r"
  shows "trace_of (transitionStepAttempt ports inp) = [] \<and> (\<exists>e. r = Inl e) \<or>
    (\<exists>hash. commandHash (pt_sha256 ports) inp = Some hash \<and>
       validateSettlement (pt_sha256 ports) inp = Some None \<and>
       transitionStepAttempt ports inp = executeTransition ports inp
         \<lparr>sci_commandHash = hash, sci_idempotencyKey = ti_commandIdempotencyKey inp\<rparr>)"
  using assms unfolding transitionStepAttempt_def by (auto split: option.splits)

text \<open>What an accepted command went through.\<close>

lemma execute_accepted:
  assumes "outcome_of (executeTransition ports inp identity) = Returned (Inr s)"
  obtains found stepRun attempt command where
    "pt_context ports (ti_workspaceId inp) (ti_stepRunId inp) = Some found"
    "sx_stepRun found = Some stepRun"
    "targetAttempt stepRun (ti_attemptId inp) = Some attempt"
    "toCommand inp attempt (retry_capacity (sx_plan found) stepRun) None = Some command"
    "case pt_proof ports (ti_workspaceId inp) (ti_stepRunId inp) (ti_commandIdempotencyKey inp) of
       Some proof \<Rightarrow> replayCommand stepRun inp command identity proof = Inr s
     | None \<Rightarrow>
         fst (fresh_result ports inp identity found stepRun attempt
           (retry_capacity (sx_plan found) stepRun)) = Returned (Inr s) \<and>
         trace_of (executeTransition ports inp identity) =
           [Get_context (ti_workspaceId inp) (ti_stepRunId inp),
            Find_proof (ti_workspaceId inp) (ti_stepRunId inp) (ti_commandIdempotencyKey inp)] @
           snd (fresh_result ports inp identity found stepRun attempt
             (retry_capacity (sx_plan found) stepRun))"
proof -
  obtain found where found: "pt_context ports (ti_workspaceId inp) (ti_stepRunId inp) = Some found"
    using assms unfolding execute_outcome execute_result_def Let_def by (auto split: option.splits)
  obtain stepRun where step: "sx_stepRun found = Some stepRun"
    using assms found unfolding execute_outcome execute_result_def Let_def by (auto split: option.splits)
  obtain attempt where attempt: "targetAttempt stepRun (ti_attemptId inp) = Some attempt"
    using assms found step unfolding execute_outcome execute_result_def Let_def
    by (auto split: option.splits)
  obtain command where command:
    "toCommand inp attempt (retry_capacity (sx_plan found) stepRun) None = Some command"
    using toCommand_total by blast
  show thesis
    by (rule that [OF found step attempt command])
      (use assms found step attempt command in
        \<open>simp add: execute_outcome execute_result_def Let_def split: option.splits\<close>)
qed

lemma fresh_accepted:
  assumes "fst (fresh_result ports inp identity found stepRun attempt available) = Returned (Inr s)"
  obtains command retry applied durable t where
    "validateAuthorityIdentity found (ti_actorId inp) = None"
    "gated_window found (pt_now ports) (pt_requiredPermission ports) (ti_request inp) retry = None"
    "toCommand inp attempt retry None = Some command"
    "outcome_of (settleReservation ports inp stepRun attempt (pt_now ports)) = Returned (Inr applied)"
    "toCommand inp attempt retry (aps_proof applied) = Some durable"
    "applyStepCommand stepRun durable (fresh_context ports inp identity command) = Inr t"
    "s = \<lparr>tx_effectPermission = effectPermission (request_type (ti_request inp)) False,
       tx_replayed = False, tx_settlementStatus = aps_status applied, tx_stepRun = tr_aggregate t\<rparr>"
    "snd (fresh_result ports inp identity found stepRun attempt available) =
     Read_clock # replicate (eventCountForCommand command) Next_event_id @
     trace_of (projectParentEffect ports found stepRun attempt inp (pt_now ports)) @
     trace_of (settleReservation ports inp stepRun attempt (pt_now ports)) @
     trace_of (persistTransition stepRun (tr_aggregate t) inp identity (tr_events t)) @
     trace_of (requestDagSchedulingForTerminalStep (ti_workspaceId inp) (Inr s)) @
     trace_of (requestRoutingForReadyStep (ti_workspaceId inp) (Inr s))"
proof -
  define retry where "retry = retry_authorized found (pt_now ports) available"
  note unfolded = assms [unfolded fresh_result_def Let_def, folded retry_def]
  have authority: "validateAuthorityIdentity found (ti_actorId inp) = None"
    using unfolded by (simp split: option.splits)
  have fresh: "validateFreshTransitionContext found attempt inp = None"
    using unfolded authority by (simp split: option.splits)
  have gate: "gated_window found (pt_now ports) (pt_requiredPermission ports) (ti_request inp) retry = None"
    using unfolded authority fresh by (simp split: option.splits)
  obtain command where command: "toCommand inp attempt retry None = Some command"
    using toCommand_total by blast
  let ?cctx = "fresh_context ports inp identity command"
  let ?finish = "finishTransition ports inp identity stepRun attempt retry ?cctx"
  have passed: "\<exists>u. applyStepCommand stepRun command ?cctx = Inr u"
    "outcome_of (projectParentEffect ports found stepRun attempt inp (pt_now ports)) = None"
    and finish: "outcome_of ?finish = Returned (Inr s)"
    using unfolded authority fresh gate command by (simp_all split: option.splits sum.splits)
  have now: "scx_occurredAt ?cctx = pt_now ports"
    by (simp add: fresh_context_def transition_context_def)
  obtain applied where applied:
    "outcome_of (settleReservation ports inp stepRun attempt (pt_now ports)) = Returned (Inr applied)"
    using finish unfolding finish_outcome now by (simp split: outcome.splits sum.splits)
  obtain durable where durable: "toCommand inp attempt retry (aps_proof applied) = Some durable"
    using finish applied unfolding finish_outcome now by (simp split: option.splits)
  obtain t where t: "applyStepCommand stepRun durable ?cctx = Inr t"
    using finish applied durable unfolding finish_outcome now by (simp split: sum.splits)
  have s: "s = \<lparr>tx_effectPermission = effectPermission (request_type (ti_request inp)) False,
       tx_replayed = False, tx_settlementStatus = aps_status applied, tx_stepRun = tr_aggregate t\<rparr>"
    using finish applied durable t unfolding finish_outcome now by simp
  have "trace_of ?finish =
     trace_of (settleReservation ports inp stepRun attempt (pt_now ports)) @
     trace_of (persistTransition stepRun (tr_aggregate t) inp identity (tr_events t)) @
     trace_of (requestDagSchedulingForTerminalStep (ti_workspaceId inp) (Inr s)) @
     trace_of (requestRoutingForReadyStep (ti_workspaceId inp) (Inr s))"
    using applied durable t unfolding finishTransition_def Let_def now s by (simp add: programs)
  then have "snd (fresh_result ports inp identity found stepRun attempt available) =
     Read_clock # replicate (eventCountForCommand command) Next_event_id @
     trace_of (projectParentEffect ports found stepRun attempt inp (pt_now ports)) @
     trace_of (settleReservation ports inp stepRun attempt (pt_now ports)) @
     trace_of (persistTransition stepRun (tr_aggregate t) inp identity (tr_events t)) @
     trace_of (requestDagSchedulingForTerminalStep (ti_workspaceId inp) (Inr s)) @
     trace_of (requestRoutingForReadyStep (ti_workspaceId inp) (Inr s))"
    using passed authority fresh gate command
    unfolding fresh_result_def Let_def retry_def [symmetric] by auto
  with that [OF authority gate command applied durable t s] show thesis .
qed

text \<open>
  C17. A transition that is refused writes nothing of the step: it only reads the context, the journal
  and the clock and takes event identities; what it asks the parent or the ledger for is denied.
\<close>

theorem refused_transition_stores_nothing:
  assumes "outcome_of (transitionStepAttempt ports inp) = Returned (Inl e)"
  shows "list_all (refused_call ports) (trace_of (transitionStepAttempt ports inp))"
  using transition_runs [OF assms] execute_refused assms by fastforce


section \<open>What an accepted command stores\<close>

lemma toCommand_type:
  "toCommand inp attempt retry durable = Some command \<Longrightarrow>
   step_command_type command = request_type (ti_request inp)"
  by (cases "ti_request inp")
    (auto simp: toCommand_def Let_def split: option.splits settlement_proof.splits)

text \<open>The calls that write the step, its events and the journal.\<close>

fun writes_step :: "port_call \<Rightarrow> bool" where
  "writes_step (Update_step _ _ _) = True"
| "writes_step (Append_event _ _) = True"
| "writes_step (Insert_proof _ _ _ _) = True"
| "writes_step _ = False"

lemma no_step_writes:
  "filter writes_step (trace_of (projectParentEffect ports found stepRun attempt inp now)) = []"
  "filter writes_step (trace_of (settleReservation ports inp stepRun attempt now)) = []"
  "filter writes_step (trace_of (requestDagSchedulingForTerminalStep w r)) = []"
  "filter writes_step (trace_of (requestRoutingForReadyStep w r)) = []"
  "filter writes_step (replicate n Next_event_id) = []"
  by (simp_all add: projectParentEffect_def settleReservation_def Let_def programs
      requestDagSchedulingForTerminalStep_def requestRoutingForReadyStep_def
      split: option.split step_cost_settlement.split sum.split)

lemma persist_step_writes:
  "filter writes_step (trace_of (persistTransition previous next_step inp identity events)) =
   Update_step (ti_workspaceId inp) (sr_aggregateVersion previous) next_step #
   map (Append_event (ti_workspaceId inp)) events @
   [Insert_proof (ti_workspaceId inp)
      \<lparr>srp_actorId = ti_actorId inp, srp_commandType = request_type (ti_request inp),
       srp_identity = identity, srp_stepRunId = ti_stepRunId inp,
       srp_workspaceId = ti_workspaceId inp\<rparr> (ti_actorId inp) (ti_correlationId inp)]"
  by (simp add: persist_trace filter_map o_def split: option.split)

lemma replayed_flag:
  "replayCommand stepRun inp command identity proof = Inr s \<Longrightarrow>
   s = \<lparr>tx_effectPermission = effectPermission (request_type (ti_request inp)) True,
     tx_replayed = True, tx_settlementStatus = None, tx_stepRun = stepRun\<rparr>"
  by (auto simp: replayCommand_def dest!: applyStepCommand_replay [rotated] split: sum.splits)

lemma transition_accepted:
  assumes "outcome_of (transitionStepAttempt ports inp) = Returned (Inr s)" and "\<not> tx_replayed s"
  obtains hash found stepRun attempt where
    "commandHash (pt_sha256 ports) inp = Some hash"
    "validateSettlement (pt_sha256 ports) inp = Some None"
    "pt_context ports (ti_workspaceId inp) (ti_stepRunId inp) = Some found"
    "sx_stepRun found = Some stepRun"
    "targetAttempt stepRun (ti_attemptId inp) = Some attempt"
    "pt_proof ports (ti_workspaceId inp) (ti_stepRunId inp) (ti_commandIdempotencyKey inp) = None"
    "fst (fresh_result ports inp
       \<lparr>sci_commandHash = hash, sci_idempotencyKey = ti_commandIdempotencyKey inp\<rparr> found stepRun attempt
       (retry_capacity (sx_plan found) stepRun)) = Returned (Inr s)"
    "trace_of (transitionStepAttempt ports inp) =
       [Get_context (ti_workspaceId inp) (ti_stepRunId inp),
        Find_proof (ti_workspaceId inp) (ti_stepRunId inp) (ti_commandIdempotencyKey inp)] @
       snd (fresh_result ports inp
         \<lparr>sci_commandHash = hash, sci_idempotencyKey = ti_commandIdempotencyKey inp\<rparr> found stepRun attempt
         (retry_capacity (sx_plan found) stepRun))"
proof -
  obtain hash where hash: "commandHash (pt_sha256 ports) inp = Some hash"
    "validateSettlement (pt_sha256 ports) inp = Some None"
    and runs: "transitionStepAttempt ports inp = executeTransition ports inp
      \<lparr>sci_commandHash = hash, sci_idempotencyKey = ti_commandIdempotencyKey inp\<rparr>"
    using transition_runs [OF assms(1)] by auto
  show thesis
    by (rule execute_accepted [OF assms(1) [unfolded runs]])
      (use assms(2) replayed_flag runs that [OF hash] in \<open>force split: option.splits\<close>)
qed

text \<open>
  C16. A transition that is accepted for the first time writes exactly what the kernel decides on the
  stored step: the step under the version that was read, the events of the decision in their
  order, and one journal entry with the hash of the command, in this order and nothing else of the
  step.
\<close>

theorem accepted_transition_stores:
  assumes "outcome_of (transitionStepAttempt ports inp) = Returned (Inr s)" and "\<not> tx_replayed s"
  shows "\<exists>found stepRun command eventIds hash t.
    pt_context ports (ti_workspaceId inp) (ti_stepRunId inp) = Some found \<and>
    sx_stepRun found = Some stepRun \<and>
    step_command_type command = request_type (ti_request inp) \<and>
    commandHash (pt_sha256 ports) inp = Some hash \<and>
    applyStepCommand stepRun command
      (transition_context inp
        \<lparr>sci_commandHash = hash, sci_idempotencyKey = ti_commandIdempotencyKey inp\<rparr>
        eventIds (pt_now ports)) = Inr t \<and>
    tx_stepRun s = tr_aggregate t \<and>
    filter writes_step (trace_of (transitionStepAttempt ports inp)) =
      Update_step (ti_workspaceId inp) (sr_aggregateVersion stepRun) (tr_aggregate t) #
      map (Append_event (ti_workspaceId inp)) (tr_events t) @
      [Insert_proof (ti_workspaceId inp)
        \<lparr>srp_actorId = ti_actorId inp, srp_commandType = request_type (ti_request inp),
         srp_identity =
           \<lparr>sci_commandHash = hash, sci_idempotencyKey = ti_commandIdempotencyKey inp\<rparr>,
         srp_stepRunId = ti_stepRunId inp, srp_workspaceId = ti_workspaceId inp\<rparr>
        (ti_actorId inp) (ti_correlationId inp)]"
proof -
  obtain hash found stepRun attempt where
    read: "commandHash (pt_sha256 ports) inp = Some hash"
      "pt_context ports (ti_workspaceId inp) (ti_stepRunId inp) = Some found"
      "sx_stepRun found = Some stepRun"
    and fresh: "fst (fresh_result ports inp
       \<lparr>sci_commandHash = hash, sci_idempotencyKey = ti_commandIdempotencyKey inp\<rparr> found stepRun attempt
       (retry_capacity (sx_plan found) stepRun)) = Returned (Inr s)"
    and calls: "trace_of (transitionStepAttempt ports inp) =
       [Get_context (ti_workspaceId inp) (ti_stepRunId inp),
        Find_proof (ti_workspaceId inp) (ti_stepRunId inp) (ti_commandIdempotencyKey inp)] @
       snd (fresh_result ports inp
         \<lparr>sci_commandHash = hash, sci_idempotencyKey = ti_commandIdempotencyKey inp\<rparr> found stepRun attempt
         (retry_capacity (sx_plan found) stepRun))"
    by (rule transition_accepted [OF assms]) blast
  show ?thesis
  proof (rule fresh_accepted [OF fresh], goal_cases)
    case (1 command retry applied durable t)
    show ?case
      by (intro exI conjI, rule read(2), rule read(3), rule toCommand_type [OF 1(5)], rule read(1),
          rule 1(6) [unfolded fresh_context_def])
        (simp_all add: 1(7) calls 1(8) no_step_writes persist_step_writes)
  qed
qed

section \<open>The permission to act\<close>

lemma window_open:
  assumes "validateExecutionWindow found now permission = None" and "sx_stepRun found = Some stepRun"
  shows "run.run_state (sx_run found) = R_running" "\<not> js_ge now (pl_deadline (sx_plan found))"
    "\<not> js_ge now (ae_deadline (pl_authority (sx_plan found)))"
    "permission \<in> set (ae_permissions (pl_authority (sx_plan found)))"
    "\<exists>node \<in> set (cw_nodes (pl_compiledWorkflow (sx_plan found))).
       cn_key node = sr_nodeKey stepRun \<and>
       (\<exists>capability \<in> set (ae_capabilities (pl_authority (sx_plan found))).
          capabilityMatches capability (cn_capability node))"
  using assms unfolding validateExecutionWindow_def Let_def
  by (auto simp: list_all_iff dest!: find_Some_mem split: if_splits option.splits)

lemma find_map_replace:
  "List.find (\<lambda>x. key x = i) xs = Some a \<Longrightarrow> key b = i \<Longrightarrow>
   List.find (\<lambda>x. key x = i) (replace_by key b xs) = Some b"
  by (induction xs) (auto simp: replace_by_def split: if_splits)

lemma started_attempt:
  assumes "applyStepCommand stepRun (StartAttemptEffect attemptId) x = Inr t"
    and "scx_replayProof x = None"
  shows "map_option at_state (targetAttempt stepRun attemptId) = Some A_claimed"
    "map_option at_state (targetAttempt (tr_aggregate t) attemptId) = Some A_in_flight"
proof -
  obtain p where p: "startAttemptEffect stepRun attemptId (scx_occurredAt x) = Inr p"
    and t: "sr_attempts (tr_aggregate t) = sp_attempts p"
    by (rule applyStepCommand_plan [OF assms]) simp
  then obtain a where a: "matchingActiveAttempt stepRun attemptId = Some a" "at_state a = A_claimed"
    and sp: "sp_attempts p = replaceAttempt stepRun
      (a\<lparr>at_effectStartedAt := Some (scx_occurredAt x), at_state := A_in_flight\<rparr>)"
    by (auto simp: startAttemptEffect_def require_attempt_def step_invalidTransition_def Let_def
        split: option.splits if_splits)
  then have active: "activeAttempt stepRun = Some a" and id: "at_attemptId a = attemptId"
    by (auto simp: matchingActiveAttempt_def split: option.splits if_splits)
  then have "sr_activeAttemptId stepRun = Some attemptId"
    using find_Some_mem unfolding activeAttempt_def by fastforce
  then have found: "targetAttempt stepRun attemptId = Some a" "at_attemptId a = attemptId"
    using active id by (simp_all add: activeAttempt_def targetAttempt_def)
  show "map_option at_state (targetAttempt stepRun attemptId) = Some A_claimed"
    using found(1) a(2) by simp
  show "map_option at_state (targetAttempt (tr_aggregate t) attemptId) = Some A_in_flight"
    using found unfolding targetAttempt_def t sp replaceAttempt_def by (simp add: find_map_replace)
qed

lemma granted_kind:
  "effectPermission kind replayed = Permission_granted \<longleftrightarrow> kind = T_StartAttemptEffect \<and> \<not> replayed"
  by (simp add: effectPermission_def)

lemma start_kind: "request_type request = T_StartAttemptEffect \<longleftrightarrow> request = Req_StartAttemptEffect"
  by (cases request) simp_all

lemma granted_is_fresh:
  assumes "outcome_of (transitionStepAttempt ports inp) = Returned (Inr s)"
    and "tx_effectPermission s = Permission_granted"
  shows "\<not> tx_replayed s"
proof -
  obtain identity where "outcome_of (executeTransition ports inp identity) = Returned (Inr s)"
    using assms(1) transition_runs [OF assms(1)] by auto
  then show ?thesis
  proof (rule execute_accepted, goal_cases)
    case (1 found stepRun attempt command)
    then show ?case
      using assms(2)
      by (auto simp: granted_kind dest: replayed_flag split: option.splits elim!: fresh_accepted)
  qed
qed

text \<open>
  C4. The permission to perform an external effect is given only to the request that starts the effect
  of a claimed attempt, not found in the journal, by the subject of the authority, while the run is
  running, before both deadlines, with the required permission and with a capability for the node
  of the step; the step that is stored has that attempt in flight.
\<close>

theorem effect_permission_granted:
  assumes "outcome_of (transitionStepAttempt ports inp) = Returned (Inr s)"
    and "tx_effectPermission s = Permission_granted"
  shows "ti_request inp = Req_StartAttemptEffect \<and>
    pt_proof ports (ti_workspaceId inp) (ti_stepRunId inp) (ti_commandIdempotencyKey inp) = None \<and>
    (\<exists>found stepRun. pt_context ports (ti_workspaceId inp) (ti_stepRunId inp) = Some found \<and>
      sx_stepRun found = Some stepRun \<and>
      ae_subjectActorId (pl_authority (sx_plan found)) = ti_actorId inp \<and>
      run.run_state (sx_run found) = R_running \<and>
      \<not> js_ge (pt_now ports) (pl_deadline (sx_plan found)) \<and>
      \<not> js_ge (pt_now ports) (ae_deadline (pl_authority (sx_plan found))) \<and>
      pt_requiredPermission ports \<in> set (ae_permissions (pl_authority (sx_plan found))) \<and>
      (\<exists>node \<in> set (cw_nodes (pl_compiledWorkflow (sx_plan found))).
         cn_key node = sr_nodeKey stepRun \<and>
         (\<exists>capability \<in> set (ae_capabilities (pl_authority (sx_plan found))).
            capabilityMatches capability (cn_capability node))) \<and>
      map_option at_state (targetAttempt stepRun (ti_attemptId inp)) = Some A_claimed \<and>
      map_option at_state (targetAttempt (tx_stepRun s) (ti_attemptId inp)) = Some A_in_flight \<and>
      Update_step (ti_workspaceId inp) (sr_aggregateVersion stepRun) (tx_stepRun s)
        \<in> set (trace_of (transitionStepAttempt ports inp)))"
proof (rule transition_accepted [OF assms(1) granted_is_fresh [OF assms]], goal_cases)
  case (1 hash found stepRun attempt)
  note read = 1
  show ?case
  proof (rule fresh_accepted [OF read(7)], goal_cases)
    case (1 command retry applied durable t)
    have start: "ti_request inp = Req_StartAttemptEffect"
      using assms(2) 1(7) granted_kind start_kind by simp
    have durable: "durable = StartAttemptEffect (ti_attemptId inp)"
      using 1(5) start by (simp add: toCommand_def)
    note started = started_attempt [OF 1(6) [unfolded durable]]
    have window: "validateExecutionWindow found (pt_now ports) (pt_requiredPermission ports) = None"
      using 1(2) start by (simp add: gated_window_def)
    have subject: "ae_subjectActorId (pl_authority (sx_plan found)) = ti_actorId inp"
      using 1(1) by (simp add: validateAuthorityIdentity_def Let_def split: if_splits)
    have stored: "Update_step (ti_workspaceId inp) (sr_aggregateVersion stepRun) (tx_stepRun s)
        \<in> set (trace_of (transitionStepAttempt ports inp))"
      unfolding read(8) 1(8) persist_trace using 1(7) by simp
    show ?case
      using start read(3,4,6) window_open [OF window read(4)] subject started stored 1(7)
      by (simp add: fresh_context_def transition_context_def)
  qed
qed

section \<open>A repeated command\<close>

lemma replace_by_keys: "key ` set (replace_by key y xs) = key ` set xs"
  using map_key_replace_by [of key y xs] by (metis list.set_map)

lemma planned_attempts_kept:
  assumes "step_planTransition stepRun command now = Inr p"
  shows "at_attemptId ` set (sr_attempts stepRun) \<subseteq> at_attemptId ` set (sp_attempts p)"
  using assms
  by (cases command)
    (auto simp: step_plan_defs claimAttempt_def resolveAttemptAmbiguity_def replaceAttempt_def
      replace_by_keys split: option.splits if_splits settlement_proof.splits list.splits)

lemma target_kept:
  assumes "applyStepCommand stepRun command x = Inr t" and "scx_replayProof x = None"
    and "targetAttempt stepRun i = Some attempt"
  shows "\<exists>attempt'. targetAttempt (tr_aggregate t) i = Some attempt'"
proof -
  obtain p where p: "step_planTransition stepRun command (scx_occurredAt x) = Inr p"
    and t: "sr_attempts (tr_aggregate t) = sp_attempts p"
    by (rule applyStepCommand_plan [OF assms(1,2)])
  have "i \<in> at_attemptId ` set (sr_attempts stepRun)"
    using find_Some_mem [OF assms(3) [unfolded targetAttempt_def]] by blast
  then have "i \<in> at_attemptId ` set (sr_attempts (tr_aggregate t))"
    using planned_attempts_kept [OF p] t by auto
  then show ?thesis unfolding targetAttempt_def by (cases "List.find (\<lambda>a. at_attemptId a = i) (sr_attempts (tr_aggregate t))")
    (auto simp: find_None_iff)
qed

lemma step_identity_kept:
  assumes "applyStepCommand stepRun command x = Inr t" and "scx_replayProof x = None"
  shows "sr_stepRunId (tr_aggregate t) = sr_stepRunId stepRun"
    "sr_workspaceId (tr_aggregate t) = sr_workspaceId stepRun"
  by (rule applyStepCommand_fresh [OF assms], simp)+

text \<open>What the first run of a command leaves for the second one.\<close>

lemma first_run_left:
  assumes "outcome_of (transitionStepAttempt ports inp) = Returned (Inr s)" "\<not> tx_replayed s"
    and "\<forall>found stepRun.
      pt_context ports (ti_workspaceId inp) (ti_stepRunId inp) = Some found \<longrightarrow>
      sx_stepRun found = Some stepRun \<longrightarrow>
      sr_stepRunId stepRun = ti_stepRunId inp \<and> sr_workspaceId stepRun = ti_workspaceId inp"
    and "Insert_proof (ti_workspaceId inp) entry (ti_actorId inp) (ti_correlationId inp)
         \<in> set (trace_of (transitionStepAttempt ports inp))"
  shows "\<exists>attempt. targetAttempt (tx_stepRun s) (ti_attemptId inp) = Some attempt"
    "sr_stepRunId (tx_stepRun s) = ti_stepRunId inp"
    "sr_workspaceId (tx_stepRun s) = ti_workspaceId inp"
    "\<exists>hash. commandHash (pt_sha256 ports) inp = Some hash \<and>
       validateSettlement (pt_sha256 ports) inp = Some None \<and>
       entry = \<lparr>srp_actorId = ti_actorId inp, srp_commandType = request_type (ti_request inp),
         srp_identity = \<lparr>sci_commandHash = hash, sci_idempotencyKey = ti_commandIdempotencyKey inp\<rparr>,
         srp_stepRunId = ti_stepRunId inp, srp_workspaceId = ti_workspaceId inp\<rparr>"
proof (atomize (full), rule transition_accepted [OF assms(1,2)], goal_cases)
  case (1 hash found stepRun attempt)
  note read = 1
  show ?case
  proof (rule fresh_accepted [OF read(7)], goal_cases)
    case (1 command retry applied durable t)
    have fresh: "scx_replayProof (fresh_context ports inp
        \<lparr>sci_commandHash = hash, sci_idempotencyKey = ti_commandIdempotencyKey inp\<rparr> command) = None"
      by (simp add: fresh_context_def transition_context_def)
    have "entry = \<lparr>srp_actorId = ti_actorId inp, srp_commandType = request_type (ti_request inp),
         srp_identity = \<lparr>sci_commandHash = hash, sci_idempotencyKey = ti_commandIdempotencyKey inp\<rparr>,
         srp_stepRunId = ti_stepRunId inp, srp_workspaceId = ti_workspaceId inp\<rparr>"
    proof -
      have "Insert_proof (ti_workspaceId inp) entry (ti_actorId inp) (ti_correlationId inp)
         \<in> set (filter writes_step (trace_of (transitionStepAttempt ports inp)))"
        using assms(4) by simp
      then show ?thesis unfolding read(8) 1(8) by (auto simp: no_step_writes persist_step_writes)
    qed
    then show ?case
      using target_kept [OF 1(6) fresh read(5)] step_identity_kept [OF 1(6) fresh]
        assms(3) [rule_format, OF read(3,4)] 1(7) read(1,2) by simp
  qed
qed

lemma accepted_journal:
  assumes "outcome_of (transitionStepAttempt ports inp) = Returned (Inr s)" "\<not> tx_replayed s"
    and "commandHash (pt_sha256 ports) inp = Some hash"
  shows "Insert_proof (ti_workspaceId inp)
      \<lparr>srp_actorId = ti_actorId inp, srp_commandType = request_type (ti_request inp),
       srp_identity = \<lparr>sci_commandHash = hash, sci_idempotencyKey = ti_commandIdempotencyKey inp\<rparr>,
       srp_stepRunId = ti_stepRunId inp, srp_workspaceId = ti_workspaceId inp\<rparr>
      (ti_actorId inp) (ti_correlationId inp)
    \<in> set (trace_of (transitionStepAttempt ports inp))"
proof (rule transition_accepted [OF assms(1,2)], goal_cases)
  case (1 hash' found stepRun attempt)
  note read = 1
  show ?case
  proof (rule fresh_accepted [OF read(7)], goal_cases)
    case (1 command retry applied durable t)
    then show ?case using read(1) assms(3) unfolding read(8) 1(8) persist_trace by simp
  qed
qed

text \<open>
  C5. A request that was accepted once can be repeated: against the step and the journal entry that it
  left, the same request answers with that step, marked as replayed and without a permission to
  perform the effect again, and it writes nothing but the follow-up requests for scheduling and
  routing.
\<close>

theorem repeated_transition_replays:
  assumes first_run: "outcome_of (transitionStepAttempt ports inp) = Returned (Inr s)"
      "\<not> tx_replayed s"
    and keyed: "\<forall>found stepRun.
      pt_context ports (ti_workspaceId inp) (ti_stepRunId inp) = Some found \<longrightarrow>
      sx_stepRun found = Some stepRun \<longrightarrow>
      sr_stepRunId stepRun = ti_stepRunId inp \<and> sr_workspaceId stepRun = ti_workspaceId inp"
    and stored: "pt_context later (ti_workspaceId inp) (ti_stepRunId inp) = Some found'"
      "sx_stepRun found' = Some (tx_stepRun s)"
      "pt_proof later (ti_workspaceId inp) (ti_stepRunId inp) (ti_commandIdempotencyKey inp) = Some entry"
      "Insert_proof (ti_workspaceId inp) entry (ti_actorId inp) (ti_correlationId inp)
         \<in> set (trace_of (transitionStepAttempt ports inp))"
    and hash: "pt_sha256 later = pt_sha256 ports"
  shows "outcome_of (transitionStepAttempt later inp) = Returned (Inr
      \<lparr>tx_effectPermission = (if ti_request inp = Req_StartAttemptEffect
         then Permission_replay_only else Permission_not_applicable),
       tx_replayed = True, tx_settlementStatus = None, tx_stepRun = tx_stepRun s\<rparr>) \<and>
    trace_of (transitionStepAttempt later inp) =
      [Get_context (ti_workspaceId inp) (ti_stepRunId inp),
       Find_proof (ti_workspaceId inp) (ti_stepRunId inp) (ti_commandIdempotencyKey inp)] @
      (if isTerminalStepRun (tx_stepRun s)
       then [Request_schedule (ti_workspaceId inp) (sr_runId (tx_stepRun s))] else []) @
      (if sr_state (tx_stepRun s) = S_ready
       then [Request_routing (ti_workspaceId inp) (sr_stepRunId (tx_stepRun s))] else [])"
proof -
  note left = first_run_left [OF first_run keyed stored(4)]
  obtain h where h: "commandHash (pt_sha256 ports) inp = Some h"
    "validateSettlement (pt_sha256 ports) inp = Some None"
    and entry: "entry = \<lparr>srp_actorId = ti_actorId inp, srp_commandType = request_type (ti_request inp),
       srp_identity = \<lparr>sci_commandHash = h, sci_idempotencyKey = ti_commandIdempotencyKey inp\<rparr>,
       srp_stepRunId = ti_stepRunId inp, srp_workspaceId = ti_workspaceId inp\<rparr>"
    using left(4) by blast
  have same: "transitionStepAttempt later inp = executeTransition later inp
      \<lparr>sci_commandHash = h, sci_idempotencyKey = ti_commandIdempotencyKey inp\<rparr>"
    using h hash by (simp add: transitionStepAttempt_def)
  obtain attempt where attempt: "targetAttempt (tx_stepRun s) (ti_attemptId inp) = Some attempt"
    using left(1) by blast
  obtain command where command:
    "toCommand inp attempt (retry_capacity (sx_plan found') (tx_stepRun s)) None = Some command"
    using toCommand_total by blast
  have replay: "replayCommand (tx_stepRun s) inp command
      \<lparr>sci_commandHash = h, sci_idempotencyKey = ti_commandIdempotencyKey inp\<rparr> entry = Inr
      \<lparr>tx_effectPermission = (if ti_request inp = Req_StartAttemptEffect
         then Permission_replay_only else Permission_not_applicable),
       tx_replayed = True, tx_settlementStatus = None, tx_stepRun = tx_stepRun s\<rparr>"
    using left(2,3) toCommand_type [OF command]
    by (simp add: replayCommand_def applyStepCommand_def entry effectPermission_def start_kind)
  show "outcome_of (transitionStepAttempt later inp) = Returned (Inr
      \<lparr>tx_effectPermission = (if ti_request inp = Req_StartAttemptEffect
         then Permission_replay_only else Permission_not_applicable),
       tx_replayed = True, tx_settlementStatus = None, tx_stepRun = tx_stepRun s\<rparr>) \<and>
    trace_of (transitionStepAttempt later inp) =
      [Get_context (ti_workspaceId inp) (ti_stepRunId inp),
       Find_proof (ti_workspaceId inp) (ti_stepRunId inp) (ti_commandIdempotencyKey inp)] @
      (if isTerminalStepRun (tx_stepRun s)
       then [Request_schedule (ti_workspaceId inp) (sr_runId (tx_stepRun s))] else []) @
      (if sr_state (tx_stepRun s) = S_ready
       then [Request_routing (ti_workspaceId inp) (sr_stepRunId (tx_stepRun s))] else [])"
    unfolding same execute_outcome execute_result_def Let_def
    by (simp add: stored attempt command replay requestDagSchedulingForTerminalStep_def
        requestRoutingForReadyStep_def)
qed

end
