(* ===== verification/Transition_Example.thy ===== *)
theory Transition_Example
  imports Transition_Properties Run_Properties Canonical_Properties
begin

text \<open>
  The properties of the transition use case on an example: the effect of the claimed
  attempt of a step is started, once.
\<close>

section \<open>Example\<close>

definition ex_transition :: transition_input where
  "ex_transition =
     \<lparr>ti_actorId = lit ''actor'', ti_attemptId = lit ''att'', ti_commandIdempotencyKey = lit ''k2'',
      ti_correlationId = lit ''corr'', ti_expectedAggregateVersion = num 2,
      ti_request = Req_StartAttemptEffect, ti_stepRunId = lit ''step'', ti_workspaceId = lit ''ws''\<rparr>"

definition ex_digest :: "byte list \<Rightarrow> jstring" where
  "ex_digest bytes = replicate 64 48"

definition ex_identity :: step_command_identity where
  "ex_identity =
     \<lparr>sci_commandHash = lit ''sha256:'' @ replicate 64 48, sci_idempotencyKey = lit ''k2''\<rparr>"

definition ex_entry_of_start :: step_replay_proof where
  "ex_entry_of_start =
     \<lparr>srp_actorId = lit ''actor'', srp_commandType = T_StartAttemptEffect, srp_identity = ex_identity,
      srp_stepRunId = lit ''step'', srp_workspaceId = lit ''ws''\<rparr>"

text \<open>The ports before the command, and after it: the step and the journal entry are stored.\<close>

definition ex_ports :: "step_run \<Rightarrow> step_replay_proof option \<Rightarrow> js_number \<Rightarrow> transition_ports" where
  "ex_ports stepRun entry now =
     \<lparr>pt_context = (\<lambda>w i. Some \<lparr>sx_plan = ex_plan, sx_run = ex_run R_running 2 2, sx_stepRun = Some stepRun\<rparr>),
      pt_proof = (\<lambda>w i k. entry), pt_now = now, pt_eventId = (\<lambda>n. 101 # replicate n 49),
      pt_parents = None, pt_release = (\<lambda>w r. Release_conflict), pt_settle = (\<lambda>w u. Settle_conflict),
      pt_requiredPermission = lit ''run'', pt_sha256 = ex_digest\<rparr>"

definition ex_before :: transition_ports where
  "ex_before = ex_ports (ex_step_at 2 4 S_active A_claimed) None (num 20)"

definition ex_after :: transition_ports where
  "ex_after = ex_ports (ex_step_at 3 5 S_active A_in_flight) (Some ex_entry_of_start) (num 30)"

definition ex_late :: transition_ports where
  "ex_late = ex_ports (ex_step_at 2 4 S_active A_claimed) None (num 1000)"

definition ex_granted :: transition_success where
  "ex_granted =
     \<lparr>tx_effectPermission = Permission_granted, tx_replayed = False, tx_settlementStatus = None,
      tx_stepRun = ex_step_at 3 5 S_active A_in_flight\<rparr>"

definition ex_found :: "step_run \<Rightarrow> step_execution_context" where
  "ex_found stepRun = \<lparr>sx_plan = ex_plan, sx_run = ex_run R_running 2 2, sx_stepRun = Some stepRun\<rparr>"

lemma ex_ports_fields [simp]:
  "pt_context (ex_ports stepRun entry now) w i = Some (ex_found stepRun)"
  "pt_proof (ex_ports stepRun entry now) w i k = entry" "pt_now (ex_ports stepRun entry now) = now"
  "pt_parents (ex_ports stepRun entry now) = None"
  "pt_requiredPermission (ex_ports stepRun entry now) = lit ''run''"
  "pt_sha256 (ex_ports stepRun entry now) = ex_digest"
  by (simp_all add: ex_ports_def ex_found_def)

lemma ex_found_fields [simp]:
  "sx_stepRun (ex_found stepRun) = Some stepRun" "sx_plan (ex_found stepRun) = ex_plan"
  by (simp_all add: ex_found_def)

lemma ex_transition_fields [simp]:
  "ti_actorId ex_transition = lit ''actor''" "ti_attemptId ex_transition = lit ''att''"
  "ti_correlationId ex_transition = lit ''corr''" "ti_commandIdempotencyKey ex_transition = lit ''k2''"
  "ti_request ex_transition = Req_StartAttemptEffect" "ti_stepRunId ex_transition = lit ''step''"
  "ti_workspaceId ex_transition = lit ''ws''" "ti_expectedAggregateVersion ex_transition = num 2"
  by (simp_all add: ex_transition_def)

lemma ex_command_hash: "commandHash ex_digest ex_transition = Some (sci_commandHash ex_identity)"
proof -
  have "canonicalContentHash ex_digest = canonicalContentHash (\<lambda>bytes. replicate 64 48)"
    by (rule arg_cong [of _ _ canonicalContentHash]) (simp add: ex_digest_def fun_eq_iff)
  then show ?thesis by (simp add: commandHash_def hashableCommand_def zero_hash ex_identity_def)
qed

lemma ex_settles: "validateSettlement ex_digest ex_transition = Some None"
  by (simp add: validateSettlement_def settlementOf_def outputOf_def)

lemma ex_windows:
  "sci_idempotencyKey ex_identity = lit ''k2''"
  "validateAuthorityIdentity (ex_found (ex_step_at 2 4 S_active A_claimed)) (lit ''actor'') = None"
  "validateFreshTransitionContext (ex_found (ex_step_at 2 4 S_active A_claimed))
     (ex_attempt A_claimed) ex_transition = None"
  "targetAttempt (ex_step_at 2 4 S_active A_claimed) (lit ''att'') = Some (ex_attempt A_claimed)"
  "gated_window (ex_found (ex_step_at 2 4 S_active A_claimed)) (num 20) (lit ''run'')
     Req_StartAttemptEffect retry = None"
  "gated_window (ex_found (ex_step_at 2 4 S_active A_claimed)) (num 1000) (lit ''run'')
     Req_StartAttemptEffect retry = Some (failure_code TF_deadline_elapsed)"
  by code_simp+

lemmas ex_checks = ex_settles ex_command_hash ex_windows

lemma ex_no_settlement: "outcome_of (settleReservation ports ex_transition stepRun attempt now) =
    Returned (Inr \<lparr>aps_proof = None, aps_status = None\<rparr>)"
  by (simp add: settleReservation_def settlementOf_def)

lemma ex_command: "toCommand ex_transition attempt retry durable = Some (StartAttemptEffect (lit ''att''))"
  by (simp add: toCommand_def)

lemma ex_applied:
  "\<exists>events. applyStepCommand (ex_step_at 2 4 S_active A_claimed) (StartAttemptEffect (lit ''att''))
     (fresh_context ex_before ex_transition ex_identity (StartAttemptEffect (lit ''att''))) =
   Inr \<lparr>tr_aggregate = ex_step_at 3 5 S_active A_in_flight, tr_events = events, tr_replayed = False\<rparr>"
  by (simp add: fresh_context_def transition_context_def ex_before_def step_op_defs ex_step_defs lit_def)

lemma ex_runs: "transitionStepAttempt (ex_ports stepRun entry now) ex_transition =
    executeTransition (ex_ports stepRun entry now) ex_transition ex_identity"
  unfolding transitionStepAttempt_def by (simp add: ex_checks(1,2)) (simp add: ex_identity_def)

lemma ex_granted: "outcome_of (transitionStepAttempt ex_before ex_transition) = Returned (Inr ex_granted)"
proof -
  obtain events where applied:
    "applyStepCommand (ex_step_at 2 4 S_active A_claimed) (StartAttemptEffect (lit ''att''))
     (fresh_context ex_before ex_transition ex_identity (StartAttemptEffect (lit ''att''))) =
     Inr \<lparr>tr_aggregate = ex_step_at 3 5 S_active A_in_flight, tr_events = events, tr_replayed = False\<rparr>"
    using ex_applied by blast
  have "scx_occurredAt (fresh_context ex_before ex_transition ex_identity (StartAttemptEffect (lit ''att''))) = num 20"
    by (simp add: fresh_context_def transition_context_def ex_before_def)
  with applied show ?thesis
    unfolding ex_before_def ex_runs execute_outcome
    by (simp add: execute_result_def fresh_result_def Let_def ex_checks ex_command ex_no_settlement
        projectParentEffect_def finish_outcome ex_granted_def effectPermission_def)
qed

lemma ex_late: "outcome_of (transitionStepAttempt ex_late ex_transition) =
  Returned (Inl (failure_code TF_deadline_elapsed))"
  unfolding ex_late_def ex_runs execute_outcome
  by (simp add: execute_result_def fresh_result_def Let_def ex_checks)

lemma ex_journalled: "Insert_proof (lit ''ws'') ex_entry_of_start (lit ''actor'') (lit ''corr'')
    \<in> set (trace_of (transitionStepAttempt ex_before ex_transition))"
  using accepted_journal [OF ex_granted, of "sci_commandHash ex_identity"]
  by (simp add: ex_granted_def ex_before_def ex_checks(2) ex_entry_of_start_def)
    (simp add: ex_identity_def)


section \<open>Witnesses\<close>

theorem refused_transition_stores_nothing_witness:
  "list_all (refused_call ex_late) (trace_of (transitionStepAttempt ex_late ex_transition))"
  by (rule refused_transition_stores_nothing [OF ex_late])

theorem accepted_transition_stores_witness:
  "\<exists>events. filter writes_step (trace_of (transitionStepAttempt ex_before ex_transition)) =
     Update_step (lit ''ws'') (num 2) (ex_step_at 3 5 S_active A_in_flight) #
     map (Append_event (lit ''ws'')) events @
     [Insert_proof (lit ''ws'') ex_entry_of_start (lit ''actor'') (lit ''corr'')]"
proof -
  have "\<not> tx_replayed ex_granted" by (simp add: ex_granted_def)
  from accepted_transition_stores [OF ex_granted this] show ?thesis
    by (auto simp: ex_before_def ex_checks(2) ex_granted_def ex_entry_of_start_def ex_identity_def
        ex_step_at_def dest: sym)
qed

theorem effect_permission_granted_witness:
  "Update_step (lit ''ws'') (num 2) (ex_step_at 3 5 S_active A_in_flight)
     \<in> set (trace_of (transitionStepAttempt ex_before ex_transition))"
proof -
  have "tx_effectPermission ex_granted = Permission_granted" by (simp add: ex_granted_def)
  from effect_permission_granted [OF ex_granted this] show ?thesis
    by (auto simp: ex_before_def ex_granted_def ex_step_at_def)
qed

theorem repeated_transition_replays_witness:
  "outcome_of (transitionStepAttempt ex_after ex_transition) = Returned (Inr
     (ex_granted\<lparr>tx_effectPermission := Permission_replay_only, tx_replayed := True\<rparr>)) \<and>
   trace_of (transitionStepAttempt ex_after ex_transition) =
     [Get_context (lit ''ws'') (lit ''step''), Find_proof (lit ''ws'') (lit ''step'') (lit ''k2'')]"
proof -
  have fresh: "\<not> tx_replayed ex_granted" by (simp add: ex_granted_def)
  have keyed: "\<forall>found stepRun.
      pt_context ex_before (ti_workspaceId ex_transition) (ti_stepRunId ex_transition) = Some found \<longrightarrow>
      sx_stepRun found = Some stepRun \<longrightarrow>
      sr_stepRunId stepRun = ti_stepRunId ex_transition \<and>
      sr_workspaceId stepRun = ti_workspaceId ex_transition"
    by (auto simp: ex_before_def ex_step_at_def ex_step_def)
  note again = repeated_transition_replays [OF ex_granted fresh keyed,
      of ex_after "ex_found (tx_stepRun ex_granted)" ex_entry_of_start]
  have state: "sr_state (tx_stepRun ex_granted) = S_active"
    by (simp add: ex_granted_def ex_step_at_def)
  have after: "pt_context ex_after w i = Some (ex_found (tx_stepRun ex_granted))"
    "pt_proof ex_after w i k = Some ex_entry_of_start" "pt_sha256 ex_after = pt_sha256 ex_before" for w i k
    by (simp_all add: ex_after_def ex_before_def ex_granted_def)
  show ?thesis
    using again after ex_journalled state by (simp add: isTerminalStepRun_def ex_granted_def)
qed

end
