(* ===== verification/Cell_Projection.thy ===== *)
theory Cell_Projection
  imports Port_Trace Cell_Result Result_Manifest Canonical_Content
begin

text \<open>
  \<open>application/src/project-cell-result.ts\<close>: the result of a cell as its run and the manifest of
  the run prove it. The payload of the output is a value of any shape; only a bounded envelope
  with the hash of the accepted artifact is projected.
\<close>

section \<open>The envelope of an output\<close>

definition MAX_REFERENCE_COUNT :: nat where "MAX_REFERENCE_COUNT = 32"
definition MAX_REFERENCE_LENGTH :: nat where "MAX_REFERENCE_LENGTH = 2048"

definition FORBIDDEN_KEYS :: "jstring list" where
  "FORBIDDEN_KEYS = [lit ''__proto__'', lit ''constructor'', lit ''prototype'']"

definition SINK_KEYS :: "jstring list" where
  "SINK_KEYS = [lit ''confidence'', lit ''freshness'', lit ''provenance'', lit ''value'']"

definition FRESHNESS_KEYS :: "jstring list" where
  "FRESHNESS_KEYS = [lit ''expiresAt'', lit ''observedAt'']"

definition PROVENANCE_KEYS :: "jstring list" where
  "PROVENANCE_KEYS = [lit ''references'']"

text \<open>The loop over the characters of the text, which stops at the bound.\<close>

definition codePointLengthAtMost :: "jstring \<Rightarrow> nat \<Rightarrow> bool" where
  "codePointLengthAtMost s maximum \<longleftrightarrow> \<not> length s > maximum * 2 \<and> code_points s \<le> maximum"

text \<open>The descriptors of a plain object with only allowed keys are its properties.\<close>

definition plainDataDescriptors ::
  "js_value \<Rightarrow> jstring list \<Rightarrow> (jstring \<times> js_value) list option" where
  "plainDataDescriptors v allowedKeys =
     (if \<not> is_plain_object v then None
      else if list_ex (\<lambda>(key, _). key \<in> set FORBIDDEN_KEYS \<or> key \<notin> set allowedKeys) (own_property_list v)
      then None else Some (own_property_list v))"

text \<open>\<open>isBoundedScalar\<close> as a type guard: the scalar that the value is.\<close>

definition bounded_scalar :: "js_value \<Rightarrow> scalar_value option" where
  "bounded_scalar v =
     (case v of
        V_null \<Rightarrow> Some VNull
      | V_boolean b \<Rightarrow> Some (VBool b)
      | V_string s \<Rightarrow>
          if codePointLengthAtMost s MAX_SCALAR_STRING_LENGTH then Some (VString s) else None
      | V_number x \<Rightarrow>
          if is_finite x \<and> js_ge x (num (- MAX_SCALAR_NUMBER)) \<and> js_le x (num MAX_SCALAR_NUMBER)
          then Some (VNumber x) else None
      | _ \<Rightarrow> None)"

text \<open>One reference of the array.\<close>

definition parse_reference :: "js_value \<Rightarrow> jstring option" where
  "parse_reference v =
     (case v of
        V_string s \<Rightarrow> if blank s \<or> \<not> codePointLengthAtMost s MAX_REFERENCE_LENGTH then None else Some s
      | _ \<Rightarrow> None)"

definition parseReferences :: "js_value \<Rightarrow> jstring list option" where
  "parseReferences v =
     (case v of
        V_array vs \<Rightarrow>
          if length vs = 0 \<or> length vs > MAX_REFERENCE_COUNT then None
          else (case all_some (map parse_reference vs) of
              None \<Rightarrow> None
            | Some references \<Rightarrow>
                if set_size references = length references then Some references else None)
      | _ \<Rightarrow> None)"

definition parseProvenance :: "js_value \<Rightarrow> jstring list option" where
  "parseProvenance v =
     (case plainDataDescriptors v PROVENANCE_KEYS of
        None \<Rightarrow> None
      | Some descriptors \<Rightarrow>
          (case map_of descriptors (lit ''references'') of
             None \<Rightarrow> None
           | Some references \<Rightarrow> parseReferences references))"

text \<open>\<open>Number.isSafeInteger(v)\<close> and the number.\<close>

definition safe_number :: "js_value \<Rightarrow> js_number option" where
  "safe_number v = (case v of V_number x \<Rightarrow> if is_safe_integer x then Some x else None | _ \<Rightarrow> None)"

definition parseFreshness :: "js_value \<Rightarrow> cell_freshness option" where
  "parseFreshness v =
     (case plainDataDescriptors v FRESHNESS_KEYS of
        None \<Rightarrow> None
      | Some descriptors \<Rightarrow>
          (case map_of descriptors (lit ''observedAt'') of
             None \<Rightarrow> None
           | Some observedAt \<Rightarrow>
               (case safe_number observedAt of
                  None \<Rightarrow> None
                | Some observed \<Rightarrow>
                    if js_lt observed (num 0) then None
                    else (case map_of descriptors (lit ''expiresAt'') of
                        None \<Rightarrow> Some \<lparr>fr_observedAt = observed, fr_expiresAt = None\<rparr>
                      | Some expiresAt \<Rightarrow>
                          (case safe_number expiresAt of
                             None \<Rightarrow> None
                           | Some expires \<Rightarrow>
                               if js_lt expires observed then None
                               else Some \<lparr>fr_observedAt = observed, fr_expiresAt = Some expires\<rparr>)))))"

definition parse_confidence :: "js_value \<Rightarrow> js_number option" where
  "parse_confidence v =
     (case v of
        V_number x \<Rightarrow> if \<not> is_finite x \<or> js_lt x (num 0) \<or> js_gt x (num 1) then None else Some x
      | _ \<Rightarrow> None)"

record sink_envelope =
  se_confidence :: "js_number option"
  se_freshness :: "cell_freshness option"
  se_provenance :: "jstring list option"
  se_value :: scalar_value

text \<open>
  A member that is claimed must parse: \<open>None\<close> when it is claimed and does not, \<open>Some None\<close> when
  it is not claimed.
\<close>

definition claimed ::
  "(jstring \<times> js_value) list \<Rightarrow> jstring \<Rightarrow> (js_value \<Rightarrow> 'a option) \<Rightarrow> 'a option option" where
  "claimed descriptors key parse =
     (case map_of descriptors key of
        None \<Rightarrow> Some None
      | Some v \<Rightarrow> (case parse v of None \<Rightarrow> None | Some a \<Rightarrow> Some (Some a)))"

definition parseSinkEnvelope :: "js_value \<Rightarrow> sink_envelope option" where
  "parseSinkEnvelope v =
     do {
       descriptors \<leftarrow> plainDataDescriptors v SINK_KEYS;
       scalar \<leftarrow> Option.bind (map_of descriptors (lit ''value'')) bounded_scalar;
       provenance \<leftarrow> claimed descriptors (lit ''provenance'') parseProvenance;
       freshness \<leftarrow> claimed descriptors (lit ''freshness'') parseFreshness;
       confidence \<leftarrow> claimed descriptors (lit ''confidence'') parse_confidence;
       Some \<lparr>se_confidence = confidence, se_freshness = freshness, se_provenance = provenance,
         se_value = scalar\<rparr>
     }"

text \<open>The envelope as the value that is hashed.\<close>

fun scalar_js :: "scalar_value \<Rightarrow> js_value" where
  "scalar_js VNull = V_null"
| "scalar_js (VBool b) = V_boolean b"
| "scalar_js (VNumber x) = V_number x"
| "scalar_js (VString s) = V_string s"

definition optional_member :: "jstring \<Rightarrow> ('a \<Rightarrow> js_value) \<Rightarrow> 'a option \<Rightarrow> (jstring \<times> js_value) list" where
  "optional_member key f a = (case a of None \<Rightarrow> [] | Some b \<Rightarrow> [(key, f b)])"

definition freshness_js :: "cell_freshness \<Rightarrow> js_value" where
  "freshness_js f =
     V_object (optional_member (lit ''expiresAt'') V_number (fr_expiresAt f) @
       [(lit ''observedAt'', V_number (fr_observedAt f))])"

definition provenance_js :: "jstring list \<Rightarrow> js_value" where
  "provenance_js references = V_object [(lit ''references'', V_array (map V_string references))]"

definition envelope_js :: "sink_envelope \<Rightarrow> js_value" where
  "envelope_js e =
     V_object (optional_member (lit ''confidence'') V_number (se_confidence e) @
       optional_member (lit ''freshness'') freshness_js (se_freshness e) @
       optional_member (lit ''provenance'') provenance_js (se_provenance e) @
       [(lit ''value'', scalar_js (se_value e))])"


section \<open>The projection\<close>

record project_request =
  pr_current :: cell_result
  pr_dataset :: dataset
  pr_fields :: "field list"
  pr_manifest :: "result_manifest option"
  pr_payload :: "js_value option"
  pr_recipe :: enrichment_recipe
  pr_record :: data_record
  pr_run :: run

datatype project_failure =
    PF_cell_result_invalid product_failure
  | PF_run_binding_mismatch
  | PF_transition_rejected cell_transition_code
  | PF_result_manifest_mismatch
  | PF_result_manifest_missing
  | PF_sink_output_invalid
  | PF_sink_output_mismatch
  | PF_sink_output_missing
  | PF_sink_output_unexpected

definition same_ref :: "validated_output \<Rightarrow> validated_output \<Rightarrow> bool" where
  "same_ref l r \<longleftrightarrow>
     ar_artifactId (vo_artifact l) = ar_artifactId (vo_artifact r) \<and>
     ar_contentHash (vo_artifact l) = ar_contentHash (vo_artifact r) \<and>
     sameContract (vo_contract l) (vo_contract r)"

definition manifestMatchesRun :: "run \<Rightarrow> result_manifest \<Rightarrow> conclusion \<Rightarrow> bool" where
  "manifestMatchesRun run manifest expectedConclusion =
     (let body = mf_body manifest
      in if run_resultManifest run \<noteq> Some (resultManifestRef manifest) \<or>
            mb_workspaceId body \<noteq> run_workspaceId run \<or>
            mb_runId body \<noteq> run_runId run \<or>
            mb_runPlanId body \<noteq> run_runPlanId run \<or>
            mb_conclusion body \<noteq> expectedConclusion \<or>
            mb_resultCompleteness body \<noteq> run_resultCompleteness run \<or>
            \<not> js_eq (js_add (mb_sourceRunAggregateVersion body) (num 1)) (run_aggregateVersion run)
         then False
         else if expectedConclusion = C_completed
         then run_resultCompleteness run = RC_complete \<and>
           (case mb_output body of
              Missing _ \<Rightarrow> False
            | Accepted output \<Rightarrow>
                \<not> blank (vo_validatorVersion output) \<and>
                sameContract (vo_contract output) (mb_outputContract body) \<and>
                list_ex (\<lambda>entry. me_state entry = E_succeeded \<and>
                    (case me_result entry of
                       Accepted result \<Rightarrow> same_ref result output | Missing _ \<Rightarrow> False))
                  (mb_entries body))
         else mb_output body = Missing Run_failed \<and>
           list_ex (\<lambda>entry. me_state entry = E_failed) (mb_entries body))"

definition baseCellResult :: "cell_result \<Rightarrow> cell_result" where
  "baseCellResult current =
     \<lparr>ce_cellResultId = ce_cellResultId current, ce_datasetId = ce_datasetId current,
      ce_enrichmentRecipeId = ce_enrichmentRecipeId current, ce_fieldId = ce_fieldId current,
      ce_recipeRevision = ce_recipeRevision current, ce_recordId = ce_recordId current,
      ce_runId = ce_runId current, ce_status = ce_status current,
      ce_workspaceId = ce_workspaceId current, ce_confidence = Absent, ce_cost = Absent,
      ce_freshness = Absent, ce_provenance = Absent, ce_reason = Absent, ce_value = Absent\<rparr>"

definition manifest_cost :: "result_manifest \<Rightarrow> cell_cost" where
  "manifest_cost manifest =
     \<lparr>cc_amount = mc_spent (mb_cost (mf_body manifest)), cc_basis = Basis_exact,
      cc_unit = mc_unit (mb_cost (mf_body manifest))\<rparr>"

definition redacted_reason :: "string \<Rightarrow> string \<Rightarrow> cell_reason" where
  "redacted_reason code message =
     \<lparr>cre_code = lit code, cre_message = lit message, cre_retryable = False\<rparr>"

definition own_member :: "'a option \<Rightarrow> 'a own" where
  "own_member a = (case a of None \<Rightarrow> Absent | Some b \<Rightarrow> Present b)"

text \<open>The hash of content that cannot be serialized throws: then the result is \<open>Thrown\<close>.\<close>

definition completed_cell ::
  "(byte list \<Rightarrow> jstring) \<Rightarrow> project_request \<Rightarrow> result_manifest \<Rightarrow>
   (cell_result, project_failure) domain_result outcome" where
  "completed_cell sha256 request manifest =
     (case pr_payload request of
        None \<Rightarrow> Returned (fail PF_sink_output_missing)
      | Some body \<Rightarrow>
          if body = V_undefined then Returned (fail PF_sink_output_missing)
          else (case parseSinkEnvelope body of
             None \<Rightarrow> Returned (fail PF_sink_output_invalid)
           | Some parsed \<Rightarrow>
               (case mb_output (mf_body manifest) of
                  Missing _ \<Rightarrow> Returned (fail PF_sink_output_mismatch)
                | Accepted output \<Rightarrow>
                    (case canonicalContentHash sha256 (envelope_js parsed) of
                       None \<Rightarrow> Thrown
                     | Some hash \<Rightarrow>
                         if hash \<noteq> ar_contentHash (vo_artifact output)
                         then Returned (fail PF_sink_output_mismatch)
                         else Returned (succeed ((baseCellResult (pr_current request))
                           \<lparr>ce_confidence := own_member (se_confidence parsed),
                            ce_freshness := own_member (se_freshness parsed),
                            ce_provenance := own_member (se_provenance parsed),
                            ce_value := Present (se_value parsed),
                            ce_cost := Present (manifest_cost manifest),
                            ce_status := CS_succeeded\<rparr>))))))"

definition requestedForRun ::
  "(byte list \<Rightarrow> jstring) \<Rightarrow> project_request \<Rightarrow>
   (cell_result, project_failure) domain_result outcome" where
  "requestedForRun sha256 request =
     (let base = baseCellResult (pr_current request); run = pr_run request
      in if run_state run \<noteq> R_completed \<and> pr_payload request \<noteq> None
         then Returned (fail PF_sink_output_unexpected)
         else case run_state run of
             R_queued \<Rightarrow> Returned (succeed (base\<lparr>ce_status := CS_pending\<rparr>))
           | R_running \<Rightarrow> Returned (succeed (base\<lparr>ce_status := CS_running\<rparr>))
           | R_waiting \<Rightarrow> Returned (succeed (base\<lparr>ce_status := CS_running\<rparr>))
           | R_cancelling \<Rightarrow> Returned (succeed (base\<lparr>ce_status := CS_running\<rparr>))
           | R_ambiguous \<Rightarrow> Returned (succeed (base\<lparr>ce_status := CS_running\<rparr>))
           | R_cancelled \<Rightarrow> Returned (succeed (base\<lparr>ce_status := CS_skipped,
               ce_reason := Present
                 (redacted_reason ''run-cancelled'' ''The canonical run was cancelled.'')\<rparr>))
           | R_failed \<Rightarrow>
               (case pr_manifest request of
                  None \<Rightarrow> Returned (fail PF_result_manifest_missing)
                | Some manifest \<Rightarrow>
                    if \<not> manifestMatchesRun run manifest C_failed
                    then Returned (fail PF_result_manifest_mismatch)
                    else Returned (succeed (base\<lparr>ce_status := CS_failed,
                      ce_cost := Present (manifest_cost manifest),
                      ce_reason := Present
                        (redacted_reason ''run-failed'' ''The canonical run failed.'')\<rparr>)))
           | R_completed \<Rightarrow>
               (case pr_manifest request of
                  None \<Rightarrow> Returned (fail PF_result_manifest_missing)
                | Some manifest \<Rightarrow>
                    if \<not> manifestMatchesRun run manifest C_completed
                    then Returned (fail PF_result_manifest_mismatch)
                    else completed_cell sha256 request manifest))"

definition projectCellResult ::
  "(byte list \<Rightarrow> jstring) \<Rightarrow> project_request \<Rightarrow>
   (cell_transition, project_failure) domain_result outcome" where
  "projectCellResult sha256 request =
     (let validate = createCellResult (pr_dataset request) (pr_fields request) (pr_record request)
            (pr_recipe request);
          run = pr_run request
      in case validate (pr_current request) of
          Inl e \<Rightarrow> Returned (fail (PF_cell_result_invalid e))
        | Inr current \<Rightarrow>
            if run_workspaceId run \<noteq> ce_workspaceId current \<or> run_runId run \<noteq> ce_runId current
            then Returned (fail PF_run_binding_mismatch)
            else if run_state run \<noteq> R_completed \<and> run_state run \<noteq> R_failed \<and>
              (pr_manifest request \<noteq> None \<or> run_resultManifest run \<noteq> None)
            then Returned (fail PF_result_manifest_mismatch)
            else case requestedForRun sha256 request of
                Thrown \<Rightarrow> Thrown
              | Returned (Inl e) \<Rightarrow> Returned (fail e)
              | Returned (Inr requested) \<Rightarrow>
                  (case validate requested of
                     Inl e \<Rightarrow> Returned (fail (PF_cell_result_invalid e))
                   | Inr validated \<Rightarrow>
                       (case transitionCellResult current validated of
                          Inl e \<Rightarrow> Returned (fail (PF_transition_rejected (ctf_code e)))
                        | Inr transition \<Rightarrow> Returned (succeed transition))))"

end
