(* ===== verification/Cell_Projection_Properties.thy ===== *)
theory Cell_Projection_Properties
  imports Cell_Projection Canonical_Properties Convergence
begin

text \<open>
  What a projected result proves: the status follows the run, and a value comes from a payload
  that has the hash of the accepted artifact. The manifest of a convergence is always one that
  can be projected.
\<close>

section \<open>The hash of an envelope is the hash of its payload\<close>

text \<open>The text of an object depends on its properties only, not on their order.\<close>

lemma sort_distinct_keys:
  assumes "distinct (map fst kvs)"
  shows "sort_key fst kvs = map (\<lambda>k. (k, the (map_of kvs k))) (sorted_list_of_set (fst ` set kvs))"
proof -
  have keys: "map fst (sort_key fst kvs) = sorted_list_of_set (fst ` set kvs)"
    using assms by (intro sorted_distinct_set_unique) (auto simp: distinct_map distinct_sort)
  have "kv = (fst kv, the (map_of kvs (fst kv)))" if "kv \<in> set (sort_key fst kvs)" for kv
  proof -
    have "(fst kv, snd kv) \<in> set kvs" using that by simp
    then have "map_of kvs (fst kv) = Some (snd kv)" using assms by (intro map_of_is_SomeI)
    then show ?thesis by simp
  qed
  then have "sort_key fst kvs = map (\<lambda>kv. (fst kv, the (map_of kvs (fst kv)))) (sort_key fst kvs)"
    by (intro map_idI [symmetric]) metis
  also have "\<dots> = map (\<lambda>k. (k, the (map_of kvs k))) (map fst (sort_key fst kvs))" by simp
  finally show ?thesis unfolding keys .
qed

definition defined_keys :: "(jstring \<times> js_value) list \<Rightarrow> jstring set" where
  "defined_keys kvs = fst ` set (filter is_defined kvs)"

lemma serialize_object_cong:
  assumes "distinct (map fst kvs)" "distinct (map fst lvs)" and "defined_keys kvs = defined_keys lvs"
    and "\<And>k v w. (k, v) \<in> set kvs \<Longrightarrow> (k, w) \<in> set lvs \<Longrightarrow> serializeCanonical v = serializeCanonical w"
  shows "serializeCanonical (V_object kvs) = serializeCanonical (V_object lvs)"
proof -
  let ?D = "\<lambda>kvs. filter is_defined kvs"
  have d: "distinct (map fst (?D kvs))" "distinct (map fst (?D lvs))"
    using assms(1,2) by (simp_all add: distinct_map_filter)
  have each: "serializeCanonical (the (map_of (?D kvs) k)) = serializeCanonical (the (map_of (?D lvs) k))"
    if key: "k \<in> defined_keys kvs" for k
  proof -
    obtain v where v: "(k, v) \<in> set (?D kvs)" using key unfolding defined_keys_def by force
    obtain w where w: "(k, w) \<in> set (?D lvs)" using key assms(3) unfolding defined_keys_def by force
    show ?thesis
      using assms(4) [of k v w] v w d by (simp add: map_of_is_SomeI)
  qed
  have "map (\<lambda>(k, v). map_option (\<lambda>t. json_string k @ [58] @ t) (serializeCanonical v)) (canonical_entries kvs) =
    map (\<lambda>(k, v). map_option (\<lambda>t. json_string k @ [58] @ t) (serializeCanonical v)) (canonical_entries lvs)"
    unfolding canonical_entries_def sort_distinct_keys [OF d(1)] sort_distinct_keys [OF d(2)]
      assms(3) [unfolded defined_keys_def, symmetric]
    by (auto simp: defined_keys_def each [unfolded defined_keys_def])
  then show ?thesis by simp
qed

lemma serialize_array: "map serializeCanonical vs = map serializeCanonical ws \<Longrightarrow>
    serializeCanonical (V_array vs) = serializeCanonical (V_array ws)"
  by simp

lemma descriptors_object:
  "plainDataDescriptors v keys = Some kvs \<Longrightarrow> v = V_object kvs \<and> fst ` set kvs \<subseteq> set keys"
  by (cases v) (auto simp: plainDataDescriptors_def is_plain_object_def own_property_list_def
      list_ex_iff split: if_splits)

lemma bounded_scalar_js: "bounded_scalar v = Some s \<Longrightarrow> scalar_js s = v"
  by (cases v) (auto simp: bounded_scalar_def split: if_splits)

lemma bounded_scalar_bounded: "bounded_scalar v = Some s \<Longrightarrow> isBoundedScalar s"
  by (cases v) (auto simp: bounded_scalar_def codePointLengthAtMost_def split: if_splits)

lemma parse_references_js: "all_some (map parse_reference vs) = Some rs \<Longrightarrow> map V_string rs = vs"
  by (induction vs arbitrary: rs)
    (auto simp: parse_reference_def split: option.splits js_value.splits if_splits)

text \<open>A parsed member has the text of the member that it was parsed from.\<close>

lemma distinct_single_key:
  assumes "distinct (map fst kvs)" "fst ` set kvs \<subseteq> {k}" "map_of kvs k = Some v"
  shows "kvs = [(k, v)]"
proof -
  have mem: "(k, v) \<in> set kvs" using assms(3) by (rule map_of_SomeD)
  have "length kvs = card (fst ` set kvs)"
    using assms(1) by (metis distinct_card length_map list.set_map)
  also have "\<dots> \<le> card {k}" using assms(2) by (intro card_mono) auto
  finally have "length kvs \<le> 1" by simp
  then show ?thesis using mem by (cases kvs) auto
qed

lemma provenance_text:
  assumes "parseProvenance v = Some rs" and "proper_value v"
  shows "provenance_js rs = v"
proof -
  obtain kvs where kvs: "plainDataDescriptors v PROVENANCE_KEYS = Some kvs"
    using assms(1) by (auto simp: parseProvenance_def split: option.splits)
  obtain references where got: "map_of kvs (lit ''references'') = Some references"
    "parseReferences references = Some rs"
    using assms(1) kvs by (auto simp: parseProvenance_def split: option.splits)
  have v: "v = V_object kvs" "fst ` set kvs \<subseteq> {lit ''references''}"
    using descriptors_object [OF kvs] by (simp_all add: PROVENANCE_KEYS_def)
  have "kvs = [(lit ''references'', references)]"
    using distinct_single_key [OF _ v(2) got(1)] assms(2) v(1) by simp
  moreover have "references = V_array (map V_string rs)"
  proof (cases references)
    case (V_array vs)
    then have "all_some (map parse_reference vs) = Some rs"
      using got(2) by (simp add: parseReferences_def split: if_splits option.splits)
    then show ?thesis using parse_references_js V_array by blast
  qed (use got(2) in \<open>simp_all add: parseReferences_def\<close>)
  ultimately show ?thesis using v by (simp add: provenance_js_def)
qed

lemma safe_number_js: "safe_number v = Some x \<Longrightarrow> v = V_number x"
  by (cases v) (simp_all add: safe_number_def split: if_splits)

lemma parse_confidence_js: "parse_confidence v = Some x \<Longrightarrow> v = V_number x"
  by (cases v) (simp_all add: parse_confidence_def split: if_splits)

text \<open>
  An object read member by member: the members of the list have the text of those of the object,
  and the object has no others.
\<close>

definition reads_as :: "(jstring \<times> js_value) list \<Rightarrow> jstring \<times> js_value \<Rightarrow> bool" where
  "reads_as kvs = (\<lambda>(k, v). v \<noteq> V_undefined \<and>
     (case map_of kvs k of
        None \<Rightarrow> False | Some w \<Rightarrow> w \<noteq> V_undefined \<and> serializeCanonical w = serializeCanonical v))"

lemma object_text:
  assumes kvs: "distinct (map fst kvs)" "fst ` set kvs \<subseteq> set keys"
    and lvs: "distinct (map fst lvs)" "list_all (reads_as kvs) lvs"
    and others: "list_all (\<lambda>k. k \<in> fst ` set lvs \<or> map_of kvs k = None) keys"
  shows "serializeCanonical (V_object lvs) = serializeCanonical (V_object kvs)"
proof (rule serialize_object_cong [OF lvs(1) kvs(1)])
  have eq: "serializeCanonical v = serializeCanonical w \<and> v \<noteq> V_undefined \<and> w \<noteq> V_undefined"
    if "(k, v) \<in> set lvs" "(k, w) \<in> set kvs" for k v w
    using lvs(2) that map_of_is_SomeI [OF kvs(1) that(2)] by (force simp: list_all_iff reads_as_def)
  then show "(k, v) \<in> set lvs \<Longrightarrow> (k, w) \<in> set kvs \<Longrightarrow> serializeCanonical v = serializeCanonical w" for k v w
    by blast
  have there: "\<exists>w. (k, w) \<in> set kvs" if "(k, v) \<in> set lvs" for k v
    using lvs(2) that map_of_SomeD [of kvs k]
    by (force simp: list_all_iff reads_as_def split: option.splits)
  have read_back: "\<exists>v. (k, v) \<in> set lvs" if "(k, w) \<in> set kvs" for k w
  proof -
    have "map_of kvs k = Some w" using that by (rule map_of_is_SomeI [OF kvs(1)])
    moreover have "k \<in> set keys" using that kvs(2) by force
    ultimately show ?thesis using others by (force simp: list_all_iff)
  qed
  show "defined_keys lvs = defined_keys kvs"
  proof (intro set_eqI iffI)
    fix k
    assume "k \<in> defined_keys lvs"
    then obtain v w where "(k, v) \<in> set lvs" "(k, w) \<in> set kvs"
      using there unfolding defined_keys_def by force
    with eq show "k \<in> defined_keys kvs" unfolding defined_keys_def by (force simp: is_defined_def)
  next
    fix k
    assume "k \<in> defined_keys kvs"
    then obtain v w where "(k, v) \<in> set lvs" "(k, w) \<in> set kvs"
      using read_back unfolding defined_keys_def by force
    with eq show "k \<in> defined_keys lvs" unfolding defined_keys_def by (force simp: is_defined_def)
  qed
qed

lemma optional_member_simps [simp]:
  "optional_member k f None = []" "optional_member k f (Some b) = [(k, f b)]"
  by (simp_all add: optional_member_def)

lemma freshness_text:
  assumes "parseFreshness v = Some f" and "proper_value v"
  shows "serializeCanonical (freshness_js f) = serializeCanonical v"
proof -
  obtain kvs where kvs: "plainDataDescriptors v FRESHNESS_KEYS = Some kvs"
    using assms(1) by (auto simp: parseFreshness_def split: option.splits)
  have v: "v = V_object kvs" "fst ` set kvs \<subseteq> set FRESHNESS_KEYS"
    by (simp_all add: descriptors_object [OF kvs])
  have members: "map_of kvs (lit ''observedAt'') = Some (V_number (fr_observedAt f))"
    "map_of kvs (lit ''expiresAt'') = map_option V_number (fr_expiresAt f)"
    using assms(1) kvs
    by (auto simp: parseFreshness_def dest!: safe_number_js split: option.splits if_splits)
  show ?thesis
    unfolding v(1) freshness_js_def
  proof (rule object_text [OF _ v(2)])
    show "distinct (map fst kvs)" using assms(2) v(1) by simp
  qed (cases "fr_expiresAt f"; simp add: reads_as_def FRESHNESS_KEYS_def members)+
qed

lemma claimed_member:
  "claimed kvs k parse = Some a \<Longrightarrow>
   (case a of None \<Rightarrow> map_of kvs k = None | Some b \<Rightarrow> \<exists>v. map_of kvs k = Some v \<and> parse v = Some b)"
  by (cases a) (auto simp: claimed_def split: option.splits)

lemma proper_member: "proper_value (V_object kvs) \<Longrightarrow> map_of kvs k = Some v \<Longrightarrow> proper_value v"
  by (auto simp: list_all_iff dest: map_of_SomeD)

lemma envelope_text:
  assumes "parseSinkEnvelope v = Some e" and "proper_value v"
  shows "serializeCanonical (envelope_js e) = serializeCanonical v"
proof -
  obtain kvs where kvs: "plainDataDescriptors v SINK_KEYS = Some kvs"
    using assms(1) by (auto simp: parseSinkEnvelope_def split: Option.bind_splits)
  have v: "v = V_object kvs" "fst ` set kvs \<subseteq> set SINK_KEYS"
    by (simp_all add: descriptors_object [OF kvs])
  obtain w where w: "map_of kvs (lit ''value'') = Some w" "bounded_scalar w = Some (se_value e)"
    and parsed: "claimed kvs (lit ''provenance'') parseProvenance = Some (se_provenance e)"
      "claimed kvs (lit ''freshness'') parseFreshness = Some (se_freshness e)"
      "claimed kvs (lit ''confidence'') parse_confidence = Some (se_confidence e)"
    using assms(1) kvs by (auto simp: parseSinkEnvelope_def split: Option.bind_splits)
  note members = parsed [THEN claimed_member]
  have proper: "proper_value u" if "map_of kvs k = Some u" for k u
    using proper_member assms(2) v(1) that by blast
  have distinct: "distinct (map fst kvs)" using assms(2) v(1) by simp
  have read: "list_all (reads_as kvs) (optional_member (lit ''provenance'') provenance_js (se_provenance e))"
    "list_all (reads_as kvs) (optional_member (lit ''freshness'') freshness_js (se_freshness e))"
    "list_all (reads_as kvs) (optional_member (lit ''confidence'') V_number (se_confidence e))"
  proof -
    have "reads_as kvs (lit ''provenance'', provenance_js rs)" if got: "se_provenance e = Some rs" for rs
    proof -
      obtain u where "map_of kvs (lit ''provenance'') = Some u" "parseProvenance u = Some rs"
        using members(1) got by auto
      with provenance_text [OF this(2) proper [OF this(1)]] show ?thesis
        by (auto simp: reads_as_def provenance_js_def)
    qed
    then show "list_all (reads_as kvs) (optional_member (lit ''provenance'') provenance_js (se_provenance e))"
      by (cases "se_provenance e") simp_all
    have "reads_as kvs (lit ''freshness'', freshness_js f)" if got: "se_freshness e = Some f" for f
    proof -
      obtain u where u: "map_of kvs (lit ''freshness'') = Some u" "parseFreshness u = Some f"
        using members(2) got by auto
      moreover have "u \<noteq> V_undefined" using u(2) by (auto simp: parseFreshness_def plainDataDescriptors_def is_plain_object_def)
      ultimately show ?thesis
        using freshness_text [OF u(2) proper [OF u(1)]] by (simp add: reads_as_def) (simp add: freshness_js_def)
    qed
    then show "list_all (reads_as kvs) (optional_member (lit ''freshness'') freshness_js (se_freshness e))"
      by (cases "se_freshness e") simp_all
    show "list_all (reads_as kvs) (optional_member (lit ''confidence'') V_number (se_confidence e))"
      using members(3) by (cases "se_confidence e") (auto simp: reads_as_def dest: parse_confidence_js)
  qed
  have scalar: "reads_as kvs (lit ''value'', scalar_js (se_value e))"
    using w bounded_scalar_js [OF w(2)] by (cases "se_value e") (auto simp: reads_as_def)
  show ?thesis
    unfolding v(1) envelope_js_def
  proof (rule object_text [OF distinct v(2)])
    show "list_all (\<lambda>k. k \<in> fst ` set (optional_member (lit ''confidence'') V_number (se_confidence e) @
       optional_member (lit ''freshness'') freshness_js (se_freshness e) @
       optional_member (lit ''provenance'') provenance_js (se_provenance e) @
       [(lit ''value'', scalar_js (se_value e))]) \<or> map_of kvs k = None) SINK_KEYS"
      using members
      by (cases "se_confidence e"; cases "se_freshness e"; cases "se_provenance e") (simp_all add: SINK_KEYS_def)
    show "distinct (map fst (optional_member (lit ''confidence'') V_number (se_confidence e) @
       optional_member (lit ''freshness'') freshness_js (se_freshness e) @
       optional_member (lit ''provenance'') provenance_js (se_provenance e) @
       [(lit ''value'', scalar_js (se_value e))]))"
      by (cases "se_confidence e"; cases "se_freshness e"; cases "se_provenance e") simp_all
  qed (simp add: read scalar)
qed


lemma envelope_hash:
  "parseSinkEnvelope v = Some e \<Longrightarrow> proper_value v \<Longrightarrow>
   canonicalContentHash sha256 (envelope_js e) = canonicalContentHash sha256 v"
  by (simp add: canonicalContentHash_def envelope_text)


section \<open>What a projection proves\<close>

text \<open>The steps of a projection that returns a transition.\<close>

lemma projection_steps:
  assumes "projectCellResult sha256 request = Returned (Inr transition)"
  obtains current requested validated where
    "createCellResult (pr_dataset request) (pr_fields request) (pr_record request) (pr_recipe request)
       (pr_current request) = Inr current"
    "run_workspaceId (pr_run request) = ce_workspaceId current"
    "run_runId (pr_run request) = ce_runId current"
    "requestedForRun sha256 request = Returned (Inr requested)"
    "createCellResult (pr_dataset request) (pr_fields request) (pr_record request) (pr_recipe request)
       requested = Inr validated"
    "transitionCellResult current validated = Inr transition"
  using assms unfolding projectCellResult_def Let_def
  by (auto split: sum.splits if_splits outcome.splits)

lemma createCellResult_same: "createCellResult d fs rcd recipe c = Inr c' \<Longrightarrow> c' = c"
  by (auto simp: createCellResult_def split: if_splits option.splits)

text \<open>An accepted transition gives the requested status; a replay keeps an equal result.\<close>

lemma transition_like_requested:
  assumes "transitionCellResult current requested = Inr t"
  shows "hasSameIdentity current (ct_cellResult t)" "ce_status (ct_cellResult t) = ce_status requested"
    "ct_cellResult t = requested \<or> isExactReplay (ct_cellResult t) requested"
  using assms
  by (auto simp: transitionCellResult_def Let_def cloneCellResult_def hasSameIdentity_def isExactReplay_def
      split: if_splits)

fun projected_status :: "run_state \<Rightarrow> cell_status" where
  "projected_status R_queued = CS_pending"
| "projected_status R_cancelled = CS_skipped"
| "projected_status R_failed = CS_failed"
| "projected_status R_completed = CS_succeeded"
| "projected_status _ = CS_running"

lemma requested_status:
  "requestedForRun sha256 request = Returned (Inr c) \<Longrightarrow>
   ce_status c = projected_status (run_state (pr_run request))"
  by (cases "run_state (pr_run request)")
    (auto simp: requestedForRun_def completed_cell_def Let_def
      split: if_splits option.splits js_value.splits manifest_result.splits)

text \<open>
  A projected cell result has the status that belongs to the state of the run (pending while it is
  queued, running until it ends, then skipped, failed or succeeded), keeps the identity of the
  current result, and is that of the run and its workspace.
\<close>

lemma cell_follows_run:
  assumes "projectCellResult sha256 request = Returned (Inr transition)"
  shows "ce_status (ct_cellResult transition) = projected_status (run_state (pr_run request)) \<and>
    hasSameIdentity (pr_current request) (ct_cellResult transition) \<and>
    ce_runId (ct_cellResult transition) = run_runId (pr_run request) \<and>
    ce_workspaceId (ct_cellResult transition) = run_workspaceId (pr_run request)"
proof (rule projection_steps [OF assms], goal_cases)
  case (1 current requested validated)
  then have "current = pr_current request" "validated = requested"
    using createCellResult_same by blast+
  then show ?case
    using transition_like_requested [OF 1(6)] requested_status [OF 1(4)] 1(2,3)
    by (simp add: hasSameIdentity_def)
qed

lemma completed_requested:
  assumes "requestedForRun sha256 request = Returned (Inr requested)"
    and "run_state (pr_run request) = R_completed"
  obtains manifest body parsed out where
    "pr_manifest request = Some manifest" "manifestMatchesRun (pr_run request) manifest C_completed"
    "pr_payload request = Some body" "parseSinkEnvelope body = Some parsed"
    "mb_output (mf_body manifest) = Accepted out"
    "canonicalContentHash sha256 (envelope_js parsed) = Some (ar_contentHash (vo_artifact out))"
    "ce_value requested = Present (se_value parsed)"
    "ce_cost requested = Present (manifest_cost manifest)"
proof -
  obtain manifest where manifest: "pr_manifest request = Some manifest"
    "manifestMatchesRun (pr_run request) manifest C_completed"
    and cell: "completed_cell sha256 request manifest = Returned (Inr requested)"
    using assms by (auto simp: requestedForRun_def Let_def split: option.splits if_splits)
  show thesis
    using cell that [OF manifest] unfolding completed_cell_def
    by (auto split: option.splits js_value.splits manifest_result.splits if_splits)
qed

text \<open>
  C10. A cell result that is projected as succeeded is proven: the run completed with the given manifest,
  the payload has the content hash of the accepted output artifact, the value of the cell is the
  bounded scalar that the payload states, and the cost is exactly what the manifest says was spent.
\<close>

theorem succeeded_cell_is_proven:
  assumes "projectCellResult sha256 request = Returned (Inr transition)"
    and "ce_status (ct_cellResult transition) = CS_succeeded"
    and "\<forall>body. pr_payload request = Some body \<longrightarrow> proper_value body"
  shows "\<exists>manifest body parsed out cost.
    run_state (pr_run request) = R_completed \<and>
    pr_manifest request = Some manifest \<and>
    run_resultManifest (pr_run request) = Some (resultManifestRef manifest) \<and>
    mb_output (mf_body manifest) = Accepted out \<and>
    pr_payload request = Some body \<and>
    canonicalContentHash sha256 body = Some (ar_contentHash (vo_artifact out)) \<and>
    parseSinkEnvelope body = Some parsed \<and> isBoundedScalar (se_value parsed) \<and>
    read_own (ce_value (ct_cellResult transition)) = Some (se_value parsed) \<and>
    read_own (ce_cost (ct_cellResult transition)) = Some cost \<and>
    cc_amount cost = mc_spent (mb_cost (mf_body manifest)) \<and> cc_basis cost = Basis_exact \<and>
    cc_unit cost = mc_unit (mb_cost (mf_body manifest))"
proof (rule projection_steps [OF assms(1)], goal_cases)
  case (1 current requested validated)
  then have validated: "validated = requested" using createCellResult_same by blast
  have state: "run_state (pr_run request) = R_completed"
    using assms(2) transition_like_requested(2) [OF 1(6)] requested_status [OF 1(4)] validated
    by (cases "run_state (pr_run request)") simp_all
  show ?case
  proof (rule completed_requested [OF 1(4) state], goal_cases)
    case (1 manifest body parsed out)
    have like: "ct_cellResult transition = requested \<or> isExactReplay (ct_cellResult transition) requested"
      using transition_like_requested(3) [OF \<open>transitionCellResult current validated = Inr transition\<close>] validated
      by simp
    then have "read_own (ce_value (ct_cellResult transition)) = Some (se_value parsed)"
      using 1(7) by (auto simp: isExactReplay_def sameOptionalScalar_def)
    moreover have "\<exists>cost. read_own (ce_cost (ct_cellResult transition)) = Some cost \<and>
        cc_amount cost = mc_spent (mb_cost (mf_body manifest)) \<and> cc_basis cost = Basis_exact \<and>
        cc_unit cost = mc_unit (mb_cost (mf_body manifest))"
      using like 1(8)
      by (cases "read_own (ce_cost (ct_cellResult transition))")
        (auto simp: isExactReplay_def sameCost_def manifest_cost_def)
    moreover have "isBoundedScalar (se_value parsed)"
      using 1(4) by (auto simp: parseSinkEnvelope_def dest: bounded_scalar_bounded split: Option.bind_splits)
    moreover have "canonicalContentHash sha256 body = Some (ar_contentHash (vo_artifact out))"
      using 1(6) envelope_hash [OF 1(4)] assms(3) 1(3) by simp
    moreover have "run_resultManifest (pr_run request) = Some (resultManifestRef manifest)"
      using 1(2) by (auto simp: manifestMatchesRun_def Let_def split: if_splits)
    ultimately show ?case using state 1(1,3,4,5) by blast
  qed
qed

section \<open>A run that converges can be projected\<close>

lemma js_add_number: "js_eq a b \<Longrightarrow> js_eq (js_add b (num 1)) (js_add b (num 1))"
  by (cases b) (auto simp: js_eq_def num_def round_scaled_def Let_def)

lemma manifest_body_identity [simp]:
  "mb_workspaceId (manifest_body input p settlements c out k) = run_workspaceId (ec_run input)"
  "mb_runId (manifest_body input p settlements c out k) = run_runId (ec_run input)"
  "mb_runPlanId (manifest_body input p settlements c out k) = run_runPlanId (ec_run input)"
  "mb_conclusion (manifest_body input p settlements c out k) = c"
  "mb_sourceRunAggregateVersion (manifest_body input p settlements c out k) =
     run_aggregateVersion (ec_run input)"
  by (simp_all add: manifest_body_def)

text \<open>What a concluding command leaves in the run.\<close>

lemma concluded_run:
  assumes "applyRunCommand r c x = Inr t" and "rcx_replayProof x = None"
    and "run_planTransition r c = Inr (concluded_plan conclusion m state event)"
  shows "run_resultManifest (tr_aggregate t) = Some (resultManifestRef m)"
    "run_resultCompleteness (tr_aggregate t) = mb_resultCompleteness (mf_body m)"
    "run_aggregateVersion (tr_aggregate t) = js_add (run_aggregateVersion r) (num 1)"
    "js_eq (run_aggregateVersion (tr_aggregate t)) (run_aggregateVersion (tr_aggregate t))"
    "run_workspaceId (tr_aggregate t) = run_workspaceId r" "run_runId (tr_aggregate t) = run_runId r"
    "run_runPlanId (tr_aggregate t) = run_runPlanId r"
  by (rule applyRunCommand_fresh [OF assms(1,2)];
      use assms(3) js_add_number in \<open>auto simp: concluded_plan_def Let_def\<close>)+

lemma same_ref_refl [simp]: "same_ref r r"
  by (simp add: same_ref_def)

text \<open>
  C11. The convergence of a run fits its projection: when a running run of a compiled workflow is
  completed, or failed, with a manifest that the convergence decided, then the manifest matches the
  concluded run, so the projection of its cell does not refuse the manifest.
\<close>

theorem converged_run_projects:
  assumes "compileWorkflow wi = Inr (pl_compiledWorkflow (ec_plan input))"
    and "evaluateRunConvergence input = Inr d" and "run_state (ec_run input) = R_running"
    and "rcx_replayProof x = None"
  shows "case d of
      Not_ready reason \<Rightarrow> True
    | Completed_with decided \<Rightarrow>
        mf_body manifest = decided \<and> applyRunCommand (ec_run input) (CompleteRun manifest) x = Inr t \<longrightarrow>
        manifestMatchesRun (tr_aggregate t) manifest C_completed
    | Failed_with decided \<Rightarrow>
        mf_body manifest = decided \<and> applyRunCommand (ec_run input) (FailRun manifest) x = Inr t \<longrightarrow>
        manifestMatchesRun (tr_aggregate t) manifest C_failed"
proof (cases d)
  case (Completed_with decided)
  show ?thesis
  proof (rule completed_body [OF assms(1) assms(2) [unfolded Completed_with]], goal_cases)
    case (1 p settlements out)
    show ?case unfolding Completed_with convergence_decision.case
    proof (intro impI, elim conjE)
      assume decided: "mf_body manifest = decided" and run: "applyRunCommand (ec_run input) (CompleteRun manifest) x = Inr t"
      have entry: "list_ex (\<lambda>entry. me_state entry = E_succeeded \<and>
          (case me_result entry of Accepted result \<Rightarrow> same_ref result out | Missing _ \<Rightarrow> False))
        (mb_entries decided)"
        using 1(4,5) by (force simp: list_ex_iff)
      obtain plan where plan: "run_planTransition (ec_run input) (CompleteRun manifest) = Inr plan"
        by (rule applyRunCommand_fresh [OF run assms(4)])
      then have "plan = concluded_plan C_completed manifest R_completed RunCompleted"
        using assms(3) by (auto simp: completeRun_def validateCompletion_def Let_def
            split: if_splits manifest_result.splits)
      from concluded_run [OF run assms(4) plan [unfolded this]]
      show "manifestMatchesRun (tr_aggregate t) manifest C_completed"
        using 1(2,3) entry decided unfolding manifestMatchesRun_def Let_def by (simp add: 1(1))
    qed
  qed
next
  case (Failed_with decided)
  show ?thesis
  proof (rule failed_phases [OF assms(2) [unfolded Failed_with]], goal_cases)
    case (1 p settlements)
    show ?case unfolding Failed_with convergence_decision.case
    proof (intro impI, elim conjE)
      assume decided: "mf_body manifest = decided" and run: "applyRunCommand (ec_run input) (FailRun manifest) x = Inr t"
      have entry: "list_ex (\<lambda>entry. me_state entry = E_failed) (mb_entries decided)"
        using 1(2) by (force simp: 1(1) list_ex_iff)
      obtain plan where plan: "run_planTransition (ec_run input) (FailRun manifest) = Inr plan"
        by (rule applyRunCommand_fresh [OF run assms(4)])
      then have "plan = concluded_plan C_failed manifest R_failed RunFailed"
        using assms(3) by (auto simp: failRun_def validateFailure_def Let_def split: if_splits)
      from concluded_run [OF run assms(4) plan [unfolded this]]
      show "manifestMatchesRun (tr_aggregate t) manifest C_failed"
        using entry decided unfolding manifestMatchesRun_def Let_def by (simp add: 1(1))
    qed
  qed
qed simp

end
