(* ===== verification/Cell_Projection_Example.thy ===== *)
theory Cell_Projection_Example
  imports Cell_Projection_Properties Product_Properties
begin

text \<open>A completed run whose output is the number of a cell, and the properties of projections on it.\<close>

definition ex_zeros :: "byte list \<Rightarrow> jstring" where
  "ex_zeros bytes = replicate 64 48"

definition ex_sink :: js_value where
  "ex_sink = V_object
     [(lit ''value'', V_number (num 0)),
      (lit ''provenance'', V_object [(lit ''references'', V_array [V_string (lit ''r1'')])]),
      (lit ''freshness'', V_object [(lit ''observedAt'', V_number (num 0))])]"

definition ex_hashed_output :: validated_output where
  "ex_hashed_output = ex_output\<lparr>vo_artifact :=
     \<lparr>ar_artifactId = lit ''art'', ar_contentHash = lit ''sha256:'' @ replicate 64 48\<rparr>\<rparr>"

definition ex_hashed_manifest :: result_manifest where
  "ex_hashed_manifest = (ex_manifest 2)\<lparr>mf_body := (mf_body (ex_manifest 2))
     \<lparr>mb_output := Accepted ex_hashed_output,
      mb_entries := [ex_entry\<lparr>me_result := Accepted ex_hashed_output\<rparr>]\<rparr>\<rparr>"

definition ex_projection :: project_request where
  "ex_projection =
     \<lparr>pr_current = (ex_cell CS_running Absent)\<lparr>ce_freshness := Absent\<rparr>, pr_dataset = ex_dataset,
      pr_fields = [ex_field], pr_manifest = Some ex_hashed_manifest, pr_payload = Some ex_sink,
      pr_recipe = ex_recipe, pr_record = ex_record, pr_run = ex_completed_run 3 4\<rparr>"

definition ex_projected :: cell_result where
  "ex_projected = (ex_cell CS_succeeded (Present (VNumber (num 0))))
     \<lparr>ce_provenance := Present [lit ''r1''],
      ce_freshness := Present \<lparr>fr_observedAt = num 0, fr_expiresAt = None\<rparr>,
      ce_cost := Present \<lparr>cc_amount = num 0, cc_basis = Basis_exact, cc_unit = lit ''credit''\<rparr>\<rparr>"

lemma ex_parsed: "parseSinkEnvelope ex_sink = Some
    \<lparr>se_confidence = None, se_freshness = Some \<lparr>fr_observedAt = num 0, fr_expiresAt = None\<rparr>,
     se_provenance = Some [lit ''r1''], se_value = VNumber (num 0)\<rparr>"
  by code_simp

lemma ex_hash: "canonicalContentHash ex_zeros (envelope_js
    \<lparr>se_confidence = None, se_freshness = Some \<lparr>fr_observedAt = num 0, fr_expiresAt = None\<rparr>,
     se_provenance = Some [lit ''r1''], se_value = VNumber (num 0)\<rparr>) =
   Some (lit ''sha256:'' @ replicate 64 48)"
proof -
  have "canonicalContentHash ex_zeros = canonicalContentHash (\<lambda>bytes. replicate 64 48)"
    by (rule arg_cong [of _ _ canonicalContentHash]) (simp add: ex_zeros_def fun_eq_iff)
  then show ?thesis
    by (simp add: zero_hash envelope_js_def optional_member_def freshness_js_def provenance_js_def)
qed

lemma ex_matches: "manifestMatchesRun (ex_completed_run 3 4) ex_hashed_manifest C_completed"
  by (simp add: manifestMatchesRun_def ex_completed_run_def ex_hashed_manifest_def ex_manifest_def
      ex_run_def resultManifestRef_def ex_hashed_output_def ex_output_def ex_entry_def same_ref_def Let_def)
    (simp add: lit_def js_space_def)

lemma ex_accepted:
  "createCellResult ex_dataset [ex_field] ex_record ex_recipe ((ex_cell CS_running Absent)\<lparr>ce_freshness := Absent\<rparr>) =
     Inr ((ex_cell CS_running Absent)\<lparr>ce_freshness := Absent\<rparr>)"
  "createCellResult ex_dataset [ex_field] ex_record ex_recipe ex_projected = Inr ex_projected"
  by code_simp+

lemma ex_requested: "requestedForRun ex_zeros ex_projection = Returned (Inr ex_projected)"
proof -
  have "mb_output (mf_body ex_hashed_manifest) = Accepted ex_hashed_output"
    "ar_contentHash (vo_artifact ex_hashed_output) = lit ''sha256:'' @ replicate 64 48"
    "manifest_cost ex_hashed_manifest =
       \<lparr>cc_amount = num 0, cc_basis = Basis_exact, cc_unit = lit ''credit''\<rparr>"
    by (simp_all add: ex_hashed_manifest_def ex_hashed_output_def ex_manifest_def manifest_cost_def)
  moreover have "ex_sink \<noteq> V_undefined" by (simp add: ex_sink_def)
  ultimately have "completed_cell ex_zeros ex_projection ex_hashed_manifest = Returned (Inr ex_projected)"
    by (simp add: completed_cell_def ex_projection_def ex_parsed ex_hash own_member_def baseCellResult_def
        ex_cell_def ex_projected_def)
  moreover have "run_state (ex_completed_run 3 4) = R_completed"
    by (simp add: ex_completed_run_def ex_run_def)
  ultimately show ?thesis using ex_matches by (simp add: requestedForRun_def ex_projection_def Let_def)
qed

lemma ex_projects: "projectCellResult ex_zeros ex_projection =
    Returned (Inr \<lparr>ct_cellResult = ex_projected, ct_replayed = False\<rparr>)"
proof -
  have "run_workspaceId (ex_completed_run 3 4) = lit ''ws''" "run_runId (ex_completed_run 3 4) = lit ''run''"
    "run_state (ex_completed_run 3 4) = R_completed"
    by (simp_all add: ex_completed_run_def ex_run_def)
  moreover have "transitionCellResult ((ex_cell CS_running Absent)\<lparr>ce_freshness := Absent\<rparr>) ex_projected =
      Inr \<lparr>ct_cellResult = ex_projected, ct_replayed = False\<rparr>"
    by (simp add: transitionCellResult_def ex_cell_def ex_projected_def hasSameIdentity_def isExactReplay_def
        cell_terminalStatuses_def transitionIsAllowed_def cloneCellResult_def)
  ultimately show ?thesis
    unfolding projectCellResult_def ex_requested Let_def
    by (simp add: ex_projection_def ex_accepted) (simp add: ex_cell_def)
qed

theorem succeeded_cell_is_proven_witness:
  "canonicalContentHash ex_zeros ex_sink = Some (lit ''sha256:'' @ replicate 64 48) \<and>
   read_own (ce_value ex_projected) = Some (VNumber (num 0))"
proof -
  have "proper_value ex_sink" by code_simp
  then have "\<forall>body. pr_payload ex_projection = Some body \<longrightarrow> proper_value body"
    by (simp add: ex_projection_def)
  moreover have "ce_status ex_projected = CS_succeeded" by (simp add: ex_projected_def ex_cell_def)
  ultimately show ?thesis
    using succeeded_cell_is_proven [OF ex_projects] ex_parsed
    by (auto simp: ex_projection_def ex_hashed_manifest_def ex_hashed_output_def)
qed

theorem converged_run_projects_witness:
  "\<exists>manifest t. applyRunCommand (ex_run R_running 2 2) (CompleteRun manifest)
       (ex_run_context 2 [lit ''e3'', lit ''e4'']) = Inr t \<and>
     manifestMatchesRun (tr_aggregate t) manifest C_completed"
proof -
  obtain body where body: "evaluateRunConvergence ex_convergence = Inr (Completed_with body)"
    using ex_converged by blast
  let ?manifest = "\<lparr>mf_body = body, mf_manifestHash = lit ''mh'', mf_resultManifestId = lit ''mid''\<rparr>"
  let ?x = "ex_run_context 2 [lit ''e3'', lit ''e4'']"
  have compiled: "compileWorkflow (ex_compile [ex_node ''b'' []]) =
      Inr (pl_compiledWorkflow (ec_plan ex_convergence))"
    using ex_built by (simp add: ex_convergence_def)
  have run: "ec_run ex_convergence = ex_run R_running 2 2" by (simp add: ex_convergence_def)
  have "run_planTransition (ec_run ex_convergence) (CompleteRun ?manifest) =
      Inr (concluded_plan C_completed ?manifest R_completed RunCompleted)"
    using completed_body_accepted [OF compiled body, of "num 2"]
    by (simp add: completeRun_def run ex_run_def)
  from applyRunCommand_accepts [OF this, of ?x] obtain t where t:
    "applyRunCommand (ec_run ex_convergence) (CompleteRun ?manifest) ?x = Inr t"
    by (auto simp: run ex_run_def ex_run_context_def concluded_plan_def Let_def)
  have "manifestMatchesRun (tr_aggregate t) ?manifest C_completed"
    using converged_run_projects [OF compiled body, of ?x ?manifest t] t
    by (simp add: run ex_run_def ex_run_context_def)
  then show ?thesis using t run by auto
qed

end
