(* ===== verification/Dag_Scheduling.thy ===== *)
theory Dag_Scheduling
  imports Cell_Projection Transition_Attempt Run_Lifecycle
begin

text \<open>
  \<open>application/src/materialize-next-dag-run.ts\<close>: the job of the scheduler for one run. It creates
  the steps whose dependencies succeeded, skips those below a failure, settles a cancellation,
  and concludes a run that has converged. It runs inside one transaction that any violated
  invariant rolls back.
\<close>

section \<open>Data and ports\<close>

record dag_payload =
  dp_artifactId :: jstring
  dp_contentHash :: jstring
  dp_value :: js_value

record recipe_cell =
  rc_current :: cell_result
  rc_dataset :: dataset
  rc_fields :: "field list"
  rc_recipe :: enrichment_recipe
  rc_record :: data_record

record dag_context =
  dc_artifacts :: "artifact list"
  dc_artifactPayloads :: "dag_payload list option"
  dc_cost :: result_manifest_cost
  dc_plan :: run_plan
  dc_recipeCell :: "recipe_cell option"
  dc_reservations :: "cost_reservation list"
  dc_run :: run
  dc_stepRuns :: "step_run list"

datatype job_outcome =
    Job_failure_finalized | Job_success_finalized | Job_stale_terminal | Job_steps_materialized
  | Job_waiting | Job_blocked convergence_blocker

record cell_finalization =
  cf_artifact :: "artifact_ref option"
  cf_cellResult :: cell_result
  cf_manifest :: "result_manifest_ref option"
  cf_sourceRunAggregateVersion :: js_number

datatype dag_call =
    Dag_claim_next
  | Dag_clock
  | Dag_event_id
  | Dag_find_manifest jstring jstring
  | Dag_insert_ready jstring step_run step_event
  | Dag_insert_skipped jstring step_run step_event
  | Dag_request_routing jstring jstring
  | Dag_insert_manifest jstring result_manifest
  | Dag_update_run jstring js_number run
  | Dag_append_run_event jstring run_event
  | Dag_insert_run_proof jstring run_replay_proof jstring jstring
  | Dag_finalize_cell jstring cell_finalization
  | Dag_complete_job jstring jstring job_outcome

text \<open>What the ports answer; \<open>eventId n\<close> is the answer to the request after \<open>n\<close> others.\<close>

record dag_ports =
  dq_next :: "dag_context option"
  dq_now :: js_number
  dq_eventId :: "nat \<Rightarrow> jstring"
  dq_manifest :: "jstring \<Rightarrow> jstring \<Rightarrow> result_manifest option"
  dq_cellResults :: bool
  dq_sha256 :: "byte list \<Rightarrow> jstring"

type_synonym 'a dag_program = "(dag_call, 'a outcome) traced"

text \<open>A program goes on with what the one before it returned, unless that one threw.\<close>

definition and_return :: "'a dag_program \<Rightarrow> ('a \<Rightarrow> 'b dag_program) \<Rightarrow> 'b dag_program" where
  "and_return m f = do {
     a \<leftarrow> m;
     (case a of Thrown \<Rightarrow> State_Monad.return Thrown | Returned v \<Rightarrow> f v)
   }"


section \<open>Identity and readiness\<close>

definition isTerminalCellResult :: "cell_result \<Rightarrow> bool" where
  "isTerminalCellResult cellResult \<longleftrightarrow> ce_status cellResult \<in> {CS_failed, CS_skipped, CS_succeeded}"

definition context_identity_ok :: "dag_context \<Rightarrow> bool" where
  "context_identity_ok context =
     (let plan = dc_plan context; run = dc_run context
      in \<not> (pl_workspaceId plan \<noteq> run_workspaceId run \<or>
            ae_workspaceId (pl_authority plan) \<noteq> run_workspaceId run \<or>
            pl_runPlanId plan \<noteq> run_runPlanId run \<or>
            list_ex (\<lambda>stepRun. sr_workspaceId stepRun \<noteq> run_workspaceId run \<or>
                sr_runId stepRun \<noteq> run_runId run) (dc_stepRuns context)))"

definition digest_of :: "jstring \<Rightarrow> jstring" where
  "digest_of hash = drop (length ''sha256:'') hash"

definition deterministicStepRunId ::
  "(byte list \<Rightarrow> jstring) \<Rightarrow> dag_context \<Rightarrow> jstring \<Rightarrow> jstring option" where
  "deterministicStepRunId sha256 context nodeKey =
     map_option (\<lambda>identity. lit ''step_'' @ digest_of identity)
       (canonicalContentHash sha256 (V_object
         [(lit ''nodeKey'', V_string nodeKey),
          (lit ''planHash'', V_string (pl_planHash (dc_plan context))),
          (lit ''runId'', V_string (run_runId (dc_run context))),
          (lit ''workspaceId'', V_string (run_workspaceId (dc_run context)))]))"

definition schedulingWindowIsOpen :: "dag_context \<Rightarrow> js_number \<Rightarrow> bool" where
  "schedulingWindowIsOpen context now \<longleftrightarrow>
     run_state (dc_run context) = R_running \<and> js_lt now (pl_deadline (dc_plan context)) \<and>
     js_lt now (ae_deadline (pl_authority (dc_plan context)))"

definition state_at :: "(jstring, step_run) js_map \<Rightarrow> jstring \<Rightarrow> step_run_state option" where
  "state_at steps nodeKey = map_option sr_state (map_get steps nodeKey)"

definition nodeIsReady :: "compiled_node \<Rightarrow> (jstring, step_run) js_map \<Rightarrow> bool" where
  "nodeIsReady node steps \<longleftrightarrow>
     \<not> map_has steps (cn_key node) \<and> cn_humanGate node = None \<and>
     list_all (\<lambda>dependency. state_at steps dependency = Some S_succeeded) (cn_dependsOn node)"

definition blockedDependencies :: "compiled_node \<Rightarrow> (jstring, step_run) js_map \<Rightarrow> jstring list" where
  "blockedDependencies node steps =
     filter (\<lambda>dependency. state_at steps dependency = Some S_failed \<or>
         state_at steps dependency = Some S_skipped) (cn_dependsOn node)"


section \<open>The proof that a cancellation can settle\<close>

definition unresolvedCancellationAttemptStates :: "attempt_state list" where
  "unresolvedCancellationAttemptStates = [A_ambiguous, A_claimed, A_in_flight, A_prepared]"

definition unresolvedCancellationStepStates :: "step_run_state list" where
  "unresolvedCancellationStepStates = [S_active, S_ambiguous, S_cancelling]"

definition cancellationAttemptProofs :: "dag_context \<Rightarrow> (attempt \<times> step_run) list" where
  "cancellationAttemptProofs context =
     concat (map (\<lambda>stepRun. map (\<lambda>attempt. (attempt, stepRun)) (sr_attempts stepRun))
       (dc_stepRuns context))"

definition cancellationReservationMatchesAttempt ::
  "dag_context \<Rightarrow> attempt \<times> step_run \<Rightarrow> cost_reservation \<Rightarrow> bool" where
  "cancellationReservationMatchesAttempt context p reservation =
     (let (attempt, stepRun) = p; base = reservation_base reservation
      in cr_workspaceId base = run_workspaceId (dc_run context) \<and>
         cr_runId base = run_runId (dc_run context) \<and>
         cr_stepRunId base = sr_stepRunId stepRun \<and>
         cr_attemptId base = at_attemptId attempt \<and>
         cr_reservationId base = at_costReservationId attempt \<and>
         cr_operationKey base = at_operationKey attempt \<and>
         cr_unit base = at_reservationUnit attempt \<and>
         amountsEqual (cr_amount base) (at_reservedAmount attempt))"

definition cancellationSettlementReceiptIsValid :: "cost_reservation \<Rightarrow> bool" where
  "cancellationSettlementReceiptIsValid reservation \<longleftrightarrow>
     isAmount (cr_amount (reservation_base reservation)) \<and>
     (case reservation of
        CR_settled base settled released _ _ \<Rightarrow>
          isAmount released \<and> isAmount settled \<and>
          amountsEqual (cr_amount base) (js_add released settled)
      | _ \<Rightarrow> True)"

definition reserved_total :: "cost_reservation list \<Rightarrow> js_number" where
  "reserved_total reservations =
     foldl (\<lambda>total reservation. js_add total
       (case reservation of CR_reserved base \<Rightarrow> cr_amount base | _ \<Rightarrow> num 0)) (num 0) reservations"

definition spent_total :: "js_number \<Rightarrow> cost_reservation list \<Rightarrow> js_number" where
  "spent_total spent reservations =
     foldl (\<lambda>total reservation. js_add total
       (case reservation of CR_settled _ settled _ _ _ \<Rightarrow> settled | _ \<Rightarrow> num 0)) spent reservations"

text \<open>\<open>assertCancellationLedgerProof\<close>: false when it throws.\<close>

definition cancellation_ledger_exact :: "dag_context \<Rightarrow> (attempt \<times> step_run) list \<Rightarrow> bool" where
  "cancellation_ledger_exact context proofs =
     (let reservations = dc_reservations context;
          attemptIds = map (\<lambda>(attempt, _). at_attemptId attempt) proofs;
          reservationIds = map (\<lambda>r. cr_reservationId (reservation_base r)) reservations;
          reservationsByAttempt =
            map_from (map (\<lambda>r. (cr_attemptId (reservation_base r), r)) reservations);
          identityProofIsExact =
            set_size attemptIds = length proofs \<and>
            set_size reservationIds = length reservations \<and>
            length reservationsByAttempt = length reservations \<and>
            length reservations = length proofs \<and>
            list_all (\<lambda>(attempt, stepRun).
              case map_get reservationsByAttempt (at_attemptId attempt) of
                None \<Rightarrow> False
              | Some reservation \<Rightarrow>
                  at_stepRunId attempt = sr_stepRunId stepRun \<and>
                  cancellationReservationMatchesAttempt context (attempt, stepRun) reservation \<and>
                  cancellationSettlementReceiptIsValid reservation) proofs;
          cost = dc_cost context;
          costProofIsExact =
            mc_unit cost = bl_unit (pl_budget (dc_plan context)) \<and>
            list_all (\<lambda>r. cr_unit (reservation_base r) = mc_unit cost) reservations \<and>
            isAmount (mc_reserved cost) \<and> isAmount (mc_spent cost) \<and>
            amountsEqual (mc_reserved cost) (reserved_total reservations) \<and>
            amountsEqual (mc_spent cost) (spent_total (bl_spent (pl_budget (dc_plan context))) reservations)
      in identityProofIsExact \<and> costProofIsExact)"

text \<open>\<open>None\<close> when the proof is not exact, which throws.\<close>

definition cancellationCanSettle :: "dag_context \<Rightarrow> bool option" where
  "cancellationCanSettle context =
     (if \<not> cancellation_ledger_exact context (cancellationAttemptProofs context) then None
      else Some
        (amountsEqual (mc_reserved (dc_cost context)) (num 0) \<and>
         list_all (\<lambda>r. \<not> is_reserved r) (dc_reservations context) \<and>
         list_all (\<lambda>stepRun. sr_activeAttemptId stepRun = None \<and>
             sr_state stepRun \<notin> set unresolvedCancellationStepStates \<and>
             list_all (\<lambda>attempt. at_state attempt \<notin> set unresolvedCancellationAttemptStates)
               (sr_attempts stepRun)) (dc_stepRuns context)))"


section \<open>Steps of ready nodes\<close>

record dag_progress =
  pg_steps :: "(jstring, step_run) js_map"
  pg_created :: "step_run list"
  pg_skipped :: "step_run list"
  pg_asked :: nat

definition skip_input ::
  "dag_context \<Rightarrow> js_number \<Rightarrow> compiled_node \<Rightarrow> jstring list \<Rightarrow> jstring \<Rightarrow> jstring \<Rightarrow> skip_step_input" where
  "skip_input context now node blockedByNodeKeys eventId stepRunId =
     \<lparr>sk_actorId = lit ''system:dag-scheduler'', sk_blockedByNodeKeys = blockedByNodeKeys,
      sk_correlationId = lit ''dag-schedule:'' @ run_runId (dc_run context),
      sk_createdAt = now, sk_dependsOn = cn_dependsOn node, sk_eventId = eventId,
      sk_nodeKey = cn_key node, sk_runId = run_runId (dc_run context),
      sk_runState = run_state (dc_run context), sk_stepRunId = stepRunId,
      sk_workspaceId = run_workspaceId (dc_run context)\<rparr>"

definition schedule_input ::
  "dag_context \<Rightarrow> js_number \<Rightarrow> compiled_node \<Rightarrow> jstring \<Rightarrow> jstring \<Rightarrow> schedule_step_input" where
  "schedule_input context now node eventId stepRunId =
     \<lparr>ss_actorId = lit ''system:dag-scheduler'',
      ss_correlationId = lit ''dag-schedule:'' @ run_runId (dc_run context),
      ss_createdAt = now, ss_dependsOn = cn_dependsOn node, ss_eventId = eventId,
      ss_nodeKey = cn_key node, ss_runId = run_runId (dc_run context),
      ss_runState = run_state (dc_run context), ss_satisfiedDependencies = cn_dependsOn node,
      ss_stepRunId = stepRunId, ss_workspaceId = run_workspaceId (dc_run context)\<rparr>"

text \<open>One turn of the loop over the nodes of the plan.\<close>

definition materialize_node ::
  "dag_ports \<Rightarrow> dag_context \<Rightarrow> js_number \<Rightarrow> compiled_node \<Rightarrow> dag_progress \<Rightarrow> dag_progress dag_program" where
  "materialize_node ports context now node progress =
     (let steps = pg_steps progress; workspaceId = run_workspaceId (dc_run context);
          blockedByNodeKeys = blockedDependencies node steps
      in if map_has steps (cn_key node) then State_Monad.return (Returned progress)
      else if length blockedByNodeKeys > 0 then do {
        eventId \<leftarrow> call Dag_event_id (dq_eventId ports (pg_asked progress));
        (case Option.bind (deterministicStepRunId (dq_sha256 ports) context (cn_key node))
            (\<lambda>stepRunId. case skipStep (skip_input context now node blockedByNodeKeys eventId stepRunId) of
               Inl _ \<Rightarrow> None | Inr decision \<Rightarrow> Some decision) of
           None \<Rightarrow> State_Monad.return Thrown
         | Some (event, stepRun) \<Rightarrow> do {
             calls [Dag_insert_skipped workspaceId stepRun event];
             State_Monad.return (Returned (progress
               \<lparr>pg_steps := map_set (cn_key node) stepRun steps,
                pg_skipped := pg_skipped progress @ [stepRun], pg_asked := pg_asked progress + 1\<rparr>))
           })
      }
      else if \<not> schedulingWindowIsOpen context now then State_Monad.return (Returned progress)
      else if \<not> nodeIsReady node steps then State_Monad.return (Returned progress)
      else do {
        eventId \<leftarrow> call Dag_event_id (dq_eventId ports (pg_asked progress));
        (case Option.bind (deterministicStepRunId (dq_sha256 ports) context (cn_key node))
            (\<lambda>stepRunId. case scheduleStep (schedule_input context now node eventId stepRunId) of
               Inl _ \<Rightarrow> None | Inr decision \<Rightarrow> Some decision) of
           None \<Rightarrow> State_Monad.return Thrown
         | Some (event, stepRun) \<Rightarrow> do {
             calls [Dag_insert_ready workspaceId stepRun event,
               Dag_request_routing workspaceId (sr_stepRunId stepRun)];
             State_Monad.return (Returned (progress
               \<lparr>pg_steps := map_set (cn_key node) stepRun steps,
                pg_created := pg_created progress @ [stepRun], pg_asked := pg_asked progress + 1\<rparr>))
           })
      })"

fun materialize_nodes ::
  "dag_ports \<Rightarrow> dag_context \<Rightarrow> js_number \<Rightarrow> compiled_node list \<Rightarrow> dag_progress \<Rightarrow>
   dag_progress dag_program" where
  "materialize_nodes ports context now [] progress = State_Monad.return (Returned progress)"
| "materialize_nodes ports context now (node # nodes) progress =
     and_return (materialize_node ports context now node progress)
       (materialize_nodes ports context now nodes)"

definition materializeReadyNodes ::
  "dag_ports \<Rightarrow> dag_context \<Rightarrow> js_number \<Rightarrow> dag_progress dag_program" where
  "materializeReadyNodes ports context now =
     materialize_nodes ports context now (cw_nodes (pl_compiledWorkflow (dc_plan context)))
       \<lparr>pg_steps = map_from (map (\<lambda>stepRun. (sr_nodeKey stepRun, stepRun)) (dc_stepRuns context)),
        pg_created = [], pg_skipped = [], pg_asked = 0\<rparr>"


section \<open>The hash of a manifest\<close>

definition output_value :: "validated_output \<Rightarrow> (jstring \<times> js_value) list" where
  "output_value ref =
     [(lit ''artifact'', V_object
        [(lit ''artifactId'', V_string (ar_artifactId (vo_artifact ref))),
         (lit ''contentHash'', V_string (ar_contentHash (vo_artifact ref)))]),
      (lit ''contract'', contract_value (vo_contract ref)),
      (lit ''validatedAt'', V_number (vo_validatedAt ref)),
      (lit ''validatorVersion'', V_string (vo_validatorVersion ref))]"

definition result_value :: "('r \<Rightarrow> jstring) \<Rightarrow> 'r manifest_result \<Rightarrow> js_value" where
  "result_value reason_name result =
     V_object (case result of
        Accepted ref \<Rightarrow> output_value ref @ [(lit ''status'', V_string (lit ''accepted''))]
      | Missing reason \<Rightarrow>
          [(lit ''reason'', V_string (reason_name reason)), (lit ''status'', V_string (lit ''missing''))])"

fun entry_reason_name :: "entry_reason \<Rightarrow> jstring" where
  "entry_reason_name Blocked_by_dependency = lit ''blocked-by-dependency''"
| "entry_reason_name Result_reference_not_persisted = lit ''result-reference-not-persisted''"
| "entry_reason_name Step_failed = lit ''step-failed''"

fun output_reason_name :: "output_reason \<Rightarrow> jstring" where
  "output_reason_name Output_proof_missing = lit ''result-proof-missing''"
| "output_reason_name Run_failed = lit ''run-failed''"

fun entry_state_name :: "entry_state \<Rightarrow> jstring" where
  "entry_state_name E_failed = lit ''failed''"
| "entry_state_name E_skipped = lit ''skipped''"
| "entry_state_name E_succeeded = lit ''succeeded''"

fun completeness_name :: "result_completeness \<Rightarrow> jstring" where
  "completeness_name RC_none = lit ''none''"
| "completeness_name RC_partial = lit ''partial''"
| "completeness_name RC_complete = lit ''complete''"

definition entry_value :: "result_manifest_entry \<Rightarrow> js_value" where
  "entry_value entry =
     V_object
       ([(lit ''nodeKey'', V_string (me_nodeKey entry)),
         (lit ''result'', result_value entry_reason_name (me_result entry)),
         (lit ''state'', V_string (entry_state_name (me_state entry))),
         (lit ''stepAggregateVersion'', V_number (me_stepAggregateVersion entry)),
         (lit ''stepEventSequence'', V_number (me_stepEventSequence entry)),
         (lit ''stepRunId'', V_string (me_stepRunId entry))] @
        optional_member (lit ''blockedByNodeKeys'') (\<lambda>keys. V_array (map V_string keys))
          (me_blockedByNodeKeys entry) @
        optional_member (lit ''terminalAttemptId'') V_string (me_terminalAttemptId entry))"

definition settlement_record_value :: "attempt_settlement \<Rightarrow> js_value" where
  "settlement_record_value s =
     V_object
       ([(lit ''attemptId'', V_string (ms_attemptId s)),
         (lit ''disposition'', V_string (case ms_disposition s of
            D_released \<Rightarrow> lit ''released'' | D_settled \<Rightarrow> lit ''settled'')),
         (lit ''operationKey'', V_string (ms_operationKey s)),
         (lit ''releasedAmount'', V_number (ms_releasedAmount s)),
         (lit ''reservationId'', V_string (ms_reservationId s)),
         (lit ''unit'', V_string (ms_unit s))] @
        optional_member (lit ''settledAmount'') V_number (ms_settledAmount s) @
        optional_member (lit ''usageEntryId'') V_string (ms_usageEntryId s))"

definition manifest_value :: "result_manifest_body \<Rightarrow> js_value" where
  "manifest_value body =
     V_object
       [(lit ''attemptSettlements'', V_array (map settlement_record_value (mb_attemptSettlements body))),
        (lit ''compiledWorkflowFingerprint'', V_string (mb_compiledWorkflowFingerprint body)),
        (lit ''conclusion'', V_string (case mb_conclusion body of
           C_completed \<Rightarrow> lit ''completed'' | C_failed \<Rightarrow> lit ''failed'')),
        (lit ''cost'', V_object
           [(lit ''reserved'', V_number (mc_reserved (mb_cost body))),
            (lit ''spent'', V_number (mc_spent (mb_cost body))),
            (lit ''unit'', V_string (mc_unit (mb_cost body)))]),
        (lit ''coverage'', V_string (lit ''complete'')),
        (lit ''createdAt'', V_number (mb_createdAt body)),
        (lit ''entries'', V_array (map entry_value (mb_entries body))),
        (lit ''manifestVersion'', V_number (num 1)),
        (lit ''output'', result_value output_reason_name (mb_output body)),
        (lit ''outputContract'', contract_value (mb_outputContract body)),
        (lit ''planHash'', V_string (mb_planHash body)),
        (lit ''resultCompleteness'', V_string (completeness_name (mb_resultCompleteness body))),
        (lit ''runId'', V_string (mb_runId body)),
        (lit ''runPlanId'', V_string (mb_runPlanId body)),
        (lit ''sourceRunAggregateVersion'', V_number (mb_sourceRunAggregateVersion body)),
        (lit ''workspaceId'', V_string (mb_workspaceId body))]"


section \<open>Conclusion\<close>

datatype dag_finalization =
    Final_not_ready convergence_blocker | Finalized conclusion result_manifest run

definition project_request_of ::
  "recipe_cell \<Rightarrow> run \<Rightarrow> result_manifest option \<Rightarrow> js_value option \<Rightarrow> project_request" where
  "project_request_of cell run manifest content =
     \<lparr>pr_current = rc_current cell, pr_dataset = rc_dataset cell, pr_fields = rc_fields cell,
      pr_manifest = manifest, pr_payload = content, pr_recipe = rc_recipe cell,
      pr_record = rc_record cell, pr_run = run\<rparr>"

text \<open>The payload of the accepted artifact, when the context has it.\<close>

definition artifact_payload :: "dag_context \<Rightarrow> result_manifest \<Rightarrow> dag_payload option" where
  "artifact_payload context manifest =
     (case mb_output (mf_body manifest) of
        Missing _ \<Rightarrow> None
      | Accepted ref \<Rightarrow>
          Option.bind (dc_artifactPayloads context)
            (List.find (\<lambda>candidate. dp_artifactId candidate = ar_artifactId (vo_artifact ref) \<and>
                dp_contentHash candidate = ar_contentHash (vo_artifact ref))))"

text \<open>The part of \<open>finalizeRun\<close> that projects the result of the cell.\<close>

definition finalize_recipe_cell ::
  "dag_ports \<Rightarrow> dag_context \<Rightarrow> result_manifest \<Rightarrow> run \<Rightarrow> unit dag_program" where
  "finalize_recipe_cell ports context manifest run =
     (case dc_recipeCell context of
        None \<Rightarrow> State_Monad.return (Returned ())
      | Some cell \<Rightarrow>
          if \<not> dq_cellResults ports then State_Monad.return Thrown
          else (case projectCellResult (dq_sha256 ports)
              (project_request_of cell run (Some manifest)
                (map_option dp_value (artifact_payload context manifest))) of
             Thrown \<Rightarrow> State_Monad.return Thrown
           | Returned (Inl _) \<Rightarrow> State_Monad.return Thrown
           | Returned (Inr projection) \<Rightarrow>
               if \<not> isTerminalCellResult (ct_cellResult projection) then State_Monad.return Thrown
               else do {
                 calls [Dag_finalize_cell (run_workspaceId (dc_run context))
                   \<lparr>cf_artifact = (case mb_output (mf_body manifest) of
                      Accepted ref \<Rightarrow> Some (vo_artifact ref) | Missing _ \<Rightarrow> None),
                    cf_cellResult = ct_cellResult projection,
                    cf_manifest = Some (resultManifestRef manifest),
                    cf_sourceRunAggregateVersion = run_aggregateVersion run\<rparr>];
                 State_Monad.return (Returned ())
               }))"

definition conclude_command :: "conclusion \<Rightarrow> result_manifest \<Rightarrow> run_command" where
  "conclude_command conclusion manifest =
     (case conclusion of C_completed \<Rightarrow> CompleteRun manifest | C_failed \<Rightarrow> FailRun manifest)"

definition conclude_type :: "conclusion \<Rightarrow> jstring" where
  "conclude_type conclusion =
     (case conclusion of C_completed \<Rightarrow> lit ''CompleteRun'' | C_failed \<Rightarrow> lit ''FailRun'')"

definition manifest_of :: "result_manifest_body \<Rightarrow> jstring \<Rightarrow> result_manifest" where
  "manifest_of body manifestHash =
     \<lparr>mf_body = body, mf_manifestHash = manifestHash,
      mf_resultManifestId = lit ''manifest_'' @ digest_of manifestHash\<rparr>"

definition conclude_context ::
  "dag_context \<Rightarrow> run_command_identity \<Rightarrow> jstring list \<Rightarrow> js_number \<Rightarrow> run_command_context" where
  "conclude_context context identity eventIds now =
     \<lparr>rcx_commandIdentity = identity,
      rcx_expectedAggregateVersion = run_aggregateVersion (dc_run context),
      rcx_eventIds = eventIds, rcx_occurredAt = now, rcx_actorId = lit ''system:dag-scheduler'',
      rcx_correlationId = lit ''dag-converge:'' @ run_runId (dc_run context), rcx_replayProof = None\<rparr>"

definition conclude_identity ::
  "(byte list \<Rightarrow> jstring) \<Rightarrow> dag_context \<Rightarrow> jstring \<Rightarrow> conclusion \<Rightarrow> run_command_identity option" where
  "conclude_identity sha256 context manifestHash conclusion =
     map_option (\<lambda>hash. \<lparr>rci_idempotencyKey =
           lit ''converge-run:'' @ run_runId (dc_run context) @ lit '':'' @ pl_planHash (dc_plan context),
         rci_commandHash = hash\<rparr>)
       (canonicalContentHash sha256 (V_object
         [(lit ''manifestHash'', V_string manifestHash),
          (lit ''runId'', V_string (run_runId (dc_run context))),
          (lit ''type'', V_string (conclude_type conclusion))]))"

text \<open>What is stored for a run that applied a command of the scheduler.\<close>

definition persist_run ::
  "dag_context \<Rightarrow> run_command_kind \<Rightarrow> run_command_identity \<Rightarrow> jstring \<Rightarrow>
   (run, run_event) transition \<Rightarrow> dag_call list" where
  "persist_run context kind identity correlationId t =
     (let workspaceId = run_workspaceId (dc_run context)
      in [Dag_update_run workspaceId (run_aggregateVersion (dc_run context)) (tr_aggregate t)] @
         map (Dag_append_run_event workspaceId) (tr_events t) @
         [Dag_insert_run_proof workspaceId
            \<lparr>rrp_runId = run_runId (dc_run context), rrp_workspaceId = workspaceId,
             rrp_identity = identity, rrp_commandType = kind\<rparr>
            (lit ''system:dag-scheduler'') correlationId])"

text \<open>The part of \<open>finalizeRun\<close> behind a decision to conclude.\<close>

definition concludeRun ::
  "dag_ports \<Rightarrow> dag_context \<Rightarrow> nat \<Rightarrow> conclusion \<Rightarrow> result_manifest_body \<Rightarrow> js_number \<Rightarrow>
   dag_finalization dag_program" where
  "concludeRun ports context asked conclusion body now =
     (let run = dc_run context; workspaceId = run_workspaceId run
      in do {
        existing \<leftarrow> call (Dag_find_manifest workspaceId (run_runId run))
          (dq_manifest ports workspaceId (run_runId run));
        (case (existing, canonicalContentHash (dq_sha256 ports) (manifest_value body)) of
           (None, Some manifestHash) \<Rightarrow>
             (case conclude_identity (dq_sha256 ports) context manifestHash conclusion of
                None \<Rightarrow> State_Monad.return Thrown
              | Some identity \<Rightarrow>
                  let manifest = manifest_of body manifestHash;
                      command = conclude_command conclusion manifest
                  in do {
                    first_id \<leftarrow> call Dag_event_id (dq_eventId ports asked);
                    second_id \<leftarrow> call Dag_event_id (dq_eventId ports (asked + 1));
                    (case applyRunCommand run command
                        (conclude_context context identity [first_id, second_id] now) of
                       Inl _ \<Rightarrow> State_Monad.return Thrown
                     | Inr t \<Rightarrow> do {
                         calls (Dag_insert_manifest workspaceId manifest #
                           persist_run context (run_command_type command) identity
                             (lit ''dag-converge:'' @ run_runId run) t);
                         and_return (finalize_recipe_cell ports context manifest (tr_aggregate t))
                           (\<lambda>_. State_Monad.return
                             (Returned (Finalized conclusion manifest (tr_aggregate t))))
                       })
                  })
         | _ \<Rightarrow> State_Monad.return Thrown)
      })"

definition convergence_input_of :: "dag_context \<Rightarrow> step_run list \<Rightarrow> js_number \<Rightarrow> convergence_input" where
  "convergence_input_of context stepRuns now =
     \<lparr>ec_artifacts = dc_artifacts context, ec_cost = dc_cost context, ec_createdAt = now,
      ec_plan = dc_plan context, ec_reservations = dc_reservations context,
      ec_run = dc_run context, ec_stepRuns = stepRuns\<rparr>"

definition finalizeRun ::
  "dag_ports \<Rightarrow> dag_context \<Rightarrow> dag_progress \<Rightarrow> js_number \<Rightarrow> dag_finalization dag_program" where
  "finalizeRun ports context progress now =
     (case evaluateRunConvergence (convergence_input_of context (map snd (pg_steps progress)) now) of
        Inl _ \<Rightarrow> State_Monad.return Thrown
      | Inr (Not_ready reason) \<Rightarrow> State_Monad.return (Returned (Final_not_ready reason))
      | Inr (Completed_with body) \<Rightarrow>
          concludeRun ports context (pg_asked progress) C_completed body now
      | Inr (Failed_with body) \<Rightarrow>
          concludeRun ports context (pg_asked progress) C_failed body now)"


section \<open>The job\<close>

definition isTerminalRun :: "run \<Rightarrow> bool" where
  "isTerminalRun run \<longleftrightarrow> run_state run \<in> {R_cancelled, R_completed, R_failed}"

definition run_concluded_as :: "run_state \<Rightarrow> conclusion \<Rightarrow> bool" where
  "run_concluded_as state conclusion \<longleftrightarrow>
     (case conclusion of C_completed \<Rightarrow> state = R_completed | C_failed \<Rightarrow> state = R_failed)"

definition terminal_manifest_ok :: "run \<Rightarrow> result_manifest option \<Rightarrow> bool" where
  "terminal_manifest_ok run stored =
     (case (run_resultManifest run, stored) of
        (Some ref, Some manifest) \<Rightarrow>
          let body = mf_body manifest
          in mb_workspaceId body = run_workspaceId run \<and> mb_runId body = run_runId run \<and>
             mb_runPlanId body = run_runPlanId run \<and>
             run_concluded_as (run_state run) (mb_conclusion body) \<and>
             mb_resultCompleteness body = run_resultCompleteness run \<and>
             js_eq (js_add (mb_sourceRunAggregateVersion body) (num 1)) (run_aggregateVersion run) \<and>
             resultManifestRef manifest = ref
      | _ \<Rightarrow> False)"

definition assertTerminalRunManifest :: "dag_ports \<Rightarrow> dag_context \<Rightarrow> unit dag_program" where
  "assertTerminalRunManifest ports context =
     (let run = dc_run context; workspaceId = run_workspaceId run
      in if run_state run \<noteq> R_failed \<and> run_state run \<noteq> R_completed
         then State_Monad.return (Returned ())
         else do {
           stored \<leftarrow> call (Dag_find_manifest workspaceId (run_runId run))
             (dq_manifest ports workspaceId (run_runId run));
           State_Monad.return (if terminal_manifest_ok run stored then Returned () else Thrown)
         })"

definition finalizeCancelledRecipeCell :: "dag_ports \<Rightarrow> dag_context \<Rightarrow> run \<Rightarrow> unit dag_program" where
  "finalizeCancelledRecipeCell ports context run =
     (if run_state run \<noteq> R_cancelled then State_Monad.return (Returned ())
      else case dc_recipeCell context of
          None \<Rightarrow> State_Monad.return (Returned ())
        | Some cell \<Rightarrow>
            if \<not> dq_cellResults ports then State_Monad.return Thrown
            else (case projectCellResult (dq_sha256 ports) (project_request_of cell run None None) of
               Thrown \<Rightarrow> State_Monad.return Thrown
             | Returned (Inl _) \<Rightarrow> State_Monad.return Thrown
             | Returned (Inr projection) \<Rightarrow>
                 if ce_status (ct_cellResult projection) \<noteq> CS_skipped then State_Monad.return Thrown
                 else do {
                   calls [Dag_finalize_cell (run_workspaceId run)
                     \<lparr>cf_artifact = None, cf_cellResult = ct_cellResult projection, cf_manifest = None,
                      cf_sourceRunAggregateVersion = run_aggregateVersion run\<rparr>];
                   State_Monad.return (Returned ())
                 }))"

definition settleRunCancellation :: "dag_ports \<Rightarrow> dag_context \<Rightarrow> js_number \<Rightarrow> run dag_program" where
  "settleRunCancellation ports context now =
     (let run = dc_run context; correlationId = lit ''dag-cancel:'' @ run_runId run
      in case canonicalContentHash (dq_sha256 ports) (V_object
           [(lit ''runId'', V_string (run_runId run)),
            (lit ''type'', V_string (lit ''SettleCancellation''))]) of
          None \<Rightarrow> State_Monad.return Thrown
        | Some hash \<Rightarrow>
            let identity = \<lparr>rci_idempotencyKey =
                  lit ''settle-cancellation:'' @ run_runId run @ lit '':'' @ pl_planHash (dc_plan context),
                  rci_commandHash = hash\<rparr>
            in do {
              eventId \<leftarrow> call Dag_event_id (dq_eventId ports 0);
              (case applyRunCommand run SettleCancellation
                  ((conclude_context context identity [eventId] now)
                     \<lparr>rcx_correlationId := correlationId\<rparr>) of
                 Inl _ \<Rightarrow> State_Monad.return Thrown
               | Inr t \<Rightarrow> do {
                   calls (persist_run context T_SettleCancellation identity correlationId t);
                   and_return (finalizeCancelledRecipeCell ports context (tr_aggregate t))
                     (\<lambda>_. State_Monad.return (Returned (tr_aggregate t)))
                 })
            })"

definition classifyJobOutcome :: "dag_finalization \<Rightarrow> dag_progress \<Rightarrow> bool \<Rightarrow> job_outcome" where
  "classifyJobOutcome convergence materialized readyNodeAuthorizationIsOpen =
     (case convergence of
        Finalized C_failed _ _ \<Rightarrow> Job_failure_finalized
      | Finalized C_completed _ _ \<Rightarrow> Job_success_finalized
      | Final_not_ready reason \<Rightarrow>
          if length (pg_created materialized) > 0 \<or> length (pg_skipped materialized) > 0
          then Job_steps_materialized
          else if \<not> readyNodeAuthorizationIsOpen \<and> reason = Step_coverage_incomplete then Job_waiting
          else Job_blocked reason)"

record dag_processed =
  dr_created :: "step_run list"
  dr_finalized :: "(result_manifest \<times> run) option"
  dr_outcome :: job_outcome
  dr_runId :: jstring
  dr_skipped :: "step_run list"
  dr_workspaceId :: jstring

datatype dag_result = Dag_idle | Dag_processed dag_processed

text \<open>Completing the job with an outcome, when no step was made.\<close>

definition processed_without_steps :: "run \<Rightarrow> job_outcome \<Rightarrow> dag_result dag_program" where
  "processed_without_steps run job = do {
     calls [Dag_complete_job (run_workspaceId run) (run_runId run) job];
     State_Monad.return (Returned (Dag_processed
       \<lparr>dr_created = [], dr_finalized = None, dr_outcome = job, dr_runId = run_runId run,
        dr_skipped = [], dr_workspaceId = run_workspaceId run\<rparr>))
   }"

definition schedule_running_run ::
  "dag_ports \<Rightarrow> dag_context \<Rightarrow> js_number \<Rightarrow> dag_result dag_program" where
  "schedule_running_run ports context now =
     (let run = dc_run context
      in and_return (materializeReadyNodes ports context now) (\<lambda>materialized.
         and_return (finalizeRun ports context materialized now) (\<lambda>convergence.
           let job = classifyJobOutcome convergence materialized (schedulingWindowIsOpen context now)
           in do {
             calls [Dag_complete_job (run_workspaceId run) (run_runId run) job];
             State_Monad.return (Returned (Dag_processed
               \<lparr>dr_created = pg_created materialized,
                dr_finalized = (case convergence of
                   Finalized _ manifest finalRun \<Rightarrow> Some (manifest, finalRun)
                 | Final_not_ready _ \<Rightarrow> None),
                dr_outcome = job, dr_runId = run_runId run, dr_skipped = pg_skipped materialized,
                dr_workspaceId = run_workspaceId run\<rparr>))
           })))"

definition materializeNextDagRun :: "dag_ports \<Rightarrow> dag_result dag_program" where
  "materializeNextDagRun ports = do {
     claimed_context \<leftarrow> call Dag_claim_next (dq_next ports);
     (case claimed_context of
        None \<Rightarrow> State_Monad.return (Returned Dag_idle)
      | Some context \<Rightarrow>
          if \<not> context_identity_ok context then State_Monad.return Thrown
          else do {
            now \<leftarrow> call Dag_clock (dq_now ports);
            let run = dc_run context
            in if isTerminalRun run
               then and_return (assertTerminalRunManifest ports context) (\<lambda>_.
                 and_return (finalizeCancelledRecipeCell ports context run) (\<lambda>_.
                   processed_without_steps run Job_stale_terminal))
               else if run_state run = R_cancelling
               then (case cancellationCanSettle context of
                   None \<Rightarrow> State_Monad.return Thrown
                 | Some True \<Rightarrow>
                     and_return (settleRunCancellation ports context now) (\<lambda>_.
                       processed_without_steps run Job_stale_terminal)
                 | Some False \<Rightarrow> processed_without_steps run Job_waiting)
               else if run_state run \<noteq> R_running then processed_without_steps run Job_waiting
               else schedule_running_run ports context now
          })
   }"

end
