(* ===== verification/Dag_Pass.thy ===== *)
theory Dag_Pass
  imports Dag_Scheduling Transition_Properties Workflow_Properties
begin

text \<open>
  One pass of the scheduler over the nodes of a plan: what it creates and skips is justified by
  the steps that it leaves, and it leaves nothing to do for a second pass.
\<close>

section \<open>Programs\<close>

lemma appends_and_return [appending]:
  assumes "appends m" and "\<And>v. appends (f v)"
  shows "appends (and_return m f)"
  unfolding and_return_def using assms by (intro appending)

lemma and_return_simps:
  assumes "appends m" and "\<And>v. appends (f v)"
  shows "outcome_of (and_return m f) =
      (case outcome_of m of Thrown \<Rightarrow> Thrown | Returned v \<Rightarrow> outcome_of (f v))"
    "trace_of (and_return m f) =
      trace_of m @ (case outcome_of m of Thrown \<Rightarrow> [] | Returned v \<Rightarrow> trace_of (f v))"
proof -
  let ?next = "\<lambda>a. case a of Thrown \<Rightarrow> State_Monad.return Thrown | Returned v \<Rightarrow> f v"
  have "appends (?next (outcome_of m))" using assms(2) by (intro appending)
  note bound = bind_simps [where m = m and f = ?next, OF assms(1) this]
  show "outcome_of (and_return m f) =
      (case outcome_of m of Thrown \<Rightarrow> Thrown | Returned v \<Rightarrow> outcome_of (f v))"
    "trace_of (and_return m f) =
      trace_of m @ (case outcome_of m of Thrown \<Rightarrow> [] | Returned v \<Rightarrow> trace_of (f v))"
    unfolding and_return_def bound by (simp_all split: outcome.split)
qed

lemma appends_node [appending]: "appends (materialize_node ports context now node progress)"
  unfolding materialize_node_def Let_def by (intro appending)

lemma appends_nodes [appending]: "appends (materialize_nodes ports context now nodes progress)"
  by (induction nodes arbitrary: progress) (auto intro!: appending)


section \<open>One node\<close>

datatype node_turn = Keep | Skip_node | Create_node

definition turn_of :: "bool \<Rightarrow> (jstring, step_run) js_map \<Rightarrow> compiled_node \<Rightarrow> node_turn" where
  "turn_of window_open steps node =
     (if map_has steps (cn_key node) then Keep
      else if blockedDependencies node steps \<noteq> [] then Skip_node
      else if window_open \<and> nodeIsReady node steps then Create_node else Keep)"

text \<open>What a turn that does something makes of the progress.\<close>

definition advanced ::
  "bool \<Rightarrow> dag_progress \<Rightarrow> compiled_node \<Rightarrow> step_run \<Rightarrow> dag_progress" where
  "advanced skipped progress node stepRun = progress
     \<lparr>pg_steps := map_set (cn_key node) stepRun (pg_steps progress),
      pg_created := pg_created progress @ (if skipped then [] else [stepRun]),
      pg_skipped := pg_skipped progress @ (if skipped then [stepRun] else []),
      pg_asked := pg_asked progress + 1\<rparr>"

lemma scheduled_step:
  "scheduleStep input = Inr (event, s) \<Longrightarrow> sr_state s = S_ready \<and> sr_nodeKey s = ss_nodeKey input"
  by (auto simp: scheduleStep_def Let_def split: if_splits)

lemma skipped_step:
  "skipStep input = Inr (event, s) \<Longrightarrow> sr_state s = S_skipped \<and> sr_nodeKey s = sk_nodeKey input"
  by (auto simp: skipStep_def Let_def split: if_splits)

lemma node_turn_keep:
  assumes "turn_of (schedulingWindowIsOpen context now) (pg_steps progress) node = Keep"
  shows "outcome_of (materialize_node ports context now node progress) = Returned progress"
    "trace_of (materialize_node ports context now node progress) = []"
  using assms unfolding materialize_node_def turn_of_def Let_def by (auto split: if_splits)

lemma node_skipped:
  assumes "turn_of (schedulingWindowIsOpen context now) (pg_steps progress) node = Skip_node"
  shows "outcome_of (materialize_node ports context now node progress) =
    (case Option.bind (deterministicStepRunId (dq_sha256 ports) context (cn_key node))
        (\<lambda>stepRunId. case skipStep (skip_input context now node (blockedDependencies node (pg_steps progress))
            (dq_eventId ports (pg_asked progress)) stepRunId) of
           Inl _ \<Rightarrow> None | Inr decision \<Rightarrow> Some decision) of
       None \<Rightarrow> Thrown
     | Some (event, stepRun) \<Rightarrow> Returned (advanced True progress node stepRun))"
  using assms unfolding materialize_node_def turn_of_def Let_def advanced_def
  by (auto simp: programs split: if_splits option.split prod.split)

lemma node_created:
  assumes "turn_of (schedulingWindowIsOpen context now) (pg_steps progress) node = Create_node"
  shows "outcome_of (materialize_node ports context now node progress) =
    (case Option.bind (deterministicStepRunId (dq_sha256 ports) context (cn_key node))
        (\<lambda>stepRunId. case scheduleStep (schedule_input context now node
            (dq_eventId ports (pg_asked progress)) stepRunId) of
           Inl _ \<Rightarrow> None | Inr decision \<Rightarrow> Some decision) of
       None \<Rightarrow> Thrown
     | Some (event, stepRun) \<Rightarrow> Returned (advanced False progress node stepRun))"
  using assms unfolding materialize_node_def turn_of_def Let_def advanced_def
  by (auto simp: programs split: if_splits option.split prod.split)

lemma decided_step:
  "Option.bind d (\<lambda>i. case f i of Inl e \<Rightarrow> None | Inr x \<Rightarrow> Some x) = Some x \<longleftrightarrow>
   (\<exists>i. d = Some i \<and> f i = Inr x)"
  by (cases d) (auto split: sum.splits)

lemma node_turn:
  assumes "outcome_of (materialize_node ports context now node progress) = Returned after"
    and "turn_of (schedulingWindowIsOpen context now) (pg_steps progress) node = turn"
  shows "turn = Keep \<and> after = progress \<or>
    turn \<noteq> Keep \<and> (\<exists>stepRun. after = advanced (turn = Skip_node) progress node stepRun \<and>
      sr_nodeKey stepRun = cn_key node \<and>
      sr_state stepRun = (if turn = Skip_node then S_skipped else S_ready))"
proof (cases turn)
  case Keep
  then show ?thesis using assms node_turn_keep(1) by simp
next
  case Skip_node
  note turn = assms(2) [unfolded Skip_node]
  obtain event stepRun i where "after = advanced True progress node stepRun"
    "skipStep (skip_input context now node (blockedDependencies node (pg_steps progress))
       (dq_eventId ports (pg_asked progress)) i) = Inr (event, stepRun)"
    using assms(1) [unfolded node_skipped [OF turn]] by (auto simp: decided_step split: option.splits)
  then show ?thesis using Skip_node skipped_step by (force simp: skip_input_def)
next
  case Create_node
  note turn = assms(2) [unfolded Create_node]
  obtain event stepRun i where "after = advanced False progress node stepRun"
    "scheduleStep (schedule_input context now node (dq_eventId ports (pg_asked progress)) i) =
       Inr (event, stepRun)"
    using assms(1) [unfolded node_created [OF turn]] by (auto simp: decided_step split: option.splits)
  then show ?thesis using Create_node scheduled_step by (force simp: schedule_input_def)
qed


section \<open>The pass\<close>

definition in_order :: "compiled_node list \<Rightarrow> bool" where
  "in_order nodes \<longleftrightarrow>
     sorted_wrt (\<lambda>node later. cn_key later \<notin> insert (cn_key node) (set (cn_dependsOn node))) nodes \<and>
     (\<forall>node\<in>set nodes. cn_key node \<notin> set (cn_dependsOn node))"

lemma in_order_Cons:
  "in_order (node # nodes) \<longleftrightarrow>
     (\<forall>later\<in>set nodes. cn_key later \<notin> insert (cn_key node) (set (cn_dependsOn node))) \<and>
     cn_key node \<notin> set (cn_dependsOn node) \<and> in_order nodes"
  by (auto simp: in_order_def)

lemma compiled_in_order:
  assumes "compileWorkflow input = Inr w"
  shows "in_order (cw_nodes w)"
proof -
  let ?ks = "map cn_key (cw_nodes w)"
  note dist = compiled_nodes_ordered(1) [OF assms]
  have fresh: "?ks ! j \<notin> set (take j ?ks)" if "j < length (cw_nodes w)" for j
    using dist that by (auto simp: in_set_conv_nth distinct_conv_nth)
  have later: "?ks ! j \<notin> insert (?ks ! i) (set (cn_dependsOn (cw_nodes w ! i)))"
    if "i < j" "j < length (cw_nodes w)" for i j
  proof -
    have "insert (?ks ! i) (set (cn_dependsOn (cw_nodes w ! i))) \<subseteq> set (take j ?ks)"
      using compiled_nodes_ordered(2) [OF assms, of i] that set_take_subset_set_take [of i j ?ks]
      by (auto simp: in_set_conv_nth)
    then show ?thesis using fresh [OF that(2)] by blast
  qed
  have own: "?ks ! i \<notin> set (cn_dependsOn (cw_nodes w ! i))" if "i < length (cw_nodes w)" for i
    using compiled_nodes_ordered(2) [OF assms that] fresh [OF that] by blast
  show ?thesis
    unfolding in_order_def sorted_wrt_iff_nth_less
    using later own by (auto simp: in_set_conv_nth)
qed

text \<open>The turn of a node depends on its own step and on those of its dependencies only.\<close>

lemma turn_cong:
  assumes "\<And>k. k = cn_key node \<or> k \<in> set (cn_dependsOn node) \<Longrightarrow> map_get a k = map_get b k"
  shows "turn_of window_open a node = turn_of window_open b node"
proof -
  have "state_at a k = state_at b k" if "k \<in> set (cn_dependsOn node)" for k
    using assms that by (simp add: state_at_def)
  then show ?thesis
    using assms [of "cn_key node"]
    by (simp add: turn_of_def map_has_def blockedDependencies_def nodeIsReady_def list_all_iff cong: filter_cong)
qed

text \<open>Why a step was created or skipped, by the steps of a map.\<close>

definition created_for :: "bool \<Rightarrow> compiled_node list \<Rightarrow> (jstring, step_run) js_map \<Rightarrow> step_run \<Rightarrow> bool" where
  "created_for window_open nodes steps stepRun \<longleftrightarrow>
     sr_state stepRun = S_ready \<and> map_get steps (sr_nodeKey stepRun) = Some stepRun \<and> window_open \<and>
     (\<exists>node\<in>set nodes. cn_key node = sr_nodeKey stepRun \<and> cn_humanGate node = None \<and>
        (\<forall>d\<in>set (cn_dependsOn node). state_at steps d = Some S_succeeded))"

definition skipped_for :: "compiled_node list \<Rightarrow> (jstring, step_run) js_map \<Rightarrow> step_run \<Rightarrow> bool" where
  "skipped_for nodes steps stepRun \<longleftrightarrow>
     sr_state stepRun = S_skipped \<and> map_get steps (sr_nodeKey stepRun) = Some stepRun \<and>
     (\<exists>node\<in>set nodes. cn_key node = sr_nodeKey stepRun \<and>
        (\<exists>d\<in>set (cn_dependsOn node). state_at steps d \<in> {Some S_failed, Some S_skipped}))"


lemma turn_of_create:
  "turn_of window_open steps node = Create_node \<longleftrightarrow>
     \<not> map_has steps (cn_key node) \<and> blockedDependencies node steps = [] \<and> window_open \<and>
     cn_humanGate node = None \<and> (\<forall>d\<in>set (cn_dependsOn node). state_at steps d = Some S_succeeded)"
  by (auto simp: turn_of_def nodeIsReady_def list_all_iff)

lemma turn_of_skip:
  "turn_of window_open steps node = Skip_node \<longleftrightarrow>
     \<not> map_has steps (cn_key node) \<and>
     (\<exists>d\<in>set (cn_dependsOn node). state_at steps d \<in> {Some S_failed, Some S_skipped})"
  by (auto simp: turn_of_def blockedDependencies_def filter_empty_conv)

lemma turn_of_present: "map_has steps (cn_key node) \<Longrightarrow> turn_of window_open steps node = Keep"
  by (simp add: turn_of_def)

lemma reason_cong:
  assumes "\<And>k. k \<in> cn_key ` set nodes \<union> (\<Union>node\<in>set nodes. set (cn_dependsOn node)) \<Longrightarrow> map_get a k = map_get b k"
  shows "created_for window_open nodes a stepRun \<longleftrightarrow> created_for window_open nodes b stepRun"
    "skipped_for nodes a stepRun \<longleftrightarrow> skipped_for nodes b stepRun"
proof -
  have at: "state_at a d = state_at b d" if "node \<in> set nodes" "d \<in> set (cn_dependsOn node)" for node d
    unfolding state_at_def using that by (subst assms) auto
  have get: "map_get a (cn_key node) = map_get b (cn_key node)" if "node \<in> set nodes" for node
    using assms that by blast
  show "created_for window_open nodes a stepRun \<longleftrightarrow> created_for window_open nodes b stepRun"
    unfolding created_for_def using at get by (smt (verit, best))
  show "skipped_for nodes a stepRun \<longleftrightarrow> skipped_for nodes b stepRun"
    unfolding skipped_for_def using at get by (smt (verit, best))
qed

lemma reason_mono:
  "created_for window_open nodes steps stepRun \<Longrightarrow> created_for window_open (node # nodes) steps stepRun"
  "skipped_for nodes steps stepRun \<Longrightarrow> skipped_for (node # nodes) steps stepRun"
  by (auto simp: created_for_def skipped_for_def)

text \<open>One turn, by what it changes.\<close>

lemma map_get_set: "map_get (map_set k v m) k' = (if k' = k then Some v else map_get m k')"
  by (simp add: map_get_def map_set_def AList.update_conv')

lemma turn_effect:
  assumes "outcome_of (materialize_node ports context now node progress) = Returned after"
    and "cn_key node \<notin> set (cn_dependsOn node)"
  defines "W \<equiv> schedulingWindowIsOpen context now"
  shows "(\<forall>k. k \<noteq> cn_key node \<or> map_has (pg_steps progress) k \<longrightarrow>
      map_get (pg_steps after) k = map_get (pg_steps progress) k)"
    and "turn_of W (pg_steps after) node = Keep"
    and "\<exists>created skipped. pg_created after = pg_created progress @ created \<and>
      pg_skipped after = pg_skipped progress @ skipped \<and>
      pg_steps after = pg_steps progress @ map (\<lambda>s. (sr_nodeKey s, s)) (created @ skipped) \<and>
      (\<forall>s\<in>set created. created_for W [node] (pg_steps after) s) \<and>
      (\<forall>s\<in>set skipped. skipped_for [node] (pg_steps after) s)"
proof -
  define turn where "turn = turn_of W (pg_steps progress) node"
  consider "turn = Keep" "after = progress"
    | s where "turn \<noteq> Keep" "after = advanced (turn = Skip_node) progress node s"
      "sr_nodeKey s = cn_key node" "sr_state s = (if turn = Skip_node then S_skipped else S_ready)"
    using node_turn [OF assms(1) refl] unfolding turn_def W_def by blast
  then have "(\<forall>k. k \<noteq> cn_key node \<or> map_has (pg_steps progress) k \<longrightarrow>
      map_get (pg_steps after) k = map_get (pg_steps progress) k) \<and>
    turn_of W (pg_steps after) node = Keep \<and>
    (\<exists>created skipped. pg_created after = pg_created progress @ created \<and>
      pg_skipped after = pg_skipped progress @ skipped \<and>
      pg_steps after = pg_steps progress @ map (\<lambda>s. (sr_nodeKey s, s)) (created @ skipped) \<and>
      (\<forall>s\<in>set created. created_for W [node] (pg_steps after) s) \<and>
      (\<forall>s\<in>set skipped. skipped_for [node] (pg_steps after) s))"
  proof cases
    case 1
    then show ?thesis unfolding turn_def by (intro conjI exI [of _ "[]"]) auto
  next
    case 2
    have fresh: "\<not> map_has (pg_steps progress) (cn_key node)"
      using 2(1) turn_of_present unfolding turn_def by blast
    have steps: "pg_steps after = map_set (cn_key node) s (pg_steps progress)"
      using 2(2) by (simp add: advanced_def)
    have get: "map_get (pg_steps after) k = (if k = cn_key node then Some s else map_get (pg_steps progress) k)" for k
      unfolding steps by (rule map_get_set)
    have grown: "pg_steps after = pg_steps progress @ [(sr_nodeKey s, s)]"
      unfolding steps 2(3) using fresh by (simp add: map_set_fresh map_has_def js_map.get_keys)
    have at: "state_at (pg_steps after) d = state_at (pg_steps progress) d" if "d \<in> set (cn_dependsOn node)" for d
      using that assms(2) get [of d] by (auto simp: state_at_def)
    have kept: "\<forall>k. k \<noteq> cn_key node \<or> map_has (pg_steps progress) k \<longrightarrow>
        map_get (pg_steps after) k = map_get (pg_steps progress) k"
      using get fresh by (auto simp: map_has_def)
    have present: "turn_of W (pg_steps after) node = Keep"
      using get [of "cn_key node"] by (intro turn_of_present) (simp add: map_has_def)
    show ?thesis
    proof (cases "turn = Skip_node")
      case True
      then have "skipped_for [node] (pg_steps after) s"
        using 2(3,4) get at True [unfolded turn_def turn_of_skip] by (auto simp: skipped_for_def)
      then show ?thesis using kept present grown 2(2) True
        by (intro conjI exI [of _ "[]"] exI [of _ "[s]"]) (auto simp: advanced_def)
    next
      case False
      then have "turn = Create_node" using 2(1) by (cases turn) simp_all
      then have "created_for W [node] (pg_steps after) s"
        using 2(3,4) get at False by (auto simp: turn_def turn_of_create created_for_def)
      then show ?thesis using kept present grown 2(2) False
        by (intro conjI exI [of _ "[s]"] exI [of _ "[]"]) (auto simp: advanced_def)
    qed
  qed
  then show "\<forall>k. k \<noteq> cn_key node \<or> map_has (pg_steps progress) k \<longrightarrow>
      map_get (pg_steps after) k = map_get (pg_steps progress) k"
    "turn_of W (pg_steps after) node = Keep"
    "\<exists>created skipped. pg_created after = pg_created progress @ created \<and>
      pg_skipped after = pg_skipped progress @ skipped \<and>
      pg_steps after = pg_steps progress @ map (\<lambda>s. (sr_nodeKey s, s)) (created @ skipped) \<and>
      (\<forall>s\<in>set created. created_for W [node] (pg_steps after) s) \<and>
      (\<forall>s\<in>set skipped. skipped_for [node] (pg_steps after) s)" by blast+
qed

lemma nodes_step:
  "outcome_of (materialize_nodes ports context now (node # nodes) progress) = Returned q \<longleftrightarrow>
   (\<exists>after. outcome_of (materialize_node ports context now node progress) = Returned after \<and>
      outcome_of (materialize_nodes ports context now nodes after) = Returned q)"
  by (simp add: and_return_simps appends_node appends_nodes split: outcome.split)

lemma pass_effect:
  assumes "outcome_of (materialize_nodes ports context now nodes progress) = Returned q"
    and "in_order nodes"
  defines "W \<equiv> schedulingWindowIsOpen context now"
  shows "(\<forall>k. k \<notin> cn_key ` set nodes \<or> map_has (pg_steps progress) k \<longrightarrow>
      map_get (pg_steps q) k = map_get (pg_steps progress) k) \<and>
    (\<forall>node\<in>set nodes. turn_of W (pg_steps q) node = Keep) \<and>
    (\<exists>created skipped new_steps. pg_created q = pg_created progress @ created \<and>
      pg_skipped q = pg_skipped progress @ skipped \<and>
      pg_steps q = pg_steps progress @ map (\<lambda>s. (sr_nodeKey s, s)) new_steps \<and>
      set new_steps = set created \<union> set skipped \<and>
      (\<forall>s\<in>set created. created_for W nodes (pg_steps q) s) \<and>
      (\<forall>s\<in>set skipped. skipped_for nodes (pg_steps q) s))"
  using assms(1,2)
proof (induction nodes arbitrary: progress)
  case Nil
  then show ?case by auto
next
  case (Cons node nodes)
  obtain mid where mid: "outcome_of (materialize_node ports context now node progress) = Returned mid"
    and rest: "outcome_of (materialize_nodes ports context now nodes mid) = Returned q"
    using Cons.prems(1) unfolding nodes_step by blast
  have order: "cn_key node \<notin> set (cn_dependsOn node)" "in_order nodes"
    "\<And>k. k \<in> insert (cn_key node) (set (cn_dependsOn node)) \<Longrightarrow> k \<notin> cn_key ` set nodes"
    using Cons.prems(2) by (auto simp: in_order_Cons)
  note one = turn_effect [OF mid order(1), folded W_def]
  obtain c1 s1 where first_part: "pg_created mid = pg_created progress @ c1"
    "pg_skipped mid = pg_skipped progress @ s1"
    "pg_steps mid = pg_steps progress @ map (\<lambda>s. (sr_nodeKey s, s)) (c1 @ s1)"
    "\<forall>s\<in>set c1. created_for W [node] (pg_steps mid) s" "\<forall>s\<in>set s1. skipped_for [node] (pg_steps mid) s"
    using one(3) by blast
  from Cons.IH [OF rest order(2)] obtain c2 s2 n2 where
    kept: "\<And>k. k \<notin> cn_key ` set nodes \<or> map_has (pg_steps mid) k \<Longrightarrow>
      map_get (pg_steps q) k = map_get (pg_steps mid) k"
    and keeps: "\<forall>node\<in>set nodes. turn_of W (pg_steps q) node = Keep"
    and second_part: "pg_created q = pg_created mid @ c2" "pg_skipped q = pg_skipped mid @ s2"
    "pg_steps q = pg_steps mid @ map (\<lambda>s. (sr_nodeKey s, s)) n2" "set n2 = set c2 \<union> set s2"
    "\<forall>s\<in>set c2. created_for W nodes (pg_steps q) s" "\<forall>s\<in>set s2. skipped_for nodes (pg_steps q) s"
    by blast
  have near: "map_get (pg_steps q) k = map_get (pg_steps mid) k"
    if "k = cn_key node \<or> k \<in> set (cn_dependsOn node)" for k
    using kept order(3) [of k] that by blast
  have turn: "turn_of W (pg_steps q) node = Keep"
    using turn_cong [OF near, of node] one(2) by simp
  have reasons: "created_for W [node] (pg_steps mid) s \<longleftrightarrow> created_for W [node] (pg_steps q) s"
    "skipped_for [node] (pg_steps mid) s \<longleftrightarrow> skipped_for [node] (pg_steps q) s" for s
    by (rule reason_cong; simp add: near)+
  have sub: "created_for W [node] (pg_steps q) s \<Longrightarrow> created_for W (node # nodes) (pg_steps q) s"
    "skipped_for [node] (pg_steps q) s \<Longrightarrow> skipped_for (node # nodes) (pg_steps q) s" for s
    by (auto simp: created_for_def skipped_for_def)
  have outer: "map_get (pg_steps q) k = map_get (pg_steps progress) k"
    if "k \<notin> cn_key ` set (node # nodes) \<or> map_has (pg_steps progress) k" for k
  proof -
    have "map_get (pg_steps mid) k = map_get (pg_steps progress) k"
      using one(1) that by (cases "k = cn_key node") auto
    moreover from this have "k \<notin> cn_key ` set nodes \<or> map_has (pg_steps mid) k"
      using that by (auto simp: map_has_def)
    ultimately show ?thesis using kept by simp
  qed
  have new: "pg_steps q = pg_steps progress @ map (\<lambda>s. (sr_nodeKey s, s)) (c1 @ s1 @ n2)"
    "set (c1 @ s1 @ n2) = set (c1 @ c2) \<union> set (s1 @ s2)"
    using first_part(3) second_part(3,4) by auto
  have why: "\<forall>s\<in>set (c1 @ c2). created_for W (node # nodes) (pg_steps q) s"
    "\<forall>s\<in>set (s1 @ s2). skipped_for (node # nodes) (pg_steps q) s"
    using first_part(4,5) second_part(5,6) reasons sub reason_mono by auto
  show ?case
    using outer turn keeps first_part(1,2) second_part(1,2) new why
    by (intro conjI allI impI exI [of _ "c1 @ c2"] exI [of _ "s1 @ s2"] exI [of _ "c1 @ s1 @ n2"]) auto
qed

lemma pass_idle:
  assumes "\<forall>node\<in>set nodes. turn_of (schedulingWindowIsOpen context now) (pg_steps progress) node = Keep"
  shows "outcome_of (materialize_nodes ports context now nodes progress) = Returned progress \<and>
    trace_of (materialize_nodes ports context now nodes progress) = []"
  using assms by (induction nodes) (simp_all add: and_return_simps appends_node appends_nodes node_turn_keep)

text \<open>The steps of the map are those of the list, under the keys of their nodes.\<close>

definition keyed_steps :: "(jstring, step_run) js_map \<Rightarrow> bool" where
  "keyed_steps m \<longleftrightarrow> distinct (map fst m) \<and> (\<forall>(k, s)\<in>set m. k = sr_nodeKey s)"

lemma keyed_steps_set: "keyed_steps m \<Longrightarrow> sr_nodeKey s = k \<Longrightarrow> keyed_steps (map_set k s m)"
proof -
  assume m: "keyed_steps m" and s: "sr_nodeKey s = k"
  have sub: "set (AList.update k s m) \<subseteq> insert (k, s) (set m)" by (induction m) auto
  have "\<forall>(k', s')\<in>set (AList.update k s m). k' = sr_nodeKey s'"
    using subset_iff [THEN iffD1, OF sub] m s unfolding keyed_steps_def by blast
  moreover have "distinct (map fst (AList.update k s m))"
    using m unfolding keyed_steps_def by (intro AList.distinct_update) blast
  ultimately show ?thesis unfolding keyed_steps_def map_set_def by blast
qed

lemma keyed_steps_from: "keyed_steps (map_from (map (\<lambda>s. (sr_nodeKey s, s)) steps))"
proof -
  have "keyed_steps (fold (\<lambda>(k, v) m. map_set k v m) (map (\<lambda>s. (sr_nodeKey s, s)) steps) m)"
    if "keyed_steps m" for m
    using that by (induction steps arbitrary: m) (simp_all add: keyed_steps_set)
  from this [of "[]"] show ?thesis by (simp add: map_from_def keyed_steps_def)
qed

lemma keyed_steps_list: "keyed_steps m \<Longrightarrow> map_from (map (\<lambda>s. (sr_nodeKey s, s)) (map snd m)) = m"
proof -
  assume m: "keyed_steps m"
  then have "map (\<lambda>s. (sr_nodeKey s, s)) (map snd m) = m"
    by (auto simp: keyed_steps_def intro!: map_idI)
  then show ?thesis using m by (simp add: keyed_steps_def map_from_distinct del: map_map)
qed

lemma pass_keyed:
  "outcome_of (materialize_nodes ports context now nodes progress) = Returned q \<Longrightarrow>
   keyed_steps (pg_steps progress) \<Longrightarrow> keyed_steps (pg_steps q)"
proof (induction nodes arbitrary: progress)
  case (Cons node nodes)
  then obtain mid where mid: "outcome_of (materialize_node ports context now node progress) = Returned mid"
    and rest: "outcome_of (materialize_nodes ports context now nodes mid) = Returned q"
    unfolding nodes_step by blast
  have "keyed_steps (pg_steps mid)"
    using node_turn [OF mid refl] Cons.prems(2) by (auto simp: advanced_def intro: keyed_steps_set)
  then show ?case by (rule Cons.IH [OF rest])
qed simp


section \<open>The job\<close>

lemma appends_ready [appending]: "appends (materializeReadyNodes ports context now)"
  unfolding materializeReadyNodes_def by (rule appends_nodes)

lemma appends_cell [appending]: "appends (finalize_recipe_cell ports context manifest run)"
  unfolding finalize_recipe_cell_def
  by (auto intro!: appending split: option.split outcome.split sum.split)

lemma appends_conclude [appending]: "appends (concludeRun ports context asked conclusion body now)"
  unfolding concludeRun_def Let_def
  by (auto intro!: appending split: option.split)

lemma appends_finalize [appending]: "appends (finalizeRun ports context progress now)"
  unfolding finalizeRun_def
  by (auto intro!: appending split: sum.split convergence_decision.split)

lemma appends_terminal [appending]: "appends (assertTerminalRunManifest ports context)"
  unfolding assertTerminalRunManifest_def Let_def by (intro appending)

lemma appends_cancelled_cell [appending]: "appends (finalizeCancelledRecipeCell ports context run)"
  unfolding finalizeCancelledRecipeCell_def
  by (auto intro!: appending split: option.split outcome.split sum.split)

lemma appends_cancellation [appending]: "appends (settleRunCancellation ports context now)"
  unfolding settleRunCancellation_def Let_def by (auto intro!: appending split: option.split)

lemma appends_processed [appending]: "appends (processed_without_steps run job)"
  unfolding processed_without_steps_def by (intro appending)

lemma appends_schedule [appending]: "appends (schedule_running_run ports context now)"
  unfolding schedule_running_run_def Let_def by (intro appending)

text \<open>What the job does with a run, once it has it and the time.\<close>

definition job_for :: "dag_ports \<Rightarrow> dag_context \<Rightarrow> dag_result dag_program" where
  "job_for ports context =
     (let run = dc_run context; now = dq_now ports
      in if isTerminalRun run
         then and_return (assertTerminalRunManifest ports context) (\<lambda>_.
           and_return (finalizeCancelledRecipeCell ports context run) (\<lambda>_.
             processed_without_steps run Job_stale_terminal))
         else if run_state run = R_cancelling
         then (case cancellationCanSettle context of
             None \<Rightarrow> State_Monad.return Thrown
           | Some True \<Rightarrow>
               and_return (settleRunCancellation ports context now) (\<lambda>_.
                 processed_without_steps run Job_stale_terminal)
           | Some False \<Rightarrow> processed_without_steps run Job_waiting)
         else if run_state run \<noteq> R_running then processed_without_steps run Job_waiting
         else schedule_running_run ports context now)"

lemma appends_job [appending]: "appends (job_for ports context)"
  unfolding job_for_def Let_def
  by (auto intro!: appending split: option.split bool.split)

lemma job_runs:
  assumes "dq_next ports = Some context" and "context_identity_ok context"
  shows "outcome_of (materializeNextDagRun ports) = outcome_of (job_for ports context)"
    "trace_of (materializeNextDagRun ports) = [Dag_claim_next, Dag_clock] @ trace_of (job_for ports context)"
proof -
  have "materializeNextDagRun ports = do {
      _ \<leftarrow> call Dag_claim_next (dq_next ports);
      _ \<leftarrow> call Dag_clock (dq_now ports);
      job_for ports context
    }"
    using assms
    by (simp add: materializeNextDagRun_def job_for_def Let_def call_def State_Monad.bind_def)
  then show "outcome_of (materializeNextDagRun ports) = outcome_of (job_for ports context)"
    "trace_of (materializeNextDagRun ports) = [Dag_claim_next, Dag_clock] @ trace_of (job_for ports context)"
    by (simp_all add: bind_simps appending)
qed

lemma job_returned:
  assumes "outcome_of (materializeNextDagRun ports) = Returned (Dag_processed d)"
  obtains found where "dq_next ports = Some found" "context_identity_ok found"
    "outcome_of (job_for ports found) = Returned (Dag_processed d)"
    "trace_of (materializeNextDagRun ports) = [Dag_claim_next, Dag_clock] @ trace_of (job_for ports found)"
proof (cases "dq_next ports")
  case None
  then show thesis using assms
    by (simp add: materializeNextDagRun_def call_def State_Monad.bind_def outcome_of_def
        State_Monad.return_def)
next
  case (Some found)
  have "context_identity_ok found"
  proof (rule ccontr)
    assume "\<not> context_identity_ok found"
    then show False using assms Some
      by (simp add: materializeNextDagRun_def call_def State_Monad.bind_def outcome_of_def
          State_Monad.return_def)
  qed
  then show thesis using that Some job_runs [OF Some] assms by simp
qed

lemma running_job:
  assumes "run_state (dc_run context) = R_running"
  shows "job_for ports context = schedule_running_run ports context (dq_now ports)"
  using assms by (simp add: job_for_def Let_def isTerminalRun_def)

end
