(* ===== verification/Dag_Properties.thy ===== *)
theory Dag_Properties
  imports Dag_Pass Convergence Step_Properties Canonical_Properties
begin

text \<open>
  What the scheduler promises: a pass makes exactly the steps that are due, a second pass makes
  none, and a run is cancelled or concluded only with the proof for it.
\<close>

section \<open>A pass is exact\<close>

text \<open>
  C7. A pass of the scheduler over a compiled workflow keeps every step and makes exactly the
  steps that are due: a created step is ready, inside the window, of a node without a human gate
  whose dependencies all succeeded; a skipped step is of a node with a dependency that failed or
  was skipped; and no node without a step is left that could be created or must be skipped. A
  second pass over the steps it leaves, at the same time, makes none and calls no port.
\<close>

theorem scheduling_pass:
  assumes "compileWorkflow input = Inr (pl_compiledWorkflow (dc_plan context))"
    and "outcome_of (materializeReadyNodes ports context now) = Returned q"
  shows "(\<exists>new_steps.
      pg_steps q = map_from (map (\<lambda>s. (sr_nodeKey s, s)) (dc_stepRuns context)) @
        map (\<lambda>s. (sr_nodeKey s, s)) new_steps \<and>
      set new_steps = set (pg_created q) \<union> set (pg_skipped q)) \<and>
    (\<forall>s\<in>set (pg_created q). sr_state s = S_ready \<and> schedulingWindowIsOpen context now \<and>
      (\<exists>node\<in>set (cw_nodes (pl_compiledWorkflow (dc_plan context))).
         cn_key node = sr_nodeKey s \<and> cn_humanGate node = None \<and>
         (\<forall>d\<in>set (cn_dependsOn node). state_at (pg_steps q) d = Some S_succeeded))) \<and>
    (\<forall>s\<in>set (pg_skipped q). sr_state s = S_skipped \<and>
      (\<exists>node\<in>set (cw_nodes (pl_compiledWorkflow (dc_plan context))). cn_key node = sr_nodeKey s \<and>
         (\<exists>d\<in>set (cn_dependsOn node). state_at (pg_steps q) d \<in> {Some S_failed, Some S_skipped}))) \<and>
    (\<forall>node\<in>set (cw_nodes (pl_compiledWorkflow (dc_plan context))).
      \<not> map_has (pg_steps q) (cn_key node) \<longrightarrow>
      (\<forall>d\<in>set (cn_dependsOn node). state_at (pg_steps q) d \<notin> {Some S_failed, Some S_skipped}) \<and>
      \<not> (schedulingWindowIsOpen context now \<and> nodeIsReady node (pg_steps q))) \<and>
    outcome_of (materializeReadyNodes later (context\<lparr>dc_stepRuns := map snd (pg_steps q)\<rparr>) now) =
      Returned \<lparr>pg_steps = pg_steps q, pg_created = [], pg_skipped = [], pg_asked = 0\<rparr> \<and>
    trace_of (materializeReadyNodes later (context\<lparr>dc_stepRuns := map snd (pg_steps q)\<rparr>) now) = []"
proof -
  let ?nodes = "cw_nodes (pl_compiledWorkflow (dc_plan context))"
  let ?W = "schedulingWindowIsOpen context now"
  let ?start = "map_from (map (\<lambda>s. (sr_nodeKey s, s)) (dc_stepRuns context))"
  note effect = pass_effect [OF assms(2) [unfolded materializeReadyNodes_def] compiled_in_order [OF assms(1)]]
  then obtain new_steps where
    keep: "\<forall>node\<in>set ?nodes. turn_of ?W (pg_steps q) node = Keep"
    and new: "pg_steps q = ?start @ map (\<lambda>s. (sr_nodeKey s, s)) new_steps"
      "set new_steps = set (pg_created q) \<union> set (pg_skipped q)"
      "\<forall>s\<in>set (pg_created q). created_for ?W ?nodes (pg_steps q) s"
      "\<forall>s\<in>set (pg_skipped q). skipped_for ?nodes (pg_steps q) s"
    by auto
  have idle: "\<not> map_has (pg_steps q) (cn_key node) \<longrightarrow>
      (\<forall>d\<in>set (cn_dependsOn node). state_at (pg_steps q) d \<notin> {Some S_failed, Some S_skipped}) \<and>
      \<not> (?W \<and> nodeIsReady node (pg_steps q))" if "node \<in> set ?nodes" for node
    using bspec [OF keep that]
    by (auto simp: turn_of_def blockedDependencies_def filter_empty_conv split: if_splits)
  have "keyed_steps (pg_steps q)"
    using pass_keyed [OF assms(2) [unfolded materializeReadyNodes_def]] keyed_steps_from by simp
  then have again: "map_from (map (\<lambda>s. (sr_nodeKey s, s)) (map snd (pg_steps q))) = pg_steps q"
    by (rule keyed_steps_list)
  have same: "schedulingWindowIsOpen (context\<lparr>dc_stepRuns := steps\<rparr>) now = ?W" for steps
    by (simp add: schedulingWindowIsOpen_def)
  have second: "outcome_of (materializeReadyNodes later (context\<lparr>dc_stepRuns := map snd (pg_steps q)\<rparr>) now) =
      Returned \<lparr>pg_steps = pg_steps q, pg_created = [], pg_skipped = [], pg_asked = 0\<rparr> \<and>
    trace_of (materializeReadyNodes later (context\<lparr>dc_stepRuns := map snd (pg_steps q)\<rparr>) now) = []"
  proof -
    have start: "map_from (map (\<lambda>s. (sr_nodeKey s, s)) (dc_stepRuns (context\<lparr>dc_stepRuns := map snd (pg_steps q)\<rparr>))) =
        pg_steps q"
      using again by simp
    show ?thesis
      unfolding materializeReadyNodes_def start 
      using keep by (intro pass_idle) (simp add: same)
  qed
  show ?thesis
    using new idle second unfolding created_for_def skipped_for_def by blast
qed


section \<open>When a pass returns\<close>

definition digests :: "(byte list \<Rightarrow> jstring) \<Rightarrow> bool" where
  "digests sha256 \<longleftrightarrow> (\<forall>bytes. content_hash_pattern (lit ''sha256:'' @ sha256 bytes))"

lemma step_identity: "digests sha256 \<Longrightarrow> \<exists>i. deterministicStepRunId sha256 context key = Some i"
  by (simp add: deterministicStepRunId_def canonicalContentHash_def serialize_canonical digests_def
      contentHash_def)

lemma skip_accepted: "skip_requested input \<Longrightarrow> \<exists>decision. skipStep input = Inr decision"
  using skipStep_spec [of input] by (cases "skipStep input") auto

lemma schedule_accepted:
  "ss_runState input = R_running \<Longrightarrow> \<not> blank (ss_nodeKey input) \<Longrightarrow>
   set (ss_dependsOn input) \<subseteq> set (ss_satisfiedDependencies input) \<Longrightarrow>
   \<exists>decision. scheduleStep input = Inr decision"
  using scheduleStep_spec [of input] by (cases "scheduleStep input") auto

text \<open>Keys and dependencies that the commands of the kernel accept.\<close>

definition sound_node :: "compiled_node \<Rightarrow> bool" where
  "sound_node node \<longleftrightarrow>
     \<not> blank (cn_key node) \<and> distinct (cn_dependsOn node) \<and> (\<forall>d\<in>set (cn_dependsOn node). \<not> blank d)"

lemma node_returns:
  assumes "run_state (dc_run context) = R_running" and "digests (dq_sha256 ports)" and "sound_node node"
  shows "\<exists>after. outcome_of (materialize_node ports context now node progress) = Returned after"
proof (cases "turn_of (schedulingWindowIsOpen context now) (pg_steps progress) node")
  case Keep
  then show ?thesis using node_turn_keep(1) by blast
next
  case Skip_node
  obtain i where i: "deterministicStepRunId (dq_sha256 ports) context (cn_key node) = Some i"
    using step_identity [OF assms(2)] by blast
  have "skip_requested (skip_input context now node (blockedDependencies node (pg_steps progress))
      (dq_eventId ports (pg_asked progress)) i)"
    using assms(1,3) Skip_node
    by (auto simp: skip_requested_def skip_input_def sound_node_def blockedDependencies_def turn_of_def
        split: if_splits)
  from skip_accepted [OF this] show ?thesis unfolding node_skipped [OF Skip_node] by (auto simp: i)
next
  case Create_node
  obtain i where i: "deterministicStepRunId (dq_sha256 ports) context (cn_key node) = Some i"
    using step_identity [OF assms(2)] by blast
  have "\<exists>decision. scheduleStep (schedule_input context now node (dq_eventId ports (pg_asked progress)) i) =
      Inr decision"
    using assms(1,3) by (intro schedule_accepted) (simp_all add: schedule_input_def sound_node_def)
  then show ?thesis unfolding node_created [OF Create_node] by (auto simp: i)
qed

lemma nodes_return:
  assumes "run_state (dc_run context) = R_running" and "digests (dq_sha256 ports)"
    and "\<forall>node\<in>set nodes. sound_node node"
  shows "\<exists>q. outcome_of (materialize_nodes ports context now nodes progress) = Returned q"
  using assms(3)
proof (induction nodes arbitrary: progress)
  case (Cons node nodes)
  then show ?case using node_returns [OF assms(1,2), of node now progress] unfolding nodes_step by fastforce
qed simp

text \<open>
  C22. A pass over a compiled workflow of a running run never throws, if the keys of the nodes are
  not blank, no node lists a dependency twice, and the digest is one of 64 hexadecimal digits: it
  returns, whatever the steps of the run are and whatever the ports answer.
\<close>

theorem scheduling_pass_returns:
  assumes "compileWorkflow input = Inr (pl_compiledWorkflow (dc_plan context))"
    and "run_state (dc_run context) = R_running"
    and "\<forall>bytes. content_hash_pattern (lit ''sha256:'' @ dq_sha256 ports bytes)"
    and "\<forall>node\<in>set (cw_nodes (pl_compiledWorkflow (dc_plan context))).
      \<not> blank (cn_key node) \<and> distinct (cn_dependsOn node)"
  shows "\<exists>q. outcome_of (materializeReadyNodes ports context now) = Returned q"
proof -
  let ?nodes = "cw_nodes (pl_compiledWorkflow (dc_plan context))"
  have "sound_node node" if mem: "node \<in> set ?nodes" for node
  proof -
    obtain i where i: "i < length ?nodes" "node = ?nodes ! i" using mem by (metis in_set_conv_nth)
    have "set (cn_dependsOn node) \<subseteq> cn_key ` set ?nodes"
      using compiled_nodes_ordered(2) [OF assms(1) i(1)] i(2) set_take_subset [of i "map cn_key ?nodes"]
      by auto
    then show ?thesis using assms(4) mem unfolding sound_node_def by blast
  qed
  then show ?thesis
    unfolding materializeReadyNodes_def using assms(2,3)
    by (intro nodes_return) (simp_all add: digests_def)
qed


section \<open>A dependency that is listed twice\<close>

lemma repeated_blocker:
  assumes "1 < count_list (cn_dependsOn node) d" and "state_at steps d \<in> {Some S_failed, Some S_skipped}"
  shows "\<not> distinct (blockedDependencies node steps)" "d \<in> set (blockedDependencies node steps)"
proof -
  have kept: "count_list (filter P xs) d = count_list xs d" if "P d" for P and xs :: "jstring list"
    using that by (induction xs) auto
  have count: "count_list (blockedDependencies node steps) d = count_list (cn_dependsOn node) d"
    unfolding blockedDependencies_def using assms(2) by (intro kept) auto
  have single: "count_list xs d \<le> 1" if "distinct xs" for xs :: "jstring list"
    using that by (induction xs) (auto simp: count_list_0_iff)
  show "\<not> distinct (blockedDependencies node steps)"
    using single [of "blockedDependencies node steps"] assms(1) unfolding count by linarith
  show "d \<in> set (blockedDependencies node steps)"
    using assms(1) unfolding count [symmetric] by (metis count_list_0_iff not_less_zero)
qed

lemma node_stuck:
  assumes "\<not> map_has (pg_steps progress) (cn_key node)" and "1 < count_list (cn_dependsOn node) d"
    and "state_at (pg_steps progress) d \<in> {Some S_failed, Some S_skipped}"
  shows "outcome_of (materialize_node ports context now node progress) = Thrown"
proof -
  note blockers = repeated_blocker [OF assms(2,3)]
  have skip: "turn_of (schedulingWindowIsOpen context now) (pg_steps progress) node = Skip_node"
    using assms(1) blockers(2) by (auto simp: turn_of_def)
  have "\<not> skip_requested (skip_input context now node (blockedDependencies node (pg_steps progress)) eventId i)"
    for eventId i
    using blockers(1) by (simp add: skip_requested_def skip_input_def)
  then have "\<exists>e. skipStep (skip_input context now node (blockedDependencies node (pg_steps progress)) eventId i) = Inl e"
    for eventId i
    using skipStep_spec [of "skip_input context now node (blockedDependencies node (pg_steps progress)) eventId i"]
    by (auto split: sum.splits)
  then show ?thesis
    unfolding node_skipped [OF skip] by (auto simp: decided_step split: option.split) (metis Inl_Inr_False)
qed

lemma nodes_stuck:
  assumes "in_order nodes" and "node \<in> set nodes" and "1 < count_list (cn_dependsOn node) d"
    and "\<not> map_has (pg_steps progress) (cn_key node)"
    and "state_at (pg_steps progress) d \<in> {Some S_failed, Some S_skipped}"
  shows "outcome_of (materialize_nodes ports context now nodes progress) = Thrown"
  using assms(1,2,4,5)
proof (induction nodes arbitrary: progress)
  case (Cons first nodes)
  show ?case
  proof (cases "first = node")
    case True
    then show ?thesis
      using node_stuck [OF Cons.prems(3) assms(3) Cons.prems(4)]
      by (simp add: and_return_simps appends_node appends_nodes)
  next
    case False
    show ?thesis
    proof (cases "outcome_of (materialize_node ports context now first progress)")
      case Thrown
      then show ?thesis by (simp add: and_return_simps appends_node appends_nodes)
    next
      case (Returned mid)
      have order: "cn_key first \<notin> set (cn_dependsOn first)" "in_order nodes" "cn_key node \<noteq> cn_key first"
        "node \<in> set nodes"
        using Cons.prems(1,2) False by (auto simp: in_order_Cons)
      have kept: "map_get (pg_steps mid) k = map_get (pg_steps progress) k"
        if "k \<noteq> cn_key first \<or> map_has (pg_steps progress) k" for k
        using turn_effect(1) [OF Returned order(1)] that by blast
      have "map_has (pg_steps progress) d" using Cons.prems(4) by (auto simp: state_at_def map_has_def)
      then have "state_at (pg_steps mid) d = state_at (pg_steps progress) d"
        "map_has (pg_steps mid) (cn_key node) = map_has (pg_steps progress) (cn_key node)"
        using kept [of d] kept [of "cn_key node"] order(3) by (simp_all add: state_at_def map_has_def)
      then show ?thesis
        using Cons.IH [OF order(2,4), of mid] Cons.prems(3,4) Returned
        by (simp add: and_return_simps appends_node appends_nodes)
    qed
  qed
qed simp

lemma wrong_identity:
  assumes "dq_next ports = Some context" and "\<not> context_identity_ok context"
  shows "outcome_of (materializeNextDagRun ports) = Thrown"
  using assms by (simp add: materializeNextDagRun_def call_def State_Monad.bind_def outcome_of_def
      State_Monad.return_def)

text \<open>
  C31. A compiled workflow in which a node lists a dependency more than once gets stuck: when that
  dependency has failed or was skipped and the node has no step yet, no job of the scheduler for
  the running run returns. The skip of the node is refused because the blocking nodes are not
  distinct, and the job throws, whatever the other steps are and whatever the ports answer.
\<close>

theorem duplicate_dependency_stuck:
  assumes "compileWorkflow input = Inr (pl_compiledWorkflow (dc_plan context))"
    and "dq_next ports = Some context" and "run_state (dc_run context) = R_running"
    and "node \<in> set (cw_nodes (pl_compiledWorkflow (dc_plan context)))"
    and "1 < count_list (cn_dependsOn node) d"
    and "\<forall>stepRun\<in>set (dc_stepRuns context). sr_nodeKey stepRun \<noteq> cn_key node"
    and "state_at (map_from (map (\<lambda>stepRun. (sr_nodeKey stepRun, stepRun)) (dc_stepRuns context))) d
      \<in> {Some S_failed, Some S_skipped}"
  shows "outcome_of (materializeNextDagRun ports) = Thrown"
proof (cases "context_identity_ok context")
  case True
  let ?start = "map_from (map (\<lambda>stepRun. (sr_nodeKey stepRun, stepRun)) (dc_stepRuns context))"
  have "\<not> map_has ?start (cn_key node)"
    using assms(6) by (auto simp: map_has_def js_map.get_keys)
  then have "outcome_of (materializeReadyNodes ports context now) = Thrown" for now
    unfolding materializeReadyNodes_def
    using assms(7) by (intro nodes_stuck [OF compiled_in_order [OF assms(1)] assms(4,5)]) simp_all
  then have "outcome_of (schedule_running_run ports context now) = Thrown" for now
    by (simp add: schedule_running_run_def Let_def and_return_simps appending)
  then show ?thesis
    using job_runs(1) [OF assms(2) True] by (simp add: running_job [OF assms(3)])
qed (rule wrong_identity [OF assms(2)])

definition ex_twice :: compile_input where
  "ex_twice = ex_compile [ex_node ''a'' [], ex_node ''b'' [''a'', ''a'']]"

definition ex_twice_workflow :: compiled_workflow where
  "ex_twice_workflow =
     \<lparr>cw_workflowSpecId = lit ''w'', cw_workflowRevision = lit ''1'',
      cw_workflowContentHash = lit ''h'', cw_compilerVersion = WORKFLOW_COMPILER_VERSION,
      cw_fingerprint = lit ''a:cap@1::|b:cap@1:a,a:'',
      cw_nodes = [\<lparr>cn_key = lit ''a'', cn_capability = ex_capability, cn_dependsOn = [],
        cn_depth = 0, cn_humanGate = None\<rparr>,
       \<lparr>cn_key = lit ''b'', cn_capability = ex_capability, cn_dependsOn = [lit ''a'', lit ''a''],
        cn_depth = 1, cn_humanGate = None\<rparr>]\<rparr>"

lemma ex_twice_compiles: "compileWorkflow ex_twice = Inr ex_twice_workflow"
  by (simp add: ex_twice_def ex_compile_defs ex_twice_workflow_def ex_capability_def
      workflow_fingerprint_def node_text_def)


definition ex_failed_step :: step_run where
  "ex_failed_step = ex_step\<lparr>sr_nodeKey := lit ''a'', sr_dependsOn := [], sr_state := S_failed\<rparr>"

definition ex_schedule_of :: "compiled_workflow \<Rightarrow> dag_context" where
  "ex_schedule_of workflow =
     \<lparr>dc_artifacts = [], dc_artifactPayloads = None,
      dc_cost = \<lparr>mc_reserved = num 0, mc_spent = num 0, mc_unit = lit ''credit''\<rparr>,
      dc_plan = ex_plan\<lparr>pl_compiledWorkflow := workflow\<rparr>, dc_recipeCell = None,
      dc_reservations = [], dc_run = ex_run R_running 3 3, dc_stepRuns = [ex_failed_step]\<rparr>"

lemma ex_schedule_simps:
  "map_from (map (\<lambda>s. (sr_nodeKey s, s)) (dc_stepRuns (ex_schedule_of workflow))) = [(lit ''a'', ex_failed_step)]"
  "pl_compiledWorkflow (dc_plan (ex_schedule_of workflow)) = workflow"
  "run_state (dc_run (ex_schedule_of workflow)) = R_running"
  "context_identity_ok (ex_schedule_of workflow)"
  by (simp_all add: ex_schedule_of_def ex_failed_step_def map_from_def map_set_def ex_run_def
      context_identity_ok_def Let_def ex_plan_def ex_authority_def ex_step_def)

theorem duplicate_dependency_stuck_witness:
  "compileWorkflow ex_twice = Inr ex_twice_workflow \<and>
   (\<forall>ports. outcome_of (materializeNextDagRun
      (ports\<lparr>dq_next := Some (ex_schedule_of ex_twice_workflow)\<rparr>)) = Thrown)"
proof -
  let ?cx = "ex_schedule_of ex_twice_workflow"
  let ?b = "\<lparr>cn_key = lit ''b'', cn_capability = ex_capability, cn_dependsOn = [lit ''a'', lit ''a''],
    cn_depth = 1, cn_humanGate = None\<rparr>"
  have "?b \<in> set (cw_nodes (pl_compiledWorkflow (dc_plan ?cx)))"
    unfolding ex_schedule_simps by (simp add: ex_twice_workflow_def)
  moreover have "1 < count_list (cn_dependsOn ?b) (lit ''a'')" by simp
  moreover have "\<forall>stepRun\<in>set (dc_stepRuns ?cx). sr_nodeKey stepRun \<noteq> cn_key ?b"
    by (simp add: ex_schedule_of_def ex_failed_step_def lit_def)
  moreover have "state_at [(lit ''a'', ex_failed_step)] (lit ''a'') = Some S_failed"
    by (simp add: state_at_def map_get_def ex_failed_step_def)
  moreover have "compileWorkflow ex_twice = Inr (pl_compiledWorkflow (dc_plan ?cx))"
    using ex_twice_compiles by (simp add: ex_schedule_simps)
  ultimately show ?thesis
    using duplicate_dependency_stuck [of ex_twice ?cx "_\<lparr>dq_next := Some ?cx\<rparr>" ?b "lit ''a''"]
      ex_twice_compiles
    by (simp add: ex_schedule_simps)
qed


section \<open>Examples\<close>

definition ex_chain :: compile_input where
  "ex_chain = ex_compile [ex_node ''a'' [], ex_node ''b'' [''a'']]"

definition ex_chain_workflow :: compiled_workflow where
  "ex_chain_workflow =
     \<lparr>cw_workflowSpecId = lit ''w'', cw_workflowRevision = lit ''1'',
      cw_workflowContentHash = lit ''h'', cw_compilerVersion = WORKFLOW_COMPILER_VERSION,
      cw_fingerprint = lit ''a:cap@1::|b:cap@1:a:'',
      cw_nodes = [\<lparr>cn_key = lit ''a'', cn_capability = ex_capability, cn_dependsOn = [],
        cn_depth = 0, cn_humanGate = None\<rparr>,
       \<lparr>cn_key = lit ''b'', cn_capability = ex_capability, cn_dependsOn = [lit ''a''],
        cn_depth = 1, cn_humanGate = None\<rparr>]\<rparr>"

lemma ex_chain_compiles:
  "compileWorkflow ex_chain = Inr (pl_compiledWorkflow (dc_plan (ex_schedule_of ex_chain_workflow)))"
  by (simp add: ex_chain_def ex_compile_defs ex_chain_workflow_def ex_capability_def
      workflow_fingerprint_def node_text_def ex_schedule_of_def)

definition ex_dag_ports :: dag_ports where
  "ex_dag_ports =
     \<lparr>dq_next = None, dq_now = num 30, dq_eventId = (\<lambda>n. lit ''event''), dq_manifest = (\<lambda>w r. None),
      dq_cellResults = False, dq_sha256 = (\<lambda>bytes. replicate 64 48)\<rparr>"

lemma ex_digests: "content_hash_pattern (lit ''sha256:'' @ dq_sha256 ex_dag_ports bytes)"
  by (simp add: ex_dag_ports_def zero_digest)

lemma ex_chain_sound: "\<forall>node\<in>set (cw_nodes ex_chain_workflow). sound_node node"
  by (simp add: ex_chain_workflow_def sound_node_def lit_def js_space_def)

theorem scheduling_pass_witness:
  "\<exists>q. outcome_of (materializeReadyNodes ex_dag_ports (ex_schedule_of ex_chain_workflow) (num 30)) = Returned q \<and>
     trace_of (materializeReadyNodes ex_dag_ports
       ((ex_schedule_of ex_chain_workflow)\<lparr>dc_stepRuns := map snd (pg_steps q)\<rparr>) (num 30)) = []"
proof -
  obtain q where q: "outcome_of (materializeReadyNodes ex_dag_ports (ex_schedule_of ex_chain_workflow) (num 30)) = Returned q"
    using nodes_return [OF ex_schedule_simps(3), of ex_dag_ports "cw_nodes ex_chain_workflow"]
      ex_chain_sound ex_digests
    unfolding materializeReadyNodes_def ex_schedule_simps digests_def by blast
  then show ?thesis using scheduling_pass [OF ex_chain_compiles q] by blast
qed

theorem scheduling_pass_returns_witness:
  "\<exists>q. outcome_of (materializeReadyNodes ex_dag_ports (ex_schedule_of ex_chain_workflow) (num 0)) = Returned q"
  by (rule scheduling_pass_returns [OF ex_chain_compiles])
    (use ex_chain_sound ex_digests in \<open>simp_all add: ex_schedule_simps sound_node_def\<close>)

end
