(* ===== verification/Dag_Conclusion.thy ===== *)
theory Dag_Conclusion
  imports Dag_Properties Cell_Projection_Properties
begin

text \<open>
  How the job of the scheduler ends a run: a cancellation is settled only over an exact ledger, and
  a conclusion stores the manifest that the convergence decided.
\<close>

section \<open>Settled cancellations\<close>

lemma find_reservation:
  "map_get (map_from (map (\<lambda>r. (f r, r)) rs)) k = Some r \<Longrightarrow> r \<in> set rs"
proof -
  have "map_get (fold (\<lambda>(k, v) m. map_set k v m) (map (\<lambda>r. (f r, r)) rs) m) k = Some r \<Longrightarrow>
      r \<in> set rs \<or> map_get m k = Some r" for m
  proof (induction rs arbitrary: m)
    case (Cons a rs)
    from Cons.prems have "r \<in> set rs \<or> map_get (map_set (f a) a m) k = Some r"
      by (intro Cons.IH) simp
    then show ?case by (auto simp: map_get_set split: if_splits)
  qed simp
  from this [of "[]"] show "map_get (map_from (map (\<lambda>r. (f r, r)) rs)) k = Some r \<Longrightarrow> r \<in> set rs"
    by (simp add: map_from_def map_get_def)
qed

lemma cancellation_exact:
  assumes "cancellationCanSettle found = Some True"
  shows "length (dc_reservations found) = length (cancellationAttemptProofs found)"
    and "\<forall>stepRun\<in>set (dc_stepRuns found). sr_activeAttemptId stepRun = None \<and>
      sr_state stepRun \<notin> {S_active, S_ambiguous, S_cancelling} \<and>
      (\<forall>attempt\<in>set (sr_attempts stepRun).
         at_state attempt \<notin> {A_ambiguous, A_claimed, A_in_flight, A_prepared} \<and>
         (\<exists>reservation\<in>set (dc_reservations found). \<not> is_reserved reservation \<and>
            cancellationReservationMatchesAttempt found (attempt, stepRun) reservation \<and>
            cancellationSettlementReceiptIsValid reservation))"
proof -
  let ?proofs = "cancellationAttemptProofs found"
  let ?by = "map_from (map (\<lambda>r. (cr_attemptId (reservation_base r), r)) (dc_reservations found))"
  have exact: "cancellation_ledger_exact found ?proofs"
    and settled: "list_all (\<lambda>r. \<not> is_reserved r) (dc_reservations found)"
    and steps: "list_all (\<lambda>stepRun. sr_activeAttemptId stepRun = None \<and>
        sr_state stepRun \<notin> set unresolvedCancellationStepStates \<and>
        list_all (\<lambda>attempt. at_state attempt \<notin> set unresolvedCancellationAttemptStates)
          (sr_attempts stepRun)) (dc_stepRuns found)"
    using assms by (auto simp: cancellationCanSettle_def split: if_splits)
  show "length (dc_reservations found) = length ?proofs"
    using exact by (simp add: cancellation_ledger_exact_def Let_def)
  have matched: "list_all (\<lambda>(attempt, stepRun).
      case map_get ?by (at_attemptId attempt) of
        None \<Rightarrow> False
      | Some reservation \<Rightarrow>
          at_stepRunId attempt = sr_stepRunId stepRun \<and>
          cancellationReservationMatchesAttempt found (attempt, stepRun) reservation \<and>
          cancellationSettlementReceiptIsValid reservation) ?proofs"
    using exact by (simp add: cancellation_ledger_exact_def Let_def)
  have receipt: "\<exists>reservation\<in>set (dc_reservations found). \<not> is_reserved reservation \<and>
      cancellationReservationMatchesAttempt found (attempt, stepRun) reservation \<and>
      cancellationSettlementReceiptIsValid reservation"
    if "stepRun \<in> set (dc_stepRuns found)" "attempt \<in> set (sr_attempts stepRun)" for attempt stepRun
  proof -
    have "(attempt, stepRun) \<in> set ?proofs" using that by (auto simp: cancellationAttemptProofs_def)
    then obtain r where r: "map_get ?by (at_attemptId attempt) = Some r"
      "cancellationReservationMatchesAttempt found (attempt, stepRun) r"
      "cancellationSettlementReceiptIsValid r"
      using matched by (fastforce simp: list_all_iff split: option.splits)
    have "r \<in> set (dc_reservations found)" by (rule find_reservation [OF r(1)])
    then show ?thesis using r settled by (auto simp: list_all_iff)
  qed
  show "\<forall>stepRun\<in>set (dc_stepRuns found). sr_activeAttemptId stepRun = None \<and>
      sr_state stepRun \<notin> {S_active, S_ambiguous, S_cancelling} \<and>
      (\<forall>attempt\<in>set (sr_attempts stepRun).
         at_state attempt \<notin> {A_ambiguous, A_claimed, A_in_flight, A_prepared} \<and>
         (\<exists>reservation\<in>set (dc_reservations found). \<not> is_reserved reservation \<and>
            cancellationReservationMatchesAttempt found (attempt, stepRun) reservation \<and>
            cancellationSettlementReceiptIsValid reservation))"
    using steps receipt
    by (auto simp: list_all_iff unresolvedCancellationStepStates_def unresolvedCancellationAttemptStates_def)
qed

fun writes_run :: "dag_call \<Rightarrow> bool" where
  "writes_run (Dag_insert_manifest _ _) = True"
| "writes_run (Dag_update_run _ _ _) = True"
| "writes_run (Dag_append_run_event _ _) = True"
| "writes_run (Dag_insert_run_proof _ _ _ _) = True"
| "writes_run _ = False"

lemma persist_writes: "filter writes_run (persist_run c kind identity corr t) = persist_run c kind identity corr t"
  by (simp add: persist_run_def Let_def filter_id_conv)

lemma no_run_writes [simp]:
  "filter writes_run (trace_of (finalize_recipe_cell ports c m r)) = []"
  "filter writes_run (trace_of (finalizeCancelledRecipeCell ports c r)) = []"
  "filter writes_run (trace_of (processed_without_steps r job)) = []"
  "filter writes_run (trace_of (assertTerminalRunManifest ports c)) = []"
  by (auto simp: finalize_recipe_cell_def finalizeCancelledRecipeCell_def processed_without_steps_def
      assertTerminalRunManifest_def Let_def bind_simps appending split: option.split outcome.split sum.split)

lemma cancellation_runs:
  assumes "outcome_of (settleRunCancellation ports found now) = Returned run'"
  obtains identity eventId t where
    "applyRunCommand (dc_run found) SettleCancellation
       ((conclude_context found identity [eventId] now)
          \<lparr>rcx_correlationId := lit ''dag-cancel:'' @ run_runId (dc_run found)\<rparr>) = Inr t"
    "run' = tr_aggregate t"
    "filter writes_run (trace_of (settleRunCancellation ports found now)) =
       persist_run found T_SettleCancellation identity (lit ''dag-cancel:'' @ run_runId (dc_run found)) t"
proof -
  let ?correlation = "lit ''dag-cancel:'' @ run_runId (dc_run found)"
  obtain hash where hash: "canonicalContentHash (dq_sha256 ports) (V_object
       [(lit ''runId'', V_string (run_runId (dc_run found))),
        (lit ''type'', V_string (lit ''SettleCancellation''))]) = Some hash"
    using assms by (auto simp: settleRunCancellation_def Let_def split: option.splits)
  define identity where "identity =
    \<lparr>rci_idempotencyKey =
       lit ''settle-cancellation:'' @ run_runId (dc_run found) @ lit '':'' @ pl_planHash (dc_plan found),
     rci_commandHash = hash\<rparr>"
  let ?cx = "(conclude_context found identity [dq_eventId ports 0] now)\<lparr>rcx_correlationId := ?correlation\<rparr>"
  obtain t where t: "applyRunCommand (dc_run found) SettleCancellation ?cx = Inr t"
    using assms hash unfolding settleRunCancellation_def Let_def identity_def
    by (cases "applyRunCommand (dc_run found) SettleCancellation ?cx")
      (simp_all add: identity_def bind_simps appending)
  show thesis
  proof (rule that [OF t])
    show "run' = tr_aggregate t"
      using assms hash t unfolding settleRunCancellation_def Let_def identity_def
      by (simp add: bind_simps and_return_simps appending split: outcome.splits)
    show "filter writes_run (trace_of (settleRunCancellation ports found now)) =
       persist_run found T_SettleCancellation identity ?correlation t"
      using hash t unfolding settleRunCancellation_def Let_def identity_def
      by (simp add: bind_simps and_return_simps appending persist_writes split: outcome.splits)
  qed
qed

text \<open>
  C9. When the job of the scheduler updates a run that is being cancelled, the run becomes
  cancelled, no step is active, unresolved or has an unresolved attempt, and the ledger accounts
  for the attempts one by one: there are as many reservations as attempts, and every attempt has
  one that matches it, is no longer open and has a valid receipt.
\<close>

theorem cancellation_settled_exactly:
  assumes "outcome_of (materializeNextDagRun ports) = Returned (Dag_processed d)"
    and "dq_next ports = Some found" and "run_state (dc_run found) = R_cancelling"
    and "Dag_update_run w version run' \<in> set (trace_of (materializeNextDagRun ports))"
  shows "run_state run' = R_cancelled \<and> run_runId run' = run_runId (dc_run found) \<and>
    length (dc_reservations found) = length (cancellationAttemptProofs found) \<and>
    (\<forall>stepRun\<in>set (dc_stepRuns found). sr_activeAttemptId stepRun = None \<and>
      sr_state stepRun \<notin> {S_active, S_ambiguous, S_cancelling} \<and>
      (\<forall>attempt\<in>set (sr_attempts stepRun).
         at_state attempt \<notin> {A_ambiguous, A_claimed, A_in_flight, A_prepared} \<and>
         (\<exists>reservation\<in>set (dc_reservations found). \<not> is_reserved reservation \<and>
            cancellationReservationMatchesAttempt found (attempt, stepRun) reservation \<and>
            cancellationSettlementReceiptIsValid reservation)))"
proof (rule job_returned [OF assms(1)], goal_cases)
  case (1 claimed)
  then have "claimed = found" using assms(2) by simp
  note job = 1(3,4) [unfolded this]
  have update: "Dag_update_run w version run' \<in> set (filter writes_run (trace_of (job_for ports found)))"
    using assms(4) job(2) by simp
  have live: "\<not> isTerminalRun (dc_run found)" using assms(3) by (simp add: isTerminalRun_def)
  have can: "cancellationCanSettle found = Some True"
    using job(1) update assms(3) live
    by (auto simp: job_for_def Let_def split: option.splits bool.splits simp del: set_filter)
  obtain settled where settled: "outcome_of (settleRunCancellation ports found (dq_now ports)) = Returned settled"
    using job(1) assms(3) live can
    by (auto simp: job_for_def Let_def and_return_simps appending split: outcome.splits)
  show ?case
  proof (rule cancellation_runs [OF settled], goal_cases)
    case (1 identity eventId t)
    have "filter writes_run (trace_of (job_for ports found)) =
        persist_run found T_SettleCancellation identity (lit ''dag-cancel:'' @ run_runId (dc_run found)) t"
      using assms(3) live can settled 1(3)
      by (simp add: job_for_def Let_def and_return_simps appending)
    then have "run' = tr_aggregate t" using update by (auto simp: persist_run_def Let_def)
    moreover have "run_state (tr_aggregate t) = R_cancelled \<and>
        run_runId (tr_aggregate t) = run_runId (dc_run found)"
      by (rule applyRunCommand_fresh [OF 1(1)])
        (auto simp: conclude_context_def settleCancellation_def keep_result_def assms(3))
    ultimately show ?case using cancellation_exact [OF can] by blast
  qed
qed


section \<open>Concluded runs\<close>

lemma conclusion_runs:
  assumes "outcome_of (concludeRun ports found asked conclusion body now) = Returned f"
  obtains identity eventIds t manifest where
    "dq_manifest ports (run_workspaceId (dc_run found)) (run_runId (dc_run found)) = None"
    "canonicalContentHash (dq_sha256 ports) (manifest_value body) = Some (mf_manifestHash manifest)"
    "mf_body manifest = body"
    "applyRunCommand (dc_run found) (conclude_command conclusion manifest)
       (conclude_context found identity eventIds now) = Inr t"
    "f = Finalized conclusion manifest (tr_aggregate t)"
    "filter writes_run (trace_of (concludeRun ports found asked conclusion body now)) =
       Dag_insert_manifest (run_workspaceId (dc_run found)) manifest #
       persist_run found (run_command_type (conclude_command conclusion manifest)) identity
         (lit ''dag-converge:'' @ run_runId (dc_run found)) t"
proof -
  let ?run = "dc_run found"
  have fresh: "dq_manifest ports (run_workspaceId ?run) (run_runId ?run) = None"
    using assms unfolding concludeRun_def Let_def
    by (simp add: bind_simps appending split: option.splits)
  obtain h where h: "canonicalContentHash (dq_sha256 ports) (manifest_value body) = Some h"
    using assms fresh unfolding concludeRun_def Let_def
    by (simp add: bind_simps appending split: option.splits)
  obtain identity where identity: "conclude_identity (dq_sha256 ports) found h conclusion = Some identity"
    using assms fresh h unfolding concludeRun_def Let_def
    by (simp add: bind_simps appending split: option.splits)
  let ?manifest = "manifest_of body h" and ?ids = "[dq_eventId ports asked, dq_eventId ports (asked + 1)]"
  obtain t where t: "applyRunCommand ?run (conclude_command conclusion ?manifest)
      (conclude_context found identity ?ids now) = Inr t"
    using assms fresh h identity unfolding concludeRun_def Let_def
    by (simp add: bind_simps appending split: sum.splits)
  obtain u where cell: "outcome_of (finalize_recipe_cell ports found ?manifest (tr_aggregate t)) = Returned u"
    and f: "f = Finalized conclusion ?manifest (tr_aggregate t)"
    using assms fresh h identity t unfolding concludeRun_def Let_def
    by (simp add: bind_simps and_return_simps appending split: outcome.splits)
  show thesis
  proof (rule that [OF fresh _ _ t f])
    show "canonicalContentHash (dq_sha256 ports) (manifest_value body) = Some (mf_manifestHash ?manifest)"
      "mf_body ?manifest = body"
      by (simp_all add: h manifest_of_def)
    show "filter writes_run (trace_of (concludeRun ports found asked conclusion body now)) =
       Dag_insert_manifest (run_workspaceId ?run) ?manifest #
       persist_run found (run_command_type (conclude_command conclusion ?manifest)) identity
         (lit ''dag-converge:'' @ run_runId ?run) t"
      using fresh h identity t cell unfolding concludeRun_def Let_def
      by (simp add: bind_simps and_return_simps appending persist_writes)
  qed
qed

lemma node_run_writes: "filter writes_run (trace_of (materialize_node ports c now node p)) = []"
  unfolding materialize_node_def Let_def
  by (auto simp: bind_simps appending split: option.split)

lemma pass_run_writes: "filter writes_run (trace_of (materialize_nodes ports c now nodes p)) = []"
  by (induction nodes arbitrary: p) (auto simp: and_return_simps appending node_run_writes split: outcome.split)

text \<open>What the convergence decided.\<close>

definition decided_as :: "conclusion \<Rightarrow> result_manifest_body \<Rightarrow> convergence_decision" where
  "decided_as conclusion body =
     (case conclusion of C_completed \<Rightarrow> Completed_with body | C_failed \<Rightarrow> Failed_with body)"

lemma finalized_decided:
  assumes "outcome_of (finalizeRun ports found q now) = Returned (Finalized conclusion manifest run')"
  obtains body where
    "evaluateRunConvergence (convergence_input_of found (map snd (pg_steps q)) now) =
       Inr (decided_as conclusion body)"
    "outcome_of (concludeRun ports found (pg_asked q) conclusion body now) =
       Returned (Finalized conclusion manifest run')"
    "trace_of (finalizeRun ports found q now) =
       trace_of (concludeRun ports found (pg_asked q) conclusion body now)"
proof -
  let ?input = "convergence_input_of found (map snd (pg_steps q)) now"
  obtain decision where decision: "evaluateRunConvergence ?input = Inr decision"
    using assms by (auto simp: finalizeRun_def split: sum.splits)
  have kind: "conclusion = c"
    if "outcome_of (concludeRun ports found asked c body now) = Returned (Finalized conclusion manifest run')"
    for c body asked
    by (rule conclusion_runs [OF that]) simp
  show thesis
  proof (cases decision)
    case (Completed_with body)
    then show thesis using assms decision kind [of _ C_completed] that [of body]
      by (fastforce simp: finalizeRun_def decided_as_def)
  next
    case (Failed_with body)
    then show thesis using assms decision kind [of _ C_failed] that [of body]
      by (fastforce simp: finalizeRun_def decided_as_def)
  next
    case (Not_ready reason)
    then show thesis using assms decision by (simp add: finalizeRun_def)
  qed
qed

lemma concluded_as:
  assumes "applyRunCommand r (conclude_command conclusion manifest) (conclude_context found identity eventIds now) = Inr t"
  shows "run_state (tr_aggregate t) = (case conclusion of C_completed \<Rightarrow> R_completed | C_failed \<Rightarrow> R_failed)"
    "run_resultManifest (tr_aggregate t) = Some (resultManifestRef manifest)"
proof -
  have fresh: "rcx_replayProof (conclude_context found identity eventIds now) = None"
    by (simp add: conclude_context_def)
  have "run_state (tr_aggregate t) = (case conclusion of C_completed \<Rightarrow> R_completed | C_failed \<Rightarrow> R_failed) \<and>
      run_resultManifest (tr_aggregate t) = Some (resultManifestRef manifest)"
    by (rule applyRunCommand_fresh [OF assms fresh])
      (auto simp: conclude_command_def completeRun_def failRun_def validateCompletion_def validateFailure_def
        concluded_plan_def run_invalidTransition_def Let_def split: conclusion.splits if_splits manifest_result.splits)
  then show "run_state (tr_aggregate t) = (case conclusion of C_completed \<Rightarrow> R_completed | C_failed \<Rightarrow> R_failed)"
    "run_resultManifest (tr_aggregate t) = Some (resultManifestRef manifest)" by simp_all
qed

text \<open>
  C8. When the job of the scheduler concludes a run, the run was running, the convergence decided
  that conclusion and the body of the manifest over the steps that the pass left, no manifest was
  stored for the run before, the hash of the manifest is the canonical hash of its body, and the
  run is the one that the kernel makes of it: completed or failed as decided, with a reference to
  this manifest. What is written of the run is the manifest, then the run with its events, then the
  journal entry, and nothing else.
\<close>

theorem concluded_run_recorded:
  assumes "outcome_of (materializeNextDagRun ports) = Returned (Dag_processed d)"
    and "dr_finalized d = Some (manifest, run')"
  shows "\<exists>found q conclusion identity eventIds t.
    dq_next ports = Some found \<and> run_state (dc_run found) = R_running \<and>
    outcome_of (materializeReadyNodes ports found (dq_now ports)) = Returned q \<and>
    evaluateRunConvergence (convergence_input_of found (map snd (pg_steps q)) (dq_now ports)) =
      Inr (decided_as conclusion (mf_body manifest)) \<and>
    dq_manifest ports (run_workspaceId (dc_run found)) (run_runId (dc_run found)) = None \<and>
    canonicalContentHash (dq_sha256 ports) (manifest_value (mf_body manifest)) = Some (mf_manifestHash manifest) \<and>
    applyRunCommand (dc_run found) (conclude_command conclusion manifest)
      (conclude_context found identity eventIds (dq_now ports)) = Inr t \<and>
    run' = tr_aggregate t \<and>
    run_state run' = (case conclusion of C_completed \<Rightarrow> R_completed | C_failed \<Rightarrow> R_failed) \<and>
    run_resultManifest run' = Some (resultManifestRef manifest) \<and>
    filter writes_run (trace_of (materializeNextDagRun ports)) =
      Dag_insert_manifest (run_workspaceId (dc_run found)) manifest #
      Dag_update_run (run_workspaceId (dc_run found)) (run_aggregateVersion (dc_run found)) run' #
      map (Dag_append_run_event (run_workspaceId (dc_run found))) (tr_events t) @
      [Dag_insert_run_proof (run_workspaceId (dc_run found))
         \<lparr>rrp_runId = run_runId (dc_run found), rrp_workspaceId = run_workspaceId (dc_run found),
          rrp_identity = identity, rrp_commandType = run_command_type (conclude_command conclusion manifest)\<rparr>
         (lit ''system:dag-scheduler'') (lit ''dag-converge:'' @ run_runId (dc_run found))]"
proof (rule job_returned [OF assms(1)], goal_cases)
  case (1 found)
  note found = 1(1) and runs_trace = 1(4)
  have running: "run_state (dc_run found) = R_running"
    using 1(3) assms(2)
    by (auto simp: job_for_def Let_def and_return_simps appending processed_without_steps_def bind_simps
        split: if_splits outcome.splits option.splits bool.splits)
  note job = 1(3) [unfolded running_job [OF running] schedule_running_run_def Let_def]
  obtain q where q: "outcome_of (materializeReadyNodes ports found (dq_now ports)) = Returned q"
    using job by (auto simp: and_return_simps appending split: outcome.splits)
  obtain conclusion where fin: "outcome_of (finalizeRun ports found q (dq_now ports)) =
      Returned (Finalized conclusion manifest run')"
    using job q assms(2)
    by (auto simp: and_return_simps bind_simps appending split: outcome.splits dag_finalization.splits)
  show ?case
  proof (rule finalized_decided [OF fin], goal_cases)
    case (1 body)
    note decided = 1
    show ?case
    proof (rule conclusion_runs [OF decided(2)], goal_cases)
      case (1 identity eventIds t m)
      then have m: "m = manifest" and t: "run' = tr_aggregate t" by simp_all
      have "filter writes_run (trace_of (materializeNextDagRun ports)) =
          Dag_insert_manifest (run_workspaceId (dc_run found)) manifest #
          persist_run found (run_command_type (conclude_command conclusion manifest)) identity
            (lit ''dag-converge:'' @ run_runId (dc_run found)) t"
        using q fin decided(3) 1(6) runs_trace m
        by (simp add: running_job [OF running] schedule_running_run_def Let_def and_return_simps
            bind_simps appending materializeReadyNodes_def pass_run_writes)
      moreover have "run_state run' = (case conclusion of C_completed \<Rightarrow> R_completed | C_failed \<Rightarrow> R_failed) \<and>
          run_resultManifest run' = Some (resultManifestRef manifest)"
        using concluded_as [OF 1(4)] m t by simp
      ultimately show ?case
        using found running q decided(1) 1(1-4) m t
        unfolding persist_run_def Let_def by fastforce
    qed
  qed
qed

end
