(* ===== verification/Dag_Example.thy ===== *)
theory Dag_Example
  imports Dag_Conclusion
begin

text \<open>The properties of the scheduler on examples: a settled cancellation and a concluded run.\<close>

section \<open>A cancellation without attempts\<close>

definition ex_cancelling :: dag_context where
  "ex_cancelling = (ex_schedule_of ex_chain_workflow)\<lparr>dc_run := ex_run R_cancelling 3 3, dc_stepRuns := []\<rparr>"

definition ex_cancelling_ports :: dag_ports where
  "ex_cancelling_ports = ex_dag_ports\<lparr>dq_next := Some ex_cancelling\<rparr>"

lemma ex_cancelling_simps:
  "context_identity_ok ex_cancelling" "run_state (dc_run ex_cancelling) = R_cancelling"
  "\<not> isTerminalRun (dc_run ex_cancelling)" "cancellationCanSettle ex_cancelling = Some True"
  "dq_next ex_cancelling_ports = Some ex_cancelling" "dc_recipeCell ex_cancelling = None"
  by (simp_all add: ex_cancelling_def ex_schedule_of_def ex_run_def context_identity_ok_def Let_def
      ex_plan_def ex_authority_def isTerminalRun_def cancellationCanSettle_def ex_cancelling_ports_def
      cancellation_ledger_exact_def cancellationAttemptProofs_def map_from_def reserved_total_def
      spent_total_def ex_budget_def set_size_def)

lemma ex_cancels:
  "\<exists>t. applyRunCommand (dc_run ex_cancelling) SettleCancellation
     ((conclude_context ex_cancelling identity [eventId] now)\<lparr>rcx_correlationId := c\<rparr>) = Inr t"
  by (simp add: applyRunCommand_def ex_cancelling_def ex_schedule_of_def ex_run_def conclude_context_def
      settleCancellation_def keep_result_def Let_def)

lemma cancellation_returns:
  assumes "digests (dq_sha256 ports)" and "dc_recipeCell found = None"
    and "\<And>identity eventId. \<exists>t. applyRunCommand (dc_run found) SettleCancellation
      ((conclude_context found identity [eventId] now)
        \<lparr>rcx_correlationId := lit ''dag-cancel:'' @ run_runId (dc_run found)\<rparr>) = Inr t"
  shows "\<exists>run'. outcome_of (settleRunCancellation ports found now) = Returned run' \<and>
    Dag_update_run (run_workspaceId (dc_run found)) (run_aggregateVersion (dc_run found)) run'
      \<in> set (trace_of (settleRunCancellation ports found now))"
proof -
  obtain h where h: "canonicalContentHash (dq_sha256 ports) (V_object
       [(lit ''runId'', V_string (run_runId (dc_run found))),
        (lit ''type'', V_string (lit ''SettleCancellation''))]) = Some h"
    using assms(1)
    by (simp add: canonicalContentHash_def serialize_canonical digests_def contentHash_def)
  define identity where "identity =
    \<lparr>rci_idempotencyKey =
       lit ''settle-cancellation:'' @ run_runId (dc_run found) @ lit '':'' @ pl_planHash (dc_plan found),
     rci_commandHash = h\<rparr>"
  obtain t where t: "applyRunCommand (dc_run found) SettleCancellation
      ((conclude_context found identity [dq_eventId ports 0] now)
        \<lparr>rcx_correlationId := lit ''dag-cancel:'' @ run_runId (dc_run found)\<rparr>) = Inr t"
    using assms(3) by blast
  have cell: "finalizeCancelledRecipeCell ports found r = State_Monad.return (Returned ())" for r
    by (simp add: finalizeCancelledRecipeCell_def assms(2))
  have "outcome_of (settleRunCancellation ports found now) = Returned (tr_aggregate t)"
    "Dag_update_run (run_workspaceId (dc_run found)) (run_aggregateVersion (dc_run found)) (tr_aggregate t)
      \<in> set (trace_of (settleRunCancellation ports found now))"
    using h t cell unfolding settleRunCancellation_def Let_def identity_def
    by (simp_all add: bind_simps and_return_simps appending persist_run_def Let_def)
  then show ?thesis by blast
qed

theorem cancellation_settled_exactly_witness:
  "\<exists>run'. Dag_update_run (lit ''ws'') (num 3) run' \<in> set (trace_of (materializeNextDagRun ex_cancelling_ports)) \<and>
     run_state run' = R_cancelled"
proof -
  note simps = ex_cancelling_simps
  have "digests (dq_sha256 ex_cancelling_ports)"
    using ex_digests by (simp add: digests_def ex_cancelling_ports_def)
  from cancellation_returns [OF this simps(6) ex_cancels, of "num 30"] obtain run' where run':
    "outcome_of (settleRunCancellation ex_cancelling_ports ex_cancelling (num 30)) = Returned run'"
    "Dag_update_run (lit ''ws'') (num 3) run' \<in> set (trace_of (settleRunCancellation ex_cancelling_ports ex_cancelling (num 30)))"
    by (auto simp: ex_cancelling_def ex_schedule_of_def ex_run_def)
  have job: "job_for ex_cancelling_ports ex_cancelling =
      and_return (settleRunCancellation ex_cancelling_ports ex_cancelling (num 30))
        (\<lambda>_. processed_without_steps (dc_run ex_cancelling) Job_stale_terminal)"
    using simps(2-4) by (simp add: job_for_def Let_def ex_cancelling_ports_def ex_dag_ports_def)
  have update: "Dag_update_run (lit ''ws'') (num 3) run' \<in> set (trace_of (materializeNextDagRun ex_cancelling_ports))"
    unfolding job_runs [OF simps(5,1)] job using run' by (simp add: and_return_simps appending)
  have "\<exists>d. outcome_of (materializeNextDagRun ex_cancelling_ports) = Returned (Dag_processed d)"
    unfolding job_runs [OF simps(5,1)] job using run'
    by (simp add: and_return_simps appending processed_without_steps_def bind_simps)
  then show ?thesis
    using cancellation_settled_exactly [OF _ simps(5,2) update] update by blast
qed


section \<open>A run that has converged\<close>

definition ex_done :: dag_context where
  "ex_done =
     \<lparr>dc_artifacts = ec_artifacts ex_convergence, dc_artifactPayloads = None,
      dc_cost = ec_cost ex_convergence, dc_plan = ec_plan ex_convergence, dc_recipeCell = None,
      dc_reservations = ec_reservations ex_convergence, dc_run = ec_run ex_convergence,
      dc_stepRuns = ec_stepRuns ex_convergence\<rparr>"

definition ex_done_ports :: dag_ports where
  "ex_done_ports = ex_dag_ports\<lparr>dq_next := Some ex_done\<rparr>"

lemma ex_done_simps:
  "context_identity_ok ex_done" "run_state (dc_run ex_done) = R_running"
  "dq_next ex_done_ports = Some ex_done" "dq_now ex_done_ports = num 30"
  "dc_recipeCell ex_done = None" "dq_manifest ex_done_ports w r = None"
  by (simp_all add: ex_done_def ex_done_ports_def context_identity_ok_def Let_def ex_convergence_defs
      ex_authority_def ex_dag_ports_def)

lemma ex_settlements:
  "\<exists>settlements. evaluateSettlementConvergenceProof ex_convergence [ex_done_step] = Inr (Proof settlements) \<and>
     list_all (\<lambda>s. serializable (settlement_record_value s)) settlements"
  by (simp add: evaluateSettlementConvergenceProof_def ex_convergence_defs map_from_def map_set_def
      map_get_def reservationMatchesAttempt_def settled_total_def Let_def)
    (simp add: settlement_record_value_def optional_member_def)

lemma ex_serializable_output:
  assumes "list_all (\<lambda>s. serializable (settlement_record_value s)) settlements"
  shows "\<exists>body. evaluate_output ex_convergence
     \<lparr>st_orderedSteps = [ex_done_step], st_stepsByNodeKey = [(lit ''b'', ex_done_step)]\<rparr>
     settlements = Inr (Completed_with body) \<and> serializable (manifest_value body)"
  using assms
  by (simp add: ex_convergence_defs evaluate_output_def sink_nodes_def map_from_def map_set_def
      map_get_def artifactMatchesOutput_def ex_output_def ex_contract_def max_safe_def Let_def)
    (simp add: lit_def js_space_def manifest_body_def manifest_value_def list_all_iff
      result_value_def output_value_def contract_value_def entry_value_def toManifestEntry_def
      optional_member_def Let_def)

lemma ex_body:
  "\<exists>body. evaluateRunConvergence ex_convergence = Inr (Completed_with body) \<and>
     serializable (manifest_value body)"
proof -
  obtain settlements where phase: "evaluateSettlementConvergenceProof ex_convergence [ex_done_step] =
      Inr (Proof settlements)" "list_all (\<lambda>s. serializable (settlement_record_value s)) settlements"
    using ex_settlements by blast
  have inputs: "pl_workspaceId (ec_plan ex_convergence) = run_workspaceId (ec_run ex_convergence)"
    "pl_runPlanId (ec_plan ex_convergence) = run_runPlanId (ec_run ex_convergence)"
    "mc_unit (ec_cost ex_convergence) = bl_unit (pl_budget (ec_plan ex_convergence))"
    "isAmount (mc_spent (ec_cost ex_convergence))" "isAmount (mc_reserved (ec_cost ex_convergence))"
    "sr_state ex_done_step = S_succeeded"
    by (simp_all add: ex_convergence_defs)
  show ?thesis
    using ex_serializable_output [OF phase(2)]
    by (simp add: evaluateRunConvergence_def ex_step_phase phase inputs)
qed

lemma ex_done_pass:
  "\<exists>q. outcome_of (materializeReadyNodes ex_done_ports ex_done (num 30)) = Returned q \<and>
     map snd (pg_steps q) = [ex_done_step]"
proof -
  let ?q = "\<lparr>pg_steps = [(lit ''b'', ex_done_step)], pg_created = [], pg_skipped = [], pg_asked = 0\<rparr>"
  have start: "map_from (map (\<lambda>s. (sr_nodeKey s, s)) (dc_stepRuns ex_done)) = pg_steps ?q"
    by (simp add: ex_done_def ex_convergence_def map_from_def map_set_def)
      (simp add: ex_done_step_def ex_step_at_def ex_step_def)
  have "turn_of W (pg_steps ?q) node = Keep"
    if "node \<in> set (cw_nodes (pl_compiledWorkflow (dc_plan ex_done)))" for W node
    using that by (intro turn_of_present)
      (simp add: ex_done_def ex_convergence_def ex_built_workflow_def map_has_def map_get_def)
  then have "outcome_of (materializeReadyNodes ex_done_ports ex_done (num 30)) = Returned ?q"
    unfolding materializeReadyNodes_def start using pass_idle [of _ ex_done "num 30" ?q ex_done_ports] by simp
  then show ?thesis by auto
qed

lemma conclusion_returns:
  assumes "digests (dq_sha256 ports)" and "dc_recipeCell found = None"
    and "dq_manifest ports (run_workspaceId (dc_run found)) (run_runId (dc_run found)) = None"
    and "serializable (manifest_value body)"
    and accepted: "\<And>h i identity eventIds. length eventIds = 2 \<Longrightarrow> \<exists>t. applyRunCommand (dc_run found)
      (conclude_command conclusion \<lparr>mf_body = body, mf_manifestHash = h, mf_resultManifestId = i\<rparr>)
      (conclude_context found identity eventIds now) = Inr t"
  shows "\<exists>manifest run'. outcome_of (concludeRun ports found asked conclusion body now) =
    Returned (Finalized conclusion manifest run')"
proof -
  obtain h where h: "canonicalContentHash (dq_sha256 ports) (manifest_value body) = Some h"
    using assms(1,4) by (simp add: canonicalContentHash_def serialize_canonical digests_def contentHash_def)
  obtain identity where identity: "conclude_identity (dq_sha256 ports) found h conclusion = Some identity"
    using assms(1)
    by (simp add: conclude_identity_def canonicalContentHash_def serialize_canonical digests_def contentHash_def)
  obtain t where t: "applyRunCommand (dc_run found) (conclude_command conclusion (manifest_of body h))
      (conclude_context found identity [dq_eventId ports asked, dq_eventId ports (asked + 1)] now) = Inr t"
    using accepted unfolding manifest_of_def by (metis length_Cons list.size(3) numeral_2_eq_2)
  have cell: "finalize_recipe_cell ports found m r = State_Monad.return (Returned ())" for m r
    by (simp add: finalize_recipe_cell_def assms(2))
  show ?thesis
    using assms(3) h identity t cell unfolding concludeRun_def Let_def
    by (simp add: bind_simps and_return_simps appending)
qed

theorem concluded_run_recorded_witness:
  "\<exists>manifest run'. Dag_update_run (lit ''ws'') (num 2) run' \<in> set (trace_of (materializeNextDagRun ex_done_ports)) \<and>
     run_state run' = R_completed \<and> run_resultManifest run' = Some (resultManifestRef manifest)"
proof -
  note simps = ex_done_simps
  obtain q where q: "outcome_of (materializeReadyNodes ex_done_ports ex_done (num 30)) = Returned q"
    "map snd (pg_steps q) = [ex_done_step]"
    using ex_done_pass by (elim exE conjE) (rule that)
  obtain body where body: "evaluateRunConvergence ex_convergence = Inr (Completed_with body)"
    "serializable (manifest_value body)"
    using ex_body by blast
  have converges: "convergence_input_of ex_done (map snd (pg_steps q)) (num 30) = ex_convergence"
    by (simp add: q(2) convergence_input_of_def ex_done_def ex_convergence_def)
  have digests: "digests (dq_sha256 ex_done_ports)"
    using ex_digests by (simp add: digests_def ex_done_ports_def)
  have compiled: "compileWorkflow (ex_compile [ex_node ''b'' []]) =
      Inr (pl_compiledWorkflow (ec_plan ex_convergence))"
    using ex_built by (simp add: ex_convergence_def)
  have running: "run_state (ec_run ex_convergence) = R_running" by (simp add: ex_convergence_defs)
  have accepted: "\<exists>t. applyRunCommand (dc_run ex_done)
      (conclude_command C_completed \<lparr>mf_body = body, mf_manifestHash = h, mf_resultManifestId = i\<rparr>)
      (conclude_context ex_done identity eventIds (num 30)) = Inr t" if "length eventIds = 2" for h i identity eventIds
    using converged_run_concludes [OF compiled body(1) running, of "conclude_context ex_done identity eventIds (num 30)" h i] that
    by (auto simp: conclude_command_def conclude_context_def ex_done_def ex_convergence_defs)
  obtain manifest run' where concluded:
    "outcome_of (concludeRun ex_done_ports ex_done (pg_asked q) C_completed body (num 30)) =
       Returned (Finalized C_completed manifest run')"
    using conclusion_returns [OF digests simps(5,6) body(2) accepted, of "pg_asked q"] by blast
  have fin: "outcome_of (finalizeRun ex_done_ports ex_done q (num 30)) = Returned (Finalized C_completed manifest run')"
    using concluded by (simp add: finalizeRun_def converges body(1))
  obtain d where d: "outcome_of (materializeNextDagRun ex_done_ports) = Returned (Dag_processed d)"
    "dr_finalized d = Some (manifest, run')"
    unfolding job_runs [OF simps(3,1)] running_job [OF simps(2)] simps(4) schedule_running_run_def Let_def
    using q(1) fin by (simp add: and_return_simps bind_simps appending)
  obtain found q' conclusion identity eventIds t where
    recorded: "dq_next ex_done_ports = Some found"
      "outcome_of (materializeReadyNodes ex_done_ports found (num 30)) = Returned q'"
      "evaluateRunConvergence (convergence_input_of found (map snd (pg_steps q')) (num 30)) =
        Inr (decided_as conclusion (mf_body manifest))"
      "run_state run' = (case conclusion of C_completed \<Rightarrow> R_completed | C_failed \<Rightarrow> R_failed)"
      "run_resultManifest run' = Some (resultManifestRef manifest)"
      "Dag_update_run (run_workspaceId (dc_run found)) (run_aggregateVersion (dc_run found)) run'
        \<in> set (filter writes_run (trace_of (materializeNextDagRun ex_done_ports)))"
  proof (rule concluded_run_recorded [OF d, unfolded simps(4), THEN exE], elim exE conjE, goal_cases)
    case (1 found q' conclusion identity eventIds t)
    note parts = 1
    show thesis by (rule that [OF parts(2,4,5,10,11)]) (simp add: parts(12))
  qed
  have found: "found = ex_done" using recorded(1) simps(3) by simp
  then have "q' = q" using recorded(2) q(1) by simp
  then have "conclusion = C_completed"
    using recorded(3) body(1) found by (cases conclusion) (simp_all add: converges decided_as_def)
  then show ?thesis
    using recorded(4-6) found by (auto simp: ex_done_def ex_convergence_def ex_run_def)
qed

end
