(* ===== verification/Spec2Isabelle.thy ===== *)
theory Spec2Isabelle
  imports Convergence Routing Policy Product_Properties Recipe_Graph_Properties Budget_Preflight_Properties
    Generation_Page_Properties Contact_Properties Contact_Privacy Canonical_Properties
    Transition_Example Cell_Projection_Example Dag_Example
begin

text \<open>
  The decision core of Kurobara: the pure TypeScript functions that admit a run, drive it and
  its steps, settle its costs, conclude it with a manifest, and check the product data around
  it; and the use cases of the application layer that call them inside database transactions to
  move an attempt, to schedule the steps of a run and to conclude it.

  \<^bold>\<open>Parts of the program.\<close> A workflow specification is compiled into an ordered graph
  (\<open>workflow-engine/src/compile-workflow.ts\<close>). A plan fixes the compiled workflow, a budget, a
  quote and the routes of its nodes (\<open>kernel/src/routing.ts\<close>), and \<open>createRunFromPlan\<close> admits
  it as a queued run (\<open>kernel/src/run.ts\<close>) under an authority envelope that the policies judge
  (\<open>policy-engine/src\<close>). A run is an aggregate: a command with an expected version, new event
  identities and an optional replay proof gives the next state and its events
  (\<open>kernel/src/run-lifecycle.ts\<close>). Each node of the plan is a step run with its attempts, an
  aggregate of the same kind (\<open>kernel/src/step-run.ts\<close>), whose attempts reserve costs and
  settle them. When all steps are terminal, \<open>evaluateRunConvergence\<close> checks the steps, the
  reservations and the output, and produces the manifest that concludes the run
  (\<open>kernel/src/result-manifest.ts\<close>). Datasets, their fields and records, enrichment recipes and
  the results of cells are checked by \<open>kernel/src/product.ts\<close>, and a stored cell result changes
  only as \<open>kernel/src/cell-result-lifecycle.ts\<close> allows. The recipes of a dataset form a graph
  over its fields, compiled by \<open>workflow-engine/src/compile-recipe-field-graph.ts\<close>; a sourcing job
  may spend only what \<open>policy-engine/src/evaluate-sourcing-budget-preflight.ts\<close> permits. A
  dataset can be generated page by page under an immutable plan
  (\<open>kernel/src/dataset-generation.ts\<close>): each page is one run, the generation and the
  materialization of its dataset change together. Datasets enter and leave as CSV
  or as one JSON object for each line (\<open>adapters/dataset-codec/src\<close>). Contacts are sourced with an
  obfuscated identity that a paid operation reveals (\<open>kernel/src/contact-sourcing.ts\<close>), and a
  tombstone keeps a contact from being sourced again (\<open>kernel/src/contact-privacy.ts\<close>).

  Two use cases drive a run. \<open>application/src/transition-step-attempt.ts\<close> starts, settles, retries
  or reconciles one attempt: it answers a repeated command from the journal, otherwise it applies
  the command of the kernel, settles the reservation in the cost ledger and stores the step.
  \<open>application/src/materialize-next-dag-run.ts\<close> is the job of the scheduler for one run: it makes
  the steps that are due, settles a cancellation, concludes a run that has converged, and stores
  the result of its cell, which \<open>application/src/project-cell-result.ts\<close> projects from the run, its
  manifest and the normalized output. The commands, manifests and outputs are identified by the
  hash of their canonical JSON text (\<open>application/src/canonical-content-hash.ts\<close>).

  \<^bold>\<open>Theories.\<close>
  \<^item> \<open>Prelude\<close>: \<open>DomainResult\<close> as a sum (\<open>kernel/src/result.ts\<close>), strings as lists of UTF-16
    code units with \<open>trim\<close> and code points, \<open>Map\<close> and \<open>Set\<close> as insertion-ordered lists, with
    the locale \<open>keyed_store\<close> of the laws of a map.
  \<^item> \<open>Js_Number\<close>, \<open>Amount\<close>: doubles as exact multiples of \<open>2 ^ -1074\<close> with the infinities,
    \<open>NaN\<close> and negative zero, rounded to nearest even after every operation; amounts and their
    equality within four ULPs (\<open>kernel/src/amount.ts\<close>).
  \<^item> \<open>Value_Objects\<close>: checked constructors, artifacts, capabilities and workflows
    (\<open>value-objects.ts\<close>, \<open>artifact.ts\<close>, \<open>workflow.ts\<close>).
  \<^item> \<open>Run\<close>, \<open>Run_Lifecycle\<close>, \<open>Run_Invariant\<close>, \<open>Run_Properties\<close>: plans, runs, admission, every
    run command with its plan and events, the invariant of reachable runs, and the properties.
  \<^item> \<open>Step_Data\<close>, \<open>Step_Run\<close>, \<open>Step_Invariant\<close>, \<open>Step_Properties\<close>: the same for step runs,
    attempts and their settlements.
  \<^item> \<open>Journal\<close>, \<open>Projection\<close>: what both aggregates share. The locale \<open>journaled_aggregate\<close>
    states the laws of a versioned aggregate with an event log, \<open>projected_aggregate\<close> extends it
    by a view that events determine; runs and steps interpret them.
  \<^item> \<open>Result_Manifest\<close>, \<open>Convergence\<close>: the three phases of convergence, and that the manifest
    they produce accounts for the run and concludes it.
  \<^item> \<open>Workflow_Compiler\<close>, \<open>Workflow_Order\<close>, \<open>Workflow_Properties\<close>: the compiler, the invariant
    of its ordering loop, and what a compiled workflow satisfies.
  \<^item> \<open>Routing\<close>: routes, the worst case of a plan in compensated floating-point summation.
  \<^item> \<open>Policy\<close>: \<open>evaluate-policy.ts\<close> and \<open>evaluate-contact-privacy.ts\<close>.
  \<^item> \<open>Product\<close>, \<open>Cell_Result\<close>, \<open>Product_Properties\<close>: schemas, records, recipes, cell results.
  \<^item> \<open>Recipe_Graph\<close>, \<open>Recipe_Graph_Properties\<close>: the compiler of recipe field graphs; its
    fingerprint is \<open>JSON.stringify\<close> (\<open>Json\<close>, on \<open>Decimal\<close>, which prints whole numbers).
  \<^item> \<open>Budget_Preflight\<close>, \<open>Budget_Preflight_Properties\<close>: the budget decision on facts of
    unknown type, whose objects are lists of own properties.
  \<^item> \<open>Number_Text\<close>, \<open>Utf8\<close>: \<open>String(x)\<close>, \<open>Number(text)\<close>, \<open>TextEncoder\<close> and \<open>TextDecoder\<close>.
  \<^item> \<open>Dataset_Record\<close>, \<open>Csv\<close>, \<open>Csv_Framing\<close>, \<open>Csv_Properties\<close>: the records that a codec
    accepts, the CSV framer as a state machine on bytes, the decoder and the encoder, how
    encoded rows are framed, and the round trip.
  \<^item> \<open>Json_Parse\<close>, \<open>Strict_Json\<close>, \<open>Jsonl\<close>, \<open>Jsonl_Properties\<close>: \<open>JSON.parse\<close> as a parser and
    as a grammar, the scan that refuses repeated keys and deep nesting, the JSONL decoder and
    encoder with their round trip, and the types of the records that both codecs yield.
  \<^item> \<open>Generation_Query\<close>, \<open>Generation_Plan\<close>, \<open>Generation\<close>, \<open>Generation_Page\<close>: the parts of
    \<open>kernel/src/dataset-generation.ts\<close> in its order: bounded queries on values of unknown type,
    intentions and plans, the operations on a generation with its materialization, and the
    operations on one page. \<open>Generation_Example\<close> holds a plan and the states of a generation on
    which \<open>Generation_Properties\<close> and \<open>Generation_Page_Properties\<close> apply their statements.
  \<^item> \<open>Js_Value\<close>: values of unknown type with their coercions to text, for the code that checks
    unknown input.
  \<^item> \<open>Contact_Sourcing\<close>, \<open>Contact_Properties\<close>, \<open>Contact_Privacy\<close>: contacts, the reveal of an
    identity, work e-mails, and tombstones with their proofs.
  \<^item> \<open>Canonical_Content\<close>, \<open>Canonical_Properties\<close>: canonical JSON and its hash, and the canonical
    JSON of the conformance reports (\<open>plugin-conformance/src/canonical-json.ts\<close>).
  \<^item> \<open>Port_Trace\<close>: a use case is a program of the state monad over the list of the port calls it
    has made; what a port answers is a function in a record of ports, and a program that throws
    ends in \<open>Thrown\<close>, since the transaction around it is rolled back.
  \<^item> \<open>Transition_Attempt\<close>, \<open>Transition_Properties\<close>, \<open>Transition_Example\<close>: the transition of an
    attempt, definition by definition of its file.
  \<^item> \<open>Cell_Projection\<close>, \<open>Cell_Projection_Properties\<close>, \<open>Cell_Projection_Example\<close>: the projection of
    a run into the result of a cell.
  \<^item> \<open>Dag_Scheduling\<close>: the job of the scheduler; \<open>Dag_Pass\<close> analyses one pass over the nodes,
    \<open>Dag_Properties\<close> and \<open>Dag_Conclusion\<close> state what a pass, a cancellation and a conclusion
    promise, \<open>Dag_Example\<close> applies them.

  \<^bold>\<open>What the lemmas show.\<close> The attempts of every reachable step are numbered without a gap,
  share one operation key, and at most the last is open; a retry follows only a certain failure;
  a settlement conserves the reserved amount; ambiguity is left only with a proof. A run
  completes only with a manifest of its own identity and version whose steps all succeeded; its
  log is contiguous and determines its state; an accepted stop is effective. Compilation orders
  the nodes by their dependencies, refuses exactly the cyclic graphs and does not depend on the
  order of the nodes. A hard quote bounds every sequence of allowed attempts. Contact data is
  allowed only when each stated condition holds. Records, recipes and cell results are accepted
  exactly when they conform to their schema, and a terminal cell result never changes. A recipe
  graph is compiled to an order in which every recipe follows its inputs, or refused for its
  cycle, and its fingerprint determines it. A permitted sourcing job stays within its budget and
  its limits agree. Whatever commands arrive, a generation spends at most the cap of its plan,
  completes only with every page checkpointed, and calls no provider after a stop; the code
  refuses to mark it ambiguous while a later page is in flight. What an encoder writes, its
  decoder reads back, however it is cut; whatever a decoder reads, its records have the scope
  and the types that were asked for, and the strict JSON reader accepts exactly the trees without
  repeated keys within its limits. Revealing a contact changes its identity and nothing else,
  once. The canonical text identifies a content up to the order of members. A refused transition
  stores nothing of the step, an accepted one exactly what the kernel decided, a repeated one is
  replayed without a second permission to perform the effect. A pass of the scheduler makes
  exactly the steps that are due and a second pass makes none; it returns whenever no node lists a
  dependency twice, and any workflow that does gets stuck when that dependency fails. A run is
  cancelled only over an exact ledger and concluded only as its convergence decided, over all of
  its steps, attempts and reservations; the manifest of a concluded run is one from which its
  cell can be projected, and a cell that succeeded has a value that the accepted artifact proves.
  A page of a generation has the evidence of one start, which nothing replaces, and no command
  changes it once it is at an end.

  \<^bold>\<open>Numbers and bounds.\<close> Only the JSON parser uses fuel, twice the length of its text and
  one more; it reads exactly what the grammar reads (\<open>json_tree_iff\<close>). The ordering loop of the compiler
  ends because each iteration lowers the number of ready keys plus the number of keys with
  positive counts (the compiler of recipe graphs likewise, by the dependencies that remain). The
  text of a number is the shortest decimal that rounds to it, searched up to its exact decimal.
  Counters (versions, sequence numbers, instants) are doubles, as in the code;
  statements about them as integers assume what the code checks, safe integers below \<open>2 ^ 53\<close>.
  The statement on hard quotes assumes whole amounts below \<open>2 ^ 50\<close>, for which the compensated
  sum is exact and smaller than the point at which the tolerance of amounts reaches one unit;
  that on the parts of a settlement the same bound, and that on the spending of a generation and
  on the cost of a page whole amounts below \<open>2 ^ 49\<close>, for the same reason.

  \<^bold>\<open>What is not modelled.\<close> Failure messages (codes are), checks for values outside a closed
  union, which the types exclude, and the copies of objects, which are the same values. Identities
  and instants are made by the callers and arrive as arguments; the SHA-256 digest, the parser of
  URLs, the conversion to lower case and the answers of the ports are parameters, and transactions,
  locks and the concurrency of workers are what the ports of the persistence adapters provide. The
  other use cases of \<open>application/src\<close> (planning, claims, routing, cancellation and recovery of leaf
  effects, imports and exports, queries) are orchestration over further ports around the same
  decisions; the PostgreSQL, HTTP, orchestration, effect and provider adapters, the CLI, the SDK,
  the plugin host and the applications are I/O. The generated contracts are schemas.
  The CSV round trip excludes what the code does not keep: lone
  surrogates, a byte order mark at the start of a record identity, and the sign of zero; that of
  JSONL excludes only the sign of zero. A parsed object lists its members in the order of the
  text, which \<open>JSON.parse\<close> changes for keys that are array indices; nothing depends on it.
\<close>

end
